(* ===== verification/Prelude.thy ===== *)
theory Prelude
  imports Main "HOL-Library.Word"
begin

text \<open>
  Shared vocabulary of the development: the C types the modelled code uses on the LP64
  target (u_char, uint32_t, ngx_int_t), byte literals and the byte classes, exhaustive
  reasoning over the 256 bytes, and the incremental byte machine: every parser of the
  program is a loop \<open>for (p = pos; p < last; p++) switch (state)\<close> that may stop at
  any byte (NGX_OK, NGX_DONE, NGX_ERROR) or run out of input (NGX_AGAIN) and be resumed.
\<close>

unbundle bit_operations_syntax

section \<open>Machine types and byte literals\<close>

type_synonym u_char = "8 word"
type_synonym u32 = "32 word"
type_synonym u64 = "64 word"
type_synonym bytes = "u_char list"

text \<open>\<open>ch CHR ''a''\<close> is the byte of a C character literal; \<open>bytes_of ''GET''\<close> that of a C string.\<close>

abbreviation ch :: "char \<Rightarrow> u_char" where
  "ch c \<equiv> of_char c"

abbreviation bytes_of :: "string \<Rightarrow> bytes" where
  "bytes_of s \<equiv> map ch s"

abbreviation (input) LF :: u_char where "LF \<equiv> 10"
abbreviation (input) CR :: u_char where "CR \<equiv> 13"
abbreviation (input) SP :: u_char where "SP \<equiv> 32"

text \<open>The limits of ngx_config.h and auto/types on a 64-bit platform.\<close>

abbreviation (input) NGX_MAX_INT_T_VALUE :: int where
  "NGX_MAX_INT_T_VALUE \<equiv> 9223372036854775807"
abbreviation (input) NGX_MAX_SIZE_T_VALUE :: int where
  "NGX_MAX_SIZE_T_VALUE \<equiv> 9223372036854775807"
abbreviation (input) NGX_MAX_OFF_T_VALUE :: int where
  "NGX_MAX_OFF_T_VALUE \<equiv> 9223372036854775807"
abbreviation (input) NGX_MAX_TIME_T_VALUE :: int where
  "NGX_MAX_TIME_T_VALUE \<equiv> 9223372036854775807"

section \<open>Byte classes\<close>

text \<open>\<open>c >= '0' && c <= '9'\<close>, \<open>(u_char) (c | 0x20)\<close> in \<open>'a'..'z'\<close> or \<open>'a'..'f'\<close>.\<close>

definition is_digit :: "u_char \<Rightarrow> bool" where
  "is_digit c \<longleftrightarrow> ch CHR ''0'' \<le> c \<and> c \<le> ch CHR ''9''"

definition is_alpha20 :: "u_char \<Rightarrow> bool" where
  "is_alpha20 c \<longleftrightarrow> ch CHR ''a'' \<le> (c OR 0x20) \<and> (c OR 0x20) \<le> ch CHR ''z''"

definition is_af20 :: "u_char \<Rightarrow> bool" where
  "is_af20 c \<longleftrightarrow> ch CHR ''a'' \<le> (c OR 0x20) \<and> (c OR 0x20) \<le> ch CHR ''f''"

text \<open>\<open>c - '0'\<close> and \<open>(c | 0x20) - 'a' + 10\<close> after the integer promotion to int.\<close>

definition dval :: "u_char \<Rightarrow> int" where
  "dval c = uint c - 48"

definition xval :: "u_char \<Rightarrow> int" where
  "xval c = (if is_digit c then dval c else uint (c OR 0x20) - 97 + 10)"

definition is_xdigit :: "u_char \<Rightarrow> bool" where
  "is_xdigit c \<longleftrightarrow> is_digit c \<or> is_af20 c"

named_theorems byte_class \<open>definitions of the byte classes, to decide closed byte goals\<close>

declare is_digit_def [byte_class] is_alpha20_def [byte_class] is_af20_def [byte_class]
  dval_def [byte_class] xval_def [byte_class] is_xdigit_def [byte_class]

text \<open>
  A set of bytes as eight 32-bit words: \<open>map[c >> 5] & (1U << (c & 0x1f))\<close>, the test of
  the escaping tables and of the table of usual URI characters.
\<close>

definition in_bitmap :: "u32 list \<Rightarrow> u_char \<Rightarrow> bool" where
  "in_bitmap bm c \<longleftrightarrow> (bm ! unat (drop_bit 5 c)) AND push_bit (unat (c AND 0x1f)) 1 \<noteq> 0"

section \<open>Reasoning over all bytes\<close>

lemma byte_exhaust:
  "list_all P (map (word_of_nat :: nat \<Rightarrow> u_char) [0..<256]) \<Longrightarrow> P b"
proof -
  assume all: "list_all P (map word_of_nat [0..<256])"
  have "unat b \<in> set [0..<256]"
    using unsigned_less [of b, where ?'a = nat] by simp
  then have "P (word_of_nat (unat b))"
    using all by (simp only: list_all_iff set_map ball_simps)
  then show ?thesis by simp
qed

lemma byte_less_exhaust:
  assumes "list_all P (map (word_of_nat :: nat \<Rightarrow> u_char) [0..<n])" "unat b < n"
  shows "P b"
proof -
  have "unat b \<in> set [0..<n]" using assms(2) by simp
  then have "P (word_of_nat (unat b))"
    using assms(1) by (simp only: list_all_iff set_map ball_simps)
  then show ?thesis by simp
qed

text \<open>The 256 bytes in order, as a table to compare the tables of the program with.\<close>

definition all_bytes :: bytes where
  "all_bytes = map of_nat [0..<256]"

lemma all_bytes_list:
  "all_bytes =
    [0, 1, 2, 3, 4, 5, 6, 7, 8, 9, 10, 11, 12, 13, 14, 15, 16, 17, 18, 19, 20, 21, 22, 23,
     24, 25, 26, 27, 28, 29, 30, 31, 32, 33, 34, 35, 36, 37, 38, 39, 40, 41, 42, 43, 44, 45,
     46, 47, 48, 49, 50, 51, 52, 53, 54, 55, 56, 57, 58, 59, 60, 61, 62, 63, 64, 65, 66, 67,
     68, 69, 70, 71, 72, 73, 74, 75, 76, 77, 78, 79, 80, 81, 82, 83, 84, 85, 86, 87, 88, 89,
     90, 91, 92, 93, 94, 95, 96, 97, 98, 99, 100, 101, 102, 103, 104, 105, 106, 107, 108,
     109, 110, 111, 112, 113, 114, 115, 116, 117, 118, 119, 120, 121, 122, 123, 124, 125,
     126, 127, 128, 129, 130, 131, 132, 133, 134, 135, 136, 137, 138, 139, 140, 141, 142,
     143, 144, 145, 146, 147, 148, 149, 150, 151, 152, 153, 154, 155, 156, 157, 158, 159,
     160, 161, 162, 163, 164, 165, 166, 167, 168, 169, 170, 171, 172, 173, 174, 175, 176,
     177, 178, 179, 180, 181, 182, 183, 184, 185, 186, 187, 188, 189, 190, 191, 192, 193,
     194, 195, 196, 197, 198, 199, 200, 201, 202, 203, 204, 205, 206, 207, 208, 209, 210,
     211, 212, 213, 214, 215, 216, 217, 218, 219, 220, 221, 222, 223, 224, 225, 226, 227,
     228, 229, 230, 231, 232, 233, 234, 235, 236, 237, 238, 239, 240, 241, 242, 243, 244,
     245, 246, 247, 248, 249, 250, 251, 252, 253, 254, 255]"
  by (simp add: all_bytes_def upt_rec)

lemma all_bytes_nth: "all_bytes ! unat c = c"
  using unsigned_less [of c, where ?'a = nat] by (simp add: all_bytes_def)

lemma all_bytes_length: "unat (c :: u_char) < length all_bytes"
  using unsigned_less [of c, where ?'a = nat] by (simp add: all_bytes_def)

lemma all_bytes_set: "c \<in> set all_bytes"
  using nth_mem [OF all_bytes_length [of c]] by (simp add: all_bytes_nth)

lemma table_map:
  assumes "map f all_bytes = tab"
  shows "tab ! unat c = f c"
proof -
  have "unat c < length all_bytes" by (rule all_bytes_length)
  then show ?thesis unfolding assms [symmetric] by (simp add: all_bytes_nth)
qed

text \<open>A property of one byte is decided by rewriting its 256 instances.\<close>

lemma byte_all:
  "list_all P
    [0, 1, 2, 3, 4, 5, 6, 7, 8, 9, 10, 11, 12, 13, 14, 15, 16, 17, 18, 19, 20, 21, 22, 23,
     24, 25, 26, 27, 28, 29, 30, 31, 32, 33, 34, 35, 36, 37, 38, 39, 40, 41, 42, 43, 44, 45,
     46, 47, 48, 49, 50, 51, 52, 53, 54, 55, 56, 57, 58, 59, 60, 61, 62, 63, 64, 65, 66, 67,
     68, 69, 70, 71, 72, 73, 74, 75, 76, 77, 78, 79, 80, 81, 82, 83, 84, 85, 86, 87, 88, 89,
     90, 91, 92, 93, 94, 95, 96, 97, 98, 99, 100, 101, 102, 103, 104, 105, 106, 107, 108,
     109, 110, 111, 112, 113, 114, 115, 116, 117, 118, 119, 120, 121, 122, 123, 124, 125,
     126, 127, 128, 129, 130, 131, 132, 133, 134, 135, 136, 137, 138, 139, 140, 141, 142,
     143, 144, 145, 146, 147, 148, 149, 150, 151, 152, 153, 154, 155, 156, 157, 158, 159,
     160, 161, 162, 163, 164, 165, 166, 167, 168, 169, 170, 171, 172, 173, 174, 175, 176,
     177, 178, 179, 180, 181, 182, 183, 184, 185, 186, 187, 188, 189, 190, 191, 192, 193,
     194, 195, 196, 197, 198, 199, 200, 201, 202, 203, 204, 205, 206, 207, 208, 209, 210,
     211, 212, 213, 214, 215, 216, 217, 218, 219, 220, 221, 222, 223, 224, 225, 226, 227,
     228, 229, 230, 231, 232, 233, 234, 235, 236, 237, 238, 239, 240, 241, 242, 243, 244,
     245, 246, 247, 248, 249, 250, 251, 252, 253, 254, 255] \<Longrightarrow> P (b :: u_char)"
  unfolding all_bytes_list [symmetric] all_bytes_def by (rule byte_exhaust)

lemma is_digit_dval [dest]: "is_digit c \<Longrightarrow> 0 \<le> dval c \<and> dval c \<le> 9"
  by (auto simp: is_digit_def dval_def word_le_def)

lemma is_digit_iff_uint: "is_digit c \<longleftrightarrow> 48 \<le> uint c \<and> uint c \<le> 57"
  by (simp add: is_digit_def word_le_def)

lemma xval_range: "is_xdigit c \<Longrightarrow> 0 \<le> xval c \<and> xval c \<le> 15"
  by (auto simp: is_xdigit_def xval_def is_af20_def is_digit_iff_uint dval_def word_le_def)

section \<open>Values written in a base\<close>

text \<open>The number a digit string denotes: the reference for every number parser.\<close>

definition num_val :: "int \<Rightarrow> (u_char \<Rightarrow> int) \<Rightarrow> bytes \<Rightarrow> int" where
  "num_val base dv s = foldl (\<lambda>v c. base * v + dv c) 0 s"

abbreviation dec_val :: "bytes \<Rightarrow> int" where
  "dec_val \<equiv> num_val 10 dval"

abbreviation hex_val :: "bytes \<Rightarrow> int" where
  "hex_val \<equiv> num_val 16 xval"

lemma num_val_Nil [simp]: "num_val b dv [] = 0"
  by (simp add: num_val_def)

lemma num_val_snoc [simp]: "num_val b dv (s @ [c]) = b * num_val b dv s + dv c"
  by (simp add: num_val_def)

lemma num_val_foldl:
  "foldl (\<lambda>v c. b * v + dv c) a s = a * b ^ length s + num_val b dv s"
proof (induction s arbitrary: a rule: rev_induct)
  case Nil
  then show ?case by simp
next
  case (snoc c s)
  then show ?case by (simp add: algebra_simps)
qed

lemma num_val_append: "num_val b dv (s @ t) = num_val b dv s * b ^ length t + num_val b dv t"
proof -
  have "num_val b dv (s @ t) = foldl (\<lambda>v c. b * v + dv c) (num_val b dv s) t"
    by (simp add: num_val_def)
  also have "\<dots> = num_val b dv s * b ^ length t + num_val b dv t"
    by (rule num_val_foldl)
  finally show ?thesis .
qed

lemma num_val_Cons: "num_val b dv (c # s) = dv c * b ^ length s + num_val b dv s"
  using num_val_append [of b dv "[c]" s] by (simp add: num_val_def)

lemma num_val_nonneg:
  "\<lbrakk>0 \<le> b; \<And>c. c \<in> set s \<Longrightarrow> 0 \<le> dv c\<rbrakk> \<Longrightarrow> 0 \<le> num_val b dv s"
  by (induction s rule: rev_induct) auto

lemma dec_val_nonneg: "list_all is_digit s \<Longrightarrow> 0 \<le> dec_val s"
  by (rule num_val_nonneg) (auto simp: list_all_iff)

lemma hex_val_nonneg: "list_all is_xdigit s \<Longrightarrow> 0 \<le> hex_val s"
  by (rule num_val_nonneg) (auto simp: list_all_iff dest: xval_range)

lemma le_div_iff_mult_le:
  fixes n m k :: int
  assumes "0 < k"
  shows "n \<le> m div k \<longleftrightarrow> n * k \<le> m"
proof
  assume "n \<le> m div k"
  then have "n * k \<le> m div k * k" using assms by (simp add: mult_right_mono)
  also have "\<dots> \<le> m" using assms by (smt (verit) div_mult_mod_eq pos_mod_sign)
  finally show "n * k \<le> m" .
next
  assume "n * k \<le> m"
  then have "n * k div k \<le> m div k" using assms by (rule zdiv_mono1)
  then show "n \<le> m div k" using assms by simp
qed

section \<open>Shifts and masks as arithmetic\<close>

named_theorems word_arith \<open>shifts and masks of machine words read as div and mod\<close>

lemma unat_drop_bit [word_arith]: "unat (drop_bit n (w :: 'a::len word)) = unat w div 2 ^ n"
  unfolding unsigned_drop_bit_eq by (simp add: drop_bit_eq_div take_bit_nat_eq_self)

lemma uint_drop_bit [word_arith]: "uint (drop_bit n (w :: 'a::len word)) = uint w div 2 ^ n"
  unfolding uint_nat unat_drop_bit by (simp add: zdiv_int)

lemma unat_and_mask: "unat (w AND mask n) = unat (w :: 'a::len word) mod 2 ^ n"
  by (simp flip: take_bit_eq_mask add: unsigned_take_bit_eq) (simp add: take_bit_eq_mod)

lemma uint_and_mask: "uint (w AND mask n) = uint (w :: 'a::len word) mod 2 ^ n"
  by (simp flip: take_bit_eq_mask add: unsigned_take_bit_eq) (simp add: take_bit_eq_mod)

lemma unat_and_numeral [word_arith]:
  "unat (w AND 3) = unat (w :: 'a::len word) mod 4"
  "unat (w AND 15) = unat w mod 16"
  "unat (w AND 31) = unat w mod 32"
  "unat (w AND 63) = unat w mod 64"
  "unat (w AND 255) = unat w mod 256"
  using unat_and_mask [of w 2] unat_and_mask [of w 4] unat_and_mask [of w 5]
    unat_and_mask [of w 6] unat_and_mask [of w 8]
  by (simp_all add: mask_eq_exp_minus_1)

lemma unat_of_nat_lt: "n < 2 ^ LENGTH('a) \<Longrightarrow> unat (of_nat n :: 'a::len word) = n"
  by (simp add: unsigned_of_nat take_bit_nat_eq_self)

lemma table_rows: "length tab = 256 \<Longrightarrow> map (\<lambda>c. tab ! unat c) all_bytes = tab"
  by (rule nth_equalityI) (simp_all add: all_bytes_def unat_of_nat_lt)

lemma byte_bit_high [simp]: "8 \<le> n \<Longrightarrow> \<not> bit (b :: u_char) n"
  using bit_imp_le_length [of b n] by auto

text \<open>Two bytes are equal when their eight bits are: shifts of known distance then evaluate.\<close>

lemma byte_eqI:
  "\<lbrakk>bit a 0 = bit b 0; bit a 1 = bit b 1; bit a 2 = bit b 2; bit a 3 = bit b 3; bit a 4 = bit b 4;
    bit a 5 = bit b 5; bit a 6 = bit b 6; bit a 7 = bit b 7\<rbrakk> \<Longrightarrow> a = (b :: u_char)"
proof (rule bit_word_eqI)
  fix n
  assume bits: "bit a 0 = bit b 0" "bit a 1 = bit b 1" "bit a 2 = bit b 2" "bit a 3 = bit b 3"
    "bit a 4 = bit b 4" "bit a 5 = bit b 5" "bit a 6 = bit b 6" "bit a 7 = bit b 7"
  assume "n < LENGTH(8)"
  then have "n \<in> {0, 1, 2, 3, 4, 5, 6, 7}" by (simp, arith)
  with bits show "bit a n = bit b n" by blast
qed

lemma unat_byte_less: "unat (c :: u_char) < 256"
  using unsigned_less [of c, where ?'a = nat] by simp

section \<open>The incremental byte machine\<close>

text \<open>
  One byte either leaves the parser in a new state or halts it. \<open>feed\<close> is the
  \<open>for\<close> loop: \<open>Go s\<close> is NGX_AGAIN with everything consumed, \<open>Halt (r, rest)\<close> the
  return from inside the loop with \<open>rest\<close> the bytes after the one it stopped at.
\<close>

datatype ('s, 'r) outcome = Go 's | Halt 'r

fun feed :: "('s \<Rightarrow> u_char \<Rightarrow> ('s, 'r) outcome) \<Rightarrow> 's \<Rightarrow> bytes \<Rightarrow> ('s, 'r \<times> bytes) outcome" where
  "feed step s [] = Go s"
| "feed step s (c # cs) =
     (case step s c of
        Go s' \<Rightarrow> feed step s' cs
      | Halt r \<Rightarrow> Halt (r, cs))"

text \<open>Resuming after NGX_AGAIN is parsing the whole input: where a packet ends does not matter.\<close>

lemma feed_append:
  "feed step s (xs @ ys) =
     (case feed step s xs of
        Go s' \<Rightarrow> feed step s' ys
      | Halt (r, rest) \<Rightarrow> Halt (r, rest @ ys))"
  by (induction xs arbitrary: s) (auto split: outcome.splits)

lemma feed_Go_append: "feed step s xs = Go s' \<Longrightarrow> feed step s (xs @ ys) = feed step s' ys"
  by (simp add: feed_append)

lemma feed_Halt_suffix: "feed step s xs = Halt (r, rest) \<Longrightarrow> \<exists>pre. xs = pre @ rest \<and> pre \<noteq> []"
proof (induction xs arbitrary: s)
  case Nil
  then show ?case by simp
next
  case (Cons c xs)
  show ?case
  proof (cases "step s c")
    case (Go s')
    with Cons obtain pre where "xs = pre @ rest" by auto
    then have "c # xs = (c # pre) @ rest" by simp
    then show ?thesis by blast
  next
    case (Halt r')
    with Cons.prems have "c # xs = [c] @ rest" by simp
    then show ?thesis by blast
  qed
qed

text \<open>
  The contract between a parser and its driver: a step keeps the parser's invariant and,
  when it halts, delivers a result that satisfies the postcondition. What it gives is
  proved once for whole inputs, however they are split.
\<close>

locale byte_machine =
  fixes step :: "'s \<Rightarrow> u_char \<Rightarrow> ('s, 'r) outcome"
    and inv :: "'s \<Rightarrow> bool"
    and post :: "'r \<Rightarrow> bool"
  assumes step_Go: "\<lbrakk>inv s; step s c = Go s'\<rbrakk> \<Longrightarrow> inv s'"
    and step_Halt: "\<lbrakk>inv s; step s c = Halt r\<rbrakk> \<Longrightarrow> post r"
begin

lemma feed_sound:
  "inv s \<Longrightarrow> (case feed step s xs of Go s' \<Rightarrow> inv s' | Halt (r, rest) \<Rightarrow> post r)"
proof (induction xs arbitrary: s)
  case Nil
  then show ?case by simp
next
  case (Cons c xs)
  show ?case
  proof (cases "step s c")
    case (Go s')
    with Cons.prems have "inv s'" by (rule step_Go)
    with Go Cons.IH show ?thesis by simp
  next
    case (Halt r)
    with Cons.prems have "post r" by (rule step_Halt)
    with Halt show ?thesis by simp
  qed
qed

lemma feed_inv: "\<lbrakk>inv s; feed step s xs = Go s'\<rbrakk> \<Longrightarrow> inv s'"
  using feed_sound [of s xs] by simp

lemma feed_post: "\<lbrakk>inv s; feed step s xs = Halt (r, rest)\<rbrakk> \<Longrightarrow> post r"
  using feed_sound [of s xs] by simp

end

section \<open>Encoders and decoders\<close>

text \<open>
  The contract of a pair of encode and decode operations: decoding what was encoded gives
  the value back. Its clients need that encoding is injective and that decoding inverts
  encoding pointwise.
\<close>

locale codec =
  fixes enc :: "'a \<Rightarrow> bytes"
    and dec :: "bytes \<Rightarrow> 'a option"
    and dom_ok :: "'a \<Rightarrow> bool"
  assumes dec_enc: "dom_ok x \<Longrightarrow> dec (enc x) = Some x"
begin

lemma enc_inj: "\<lbrakk>dom_ok x; dom_ok y; enc x = enc y\<rbrakk> \<Longrightarrow> x = y"
  by (metis dec_enc option.inject)

lemma enc_inj_on: "inj_on enc {x. dom_ok x}"
  by (rule inj_onI, rule enc_inj) simp_all

end

end
