(* ===== verification/Http_Request_Line.thy ===== *)
theory Http_Request_Line
  imports Prelude
begin

text \<open>
  ngx_http_parse_request_line() of src/http/ngx_http_parse.c, one definition per \<open>case sw_...\<close>
  of its switch. Pointers into the client header buffer are offsets; NULL is None. The
  parser state is the part of ngx_http_request_t that the function reads and writes;
  \<open>pos\<close> is the loop variable p, stored in b->pos on NGX_AGAIN.
\<close>

section \<open>The table of usual URI characters\<close>

text \<open>All bytes but NUL, LF, CR, space and \<open># % + . / ?\<close>: \<open>usual\<close> without NGX_WIN32.\<close>

definition usual :: "u32 list" where
  "usual = [0xffffdbfe, 0x7fff37d6, 0xffffffff, 0xffffffff,
            0xffffffff, 0xffffffff, 0xffffffff, 0xffffffff]"

definition is_usual :: "u_char \<Rightarrow> bool" where
  "is_usual c \<longleftrightarrow> in_bitmap usual c"

lemma usual_not:
  "is_usual c \<Longrightarrow> c \<notin> {0, LF, CR, SP, ch CHR ''#'', ch CHR ''%'', ch CHR ''+'', ch CHR ''.'',
     ch CHR ''/'', ch CHR ''?''}"
  by (auto simp: is_usual_def in_bitmap_def usual_def)

section \<open>State\<close>

datatype http_method = NGX_HTTP_UNKNOWN | NGX_HTTP_GET | NGX_HTTP_HEAD | NGX_HTTP_POST
  | NGX_HTTP_PUT | NGX_HTTP_DELETE | NGX_HTTP_MKCOL | NGX_HTTP_COPY | NGX_HTTP_MOVE
  | NGX_HTTP_OPTIONS | NGX_HTTP_PROPFIND | NGX_HTTP_PROPPATCH | NGX_HTTP_LOCK
  | NGX_HTTP_UNLOCK | NGX_HTTP_PATCH | NGX_HTTP_TRACE

datatype rl_state = sw_start | sw_method | sw_spaces_before_uri | sw_schema | sw_schema_slash
  | sw_schema_slash_slash | sw_host_start | sw_host | sw_host_end | sw_host_ip_literal
  | sw_port | sw_host_http_09 | sw_after_slash_in_uri | sw_check_uri | sw_check_uri_http_09
  | sw_uri | sw_http_09 | sw_http_H | sw_http_HT | sw_http_HTT | sw_http_HTTP
  | sw_first_major_digit | sw_major_digit | sw_first_minor_digit | sw_minor_digit
  | sw_spaces_after_digit | sw_almost_done

datatype rl_rc = NGX_OK | NGX_HTTP_PARSE_INVALID_METHOD | NGX_HTTP_PARSE_INVALID_REQUEST
  | NGX_HTTP_PARSE_INVALID_VERSION | NGX_HTTP_PARSE_INVALID_09_METHOD

record request =
  state :: rl_state
  pos :: nat
  http_method :: http_method
  request_start :: "nat option"
  request_end :: "nat option"
  method_end :: "nat option"
  schema_start :: "nat option"
  schema_end :: "nat option"
  host_start :: "nat option"
  host_end :: "nat option"
  port_end :: "nat option"
  uri_start :: "nat option"
  uri_end :: "nat option"
  uri_ext :: "nat option"
  args_start :: "nat option"
  http_protocol :: "nat option"
  complex_uri :: bool
  quoted_uri :: bool
  plus_in_uri :: bool
  space_in_uri :: bool
  http_major :: nat
  http_minor :: nat
  http_version :: nat

text \<open>A fresh request: ngx_pcalloc, and \<open>r->method = NGX_HTTP_UNKNOWN\<close>; parsing starts at \<open>p\<close>.\<close>

definition request_init :: "nat \<Rightarrow> request" where
  "request_init p = \<lparr> state = sw_start, pos = p, http_method = NGX_HTTP_UNKNOWN,
     request_start = None, request_end = None, method_end = None,
     schema_start = None, schema_end = None, host_start = None, host_end = None,
     port_end = None, uri_start = None, uri_end = None, uri_ext = None, args_start = None,
     http_protocol = None, complex_uri = False, quoted_uri = False, plus_in_uri = False,
     space_in_uri = False, http_major = 0, http_minor = 0, http_version = 0 \<rparr>"

type_synonym rl_out = "(request, rl_rc \<times> request) outcome"

definition off :: "nat option \<Rightarrow> nat" where
  "off q = (case q of None \<Rightarrow> 0 | Some k \<Rightarrow> k)"

section \<open>Methods\<close>

text \<open>\<open>(ch < 'A' || ch > 'Z') && ch != '_' && ch != '-'\<close> refuses the byte.\<close>

definition is_method_char :: "u_char \<Rightarrow> bool" where
  "is_method_char c \<longleftrightarrow>
     (ch CHR ''A'' \<le> c \<and> c \<le> ch CHR ''Z'') \<or> c = ch CHR ''_'' \<or> c = ch CHR ''-''"

definition ngx_str_cmp :: "bytes \<Rightarrow> nat \<Rightarrow> string \<Rightarrow> bool" where
  "ngx_str_cmp buf m s \<longleftrightarrow> take (length s) (drop m buf) = bytes_of s"

text \<open>The switch over \<open>p - m\<close>; None leaves r->method as it is.\<close>

definition rl_method_of :: "bytes \<Rightarrow> nat \<Rightarrow> nat \<Rightarrow> http_method option" where
  "rl_method_of buf m n =
     (if n = 3 then
        (if ngx_str_cmp buf m ''GET '' then Some NGX_HTTP_GET
         else if ngx_str_cmp buf m ''PUT '' then Some NGX_HTTP_PUT
         else None)
      else if n = 4 then
        (if take 1 (drop (m + 1) buf) = bytes_of ''O'' then
           (if ngx_str_cmp buf m ''POST'' then Some NGX_HTTP_POST
            else if ngx_str_cmp buf m ''COPY'' then Some NGX_HTTP_COPY
            else if ngx_str_cmp buf m ''MOVE'' then Some NGX_HTTP_MOVE
            else if ngx_str_cmp buf m ''LOCK'' then Some NGX_HTTP_LOCK
            else None)
         else if ngx_str_cmp buf m ''HEAD'' then Some NGX_HTTP_HEAD
         else None)
      else if n = 5 then
        (if ngx_str_cmp buf m ''MKCOL'' then Some NGX_HTTP_MKCOL
         else if ngx_str_cmp buf m ''PATCH'' then Some NGX_HTTP_PATCH
         else if ngx_str_cmp buf m ''TRACE'' then Some NGX_HTTP_TRACE
         else None)
      else if n = 6 then
        (if ngx_str_cmp buf m ''DELETE'' then Some NGX_HTTP_DELETE
         else if ngx_str_cmp buf m ''UNLOCK'' then Some NGX_HTTP_UNLOCK
         else None)
      else if n = 7 then
        (if ngx_str_cmp buf m ''OPTIONS '' then Some NGX_HTTP_OPTIONS else None)
      else if n = 8 then
        (if ngx_str_cmp buf m ''PROPFIND'' then Some NGX_HTTP_PROPFIND else None)
      else if n = 9 then
        (if ngx_str_cmp buf m ''PROPPATCH'' then Some NGX_HTTP_PROPPATCH else None)
      else None)"

section \<open>The cases of the switch\<close>

text \<open>\<open>goto done\<close>.\<close>

definition rl_done :: "request \<Rightarrow> rl_out" where
  "rl_done r =
     (let r = r\<lparr>request_end := (case request_end r of None \<Rightarrow> Some (pos r) | Some e \<Rightarrow> Some e)\<rparr>;
          r = r\<lparr>http_version := http_major r * 1000 + http_minor r, state := sw_start\<rparr>
      in if http_version r = 9 \<and> http_method r \<noteq> NGX_HTTP_GET
         then Halt (NGX_HTTP_PARSE_INVALID_09_METHOD, r\<lparr>pos := pos r + 1\<rparr>)
         else Halt (NGX_OK, r\<lparr>pos := pos r + 1\<rparr>))"

definition rl_start :: "request \<Rightarrow> u_char \<Rightarrow> rl_out" where
  "rl_start r c =
     (let r = r\<lparr>request_start := Some (pos r)\<rparr>
      in if c = CR \<or> c = LF then Go r
         else if \<not> is_method_char c then Halt (NGX_HTTP_PARSE_INVALID_METHOD, r)
         else Go (r\<lparr>state := sw_method\<rparr>))"

definition rl_method :: "bytes \<Rightarrow> request \<Rightarrow> u_char \<Rightarrow> rl_out" where
  "rl_method buf r c =
     (if c = ch CHR '' '' then
        (let r = r\<lparr>method_end := Some (pos r - 1)\<rparr>;
             m = off (request_start r);
             r = (case rl_method_of buf m (pos r - m) of
                    Some k \<Rightarrow> r\<lparr>http_method := k\<rparr> | None \<Rightarrow> r)
         in Go (r\<lparr>state := sw_spaces_before_uri\<rparr>))
      else if \<not> is_method_char c then Halt (NGX_HTTP_PARSE_INVALID_METHOD, r)
      else Go r)"

definition rl_spaces_before_uri :: "request \<Rightarrow> u_char \<Rightarrow> rl_out" where
  "rl_spaces_before_uri r c =
     (if c = ch CHR ''/'' then Go (r\<lparr>uri_start := Some (pos r), state := sw_after_slash_in_uri\<rparr>)
      else if is_alpha20 c then Go (r\<lparr>schema_start := Some (pos r), state := sw_schema\<rparr>)
      else if c = ch CHR '' '' then Go r
      else Halt (NGX_HTTP_PARSE_INVALID_REQUEST, r))"

definition rl_schema :: "request \<Rightarrow> u_char \<Rightarrow> rl_out" where
  "rl_schema r c =
     (if is_alpha20 c then Go r
      else if c = ch CHR '':'' then Go (r\<lparr>schema_end := Some (pos r), state := sw_schema_slash\<rparr>)
      else Halt (NGX_HTTP_PARSE_INVALID_REQUEST, r))"

definition rl_schema_slash :: "request \<Rightarrow> u_char \<Rightarrow> rl_out" where
  "rl_schema_slash r c =
     (if c = ch CHR ''/'' then Go (r\<lparr>state := sw_schema_slash_slash\<rparr>)
      else Halt (NGX_HTTP_PARSE_INVALID_REQUEST, r))"

definition rl_schema_slash_slash :: "request \<Rightarrow> u_char \<Rightarrow> rl_out" where
  "rl_schema_slash_slash r c =
     (if c = ch CHR ''/'' then Go (r\<lparr>state := sw_host_start\<rparr>)
      else Halt (NGX_HTTP_PARSE_INVALID_REQUEST, r))"

text \<open>The single "/" of the request line stands for the URI of \<open>http://host \<close>.\<close>

definition rl_slash_of_schema :: "request \<Rightarrow> request" where
  "rl_slash_of_schema r =
     r\<lparr>uri_start := Some (off (schema_end r) + 1), uri_end := Some (off (schema_end r) + 2),
       state := sw_host_http_09\<rparr>"

definition rl_host_end :: "request \<Rightarrow> u_char \<Rightarrow> rl_out" where
  "rl_host_end r c =
     (let r = r\<lparr>host_end := Some (pos r)\<rparr>
      in if c = ch CHR '':'' then Go (r\<lparr>state := sw_port\<rparr>)
         else if c = ch CHR ''/'' then
           Go (r\<lparr>uri_start := Some (pos r), state := sw_after_slash_in_uri\<rparr>)
         else if c = ch CHR '' '' then Go (rl_slash_of_schema r)
         else Halt (NGX_HTTP_PARSE_INVALID_REQUEST, r))"

definition rl_host :: "request \<Rightarrow> u_char \<Rightarrow> rl_out" where
  "rl_host r c =
     (if is_alpha20 c then Go r
      else if is_digit c \<or> c = ch CHR ''.'' \<or> c = ch CHR ''-'' then Go r
      else rl_host_end r c)"

definition rl_host_start :: "request \<Rightarrow> u_char \<Rightarrow> rl_out" where
  "rl_host_start r c =
     (let r = r\<lparr>host_start := Some (pos r)\<rparr>
      in if c = ch CHR ''['' then Go (r\<lparr>state := sw_host_ip_literal\<rparr>)
         else rl_host (r\<lparr>state := sw_host\<rparr>) c)"

definition rl_host_ip_literal :: "request \<Rightarrow> u_char \<Rightarrow> rl_out" where
  "rl_host_ip_literal r c =
     (if is_digit c then Go r
      else if is_alpha20 c then Go r
      else if c = ch CHR '':'' then Go r
      else if c = ch CHR '']'' then Go (r\<lparr>state := sw_host_end\<rparr>)
      else if c \<in> set (bytes_of ''-._~'') then Go r
      else if c \<in> set (bytes_of ''!$&'' @ [39] @ bytes_of ''()*+,;='') then Go r
      else Halt (NGX_HTTP_PARSE_INVALID_REQUEST, r))"

definition rl_port :: "request \<Rightarrow> u_char \<Rightarrow> rl_out" where
  "rl_port r c =
     (if is_digit c then Go r
      else if c = ch CHR ''/'' then
        Go (r\<lparr>port_end := Some (pos r), uri_start := Some (pos r), state := sw_after_slash_in_uri\<rparr>)
      else if c = ch CHR '' '' then Go (rl_slash_of_schema (r\<lparr>port_end := Some (pos r)\<rparr>))
      else Halt (NGX_HTTP_PARSE_INVALID_REQUEST, r))"

text \<open>The blanks after a URI without a version: the rest of the cases sw_host_http_09,
  sw_check_uri_http_09 and sw_http_09, which differ in what another byte does.\<close>

definition rl_after_uri :: "(request \<Rightarrow> u_char \<Rightarrow> rl_out) \<Rightarrow> request \<Rightarrow> u_char \<Rightarrow> rl_out" where
  "rl_after_uri other r c =
     (if c = ch CHR '' '' then Go r
      else if c = CR then Go (r\<lparr>http_minor := 9, state := sw_almost_done\<rparr>)
      else if c = LF then rl_done (r\<lparr>http_minor := 9\<rparr>)
      else if c = ch CHR ''H'' then Go (r\<lparr>http_protocol := Some (pos r), state := sw_http_H\<rparr>)
      else other r c)"

definition rl_host_http_09 :: "request \<Rightarrow> u_char \<Rightarrow> rl_out" where
  "rl_host_http_09 = rl_after_uri (\<lambda>r c. Halt (NGX_HTTP_PARSE_INVALID_REQUEST, r))"

definition rl_after_slash_in_uri :: "request \<Rightarrow> u_char \<Rightarrow> rl_out" where
  "rl_after_slash_in_uri r c =
     (if is_usual c then Go (r\<lparr>state := sw_check_uri\<rparr>)
      else if c = ch CHR '' '' then Go (r\<lparr>uri_end := Some (pos r), state := sw_check_uri_http_09\<rparr>)
      else if c = CR then
        Go (r\<lparr>uri_end := Some (pos r), http_minor := 9, state := sw_almost_done\<rparr>)
      else if c = LF then rl_done (r\<lparr>uri_end := Some (pos r), http_minor := 9\<rparr>)
      else if c = ch CHR ''.'' then Go (r\<lparr>complex_uri := True, state := sw_uri\<rparr>)
      else if c = ch CHR ''%'' then Go (r\<lparr>quoted_uri := True, state := sw_uri\<rparr>)
      else if c = ch CHR ''/'' then Go (r\<lparr>complex_uri := True, state := sw_uri\<rparr>)
      else if c = ch CHR ''?'' then Go (r\<lparr>args_start := Some (pos r + 1), state := sw_uri\<rparr>)
      else if c = ch CHR ''#'' then Go (r\<lparr>complex_uri := True, state := sw_uri\<rparr>)
      else if c = ch CHR ''+'' then Go (r\<lparr>plus_in_uri := True\<rparr>)
      else if c = 0 then Halt (NGX_HTTP_PARSE_INVALID_REQUEST, r)
      else Go (r\<lparr>state := sw_check_uri\<rparr>))"

definition rl_check_uri :: "request \<Rightarrow> u_char \<Rightarrow> rl_out" where
  "rl_check_uri r c =
     (if is_usual c then Go r
      else if c = ch CHR ''/'' then Go (r\<lparr>uri_ext := None, state := sw_after_slash_in_uri\<rparr>)
      else if c = ch CHR ''.'' then Go (r\<lparr>uri_ext := Some (pos r + 1)\<rparr>)
      else if c = ch CHR '' '' then Go (r\<lparr>uri_end := Some (pos r), state := sw_check_uri_http_09\<rparr>)
      else if c = CR then
        Go (r\<lparr>uri_end := Some (pos r), http_minor := 9, state := sw_almost_done\<rparr>)
      else if c = LF then rl_done (r\<lparr>uri_end := Some (pos r), http_minor := 9\<rparr>)
      else if c = ch CHR ''%'' then Go (r\<lparr>quoted_uri := True, state := sw_uri\<rparr>)
      else if c = ch CHR ''?'' then Go (r\<lparr>args_start := Some (pos r + 1), state := sw_uri\<rparr>)
      else if c = ch CHR ''#'' then Go (r\<lparr>complex_uri := True, state := sw_uri\<rparr>)
      else if c = ch CHR ''+'' then Go (r\<lparr>plus_in_uri := True\<rparr>)
      else if c = 0 then Halt (NGX_HTTP_PARSE_INVALID_REQUEST, r)
      else Go r)"

text \<open>\<open>state = ...; p--\<close>: the byte is taken again in the other state.\<close>

definition rl_check_uri_http_09 :: "request \<Rightarrow> u_char \<Rightarrow> rl_out" where
  "rl_check_uri_http_09 =
     rl_after_uri (\<lambda>r c. rl_check_uri (r\<lparr>space_in_uri := True, state := sw_check_uri\<rparr>) c)"

definition rl_uri :: "request \<Rightarrow> u_char \<Rightarrow> rl_out" where
  "rl_uri r c =
     (if is_usual c then Go r
      else if c = ch CHR '' '' then Go (r\<lparr>uri_end := Some (pos r), state := sw_http_09\<rparr>)
      else if c = CR then
        Go (r\<lparr>uri_end := Some (pos r), http_minor := 9, state := sw_almost_done\<rparr>)
      else if c = LF then rl_done (r\<lparr>uri_end := Some (pos r), http_minor := 9\<rparr>)
      else if c = ch CHR ''#'' then Go (r\<lparr>complex_uri := True\<rparr>)
      else if c = 0 then Halt (NGX_HTTP_PARSE_INVALID_REQUEST, r)
      else Go r)"

definition rl_http_09 :: "request \<Rightarrow> u_char \<Rightarrow> rl_out" where
  "rl_http_09 =
     rl_after_uri (\<lambda>r c. rl_uri (r\<lparr>space_in_uri := True, state := sw_uri\<rparr>) c)"

text \<open>The letters of \<open>HTTP/\<close>.\<close>

definition rl_expect :: "char \<Rightarrow> rl_state \<Rightarrow> request \<Rightarrow> u_char \<Rightarrow> rl_out" where
  "rl_expect k next_state r c =
     (if c = ch k then Go (r\<lparr>state := next_state\<rparr>)
      else Halt (NGX_HTTP_PARSE_INVALID_REQUEST, r))"

definition rl_first_major_digit :: "request \<Rightarrow> u_char \<Rightarrow> rl_out" where
  "rl_first_major_digit r c =
     (if c < ch CHR ''1'' \<or> c > ch CHR ''9'' then Halt (NGX_HTTP_PARSE_INVALID_REQUEST, r)
      else
        (let r = r\<lparr>http_major := nat (dval c)\<rparr>
         in if http_major r > 1 then Halt (NGX_HTTP_PARSE_INVALID_VERSION, r)
            else Go (r\<lparr>state := sw_major_digit\<rparr>)))"

definition rl_major_digit :: "request \<Rightarrow> u_char \<Rightarrow> rl_out" where
  "rl_major_digit r c =
     (if c = ch CHR ''.'' then Go (r\<lparr>state := sw_first_minor_digit\<rparr>)
      else if \<not> is_digit c then Halt (NGX_HTTP_PARSE_INVALID_REQUEST, r)
      else
        (let r = r\<lparr>http_major := http_major r * 10 + nat (dval c)\<rparr>
         in if http_major r > 1 then Halt (NGX_HTTP_PARSE_INVALID_VERSION, r) else Go r))"

definition rl_first_minor_digit :: "request \<Rightarrow> u_char \<Rightarrow> rl_out" where
  "rl_first_minor_digit r c =
     (if \<not> is_digit c then Halt (NGX_HTTP_PARSE_INVALID_REQUEST, r)
      else Go (r\<lparr>http_minor := nat (dval c), state := sw_minor_digit\<rparr>))"

definition rl_minor_digit :: "request \<Rightarrow> u_char \<Rightarrow> rl_out" where
  "rl_minor_digit r c =
     (if c = CR then Go (r\<lparr>state := sw_almost_done\<rparr>)
      else if c = LF then rl_done r
      else if c = ch CHR '' '' then Go (r\<lparr>state := sw_spaces_after_digit\<rparr>)
      else if \<not> is_digit c then Halt (NGX_HTTP_PARSE_INVALID_REQUEST, r)
      else if http_minor r > 99 then Halt (NGX_HTTP_PARSE_INVALID_REQUEST, r)
      else Go (r\<lparr>http_minor := http_minor r * 10 + nat (dval c)\<rparr>))"

definition rl_spaces_after_digit :: "request \<Rightarrow> u_char \<Rightarrow> rl_out" where
  "rl_spaces_after_digit r c =
     (if c = ch CHR '' '' then Go r
      else if c = CR then Go (r\<lparr>state := sw_almost_done\<rparr>)
      else if c = LF then rl_done r
      else Halt (NGX_HTTP_PARSE_INVALID_REQUEST, r))"

definition rl_almost_done :: "request \<Rightarrow> u_char \<Rightarrow> rl_out" where
  "rl_almost_done r c =
     (let r = r\<lparr>request_end := Some (pos r - 1)\<rparr>
      in if c = LF then rl_done r else Halt (NGX_HTTP_PARSE_INVALID_REQUEST, r))"

section \<open>The loop\<close>

definition rl_case :: "bytes \<Rightarrow> request \<Rightarrow> u_char \<Rightarrow> rl_out" where
  "rl_case buf r c =
     (case state r of
        sw_start \<Rightarrow> rl_start r c
      | sw_method \<Rightarrow> rl_method buf r c
      | sw_spaces_before_uri \<Rightarrow> rl_spaces_before_uri r c
      | sw_schema \<Rightarrow> rl_schema r c
      | sw_schema_slash \<Rightarrow> rl_schema_slash r c
      | sw_schema_slash_slash \<Rightarrow> rl_schema_slash_slash r c
      | sw_host_start \<Rightarrow> rl_host_start r c
      | sw_host \<Rightarrow> rl_host r c
      | sw_host_end \<Rightarrow> rl_host_end r c
      | sw_host_ip_literal \<Rightarrow> rl_host_ip_literal r c
      | sw_port \<Rightarrow> rl_port r c
      | sw_host_http_09 \<Rightarrow> rl_host_http_09 r c
      | sw_after_slash_in_uri \<Rightarrow> rl_after_slash_in_uri r c
      | sw_check_uri \<Rightarrow> rl_check_uri r c
      | sw_check_uri_http_09 \<Rightarrow> rl_check_uri_http_09 r c
      | sw_uri \<Rightarrow> rl_uri r c
      | sw_http_09 \<Rightarrow> rl_http_09 r c
      | sw_http_H \<Rightarrow> rl_expect CHR ''T'' sw_http_HT r c
      | sw_http_HT \<Rightarrow> rl_expect CHR ''T'' sw_http_HTT r c
      | sw_http_HTT \<Rightarrow> rl_expect CHR ''P'' sw_http_HTTP r c
      | sw_http_HTTP \<Rightarrow> rl_expect CHR ''/'' sw_first_major_digit r c
      | sw_first_major_digit \<Rightarrow> rl_first_major_digit r c
      | sw_major_digit \<Rightarrow> rl_major_digit r c
      | sw_first_minor_digit \<Rightarrow> rl_first_minor_digit r c
      | sw_minor_digit \<Rightarrow> rl_minor_digit r c
      | sw_spaces_after_digit \<Rightarrow> rl_spaces_after_digit r c
      | sw_almost_done \<Rightarrow> rl_almost_done r c)"

definition rl_step :: "bytes \<Rightarrow> request \<Rightarrow> u_char \<Rightarrow> rl_out" where
  "rl_step buf r c =
     (case rl_case buf r c of Go r' \<Rightarrow> Go (r'\<lparr>pos := pos r' + 1\<rparr>) | Halt h \<Rightarrow> Halt h)"

text \<open>\<open>buf\<close> is what has been received; parsing goes on at b->pos. \<open>Go\<close> is NGX_AGAIN.\<close>

definition ngx_http_parse_request_line ::
  "request \<Rightarrow> bytes \<Rightarrow> (request, (rl_rc \<times> request) \<times> bytes) outcome" where
  "ngx_http_parse_request_line r buf = feed (rl_step buf) r (drop (pos r) buf)"

section \<open>Resuming after NGX_AGAIN\<close>

lemmas rl_leaf_defs =
  rl_done_def rl_start_def rl_method_def rl_spaces_before_uri_def rl_schema_def
  rl_schema_slash_def rl_schema_slash_slash_def rl_slash_of_schema_def rl_host_end_def
  rl_host_def rl_host_start_def rl_host_ip_literal_def rl_port_def rl_after_uri_def
  rl_host_http_09_def rl_after_slash_in_uri_def rl_check_uri_def rl_check_uri_http_09_def
  rl_uri_def rl_http_09_def rl_expect_def rl_first_major_digit_def rl_major_digit_def
  rl_first_minor_digit_def rl_minor_digit_def rl_spaces_after_digit_def rl_almost_done_def

lemma rl_case_pos: "rl_case buf r c = Go r' \<Longrightarrow> pos r' = pos r"
  by (cases "state r")
    (auto simp: rl_case_def rl_leaf_defs Let_def split: if_splits option.splits)

lemma rl_step_pos: "rl_step buf r c = Go r' \<Longrightarrow> pos r' = Suc (pos r)"
  by (auto simp: rl_step_def dest: rl_case_pos split: outcome.splits)

lemma ngx_str_cmp_append:
  "m + length s \<le> length buf \<Longrightarrow> ngx_str_cmp (buf @ ys) m s = ngx_str_cmp buf m s"
  by (simp add: ngx_str_cmp_def)

lemma rl_method_of_append:
  assumes "m + n < length buf"
  shows "rl_method_of (buf @ ys) m n = rl_method_of buf m n"
  using assms by (simp add: rl_method_of_def ngx_str_cmp_append)

lemma rl_step_append:
  assumes "pos r < length buf"
  shows "rl_step (buf @ ys) r c = rl_step buf r c"
proof -
  let ?m = "off (request_start r)"
  have "rl_method_of (buf @ ys) ?m (pos r - ?m) = rl_method_of buf ?m (pos r - ?m)"
  proof (cases "pos r - ?m = 0")
    case True
    then show ?thesis by (simp add: rl_method_of_def)
  next
    case False
    with assms show ?thesis by (simp add: rl_method_of_append)
  qed
  then have "rl_method (buf @ ys) r c = rl_method buf r c" by (simp add: rl_method_def Let_def)
  then show ?thesis by (simp add: rl_step_def rl_case_def split: rl_state.split)
qed

lemma rl_feed_append:
  "pos r + length xs \<le> length buf \<Longrightarrow>
   feed (rl_step (buf @ ys)) r xs = feed (rl_step buf) r xs"
proof (induction xs arbitrary: r)
  case Nil
  then show ?case by simp
next
  case (Cons c xs)
  then show ?case
    by (auto simp: rl_step_append dest: rl_step_pos split: outcome.split)
qed

lemma rl_feed_pos: "feed (rl_step buf) r xs = Go r' \<Longrightarrow> pos r' = pos r + length xs"
proof (induction xs arbitrary: r)
  case Nil
  then show ?case by simp
next
  case (Cons c xs)
  then show ?case by (auto dest: rl_step_pos split: outcome.splits)
qed

lemma request_line_resume:
  assumes "ngx_http_parse_request_line r buf = Go r'" "pos r \<le> length buf"
  shows "ngx_http_parse_request_line r' (buf @ ys) = ngx_http_parse_request_line r (buf @ ys)"
proof -
  let ?xs = "drop (pos r) buf"
  have feed: "feed (rl_step buf) r ?xs = Go r'"
    using assms(1) by (simp add: ngx_http_parse_request_line_def)
  then have "feed (rl_step (buf @ ys)) r ?xs = Go r'"
    using assms(2) by (subst rl_feed_append) auto
  moreover have "pos r' = length buf" using rl_feed_pos [OF feed] assms(2) by simp
  ultimately show ?thesis
    using assms(2) by (simp add: ngx_http_parse_request_line_def feed_append)
qed

text \<open>
  C11. Where the received data ends does not matter: when the parser answers NGX_AGAIN on
  what has arrived, continuing from the saved state once more data is appended gives exactly
  what parsing all of it at once gives.
\<close>
theorem ngx_http_parse_request_line_resume:
  assumes "ngx_http_parse_request_line r buf = Go r'" "pos r \<le> length buf"
  shows "ngx_http_parse_request_line r' (buf @ ys) = ngx_http_parse_request_line r (buf @ ys)"
  using assms by (rule request_line_resume)

theorem ngx_http_parse_request_line_resume_witness:
  "\<exists>r'. ngx_http_parse_request_line (request_init 0) (bytes_of ''GE'') = Go r'
     \<and> ngx_http_parse_request_line r' (bytes_of ''GE'' @ bytes_of ''T /'')
       = ngx_http_parse_request_line (request_init 0) (bytes_of ''GE'' @ bytes_of ''T /'')"
proof -
  have "\<exists>r'. ngx_http_parse_request_line (request_init 0) (bytes_of ''GE'') = Go r'"
    by (simp add: ngx_http_parse_request_line_def request_init_def rl_step_def rl_case_def
        rl_start_def rl_method_def is_method_char_def Let_def)
  then obtain r' where r': "ngx_http_parse_request_line (request_init 0) (bytes_of ''GE'') = Go r'"
    by blast
  show ?thesis
    by (intro exI [of _ r'] conjI r'
        ngx_http_parse_request_line_resume [OF r']) (simp add: request_init_def)
qed

end
