(* ===== verification/Ngx_Strings.thy ===== *)
theory Ngx_Strings
  imports Prelude "HOL-Library.Multiset"
begin

text \<open>
  Comparison, search, sorting and UTF-8 in src/core/ngx_string.c. A pointer to text is the
  list of bytes readable from it; reading at the end of a C string yields its terminating
  NUL (\<open>chd\<close>). Results \<open>c1 - c2\<close> are taken as signed numbers, as ngx_int_t is.
\<close>

section \<open>Case folding and copying\<close>

definition ngx_tolower :: "u_char \<Rightarrow> u_char" where
  "ngx_tolower c = (if c \<ge> ch CHR ''A'' \<and> c \<le> ch CHR ''Z'' then c OR 0x20 else c)"

definition ngx_toupper :: "u_char \<Rightarrow> u_char" where
  "ngx_toupper c = (if c \<ge> ch CHR ''a'' \<and> c \<le> ch CHR ''z'' then c AND NOT 0x20 else c)"

definition ngx_strlow :: "bytes \<Rightarrow> bytes" where
  "ngx_strlow src = map ngx_tolower src"

fun chd :: "bytes \<Rightarrow> u_char" where
  "chd [] = 0"
| "chd (c # s) = c"

text \<open>ngx_cpystrn: copies up to \<open>n - 1\<close> bytes and the terminator, whose position is returned.\<close>

fun cpystrn_loop :: "bytes \<Rightarrow> nat \<Rightarrow> bytes" where
  "cpystrn_loop src 0 = []"
| "cpystrn_loop src (Suc n) =
     (if n = 0 then [0]
      else if chd src = 0 then [0]
      else chd src # cpystrn_loop (tl src) n)"

definition ngx_cpystrn :: "bytes \<Rightarrow> nat \<Rightarrow> bytes" where
  "ngx_cpystrn src n = cpystrn_loop src n"

section \<open>Comparison\<close>

fun ngx_strcasecmp :: "bytes \<Rightarrow> bytes \<Rightarrow> int" where
  "ngx_strcasecmp [] s2 =
     (let c2 = ngx_tolower (chd s2) in if 0 = c2 then 0 else - uint c2)"
| "ngx_strcasecmp (c # s1) s2 =
     (let c1 = ngx_tolower c; c2 = ngx_tolower (chd s2)
      in if c1 = c2 then (if c1 \<noteq> 0 then ngx_strcasecmp s1 (tl s2) else 0)
         else uint c1 - uint c2)"

fun ngx_strncasecmp :: "bytes \<Rightarrow> bytes \<Rightarrow> nat \<Rightarrow> int" where
  "ngx_strncasecmp s1 s2 0 = 0"
| "ngx_strncasecmp s1 s2 (Suc n) =
     (let c1 = ngx_tolower (chd s1); c2 = ngx_tolower (chd s2)
      in if c1 = c2 then (if c1 \<noteq> 0 then ngx_strncasecmp (tl s1) (tl s2) n else 0)
         else uint c1 - uint c2)"

text \<open>libc's strncmp and memcmp, of which only the sign is specified and used.\<close>

fun strncmp :: "bytes \<Rightarrow> bytes \<Rightarrow> nat \<Rightarrow> int" where
  "strncmp s1 s2 0 = 0"
| "strncmp s1 s2 (Suc n) =
     (if chd s1 = chd s2 then (if chd s1 \<noteq> 0 then strncmp (tl s1) (tl s2) n else 0)
      else uint (chd s1) - uint (chd s2))"

fun memcmp :: "bytes \<Rightarrow> bytes \<Rightarrow> nat \<Rightarrow> int" where
  "memcmp s1 s2 0 = 0"
| "memcmp s1 s2 (Suc n) =
     (if chd s1 = chd s2 then memcmp (tl s1) (tl s2) n else uint (chd s1) - uint (chd s2))"

text \<open>ngx_rstrncmp and ngx_rstrncasecmp compare from the end.\<close>

fun rstrncmp_loop :: "(u_char \<Rightarrow> u_char) \<Rightarrow> bytes \<Rightarrow> bytes \<Rightarrow> nat \<Rightarrow> int" where
  "rstrncmp_loop f s1 s2 0 = 0"
| "rstrncmp_loop f s1 s2 (Suc n) =
     (if f (s1 ! n) \<noteq> f (s2 ! n) then uint (f (s1 ! n)) - uint (f (s2 ! n))
      else rstrncmp_loop f s1 s2 n)"

definition ngx_rstrncmp :: "bytes \<Rightarrow> bytes \<Rightarrow> nat \<Rightarrow> int" where
  "ngx_rstrncmp s1 s2 n = rstrncmp_loop (\<lambda>c. c) s1 s2 n"

text \<open>\<open>if (c >= 'a' && c <= 'z') c -= 'a' - 'A'\<close>.\<close>

definition rstr_upper :: "u_char \<Rightarrow> u_char" where
  "rstr_upper c = (if c \<ge> ch CHR ''a'' \<and> c \<le> ch CHR ''z'' then c - (ch CHR ''a'' - ch CHR ''A'') else c)"

definition ngx_rstrncasecmp :: "bytes \<Rightarrow> bytes \<Rightarrow> nat \<Rightarrow> int" where
  "ngx_rstrncasecmp s1 s2 n = rstrncmp_loop rstr_upper s1 s2 n"

definition ngx_memn2cmp :: "bytes \<Rightarrow> bytes \<Rightarrow> int" where
  "ngx_memn2cmp s1 s2 =
     (let n1 = length s1; n2 = length s2;
          n = (if n1 \<le> n2 then n1 else n2);
          z = (if n1 \<le> n2 then -1 else 1);
          m = memcmp s1 s2 n
      in if m \<noteq> 0 \<or> n1 = n2 then m else z)"

text \<open>In ASCII the dot is above the hyphen; here it must be the lowest character.\<close>

definition dns_char :: "u_char \<Rightarrow> u_char" where
  "dns_char c = (if c = ch CHR ''.'' then SP else c)"

fun ngx_dns_strcmp :: "bytes \<Rightarrow> bytes \<Rightarrow> int" where
  "ngx_dns_strcmp [] s2 =
     (let c2 = ngx_tolower (chd s2) in if 0 = c2 then 0 else 0 - uint (dns_char c2))"
| "ngx_dns_strcmp (c # s1) s2 =
     (let c1 = ngx_tolower c; c2 = ngx_tolower (chd s2)
      in if c1 = c2 then (if c1 \<noteq> 0 then ngx_dns_strcmp s1 (tl s2) else 0)
         else uint (dns_char c1) - uint (dns_char c2))"

fun ngx_filename_cmp :: "bytes \<Rightarrow> bytes \<Rightarrow> nat \<Rightarrow> int" where
  "ngx_filename_cmp s1 s2 0 = 0"
| "ngx_filename_cmp s1 s2 (Suc n) =
     (let c1 = chd s1; c2 = chd s2
      in if c1 = c2 then (if c1 \<noteq> 0 then ngx_filename_cmp (tl s1) (tl s2) n else 0)
         else if c1 = 0 \<or> c2 = 0 then uint c1 - uint c2
         else uint (if c1 = ch CHR ''/'' then 0 else c1) - uint (if c2 = ch CHR ''/'' then 0 else c2))"

section \<open>Search\<close>

text \<open>The searches return the offset of the match. \<open>s2\<close> is the pattern's tail, \<open>c2\<close> its head.\<close>

fun strnstr_loop :: "bytes \<Rightarrow> u_char \<Rightarrow> bytes \<Rightarrow> nat \<Rightarrow> nat \<Rightarrow> nat option" where
  "strnstr_loop s1 c2 s2 0 off = None"
| "strnstr_loop s1 c2 s2 (Suc len) off =
     (if chd s1 = 0 then None
      else if chd s1 \<noteq> c2 then strnstr_loop (tl s1) c2 s2 len (Suc off)
      else if length s2 > len then None
      else if strncmp (tl s1) s2 (length s2) \<noteq> 0 then strnstr_loop (tl s1) c2 s2 len (Suc off)
      else Some off)"

definition ngx_strnstr :: "bytes \<Rightarrow> bytes \<Rightarrow> nat \<Rightarrow> nat option" where
  "ngx_strnstr s1 s2 len = strnstr_loop s1 (chd s2) (tl s2) len 0"

fun strstrn_loop :: "bytes \<Rightarrow> u_char \<Rightarrow> bytes \<Rightarrow> nat \<Rightarrow> nat \<Rightarrow> nat option" where
  "strstrn_loop [] c2 s2 n off = None"
| "strstrn_loop (c1 # s1) c2 s2 n off =
     (if c1 = 0 then None
      else if c1 \<noteq> c2 \<or> strncmp s1 s2 n \<noteq> 0 then strstrn_loop s1 c2 s2 n (Suc off)
      else Some off)"

definition ngx_strstrn :: "bytes \<Rightarrow> bytes \<Rightarrow> nat \<Rightarrow> nat option" where
  "ngx_strstrn s1 s2 n = strstrn_loop s1 (chd s2) (tl s2) n 0"

fun strcasestrn_loop :: "bytes \<Rightarrow> u_char \<Rightarrow> bytes \<Rightarrow> nat \<Rightarrow> nat \<Rightarrow> nat option" where
  "strcasestrn_loop [] c2 s2 n off = None"
| "strcasestrn_loop (c1 # s1) c2 s2 n off =
     (if c1 = 0 then None
      else if ngx_tolower c1 \<noteq> c2 \<or> ngx_strncasecmp s1 s2 n \<noteq> 0
      then strcasestrn_loop s1 c2 s2 n (Suc off)
      else Some off)"

definition ngx_strcasestrn :: "bytes \<Rightarrow> bytes \<Rightarrow> nat \<Rightarrow> nat option" where
  "ngx_strcasestrn s1 s2 n = strcasestrn_loop s1 (ngx_tolower (chd s2)) (tl s2) n 0"

text \<open>\<open>last -= n\<close>: the scan stops when no more than \<open>n\<close> bytes are left.\<close>

fun strlcasestrn_loop :: "bytes \<Rightarrow> u_char \<Rightarrow> bytes \<Rightarrow> nat \<Rightarrow> nat \<Rightarrow> nat option" where
  "strlcasestrn_loop [] c2 s2 n off = None"
| "strlcasestrn_loop (c1 # s1) c2 s2 n off =
     (if length (c1 # s1) \<le> n then None
      else if ngx_tolower c1 \<noteq> c2 \<or> ngx_strncasecmp s1 s2 n \<noteq> 0
      then strlcasestrn_loop s1 c2 s2 n (Suc off)
      else Some off)"

definition ngx_strlcasestrn :: "bytes \<Rightarrow> bytes \<Rightarrow> nat \<Rightarrow> nat option" where
  "ngx_strlcasestrn s1 s2 n = strlcasestrn_loop s1 (ngx_tolower (chd s2)) (tl s2) n 0"

fun ngx_strlchr :: "bytes \<Rightarrow> u_char \<Rightarrow> nat option" where
  "ngx_strlchr [] c = None"
| "ngx_strlchr (p # s) c = (if p = c then Some 0 else map_option Suc (ngx_strlchr s c))"

section \<open>Sorting\<close>

text \<open>
  ngx_sort moves each element left past the greater ones: \<open>p2\<close> runs down the sorted prefix,
  here the reversed list of the elements before \<open>p1\<close>. Without memory for the one saved
  element the array is left as it is.
\<close>

fun sort_insert :: "('a \<Rightarrow> 'a \<Rightarrow> int) \<Rightarrow> 'a \<Rightarrow> 'a list \<Rightarrow> 'a list" where
  "sort_insert cmp p [] = [p]"
| "sort_insert cmp p (x # before) =
     (if cmp x p > 0 then x # sort_insert cmp p before else p # x # before)"

definition ngx_sort :: "bool \<Rightarrow> ('a \<Rightarrow> 'a \<Rightarrow> int) \<Rightarrow> 'a list \<Rightarrow> 'a list" where
  "ngx_sort alloc_ok cmp base =
     (if \<not> alloc_ok then base
      else rev (fold (sort_insert cmp) base []))"

section \<open>The contract between a comparison and the sort\<close>

text \<open>
  ngx_sort asks of its callback that the sign flips with the arguments and that \<open>\<le>\<close> chains,
  on the elements it is given (\<open>ok\<close>). What it gives back is a sorted, stable permutation.
\<close>

locale comparison =
  fixes cmp :: "'a \<Rightarrow> 'a \<Rightarrow> int"
    and ok :: "'a \<Rightarrow> bool"
  assumes sign_flip: "\<lbrakk>ok x; ok y\<rbrakk> \<Longrightarrow> (0 < cmp x y) = (cmp y x < 0)"
    and le_chain: "\<lbrakk>ok x; ok y; ok z; cmp x y \<le> 0; cmp y z \<le> 0\<rbrakk> \<Longrightarrow> cmp x z \<le> 0"
begin

abbreviation desc :: "'a list \<Rightarrow> bool" where
  "desc \<equiv> sorted_wrt (\<lambda>x y. cmp y x \<le> 0)"

lemma mset_insert: "mset (sort_insert cmp p xs) = add_mset p (mset xs)"
  by (induction xs) auto

lemma set_insert: "set (sort_insert cmp p xs) = insert p (set xs)"
  using arg_cong [OF mset_insert, of set_mset p xs] by simp

lemma desc_insert:
  "\<lbrakk>\<forall>x\<in>set (p # xs). ok x; desc xs\<rbrakk> \<Longrightarrow> desc (sort_insert cmp p xs)"
proof (induction xs)
  case Nil
  then show ?case by simp
next
  case (Cons x xs)
  show ?case
  proof (cases "cmp x p > 0")
    case True
    with Cons.prems sign_flip [of x p] have "cmp p x \<le> 0" by simp
    with True Cons show ?thesis by (auto simp: set_insert)
  next
    case False
    with Cons.prems le_chain [of _ x p] show ?thesis by auto
  qed
qed

lemma desc_fold:
  "\<lbrakk>\<forall>x\<in>set xs \<union> set acc. ok x; desc acc\<rbrakk> \<Longrightarrow> desc (fold (sort_insert cmp) xs acc)"
  by (induction xs arbitrary: acc) (auto simp: set_insert desc_insert)

lemma mset_fold: "mset (fold (sort_insert cmp) xs acc) = mset xs + mset acc"
  by (induction xs arbitrary: acc) (auto simp: mset_insert)

lemma filter_insert:
  "\<lbrakk>\<forall>x\<in>set (k # p # xs). ok x; desc xs\<rbrakk>
   \<Longrightarrow> filter (\<lambda>x. cmp x k = 0) (sort_insert cmp p xs) = filter (\<lambda>x. cmp x k = 0) (p # xs)"
proof (induction xs)
  case Nil
  then show ?case by simp
next
  case (Cons x xs)
  show ?case
  proof (cases "cmp x p > 0")
    case gt: True
    have "\<not> (cmp x k = 0 \<and> cmp p k = 0)"
    proof
      assume eq: "cmp x k = 0 \<and> cmp p k = 0"
      with Cons.prems sign_flip [of p k] sign_flip [of k p] have "cmp k p \<le> 0" by simp
      with eq Cons.prems le_chain [of x k p] gt show False by simp
    qed
    with gt Cons show ?thesis by auto
  next
    case False
    then show ?thesis by simp
  qed
qed

lemma filter_fold:
  "\<lbrakk>\<forall>x\<in>set xs \<union> set acc \<union> {k}. ok x; desc acc\<rbrakk>
   \<Longrightarrow> filter (\<lambda>x. cmp x k = 0) (rev (fold (sort_insert cmp) xs acc))
       = filter (\<lambda>x. cmp x k = 0) (rev acc @ xs)"
proof (induction xs arbitrary: acc)
  case Nil
  then show ?case by simp
next
  case (Cons p xs)
  have "filter (\<lambda>x. cmp x k = 0) (rev (sort_insert cmp p acc))
        = filter (\<lambda>x. cmp x k = 0) (rev (p # acc))"
    using filter_insert [of k p acc] Cons.prems by (simp flip: rev_filter)
  moreover have "desc (sort_insert cmp p acc)"
    using Cons.prems desc_insert by simp
  ultimately show ?case
    using Cons.IH [of "sort_insert cmp p acc"] Cons.prems by (simp add: set_insert)
qed

lemma sort_mset: "mset (ngx_sort ok_mem cmp xs) = mset xs"
  by (simp add: ngx_sort_def mset_fold)

lemma sort_sorted:
  "\<forall>x\<in>set xs. ok x \<Longrightarrow> sorted_wrt (\<lambda>x y. cmp x y \<le> 0) (ngx_sort True cmp xs)"
  by (simp add: ngx_sort_def sorted_wrt_rev desc_fold)

lemma sort_stable:
  "\<lbrakk>\<forall>x\<in>set xs. ok x; ok k\<rbrakk>
   \<Longrightarrow> filter (\<lambda>x. cmp x k = 0) (ngx_sort True cmp xs) = filter (\<lambda>x. cmp x k = 0) xs"
  using filter_fold [of xs "[]" k] by (simp add: ngx_sort_def)

end

section \<open>Comparisons as lexicographic order of keys\<close>

text \<open>
  The reference: strings as lists of positive weights, the end of a string weighing nothing.
\<close>

fun key_cmp :: "int list \<Rightarrow> int list \<Rightarrow> int" where
  "key_cmp [] [] = 0"
| "key_cmp [] (y # ys) = - y"
| "key_cmp (x # xs) [] = x"
| "key_cmp (x # xs) (y # ys) = (if x = y then key_cmp xs ys else x - y)"

definition pos_key :: "int list \<Rightarrow> bool" where
  "pos_key ks \<longleftrightarrow> (\<forall>k\<in>set ks. 0 < k)"

lemma key_cmp_flip: "key_cmp ys xs = - key_cmp xs ys"
  by (induction xs ys rule: key_cmp.induct) auto

lemma key_cmp_trans:
  "\<lbrakk>pos_key xs; pos_key ys; pos_key zs; key_cmp xs ys \<le> 0; key_cmp ys zs \<le> 0\<rbrakk>
   \<Longrightarrow> key_cmp xs zs \<le> 0"
proof (induction xs ys arbitrary: zs rule: key_cmp.induct)
  case 1
  then show ?case by simp
next
  case (2 y ys)
  then show ?case by (cases zs) (auto simp: pos_key_def)
next
  case (3 x xs)
  then show ?case by (auto simp: pos_key_def)
next
  case (4 x xs y ys)
  show ?case
  proof (cases zs)
    case Nil
    with "4.prems" show ?thesis by (auto simp: pos_key_def)
  next
    case (Cons z zs')
    with 4 show ?thesis by (auto simp: pos_key_def split: if_splits)
  qed
qed

lemma key_cmp_0: "\<lbrakk>pos_key xs; pos_key ys\<rbrakk> \<Longrightarrow> key_cmp xs ys = 0 \<longleftrightarrow> xs = ys"
  by (induction xs ys rule: key_cmp.induct) (auto simp: pos_key_def)

definition cstr :: "bytes \<Rightarrow> bytes" where
  "cstr s = takeWhile (\<lambda>c. c \<noteq> 0) s"

definition fold_key :: "(u_char \<Rightarrow> u_char) \<Rightarrow> bytes \<Rightarrow> int list" where
  "fold_key f s = map (\<lambda>c. uint (f c)) (cstr s)"

lemma fold_key_Nil [simp]: "fold_key f [] = []"
  by (simp add: fold_key_def cstr_def)

lemma fold_key_Cons [simp]:
  "fold_key f (c # s) = (if c = 0 then [] else uint (f c) # fold_key f s)"
  by (simp add: fold_key_def cstr_def)

lemma tolower_0_iff [simp]: "ngx_tolower c = 0 \<longleftrightarrow> c = 0" "0 = ngx_tolower c \<longleftrightarrow> c = 0"
proof -
  have "(ngx_tolower c = 0) = (c = 0)"
    by (rule byte_all [of _ c]) (simp add: ngx_tolower_def)
  then show "ngx_tolower c = 0 \<longleftrightarrow> c = 0" "0 = ngx_tolower c \<longleftrightarrow> c = 0" by auto
qed

lemma tolower_0 [simp]: "ngx_tolower 0 = 0"
  by simp

lemma chd_0: "chd s = 0 \<Longrightarrow> fold_key f s = []"
  by (cases s) auto

lemma chd_not_0: "chd s \<noteq> 0 \<Longrightarrow> fold_key f s = uint (f (chd s)) # fold_key f (tl s)"
  by (cases s) auto

lemma strcasecmp_key:
  "ngx_strcasecmp s1 s2 = key_cmp (fold_key ngx_tolower s1) (fold_key ngx_tolower s2)"
proof (induction s1 s2 rule: ngx_strcasecmp.induct)
  case (1 s2)
  then show ?case by (cases "chd s2 = 0") (simp_all add: Let_def chd_0 chd_not_0)
next
  case (2 c s1 s2)
  then show ?case
    by (cases "chd s2 = 0") (auto simp: Let_def chd_0 chd_not_0 simp flip: word_uint_eq_iff)
qed

definition no_space :: "bytes \<Rightarrow> bool" where
  "no_space s \<longleftrightarrow> SP \<notin> set s"

lemma dns_char_inj:
  "\<lbrakk>a \<noteq> SP; b \<noteq> SP; dns_char a = dns_char b\<rbrakk> \<Longrightarrow> a = b"
  by (auto simp: dns_char_def split: if_splits)

lemma tolower_SP [simp]: "ngx_tolower c = SP \<longleftrightarrow> c = SP"
  by (rule byte_all [of _ c]) (simp add: ngx_tolower_def)

lemma dns_char_0 [simp]: "dns_char 0 = 0" "dns_char c = 0 \<longleftrightarrow> c = 0"
  by (auto simp: dns_char_def)

lemma dns_strcmp_key:
  "\<lbrakk>no_space s1; no_space s2\<rbrakk> \<Longrightarrow>
   ngx_dns_strcmp s1 s2
   = key_cmp (fold_key (dns_char \<circ> ngx_tolower) s1) (fold_key (dns_char \<circ> ngx_tolower) s2)"
proof (induction s1 s2 rule: ngx_dns_strcmp.induct)
  case (1 s2)
  then show ?case by (cases "chd s2 = 0") (simp_all add: Let_def chd_0 chd_not_0)
next
  case (2 c s1 s2)
  show ?case
  proof (cases "chd s2 = 0")
    case True
    then show ?thesis by (auto simp: Let_def chd_0)
  next
    case False
    then obtain d s where s2: "s2 = d # s" "d \<noteq> 0" by (cases s2) auto
    with "2.prems" have ns: "no_space s1" "no_space s" "c \<noteq> SP" "d \<noteq> SP"
      by (auto simp: no_space_def)
    show ?thesis
    proof (cases "ngx_tolower c = ngx_tolower d")
      case True
      with 2 s2 ns show ?thesis by (auto simp: Let_def)
    next
      case False
      with ns dns_char_inj [of "ngx_tolower c" "ngx_tolower d"] s2 show ?thesis
        by (auto simp: Let_def simp flip: word_uint_eq_iff)
    qed
  qed
qed

lemma pos_fold_key: "(\<And>c. f c = 0 \<longleftrightarrow> c = 0) \<Longrightarrow> pos_key (fold_key f s)"
  by (auto simp: pos_key_def fold_key_def cstr_def word_less_def [symmetric]
      uint_0_iff order.strict_iff_order dest: set_takeWhileD)

interpretation dnscmp: comparison ngx_dns_strcmp no_space
proof
  fix x y z
  show "(0 < ngx_dns_strcmp x y) = (ngx_dns_strcmp y x < 0)" if "no_space x" "no_space y"
    using that by (subst (1 2) dns_strcmp_key) (auto simp: key_cmp_flip [of "fold_key _ y"])
  show "ngx_dns_strcmp x z \<le> 0"
    if "no_space x" "no_space y" "no_space z" "ngx_dns_strcmp x y \<le> 0" "ngx_dns_strcmp y z \<le> 0"
    using that key_cmp_trans [of "fold_key (dns_char \<circ> ngx_tolower) x"
        "fold_key (dns_char \<circ> ngx_tolower) y" "fold_key (dns_char \<circ> ngx_tolower) z"]
    by (simp add: dns_strcmp_key pos_fold_key)
qed

interpretation casecmp: comparison ngx_strcasecmp "\<lambda>_. True"
proof
  fix x y z
  show "(0 < ngx_strcasecmp x y) = (ngx_strcasecmp y x < 0)"
    by (auto simp: strcasecmp_key key_cmp_flip [of "fold_key _ y"])
  show "ngx_strcasecmp x z \<le> 0" if "ngx_strcasecmp x y \<le> 0" "ngx_strcasecmp y z \<le> 0"
    using that key_cmp_trans [of "fold_key ngx_tolower x" "fold_key ngx_tolower y"
        "fold_key ngx_tolower z"]
    by (simp add: strcasecmp_key pos_fold_key)
qed

text \<open>
  Sorting names with ngx_dns_strcmp, as ngx_http_server_names does with the wildcard
  names: for names without spaces ngx_sort returns a permutation in which every name
  compares not greater than the ones after it and names that compare equal keep their order.
\<close>
theorem ngx_sort_dns:
  assumes "\<forall>s\<in>set (k # names). no_space s"
  shows "mset (ngx_sort True ngx_dns_strcmp names) = mset names
    \<and> sorted_wrt (\<lambda>x y. ngx_dns_strcmp x y \<le> 0) (ngx_sort True ngx_dns_strcmp names)
    \<and> filter (\<lambda>s. ngx_dns_strcmp s k = 0) (ngx_sort True ngx_dns_strcmp names)
      = filter (\<lambda>s. ngx_dns_strcmp s k = 0) names"
  using assms dnscmp.sort_mset dnscmp.sort_sorted dnscmp.sort_stable by simp

theorem ngx_sort_dns_witness:
  "sorted_wrt (\<lambda>x y. ngx_dns_strcmp x y \<le> 0)
     (ngx_sort True ngx_dns_strcmp [bytes_of ''b.a'', bytes_of ''A-c'', bytes_of ''a.c''])"
  by (rule conjunct1 [OF conjunct2 [OF ngx_sort_dns [of "bytes_of ''a''"]]])
     (simp add: no_space_def)

text \<open>Without the hypothesis the order is not transitive: the dot and the space weigh the same.\<close>

lemma dns_strcmp_not_transitive:
  "ngx_dns_strcmp (bytes_of ''.b'') (bytes_of '' a'') = 0
   \<and> ngx_dns_strcmp (bytes_of '' a'') (bytes_of ''.a'') = 0
   \<and> ngx_dns_strcmp (bytes_of ''.b'') (bytes_of ''.a'') = 1"
  by (simp add: ngx_tolower_def dns_char_def Let_def)

section \<open>Case-insensitive search\<close>

lemma strncasecmp_0:
  "\<lbrakk>0 \<notin> set t; length t \<le> length s\<rbrakk> \<Longrightarrow>
   ngx_strncasecmp s t (length t) = 0
   \<longleftrightarrow> map ngx_tolower (take (length t) s) = map ngx_tolower t"
proof (induction t arbitrary: s)
  case Nil
  then show ?case by simp
next
  case (Cons d t)
  then obtain c s' where s: "s = c # s'" by (cases s) auto
  show ?case
  proof (cases "ngx_tolower c = ngx_tolower d")
    case True
    moreover have "c \<noteq> 0" using True Cons.prems by auto
    ultimately show ?thesis using Cons s by (auto simp: Let_def)
  next
    case False
    then show ?thesis using s by (simp add: Let_def flip: word_uint_eq_iff)
  qed
qed

definition matches_at :: "bytes \<Rightarrow> bytes \<Rightarrow> nat \<Rightarrow> bool" where
  "matches_at pat s i \<longleftrightarrow>
     i + length pat \<le> length s
     \<and> map ngx_tolower (take (length pat) (drop i s)) = map ngx_tolower pat"

lemma matches_at_Suc: "matches_at pat (c # s) (Suc i) = matches_at pat s i"
  by (simp add: matches_at_def)

lemma matches_at_0:
  "matches_at (c2 # s2) (c # s) 0 \<longleftrightarrow>
     length s2 \<le> length s \<and> ngx_tolower c = ngx_tolower c2
     \<and> map ngx_tolower (take (length s2) s) = map ngx_tolower s2"
  by (simp add: matches_at_def)

lemma strlcasestrn_loop_first:
  assumes "0 \<notin> set s2"
  shows "strlcasestrn_loop s (ngx_tolower c2) s2 (length s2) off = Some i
    \<longleftrightarrow> (\<exists>k. i = off + k \<and> matches_at (c2 # s2) s k \<and> (\<forall>j<k. \<not> matches_at (c2 # s2) s j))"
proof (induction s arbitrary: off)
  case Nil
  then show ?case by (simp add: matches_at_def)
next
  case (Cons c s)
  show ?case
  proof (cases "length s < length s2")
    case True
    then have "\<not> matches_at (c2 # s2) (c # s) k" for k by (simp add: matches_at_def)
    with True show ?thesis by simp
  next
    case long: False
    show ?thesis
    proof (cases "matches_at (c2 # s2) (c # s) 0")
      case True
      then have "strlcasestrn_loop (c # s) (ngx_tolower c2) s2 (length s2) off = Some off"
        using long strncasecmp_0 [OF assms, of s] by (simp add: matches_at_0)
      moreover have "k = 0" if "\<forall>j<k. \<not> matches_at (c2 # s2) (c # s) j" for k
        using that True by (cases k) auto
      ultimately show ?thesis using True by auto
    next
      case False
      then have "strlcasestrn_loop (c # s) (ngx_tolower c2) s2 (length s2) off
          = strlcasestrn_loop s (ngx_tolower c2) s2 (length s2) (Suc off)"
        using long strncasecmp_0 [OF assms, of s] by (auto simp: matches_at_0)
      moreover have "(\<exists>k. i = off + k \<and> matches_at (c2 # s2) (c # s) k
            \<and> (\<forall>j<k. \<not> matches_at (c2 # s2) (c # s) j))
        \<longleftrightarrow> (\<exists>k. i = Suc off + k \<and> matches_at (c2 # s2) s k
            \<and> (\<forall>j<k. \<not> matches_at (c2 # s2) s j))"
        (is "?L \<longleftrightarrow> ?R")
      proof
        assume ?L
        then obtain k where k: "i = off + k" "matches_at (c2 # s2) (c # s) k"
          "\<forall>j<k. \<not> matches_at (c2 # s2) (c # s) j" by blast
        with False obtain m where "k = Suc m" by (cases k) auto
        with k show ?R by (auto simp: matches_at_Suc dest: spec [of _ "Suc _"])
      next
        assume ?R
        then obtain m where m: "i = Suc off + m" "matches_at (c2 # s2) s m"
          "\<forall>j<m. \<not> matches_at (c2 # s2) s j" by blast
        have "\<not> matches_at (c2 # s2) (c # s) j" if "j < Suc m" for j
          using that m False by (cases j) (simp_all add: matches_at_Suc)
        with m show ?L by (intro exI [of _ "Suc m"]) (simp add: matches_at_Suc)
      qed
      ultimately show ?thesis using Cons.IH [of "Suc off"] by simp
    qed
  qed
qed

text \<open>
  ngx_strlcasestrn finds the first place where the pattern occurs up to the case of the
  letters, and finds none only if there is none; the caller passes the pattern's length
  less one. The pattern is a C string: no NUL inside, and not empty.
\<close>
theorem ngx_strlcasestrn_first:
  assumes "pat \<noteq> []" "0 \<notin> set pat"
  shows "(ngx_strlcasestrn s pat (length pat - 1) = Some i
      \<longleftrightarrow> matches_at pat s i \<and> (\<forall>j<i. \<not> matches_at pat s j))
    \<and> (ngx_strlcasestrn s pat (length pat - 1) = None \<longleftrightarrow> (\<forall>j. \<not> matches_at pat s j))"
proof -
  obtain c2 s2 where pat: "pat = c2 # s2" using assms by (cases pat) auto
  have first: "ngx_strlcasestrn s pat (length pat - 1) = Some i
      \<longleftrightarrow> matches_at pat s i \<and> (\<forall>j<i. \<not> matches_at pat s j)" for i
    using strlcasestrn_loop_first [of s2 s c2 0 i] assms
    by (simp add: ngx_strlcasestrn_def pat)
  have "ngx_strlcasestrn s pat (length pat - 1) = None \<longleftrightarrow> (\<forall>j. \<not> matches_at pat s j)"
    using first by (metis exists_least_iff not_None_eq option.distinct(1))
  with first show ?thesis by blast
qed

theorem ngx_strlcasestrn_first_witness:
  "ngx_strlcasestrn (bytes_of ''xgzGZip'') (bytes_of ''gzip'') 3 = Some 3"
proof -
  have m: "matches_at (bytes_of ''gzip'') (bytes_of ''xgzGZip'') 3"
    "\<not> matches_at (bytes_of ''gzip'') (bytes_of ''xgzGZip'') 0"
    "\<not> matches_at (bytes_of ''gzip'') (bytes_of ''xgzGZip'') 1"
    "\<not> matches_at (bytes_of ''gzip'') (bytes_of ''xgzGZip'') 2"
    by (simp_all add: matches_at_def ngx_tolower_def)
  have "j = 0 \<or> j = 1 \<or> j = 2" if "j < (3 :: nat)" for j using that by arith
  with m have "\<forall>j<3. \<not> matches_at (bytes_of ''gzip'') (bytes_of ''xgzGZip'') j" by blast
  then show ?thesis
    using m(1) ngx_strlcasestrn_first [of "bytes_of ''gzip''" "bytes_of ''xgzGZip''" 3]
    by (simp add: numeral_3_eq_3)
qed

end
