(* ===== verification/Ngx_Num.thy ===== *)
theory Ngx_Num
  imports Prelude
begin

text \<open>
  Number parsing and dumping of src/core/ngx_string.c: ngx_atoi and its copies for
  ssize_t, off_t and time_t, the fixed-point ngx_atofp, ngx_hextoi and ngx_hex_dump.
  NGX_ERROR is \<open>None\<close>. The C code works in signed 64-bit integers, whose overflow is
  undefined: the models compute in \<open>int\<close>, and the lemmas show that no value ever leaves
  the type's range, which is what the cutoff tests are for.
\<close>

section \<open>Definitions\<close>

text \<open>The loop shared by ngx_atoi, ngx_atosz, ngx_atoof and ngx_atotm.\<close>

fun atoi_loop :: "int \<Rightarrow> int \<Rightarrow> int \<Rightarrow> bytes \<Rightarrow> int option" where
  "atoi_loop cutoff cutlim val [] = Some val"
| "atoi_loop cutoff cutlim val (c # line) =
     (if \<not> is_digit c then None
      else if val \<ge> cutoff \<and> (val > cutoff \<or> dval c > cutlim) then None
      else atoi_loop cutoff cutlim (val * 10 + dval c) line)"

definition ngx_atoi :: "bytes \<Rightarrow> int option" where
  "ngx_atoi line =
     (if line = [] then None
      else atoi_loop (NGX_MAX_INT_T_VALUE div 10) (NGX_MAX_INT_T_VALUE mod 10) 0 line)"

definition ngx_atosz :: "bytes \<Rightarrow> int option" where
  "ngx_atosz line =
     (if line = [] then None
      else atoi_loop (NGX_MAX_SIZE_T_VALUE div 10) (NGX_MAX_SIZE_T_VALUE mod 10) 0 line)"

definition ngx_atoof :: "bytes \<Rightarrow> int option" where
  "ngx_atoof line =
     (if line = [] then None
      else atoi_loop (NGX_MAX_OFF_T_VALUE div 10) (NGX_MAX_OFF_T_VALUE mod 10) 0 line)"

definition ngx_atotm :: "bytes \<Rightarrow> int option" where
  "ngx_atotm line =
     (if line = [] then None
      else atoi_loop (NGX_MAX_TIME_T_VALUE div 10) (NGX_MAX_TIME_T_VALUE mod 10) 0 line)"

text \<open>
  ngx_atofp: \<open>point\<close> is a size_t and counts the digits still expected after the dot; the
  loop refuses any byte once it is 0, so \<open>point -= dot\<close> never wraps.
\<close>

fun atofp_loop :: "int \<Rightarrow> int \<Rightarrow> int \<Rightarrow> nat \<Rightarrow> bool \<Rightarrow> bytes \<Rightarrow> (int \<times> nat) option" where
  "atofp_loop cutoff cutlim val point dot [] = Some (val, point)"
| "atofp_loop cutoff cutlim val point dot (c # line) =
     (if point = 0 then None
      else if c = ch CHR ''.'' then
        (if dot then None else atofp_loop cutoff cutlim val point True line)
      else if \<not> is_digit c then None
      else if val \<ge> cutoff \<and> (val > cutoff \<or> dval c > cutlim) then None
      else atofp_loop cutoff cutlim (val * 10 + dval c) (point - of_bool dot) dot line)"

text \<open>\<open>while (point--)\<close>: scale by ten for every digit that was not written.\<close>

fun atofp_scale :: "int \<Rightarrow> int \<Rightarrow> nat \<Rightarrow> int option" where
  "atofp_scale cutoff val 0 = Some val"
| "atofp_scale cutoff val (Suc point) =
     (if val > cutoff then None else atofp_scale cutoff (val * 10) point)"

definition ngx_atofp :: "bytes \<Rightarrow> nat \<Rightarrow> int option" where
  "ngx_atofp line point =
     (if line = [] then None
      else case atofp_loop (NGX_MAX_INT_T_VALUE div 10) (NGX_MAX_INT_T_VALUE mod 10)
                  0 point False line of
             None \<Rightarrow> None
           | Some (val, point') \<Rightarrow> atofp_scale (NGX_MAX_INT_T_VALUE div 10) val point')"

fun hextoi_loop :: "int \<Rightarrow> int \<Rightarrow> bytes \<Rightarrow> int option" where
  "hextoi_loop cutoff val [] = Some val"
| "hextoi_loop cutoff val (c # line) =
     (if val > cutoff then None
      else if is_digit c then hextoi_loop cutoff (val * 16 + dval c) line
      else if is_af20 c then hextoi_loop cutoff (val * 16 + (uint (c OR 0x20) - 97 + 10)) line
      else None)"

definition ngx_hextoi :: "bytes \<Rightarrow> int option" where
  "ngx_hextoi line =
     (if line = [] then None else hextoi_loop (NGX_MAX_INT_T_VALUE div 16) 0 line)"

definition hex_chars :: bytes where
  "hex_chars = bytes_of ''0123456789abcdef''"

fun ngx_hex_dump :: "bytes \<Rightarrow> bytes" where
  "ngx_hex_dump [] = []"
| "ngx_hex_dump (c # src) =
     hex_chars ! unat (drop_bit 4 c) # hex_chars ! unat (c AND 0xf) # ngx_hex_dump src"

section \<open>Decimal parsers\<close>

text \<open>
  The contract the configuration and header parsers rely on: a non-empty all-digit string
  whose value fits is accepted with exactly that value, anything else is an error.
\<close>

locale decimal_parser =
  fixes parse :: "bytes \<Rightarrow> int option" and limit :: int
  assumes parse_eq: "parse s =
      (if s \<noteq> [] \<and> list_all is_digit s \<and> dec_val s \<le> limit then Some (dec_val s) else None)"
begin

lemma parse_SomeD:
  "parse s = Some v \<Longrightarrow> s \<noteq> [] \<and> list_all is_digit s \<and> v = dec_val s \<and> 0 \<le> v \<and> v \<le> limit"
  by (auto simp: parse_eq dec_val_nonneg split: if_splits)

text \<open>A value with a unit: the bound test before the multiplication excludes overflow.\<close>

lemma parse_scaled:
  assumes "0 < k"
  shows "(case parse s of None \<Rightarrow> None
          | Some v \<Rightarrow> if v > limit div k then None else Some (v * k)) =
         (if s \<noteq> [] \<and> list_all is_digit s \<and> dec_val s * k \<le> limit
          then Some (dec_val s * k) else None)"
proof (cases "s \<noteq> [] \<and> list_all is_digit s")
  case True
  then have nn: "0 \<le> dec_val s" by (simp add: dec_val_nonneg)
  have iff: "dec_val s \<le> limit div k \<longleftrightarrow> dec_val s * k \<le> limit"
    using assms by (rule le_div_iff_mult_le)
  have "dec_val s * k \<le> limit \<Longrightarrow> dec_val s \<le> limit"
    using nn assms by (smt (verit) mult_le_cancel_left1 mult_nonneg_nonneg)
  with True iff show ?thesis by (auto simp: parse_eq)
next
  case False
  then show ?thesis by (auto simp: parse_eq)
qed

end

text \<open>The loop, started at any value it can have reached.\<close>

lemma cutoff_test:
  fixes v d M :: int
  assumes "0 \<le> d" "d \<le> 9"
  shows "(M div 10 \<le> v \<and> (M div 10 < v \<or> M mod 10 < d)) \<longleftrightarrow> M < v * 10 + d"
proof -
  define q r where "q = M div 10" and "r = M mod 10"
  then have "M = 10 * q + r" "0 \<le> r" "r \<le> 9" by simp_all
  with assms show ?thesis unfolding q_def [symmetric] r_def [symmetric] by linarith
qed

lemma num_val_ge_head:
  assumes "list_all is_digit s" "0 \<le> v"
  shows "v \<le> v * 10 ^ length s + dec_val s"
proof -
  have "v * 1 \<le> v * 10 ^ length s" using assms(2) by (intro mult_left_mono) simp_all
  with dec_val_nonneg [OF assms(1)] show ?thesis by simp
qed

lemma atoi_loop_eq:
  assumes "0 \<le> v" "v \<le> M"
  shows "atoi_loop (M div 10) (M mod 10) v s =
           (if list_all is_digit s \<and> v * 10 ^ length s + dec_val s \<le> M
            then Some (v * 10 ^ length s + dec_val s) else None)"
  using assms
proof (induction s arbitrary: v)
  case Nil
  then show ?case by simp
next
  case (Cons c s)
  let ?w = "v * 10 + dval c"
  have val: "v * 10 ^ length (c # s) + dec_val (c # s) = ?w * 10 ^ length s + dec_val s"
    by (simp add: num_val_Cons algebra_simps)
  show ?case
  proof (cases "is_digit c")
    case False
    then show ?thesis by simp
  next
    case dig: True
    then have d: "0 \<le> dval c" "dval c \<le> 9" by auto
    show ?thesis
    proof (cases "M < ?w")
      case True
      have "list_all is_digit s \<Longrightarrow> M < ?w * 10 ^ length s + dec_val s"
        using num_val_ge_head [of s ?w] True d Cons.prems by simp
      moreover have "atoi_loop (M div 10) (M mod 10) v (c # s) = None"
        using True dig d by (simp add: cutoff_test)
      ultimately show ?thesis unfolding val by auto
    next
      case False
      have "atoi_loop (M div 10) (M mod 10) v (c # s) = atoi_loop (M div 10) (M mod 10) ?w s"
        using False dig d by (simp add: cutoff_test)
      also have "\<dots> = (if list_all is_digit s \<and> ?w * 10 ^ length s + dec_val s \<le> M
                       then Some (?w * 10 ^ length s + dec_val s) else None)"
        using False d Cons.prems by (intro Cons.IH) simp_all
      finally show ?thesis unfolding val using dig by simp
    qed
  qed
qed

lemma decimal_parser_loop:
  assumes "0 \<le> M"
  shows "(if s = [] then None else atoi_loop (M div 10) (M mod 10) 0 s) =
    (if s \<noteq> [] \<and> list_all is_digit s \<and> dec_val s \<le> M then Some (dec_val s) else None)"
  using atoi_loop_eq [of 0 M s] assms by simp

interpretation atoi: decimal_parser ngx_atoi NGX_MAX_INT_T_VALUE
  by unfold_locales (unfold ngx_atoi_def, rule decimal_parser_loop, simp)

interpretation atosz: decimal_parser ngx_atosz NGX_MAX_SIZE_T_VALUE
  by unfold_locales (unfold ngx_atosz_def, rule decimal_parser_loop, simp)

interpretation atoof: decimal_parser ngx_atoof NGX_MAX_OFF_T_VALUE
  by unfold_locales (unfold ngx_atoof_def, rule decimal_parser_loop, simp)

interpretation atotm: decimal_parser ngx_atotm NGX_MAX_TIME_T_VALUE
  by unfold_locales (unfold ngx_atotm_def, rule decimal_parser_loop, simp)

text \<open>
  ngx_atoi accepts exactly the non-empty strings of decimal digits whose value is at
  most NGX_MAX_INT_T_VALUE, and returns that value; everything else is NGX_ERROR.
\<close>

theorem ngx_atoi_correct:
  "ngx_atoi line =
     (if line \<noteq> [] \<and> list_all is_digit line \<and> dec_val line \<le> NGX_MAX_INT_T_VALUE
      then Some (dec_val line) else None)"
  by (rule atoi.parse_eq)

section \<open>Fixed-point numbers\<close>

lemma atofp_loop_dot:
  assumes "0 \<le> v" "v \<le> M"
  shows "atofp_loop (M div 10) (M mod 10) v p True s =
     (if list_all is_digit s \<and> length s \<le> p \<and> v * 10 ^ length s + dec_val s \<le> M
      then Some (v * 10 ^ length s + dec_val s, p - length s) else None)"
  using assms
proof (induction s arbitrary: v p)
  case Nil
  then show ?case by simp
next
  case (Cons c s)
  let ?w = "v * 10 + dval c"
  have val: "v * 10 ^ length (c # s) + dec_val (c # s) = ?w * 10 ^ length s + dec_val s"
    by (simp add: num_val_Cons algebra_simps)
  show ?case
  proof (cases "p \<noteq> 0 \<and> is_digit c")
    case False
    then have "atofp_loop (M div 10) (M mod 10) v p True (c # s) = None" by auto
    with False show ?thesis by auto
  next
    case True
    then have d: "0 \<le> dval c" "dval c \<le> 9" by auto
    from True have nd: "c \<noteq> ch CHR ''.''" by (auto simp: is_digit_def)
    show ?thesis
    proof (cases "M < ?w")
      case big: True
      have "list_all is_digit s \<Longrightarrow> M < ?w * 10 ^ length s + dec_val s"
        using num_val_ge_head [of s ?w] big d Cons.prems by simp
      moreover have "atofp_loop (M div 10) (M mod 10) v p True (c # s) = None"
        using big True nd d by (simp add: cutoff_test)
      ultimately show ?thesis unfolding val by auto
    next
      case False
      have "atofp_loop (M div 10) (M mod 10) v p True (c # s)
          = atofp_loop (M div 10) (M mod 10) ?w (p - 1) True s"
        using False True nd d by (simp add: cutoff_test)
      also have "\<dots> = (if list_all is_digit s \<and> length s \<le> p - 1
                       \<and> ?w * 10 ^ length s + dec_val s \<le> M
                       then Some (?w * 10 ^ length s + dec_val s, p - 1 - length s) else None)"
        using False d Cons.prems by (intro Cons.IH) simp_all
      finally show ?thesis unfolding val using True by auto
    qed
  qed
qed

text \<open>The digits before the dot and the fraction after it.\<close>

definition int_part :: "bytes \<Rightarrow> bytes" where
  "int_part s = takeWhile is_digit s"

definition frac_part :: "bytes \<Rightarrow> bytes" where
  "frac_part s = tl (dropWhile is_digit s)"

definition fixed_shape :: "nat \<Rightarrow> bytes \<Rightarrow> bool" where
  "fixed_shape point s \<longleftrightarrow>
     dropWhile is_digit s = [] \<or>
     (hd (dropWhile is_digit s) = ch CHR ''.'' \<and>
      list_all is_digit (frac_part s) \<and> length (frac_part s) \<le> point)"

lemma fixed_shape_digits: "fixed_shape p s \<Longrightarrow> list_all is_digit (int_part s @ frac_part s)"
  by (cases "dropWhile is_digit s = []")
     (auto simp: fixed_shape_def int_part_def frac_part_def list_all_iff
           simp del: dropWhile_eq_Nil_conv dest: set_takeWhileD)

lemma atofp_loop_nodot:
  assumes "0 \<le> v" "v \<le> M" "p \<noteq> 0"
  shows "atofp_loop (M div 10) (M mod 10) v p False s =
     (let w = int_part s @ frac_part s
      in if fixed_shape p s \<and> v * 10 ^ length w + dec_val w \<le> M
         then Some (v * 10 ^ length w + dec_val w, p - length (frac_part s)) else None)"
  using assms
proof (induction s arbitrary: v)
  case Nil
  then show ?case by (simp add: int_part_def frac_part_def fixed_shape_def)
next
  case (Cons c s)
  let ?v' = "v * 10 + dval c"
  consider (dot) "c = ch CHR ''.''" | (digit) "is_digit c" "c \<noteq> ch CHR ''.''"
    | (other) "\<not> is_digit c" "c \<noteq> ch CHR ''.''" by blast
  then show ?case
  proof cases
    case dot
    then have "\<not> is_digit c" by (simp add: is_digit_def)
    then have parts: "int_part (c # s) = []" "frac_part (c # s) = s"
      "fixed_shape p (c # s) \<longleftrightarrow> list_all is_digit s \<and> length s \<le> p"
      using dot by (simp_all add: int_part_def frac_part_def fixed_shape_def)
    have "atofp_loop (M div 10) (M mod 10) v p False (c # s)
        = atofp_loop (M div 10) (M mod 10) v p True s"
      using dot Cons.prems by simp
    with Cons.prems show ?thesis by (simp add: atofp_loop_dot parts Let_def)
  next
    case other
    with Cons.prems show ?thesis by (simp add: fixed_shape_def)
  next
    case digit
    then have d: "0 \<le> dval c" "dval c \<le> 9" by auto
    let ?w = "int_part s @ frac_part s"
    have parts: "int_part (c # s) = c # int_part s" "frac_part (c # s) = frac_part s"
      "fixed_shape p (c # s) \<longleftrightarrow> fixed_shape p s"
      using digit by (simp_all add: int_part_def frac_part_def fixed_shape_def)
    have val: "v * 10 ^ length (c # ?w) + dec_val (c # ?w) = ?v' * 10 ^ length ?w + dec_val ?w"
      by (simp add: num_val_Cons algebra_simps)
    note digs = fixed_shape_digits [of p s]
    show ?thesis
    proof (cases "M < ?v'")
      case big: True
      have "fixed_shape p s \<Longrightarrow> M < ?v' * 10 ^ length ?w + dec_val ?w"
        using num_val_ge_head [OF digs, of ?v'] big d Cons.prems by simp
      moreover have "atofp_loop (M div 10) (M mod 10) v p False (c # s) = None"
        using big digit d by (simp add: cutoff_test)
      ultimately show ?thesis unfolding parts append_Cons val Let_def by auto
    next
      case False
      have "atofp_loop (M div 10) (M mod 10) v p False (c # s)
          = atofp_loop (M div 10) (M mod 10) ?v' p False s"
        using False digit d Cons.prems by (simp add: cutoff_test)
      with False d Cons.prems show ?thesis
        unfolding parts append_Cons val Let_def by (simp add: Cons.IH Let_def)
    qed
  qed
qed

lemma atofp_scale_eq:
  assumes "0 \<le> v" "v \<le> M"
  shows "atofp_scale (M div 10) v k = (if v * 10 ^ k \<le> M then Some (v * 10 ^ k) else None)"
  using assms
proof (induction k arbitrary: v)
  case 0
  then show ?case by simp
next
  case (Suc k)
  have iff: "v \<le> M div 10 \<longleftrightarrow> v * 10 \<le> M" by (rule le_div_iff_mult_le) simp
  have ge: "v * 10 \<le> v * 10 * 10 ^ k"
    using Suc.prems mult_left_mono [of 1 "10 ^ k" "v * 10"] by simp
  show ?case
  proof (cases "v * 10 \<le> M")
    case True
    with iff Suc.prems show ?thesis by (simp add: Suc.IH algebra_simps)
  next
    case False
    with iff ge show ?thesis by (simp add: algebra_simps)
  qed
qed

text \<open>
  ngx_atofp reads a fixed-point number: digits, optionally a dot and at most
  \<open>point\<close> further digits, scaled to \<open>point\<close> decimals. It returns the scaled value when it
  fits in ngx_int_t and NGX_ERROR otherwise; the implementation's step-wise cutoff tests
  are exactly this bound.
\<close>

theorem ngx_atofp_correct:
  "ngx_atofp line point =
     (let w = int_part line @ frac_part line;
          scaled = dec_val w * 10 ^ (point - length (frac_part line))
      in if line \<noteq> [] \<and> point \<noteq> 0 \<and> fixed_shape point line \<and> scaled \<le> NGX_MAX_INT_T_VALUE
         then Some scaled else None)"
proof -
  let ?M = "NGX_MAX_INT_T_VALUE"
  let ?w = "int_part line @ frac_part line"
  let ?k = "point - length (frac_part line)"
  consider "line = []" | "line \<noteq> []" "point = 0" | "line \<noteq> []" "point \<noteq> 0" by blast
  then show ?thesis
  proof cases
    case 1
    then show ?thesis by (simp add: ngx_atofp_def)
  next
    case 2
    then show ?thesis by (cases line) (simp_all add: ngx_atofp_def)
  next
    case 3
    have loop: "ngx_atofp line point =
      (if fixed_shape point line \<and> dec_val ?w \<le> ?M then atofp_scale (?M div 10) (dec_val ?w) ?k else None)"
      using 3 atofp_loop_nodot [of 0 ?M point line] by (simp add: ngx_atofp_def Let_def)
    show ?thesis
    proof (cases "fixed_shape point line")
      case False
      with loop show ?thesis by simp
    next
      case True
      have nn: "0 \<le> dec_val ?w"
        using True by (intro dec_val_nonneg) (rule fixed_shape_digits)
      have ge: "dec_val ?w \<le> dec_val ?w * 10 ^ ?k"
        using nn mult_left_mono [of 1 "10 ^ ?k" "dec_val ?w"] by simp
      show ?thesis
      proof (cases "dec_val ?w \<le> ?M")
        case fits: True
        with loop True nn show ?thesis
          using atofp_scale_eq [of "dec_val ?w" ?M ?k] 3 by (simp add: Let_def)
      next
        case False
        with ge have "\<not> dec_val ?w * 10 ^ ?k \<le> ?M" by linarith
        with loop False show ?thesis by (simp add: Let_def)
      qed
    qed
  qed
qed

section \<open>Hexadecimal numbers and dumps\<close>

lemma hextoi_loop_step:
  "hextoi_loop cutoff v (c # s) =
     (if v > cutoff \<or> \<not> is_xdigit c then None else hextoi_loop cutoff (v * 16 + xval c) s)"
  by (auto simp: is_xdigit_def xval_def)

declare hextoi_loop.simps(2) [simp del]

lemma cutoff_test_16:
  fixes v x M :: int
  assumes "0 \<le> x" "x \<le> 15" "M mod 16 = 15"
  shows "M div 16 < v \<longleftrightarrow> M < v * 16 + x"
proof -
  define q where "q = M div 16"
  have "M = 16 * q + 15" using assms(3) unfolding q_def by (metis mult_div_mod_eq)
  with assms show ?thesis unfolding q_def [symmetric] by linarith
qed

lemma hextoi_loop_eq:
  assumes "0 \<le> v" "v \<le> M" "M mod 16 = 15"
  shows "hextoi_loop (M div 16) v s =
     (if list_all is_xdigit s \<and> v * 16 ^ length s + hex_val s \<le> M
      then Some (v * 16 ^ length s + hex_val s) else None)"
  using assms(1,2)
proof (induction s arbitrary: v)
  case Nil
  then show ?case by simp
next
  case (Cons c s)
  let ?w = "v * 16 + xval c"
  have val: "v * 16 ^ length (c # s) + hex_val (c # s) = ?w * 16 ^ length s + hex_val s"
    by (simp add: num_val_Cons algebra_simps)
  show ?case
  proof (cases "is_xdigit c")
    case False
    then show ?thesis by (simp add: hextoi_loop_step)
  next
    case dig: True
    then have d: "0 \<le> xval c" "xval c \<le> 15" by (auto dest: xval_range)
    have iff: "M div 16 < v \<longleftrightarrow> M < ?w"
      using d assms(3) by (rule cutoff_test_16)
    have ge: "list_all is_xdigit s \<Longrightarrow> ?w \<le> ?w * 16 ^ length s + hex_val s"
      using mult_left_mono [of 1 "16 ^ length s" ?w] hex_val_nonneg [of s] d Cons.prems by simp
    show ?thesis
    proof (cases "M < ?w")
      case True
      then have "hextoi_loop (M div 16) v (c # s) = None"
        using iff by (simp add: hextoi_loop_step)
      with True ge show ?thesis unfolding val by auto
    next
      case False
      then have "hextoi_loop (M div 16) v (c # s) = hextoi_loop (M div 16) ?w s"
        using iff dig by (simp add: hextoi_loop_step)
      with False d Cons.prems dig show ?thesis unfolding val by (simp add: Cons.IH)
    qed
  qed
qed

lemma ngx_hextoi_eq:
  "ngx_hextoi s =
     (if s \<noteq> [] \<and> list_all is_xdigit s \<and> hex_val s \<le> NGX_MAX_INT_T_VALUE
      then Some (hex_val s) else None)"
  using hextoi_loop_eq [of 0 NGX_MAX_INT_T_VALUE s] by (simp add: ngx_hextoi_def)

text \<open>The two characters of a dumped byte are hexadecimal digits that denote it.\<close>

lemma hex_chars_xdigit: "list_all is_xdigit hex_chars"
  by (simp add: hex_chars_def byte_class)

lemma hex_chars_nibble:
  assumes "n < 16"
  shows "is_xdigit (hex_chars ! n) \<and> xval (hex_chars ! n) = int n"
proof -
  have "list_all (\<lambda>n. is_xdigit (hex_chars ! n) \<and> xval (hex_chars ! n) = int n)
          [0, 1, 2, 3, 4, 5, 6, 7, 8, 9, 10, 11, 12, 13, 14, 15]"
    by (simp add: hex_chars_def byte_class)
  moreover have "n \<in> set [0, 1, 2, 3, 4, 5, 6, 7, 8, 9, 10, 11, 12, 13, 14, 15]"
    using assms by (simp, arith)
  ultimately show ?thesis unfolding list_all_iff by blast
qed

lemma hex_dump_byte:
  "is_xdigit (hex_chars ! unat (drop_bit 4 c)) \<and> is_xdigit (hex_chars ! unat (c AND 0xf)) \<and>
   xval (hex_chars ! unat (drop_bit 4 c)) * 16 + xval (hex_chars ! unat (c AND 0xf)) = uint c"
  for c :: u_char
proof -
  let ?h = "unat c div 16" and ?l = "unat c mod 16"
  have eq: "unat (drop_bit 4 c) = ?h" "unat (c AND 0xf) = ?l" by (simp_all add: word_arith)
  have hl: "?h < 16" "?l < 16" using unat_byte_less [of c] by simp_all
  have "int ?h * 16 + int ?l = int (unat c)" by (metis of_nat_add of_nat_mult of_nat_numeral div_mult_mod_eq)
  with hex_chars_nibble [OF hl(1)] hex_chars_nibble [OF hl(2)] show ?thesis
    unfolding eq by simp
qed

lemma hex_dump_length [simp]: "length (ngx_hex_dump src) = 2 * length src"
  by (induction src rule: ngx_hex_dump.induct) simp_all

lemma hex_dump_xdigits: "list_all is_xdigit (ngx_hex_dump src)"
  by (induction src rule: ngx_hex_dump.induct) (simp_all add: hex_dump_byte)

lemma hex_dump_val: "hex_val (ngx_hex_dump src) = num_val 256 uint src"
proof (induction src rule: ngx_hex_dump.induct)
  case 1
  then show ?case by simp
next
  case (2 c src)
  let ?n = "(16 :: int) ^ length (ngx_hex_dump src)"
  have n: "?n = 256 ^ length src" by (simp add: power_mult)
  have "hex_val (ngx_hex_dump (c # src)) =
      (xval (hex_chars ! unat (drop_bit 4 c)) * 16 + xval (hex_chars ! unat (c AND 0xf))) * ?n
      + hex_val (ngx_hex_dump src)"
    by (simp add: num_val_Cons algebra_simps)
  also have "\<dots> = uint c * 256 ^ length src + num_val 256 uint src"
    by (simp only: hex_dump_byte [THEN conjunct2, THEN conjunct2] n 2)
  finally show ?case by (simp add: num_val_Cons)
qed

text \<open>
  Dumping a byte string in hexadecimal and reading it back with ngx_hextoi gives the
  big-endian number the bytes stand for, as long as it fits in ngx_int_t.
\<close>

theorem ngx_hextoi_hex_dump:
  assumes "src \<noteq> []" "num_val 256 uint src \<le> NGX_MAX_INT_T_VALUE"
  shows "ngx_hextoi (ngx_hex_dump src) = Some (num_val 256 uint src)"
  using assms hex_dump_xdigits [of src]
  by (cases src) (simp_all add: ngx_hextoi_eq hex_dump_val del: ngx_hex_dump.simps,
    simp add: list_all_iff)

theorem ngx_hextoi_hex_dump_witness:
  "ngx_hextoi (ngx_hex_dump [0x1f, 0x90]) = Some 8080"
  using ngx_hextoi_hex_dump [of "[0x1f, 0x90]"] by (simp add: num_val_def)

end
