(* ===== verification/Ngx_Escape.thy ===== *)
theory Ngx_Escape
  imports Ngx_Num
begin

text \<open>
  Escaping in src/core/ngx_string.c: ngx_escape_uri with its seven character tables,
  ngx_unescape_uri as a byte machine, ngx_escape_html and ngx_escape_json. Each escaper has
  two modes: with a destination it writes, without one it counts the extra bytes.
\<close>

section \<open>URI escaping\<close>

definition escape_uri_map :: "u32 list" where
  "escape_uri_map = [0xffffffff, 0x80000029, 0x00000000, 0x80000000,
                     0xffffffff, 0xffffffff, 0xffffffff, 0xffffffff]"

definition escape_args_map :: "u32 list" where
  "escape_args_map = [0xffffffff, 0x88000869, 0x00000000, 0x80000000,
                      0xffffffff, 0xffffffff, 0xffffffff, 0xffffffff]"

definition escape_uri_component_map :: "u32 list" where
  "escape_uri_component_map = [0xffffffff, 0xfc009fff, 0x78000001, 0xb8000001,
                               0xffffffff, 0xffffffff, 0xffffffff, 0xffffffff]"

definition escape_html_map :: "u32 list" where
  "escape_html_map = [0xffffffff, 0x000000ad, 0x00000000, 0x80000000,
                      0xffffffff, 0xffffffff, 0xffffffff, 0xffffffff]"

definition escape_refresh_map :: "u32 list" where
  "escape_refresh_map = [0xffffffff, 0x00000085, 0x00000000, 0x80000000,
                         0xffffffff, 0xffffffff, 0xffffffff, 0xffffffff]"

definition escape_memcached_map :: "u32 list" where
  "escape_memcached_map = [0xffffffff, 0x00000021, 0x00000000, 0x00000000,
                           0x00000000, 0x00000000, 0x00000000, 0x00000000]"

definition escape_map :: "nat \<Rightarrow> u32 list" where
  "escape_map type =
     [escape_uri_map, escape_args_map, escape_uri_component_map, escape_html_map,
      escape_refresh_map, escape_memcached_map, escape_memcached_map] ! type"

abbreviation (input) NGX_ESCAPE_URI :: nat where "NGX_ESCAPE_URI \<equiv> 0"
abbreviation (input) NGX_ESCAPE_ARGS :: nat where "NGX_ESCAPE_ARGS \<equiv> 1"
abbreviation (input) NGX_ESCAPE_URI_COMPONENT :: nat where "NGX_ESCAPE_URI_COMPONENT \<equiv> 2"
abbreviation (input) NGX_ESCAPE_HTML :: nat where "NGX_ESCAPE_HTML \<equiv> 3"
abbreviation (input) NGX_ESCAPE_REFRESH :: nat where "NGX_ESCAPE_REFRESH \<equiv> 4"
abbreviation (input) NGX_ESCAPE_MEMCACHED :: nat where "NGX_ESCAPE_MEMCACHED \<equiv> 5"
abbreviation (input) NGX_ESCAPE_MAIL_AUTH :: nat where "NGX_ESCAPE_MAIL_AUTH \<equiv> 6"

definition HEX_upper :: bytes where
  "HEX_upper = bytes_of ''0123456789ABCDEF''"

fun ngx_escape_uri_count :: "bytes \<Rightarrow> nat \<Rightarrow> nat" where
  "ngx_escape_uri_count [] type = 0"
| "ngx_escape_uri_count (c # src) type =
     (if in_bitmap (escape_map type) c then Suc (ngx_escape_uri_count src type)
      else ngx_escape_uri_count src type)"

fun ngx_escape_uri :: "bytes \<Rightarrow> nat \<Rightarrow> bytes" where
  "ngx_escape_uri [] type = []"
| "ngx_escape_uri (c # src) type =
     (if in_bitmap (escape_map type) c
      then ch CHR ''%'' # HEX_upper ! unat (drop_bit 4 c) # HEX_upper ! unat (c AND 0xf)
           # ngx_escape_uri src type
      else c # ngx_escape_uri src type)"

section \<open>URI unescaping\<close>

abbreviation (input) NGX_UNESCAPE_URI :: u64 where "NGX_UNESCAPE_URI \<equiv> 1"
abbreviation (input) NGX_UNESCAPE_REDIRECT :: u64 where "NGX_UNESCAPE_REDIRECT \<equiv> 2"

datatype unescape_sw = us_usual | us_quoted | us_quoted_second

text \<open>The locals of the loop: \<open>state\<close>, \<open>decoded\<close>, the byte \<open>*(s - 2)\<close> and what \<open>d\<close> received.\<close>

record unescape_st =
  us_state :: unescape_sw
  us_decoded :: u_char
  us_prev :: u_char
  us_out :: bytes

definition us_emit :: "unescape_st \<Rightarrow> bytes \<Rightarrow> unescape_st" where
  "us_emit s bs = s\<lparr>us_out := us_out s @ bs\<rparr>"

definition us_step_usual :: "u64 \<Rightarrow> unescape_st \<Rightarrow> u_char \<Rightarrow> (unescape_st, unescape_st) outcome" where
  "us_step_usual type s c =
     (if c = ch CHR ''?'' \<and> type AND (NGX_UNESCAPE_URI OR NGX_UNESCAPE_REDIRECT) \<noteq> 0
      then Halt (us_emit s [c])
      else if c = ch CHR ''%'' then Go (s\<lparr>us_state := us_quoted\<rparr>)
      else Go (us_emit s [c]))"

definition us_step_quoted :: "unescape_st \<Rightarrow> u_char \<Rightarrow> (unescape_st, unescape_st) outcome" where
  "us_step_quoted s c =
     (if is_digit c then
        Go (s\<lparr>us_decoded := c - ch CHR ''0'', us_state := us_quoted_second\<rparr>)
      else if is_af20 c then
        Go (s\<lparr>us_decoded := (c OR 0x20) - ch CHR ''a'' + 10, us_state := us_quoted_second\<rparr>)
      else Go (us_emit (s\<lparr>us_state := us_usual\<rparr>) [c]))"

text \<open>\<open>if (ch > '%' && ch < 0x7f) *d++ = ch; else *d++ = '%', *(s - 2), *(s - 1)\<close>.\<close>

definition us_redirect :: "unescape_st \<Rightarrow> u_char \<Rightarrow> u_char \<Rightarrow> unescape_st" where
  "us_redirect s decoded_ch c =
     (if decoded_ch > ch CHR ''%'' \<and> decoded_ch < 0x7f then us_emit s [decoded_ch]
      else us_emit s [ch CHR ''%'', us_prev s, c])"

definition us_step_second :: "u64 \<Rightarrow> unescape_st \<Rightarrow> u_char \<Rightarrow> (unescape_st, unescape_st) outcome" where
  "us_step_second type s0 c =
     (let s = s0\<lparr>us_state := us_usual\<rparr>
      in if is_digit c then
           (let d = push_bit 4 (us_decoded s) + c - ch CHR ''0''
            in if type AND NGX_UNESCAPE_REDIRECT \<noteq> 0 then Go (us_redirect s d c)
               else Go (us_emit s [d]))
         else if is_af20 c then
           (let d = push_bit 4 (us_decoded s) + (c OR 0x20) - ch CHR ''a'' + 10
            in if type AND NGX_UNESCAPE_URI \<noteq> 0 then
                 (if d = ch CHR ''?'' then Halt (us_emit s [d]) else Go (us_emit s [d]))
               else if type AND NGX_UNESCAPE_REDIRECT \<noteq> 0 then
                 (if d = ch CHR ''?'' then Halt (us_emit s [d]) else Go (us_redirect s d c))
               else Go (us_emit s [d]))
         else Go s)"

definition us_step :: "u64 \<Rightarrow> unescape_st \<Rightarrow> u_char \<Rightarrow> (unescape_st, unescape_st) outcome" where
  "us_step type s c =
     (let r = (case us_state s of
                 us_usual \<Rightarrow> us_step_usual type s c
               | us_quoted \<Rightarrow> us_step_quoted s c
               | us_quoted_second \<Rightarrow> us_step_second type s c)
      in case r of Go s' \<Rightarrow> Go (s'\<lparr>us_prev := c\<rparr>) | Halt s' \<Rightarrow> Halt s')"

definition us_init :: unescape_st where
  "us_init = \<lparr>us_state = us_usual, us_decoded = 0, us_prev = 0, us_out = []\<rparr>"

text \<open>The bytes written to \<open>*dst\<close> and the unread source \<open>*src\<close>.\<close>

definition ngx_unescape_uri :: "bytes \<Rightarrow> u64 \<Rightarrow> bytes \<times> bytes" where
  "ngx_unescape_uri src type =
     (case feed (us_step type) us_init src of
        Go s \<Rightarrow> (us_out s, [])
      | Halt (s, rest) \<Rightarrow> (us_out s, rest))"

section \<open>HTML and JSON\<close>

fun ngx_escape_html_count :: "bytes \<Rightarrow> nat" where
  "ngx_escape_html_count [] = 0"
| "ngx_escape_html_count (c # src) =
     (if c = ch CHR ''<'' then 3 else if c = ch CHR ''>'' then 3 else if c = ch CHR ''&'' then 4
      else if c = 0x22 then 5 else 0) + ngx_escape_html_count src"

fun ngx_escape_html :: "bytes \<Rightarrow> bytes" where
  "ngx_escape_html [] = []"
| "ngx_escape_html (c # src) =
     (if c = ch CHR ''<'' then bytes_of ''&lt;''
      else if c = ch CHR ''>'' then bytes_of ''&gt;''
      else if c = ch CHR ''&'' then bytes_of ''&amp;''
      else if c = 0x22 then bytes_of ''&quot;''
      else [c]) @ ngx_escape_html src"

text \<open>\<open>0x5c\<close> is the backslash, \<open>0x22\<close> the double quote; 8, 9, 10, 12, 13 are \<open>\b \t \n \f \r\<close>.\<close>

fun ngx_escape_json_count :: "bytes \<Rightarrow> nat" where
  "ngx_escape_json_count [] = 0"
| "ngx_escape_json_count (c # src) =
     (if c = 0x5c \<or> c = 0x22 then 1
      else if c \<le> 0x1f then (if c \<in> {10, 13, 9, 8, 12} then 1 else 5)
      else 0) + ngx_escape_json_count src"

definition escape_json_char :: "u_char \<Rightarrow> bytes" where
  "escape_json_char c =
     (if c > 0x1f then (if c = 0x5c \<or> c = 0x22 then [0x5c, c] else [c])
      else 0x5c #
        (if c = 10 then [ch CHR ''n'']
         else if c = 13 then [ch CHR ''r'']
         else if c = 9 then [ch CHR ''t'']
         else if c = 8 then [ch CHR ''b'']
         else if c = 12 then [ch CHR ''f'']
         else [ch CHR ''u'', ch CHR ''0'', ch CHR ''0'', ch CHR ''0'' + drop_bit 4 c,
               (let l = c AND 0xf in if l < 10 then ch CHR ''0'' + l else ch CHR ''A'' + l - 10)]))"

fun ngx_escape_json :: "bytes \<Rightarrow> bytes" where
  "ngx_escape_json [] = []"
| "ngx_escape_json (c # src) = escape_json_char c @ ngx_escape_json src"

section \<open>Unescaping what was escaped\<close>

lemma HEX_upper_nibble:
  assumes "n < 16"
  shows "(is_digit (HEX_upper ! n) \<and> HEX_upper ! n - ch CHR ''0'' = word_of_nat n) \<or>
    (\<not> is_digit (HEX_upper ! n) \<and> is_af20 (HEX_upper ! n) \<and>
     (HEX_upper ! n OR 0x20) - ch CHR ''a'' + 10 = word_of_nat n)"
proof -
  have "list_all (\<lambda>n. (is_digit (HEX_upper ! n) \<and> HEX_upper ! n - ch CHR ''0'' = word_of_nat n) \<or>
    (\<not> is_digit (HEX_upper ! n) \<and> is_af20 (HEX_upper ! n) \<and>
     (HEX_upper ! n OR 0x20) - ch CHR ''a'' + 10 = word_of_nat n))
     [0, 1, 2, 3, 4, 5, 6, 7, 8, 9, 10, 11, 12, 13, 14, 15]"
    by (simp add: HEX_upper_def byte_class)
  moreover have "n \<in> set [0, 1, 2, 3, 4, 5, 6, 7, 8, 9, 10, 11, 12, 13, 14, 15]"
    using assms by (simp, arith)
  ultimately show ?thesis unfolding list_all_iff by blast
qed

lemma nibbles_join: "push_bit 4 (drop_bit 4 c) + (c AND 15) = c" for c :: u_char
  by (rule byte_all [of _ c]) simp

text \<open>Three steps of the machine read one escape; the fields but the output are as before.\<close>

lemma us_feed_escape:
  assumes "us_state s = us_usual"
  shows "\<exists>p d. feed (us_step 0) s (ch CHR ''%'' # HEX_upper ! unat (drop_bit 4 c)
                  # HEX_upper ! unat (c AND 0xf) # rest)
    = feed (us_step 0) (s\<lparr>us_decoded := d, us_prev := p, us_out := us_out s @ [c]\<rparr>) rest"
proof -
  let ?X = "HEX_upper ! unat (drop_bit 4 c)" and ?Y = "HEX_upper ! unat (c AND 0xf)"
  let ?h = "drop_bit 4 c" and ?l = "c AND 0xf"
  have lt: "unat ?h < 16" "unat ?l < 16" using unat_byte_less [of c] by (simp_all add: word_arith)
  let ?s1 = "s\<lparr>us_state := us_quoted, us_prev := ch CHR ''%''\<rparr>"
  let ?s2 = "s\<lparr>us_state := us_quoted_second, us_prev := ?X, us_decoded := ?h\<rparr>"
  let ?s3 = "s\<lparr>us_decoded := ?h, us_prev := ?Y, us_out := us_out s @ [c]\<rparr>"
  have 1: "us_step 0 s (ch CHR ''%'') = Go ?s1"
    using assms by (simp add: us_step_def us_step_usual_def)
  have 2: "us_step 0 ?s1 ?X = Go ?s2"
    using HEX_upper_nibble [OF lt(1)] by (auto simp: us_step_def us_step_quoted_def)
  have join: "push_bit 4 ?h + ?l = c" by (rule nibbles_join)
  have 3: "us_step 0 ?s2 ?Y = Go ?s3"
    using HEX_upper_nibble [OF lt(2)]
  proof
    assume "is_digit ?Y \<and> ?Y - ch CHR ''0'' = word_of_nat (unat ?l)"
    then have "is_digit ?Y" "push_bit 4 ?h + ?Y - ch CHR ''0'' = c"
      using join by (simp_all add: add_diff_eq [symmetric])
    with assms show ?thesis
      by (simp add: us_step_def us_step_second_def us_emit_def Let_def)
  next
    assume *: "\<not> is_digit ?Y \<and> is_af20 ?Y \<and> (?Y OR 0x20) - ch CHR ''a'' + 10 = word_of_nat (unat ?l)"
    have "push_bit 4 ?h + (?Y OR 0x20) - ch CHR ''a'' + 10
        = push_bit 4 ?h + ((?Y OR 0x20) - ch CHR ''a'' + 10)" by (simp add: algebra_simps)
    also have "\<dots> = c" using * join by simp
    finally have "push_bit 4 ?h + (?Y OR 0x20) - ch CHR ''a'' + 10 = c" .
    with * assms show ?thesis
      by (simp add: us_step_def us_step_second_def us_emit_def Let_def)
  qed
  have "feed (us_step 0) s (ch CHR ''%'' # ?X # ?Y # rest) = feed (us_step 0) ?s3 rest"
    by (simp only: feed.simps 1 2 3 outcome.case)
  then show ?thesis by blast
qed

lemma escape_map_percent:
  "type < 7 \<Longrightarrow> in_bitmap (escape_map type) (ch CHR ''%'') \<longleftrightarrow> type \<noteq> NGX_ESCAPE_REFRESH"
proof -
  assume "type < 7"
  then have "type \<in> {0, 1, 2, 3, 4, 5, 6}" by (simp, arith)
  then show ?thesis
    by (auto simp: in_bitmap_def escape_map_def escape_uri_map_def escape_args_map_def
        escape_uri_component_map_def escape_html_map_def escape_refresh_map_def escape_memcached_map_def)
qed

lemma us_feed_escape_all:
  assumes "type < 7" "type \<noteq> NGX_ESCAPE_REFRESH" "us_state s = us_usual"
  shows "\<exists>s'. feed (us_step 0) s (ngx_escape_uri src type) = Go s' \<and> us_out s' = us_out s @ src"
  using assms(3)
proof (induction src arbitrary: s)
  case Nil
  then show ?case by simp
next
  case (Cons c src)
  show ?case
  proof (cases "in_bitmap (escape_map type) c")
    case True
    obtain p d where "feed (us_step 0) s (ngx_escape_uri (c # src) type)
      = feed (us_step 0) (s\<lparr>us_decoded := d, us_prev := p, us_out := us_out s @ [c]\<rparr>) (ngx_escape_uri src type)"
      using us_feed_escape [OF Cons.prems, of c "ngx_escape_uri src type"] True by auto
    with Cons.IH [of "s\<lparr>us_decoded := d, us_prev := p, us_out := us_out s @ [c]\<rparr>"] Cons.prems
    show ?thesis by simp
  next
    case False
    with assms have "c \<noteq> ch CHR ''%''" using escape_map_percent [of type] by auto
    then have "us_step 0 s c = Go (s\<lparr>us_out := us_out s @ [c], us_prev := c\<rparr>)"
      using Cons.prems by (simp add: us_step_def us_step_usual_def us_emit_def)
    with False Cons.prems Cons.IH [of "s\<lparr>us_out := us_out s @ [c], us_prev := c\<rparr>"]
    show ?thesis by simp
  qed
qed

text \<open>
  C38. ngx_unescape_uri (type 0) undoes ngx_escape_uri for every escape type but
  NGX_ESCAPE_REFRESH: the whole source is consumed and the original string comes back.
\<close>

theorem ngx_escape_unescape:
  assumes "type < 7" "type \<noteq> NGX_ESCAPE_REFRESH"
  shows "ngx_unescape_uri (ngx_escape_uri src type) 0 = (src, [])"
  using us_feed_escape_all [OF assms, of us_init src]
  by (auto simp: ngx_unescape_uri_def us_init_def)

theorem ngx_escape_unescape_witness:
  "ngx_unescape_uri (ngx_escape_uri (bytes_of ''a b%c?'') NGX_ESCAPE_URI_COMPONENT) 0
     = (bytes_of ''a b%c?'', [])"
  by (rule ngx_escape_unescape) simp_all

text \<open>
  C10. The percent sign itself is escaped by every type except NGX_ESCAPE_REFRESH: the
  comment above the refresh table lists it among the escaped characters, the table's word
  0x00000085 does not have its bit, so a refresh target with a literal escape changes
  meaning when it is unescaped.
\<close>

theorem ngx_escape_refresh_percent:
  "(\<forall>type<7. in_bitmap (escape_map type) (ch CHR ''%'') \<longleftrightarrow> type \<noteq> NGX_ESCAPE_REFRESH) \<and>
   ngx_unescape_uri (ngx_escape_uri (bytes_of ''%41'') NGX_ESCAPE_REFRESH) 0 = (bytes_of ''A'', [])"
proof
  show "\<forall>type<7. in_bitmap (escape_map type) (ch CHR ''%'') \<longleftrightarrow> type \<noteq> NGX_ESCAPE_REFRESH"
    using escape_map_percent by blast
  show "ngx_unescape_uri (ngx_escape_uri (bytes_of ''%41'') NGX_ESCAPE_REFRESH) 0 = (bytes_of ''A'', [])"
    by (simp add: ngx_unescape_uri_def us_init_def us_step_def us_step_usual_def us_step_quoted_def
        us_step_second_def us_emit_def in_bitmap_def escape_map_def escape_refresh_map_def byte_class)
qed

section \<open>Counting and writing agree\<close>

lemma escape_json_char_length:
  "length (escape_json_char c) =
     1 + (if c = 0x5c \<or> c = 0x22 then 1
          else if c \<le> 0x1f then (if c \<in> {10, 13, 9, 8, 12} then 1 else 5) else 0)"
proof (cases "c > 0x1f")
  case True
  then show ?thesis by (auto simp: escape_json_char_def)
next
  case False
  then have "c \<noteq> 0x5c" "c \<noteq> 0x22" "c \<le> 0x1f" by auto
  with False show ?thesis by (simp add: escape_json_char_def)
qed

text \<open>
  The counting mode of the three escapers is what callers allocate with: the escaped
  text is exactly \<open>2 n\<close> bytes longer for \<open>n\<close> escaped URI characters, and exactly the counted
  number of bytes longer for HTML and JSON.
\<close>

theorem ngx_escape_counts:
  "length (ngx_escape_uri src type) = length src + 2 * ngx_escape_uri_count src type \<and>
   length (ngx_escape_html src) = length src + ngx_escape_html_count src \<and>
   length (ngx_escape_json src) = length src + ngx_escape_json_count src"
proof (intro conjI)
  show "length (ngx_escape_uri src type) = length src + 2 * ngx_escape_uri_count src type"
    by (induction src type rule: ngx_escape_uri.induct) simp_all
  show "length (ngx_escape_html src) = length src + ngx_escape_html_count src"
    by (induction src rule: ngx_escape_html.induct) simp_all
  show "length (ngx_escape_json src) = length src + ngx_escape_json_count src"
    by (induction src rule: ngx_escape_json.induct) (simp_all add: escape_json_char_length)
qed

section \<open>JSON strings\<close>

text \<open>
  What a JSON reader makes of the inside of a string literal (RFC 8259), restricted to the
  escapes for bytes: control characters and bare quotes are errors.
\<close>

definition json_short_escape :: "u_char \<Rightarrow> u_char option" where
  "json_short_escape e =
     (if e = 0x5c \<or> e = 0x22 \<or> e = ch CHR ''/'' then Some e
      else if e = ch CHR ''n'' then Some 10 else if e = ch CHR ''r'' then Some 13
      else if e = ch CHR ''t'' then Some 9 else if e = ch CHR ''b'' then Some 8
      else if e = ch CHR ''f'' then Some 12 else None)"

fun json_string :: "bytes \<Rightarrow> bytes option" where
  "json_string [] = Some []"
| "json_string (c # s) =
     (if c = 0x5c then
        (case s of
           [] \<Rightarrow> None
         | e # s1 \<Rightarrow>
             if e = ch CHR ''u'' then
               (case s1 of
                  a # b # x # y # s2 \<Rightarrow>
                    if a = ch CHR ''0'' \<and> b = ch CHR ''0'' \<and> is_xdigit x \<and> is_xdigit y
                    then map_option ((#) (word_of_int (xval x * 16 + xval y))) (json_string s2)
                    else None
                | _ \<Rightarrow> None)
             else (case json_short_escape e of
                     None \<Rightarrow> None
                   | Some v \<Rightarrow> map_option ((#) v) (json_string s1)))
      else if c < 0x20 \<or> c = 0x22 then None
      else map_option ((#) c) (json_string s))"

lemma json_u00:
  assumes "c \<le> 0x1f"
  shows "let h = ch CHR ''0'' + drop_bit 4 c;
             l = (if (c AND 0xf) < 10 then ch CHR ''0'' + (c AND 0xf) else ch CHR ''A'' + (c AND 0xf) - 10)
         in is_xdigit h \<and> is_xdigit l \<and> word_of_int (xval h * 16 + xval l) = (c :: u_char)"
proof (rule byte_less_exhaust [where n = 32])
  show "unat c < 32" using assms by (simp add: word_le_nat_alt)
qed (simp add: upt_rec byte_class Let_def)

lemma json_string_char: "json_string (escape_json_char c @ rest) = map_option ((#) c) (json_string rest)"
proof (cases "c > 0x1f")
  case True
  then have "\<not> c < 0x20" by (simp add: word_less_nat_alt)
  with True show ?thesis by (simp add: escape_json_char_def json_short_escape_def)
next
  case False
  then have small: "c \<le> 0x1f" by simp
  show ?thesis
  proof (cases "c \<in> {10, 13, 9, 8, 12}")
    case True
    then show ?thesis by (auto simp: escape_json_char_def json_short_escape_def)
  next
    case other: False
    with False json_u00 [OF small] show ?thesis
      by (simp add: escape_json_char_def Let_def)
  qed
qed

text \<open>
  C39. ngx_escape_json produces the inside of a JSON string literal that denotes exactly
  the source bytes: no control character or bare quote survives, and every escape decodes
  to the byte it stands for.
\<close>

theorem ngx_escape_json_correct: "json_string (ngx_escape_json src) = Some src"
  by (induction src rule: ngx_escape_json.induct) (simp_all add: json_string_char)

text \<open>
  Text escaped by ngx_escape_html cannot open a tag or close an attribute: none of the
  bytes \<open><\<close>, \<open>>\<close> and the double quote occurs in it.
\<close>

theorem ngx_escape_html_safe:
  "set (ngx_escape_html src) \<inter> {ch CHR ''<'', ch CHR ''>'', 0x22} = {}"
  by (induction src rule: ngx_escape_html.induct) auto

end
