(* ===== verification/Http_Args.thy ===== *)
theory Http_Args
  imports Http_Request_Line Ngx_Strings Ngx_Escape
begin

text \<open>
  The rest of src/http/ngx_http_parse.c: ngx_http_parse_unsafe_uri(), which checks URIs
  that come from an upstream or a configuration, ngx_http_split_args() and ngx_http_arg() for
  the arguments of a URI, ngx_http_parse_multi_header_lines() and
  ngx_http_parse_set_cookie_lines() for the cookies. An ngx_str_t is its bytes; header values are followed
  by a NUL, which comparisons may read. Allocation is taken to succeed. A path separator is
  "/" (no NGX_WIN32).
\<close>

section \<open>Unsafe URIs\<close>

text \<open>\<open>p[0] == '.' && p[1] == '.' && (len == 2 || ngx_path_separator(p[2]))\<close>.\<close>

fun dotdot :: "bytes \<Rightarrow> bool" where
  "dotdot (a # b # s) \<longleftrightarrow> a = ch CHR ''.'' \<and> b = ch CHR ''.'' \<and> (s = [] \<or> hd s = ch CHR ''/'')"
| "dotdot _ \<longleftrightarrow> False"

text \<open>
  The first loop: \<open>None\<close> is \<open>goto unsafe\<close>; else whether a "%" was seen, the path, and the
  arguments if there is a "?".
\<close>

fun unsafe_scan :: "bytes \<Rightarrow> (bool \<times> bytes \<times> bytes option) option" where
  "unsafe_scan [] = Some (False, [], None)"
| "unsafe_scan (c # p) =
     (if c = ch CHR ''%''
      then map_option (\<lambda>(q, path, args). (True, c # path, args)) (unsafe_scan p)
      else if is_usual c
      then map_option (\<lambda>(q, path, args). (q, c # path, args)) (unsafe_scan p)
      else if c = ch CHR ''?'' then Some (False, [], Some p)
      else if c = 0 then None
      else if c = ch CHR ''/'' \<and> dotdot p then None
      else map_option (\<lambda>(q, path, args). (q, c # path, args)) (unsafe_scan p))"

text \<open>The loop over the unescaped path.\<close>

fun unsafe_rescan :: "bytes \<Rightarrow> bool" where
  "unsafe_rescan [] \<longleftrightarrow> True"
| "unsafe_rescan (c # p) \<longleftrightarrow>
     (if c = 0 then False
      else if c = ch CHR ''/'' \<and> dotdot p then False
      else unsafe_rescan p)"

text \<open>The new \<open>*uri\<close> and \<open>*args\<close>; \<open>None\<close> is NGX_ERROR.\<close>

definition ngx_http_parse_unsafe_uri :: "bytes \<Rightarrow> bytes \<Rightarrow> (bytes \<times> bytes) option" where
  "ngx_http_parse_unsafe_uri uri args =
     (if uri = [] \<or> hd uri = ch CHR ''?'' then None
      else if dotdot uri then None
      else
        (case unsafe_scan uri of
           None \<Rightarrow> None
         | Some (quoted, path, args') \<Rightarrow>
             (let args = (case args' of None \<Rightarrow> args | Some a \<Rightarrow> a)
              in if quoted
                 then (let path = fst (ngx_unescape_uri path 0)
                       in if dotdot path then None
                          else if unsafe_rescan path then Some (path, args) else None)
                 else Some (path, args))))"

text \<open>A ".." segment: the path of the URI leads above the place it starts from.\<close>

definition dotdot_at :: "bytes \<Rightarrow> bytes \<Rightarrow> bytes \<Rightarrow> bool" where
  "dotdot_at u pre post \<longleftrightarrow> u = pre @ bytes_of ''..'' @ post
     \<and> (pre = [] \<or> last pre = ch CHR ''/'') \<and> (post = [] \<or> hd post = ch CHR ''/'')"

lemma dotdot_iff: "dotdot s \<longleftrightarrow> (\<exists>post. s = bytes_of ''..'' @ post \<and> (post = [] \<or> hd post = ch CHR ''/''))"
  by (cases s rule: dotdot.cases) auto

lemma unsafe_rescan_iff:
  "unsafe_rescan u \<longleftrightarrow> 0 \<notin> set u \<and> (\<forall>pre s. u = pre @ ch CHR ''/'' # s \<longrightarrow> \<not> dotdot s)"
proof (induction u)
  case (Cons c u)
  have "(\<forall>pre s. c # u = pre @ ch CHR ''/'' # s \<longrightarrow> \<not> dotdot s)
      \<longleftrightarrow> (c = ch CHR ''/'' \<longrightarrow> \<not> dotdot u) \<and> (\<forall>pre s. u = pre @ ch CHR ''/'' # s \<longrightarrow> \<not> dotdot s)"
    by (auto simp: Cons_eq_append_conv)
  with Cons show ?case by auto
qed simp

lemma no_dotdot:
  assumes "\<not> dotdot u" "\<forall>pre s. u = pre @ ch CHR ''/'' # s \<longrightarrow> \<not> dotdot s"
  shows "\<not> dotdot_at u pre post"
proof
  assume at: "dotdot_at u pre post"
  show False
  proof (cases pre rule: rev_cases)
    case Nil
    with at assms(1) show False by (auto simp: dotdot_at_def dotdot_iff)
  next
    case (snoc pre' c)
    with at have "u = pre' @ ch CHR ''/'' # bytes_of ''..'' @ post" "post = [] \<or> hd post = ch CHR ''/''"
      by (auto simp: dotdot_at_def)
    with assms(2) show False by (auto simp: dotdot_iff)
  qed
qed

text \<open>The unquoted path is a prefix of the URI, checked at each of its slashes.\<close>

lemma unsafe_scan_Some:
  assumes "unsafe_scan uri = Some (q, path, args)"
  shows "0 \<notin> set path \<and> q = (ch CHR ''%'' \<in> set path) \<and> ch CHR ''?'' \<notin> set path
    \<and> uri = path @ (case args of None \<Rightarrow> [] | Some a \<Rightarrow> ch CHR ''?'' # a)
    \<and> (\<forall>pre s. path = pre @ ch CHR ''/'' # s
        \<longrightarrow> \<not> dotdot (s @ (case args of None \<Rightarrow> [] | Some a \<Rightarrow> ch CHR ''?'' # a)))"
  using assms
proof (induction uri arbitrary: q path)
  case Nil
  then show ?case by simp
next
  case (Cons c p)
  show ?case
  proof (cases "c \<noteq> ch CHR ''%'' \<and> \<not> is_usual c \<and> c = ch CHR ''?''")
    case True
    with Cons.prems show ?thesis by auto
  next
    case False
    then obtain q' path' where p: "unsafe_scan p = Some (q', path', args)" and path: "path = c # path'"
      and q: "q = (c = ch CHR ''%'' \<or> q')" and c: "c \<noteq> 0"
      and sep: "c = ch CHR ''/'' \<Longrightarrow> \<not> dotdot p"
      using Cons.prems by (auto split: if_splits dest: usual_not)
    note IH = Cons.IH [OF p]
    have "(\<forall>pre s. c # path' = pre @ ch CHR ''/'' # s
        \<longrightarrow> \<not> dotdot (s @ (case args of None \<Rightarrow> [] | Some a \<Rightarrow> ch CHR ''?'' # a)))"
    proof (intro allI impI)
      fix pre s
      assume split: "c # path' = pre @ ch CHR ''/'' # s"
      show "\<not> dotdot (s @ (case args of None \<Rightarrow> [] | Some a \<Rightarrow> ch CHR ''?'' # a))"
      proof (cases pre)
        case Nil
        with split IH sep show ?thesis by auto
      next
        case (Cons d pre')
        with split IH show ?thesis by auto
      qed
    qed
    moreover have "c \<noteq> ch CHR ''?''" using Cons.prems False by (auto split: if_splits dest: usual_not)
    ultimately show ?thesis using IH path q c by auto
  qed
qed

text \<open>
  C36. A URI that ngx_http_parse_unsafe_uri() accepts has a path, already unescaped, without
  NUL and without a ".." segment, with one exception: the last segment may be ".." when
  arguments follow it and nothing in the path was escaped.
\<close>

theorem ngx_http_parse_unsafe_uri_safe:
  assumes "ngx_http_parse_unsafe_uri uri args = Some (path, args')"
  shows "0 \<notin> set path \<and>
    (\<forall>pre post. dotdot_at path pre post
      \<longrightarrow> post = [] \<and> ch CHR ''%'' \<notin> set path \<and> uri = path @ ch CHR ''?'' # args')"
proof -
  have start: "\<not> dotdot uri"
    using assms by (auto simp: ngx_http_parse_unsafe_uri_def split: if_splits)
  from assms obtain q p a where scan: "unsafe_scan uri = Some (q, p, a)"
    and args: "args' = (case a of None \<Rightarrow> args | Some a \<Rightarrow> a)"
    and res: "if q then path = fst (ngx_unescape_uri p 0) \<and> \<not> dotdot path \<and> unsafe_rescan path else path = p"
    by (auto simp: ngx_http_parse_unsafe_uri_def Let_def split: if_splits option.splits)
  note s = unsafe_scan_Some [OF scan]
  show ?thesis
  proof (cases q)
    case True
    with res have "\<not> dotdot path" "unsafe_rescan path" by auto
    with no_dotdot [of path] show ?thesis unfolding unsafe_rescan_iff by blast
  next
    case False
    then have path: "path = p" using res by simp
    have "post = [] \<and> ch CHR ''%'' \<notin> set path \<and> uri = path @ ch CHR ''?'' # args'"
      if at: "dotdot_at path pre post" for pre post
    proof -
      let ?tail = "case a of None \<Rightarrow> [] | Some a \<Rightarrow> ch CHR ''?'' # a"
      have uri: "uri = path @ ?tail" using s path by simp
      have bad: "dotdot (bytes_of ''..'' @ post @ ?tail)" if "post \<noteq> [] \<or> a = None"
        using at that by (cases post) (auto simp: dotdot_at_def)
      have "\<not> dotdot (bytes_of ''..'' @ post @ ?tail)"
      proof (cases pre rule: rev_cases)
        case Nil
        with at start uri show ?thesis by (simp add: dotdot_at_def)
      next
        case (snoc pre' c)
        with at have "path = pre' @ ch CHR ''/'' # (bytes_of ''..'' @ post)" by (auto simp: dotdot_at_def)
        with s path show ?thesis by fastforce
      qed
      with bad have "post = [] \<and> a \<noteq> None" by blast
      with uri args s False path show ?thesis by auto
    qed
    with s path show ?thesis by blast
  qed
qed

theorem ngx_http_parse_unsafe_uri_safe_witness:
  "ngx_http_parse_unsafe_uri (bytes_of ''/a%2e./b?c'') [] = Some (bytes_of ''/a../b'', bytes_of ''c'')
   \<and> (\<forall>pre post. \<not> dotdot_at (bytes_of ''/a../b'') pre post)"
proof -
  have ok: "ngx_http_parse_unsafe_uri (bytes_of ''/a%2e./b?c'') [] = Some (bytes_of ''/a../b'', bytes_of ''c'')"
    by (simp add: ngx_http_parse_unsafe_uri_def is_usual_def in_bitmap_def usual_def ngx_unescape_uri_def
        us_init_def us_step_def us_step_usual_def us_step_quoted_def us_step_second_def us_emit_def byte_class)
  with ngx_http_parse_unsafe_uri_safe [OF ok] show ?thesis by auto
qed

text \<open>The exception is real: with arguments a last ".." segment, or the URI "..", passes.\<close>

lemma ngx_http_parse_unsafe_uri_args:
  "ngx_http_parse_unsafe_uri (bytes_of ''/..'') [] = None"
  "ngx_http_parse_unsafe_uri (bytes_of ''/..?x'') [] = Some (bytes_of ''/..'', bytes_of ''x'')"
  "ngx_http_parse_unsafe_uri (bytes_of ''..'') [] = None"
  "ngx_http_parse_unsafe_uri (bytes_of ''..?x'') [] = Some (bytes_of ''..'', bytes_of ''x'')"
  by (simp_all add: ngx_http_parse_unsafe_uri_def is_usual_def in_bitmap_def usual_def)

section \<open>Arguments\<close>

definition ngx_http_split_args :: "bytes \<Rightarrow> bytes \<times> bytes" where
  "ngx_http_split_args uri =
     (case ngx_strlchr uri (ch CHR ''?'') of
        Some p \<Rightarrow> (take p uri, drop (p + 1) uri)
      | None \<Rightarrow> (uri, []))"

text \<open>
  The loop of ngx_http_arg() from the offset \<open>p\<close> of \<open>r->args\<close>; \<open>None\<close> is NGX_DECLINED.
\<close>


function arg_loop :: "bytes \<Rightarrow> bytes \<Rightarrow> nat \<Rightarrow> bytes option" where
  "arg_loop args name p =
     (if p < length args then
        (case ngx_strlcasestrn (butlast (drop p args)) name (length name - 1) of
           None \<Rightarrow> None
         | Some i \<Rightarrow>
             (let p = p + i
              in if (p = 0 \<or> args ! (p - 1) = ch CHR ''&'') \<and> args ! (p + length name) = ch CHR ''=''
                 then (let v = p + length name + 1;
                           e = (case ngx_strlchr (drop p args) (ch CHR ''&'') of
                                  None \<Rightarrow> length args | Some k \<Rightarrow> p + k)
                       in Some (take (e - v) (drop v args)))
                 else arg_loop args name (p + 1)))
      else None)"
  by pat_completeness auto
termination
  by (relation "measure (\<lambda>(args, _, p). length args - p)") auto

declare arg_loop.simps [simp del]

definition ngx_http_arg :: "bytes \<Rightarrow> bytes \<Rightarrow> bytes option" where
  "ngx_http_arg args name = (if args = [] then None else arg_loop args name 0)"

text \<open>An argument starts at the beginning or after "&", up to case, and its name is followed by "=".\<close>

definition arg_at :: "bytes \<Rightarrow> bytes \<Rightarrow> nat \<Rightarrow> bool" where
  "arg_at args name p \<longleftrightarrow> (p = 0 \<or> args ! (p - 1) = ch CHR ''&'')
     \<and> matches_at name args p \<and> p + length name < length args \<and> args ! (p + length name) = ch CHR ''=''"

definition arg_value :: "bytes \<Rightarrow> bytes \<Rightarrow> nat \<Rightarrow> bytes" where
  "arg_value args name p = takeWhile (\<lambda>c. c \<noteq> ch CHR ''&'') (drop (p + length name + 1) args)"

lemma strlchr_Some: "ngx_strlchr s c = Some k \<longleftrightarrow> k < length s \<and> s ! k = c \<and> c \<notin> set (take k s)"
proof (induction s arbitrary: k)
  case (Cons a s)
  show ?case by (cases k) (auto simp: Cons.IH)
qed simp

lemma strlchr_None: "ngx_strlchr s c = None \<longleftrightarrow> c \<notin> set s"
  by (induction s) auto

lemma strlchr_takeWhile:
  "(case ngx_strlchr s c of None \<Rightarrow> length s | Some k \<Rightarrow> k) = length (takeWhile (\<lambda>x. x \<noteq> c) s)"
  by (induction s) (auto split: option.splits)

lemma takeWhile_skip: "c \<notin> set xs \<Longrightarrow> takeWhile (\<lambda>x. x \<noteq> c) (xs @ ys) = xs @ takeWhile (\<lambda>x. x \<noteq> c) ys"
  by (induction xs) auto

lemma take_length_takeWhile: "take (length (takeWhile P s)) s = takeWhile P s"
  by (induction s) auto

lemma tolower_amp: "ngx_tolower c = ch CHR ''&'' \<longleftrightarrow> c = ch CHR ''&''"
  by (rule byte_exhaust [of "\<lambda>c. ngx_tolower c = ch CHR ''&'' \<longleftrightarrow> c = ch CHR ''&''"])
    (simp add: ngx_tolower_def upt_rec)

text \<open>The end of the value, searched from the name on.\<close>

lemma arg_value_eq:
  assumes "arg_at args name p" "ch CHR ''&'' \<notin> set name"
  shows "arg_value args name p
    = take ((case ngx_strlchr (drop p args) (ch CHR ''&'') of None \<Rightarrow> length args | Some k \<Rightarrow> p + k)
        - (p + length name + 1)) (drop (p + length name + 1) args)"
proof -
  let ?P = "\<lambda>c. c \<noteq> ch CHR ''&''" and ?v = "p + length name + 1"
  let ?n = "take (length name) (drop p args)"
  have len: "p + length name < length args" "args ! (p + length name) = ch CHR ''=''"
    and low: "map ngx_tolower ?n = map ngx_tolower name"
    using assms(1) by (auto simp: arg_at_def matches_at_def)
  have "drop p args = ?n @ drop (p + length name) args"
    by (metis add.commute append_take_drop_id drop_drop)
  moreover have "drop (p + length name) args = ch CHR ''='' # drop ?v args"
    using len by (simp flip: Cons_nth_drop_Suc)
  ultimately have split: "drop p args = ?n @ ch CHR ''='' # drop ?v args" by simp
  have "ch CHR ''&'' \<notin> set ?n"
  proof
    assume "ch CHR ''&'' \<in> set ?n"
    then have "ngx_tolower (ch CHR ''&'') \<in> set (map ngx_tolower ?n)" by simp
    then have "ngx_tolower (ch CHR ''&'') \<in> set (map ngx_tolower name)" unfolding low .
    then obtain c where "c \<in> set name" "ngx_tolower c = ngx_tolower (ch CHR ''&'')" by auto
    moreover have "ngx_tolower (ch CHR ''&'') = ch CHR ''&''" using tolower_amp by blast
    ultimately show False using assms(2) tolower_amp by metis
  qed
  then have tw: "takeWhile ?P (drop p args) = ?n @ ch CHR ''='' # takeWhile ?P (drop ?v args)"
    by (subst split) (simp add: takeWhile_skip)
  have "(case ngx_strlchr (drop p args) (ch CHR ''&'') of None \<Rightarrow> length args | Some k \<Rightarrow> p + k)
      = p + length (takeWhile ?P (drop p args))"
    using len strlchr_takeWhile [of "drop p args" "ch CHR ''&''"] by (auto split: option.splits)
  also have "\<dots> = ?v + length (takeWhile ?P (drop ?v args))"
    unfolding tw using len by simp
  finally show ?thesis unfolding arg_value_def by (simp add: take_length_takeWhile)
qed

lemma ngx_http_split_args_correct:
  "case ngx_http_split_args uri of (path, args) \<Rightarrow>
     path = takeWhile (\<lambda>c. c \<noteq> ch CHR ''?'') uri
     \<and> uri = path @ (if ch CHR ''?'' \<in> set uri then ch CHR ''?'' # args else [])"
proof (cases "ngx_strlchr uri (ch CHR ''?'')")
  case None
  then have "ch CHR ''?'' \<notin> set uri" by (simp add: strlchr_None)
  with None takeWhile_skip [of "ch CHR ''?''" uri "[]"] show ?thesis
    by (simp add: ngx_http_split_args_def del: takeWhile_eq_all_conv)
next
  case (Some k)
  then have k: "k < length uri" "uri ! k = ch CHR ''?''" "ch CHR ''?'' \<notin> set (take k uri)"
    using strlchr_Some by blast+
  then have "uri = take k uri @ ch CHR ''?'' # drop (k + 1) uri" by (metis Suc_eq_plus1 id_take_nth_drop)
  moreover have "takeWhile (\<lambda>c. c \<noteq> ch CHR ''?'') uri = take k uri"
    using strlchr_takeWhile [of uri "ch CHR ''?''"] Some take_length_takeWhile [of "\<lambda>c. c \<noteq> ch CHR ''?''" uri] by simp
  moreover have "ch CHR ''?'' \<in> set uri" using k by (metis nth_mem)
  ultimately show ?thesis using Some by (simp add: ngx_http_split_args_def)
qed

lemma matches_butlast:
  assumes "p < length args" "name \<noteq> []"
  shows "matches_at name (butlast (drop p args)) i
    \<longleftrightarrow> matches_at name args (p + i) \<and> p + i + length name < length args"
proof -
  have "take (length name) (drop i (butlast (drop p args))) = take (length name) (drop (p + i) args)"
    if "p + i + length name < length args"
    using that by (simp add: butlast_conv_take drop_take min_def add.commute)
  then show ?thesis using assms by (auto simp: matches_at_def)
qed

lemma strlcasestrn_Some:
  assumes "pat \<noteq> []" "0 \<notin> set pat"
  shows "ngx_strlcasestrn s pat (length pat - 1) = Some i
    \<longleftrightarrow> matches_at pat s i \<and> (\<forall>j<i. \<not> matches_at pat s j)"
proof -
  obtain c2 s2 where "pat = c2 # s2" using assms by (cases pat) auto
  with strlcasestrn_loop_first [of s2 s c2 0 i] assms show ?thesis by (simp add: ngx_strlcasestrn_def)
qed

lemma strlcasestrn_None:
  assumes "pat \<noteq> []" "0 \<notin> set pat" "ngx_strlcasestrn s pat (length pat - 1) = None"
  shows "\<not> matches_at pat s j"
  using strlcasestrn_Some [OF assms(1,2), of s] assms(3) by (metis exists_least_iff option.distinct(1))

lemma arg_loop_first:
  assumes "name \<noteq> []" "0 \<notin> set name" "ch CHR ''&'' \<notin> set name"
  shows "arg_loop args name p = Some v
    \<longleftrightarrow> (\<exists>i\<ge>p. arg_at args name i \<and> (\<forall>j<i. p \<le> j \<longrightarrow> \<not> arg_at args name j) \<and> v = arg_value args name i)"
  using assms
proof (induction args name p rule: arg_loop.induct)
  case (1 args name p)
  note len = "1.prems"
  show ?case
  proof (cases "p < length args")
    case False
    then show ?thesis by (subst arg_loop.simps) (auto simp: arg_at_def)
  next
    case p: True
    note m = matches_butlast [OF p len(1)]
    show ?thesis
    proof (cases "ngx_strlcasestrn (butlast (drop p args)) name (length name - 1)")
      case None
      then have "\<not> arg_at args name i" if "p \<le> i" for i
        using strlcasestrn_None [OF len(1,2) None, of "i - p"] m [of "i - p"] that
        by (auto simp: arg_at_def)
      with p None show ?thesis by (subst arg_loop.simps) auto
    next
      case (Some k)
      with strlcasestrn_Some [OF len(1,2)] have k: "matches_at name args (p + k)" "p + k + length name < length args"
        and first: "\<forall>j<k. \<not> matches_at name (butlast (drop p args)) j"
        using m by auto
      have before: "\<not> arg_at args name j" if "p \<le> j" "j < p + k" for j
        using first m [of "j - p"] that by (auto simp: arg_at_def dest: spec [of _ "j - p"])
      show ?thesis
      proof (cases "(p + k = 0 \<or> args ! (p + k - 1) = ch CHR ''&'') \<and> args ! (p + k + length name) = ch CHR ''=''")
        case True
        then have at: "arg_at args name (p + k)" using k by (simp add: arg_at_def)
        let ?q = "p + k" and ?v = "p + k + length name + 1"
        have "arg_loop args name p = Some (arg_value args name ?q)"
          using True p Some arg_value_eq [OF at len(3)] by (subst arg_loop.simps) (simp add: Let_def)
        moreover have "i = ?q" if "p \<le> i" "arg_at args name i"
          "\<forall>j<i. p \<le> j \<longrightarrow> \<not> arg_at args name j" for i
          using that at before [of i] by (metis le_add1 linorder_neqE_nat)
        ultimately show ?thesis using at before by (metis le_add1 option.inject)
      next
        case False
        then have "\<not> arg_at args name (p + k)" by (auto simp: arg_at_def)
        with before have skip: "\<not> arg_at args name j" if "p \<le> j" "j < p + k + 1" for j
          using that by (cases "j = p + k") auto
        have "arg_loop args name p = arg_loop args name (p + k + 1)"
          using False p Some by (subst arg_loop.simps) (auto simp: Let_def)
        moreover have "(\<exists>i\<ge>p. arg_at args name i \<and> (\<forall>j<i. p \<le> j \<longrightarrow> \<not> arg_at args name j)
              \<and> v = arg_value args name i)
            \<longleftrightarrow> (\<exists>i\<ge>p + k + 1. arg_at args name i \<and> (\<forall>j<i. p + k + 1 \<le> j \<longrightarrow> \<not> arg_at args name j)
              \<and> v = arg_value args name i)"
          using skip by (smt (verit) le_add1 le_trans not_le)
        ultimately show ?thesis using "1.IH" [OF p Some refl False len] by simp
      qed
    qed
  qed
qed


text \<open>
  ngx_http_arg() returns the value of the first argument of that name: the first place
  where the name stands, in any case, at the beginning or after "&" and before "=", and the value is what follows up
  to the next "&". It declines only if there is no such argument.
\<close>

theorem ngx_http_arg_first:
  assumes "name \<noteq> []" "0 \<notin> set name" "ch CHR ''&'' \<notin> set name"
  shows "(ngx_http_arg args name = Some v
      \<longleftrightarrow> (\<exists>i. arg_at args name i \<and> (\<forall>j<i. \<not> arg_at args name j) \<and> v = arg_value args name i))
    \<and> (ngx_http_arg args name = None \<longleftrightarrow> (\<forall>i. \<not> arg_at args name i))"
proof -
  have "ngx_http_arg args name = arg_loop args name 0"
  proof (cases "args = []")
    case True
    then show ?thesis by (subst arg_loop.simps) (simp add: ngx_http_arg_def)
  qed (simp add: ngx_http_arg_def)
  moreover have "(\<exists>v. arg_loop args name 0 = Some v) \<longleftrightarrow> (\<exists>i. arg_at args name i)"
    using arg_loop_first [OF assms, of args 0] exists_least_iff [of "arg_at args name"]
    by (metis le0)
  moreover have "arg_loop args name 0 = Some v
      \<longleftrightarrow> (\<exists>i. arg_at args name i \<and> (\<forall>j<i. \<not> arg_at args name j) \<and> v = arg_value args name i)"
    using arg_loop_first [OF assms, of args 0 v] by simp
  ultimately show ?thesis by (metis option.exhaust option.distinct(1))
qed

theorem ngx_http_arg_first_witness:
  "ngx_http_arg (bytes_of ''xid=1&ID=ab&id=2'') (bytes_of ''id'') = Some (bytes_of ''ab'')"
proof -
  let ?a = "bytes_of ''xid=1&ID=ab&id=2''" and ?n = "bytes_of ''id''"
  have "\<not> arg_at ?a ?n 0" "\<not> arg_at ?a ?n 1" "\<not> arg_at ?a ?n 2" "\<not> arg_at ?a ?n 3"
    "\<not> arg_at ?a ?n 4" "\<not> arg_at ?a ?n 5"
    by (simp_all add: arg_at_def matches_at_def ngx_tolower_def)
  moreover have "j = 0 \<or> j = 1 \<or> j = 2 \<or> j = 3 \<or> j = 4 \<or> j = 5" if "j < (6 :: nat)" for j
    using that by arith
  ultimately have before: "\<forall>j<6. \<not> arg_at ?a ?n j" by blast
  have at: "arg_at ?a ?n 6" by (simp add: arg_at_def matches_at_def ngx_tolower_def)
  have "arg_value ?a ?n 6 = bytes_of ''ab''" by (simp add: arg_value_def)
  then have "\<exists>i. arg_at ?a ?n i \<and> (\<forall>j<i. \<not> arg_at ?a ?n j) \<and> bytes_of ''ab'' = arg_value ?a ?n i"
    using at before by metis
  then show ?thesis using ngx_http_arg_first [of ?n ?a "bytes_of ''ab''"] by simp
qed

section \<open>Cookies\<close>

text \<open>
  One try of the loop of ngx_http_parse_multi_header_lines(): the value, or \<open>goto skip\<close> with \<open>start\<close>
  where the try has left it. The value is wanted (\<open>value != NULL\<close>) or only the presence of
  the name is.
\<close>

datatype header_try = Found bytes | Skip bytes

definition header_try :: "bool \<Rightarrow> bytes \<Rightarrow> bytes \<Rightarrow> header_try" where
  "header_try want name start =
     (if ngx_strncasecmp start name (length name) \<noteq> 0 then Skip start
      else
        (let start = dropWhile (\<lambda>c. c = SP) (drop (length name) start)
         in if \<not> want then (if start = [] \<or> hd start = ch CHR '','' then Found [] else Skip start)
            else if start = [] then Skip start
            else if hd start \<noteq> ch CHR ''='' then Skip (tl start)
            else Found (takeWhile (\<lambda>c. c \<noteq> ch CHR '';'') (dropWhile (\<lambda>c. c = SP) (tl start)))))"

fun header_skip :: "bytes \<Rightarrow> bytes" where
  "header_skip [] = []"
| "header_skip (c # s) =
     (if c = ch CHR '';'' \<or> c = ch CHR '','' then dropWhile (\<lambda>c. c = SP) s else header_skip s)"

lemma header_skip_length: "length (header_skip s) \<le> length s - 1"
  by (induction s) (auto simp: length_dropWhile_le)

lemma header_try_length: "header_try want name s = Skip s' \<Longrightarrow> length s' \<le> length s"
  using length_dropWhile_le [of "\<lambda>c. c = SP" "drop (length name) s"]
  by (auto simp: header_try_def Let_def split: if_splits)

function header_line :: "bool \<Rightarrow> bytes \<Rightarrow> bytes \<Rightarrow> bytes option" where
  "header_line want name s =
     (if s = [] then None
      else (case header_try want name s of
              Found v \<Rightarrow> Some v
            | Skip s' \<Rightarrow> header_line want name (header_skip s')))"
  by pat_completeness auto
termination
proof (relation "measure (\<lambda>(_, _, s). length s)", simp)
  fix want name s s'
  assume "s \<noteq> []" "header_try want name s = Skip s'"
  then have "length s' \<le> length s" "0 < length s" by (simp_all add: header_try_length)
  then show "((want, name, header_skip s'), want, name, s) \<in> measure (\<lambda>(_, _, s). length s)"
    using header_skip_length [of s'] by (cases s') auto
qed

declare header_line.simps [simp del]

text \<open>The index of the header line and the value; \<open>None\<close> is NGX_DECLINED.\<close>

fun multi_header_loop :: "bool \<Rightarrow> bytes \<Rightarrow> nat \<Rightarrow> bytes list \<Rightarrow> (nat \<times> bytes) option" where
  "multi_header_loop want name i [] = None"
| "multi_header_loop want name i (h # hs) =
     (if length name > length h then multi_header_loop want name (i + 1) hs
      else (case header_line want name h of
              Some v \<Rightarrow> Some (i, v)
            | None \<Rightarrow> multi_header_loop want name (i + 1) hs))"

definition ngx_http_parse_multi_header_lines :: "bytes list \<Rightarrow> bytes \<Rightarrow> bool \<Rightarrow> (nat \<times> bytes) option" where
  "ngx_http_parse_multi_header_lines headers name want = multi_header_loop want name 0 headers"

fun set_cookie_loop :: "bytes \<Rightarrow> nat \<Rightarrow> bytes list \<Rightarrow> (nat \<times> bytes) option" where
  "set_cookie_loop name i [] = None"
| "set_cookie_loop name i (h # hs) =
     (if length name \<ge> length h then set_cookie_loop name (i + 1) hs
      else if ngx_strncasecmp h name (length name) \<noteq> 0 then set_cookie_loop name (i + 1) hs
      else
        (let s = dropWhile (\<lambda>c. c = SP) (drop (length name) h)
         in if s = [] \<or> hd s \<noteq> ch CHR ''='' then set_cookie_loop name (i + 1) hs
            else Some (i, takeWhile (\<lambda>c. c \<noteq> ch CHR '';'') (dropWhile (\<lambda>c. c = SP) (tl s)))))"

definition ngx_http_parse_set_cookie_lines :: "bytes list \<Rightarrow> bytes \<Rightarrow> (nat \<times> bytes) option" where
  "ngx_http_parse_set_cookie_lines headers name = set_cookie_loop name 0 headers"

text \<open>A Cookie header as a client writes it.\<close>

definition cookie_name :: "bytes \<Rightarrow> bool" where
  "cookie_name n \<longleftrightarrow> n \<noteq> [] \<and> set n \<inter> {0, SP, ch CHR ''='', ch CHR '';'', ch CHR '',''} = {}"

definition cookie_value :: "bytes \<Rightarrow> bool" where
  "cookie_value v \<longleftrightarrow> set v \<inter> {ch CHR '';'', ch CHR '',''} = {} \<and> (v = [] \<or> hd v \<noteq> SP)"

fun cookie_header :: "(bytes \<times> bytes) list \<Rightarrow> bytes" where
  "cookie_header [] = []"
| "cookie_header [(n, v)] = n @ ch CHR ''='' # v"
| "cookie_header ((n, v) # cs) = n @ ch CHR ''='' # v @ bytes_of ''; '' @ cookie_header cs"

definition same_name :: "bytes \<Rightarrow> bytes \<Rightarrow> bool" where
  "same_name n m \<longleftrightarrow> map ngx_tolower n = map ngx_tolower m"

lemma strncasecmp_short:
  "\<lbrakk>0 \<notin> set t; length s < length t\<rbrakk> \<Longrightarrow> ngx_strncasecmp s t (length t) \<noteq> 0"
proof (induction t arbitrary: s)
  case (Cons d t)
  show ?case
  proof (cases s)
    case Nil
    with Cons.prems show ?thesis by (auto simp: Let_def tolower_0_iff unsigned_eq_0_iff)
  next
    case (Cons c s')
    have "ngx_tolower d \<noteq> 0" using Cons.prems(1) by (simp add: tolower_0_iff)
    moreover have "ngx_strncasecmp s' t (length t) \<noteq> 0" using Cons Cons.prems Cons.IH [of s'] by simp
    ultimately show ?thesis
      unfolding Cons by (cases "ngx_tolower c = ngx_tolower d") (simp_all add: Let_def word_uint_eq_iff [symmetric])
  qed
qed simp

lemma header_skip_field:
  "set x \<inter> {ch CHR '';'', ch CHR '',''} = {} \<Longrightarrow> header_skip (x @ rest) = header_skip rest"
  by (induction x) auto


lemma tolower_eq_sign: "ngx_tolower c = ch CHR ''='' \<longleftrightarrow> c = ch CHR ''=''"
  by (rule byte_exhaust [of "\<lambda>c. ngx_tolower c = ch CHR ''='' \<longleftrightarrow> c = ch CHR ''=''"])
    (simp add: ngx_tolower_def upt_rec)

lemma header_line_field:
  assumes name: "cookie_name name" "cookie_name n" "cookie_value v"
    and rest: "rest = [] \<or> hd rest = ch CHR '';''"
  shows "header_line True name (n @ ch CHR ''='' # v @ rest)
    = (if same_name n name then Some v else header_line True name (header_skip rest))"
proof -
  let ?s = "n @ ch CHR ''='' # v @ rest" and ?l = "length name"
  have zero: "0 \<notin> set name" and eq: "ch CHR ''='' \<notin> set name" using name(1) by (auto simp: cookie_name_def)
  have unfold: "header_line True name ?s = (case header_try True name ?s of Found v \<Rightarrow> Some v
      | Skip s' \<Rightarrow> header_line True name (header_skip s'))"
    by (subst header_line.simps) simp
  have field: "header_skip ?s = header_skip rest"
    using header_skip_field [of "n @ ch CHR ''='' # v" rest] name by (auto simp: cookie_name_def cookie_value_def)
  show ?thesis
  proof (cases "ngx_strncasecmp ?s name ?l = 0")
    case False
    have "\<not> same_name n name"
    proof
      assume same: "same_name n name"
      then have "length n = ?l" unfolding same_name_def by (metis length_map)
      then have "take ?l ?s = n" by simp
      with same False strncasecmp_0 [OF zero, of ?s] show False
        using \<open>length n = ?l\<close> by (simp add: same_name_def)
    qed
    with False field show ?thesis unfolding unfold by (simp add: header_try_def)
  next
    case True
    then have len: "?l \<le> length ?s" using strncasecmp_short [OF zero, of ?s] by linarith
    with True strncasecmp_0 [OF zero] have low: "map ngx_tolower (take ?l ?s) = map ngx_tolower name" by blast
    have "?l \<le> length n"
    proof (rule ccontr)
      assume "\<not> ?l \<le> length n"
      then have "ch CHR ''='' \<in> set (take ?l ?s)" by (auto simp: take_Cons')
      then have "ngx_tolower (ch CHR ''='') \<in> set (map ngx_tolower name)"
        unfolding low [symmetric] by auto
      then obtain c where "c \<in> set name" "ngx_tolower c = ngx_tolower (ch CHR ''='')" by auto
      moreover have "ngx_tolower (ch CHR ''='') = ch CHR ''=''" using tolower_eq_sign by blast
      ultimately show False using eq tolower_eq_sign by metis
    qed
    then consider (same) "?l = length n" | (longer) x xs where "drop ?l n = x # xs"
      by (metis drop_eq_Nil2 le_antisym list.exhaust)
    then show ?thesis
    proof cases
      case same
      then have "same_name n name" using low by (simp add: same_name_def)
      moreover have "header_try True name ?s = Found v"
      proof -
        have "dropWhile (\<lambda>c. c = SP) (v @ rest) = v @ rest"
          using name(3) rest by (cases v; cases rest) (auto simp: cookie_value_def)
        moreover have "takeWhile (\<lambda>c. c \<noteq> ch CHR '';'') (v @ rest) = v"
          using name(3) rest takeWhile_skip [of "ch CHR '';''" v rest]
          by (cases rest) (auto simp: cookie_value_def)
        ultimately show ?thesis using True same by (simp add: header_try_def)
      qed
      ultimately show ?thesis unfolding unfold by simp
    next
      case longer
      then have l: "?l < length n" by (metis drop_eq_Nil2 list.distinct(1) not_le)
      have "set (x # xs) \<subseteq> set n" by (metis longer set_drop_subset)
      then have x: "x \<noteq> SP" "x \<noteq> ch CHR ''=''" and xs: "set xs \<inter> {ch CHR '';'', ch CHR '',''} = {}"
        using name(2) by (auto simp: cookie_name_def)
      have "drop ?l ?s = x # xs @ ch CHR ''='' # v @ rest" using longer l by simp
      then have "header_try True name ?s = Skip (xs @ ch CHR ''='' # v @ rest)"
        using True x by (simp add: header_try_def)
      moreover have "header_skip ((xs @ ch CHR ''='' # v) @ rest) = header_skip rest"
        using xs name(3) by (intro header_skip_field) (auto simp: cookie_value_def)
      moreover have "\<not> same_name n name" using l unfolding same_name_def by (metis length_map nat_neq_iff)
      ultimately show ?thesis unfolding unfold by simp
    qed
  qed
qed

lemma header_line_cookies:
  assumes "cookie_name name" "\<forall>(n, v) \<in> set cs. cookie_name n \<and> cookie_value v"
  shows "header_line True name (cookie_header cs) = map_option snd (find (\<lambda>(n, v). same_name n name) cs)"
  using assms(2)
proof (induction cs rule: cookie_header.induct)
  case 1
  then show ?case by (simp add: header_line.simps)
next
  case (2 n v)
  then have "cookie_name n" "cookie_value v" by auto
  then show ?case
    using header_line_field [OF assms(1), of n v "[]"] by (simp add: header_line.simps [of _ _ "[]"])
next
  case (3 n v c cs)
  then have nv: "cookie_name n" "cookie_value v" by auto
  have "cookie_header (c # cs) \<noteq> [] \<and> hd (cookie_header (c # cs)) \<noteq> SP"
    using 3 by (cases c; cases cs; cases "fst c") (auto simp: cookie_name_def)
  then have "dropWhile (\<lambda>c. c = SP) (cookie_header (c # cs)) = cookie_header (c # cs)"
    by (cases "cookie_header (c # cs)") auto
  with 3 nv header_line_field [OF assms(1), of n v "bytes_of ''; '' @ cookie_header (c # cs)"]
  show ?case by simp
qed

text \<open>
  On a Cookie header written as "n1=v1; n2=v2; ..." ngx_http_parse_multi_header_lines()
  returns the value of the first cookie whose name is the one asked for, up to case, and
  declines only if there is none; names that begin with the one asked for do not disturb.
\<close>

theorem ngx_http_parse_multi_header_lines_cookies:
  assumes "cookie_name name" "\<forall>(n, v) \<in> set cs. cookie_name n \<and> cookie_value v"
  shows "ngx_http_parse_multi_header_lines [cookie_header cs] name True
    = map_option (\<lambda>(n, v). (0, v)) (find (\<lambda>(n, v). same_name n name) cs)"
proof (cases "length name > length (cookie_header cs)")
  case False
  then show ?thesis
    using header_line_cookies [OF assms]
    by (auto simp: ngx_http_parse_multi_header_lines_def split: option.splits)
next
  case True
  have "length n \<le> length (cookie_header cs)" if "(n, v) \<in> set cs" for n v
    using that by (induction cs rule: cookie_header.induct) auto
  then have "\<not> same_name n name" if "(n, v) \<in> set cs" for n v
    using True that unfolding same_name_def by (metis length_map not_le)
  then have "find (\<lambda>(n, v). same_name n name) cs = None" by (auto simp: find_None_iff)
  with True show ?thesis by (simp add: ngx_http_parse_multi_header_lines_def)
qed

theorem ngx_http_parse_multi_header_lines_cookies_witness:
  "ngx_http_parse_multi_header_lines [bytes_of ''idx=1; ID=ab; id=2''] (bytes_of ''id'') True
    = Some (0, bytes_of ''ab'')"
proof -
  have c: "bytes_of ''idx=1; ID=ab; id=2'' = cookie_header [(bytes_of ''idx'', bytes_of ''1''),
      (bytes_of ''ID'', bytes_of ''ab''), (bytes_of ''id'', bytes_of ''2'')]" by simp
  show ?thesis
    unfolding c
    by (subst ngx_http_parse_multi_header_lines_cookies)
      (simp_all add: cookie_name_def cookie_value_def same_name_def ngx_tolower_def)
qed

text \<open>
  A name without a value costs the next cookie: after the name \<open>*start++ != '='\<close> has already
  stepped over the ";", so the search for the end of the field swallows the next field.
\<close>

lemma ngx_http_parse_multi_header_lines_swallows:
  "ngx_http_parse_multi_header_lines [bytes_of ''id; id=2''] (bytes_of ''id'') True = None"
  by (simp add: ngx_http_parse_multi_header_lines_def header_line.simps header_try_def ngx_tolower_def Let_def)

end
