(* ===== verification/Http_Chunked.thy ===== *)
theory Http_Chunked
  imports Prelude
begin

text \<open>
  The chunked transfer coding: ngx_http_parse_chunked() of src/http/ngx_http_parse.c, a
  state machine that stops at the data of each chunk, and its driver for request bodies,
  ngx_http_request_body_chunked_filter() of src/http/ngx_http_request_body.c, which cuts
  the data out of the buffers as they arrive; with the Content-Length filter beside it.
  A buffer is its unread bytes (\<open>b->pos .. b->last\<close>). Values of off_t that cannot become
  negative are naturals, their upper bound is a theorem. Allocation is taken to succeed.
\<close>

section \<open>The parser\<close>

datatype chunk_state = csw_chunk_start | csw_chunk_size | csw_chunk_extension
  | csw_chunk_extension_almost_done | csw_chunk_data | csw_after_data
  | csw_after_data_almost_done | csw_last_chunk_extension
  | csw_last_chunk_extension_almost_done | csw_trailer | csw_trailer_almost_done
  | csw_trailer_header | csw_trailer_header_almost_done

record chunked =
  ck_state :: chunk_state
  ck_size :: nat
  ck_length :: nat

text \<open>NGX_MAX_OFF_T_VALUE as a natural number.\<close>

abbreviation (input) MAX_OFF :: nat where "MAX_OFF \<equiv> 9223372036854775807"

text \<open>What one byte does: go on, stop before it at chunk data, finish, or \<open>goto invalid\<close>.\<close>

datatype ck_out = Next chunk_state nat | Data | Done | Invalid

definition ck_start :: "u_char \<Rightarrow> ck_out" where
  "ck_start c =
     (if is_digit c then Next csw_chunk_size (nat (dval c))
      else if is_af20 c then Next csw_chunk_size (nat (uint (c OR 0x20) - 97 + 10))
      else Invalid)"

text \<open>The switch after the digits of the size, for the last chunk and for the others.\<close>

definition ck_size_end :: "chunk_state \<Rightarrow> chunk_state \<Rightarrow> chunk_state \<Rightarrow> nat \<Rightarrow> u_char \<Rightarrow> ck_out" where
  "ck_size_end cr lf ext n c =
     (if c = CR then Next cr n
      else if c = LF then Next lf n
      else if c = ch CHR '';'' \<or> c = SP \<or> c = 9 then Next ext n
      else Invalid)"

definition ck_size_case :: "nat \<Rightarrow> u_char \<Rightarrow> ck_out" where
  "ck_size_case n c =
     (if n > MAX_OFF div 16 then Invalid
      else if is_digit c then Next csw_chunk_size (n * 16 + nat (dval c))
      else if is_af20 c then Next csw_chunk_size (n * 16 + nat (uint (c OR 0x20) - 97 + 10))
      else if n = 0
      then ck_size_end csw_last_chunk_extension_almost_done csw_trailer csw_last_chunk_extension n c
      else ck_size_end csw_chunk_extension_almost_done csw_chunk_data csw_chunk_extension n c)"

text \<open>States that wait for the end of a line and skip what comes before it.\<close>

definition ck_skip :: "chunk_state \<Rightarrow> chunk_state \<Rightarrow> chunk_state \<Rightarrow> nat \<Rightarrow> u_char \<Rightarrow> ck_out" where
  "ck_skip here cr lf n c = (if c = CR then Next cr n else if c = LF then Next lf n else Next here n)"

definition ck_lf :: "chunk_state \<Rightarrow> nat \<Rightarrow> u_char \<Rightarrow> ck_out" where
  "ck_lf st n c = (if c = LF then Next st n else Invalid)"

definition ck_trailer :: "nat \<Rightarrow> u_char \<Rightarrow> ck_out" where
  "ck_trailer n c =
     (if c = CR then Next csw_trailer_almost_done n
      else if c = LF then Done
      else Next csw_trailer_header n)"

definition ck_trailer_almost_done :: "u_char \<Rightarrow> ck_out" where
  "ck_trailer_almost_done c = (if c = LF then Done else Invalid)"

fun ck_step :: "chunk_state \<Rightarrow> nat \<Rightarrow> u_char \<Rightarrow> ck_out" where
  "ck_step csw_chunk_start n c = ck_start c"
| "ck_step csw_chunk_size n c = ck_size_case n c"
| "ck_step csw_chunk_extension n c =
     ck_skip csw_chunk_extension csw_chunk_extension_almost_done csw_chunk_data n c"
| "ck_step csw_chunk_extension_almost_done n c = ck_lf csw_chunk_data n c"
| "ck_step csw_chunk_data n c = Data"
| "ck_step csw_after_data n c =
     ck_skip csw_after_data csw_after_data_almost_done csw_chunk_start n c"
| "ck_step csw_after_data_almost_done n c = ck_lf csw_chunk_start n c"
| "ck_step csw_last_chunk_extension n c =
     ck_skip csw_last_chunk_extension csw_last_chunk_extension_almost_done csw_trailer n c"
| "ck_step csw_last_chunk_extension_almost_done n c = ck_lf csw_trailer n c"
| "ck_step csw_trailer n c = ck_trailer n c"
| "ck_step csw_trailer_almost_done n c = ck_trailer_almost_done c"
| "ck_step csw_trailer_header n c =
     ck_skip csw_trailer_header csw_trailer_header_almost_done csw_trailer n c"
| "ck_step csw_trailer_header_almost_done n c = ck_lf csw_trailer n c"

text \<open>The \<open>for\<close> loop, with the way it was left, the state, the size and the unread bytes.\<close>

datatype ck_exit = Exit_again | Exit_data | Exit_done | Exit_invalid

fun ck_loop :: "chunk_state \<Rightarrow> nat \<Rightarrow> bytes \<Rightarrow> ck_exit \<times> chunk_state \<times> nat \<times> bytes" where
  "ck_loop st n [] = (Exit_again, st, n, [])"
| "ck_loop st n (c # cs) =
     (case ck_step st n c of
        Next st' n' \<Rightarrow> ck_loop st' n' cs
      | Data \<Rightarrow> (Exit_data, st, n, c # cs)
      | Done \<Rightarrow> (Exit_done, st, n, cs)
      | Invalid \<Rightarrow> (Exit_invalid, st, n, c # cs))"

text \<open>\<open>ctx->length\<close>: at least this much is still to come.\<close>

fun ck_min_length :: "chunk_state \<Rightarrow> nat \<Rightarrow> nat" where
  "ck_min_length csw_chunk_start n = 3"
| "ck_min_length csw_chunk_size n = 1 + (if n \<noteq> 0 then n + 4 else 1)"
| "ck_min_length csw_chunk_extension n = 1 + n + 4"
| "ck_min_length csw_chunk_extension_almost_done n = 1 + n + 4"
| "ck_min_length csw_chunk_data n = n + 4"
| "ck_min_length csw_after_data n = 4"
| "ck_min_length csw_after_data_almost_done n = 4"
| "ck_min_length csw_last_chunk_extension n = 2"
| "ck_min_length csw_last_chunk_extension_almost_done n = 2"
| "ck_min_length csw_trailer n = 1"
| "ck_min_length csw_trailer_almost_done n = 1"
| "ck_min_length csw_trailer_header n = 2"
| "ck_min_length csw_trailer_header_almost_done n = 2"

datatype chunk_rc = Chunk_ok | Chunk_done | Chunk_again | Chunk_error

text \<open>NGX_OK, NGX_DONE, NGX_AGAIN, NGX_ERROR.\<close>

definition ck_enter :: "chunked \<Rightarrow> chunk_state" where
  "ck_enter ctx =
     (if ck_state ctx = csw_chunk_data \<and> ck_size ctx = 0 then csw_after_data else ck_state ctx)"

definition ck_leave :: "chunk_rc \<Rightarrow> chunked \<Rightarrow> chunk_state \<Rightarrow> nat \<Rightarrow> bytes \<Rightarrow> chunk_rc \<times> chunked \<times> bytes" where
  "ck_leave rc ctx st n rest =
     (let ctx' = ctx\<lparr>ck_state := st, ck_size := n\<rparr>
      in if n > MAX_OFF - 5 then (Chunk_error, ctx', rest)
         else (rc, ctx'\<lparr>ck_length := ck_min_length st n\<rparr>, rest))"

definition ngx_http_parse_chunked :: "chunked \<Rightarrow> bytes \<Rightarrow> chunk_rc \<times> chunked \<times> bytes" where
  "ngx_http_parse_chunked ctx buf =
     (case ck_loop (ck_enter ctx) (ck_size ctx) buf of
        (Exit_again, st, n, rest) \<Rightarrow> ck_leave Chunk_again ctx st n rest
      | (Exit_data, st, n, rest) \<Rightarrow> ck_leave Chunk_ok ctx st n rest
      | (Exit_done, st, n, rest) \<Rightarrow> (Chunk_done, ctx\<lparr>ck_state := csw_chunk_start, ck_size := n\<rparr>, rest)
      | (Exit_invalid, st, n, rest) \<Rightarrow> (Chunk_error, ctx\<lparr>ck_size := n\<rparr>, buf))"

section \<open>The driver\<close>

record request_body =
  rb_rest :: int
  rb_chunked :: chunked
  content_length_n :: int

text \<open>A buffer of the output chain: a window into the input, or the empty last buffer.\<close>

datatype body_buf = Body (body_bytes: bytes) bool

datatype body_rc = Body_continue | NGX_HTTP_BAD_REQUEST | NGX_HTTP_REQUEST_ENTITY_TOO_LARGE

lemma ck_loop_length: "ck_loop st n buf = (e, st', n', rest) \<Longrightarrow> length rest \<le> length buf"
  by (induction st n buf rule: ck_loop.induct) (auto split: ck_out.splits)

lemma ck_loop_data:
  "ck_loop st n buf = (Exit_data, st', n', rest) \<Longrightarrow> rest \<noteq> [] \<and> st' = csw_chunk_data"
proof (induction st n buf rule: ck_loop.induct)
  case (2 st n c cs)
  then show ?case
    by (cases st) (auto simp: ck_start_def ck_size_case_def ck_size_end_def ck_skip_def ck_lf_def
        ck_trailer_def ck_trailer_almost_done_def split: ck_out.splits if_splits)
qed simp

lemma ck_loop_data_length:
  assumes "ck_loop st n buf = (Exit_data, st', n', rest)" "st \<noteq> csw_chunk_data"
  shows "length rest < length buf"
proof (cases buf)
  case (Cons c cs)
  with assms have "ck_step st n c \<noteq> Data"
    by (cases st) (auto simp: ck_start_def ck_size_case_def ck_size_end_def ck_skip_def ck_lf_def
        ck_trailer_def ck_trailer_almost_done_def)
  with assms Cons show ?thesis by (auto split: ck_out.splits dest!: ck_loop_length)
qed (use assms in simp)

text \<open>Each round of the driver's loop that finds data takes at least a byte off the buffer.\<close>

lemma parse_chunked_progress:
  assumes "ngx_http_parse_chunked ctx buf = (Chunk_ok, ctx', rest)"
  shows "rest \<noteq> []" "length (drop (ck_size ctx') rest) < length buf"
proof -
  from assms obtain st n where
    loop: "ck_loop (ck_enter ctx) (ck_size ctx) buf = (Exit_data, st, n, rest)" and n: "ck_size ctx' = n"
    by (auto simp: ngx_http_parse_chunked_def ck_leave_def Let_def split: prod.splits ck_exit.splits if_splits)
  show "rest \<noteq> []" using ck_loop_data [OF loop] by simp
  then have ne: "0 < length rest" by simp
  show "length (drop (ck_size ctx') rest) < length buf"
  proof (cases "ck_enter ctx = csw_chunk_data")
    case True
    then have "0 < ck_size ctx" by (auto simp: ck_enter_def split: if_splits)
    moreover have "n = ck_size ctx" "rest = buf" using loop True by (cases buf, auto)+
    ultimately show ?thesis using ne n by simp
  next
    case False
    from ck_loop_data_length [OF loop False] show ?thesis by simp
  qed
qed

text \<open>The \<open>for (;;)\<close> loop over one buffer of the input chain.\<close>

function chunked_buf :: "int \<Rightarrow> request_body \<Rightarrow> bytes \<Rightarrow> body_rc \<times> request_body \<times> body_buf list \<times> bytes" where
  "chunked_buf max_size rb buf =
     (case ngx_http_parse_chunked (rb_chunked rb) buf of
        (Chunk_ok, ctx, rest) \<Rightarrow>
          if max_size \<noteq> 0 \<and> max_size - content_length_n rb < int (ck_size ctx)
          then (NGX_HTTP_REQUEST_ENTITY_TOO_LARGE, rb\<lparr>rb_chunked := ctx\<rparr>, [], rest)
          else if length rest > ck_size ctx
          then (let (rc, rb', out, rest') = chunked_buf max_size
                      (rb\<lparr>rb_chunked := ctx\<lparr>ck_size := 0\<rparr>,
                          content_length_n := content_length_n rb + int (ck_size ctx)\<rparr>)
                      (drop (ck_size ctx) rest)
                in (rc, rb', Body (take (ck_size ctx) rest) False # out, rest'))
          else (let (rc, rb', out, rest') = chunked_buf max_size
                      (rb\<lparr>rb_chunked := ctx\<lparr>ck_size := ck_size ctx - length rest\<rparr>,
                          content_length_n := content_length_n rb + int (length rest)\<rparr>) []
                in (rc, rb', Body rest False # out, rest'))
      | (Chunk_done, ctx, rest) \<Rightarrow>
          (Body_continue, rb\<lparr>rb_chunked := ctx, rb_rest := 0\<rparr>, [Body [] True], rest)
      | (Chunk_again, ctx, rest) \<Rightarrow>
          (Body_continue, rb\<lparr>rb_chunked := ctx, rb_rest := int (ck_length ctx)\<rparr>, [], rest)
      | (Chunk_error, ctx, rest) \<Rightarrow>
          (NGX_HTTP_BAD_REQUEST, rb\<lparr>rb_chunked := ctx\<rparr>, [], rest))"
  by pat_completeness auto
termination
  by (relation "measure (\<lambda>(_, _, buf). length buf)")
    (auto dest!: sym [of "(_, _)" "ngx_http_parse_chunked _ _"] dest: parse_chunked_progress)

declare chunked_buf.simps [simp del]

text \<open>The \<open>for\<close> loop over the input chain; on an error what was cut out of it is dropped.\<close>

fun chunked_chain :: "int \<Rightarrow> request_body \<Rightarrow> bytes list \<Rightarrow> body_rc \<times> request_body \<times> body_buf list \<times> bytes list" where
  "chunked_chain max_size rb [] = (Body_continue, rb, [], [])"
| "chunked_chain max_size rb (buf # bufs) =
     (case chunked_buf max_size rb buf of
        (Body_continue, rb', out, rest) \<Rightarrow>
          (let (rc, rb'', out', rests) = chunked_chain max_size rb' bufs
           in (rc, rb'', out @ out', rest # rests))
      | (rc, rb', out, rest) \<Rightarrow> (rc, rb', out, rest # bufs))"

definition chunked_zero :: chunked where
  "chunked_zero = \<lparr> ck_state = csw_chunk_start, ck_size = 0, ck_length = 0 \<rparr>"

definition chunked_body_init :: "request_body \<Rightarrow> request_body" where
  "chunked_body_init rb =
     (if rb_rest rb = -1
      then rb\<lparr>rb_chunked := chunked_zero, content_length_n := 0, rb_rest := 3\<rparr>
      else rb)"

definition ngx_http_request_body_chunked_filter ::
  "int \<Rightarrow> request_body \<Rightarrow> bytes list \<Rightarrow> body_rc \<times> request_body \<times> body_buf list \<times> bytes list" where
  "ngx_http_request_body_chunked_filter max_size rb bufs =
     (let (rc, rb', out, rests) = chunked_chain max_size (chunked_body_init rb) bufs
      in (rc, rb', if rc = Body_continue then out else [], rests))"

text \<open>The filter of a body with Content-Length.\<close>

fun length_chain :: "int \<Rightarrow> bytes list \<Rightarrow> int \<times> body_buf list \<times> bytes list" where
  "length_chain rest [] = (rest, [], [])"
| "length_chain rest (buf # bufs) =
     (if rest = 0 then (rest, [], buf # bufs)
      else if int (length buf) < rest
      then (let (rest', out, unread) = length_chain (rest - int (length buf)) bufs
            in (rest', Body buf False # out, [] # unread))
      else (let (rest', out, unread) = length_chain 0 bufs
            in (rest', Body (take (nat rest) buf) True # out, drop (nat rest) buf # unread)))"

definition ngx_http_request_body_length_filter ::
  "request_body \<Rightarrow> bytes list \<Rightarrow> request_body \<times> body_buf list \<times> bytes list" where
  "ngx_http_request_body_length_filter rb bufs =
     (let rest = (if rb_rest rb = -1 then content_length_n rb else rb_rest rb);
          (rest', out, unread) = length_chain rest bufs
      in (rb\<lparr>rb_rest := rest'\<rparr>, out, unread))"

text \<open>
  The caller reads what arrives into a buffer and passes it to the filter until the body is
  complete (\<open>rb->rest == 0\<close>) or an error ends the request: the loop of
  ngx_http_do_read_client_request_body().
\<close>

datatype body_status = Reading | Complete bytes | Failed body_rc

fun read_chunked_body :: "int \<Rightarrow> request_body \<Rightarrow> bytes list \<Rightarrow> body_status \<times> request_body \<times> bytes" where
  "read_chunked_body max_size rb [] = (Reading, rb, [])"
| "read_chunked_body max_size rb (buf # bufs) =
     (case ngx_http_request_body_chunked_filter max_size rb [buf] of
        (Body_continue, rb', out, rests) \<Rightarrow>
          if rb_rest rb' = 0
          then (Complete (concat (rests @ bufs)), rb', concat (map body_bytes out))
          else (let (s, rb'', data) = read_chunked_body max_size rb' bufs
                in (s, rb'', concat (map body_bytes out) @ data))
      | (rc, rb', out, rests) \<Rightarrow> (Failed rc, rb', []))"

section \<open>The byte-wise decoder\<close>

text \<open>
  The reference: one byte at a time, with no buffers. A data byte is delivered, every other
  byte moves the automaton.
\<close>

record dechunk =
  dc_state :: chunk_state
  dc_size :: nat
  dc_received :: int
  dc_data :: bytes

datatype dechunk_res = Dc_done dechunk | Dc_bad | Dc_too_large

definition dechunk_step :: "int \<Rightarrow> dechunk \<Rightarrow> u_char \<Rightarrow> (dechunk, dechunk_res) outcome" where
  "dechunk_step max_size s c =
     (case ck_step (dc_state s) (dc_size s) c of
        Next st n \<Rightarrow> if n > MAX_OFF - 5 then Halt Dc_bad else Go (s\<lparr>dc_state := st, dc_size := n\<rparr>)
      | Data \<Rightarrow>
          if max_size \<noteq> 0 \<and> max_size - dc_received s < int (dc_size s) then Halt Dc_too_large
          else Go (s\<lparr>dc_state := (if dc_size s = 1 then csw_after_data else csw_chunk_data),
                     dc_size := dc_size s - 1, dc_received := dc_received s + 1,
                     dc_data := dc_data s @ [c]\<rparr>)
      | Done \<Rightarrow> Halt (Dc_done s)
      | Invalid \<Rightarrow> Halt Dc_bad)"

definition dechunk_init :: dechunk where
  "dechunk_init = \<lparr> dc_state = csw_chunk_start, dc_size = 0, dc_received = 0, dc_data = [] \<rparr>"

text \<open>In the states before and in the data of a chunk its size is positive, elsewhere 0 but at the size.\<close>

definition ck_wf :: "chunk_state \<Rightarrow> nat \<Rightarrow> bool" where
  "ck_wf st n \<longleftrightarrow>
     (if st \<in> {csw_chunk_extension, csw_chunk_extension_almost_done, csw_chunk_data} then 0 < n
      else st = csw_chunk_size \<or> n = 0)"

lemmas ck_defs = ck_start_def ck_size_case_def ck_size_end_def ck_skip_def ck_lf_def
  ck_trailer_def ck_trailer_almost_done_def

lemma ck_step_wf: "\<lbrakk>ck_wf st n; ck_step st n c = Next st' n'\<rbrakk> \<Longrightarrow> ck_wf st' n'"
  by (cases st) (auto simp: ck_defs ck_wf_def split: if_splits)

lemma ck_step_big:
  "\<lbrakk>ck_wf st n; n > MAX_OFF - 5; ck_step st n c = Next st' n'\<rbrakk> \<Longrightarrow> n' = n"
  by (cases st) (auto simp: ck_defs ck_wf_def split: if_splits)

lemma ck_step_DoneD: "\<lbrakk>ck_wf st n; ck_step st n c = Done\<rbrakk> \<Longrightarrow> n = 0"
  by (cases st) (auto simp: ck_defs ck_wf_def split: if_splits)

lemma ck_step_DataD: "ck_step st n c = Data \<Longrightarrow> st = csw_chunk_data"
  by (cases st) (auto simp: ck_defs split: if_splits)

lemma ck_loop_big:
  "\<lbrakk>ck_wf st n; n > MAX_OFF - 5; ck_loop st n buf = (e, st', n', rest)\<rbrakk>
   \<Longrightarrow> e = Exit_invalid \<or> e \<noteq> Exit_done \<and> n' > MAX_OFF - 5"
proof (induction st n buf rule: ck_loop.induct)
  case (2 st n c cs)
  then show ?case
  proof (cases "ck_step st n c")
    case (Next st1 n1)
    with "2.prems" have "ck_wf st1 n1" "n1 = n" by (auto intro: ck_step_wf ck_step_big)
    with "2.IH" [OF Next] "2.prems" Next show ?thesis by simp
  qed (auto dest: ck_step_DoneD)
qed auto

text \<open>The loop of the parser is the byte-wise automaton up to the next data byte.\<close>

lemma dechunk_loop:
  assumes "ck_wf (dc_state s) (dc_size s)" "dc_size s \<le> MAX_OFF - 5"
    "ck_loop (dc_state s) (dc_size s) buf = (e, st, n, rest)"
  shows "if e = Exit_invalid \<or> n > MAX_OFF - 5
         then \<exists>r. feed (dechunk_step m) s buf = Halt (Dc_bad, r)
         else case e of
           Exit_again \<Rightarrow> feed (dechunk_step m) s buf = Go (s\<lparr>dc_state := st, dc_size := n\<rparr>) \<and> ck_wf st n
         | Exit_data \<Rightarrow> feed (dechunk_step m) s buf = feed (dechunk_step m) (s\<lparr>dc_state := st, dc_size := n\<rparr>) rest \<and> ck_wf st n
         | _ \<Rightarrow> feed (dechunk_step m) s buf = Halt (Dc_done (s\<lparr>dc_state := st, dc_size := n\<rparr>), rest)"
  using assms
proof (induction buf arbitrary: s)
  case Nil
  then show ?case by auto
next
  case (Cons c cs)
  show ?case
  proof (cases "ck_step (dc_state s) (dc_size s) c")
    case (Next st' n')
    have wf': "ck_wf st' n'" using Cons.prems(1) Next by (rule ck_step_wf)
    have loop': "ck_loop st' n' cs = (e, st, n, rest)" using Cons.prems(3) Next by simp
    show ?thesis
    proof (cases "n' > MAX_OFF - 5")
      case True
      with ck_loop_big [OF wf' _ loop'] Next show ?thesis by (auto simp: dechunk_step_def)
    next
      case False
      with Cons.IH [of "s\<lparr>dc_state := st', dc_size := n'\<rparr>"] wf' loop' Next
      show ?thesis by (simp add: dechunk_step_def cong: if_cong ck_exit.case_cong)
    qed
  next
    case Data
    with Cons.prems show ?thesis by auto
  next
    case Done
    with Cons.prems show ?thesis by (auto simp: dechunk_step_def)
  next
    case Invalid
    with Cons.prems show ?thesis by (auto simp: dechunk_step_def)
  qed
qed

text \<open>A run of data bytes is copied as one block.\<close>

lemma dechunk_data:
  assumes "dc_state s = csw_chunk_data" "0 < dc_size s"
    "m = 0 \<or> int (dc_size s) \<le> m - dc_received s" "length d \<le> dc_size s"
  shows "feed (dechunk_step m) s d = Go (s\<lparr>
      dc_state := (if length d = dc_size s then csw_after_data else csw_chunk_data),
      dc_size := dc_size s - length d, dc_received := dc_received s + int (length d),
      dc_data := dc_data s @ d\<rparr>)"
  using assms
proof (induction d arbitrary: s)
  case Nil
  then show ?case by simp
next
  case (Cons c d)
  let ?s = "s\<lparr>dc_state := (if dc_size s = 1 then csw_after_data else csw_chunk_data),
      dc_size := dc_size s - 1, dc_received := dc_received s + 1, dc_data := dc_data s @ [c]\<rparr>"
  have step: "dechunk_step m s c = Go ?s"
    using Cons.prems by (auto simp: dechunk_step_def)
  show ?case
  proof (cases "dc_size s = 1")
    case True
    with Cons.prems step show ?thesis by simp
  next
    case False
    with Cons.prems have "feed (dechunk_step m) ?s d = Go (?s\<lparr>
        dc_state := (if length d = dc_size ?s then csw_after_data else csw_chunk_data),
        dc_size := dc_size ?s - length d, dc_received := dc_received ?s + int (length d),
        dc_data := dc_data ?s @ d\<rparr>)"
      by (intro Cons.IH) auto
    with False step Cons.prems show ?thesis by auto
  qed
qed


text \<open>One buffer: the driver against the byte-wise decoder.\<close>

definition body_view :: "request_body \<Rightarrow> bytes \<Rightarrow> dechunk" where
  "body_view rb data = \<lparr> dc_state = ck_enter (rb_chunked rb), dc_size = ck_size (rb_chunked rb),
     dc_received = content_length_n rb, dc_data = data \<rparr>"

definition body_ok :: "request_body \<Rightarrow> bool" where
  "body_ok rb \<longleftrightarrow> ck_wf (ck_enter (rb_chunked rb)) (ck_size (rb_chunked rb))
     \<and> ck_size (rb_chunked rb) \<le> MAX_OFF - 5 \<and> 0 < rb_rest rb"

text \<open>Between two buffers \<open>rb->rest\<close> is what the parser computed.\<close>

definition body_exact :: "request_body \<Rightarrow> bool" where
  "body_exact rb \<longleftrightarrow> body_ok rb
     \<and> rb_rest rb = int (ck_min_length (ck_enter (rb_chunked rb)) (ck_size (rb_chunked rb)))"

text \<open>What the reference says of the outcome of the driver.\<close>

definition body_agrees ::
  "(dechunk, dechunk_res \<times> bytes) outcome \<Rightarrow> bytes \<Rightarrow> body_rc \<times> request_body \<times> body_buf list \<times> bytes \<Rightarrow> bool" where
  "body_agrees ref data res =
     (case res of (rc, rb', out, rest) \<Rightarrow>
        (case rc of
           Body_continue \<Rightarrow>
             if rb_rest rb' = 0
             then (\<exists>s. ref = Halt (Dc_done s, rest) \<and> dc_data s = data @ concat (map body_bytes out)
                 \<and> dc_received s = content_length_n rb')
             else ref = Go (body_view rb' (data @ concat (map body_bytes out))) \<and> rest = [] \<and> body_exact rb'
         | NGX_HTTP_BAD_REQUEST \<Rightarrow> (\<exists>r. ref = Halt (Dc_bad, r))
         | NGX_HTTP_REQUEST_ENTITY_TOO_LARGE \<Rightarrow> (\<exists>r. ref = Halt (Dc_too_large, r))))"

lemma ck_min_length_pos: "0 < ck_min_length st n"
  by (cases st) auto

lemma ck_loop_again_rest: "ck_loop st n buf = (Exit_again, st', n', rest) \<Longrightarrow> rest = []"
  by (induction st n buf rule: ck_loop.induct) (auto split: ck_out.splits)

lemma ck_enter_wf: "ck_wf (ck_state ctx) (ck_size ctx) \<Longrightarrow> ck_enter ctx = ck_state ctx"
  by (auto simp: ck_enter_def ck_wf_def)

lemma ck_loop_done: "\<lbrakk>ck_loop st n buf = (Exit_done, st', n', rest); ck_wf st n\<rbrakk> \<Longrightarrow> n' = 0"
proof (induction st n buf rule: ck_loop.induct)
  case (2 st n c cs)
  then show ?case
    by (cases "ck_step st n c") (auto dest: ck_step_wf ck_step_DoneD)
qed auto

lemma chunked_buf_agrees:
  assumes "body_ok rb"
  shows "body_agrees (feed (dechunk_step m) (body_view rb data) buf) data (chunked_buf m rb buf)"
  using assms
proof (induction m rb buf arbitrary: data rule: chunked_buf.induct)
  case (1 m rb buf)
  let ?ctx = "rb_chunked rb"
  obtain e st n rest where loop: "ck_loop (ck_enter ?ctx) (ck_size ?ctx) buf = (e, st, n, rest)"
    by (metis prod_cases4)
  have ref: "if e = Exit_invalid \<or> n > MAX_OFF - 5
       then \<exists>r. feed (dechunk_step m) (body_view rb data) buf = Halt (Dc_bad, r)
       else case e of
         Exit_again \<Rightarrow> feed (dechunk_step m) (body_view rb data) buf
             = Go ((body_view rb data)\<lparr>dc_state := st, dc_size := n\<rparr>) \<and> ck_wf st n
       | Exit_data \<Rightarrow> feed (dechunk_step m) (body_view rb data) buf
             = feed (dechunk_step m) ((body_view rb data)\<lparr>dc_state := st, dc_size := n\<rparr>) rest \<and> ck_wf st n
       | _ \<Rightarrow> feed (dechunk_step m) (body_view rb data) buf
             = Halt (Dc_done ((body_view rb data)\<lparr>dc_state := st, dc_size := n\<rparr>), rest)"
    using dechunk_loop [of "body_view rb data" buf e st n rest m] "1.prems" loop
    by (simp add: body_view_def body_ok_def)
  show ?case
  proof (cases "e = Exit_invalid \<or> n > MAX_OFF - 5 \<and> e \<noteq> Exit_done")
    case True
    then have "fst (ngx_http_parse_chunked ?ctx buf) = Chunk_error"
      using loop by (cases e) (auto simp: ngx_http_parse_chunked_def ck_leave_def Let_def)
    with True ref show ?thesis
      by (subst chunked_buf.simps) (auto simp: body_agrees_def split: prod.splits)
  next
    case no_error: False
    then have e: "e \<noteq> Exit_invalid" by simp
    show ?thesis
    proof (cases e)
      case Exit_invalid
      with e show ?thesis by simp
    next
      case Exit_again
      with no_error ref loop ck_loop_again_rest [of _ _ _ st n rest]
      have parse: "ngx_http_parse_chunked ?ctx buf
          = (Chunk_again, ?ctx\<lparr>ck_state := st, ck_size := n, ck_length := ck_min_length st n\<rparr>, [])"
        by (auto simp: ngx_http_parse_chunked_def ck_leave_def Let_def)
      show ?thesis using parse Exit_again ref no_error ck_min_length_pos [of st n]
        by (subst chunked_buf.simps) (simp add: body_agrees_def body_view_def body_ok_def body_exact_def ck_enter_wf)
    next
      case Exit_done
      then have parse: "ngx_http_parse_chunked ?ctx buf
          = (Chunk_done, ?ctx\<lparr>ck_state := csw_chunk_start, ck_size := n\<rparr>, rest)"
        using loop by (simp add: ngx_http_parse_chunked_def)
      have "n = 0" using ck_loop_done loop Exit_done "1.prems" by (auto simp: body_ok_def)
      show ?thesis using parse Exit_done ref \<open>n = 0\<close>
        by (subst chunked_buf.simps) (simp add: body_agrees_def body_view_def)
    next
      case Exit_data
      with no_error loop
      obtain ctx where parse: "ngx_http_parse_chunked ?ctx buf = (Chunk_ok, ctx, rest)"
        and ctx: "ck_state ctx = st" "ck_size ctx = n"
        by (auto simp: ngx_http_parse_chunked_def ck_leave_def Let_def)
      have st: "st = csw_chunk_data" using ck_loop_data loop Exit_data by blast
      have n: "0 < n" "n \<le> MAX_OFF - 5" using ref Exit_data st no_error by (auto simp: ck_wf_def)
      have rest: "rest \<noteq> []" using ck_loop_data loop Exit_data by blast
      let ?v = "(body_view rb data)\<lparr>dc_state := st, dc_size := n\<rparr>"
      have ref': "feed (dechunk_step m) (body_view rb data) buf = feed (dechunk_step m) ?v rest"
        using ref Exit_data no_error by simp
      consider (large) "m \<noteq> 0 \<and> m - content_length_n rb < int n"
        | (whole) "\<not> (m \<noteq> 0 \<and> m - content_length_n rb < int n)" "length rest > n"
        | (part) "\<not> (m \<noteq> 0 \<and> m - content_length_n rb < int n)" "\<not> length rest > n" by blast
      then show ?thesis
      proof cases
        case large
        then have "feed (dechunk_step m) ?v rest = Halt (Dc_too_large, tl rest)"
          using rest st by (cases rest) (auto simp: dechunk_step_def body_view_def)
        with parse large ref' ctx show ?thesis
          by (subst chunked_buf.simps) (simp add: body_agrees_def)
      next
        case whole
        let ?rb = "rb\<lparr>rb_chunked := ctx\<lparr>ck_size := 0\<rparr>, content_length_n := content_length_n rb + int n\<rparr>"
        have "feed (dechunk_step m) ?v (take n rest @ drop n rest)
            = feed (dechunk_step m) (body_view ?rb (data @ take n rest)) (drop n rest)"
          using whole n st ctx dechunk_data [of ?v m "take n rest"]
          by (intro feed_Go_append) (auto simp: body_view_def ck_enter_def)
        moreover have ok: "body_ok ?rb"
          using "1.prems" st ctx by (simp add: body_ok_def ck_enter_def ck_wf_def)
        moreover have "body_agrees (feed (dechunk_step m) (body_view ?rb (data @ take n rest)) (drop n rest))
            (data @ take n rest) (chunked_buf m ?rb (drop n rest))"
          using "1.IH"(1) [OF parse [symmetric] refl refl, of "data @ take n rest"] whole ctx ok by simp
        ultimately show ?thesis using parse whole ref' ctx
          by (subst chunked_buf.simps) (auto simp: body_agrees_def split: prod.splits body_rc.splits if_splits)
      next
        case part
        let ?rb = "rb\<lparr>rb_chunked := ctx\<lparr>ck_size := n - length rest\<rparr>,
            content_length_n := content_length_n rb + int (length rest)\<rparr>"
        have "feed (dechunk_step m) ?v rest = Go (body_view ?rb (data @ rest))"
          using part n st ctx dechunk_data [of ?v m rest] by (auto simp: body_view_def ck_enter_def)
        moreover have ok: "body_ok ?rb"
          using "1.prems" st ctx n by (auto simp: body_ok_def ck_enter_def ck_wf_def)
        moreover have "body_agrees (feed (dechunk_step m) (body_view ?rb (data @ rest)) [])
            (data @ rest) (chunked_buf m ?rb [])"
          using "1.IH"(2) [OF parse [symmetric] refl refl, of "data @ rest"] part ctx ok by simp
        ultimately show ?thesis using parse part ref' ctx
          by (subst chunked_buf.simps) (auto simp: body_agrees_def split: prod.splits body_rc.splits if_splits)
      qed
    qed
  qed
qed


definition dechunk_wf :: "dechunk \<Rightarrow> bool" where
  "dechunk_wf s \<longleftrightarrow> ck_wf (dc_state s) (dc_size s) \<and> dc_size s \<le> MAX_OFF - 5"

interpretation dechunk: byte_machine "dechunk_step m" dechunk_wf "\<lambda>_. True" for m
proof
  fix s c s'
  assume "dechunk_wf s" "dechunk_step m s c = Go s'"
  then show "dechunk_wf s'"
    by (auto simp: dechunk_wf_def dechunk_step_def split: ck_out.splits if_splits dest: ck_step_wf)
      (auto simp: ck_wf_def dest: ck_step_DataD)
qed simp

text \<open>The driver's byte count is the length of the data.\<close>

interpretation dechunk_count: byte_machine "dechunk_step m"
  "\<lambda>s. dc_received s = int (length (dc_data s))"
  "\<lambda>r. \<forall>s. r = Dc_done s \<longrightarrow> dc_received s = int (length (dc_data s))"
  for m
  by unfold_locales (auto simp: dechunk_step_def split: ck_out.splits if_splits)

lemma filter_single:
  "ngx_http_request_body_chunked_filter m rb [buf]
    = (case chunked_buf m (chunked_body_init rb) buf of
        (rc, rb', out, rest) \<Rightarrow> (rc, rb', if rc = Body_continue then out else [], [rest]))"
  by (simp add: ngx_http_request_body_chunked_filter_def split: prod.splits body_rc.splits)

lemma read_chunked_body_bytewise:
  assumes "body_ok (chunked_body_init rb)"
  shows "case feed (dechunk_step m) (body_view (chunked_body_init rb) data) (concat bufs) of
      Go s \<Rightarrow> \<exists>rb' d. read_chunked_body m rb bufs = (Reading, rb', d) \<and> dc_data s = data @ d
    | Halt (Dc_done s, rest) \<Rightarrow> \<exists>rb' d. read_chunked_body m rb bufs = (Complete rest, rb', d)
        \<and> dc_data s = data @ d \<and> dc_received s = content_length_n rb'
    | Halt (Dc_bad, _) \<Rightarrow> \<exists>rb' d. read_chunked_body m rb bufs = (Failed NGX_HTTP_BAD_REQUEST, rb', d)
    | Halt (Dc_too_large, _) \<Rightarrow>
        \<exists>rb' d. read_chunked_body m rb bufs = (Failed NGX_HTTP_REQUEST_ENTITY_TOO_LARGE, rb', d)"
  using assms
proof (induction bufs arbitrary: rb data)
  case Nil
  then show ?case by (simp add: body_view_def)
next
  case (Cons buf bufs)
  obtain rc rb' out rest where buf: "chunked_buf m (chunked_body_init rb) buf = (rc, rb', out, rest)"
    by (metis prod_cases4)
  have agrees: "body_agrees (feed (dechunk_step m) (body_view (chunked_body_init rb) data) buf) data
      (rc, rb', out, rest)"
    using chunked_buf_agrees [OF Cons.prems, of m data buf] buf by simp
  show ?case
  proof (cases "rc = Body_continue \<and> rb_rest rb' \<noteq> 0")
    case True
    then have ref: "feed (dechunk_step m) (body_view (chunked_body_init rb) data) buf
        = Go (body_view rb' (data @ concat (map body_bytes out)))" "body_ok rb'"
      using agrees by (auto simp: body_agrees_def body_exact_def)
    have "chunked_body_init rb' = rb'" using ref(2) by (simp add: body_ok_def chunked_body_init_def)
    with Cons.IH [of rb' "data @ concat (map body_bytes out)"] True ref buf
    show ?thesis
      by (auto simp: feed_append filter_single split: outcome.splits dechunk_res.splits prod.splits)
  next
    case False
    with agrees buf show ?thesis
      by (auto simp: body_agrees_def feed_append filter_single split: body_rc.splits)
  qed
qed

lemma body_init_view:
  "rb_rest rb = -1 \<Longrightarrow> body_view (chunked_body_init rb) [] = dechunk_init \<and> body_ok (chunked_body_init rb)"
  by (simp add: body_view_def chunked_body_init_def dechunk_init_def chunked_zero_def ck_enter_def
      body_ok_def ck_wf_def)

lemma read_chunked_body_feed:
  "case feed (dechunk_step m) dechunk_init (concat bufs) of
      Go s \<Rightarrow> \<exists>rb'. read_chunked_body m (rb\<lparr>rb_rest := -1\<rparr>) bufs = (Reading, rb', dc_data s)
    | Halt (Dc_done s, rest) \<Rightarrow>
        \<exists>rb'. read_chunked_body m (rb\<lparr>rb_rest := -1\<rparr>) bufs = (Complete rest, rb', dc_data s)
          \<and> content_length_n rb' = int (length (dc_data s))
    | Halt (Dc_bad, _) \<Rightarrow>
        \<exists>rb' d. read_chunked_body m (rb\<lparr>rb_rest := -1\<rparr>) bufs = (Failed NGX_HTTP_BAD_REQUEST, rb', d)
    | Halt (Dc_too_large, _) \<Rightarrow>
        \<exists>rb' d. read_chunked_body m (rb\<lparr>rb_rest := -1\<rparr>) bufs
          = (Failed NGX_HTTP_REQUEST_ENTITY_TOO_LARGE, rb', d)"
proof -
  have view: "body_view (chunked_body_init (rb\<lparr>rb_rest := -1\<rparr>)) [] = dechunk_init"
    "body_ok (chunked_body_init (rb\<lparr>rb_rest := -1\<rparr>))"
    using body_init_view [of "rb\<lparr>rb_rest := -1\<rparr>"] by simp_all
  have post: "dc_received s = int (length (dc_data s))"
    if "feed (dechunk_step m) dechunk_init (concat bufs) = Halt (Dc_done s, rest)" for s rest
    using dechunk_count.feed_post [OF _ that] by (simp add: dechunk_init_def)
  show ?thesis
    using read_chunked_body_bytewise [where rb = "rb\<lparr>rb_rest := -1\<rparr>" and data = "[]" and m = m and bufs = bufs] view post
    by (auto split: outcome.splits dechunk_res.splits)
qed


text \<open>The outcome of a body as the handlers of the request see it.\<close>

definition body_result :: "body_status \<times> request_body \<times> bytes \<Rightarrow> body_status \<times> bytes" where
  "body_result = (\<lambda>(st, rb, data). case st of Failed rc \<Rightarrow> (st, []) | _ \<Rightarrow> (st, data))"

definition dechunk_result :: "(dechunk, dechunk_res \<times> bytes) outcome \<Rightarrow> body_status \<times> bytes" where
  "dechunk_result ref =
     (case ref of
        Go s \<Rightarrow> (Reading, dc_data s)
      | Halt (Dc_done s, unread) \<Rightarrow> (Complete unread, dc_data s)
      | Halt (Dc_bad, _) \<Rightarrow> (Failed NGX_HTTP_BAD_REQUEST, [])
      | Halt (Dc_too_large, _) \<Rightarrow> (Failed NGX_HTTP_REQUEST_ENTITY_TOO_LARGE, []))"

text \<open>
  C7. However a chunked body is cut into buffers, ngx_http_request_body_chunked_filter() called on
  them one after another, copying whole blocks of data, does what the byte-wise decoder does
  on the concatenated input: the same data, the same unread rest after the body, the same
  error. In particular the result does not depend on where the buffers end.
\<close>

theorem ngx_http_request_body_chunked_filter_bytewise:
  "body_result (read_chunked_body m (rb\<lparr>rb_rest := -1\<rparr>) bufs)
    = dechunk_result (feed (dechunk_step m) dechunk_init (concat bufs))"
  using read_chunked_body_feed [of m rb bufs]
  by (auto simp: body_result_def dechunk_result_def split: outcome.splits dechunk_res.splits)

end
