(* ===== verification/Http_Chunked_Props.thy ===== *)
theory Http_Chunked_Props
  imports Http_Chunked
begin

text \<open>
  What the chunked body filter of Http_Chunked accepts, how much it asks for, and the bounds
  of its off_t arithmetic; the Content-Length filter.
\<close>

section \<open>What the decoder accepts\<close>

text \<open>
  A chunk: the size in hexadecimal, an extension, the data. The parser refuses a size once
  it exceeds NGX_MAX_OFF_T_VALUE / 16, even where no digit follows.
\<close>

definition chunk_ext :: "bytes \<Rightarrow> bool" where
  "chunk_ext e \<longleftrightarrow> CR \<notin> set e \<and> LF \<notin> set e \<and> (e = [] \<or> hd e \<in> {ch CHR '';'', SP, 9})"

definition chunk_header :: "bytes \<Rightarrow> bytes \<Rightarrow> bytes" where
  "chunk_header sz e = sz @ e @ [CR, LF]"

definition is_chunk :: "bytes \<times> bytes \<times> bytes \<Rightarrow> bool" where
  "is_chunk = (\<lambda>(sz, e, d). sz \<noteq> [] \<and> list_all is_xdigit sz \<and> hex_val sz = int (length d) \<and> d \<noteq> []
     \<and> length d \<le> MAX_OFF div 16 \<and> chunk_ext e)"

definition chunk_bytes :: "bytes \<times> bytes \<times> bytes \<Rightarrow> bytes" where
  "chunk_bytes = (\<lambda>(sz, e, d). chunk_header sz e @ d @ [CR, LF])"

definition chunk_data :: "(bytes \<times> bytes \<times> bytes) list \<Rightarrow> bytes" where
  "chunk_data cs = concat (map (\<lambda>(sz, e, d). d) cs)"

definition is_trailer :: "bytes \<Rightarrow> bool" where
  "is_trailer h \<longleftrightarrow> h \<noteq> [] \<and> CR \<notin> set h \<and> LF \<notin> set h"

definition trailer_bytes :: "bytes list \<Rightarrow> bytes" where
  "trailer_bytes hs = concat (map (\<lambda>h. h @ [CR, LF]) hs) @ [CR, LF]"

lemma ck_xdigit:
  "is_xdigit c \<Longrightarrow> ck_start c = Next csw_chunk_size (nat (xval c))"
  "\<lbrakk>is_xdigit c; n \<le> MAX_OFF div 16\<rbrakk> \<Longrightarrow> ck_size_case n c = Next csw_chunk_size (n * 16 + nat (xval c))"
  by (auto simp: ck_start_def ck_size_case_def xval_def is_xdigit_def)

lemma ck_feed_size:
  assumes "dc_state s = csw_chunk_size" "list_all is_xdigit sz"
    "int (dc_size s) * 16 ^ length sz + hex_val sz \<le> int (MAX_OFF div 16)"
  shows "feed (dechunk_step m) s sz
    = Go (s\<lparr>dc_size := nat (int (dc_size s) * 16 ^ length sz + hex_val sz)\<rparr>)"
  using assms
proof (induction sz arbitrary: s)
  case Nil
  then show ?case by simp
next
  case (Cons c sz)
  let ?n = "dc_size s * 16 + nat (xval c)"
  have c: "is_xdigit c" "0 \<le> xval c" using Cons.prems(2) xval_range [of c] by auto
  have tail: "0 \<le> hex_val sz" using Cons.prems(2) hex_val_nonneg by simp
  have val: "int (dc_size s) * 16 ^ length (c # sz) + hex_val (c # sz)
      = int ?n * 16 ^ length sz + hex_val sz"
    using c(2) by (simp add: num_val_Cons algebra_simps)
  have pow: "int ?n \<le> int ?n * 16 ^ length sz" by (simp add: mult_le_cancel_left1)
  then have n: "?n \<le> MAX_OFF div 16" using val tail Cons.prems(3) by linarith
  have step: "dechunk_step m s c = Go (s\<lparr>dc_size := ?n\<rparr>)"
    using Cons.prems(1) c n by (auto simp: dechunk_step_def ck_xdigit)
  have "feed (dechunk_step m) (s\<lparr>dc_size := ?n\<rparr>) sz
      = Go (s\<lparr>dc_size := nat (int ?n * 16 ^ length sz + hex_val sz)\<rparr>)"
    using Cons.IH [of "s\<lparr>dc_size := ?n\<rparr>"] Cons.prems val by simp
  with step val show ?case by simp
qed

lemma ck_feed_skip:
  assumes "\<And>n c. ck_step st n c = ck_skip st cr lf n c" "dc_state s = st" "dc_size s \<le> MAX_OFF - 5"
    "CR \<notin> set e" "LF \<notin> set e"
  shows "feed (dechunk_step m) s e = Go s"
  using assms(4,5)
proof (induction e)
  case (Cons c e)
  have "dechunk_step m s c = Go s"
    using Cons.prems assms(1-3) by (simp add: dechunk_step_def ck_skip_def)
  with Cons show ?case by simp
qed simp


lemma ck_feed_digits:
  assumes "dc_state s = csw_chunk_start" "dc_size s = 0" "sz \<noteq> []" "list_all is_xdigit sz"
    "hex_val sz \<le> int (MAX_OFF div 16)"
  shows "feed (dechunk_step m) s sz = Go (s\<lparr>dc_state := csw_chunk_size, dc_size := nat (hex_val sz)\<rparr>)"
proof -
  obtain c sz' where sz: "sz = c # sz'" using assms(3) by (cases sz) auto
  have c: "is_xdigit c" "0 \<le> xval c" "xval c < 16" using assms(4) xval_range [of c] by (auto simp: sz)
  have "dechunk_step m s c = Go (s\<lparr>dc_state := csw_chunk_size, dc_size := nat (xval c)\<rparr>)"
    using assms(1) c by (auto simp: dechunk_step_def ck_xdigit)
  with ck_feed_size [of "s\<lparr>dc_state := csw_chunk_size, dc_size := nat (xval c)\<rparr>" sz' m] assms(4,5) c
  show ?thesis by (simp add: sz num_val_Cons)
qed

text \<open>The end of a size line, with or without an extension.\<close>

lemma ck_feed_ext:
  assumes "dc_state s = csw_chunk_size" "dc_size s \<le> MAX_OFF div 16" "chunk_ext e"
  shows "feed (dechunk_step m) s (e @ [CR, LF])
    = Go (s\<lparr>dc_state := (if dc_size s = 0 then csw_trailer else csw_chunk_data)\<rparr>)"
proof (cases e)
  case Nil
  have "\<not> is_digit CR" "\<not> is_af20 CR" by (simp_all add: byte_class)
  with assms(1,2) Nil show ?thesis by (simp add: dechunk_step_def ck_size_case_def ck_size_end_def ck_lf_def)
next
  case (Cons c e')
  let ?st = "if dc_size s = 0 then csw_last_chunk_extension else csw_chunk_extension"
  have c: "c \<in> {ch CHR '';'', SP, 9}" and e': "CR \<notin> set e'" "LF \<notin> set e'"
    using assms(3) Cons by (auto simp: chunk_ext_def)
  have "\<not> is_digit c" "\<not> is_af20 c" "c \<noteq> CR" "c \<noteq> LF" using c by (auto simp: byte_class)
  then have 1: "dechunk_step m s c = Go (s\<lparr>dc_state := ?st\<rparr>)"
    using assms(1,2) c by (auto simp: dechunk_step_def ck_size_case_def ck_size_end_def)
  have 2: "feed (dechunk_step m) (s\<lparr>dc_state := ?st\<rparr>) e' = Go (s\<lparr>dc_state := ?st\<rparr>)"
  proof (cases "dc_size s = 0")
    case True
    then show ?thesis using e'
      by (intro ck_feed_skip [of ?st csw_last_chunk_extension_almost_done csw_trailer]) simp_all
  next
    case False
    then show ?thesis using e' assms(2)
      by (intro ck_feed_skip [of ?st csw_chunk_extension_almost_done csw_chunk_data]) simp_all
  qed
  from 1 2 assms(2) show ?thesis
    by (simp add: Cons feed_append) (auto simp: dechunk_step_def ck_skip_def ck_lf_def)
qed

lemma ck_feed_header:
  assumes "dc_state s = csw_chunk_start" "dc_size s = 0" "sz \<noteq> []" "list_all is_xdigit sz"
    "hex_val sz \<le> int (MAX_OFF div 16)" "chunk_ext e"
  shows "feed (dechunk_step m) s (chunk_header sz e)
    = Go (s\<lparr>dc_state := (if hex_val sz = 0 then csw_trailer else csw_chunk_data), dc_size := nat (hex_val sz)\<rparr>)"
proof -
  have v: "0 \<le> hex_val sz" using assms(4) by (rule hex_val_nonneg)
  have "feed (dechunk_step m) s (chunk_header sz e)
      = feed (dechunk_step m) (s\<lparr>dc_state := csw_chunk_size, dc_size := nat (hex_val sz)\<rparr>) (e @ [CR, LF])"
    unfolding chunk_header_def by (rule feed_Go_append [OF ck_feed_digits [OF assms(1-5)]])
  with ck_feed_ext [of "s\<lparr>dc_state := csw_chunk_size, dc_size := nat (hex_val sz)\<rparr>" e m] assms(5,6) v
  show ?thesis by (simp split: if_splits)
qed

lemma ck_feed_chunk:
  assumes "is_chunk (sz, e, d)" "dc_state s = csw_chunk_start" "dc_size s = 0"
    "m = 0 \<or> int (length d) \<le> m - dc_received s"
  shows "feed (dechunk_step m) s (chunk_bytes (sz, e, d))
    = Go (s\<lparr>dc_received := dc_received s + int (length d), dc_data := dc_data s @ d\<rparr>)"
proof -
  from assms(1) have c: "sz \<noteq> []" "list_all is_xdigit sz" "hex_val sz = int (length d)" "d \<noteq> []"
    "length d \<le> MAX_OFF div 16" "chunk_ext e" by (auto simp: is_chunk_def)
  let ?s1 = "s\<lparr>dc_state := csw_chunk_data, dc_size := length d\<rparr>"
  let ?s2 = "s\<lparr>dc_state := csw_after_data, dc_size := 0, dc_received := dc_received s + int (length d),
      dc_data := dc_data s @ d\<rparr>"
  have 1: "feed (dechunk_step m) s (chunk_header sz e) = Go ?s1"
    using ck_feed_header [OF assms(2,3) c(1,2) _ c(6), of m] c(3-5) by simp
  have 2: "feed (dechunk_step m) ?s1 d = Go ?s2"
    using dechunk_data [of ?s1 m d] c(4) assms(4) by simp
  have 3: "feed (dechunk_step m) ?s2 [CR, LF] = Go (?s2\<lparr>dc_state := csw_chunk_start\<rparr>)"
    by (simp add: dechunk_step_def ck_skip_def ck_lf_def)
  have eq: "?s2\<lparr>dc_state := csw_chunk_start\<rparr>
      = s\<lparr>dc_received := dc_received s + int (length d), dc_data := dc_data s @ d\<rparr>"
    using assms(2,3) by simp
  show ?thesis
    unfolding chunk_bytes_def prod.case feed_append 1 2 3 outcome.case eq ..
qed

lemma ck_feed_trailer:
  assumes "dc_state s = csw_trailer" "dc_size s = 0" "list_all is_trailer hs"
  shows "feed (dechunk_step m) s (trailer_bytes hs @ next_bytes) = Halt (Dc_done (s\<lparr>dc_state := csw_trailer_almost_done\<rparr>), next_bytes)"
  using assms(3)
proof (induction hs)
  case Nil
  with assms show ?case
    by (simp add: trailer_bytes_def dechunk_step_def ck_trailer_def ck_trailer_almost_done_def)
next
  case (Cons h hs)
  obtain c h' where h: "h = c # h'" "c \<noteq> CR" "c \<noteq> LF" "CR \<notin> set h'" "LF \<notin> set h'"
    using Cons.prems by (cases h) (auto simp: is_trailer_def)
  have 1: "dechunk_step m s c = Go (s\<lparr>dc_state := csw_trailer_header\<rparr>)"
    using assms h by (simp add: dechunk_step_def ck_trailer_def)
  have 2: "feed (dechunk_step m) (s\<lparr>dc_state := csw_trailer_header\<rparr>) h' = Go (s\<lparr>dc_state := csw_trailer_header\<rparr>)"
    using h assms
    by (intro ck_feed_skip [of csw_trailer_header csw_trailer_header_almost_done csw_trailer]) simp_all
  have 3: "feed (dechunk_step m) (s\<lparr>dc_state := csw_trailer_header\<rparr>) [CR, LF] = Go s"
    using assms by (simp add: dechunk_step_def ck_skip_def ck_lf_def)
  have "feed (dechunk_step m) s (h @ [CR, LF]) = Go s"
    using feed_Go_append [OF 2, of "[CR, LF]"] 3 by (simp add: h(1) 1)
  then have "feed (dechunk_step m) s ((h @ [CR, LF]) @ trailer_bytes hs @ next_bytes)
      = feed (dechunk_step m) s (trailer_bytes hs @ next_bytes)" by (rule feed_Go_append)
  with Cons show ?case by (simp add: trailer_bytes_def)
qed

lemma ck_feed_chunks:
  assumes "list_all is_chunk cs" "dc_state s = csw_chunk_start" "dc_size s = 0"
    "m = 0 \<or> int (length (chunk_data cs)) \<le> m - dc_received s"
  shows "feed (dechunk_step m) s (concat (map chunk_bytes cs))
    = Go (s\<lparr>dc_received := dc_received s + int (length (chunk_data cs)),
            dc_data := dc_data s @ chunk_data cs\<rparr>)"
  using assms
proof (induction cs arbitrary: s)
  case Nil
  then show ?case by (simp add: chunk_data_def)
next
  case (Cons x cs)
  obtain sz e d where x: "x = (sz, e, d)" by (metis prod_cases3)
  let ?s = "s\<lparr>dc_received := dc_received s + int (length d), dc_data := dc_data s @ d\<rparr>"
  have "feed (dechunk_step m) s (chunk_bytes x @ concat (map chunk_bytes cs))
      = feed (dechunk_step m) ?s (concat (map chunk_bytes cs))"
    using Cons.prems by (intro feed_Go_append) (auto simp: x chunk_data_def intro!: ck_feed_chunk)
  also have "\<dots> = Go (?s\<lparr>dc_received := dc_received ?s + int (length (chunk_data cs)),
            dc_data := dc_data ?s @ chunk_data cs\<rparr>)"
    using Cons.prems by (intro Cons.IH) (auto simp: x chunk_data_def)
  finally show ?case by (simp add: x chunk_data_def algebra_simps)
qed

text \<open>
  C8. A chunked body of any number of chunks, with sizes written with leading zeros or in either
  case, with extensions and trailer fields, cut into buffers anywhere, is read completely: the
  data is the data of the chunks in order, its length the length the request gets, and
  exactly the bytes after the final empty line stay unread. (Unless client_max_body_size
  forbids the total.)
\<close>

theorem ngx_http_request_body_chunked_filter_accepts:
  assumes "list_all is_chunk cs" "zeros \<noteq> []" "set zeros = {ch CHR ''0''}" "chunk_ext e"
    "list_all is_trailer hs"
    "m = 0 \<or> int (length (chunk_data cs)) \<le> m"
    "concat bufs = concat (map chunk_bytes cs) @ chunk_header zeros e @ trailer_bytes hs @ next_bytes"
  shows "\<exists>rb'. read_chunked_body m (rb\<lparr>rb_rest := -1\<rparr>) bufs
      = (Complete next_bytes, rb', chunk_data cs)
    \<and> content_length_n rb' = int (length (chunk_data cs))"
proof -
  let ?data = "chunk_data cs"
  let ?s1 = "dechunk_init\<lparr>dc_received := int (length ?data), dc_data := ?data\<rparr>"
  let ?s2 = "?s1\<lparr>dc_state := csw_trailer\<rparr>"
  have 1: "feed (dechunk_step m) dechunk_init (concat (map chunk_bytes cs)) = Go ?s1"
    using ck_feed_chunks [OF assms(1), of dechunk_init m] assms(6) by (simp add: dechunk_init_def)
  have zeros: "hex_val zeros = 0" "list_all is_xdigit zeros"
  proof -
    have "set zs \<subseteq> {ch CHR ''0''} \<Longrightarrow> hex_val zs = 0" for zs
      by (induction zs rule: rev_induct) (auto simp: xval_def byte_class)
    with assms(2,3) show "hex_val zeros = 0" by simp
    show "list_all is_xdigit zeros" using assms(3) by (simp add: list_all_iff byte_class)
  qed
  have 2: "feed (dechunk_step m) ?s1 (chunk_header zeros e) = Go ?s2"
    using ck_feed_header [of ?s1 zeros e m] zeros assms(2,4) by (simp add: dechunk_init_def)
  have 3: "feed (dechunk_step m) ?s2 (trailer_bytes hs @ next_bytes)
      = Halt (Dc_done (?s2\<lparr>dc_state := csw_trailer_almost_done\<rparr>), next_bytes)"
    using assms(5) by (intro ck_feed_trailer) (simp_all add: dechunk_init_def)
  have "feed (dechunk_step m) dechunk_init (concat bufs)
      = Halt (Dc_done (?s2\<lparr>dc_state := csw_trailer_almost_done\<rparr>), next_bytes)"
    by (simp only: assms(7) feed_Go_append [OF 1] feed_Go_append [OF 2] 3)
  with read_chunked_body_feed [of m rb bufs] show ?thesis by simp
qed


section \<open>How much is still to come\<close>

lemma ck_step_min_length:
  "\<lbrakk>ck_wf st n; ck_step st n c = Next st' n'\<rbrakk> \<Longrightarrow> ck_min_length st n \<le> Suc (ck_min_length st' n')"
  by (cases st) (auto simp: ck_defs ck_wf_def split: if_splits)

lemma dechunk_step_min_length:
  assumes "ck_wf (dc_state s) (dc_size s)"
  shows "case dechunk_step m s c of
      Go s' \<Rightarrow> ck_min_length (dc_state s) (dc_size s) \<le> Suc (ck_min_length (dc_state s') (dc_size s'))
    | Halt (Dc_done s') \<Rightarrow> ck_min_length (dc_state s) (dc_size s) = 1
    | Halt _ \<Rightarrow> True"
proof (cases "ck_step (dc_state s) (dc_size s) c")
  case (Next st n)
  with assms show ?thesis by (auto simp: dechunk_step_def dest: ck_step_min_length)
next
  case Data
  then have "dc_state s = csw_chunk_data" by (rule ck_step_DataD)
  with Data assms show ?thesis by (auto simp: dechunk_step_def ck_wf_def)
next
  case Done
  with assms have "ck_min_length (dc_state s) (dc_size s) = 1"
    by (cases "dc_state s") (auto simp: ck_defs split: if_splits)
  with Done show ?thesis by (simp add: dechunk_step_def)
qed (simp add: dechunk_step_def)

lemma dechunk_min_length:
  "\<lbrakk>dechunk_wf s; feed (dechunk_step m) s xs = Halt (Dc_done s', rest)\<rbrakk>
   \<Longrightarrow> ck_min_length (dc_state s) (dc_size s) + length rest \<le> length xs"
proof (induction xs arbitrary: s)
  case Nil
  then show ?case by simp
next
  case (Cons c xs)
  show ?case
  proof (cases "dechunk_step m s c")
    case (Go s1)
    with Cons.prems dechunk.step_Go [OF Cons.prems(1) Go]
    have "ck_min_length (dc_state s1) (dc_size s1) + length rest \<le> length xs"
      by (intro Cons.IH) auto
    with dechunk_step_min_length [of s m c] Cons.prems Go show ?thesis by (simp add: dechunk_wf_def)
  next
    case (Halt r)
    with dechunk_step_min_length [of s m c] Cons.prems show ?thesis by (simp add: dechunk_wf_def)
  qed
qed

text \<open>
  What is left can be within the limits: the size of the chunk begun is not refused, by its next digit or
  by client_max_body_size.
\<close>

definition dechunk_open :: "int \<Rightarrow> dechunk \<Rightarrow> bool" where
  "dechunk_open m s \<longleftrightarrow>
     (m = 0 \<or> dc_size s = 0 \<or> dc_received s + int (dc_size s) \<le> m)
     \<and> (dc_state s = csw_chunk_size \<longrightarrow> dc_size s \<le> MAX_OFF div 16)"

text \<open>Every such body can be finished with exactly that much.\<close>

lemma dechunk_min_length_reached:
  assumes "ck_wf (dc_state s) (dc_size s)" "dc_size s \<le> MAX_OFF - 5" "dechunk_open m s"
  shows "\<exists>xs s'. length xs = ck_min_length (dc_state s) (dc_size s)
    \<and> feed (dechunk_step m) s xs = Halt (Dc_done s', [])"
proof -
  let ?fin = "[LF, ch CHR ''0'', LF, LF]"
  let ?d = "replicate (dc_size s) LF"
  have lim: "m = 0 \<or> dc_size s = 0 \<or> dc_received s + int (dc_size s) \<le> m"
    and digits: "dc_state s = csw_chunk_size \<Longrightarrow> dc_size s \<le> MAX_OFF div 16"
    using assms(3) by (auto simp: dechunk_open_def)
  have after: "\<exists>s'. feed (dechunk_step m) t ?fin = Halt (Dc_done s', [])"
    if "dc_state t = csw_after_data \<or> dc_state t = csw_after_data_almost_done" "dc_size t = 0" for t
    using that by (auto simp: dechunk_step_def ck_skip_def ck_lf_def ck_start_def byte_class
        ck_size_case_def ck_size_end_def ck_trailer_def)
  have data: "\<exists>s'. feed (dechunk_step m) t (?d @ ?fin) = Halt (Dc_done s', [])"
    if "dc_state t = csw_chunk_data" "dc_size t = dc_size s" "dc_received t = dc_received s" "0 < dc_size s" for t
  proof -
    let ?t = "t\<lparr>dc_state := csw_after_data, dc_size := 0, dc_received := dc_received t + int (dc_size s),
        dc_data := dc_data t @ ?d\<rparr>"
    have "m = 0 \<or> int (dc_size t) \<le> m - dc_received t" using lim that by auto
    then have "feed (dechunk_step m) t ?d = Go ?t"
      using dechunk_data [of t m ?d] that by simp
    then have "feed (dechunk_step m) t (?d @ ?fin) = feed (dechunk_step m) ?t ?fin"
      by (rule feed_Go_append)
    with after [of ?t] show ?thesis by simp
  qed
  have line: "\<exists>s'. feed (dechunk_step m) s (LF # ?d @ ?fin) = Halt (Dc_done s', [])"
    if "dechunk_step m s LF = Go (s\<lparr>dc_state := csw_chunk_data\<rparr>)" "0 < dc_size s"
    using data [of "s\<lparr>dc_state := csw_chunk_data\<rparr>"] that by simp
  have not_hex: "\<not> is_digit LF" "\<not> is_af20 LF" by (simp_all add: byte_class)
  show ?thesis
  proof (cases "dc_state s")
    case csw_chunk_start
    then show ?thesis
      by (intro exI [of _ "[ch CHR ''0'', LF, LF]"])
        (simp add: dechunk_step_def ck_start_def byte_class ck_size_case_def ck_size_end_def ck_trailer_def)
  next
    case csw_chunk_size
    show ?thesis
    proof (cases "dc_size s = 0")
      case True
      with csw_chunk_size not_hex show ?thesis
        by (intro exI [of _ "[LF, LF]"])
          (simp add: dechunk_step_def ck_size_case_def ck_size_end_def ck_trailer_def)
    next
      case False
      with csw_chunk_size not_hex digits line show ?thesis
        by (intro exI [of _ "LF # ?d @ ?fin"])
          (simp add: dechunk_step_def ck_size_case_def ck_size_end_def)
    qed
  next
    case csw_chunk_extension
    with assms line show ?thesis
      by (intro exI [of _ "LF # ?d @ ?fin"]) (simp add: dechunk_step_def ck_skip_def ck_wf_def)
  next
    case csw_chunk_extension_almost_done
    with assms line show ?thesis
      by (intro exI [of _ "LF # ?d @ ?fin"]) (simp add: dechunk_step_def ck_lf_def ck_wf_def)
  next
    case csw_chunk_data
    with assms data [of s] show ?thesis
      by (intro exI [of _ "?d @ ?fin"]) (simp add: ck_wf_def)
  next
    case csw_after_data
    with assms after [of s] show ?thesis by (intro exI [of _ ?fin]) (simp add: ck_wf_def)
  next
    case csw_after_data_almost_done
    with assms after [of s] show ?thesis by (intro exI [of _ ?fin]) (simp add: ck_wf_def)
  next
    case csw_last_chunk_extension
    with assms show ?thesis
      by (intro exI [of _ "[LF, LF]"]) (simp add: dechunk_step_def ck_skip_def ck_trailer_def)
  next
    case csw_last_chunk_extension_almost_done
    with assms show ?thesis
      by (intro exI [of _ "[LF, LF]"]) (simp add: dechunk_step_def ck_lf_def ck_trailer_def)
  next
    case csw_trailer
    then show ?thesis by (intro exI [of _ "[LF]"]) (simp add: dechunk_step_def ck_trailer_def)
  next
    case csw_trailer_almost_done
    then show ?thesis
      by (intro exI [of _ "[LF]"]) (simp add: dechunk_step_def ck_trailer_almost_done_def)
  next
    case csw_trailer_header
    with assms show ?thesis
      by (intro exI [of _ "[LF, LF]"]) (simp add: dechunk_step_def ck_skip_def ck_trailer_def)
  next
    case csw_trailer_header_almost_done
    with assms show ?thesis
      by (intro exI [of _ "[LF, LF]"]) (simp add: dechunk_step_def ck_lf_def ck_trailer_def)
  qed
qed


text \<open>A body with its size refused is not finished by any bytes.\<close>

lemma dechunk_done_open:
  "\<lbrakk>dechunk_wf s; feed (dechunk_step m) s xs = Halt (Dc_done s', rest)\<rbrakk> \<Longrightarrow> dechunk_open m s"
proof (induction xs arbitrary: s)
  case (Cons c xs)
  show ?case
  proof (cases "ck_step (dc_state s) (dc_size s) c")
    case (Next st n)
    let ?s = "s\<lparr>dc_state := st, dc_size := n\<rparr>"
    from Next Cons.prems(2) have go: "dechunk_step m s c = Go ?s"
      by (auto simp: dechunk_step_def split: if_splits)
    with Cons have "dechunk_open m ?s" using dechunk.step_Go [OF Cons.prems(1) go] by simp
    moreover have "dc_size s = 0 \<or> dc_size s \<le> n"
      and "dc_state s = csw_chunk_size \<Longrightarrow> dc_size s \<le> MAX_OFF div 16"
      using Next Cons.prems(1)
      by (cases "dc_state s"; auto simp: ck_defs dechunk_wf_def ck_wf_def split: if_splits)+
    ultimately show ?thesis by (auto simp: dechunk_open_def)
  next
    case Data
    from ck_step_DataD [OF Data] Data Cons.prems(2) show ?thesis
      by (auto simp: dechunk_step_def dechunk_open_def split: if_splits)
  next
    case Done
    with ck_step_DoneD [of "dc_state s" "dc_size s" c] Cons.prems(1) show ?thesis
      by (simp add: dechunk_open_def dechunk_wf_def)
  next
    case Invalid
    with Cons.prems(2) show ?thesis by (simp add: dechunk_step_def)
  qed
qed simp


lemma read_chunked_body_exact:
  assumes "read_chunked_body m rb bufs = (Reading, rb', d)" "body_exact (chunked_body_init rb)"
  shows "body_exact (chunked_body_init rb')"
  using assms
proof (induction bufs arbitrary: rb d)
  case Nil
  then show ?case by simp
next
  case (Cons buf bufs)
  obtain rc rb1 out rest where buf: "chunked_buf m (chunked_body_init rb) buf = (rc, rb1, out, rest)"
    by (metis prod_cases4)
  with Cons.prems have c: "rc = Body_continue" "rb_rest rb1 \<noteq> 0"
    by (auto simp: filter_single split: body_rc.splits if_splits prod.splits)
  have "body_ok (chunked_body_init rb)" using Cons.prems(2) by (simp add: body_exact_def)
  from chunked_buf_agrees [OF this, of m "[]" buf] buf c have e: "body_exact rb1"
    by (simp add: body_agrees_def)
  then have "chunked_body_init rb1 = rb1" by (auto simp: body_exact_def body_ok_def chunked_body_init_def)
  with Cons buf c e show ?case by (auto simp: filter_single split: prod.splits)
qed

lemma chunked_body_start_exact: "body_exact (chunked_body_init (rb\<lparr>rb_rest := -1\<rparr>))"
  using body_init_view [of "rb\<lparr>rb_rest := -1\<rparr>"]
  by (simp add: body_exact_def chunked_body_init_def chunked_zero_def ck_enter_def)

text \<open>One buffer completes a body exactly when the byte-wise decoder finishes on it.\<close>

lemma filter_completes:
  assumes "body_ok (chunked_body_init rb)"
  shows "(\<exists>rb' out. ngx_http_request_body_chunked_filter m rb [b] = (Body_continue, rb', out, [unread])
      \<and> rb_rest rb' = 0)
    \<longleftrightarrow> (\<exists>s. feed (dechunk_step m) (body_view (chunked_body_init rb) []) b = Halt (Dc_done s, unread))"
proof -
  obtain rc rb1 out rest where buf: "chunked_buf m (chunked_body_init rb) b = (rc, rb1, out, rest)"
    by (metis prod_cases4)
  with chunked_buf_agrees [OF assms, of m "[]" b] show ?thesis
    by (auto simp: filter_single body_agrees_def split: body_rc.splits if_splits)
qed

theorem ngx_http_request_body_chunked_filter_accepts_witness:
  "\<exists>rb'. read_chunked_body 10 (\<lparr> rb_rest = 0, rb_chunked = chunked_zero, content_length_n = 0 \<rparr>\<lparr>rb_rest := -1\<rparr>)
      [bytes_of ''5;x=y'' @ [CR, LF] @ bytes_of ''hel'', bytes_of ''lo'' @ [CR, LF] @ bytes_of ''0'',
       [CR, LF] @ bytes_of ''a: b'' @ [CR, LF, CR, LF] @ bytes_of ''GET'']
    = (Complete (bytes_of ''GET''), rb', bytes_of ''hello'')"
  using ngx_http_request_body_chunked_filter_accepts
    [of "[(bytes_of ''5'', bytes_of '';x=y'', bytes_of ''hello'')]" "bytes_of ''0''" "[]" "[bytes_of ''a: b'']" 10
      "[bytes_of ''5;x=y'' @ [CR, LF] @ bytes_of ''hel'', bytes_of ''lo'' @ [CR, LF] @ bytes_of ''0'',
        [CR, LF] @ bytes_of ''a: b'' @ [CR, LF, CR, LF] @ bytes_of ''GET'']" "bytes_of ''GET''"
      "\<lparr> rb_rest = 0, rb_chunked = chunked_zero, content_length_n = 0 \<rparr>"]
  by (auto simp: is_chunk_def chunk_bytes_def chunk_header_def chunk_data_def chunk_ext_def
      is_trailer_def trailer_bytes_def byte_class num_val_Cons)

text \<open>
  C9. \<open>rb->rest\<close>, the amount of data the server then asks for, is exact, whatever client_max_body_size
  is: after any part of a body, no buffer completes the body without at least that many bytes of its own, so
  reading that much never takes a byte of the next request; and if any buffer completes the body at all, then
  one of just that length does, with nothing left over, so the server never waits for more than the client has
  to send. The bodies that no buffer completes any more are those whose chunk size is refused with its next
  byte or with its first data: if the size read so far is at most NGX_MAX_OFF_T_VALUE / 16 and fits what
  client_max_body_size (0: no limit) leaves, such a buffer exists.
\<close>

theorem ngx_http_request_body_chunked_filter_rest_exact:
  assumes "read_chunked_body m (rb\<lparr>rb_rest := -1\<rparr>) bufs = (Reading, rb1, d)"
  shows "(\<forall>b rb2 out unread.
      ngx_http_request_body_chunked_filter m rb1 [b] = (Body_continue, rb2, out, [unread]) \<and> rb_rest rb2 = 0
      \<longrightarrow> rb_rest (chunked_body_init rb1) + int (length unread) \<le> int (length b))
    \<and> ((\<exists>b rb2 out unread.
          ngx_http_request_body_chunked_filter m rb1 [b] = (Body_continue, rb2, out, [unread]) \<and> rb_rest rb2 = 0)
        \<or> ck_size (rb_chunked (chunked_body_init rb1)) \<le> MAX_OFF div 16
          \<and> (m = 0 \<or> content_length_n (chunked_body_init rb1)
              + int (ck_size (rb_chunked (chunked_body_init rb1))) \<le> m)
      \<longrightarrow> (\<exists>b rb2 out. ngx_http_request_body_chunked_filter m rb1 [b] = (Body_continue, rb2, out, [[]])
        \<and> rb_rest rb2 = 0 \<and> int (length b) = rb_rest (chunked_body_init rb1)))"
proof -
  let ?rb = "chunked_body_init rb1"
  let ?s = "body_view ?rb []"
  have exact: "body_exact ?rb"
    using read_chunked_body_exact [OF assms chunked_body_start_exact] .
  then have ok: "body_ok ?rb" and rest: "rb_rest ?rb = int (ck_min_length (dc_state ?s) (dc_size ?s))"
    and wf: "ck_wf (dc_state ?s) (dc_size ?s)" "dc_size ?s \<le> MAX_OFF - 5"
    by (auto simp: body_exact_def body_ok_def body_view_def)
  have wfs: "dechunk_wf ?s" using wf by (simp add: dechunk_wf_def)
  show ?thesis
  proof (intro conjI allI impI)
    fix b rb2 out unread
    assume "ngx_http_request_body_chunked_filter m rb1 [b] = (Body_continue, rb2, out, [unread])
      \<and> rb_rest rb2 = 0"
    with filter_completes [OF ok] obtain s where
      "feed (dechunk_step m) ?s b = Halt (Dc_done s, unread)" by blast
    with dechunk_min_length [OF wfs]
    have "ck_min_length (dc_state ?s) (dc_size ?s) + length unread \<le> length b" by blast
    with rest show "rb_rest ?rb + int (length unread) \<le> int (length b)" by simp
  next
    assume "(\<exists>b rb2 out unread.
          ngx_http_request_body_chunked_filter m rb1 [b] = (Body_continue, rb2, out, [unread]) \<and> rb_rest rb2 = 0)
        \<or> ck_size (rb_chunked ?rb) \<le> MAX_OFF div 16
          \<and> (m = 0 \<or> content_length_n ?rb + int (ck_size (rb_chunked ?rb)) \<le> m)"
    then have "dechunk_open m ?s"
    proof (elim disjE)
      assume "\<exists>b rb2 out unread.
          ngx_http_request_body_chunked_filter m rb1 [b] = (Body_continue, rb2, out, [unread]) \<and> rb_rest rb2 = 0"
      then show ?thesis using filter_completes [OF ok] dechunk_done_open [OF wfs] by metis
    qed (auto simp: dechunk_open_def body_view_def)
    from dechunk_min_length_reached [OF wf this] obtain xs s' where
      "length xs = ck_min_length (dc_state ?s) (dc_size ?s)" "feed (dechunk_step m) ?s xs = Halt (Dc_done s', [])"
      by blast
    with filter_completes [OF ok, of m xs "[]"] rest
    show "\<exists>b rb2 out. ngx_http_request_body_chunked_filter m rb1 [b] = (Body_continue, rb2, out, [[]])
        \<and> rb_rest rb2 = 0 \<and> int (length b) = rb_rest ?rb" by metis
  qed
qed


theorem ngx_http_request_body_chunked_filter_rest_exact_witness:
  "\<exists>rb1. read_chunked_body 2 (\<lparr> rb_rest = 0, rb_chunked = chunked_zero, content_length_n = 0 \<rparr>\<lparr>rb_rest := -1\<rparr>)
      [[ch CHR ''2'', LF, 7]] = (Reading, rb1, [7]) \<and> rb_rest (chunked_body_init rb1) = 5
    \<and> (\<exists>b rb2 out. ngx_http_request_body_chunked_filter 2 rb1 [b] = (Body_continue, rb2, out, [[]])
        \<and> rb_rest rb2 = 0 \<and> length b = 5)"
proof -
  let ?rb = "\<lparr> rb_rest = 0, rb_chunked = chunked_zero, content_length_n = 0 \<rparr>"
  let ?rb1 = "\<lparr> rb_rest = 5, rb_chunked = \<lparr> ck_state = csw_chunk_data, ck_size = 1, ck_length = 5 \<rparr>,
    content_length_n = 1 \<rparr>"
  have read: "read_chunked_body 2 (?rb\<lparr>rb_rest := -1\<rparr>) [[ch CHR ''2'', LF, 7]] = (Reading, ?rb1, [7])"
    by (simp add: filter_single chunked_body_init_def chunked_zero_def chunked_buf.simps
        ngx_http_parse_chunked_def ck_enter_def ck_leave_def ck_defs byte_class)
  have "chunked_body_init ?rb1 = ?rb1" by (simp add: chunked_body_init_def)
  with ngx_http_request_body_chunked_filter_rest_exact [OF read] have
    "\<exists>b rb2 out. ngx_http_request_body_chunked_filter 2 ?rb1 [b] = (Body_continue, rb2, out, [[]])
        \<and> rb_rest rb2 = 0 \<and> int (length b) = 5"
    by simp
  then have "\<exists>b rb2 out. ngx_http_request_body_chunked_filter 2 ?rb1 [b] = (Body_continue, rb2, out, [[]])
        \<and> rb_rest rb2 = 0 \<and> length b = 5"
    by fastforce
  with read show ?thesis by (intro exI [of _ ?rb1]) (simp add: chunked_body_init_def)
qed

section \<open>Bounds of off_t\<close>

lemma ck_digit_bounds:
  "is_digit c \<Longrightarrow> nat (dval c) < 16"
  "is_af20 c \<Longrightarrow> nat (uint (c OR 0x20) - 97 + 10) < 16"
proof -
  show "is_digit c \<Longrightarrow> nat (dval c) < 16"
    using xval_range [of c] by (auto simp: xval_def is_xdigit_def split: if_splits)
  show "is_af20 c \<Longrightarrow> nat (uint (c OR 0x20) - 97 + 10) < 16"
    by (simp add: is_af20_def word_le_def) linarith
qed

lemma ck_step_bound:
  assumes "n \<le> MAX_OFF" "ck_step st n c = Next st' n'"
  shows "n' \<le> MAX_OFF"
proof -
  note d = ck_digit_bounds [of c]
  consider "st = csw_chunk_start" | "st = csw_chunk_size" | "st \<notin> {csw_chunk_start, csw_chunk_size}"
    by blast
  then show ?thesis
  proof cases
    case 1
    with assms d show ?thesis by (auto simp: ck_start_def split: if_splits)
  next
    case 2
    with assms d show ?thesis by (auto simp: ck_size_case_def ck_size_end_def split: if_splits)
  next
    case 3
    with assms show ?thesis by (cases st) (auto simp: ck_defs split: if_splits)
  qed
qed

lemma ck_loop_bound: "\<lbrakk>ck_loop st n buf = (e, st', n', rest); n \<le> MAX_OFF\<rbrakk> \<Longrightarrow> n' \<le> MAX_OFF"
  by (induction st n buf rule: ck_loop.induct) (auto split: ck_out.splits dest: ck_step_bound)

text \<open>
  No input makes off_t overflow: each byte keeps the size within NGX_MAX_OFF_T_VALUE, and
  when the parser returns without an error the expected length, with its 5 bytes of chunk
  syntax, is within it too.
\<close>

theorem ngx_http_parse_chunked_bounds:
  assumes "ck_size ctx \<le> MAX_OFF" "ck_length ctx \<le> MAX_OFF"
    "ngx_http_parse_chunked ctx buf = (rc, ctx', rest)"
  shows "ck_size ctx' \<le> MAX_OFF \<and> ck_length ctx' \<le> MAX_OFF"
proof -
  obtain e st n r where loop: "ck_loop (ck_enter ctx) (ck_size ctx) buf = (e, st, n, r)"
    by (metis prod_cases4)
  have "n \<le> MAX_OFF" using ck_loop_bound [OF loop assms(1)] .
  moreover have "n \<le> MAX_OFF - 5 \<Longrightarrow> ck_min_length st n \<le> MAX_OFF" by (cases st) auto
  ultimately show ?thesis
    using assms(2,3) loop
    by (auto simp: ngx_http_parse_chunked_def ck_leave_def Let_def split: ck_exit.splits if_splits)
qed

theorem ngx_http_parse_chunked_bounds_witness:
  "\<exists>rc ctx' rest. ngx_http_parse_chunked chunked_zero (bytes_of ''7fffffffffffffff'') = (rc, ctx', rest)
    \<and> ck_size ctx' \<le> MAX_OFF \<and> ck_length ctx' \<le> MAX_OFF"
proof -
  obtain rc ctx' rest where "ngx_http_parse_chunked chunked_zero (bytes_of ''7fffffffffffffff'') = (rc, ctx', rest)"
    by (metis prod_cases3)
  with ngx_http_parse_chunked_bounds [of chunked_zero _ rc ctx' rest] show ?thesis
    by (auto simp: chunked_zero_def)
qed

section \<open>Bodies with Content-Length\<close>

lemma length_chain_correct:
  "length_chain (int n) bufs = (rest, out, unread)
   \<Longrightarrow> concat (map body_bytes out) = take n (concat bufs) \<and> concat unread = drop n (concat bufs)
     \<and> rest = int (n - length (concat bufs))"
proof (induction bufs arbitrary: n rest out unread)
  case Nil
  then show ?case by auto
next
  case (Cons buf bufs)
  show ?case
  proof (cases "n = 0")
    case True
    with Cons.prems show ?thesis by auto
  next
    case n: False
    obtain rest' out' unread' where r: "length_chain (int (n - length buf)) bufs = (rest', out', unread')"
      by (metis prod_cases3)
    note IH = Cons.IH [OF r]
    show ?thesis
    proof (cases "length buf < n")
      case True
      then have "length_chain (int n) (buf # bufs) = (rest', Body buf False # out', [] # unread')"
        using r by (simp add: of_nat_diff)
      with Cons.prems IH True show ?thesis by auto
    next
      case False
      then have "length_chain (int n) (buf # bufs)
          = (rest', Body (take n buf) True # out', drop n buf # unread')"
        using r n by simp
      with Cons.prems IH False show ?thesis by auto
    qed
  qed
qed

lemma length_chain_last:
  "length_chain (int n) bufs = (rest, out, unread)
   \<Longrightarrow> (\<exists>d. Body d True \<in> set out) \<longleftrightarrow> 0 < n \<and> n \<le> length (concat bufs)"
proof (induction bufs arbitrary: n rest out unread)
  case Nil
  then show ?case by auto
next
  case (Cons buf bufs)
  obtain rest' out' unread' where r: "length_chain (int (n - length buf)) bufs = (rest', out', unread')"
    by (metis prod_cases3)
  note IH = Cons.IH [OF r]
  consider "n = 0" | "0 < n" "length buf < n" | "0 < n" "\<not> length buf < n" by linarith
  then show ?case
  proof cases
    case 1
    with Cons.prems show ?thesis by auto
  next
    case 2
    then have "length_chain (int n) (buf # bufs) = (rest', Body buf False # out', [] # unread')"
      using r by (simp add: of_nat_diff)
    with Cons.prems IH 2 show ?thesis by auto
  next
    case 3
    then have "length_chain (int n) (buf # bufs)
        = (rest', Body (take n buf) True # out', drop n buf # unread')"
      using r by simp
    with Cons.prems 3 show ?thesis by auto
  qed
qed

text \<open>
  The filter of a body with Content-Length n takes exactly the first n bytes of what
  arrives, in order, leaves the others unread, counts down what is still to come, and marks
  a buffer as the last of the body exactly when the n bytes are there.
\<close>

theorem ngx_http_request_body_length_filter_correct:
  "case ngx_http_request_body_length_filter (rb\<lparr>rb_rest := -1, content_length_n := int n\<rparr>) bufs of
     (rb', out, unread) \<Rightarrow>
       concat (map body_bytes out) = take n (concat bufs)
       \<and> concat unread = drop n (concat bufs)
       \<and> rb_rest rb' = int (n - length (concat bufs))
       \<and> ((\<exists>d. Body d True \<in> set out) \<longleftrightarrow> 0 < n \<and> n \<le> length (concat bufs))"
proof -
  obtain rest out unread where r: "length_chain (int n) bufs = (rest, out, unread)"
    by (metis prod_cases3)
  with length_chain_correct [OF r] length_chain_last [OF r] show ?thesis
    by (simp add: ngx_http_request_body_length_filter_def)
qed

end
