(* ===== verification/Http_Header_Line.thy ===== *)
theory Http_Header_Line
  imports Ngx_Strings
begin

text \<open>
  ngx_http_parse_header_line() of src/http/ngx_http_parse.c: one definition per case of its
  switch over the part of ngx_http_request_t it uses. The local variables hash and i are the
  fields header_hash and lowcase_index, which they are loaded from and stored to.
\<close>

section \<open>State\<close>

datatype hl_state = hsw_start | hsw_name | hsw_space_before_value | hsw_value
  | hsw_space_after_value | hsw_ignore_line | hsw_almost_done | hsw_header_almost_done

datatype hl_rc = HL_OK | NGX_HTTP_PARSE_HEADER_DONE | NGX_HTTP_PARSE_INVALID_HEADER

record header_in =
  hl_state :: hl_state
  hl_pos :: nat
  header_hash :: u64
  lowcase_index :: nat
  lowcase_header :: bytes
  invalid_header :: bool
  upstream :: bool
  header_name_start :: nat
  header_name_end :: nat
  header_start :: nat
  header_end :: nat

type_synonym hl_out = "(header_in, hl_rc \<times> header_in) outcome"

text \<open>NGX_HTTP_LC_HEADER_LEN and the macro ngx_hash of src/core/ngx_hash.h.\<close>

abbreviation NGX_HTTP_LC_HEADER_LEN :: nat where
  "NGX_HTTP_LC_HEADER_LEN \<equiv> 32"

definition ngx_hash :: "u64 \<Rightarrow> u_char \<Rightarrow> u64" where
  "ngx_hash key c = key * 31 + ucast c"

definition lowcase_table :: bytes where
  "lowcase_table =
     replicate 32 0
     @ replicate 13 0 @ bytes_of ''-'' @ replicate 2 0 @ bytes_of ''0123456789'' @ replicate 6 0
     @ [0] @ bytes_of ''abcdefghijklmnopqrstuvwxyz'' @ replicate 5 0
     @ [0] @ bytes_of ''abcdefghijklmnopqrstuvwxyz'' @ replicate 5 0
     @ replicate 128 0"

definition lowcase :: "u_char \<Rightarrow> u_char" where
  "lowcase c = lowcase_table ! unat c"

definition header_init :: "bool \<Rightarrow> nat \<Rightarrow> header_in" where
  "header_init ups p = \<lparr> hl_state = hsw_start, hl_pos = p, header_hash = 0, lowcase_index = 0,
     lowcase_header = replicate NGX_HTTP_LC_HEADER_LEN 0, invalid_header = False, upstream = ups,
     header_name_start = 0, header_name_end = 0, header_start = 0, header_end = 0 \<rparr>"

section \<open>The cases of the switch\<close>

definition hl_done :: "header_in \<Rightarrow> hl_out" where
  "hl_done r = Halt (HL_OK, r\<lparr>hl_pos := hl_pos r + 1, hl_state := hsw_start\<rparr>)"

definition hl_header_done :: "header_in \<Rightarrow> hl_out" where
  "hl_header_done r = Halt (NGX_HTTP_PARSE_HEADER_DONE, r\<lparr>hl_pos := hl_pos r + 1, hl_state := hsw_start\<rparr>)"

text \<open>\<open>hash = ngx_hash(0, c); r->lowcase_header[0] = c; i = 1\<close>.\<close>

definition hl_first :: "u_char \<Rightarrow> header_in \<Rightarrow> header_in" where
  "hl_first c r = r\<lparr>header_hash := ngx_hash 0 c, lowcase_header := (lowcase_header r)[0 := c],
     lowcase_index := 1\<rparr>"

text \<open>\<open>hash = ngx_hash(hash, c); r->lowcase_header[i++] = c; i &= NGX_HTTP_LC_HEADER_LEN - 1\<close>.\<close>

definition hl_next :: "u_char \<Rightarrow> header_in \<Rightarrow> header_in" where
  "hl_next c r = r\<lparr>header_hash := ngx_hash (header_hash r) c,
     lowcase_header := (lowcase_header r)[lowcase_index r := c],
     lowcase_index := (lowcase_index r + 1) mod NGX_HTTP_LC_HEADER_LEN\<rparr>"

definition hl_start :: "bool \<Rightarrow> header_in \<Rightarrow> u_char \<Rightarrow> hl_out" where
  "hl_start allow_underscores r ch0 =
     (let r = r\<lparr>header_name_start := hl_pos r, invalid_header := False\<rparr>
      in if ch0 = CR then Go (r\<lparr>header_end := hl_pos r, hl_state := hsw_header_almost_done\<rparr>)
         else if ch0 = LF then hl_header_done (r\<lparr>header_end := hl_pos r\<rparr>)
         else
           (let r = r\<lparr>hl_state := hsw_name\<rparr>; c = lowcase ch0
            in if c \<noteq> 0 then Go (hl_first c r)
               else if ch0 = ch CHR ''_'' then
                 (if allow_underscores then Go (hl_first ch0 r)
                  else Go (r\<lparr>invalid_header := True\<rparr>))
               else if ch0 = 0 then Halt (NGX_HTTP_PARSE_INVALID_HEADER, r)
               else Go (r\<lparr>invalid_header := True\<rparr>)))"

definition hl_name :: "bool \<Rightarrow> bytes \<Rightarrow> header_in \<Rightarrow> u_char \<Rightarrow> hl_out" where
  "hl_name allow_underscores buf r ch0 =
     (let c = lowcase ch0
      in if c \<noteq> 0 then Go (hl_next c r)
         else if ch0 = ch CHR ''_'' then
           (if allow_underscores then Go (hl_next ch0 r)
            else Go (r\<lparr>invalid_header := True\<rparr>))
         else if ch0 = ch CHR '':'' then
           Go (r\<lparr>header_name_end := hl_pos r, hl_state := hsw_space_before_value\<rparr>)
         else if ch0 = CR then
           Go (r\<lparr>header_name_end := hl_pos r, header_start := hl_pos r, header_end := hl_pos r,
                 hl_state := hsw_almost_done\<rparr>)
         else if ch0 = LF then
           hl_done (r\<lparr>header_name_end := hl_pos r, header_start := hl_pos r, header_end := hl_pos r\<rparr>)
         else if ch0 = ch CHR ''/'' \<and> upstream r \<and> hl_pos r - header_name_start r = 4
             \<and> take 4 (drop (header_name_start r) buf) = bytes_of ''HTTP'' then
           Go (r\<lparr>hl_state := hsw_ignore_line\<rparr>)
         else if ch0 = 0 then Halt (NGX_HTTP_PARSE_INVALID_HEADER, r)
         else Go (r\<lparr>invalid_header := True\<rparr>))"

definition hl_space_before_value :: "header_in \<Rightarrow> u_char \<Rightarrow> hl_out" where
  "hl_space_before_value r c =
     (if c = ch CHR '' '' then Go r
      else if c = CR then
        Go (r\<lparr>header_start := hl_pos r, header_end := hl_pos r, hl_state := hsw_almost_done\<rparr>)
      else if c = LF then hl_done (r\<lparr>header_start := hl_pos r, header_end := hl_pos r\<rparr>)
      else if c = 0 then Halt (NGX_HTTP_PARSE_INVALID_HEADER, r)
      else Go (r\<lparr>header_start := hl_pos r, hl_state := hsw_value\<rparr>))"

definition hl_value :: "header_in \<Rightarrow> u_char \<Rightarrow> hl_out" where
  "hl_value r c =
     (if c = ch CHR '' '' then Go (r\<lparr>header_end := hl_pos r, hl_state := hsw_space_after_value\<rparr>)
      else if c = CR then Go (r\<lparr>header_end := hl_pos r, hl_state := hsw_almost_done\<rparr>)
      else if c = LF then hl_done (r\<lparr>header_end := hl_pos r\<rparr>)
      else if c = 0 then Halt (NGX_HTTP_PARSE_INVALID_HEADER, r)
      else Go r)"

definition hl_space_after_value :: "header_in \<Rightarrow> u_char \<Rightarrow> hl_out" where
  "hl_space_after_value r c =
     (if c = ch CHR '' '' then Go r
      else if c = CR then Go (r\<lparr>hl_state := hsw_almost_done\<rparr>)
      else if c = LF then hl_done r
      else if c = 0 then Halt (NGX_HTTP_PARSE_INVALID_HEADER, r)
      else Go (r\<lparr>hl_state := hsw_value\<rparr>))"

definition hl_ignore_line :: "header_in \<Rightarrow> u_char \<Rightarrow> hl_out" where
  "hl_ignore_line r c = (if c = LF then Go (r\<lparr>hl_state := hsw_start\<rparr>) else Go r)"

definition hl_almost_done :: "header_in \<Rightarrow> u_char \<Rightarrow> hl_out" where
  "hl_almost_done r c =
     (if c = LF then hl_done r
      else if c = CR then Go r
      else Halt (NGX_HTTP_PARSE_INVALID_HEADER, r))"

definition hl_header_almost_done :: "header_in \<Rightarrow> u_char \<Rightarrow> hl_out" where
  "hl_header_almost_done r c =
     (if c = LF then hl_header_done r else Halt (NGX_HTTP_PARSE_INVALID_HEADER, r))"

section \<open>The loop\<close>

definition hl_case :: "bool \<Rightarrow> bytes \<Rightarrow> header_in \<Rightarrow> u_char \<Rightarrow> hl_out" where
  "hl_case allow_underscores buf r c =
     (case hl_state r of
        hsw_start \<Rightarrow> hl_start allow_underscores r c
      | hsw_name \<Rightarrow> hl_name allow_underscores buf r c
      | hsw_space_before_value \<Rightarrow> hl_space_before_value r c
      | hsw_value \<Rightarrow> hl_value r c
      | hsw_space_after_value \<Rightarrow> hl_space_after_value r c
      | hsw_ignore_line \<Rightarrow> hl_ignore_line r c
      | hsw_almost_done \<Rightarrow> hl_almost_done r c
      | hsw_header_almost_done \<Rightarrow> hl_header_almost_done r c)"

definition hl_step :: "bool \<Rightarrow> bytes \<Rightarrow> header_in \<Rightarrow> u_char \<Rightarrow> hl_out" where
  "hl_step allow_underscores buf r c =
     (case hl_case allow_underscores buf r c of
        Go r' \<Rightarrow> Go (r'\<lparr>hl_pos := hl_pos r' + 1\<rparr>) | Halt h \<Rightarrow> Halt h)"

definition ngx_http_parse_header_line ::
  "bool \<Rightarrow> header_in \<Rightarrow> bytes \<Rightarrow> (header_in, (hl_rc \<times> header_in) \<times> bytes) outcome" where
  "ngx_http_parse_header_line allow_underscores r buf =
     feed (hl_step allow_underscores buf) r (drop (hl_pos r) buf)"

lemmas hl_leaf_defs = hl_done_def hl_header_done_def hl_start_def hl_name_def
  hl_space_before_value_def hl_value_def hl_space_after_value_def hl_ignore_line_def
  hl_almost_done_def hl_header_almost_done_def hl_first_def hl_next_def

lemmas hl_defs = hl_step_def hl_case_def hl_leaf_defs Let_def

section \<open>Pointers and the lowercase buffer\<close>

text \<open>What ngx_http_process_request_headers relies on after NGX_OK: the name is not empty and
  comes before the value, and nothing was ever stored outside lowcase_header.\<close>

definition hl_inv :: "header_in \<Rightarrow> bool" where
  "hl_inv r \<longleftrightarrow> length (lowcase_header r) = 32 \<and> lowcase_index r < 32 \<and>
     (case hl_state r of
        hsw_start \<Rightarrow> True
      | hsw_name \<Rightarrow> header_name_start r < hl_pos r
      | hsw_space_before_value \<Rightarrow> header_name_start r < header_name_end r \<and> header_name_end r < hl_pos r
      | hsw_value \<Rightarrow> header_name_start r < header_name_end r \<and> header_name_end r < header_start r
          \<and> header_start r < hl_pos r
      | hsw_space_after_value \<Rightarrow> header_name_start r < header_name_end r
          \<and> header_name_end r < header_start r \<and> header_start r < header_end r \<and> header_end r < hl_pos r
      | hsw_ignore_line \<Rightarrow> True
      | hsw_almost_done \<Rightarrow> header_name_start r < header_name_end r
          \<and> header_name_end r \<le> header_start r \<and> header_start r \<le> header_end r \<and> header_end r < hl_pos r
      | hsw_header_almost_done \<Rightarrow> True)"

definition hl_post :: "hl_rc \<times> header_in \<Rightarrow> bool" where
  "hl_post = (\<lambda>(rc, r). length (lowcase_header r) = 32 \<and> lowcase_index r < 32 \<and>
     (rc = HL_OK \<longrightarrow> header_name_start r < header_name_end r
        \<and> header_name_end r \<le> header_start r \<and> header_start r \<le> header_end r
        \<and> header_end r < hl_pos r))"

interpretation hl: byte_machine "hl_step allow_underscores buf" hl_inv hl_post
  for allow_underscores buf
proof
  show "hl_inv r'" if "hl_inv r" "hl_step allow_underscores buf r c = Go r'" for r c r'
    using that
    by (cases "hl_state r") (auto simp: hl_defs hl_inv_def split: if_splits outcome.splits)
  show "hl_post h" if "hl_inv r" "hl_step allow_underscores buf r c = Halt h" for r c h
    using that
    by (cases "hl_state r")
      (auto simp: hl_defs hl_inv_def hl_post_def split: if_splits outcome.splits)
qed

text \<open>
  Whatever bytes arrive and however they are split, the parser never indexes
  r->lowcase_header outside its 32 bytes, and when it returns NGX_OK the name is not empty and
  the pointers name start < name end <= value start <= value end lie in this order, inside
  the data consumed.
\<close>
theorem ngx_http_parse_header_line_safe:
  assumes "hl_inv r"
  shows "case ngx_http_parse_header_line allow_underscores r buf of
      Go r' \<Rightarrow> hl_inv r'
    | Halt ((rc, r'), rest) \<Rightarrow> length (lowcase_header r') = 32 \<and> lowcase_index r' < 32 \<and>
        (rc = HL_OK \<longrightarrow> header_name_start r' < header_name_end r'
          \<and> header_name_end r' \<le> header_start r' \<and> header_start r' \<le> header_end r'
          \<and> header_end r' < hl_pos r')"
proof (cases "ngx_http_parse_header_line allow_underscores r buf")
  case (Go r')
  then show ?thesis
    using hl.feed_inv [OF assms] by (simp add: ngx_http_parse_header_line_def)
next
  case (Halt h)
  obtain rc r' rest where h: "h = ((rc, r'), rest)" by (cases h) auto
  have "hl_post (rc, r')"
    using hl.feed_post [OF assms] Halt h by (simp add: ngx_http_parse_header_line_def)
  then show ?thesis by (simp add: Halt h hl_post_def)
qed

theorem ngx_http_parse_header_line_safe_witness:
  "hl_inv (header_init False 0) \<and>
   (case ngx_http_parse_header_line True (header_init False 0) (bytes_of ''a:'') of
      Go r' \<Rightarrow> hl_inv r' | Halt h \<Rightarrow> False)"
proof -
  have inv: "hl_inv (header_init False 0)" by (simp add: hl_inv_def header_init_def)
  have "\<exists>r'. ngx_http_parse_header_line True (header_init False 0) (bytes_of ''a:'') = Go r'"
    by (simp add: ngx_http_parse_header_line_def header_init_def hl_defs lowcase_def lowcase_table_def)
  with ngx_http_parse_header_line_safe [OF inv, of True "bytes_of ''a:''"] inv
  show ?thesis by auto
qed

section \<open>What a well-formed header gives\<close>

text \<open>ngx_hash_key and ngx_hash_key_lc of src/core/ngx_hash.c.\<close>

definition ngx_hash_key :: "bytes \<Rightarrow> u64" where
  "ngx_hash_key data = foldl (\<lambda>key c. ngx_hash key c) 0 data"

definition ngx_hash_key_lc :: "bytes \<Rightarrow> u64" where
  "ngx_hash_key_lc data = foldl (\<lambda>key c. ngx_hash key (ngx_tolower c)) 0 data"

lemma ngx_hash_key_lc_lower: "ngx_hash_key_lc s = ngx_hash_key (map ngx_tolower s)"
  by (simp add: ngx_hash_key_lc_def ngx_hash_key_def foldl_map)

definition name_char :: "bool \<Rightarrow> u_char \<Rightarrow> bool" where
  "name_char allow_underscores c \<longleftrightarrow> lowcase c \<noteq> 0 \<or> (c = ch CHR ''_'' \<and> allow_underscores)"

definition value_char :: "u_char \<Rightarrow> bool" where
  "value_char c \<longleftrightarrow> c \<noteq> 0 \<and> c \<noteq> CR \<and> c \<noteq> LF"

lemma lowcase_table_bytes:
  "lowcase_table =
   [0, 0, 0, 0, 0, 0, 0, 0, 0, 0, 0, 0, 0, 0, 0, 0,
    0, 0, 0, 0, 0, 0, 0, 0, 0, 0, 0, 0, 0, 0, 0, 0,
    0, 0, 0, 0, 0, 0, 0, 0, 0, 0, 0, 0, 0, 45, 0, 0,
    48, 49, 50, 51, 52, 53, 54, 55, 56, 57, 0, 0, 0, 0, 0, 0,
    0, 97, 98, 99, 100, 101, 102, 103, 104, 105, 106, 107, 108, 109, 110, 111,
    112, 113, 114, 115, 116, 117, 118, 119, 120, 121, 122, 0, 0, 0, 0, 0,
    0, 97, 98, 99, 100, 101, 102, 103, 104, 105, 106, 107, 108, 109, 110, 111,
    112, 113, 114, 115, 116, 117, 118, 119, 120, 121, 122, 0, 0, 0, 0, 0,
    0, 0, 0, 0, 0, 0, 0, 0, 0, 0, 0, 0, 0, 0, 0, 0,
    0, 0, 0, 0, 0, 0, 0, 0, 0, 0, 0, 0, 0, 0, 0, 0,
    0, 0, 0, 0, 0, 0, 0, 0, 0, 0, 0, 0, 0, 0, 0, 0,
    0, 0, 0, 0, 0, 0, 0, 0, 0, 0, 0, 0, 0, 0, 0, 0,
    0, 0, 0, 0, 0, 0, 0, 0, 0, 0, 0, 0, 0, 0, 0, 0,
    0, 0, 0, 0, 0, 0, 0, 0, 0, 0, 0, 0, 0, 0, 0, 0,
    0, 0, 0, 0, 0, 0, 0, 0, 0, 0, 0, 0, 0, 0, 0, 0,
    0, 0, 0, 0, 0, 0, 0, 0, 0, 0, 0, 0, 0, 0, 0, 0]"
  by (simp add: lowcase_table_def numeral_eq_Suc)

definition low_char :: "u_char \<Rightarrow> u_char" where
  "low_char c = (if is_digit c \<or> c = ch CHR ''-'' \<or> (97 \<le> c \<and> c \<le> 122) \<or> (65 \<le> c \<and> c \<le> 90)
     then ngx_tolower c else 0)"

lemma lowcase_low_char: "lowcase c = low_char c"
  unfolding lowcase_def
  by (rule table_map) (simp add: all_bytes_list lowcase_table_bytes low_char_def ngx_tolower_def
      is_digit_def word_le_nat_alt)

lemma lowcase_tolower: "lowcase c \<noteq> 0 \<Longrightarrow> lowcase c = ngx_tolower c"
  by (simp add: lowcase_low_char low_char_def split: if_splits)

lemma lowcase_controls [simp]: "lowcase 13 = 0" "lowcase 10 = 0" "lowcase 0 = 0" "lowcase 58 = 0"
  "lowcase 95 = 0"
  by (simp_all add: lowcase_def lowcase_table_bytes)

lemma underscore_lower [simp]: "ngx_tolower 95 = 95"
  by (simp add: ngx_tolower_def)

lemma name_char_first:
  assumes "hl_state r = hsw_start" "name_char a c"
  shows "hl_step a buf r c = Go ((hl_first (ngx_tolower c) (r\<lparr>header_name_start := hl_pos r,
    invalid_header := False, hl_state := hsw_name\<rparr>))\<lparr>hl_pos := Suc (hl_pos r)\<rparr>)"
proof (cases "lowcase c \<noteq> 0")
  case True
  then have "c \<noteq> CR" "c \<noteq> LF" by auto
  with True assms lowcase_tolower [OF True] show ?thesis
    by (simp add: hl_step_def hl_case_def hl_start_def Let_def hl_first_def)
next
  case False
  with assms show ?thesis
    by (simp add: name_char_def hl_step_def hl_case_def hl_start_def Let_def hl_first_def)
qed

lemma name_char_next:
  assumes "hl_state r = hsw_name" "name_char a c"
  shows "hl_step a buf r c = Go ((hl_next (ngx_tolower c) r)\<lparr>hl_pos := Suc (hl_pos r)\<rparr>)"
proof (cases "lowcase c \<noteq> 0")
  case True
  with assms lowcase_tolower [OF True] show ?thesis
    by (simp add: hl_step_def hl_case_def hl_name_def Let_def hl_next_def)
next
  case False
  with assms show ?thesis
    by (simp add: name_char_def hl_step_def hl_case_def hl_name_def Let_def hl_next_def)
qed

text \<open>The name seen so far: its hash, its lowercase copy, its length.\<close>

definition name_so_far :: "bytes \<Rightarrow> header_in \<Rightarrow> bool" where
  "name_so_far s r \<longleftrightarrow> header_hash r = ngx_hash_key_lc s \<and> lowcase_index r = length s
     \<and> take (length s) (lowcase_header r) = map ngx_tolower s \<and> length (lowcase_header r) = 32
     \<and> \<not> invalid_header r"

lemma feed_name:
  "\<lbrakk>hl_state r = hsw_name; list_all (name_char a) cs; name_so_far s r; length (s @ cs) < 32\<rbrakk>
   \<Longrightarrow> \<exists>r'. feed (hl_step a buf) r cs = Go r' \<and> hl_state r' = hsw_name \<and> name_so_far (s @ cs) r'
      \<and> header_name_start r' = header_name_start r \<and> hl_pos r' = hl_pos r + length cs"
proof (induction cs arbitrary: r s)
  case Nil
  then show ?case by simp
next
  case (Cons c cs)
  let ?r = "(hl_next (ngx_tolower c) r)\<lparr>hl_pos := Suc (hl_pos r)\<rparr>"
  have step: "hl_step a buf r c = Go ?r" using name_char_next Cons.prems by simp
  have "name_so_far (s @ [c]) ?r"
    using Cons.prems(3,4)
    by (simp add: name_so_far_def hl_next_def ngx_hash_key_lc_def take_Suc_conv_app_nth)
  from Cons.IH [of ?r, OF _ _ this] Cons.prems obtain r' where
    "feed (hl_step a buf) ?r cs = Go r'" "hl_state r' = hsw_name" "name_so_far (s @ c # cs) r'"
    "header_name_start r' = header_name_start r" "hl_pos r' = hl_pos r + length (c # cs)"
    by (auto simp: hl_next_def)
  with step show ?case by (intro exI [of _ r']) simp
qed

definition same_name :: "header_in \<Rightarrow> header_in \<Rightarrow> bool" where
  "same_name r r' \<longleftrightarrow> header_hash r' = header_hash r \<and> lowcase_index r' = lowcase_index r
     \<and> lowcase_header r' = lowcase_header r \<and> invalid_header r' = invalid_header r
     \<and> header_name_start r' = header_name_start r \<and> header_name_end r' = header_name_end r"

lemma feed_spaces_before:
  "hl_state r = hsw_space_before_value
   \<Longrightarrow> feed (hl_step a buf) r (replicate k SP) = Go (r\<lparr>hl_pos := hl_pos r + k\<rparr>)"
  by (induction k arbitrary: r) (simp_all add: hl_step_def hl_case_def hl_space_before_value_def)

lemma feed_spaces_after:
  "hl_state r = hsw_space_after_value
   \<Longrightarrow> feed (hl_step a buf) r (replicate k SP) = Go (r\<lparr>hl_pos := hl_pos r + k\<rparr>)"
  by (induction k arbitrary: r) (simp_all add: hl_step_def hl_case_def hl_space_after_value_def)

lemma value_step:
  assumes "hl_state r = hsw_value \<or> hl_state r = hsw_space_after_value" "value_char c"
  shows "\<exists>r'. hl_step a buf r c = Go r' \<and> same_name r r' \<and> header_start r' = header_start r
    \<and> hl_pos r' = Suc (hl_pos r) \<and> hl_state r' \<in> {hsw_value, hsw_space_after_value}
    \<and> (c \<noteq> SP \<longrightarrow> hl_state r' = hsw_value)"
  using assms(1)
  by (elim disjE; cases "c = SP")
    (use assms(2) in \<open>simp_all add: hl_step_def hl_case_def hl_value_def
      hl_space_after_value_def value_char_def same_name_def\<close>)

lemma feed_value_bytes:
  "\<lbrakk>hl_state r = hsw_value; list_all value_char v\<rbrakk>
   \<Longrightarrow> \<exists>r'. feed (hl_step a buf) r v = Go r' \<and> same_name r r' \<and> header_start r' = header_start r
     \<and> hl_pos r' = hl_pos r + length v \<and> hl_state r' \<in> {hsw_value, hsw_space_after_value}
     \<and> (v = [] \<or> last v \<noteq> SP \<longrightarrow> hl_state r' = hsw_value)"
proof (induction v rule: rev_induct)
  case Nil
  then show ?case by (simp add: same_name_def)
next
  case (snoc c v)
  then obtain r1 where r1: "feed (hl_step a buf) r v = Go r1" "same_name r r1"
    "header_start r1 = header_start r" "hl_pos r1 = hl_pos r + length v"
    "hl_state r1 = hsw_value \<or> hl_state r1 = hsw_space_after_value" by auto
  have "value_char c" using snoc.prems by simp
  then obtain r2 where "hl_step a buf r1 c = Go r2" "same_name r1 r2"
    "header_start r2 = header_start r1" "hl_pos r2 = Suc (hl_pos r1)"
    "hl_state r2 \<in> {hsw_value, hsw_space_after_value}" "c \<noteq> SP \<longrightarrow> hl_state r2 = hsw_value"
    using value_step [OF r1(5)] by blast
  with r1 show ?case by (simp add: feed_append same_name_def)
qed

text \<open>The end of the line after the value, with blanks before it.\<close>

lemma feed_value_end:
  assumes "hl_state r = hsw_value"
  shows "\<exists>r'. feed (hl_step a buf) r (replicate k SP @ CR # LF # rest) = Halt ((HL_OK, r'), rest)
    \<and> same_name r r' \<and> header_start r' = header_start r \<and> header_end r' = hl_pos r
    \<and> hl_state r' = hsw_start \<and> hl_pos r' = hl_pos r + k + 2"
proof (cases k)
  case 0
  with assms show ?thesis
    by (simp add: hl_step_def hl_case_def hl_value_def hl_almost_done_def hl_done_def same_name_def)
next
  case (Suc j)
  let ?r1 = "r\<lparr>header_end := hl_pos r, hl_state := hsw_space_after_value, hl_pos := hl_pos r + 1\<rparr>"
  have sp: "hl_step a buf r SP = Go ?r1"
    using assms by (simp add: hl_step_def hl_case_def hl_value_def)
  have "feed (hl_step a buf) ?r1 (replicate j SP) = Go (?r1\<lparr>hl_pos := hl_pos ?r1 + j\<rparr>)"
    by (rule feed_spaces_after) simp
  with sp have "feed (hl_step a buf) r (replicate k SP @ CR # LF # rest)
      = feed (hl_step a buf) (?r1\<lparr>hl_pos := hl_pos ?r1 + j\<rparr>) (CR # LF # rest)"
    by (simp only: Suc replicate.simps append_Cons feed.simps outcome.case feed_append)
  then show ?thesis
    by (simp add: hl_step_def [of a buf "_\<lparr>hl_pos := _\<rparr>"] hl_case_def hl_space_after_value_def hl_almost_done_def hl_done_def
        same_name_def Suc)
qed

lemma header_line_accepts:
  assumes "name \<noteq> []" "length name < 32" "list_all (name_char a) name"
    and "value \<noteq> []" "list_all value_char value" "hd value \<noteq> SP" "last value \<noteq> SP"
    and "hl_state r = hsw_start" "hl_pos r = length pre" "length (lowcase_header r) = 32"
    and buf: "buf = pre @ name @ ch CHR '':'' # replicate k SP @ value @ replicate j SP @ CR # LF # rest"
  shows "\<exists>r'. ngx_http_parse_header_line a r buf = Halt ((HL_OK, r'), rest)
    \<and> header_name_start r' = length pre \<and> header_name_end r' = length pre + length name
    \<and> header_start r' = length pre + length name + 1 + k
    \<and> header_end r' = header_start r' + length value
    \<and> header_hash r' = ngx_hash_key_lc name \<and> lowcase_index r' = length name
    \<and> take (length name) (lowcase_header r') = map ngx_tolower name \<and> \<not> invalid_header r'
    \<and> hl_state r' = hsw_start \<and> hl_pos r' + length rest = length buf \<and> length (lowcase_header r') = 32"
proof -
  obtain c cs where name: "name = c # cs" using assms(1) by (cases name) auto
  obtain v vs where val: "value = v # vs" using assms(4) by (cases "value") auto
  let ?r1 = "(hl_first (ngx_tolower c) (r\<lparr>header_name_start := hl_pos r,
    invalid_header := False, hl_state := hsw_name\<rparr>))\<lparr>hl_pos := Suc (hl_pos r)\<rparr>"
  have s1: "hl_step a buf r c = Go ?r1"
    using name_char_first assms(3,8) name by simp
  have "name_so_far [c] ?r1"
    using assms(10)
    by (cases "lowcase_header r") (simp_all add: name_so_far_def hl_first_def ngx_hash_key_lc_def)
  then obtain r2 where r2: "feed (hl_step a buf) ?r1 cs = Go r2" "hl_state r2 = hsw_name"
    "name_so_far name r2" "header_name_start r2 = length pre" "hl_pos r2 = length pre + length name"
    using feed_name [of ?r1 a cs "[c]" buf] assms(2,3,9) name
    by (auto simp: hl_first_def)
  let ?r3 = "r2\<lparr>header_name_end := hl_pos r2, hl_state := hsw_space_before_value, hl_pos := hl_pos r2 + 1\<rparr>"
  have s3: "hl_step a buf r2 (ch CHR '':'') = Go ?r3"
    using r2(2) by (simp add: hl_step_def hl_case_def hl_name_def)
  let ?r4 = "?r3\<lparr>hl_pos := hl_pos ?r3 + k\<rparr>"
  have s4: "feed (hl_step a buf) ?r3 (replicate k SP) = Go ?r4"
    by (rule feed_spaces_before) simp
  let ?r5 = "?r4\<lparr>header_start := hl_pos ?r4, hl_state := hsw_value, hl_pos := hl_pos ?r4 + 1\<rparr>"
  have s5: "hl_step a buf ?r4 v = Go ?r5"
    using assms(5,6) val
    by (auto simp: hl_step_def hl_case_def hl_space_before_value_def value_char_def)
  obtain r6 where r6: "feed (hl_step a buf) ?r5 vs = Go r6" "same_name ?r5 r6"
    "header_start r6 = hl_pos ?r4" "hl_pos r6 = hl_pos ?r4 + length value" "hl_state r6 = hsw_value"
    using feed_value_bytes [of ?r5 vs a buf] assms(5,7) val by auto
  obtain r7 where r7: "feed (hl_step a buf) r6 (replicate j SP @ CR # LF # rest) = Halt ((HL_OK, r7), rest)"
    "same_name r6 r7" "header_start r7 = header_start r6" "header_end r7 = hl_pos r6"
    "hl_state r7 = hsw_start" "hl_pos r7 = hl_pos r6 + j + 2"
    using feed_value_end [OF r6(5)] by blast
  have "drop (hl_pos r) buf = (c # cs) @ (ch CHR '':'' # replicate k SP) @ (v # vs)
      @ replicate j SP @ CR # LF # rest"
    using assms(9) by (simp add: buf name val)
  then have "ngx_http_parse_header_line a r buf = Halt ((HL_OK, r7), rest)"
    using s1 r2(1) s3 s4 s5 r6(1) r7(1)
    by (simp only: ngx_http_parse_header_line_def feed_append feed.simps append_Cons outcome.case)
  then show ?thesis
    using r2 r6 r7 by (intro exI [of _ r7]) (simp add: same_name_def name_so_far_def buf)
qed

text \<open>
  A well-formed header line, a name of 1 to 31 characters, a colon, blanks, a value that
  neither starts nor ends with a blank, blanks and CR LF, is accepted wherever it stands in
  the buffer: the name and the value are delimited exactly, without the blanks around the
  value, the hash is that of the lowercase name, and r->lowcase_header holds that name.
\<close>
theorem ngx_http_parse_header_line_accepts:
  assumes "name \<noteq> []" "length name < 32" "list_all (name_char a) name"
    and "value \<noteq> []" "list_all value_char value" "hd value \<noteq> SP" "last value \<noteq> SP"
    and "hl_state r = hsw_start" "hl_pos r = length pre" "length (lowcase_header r) = 32"
    and buf: "buf = pre @ name @ ch CHR '':'' # replicate k SP @ value @ replicate j SP @ CR # LF # rest"
  shows "\<exists>r'. ngx_http_parse_header_line a r buf = Halt ((HL_OK, r'), rest)
    \<and> header_name_start r' = length pre \<and> header_name_end r' = length pre + length name
    \<and> header_start r' = length pre + length name + 1 + k
    \<and> header_end r' = header_start r' + length value
    \<and> header_hash r' = ngx_hash_key_lc name \<and> lowcase_index r' = length name
    \<and> take (length name) (lowcase_header r') = map ngx_tolower name \<and> \<not> invalid_header r'
    \<and> hl_state r' = hsw_start \<and> hl_pos r' + length rest = length buf \<and> length (lowcase_header r') = 32"
  using assms by (rule header_line_accepts)

theorem ngx_http_parse_header_line_accepts_witness:
  "\<exists>r'. ngx_http_parse_header_line False (header_init False 0)
      (bytes_of ''Host:  a '' @ [CR, LF]) = Halt ((HL_OK, r'), []) \<and> header_start r' = 7"
proof -
  have name: "list_all (name_char False) (bytes_of ''Host'')"
    by (simp add: name_char_def lowcase_low_char low_char_def is_digit_def ngx_tolower_def)
  have buf: "bytes_of ''Host:  a '' @ [CR, LF] = [] @ bytes_of ''Host'' @ ch CHR '':''
      # replicate 2 SP @ bytes_of ''a'' @ replicate 1 SP @ CR # LF # []"
    by (simp add: numeral_2_eq_2)
  have "\<exists>r'. ngx_http_parse_header_line False (header_init False 0)
      (bytes_of ''Host:  a '' @ [CR, LF]) = Halt ((HL_OK, r'), [])
    \<and> header_start r' = length ([] :: bytes) + length (bytes_of ''Host'') + 1 + 2"
    using ngx_http_parse_header_line_accepts [OF _ _ name _ _ _ _ _ _ _ buf, of "header_init False 0"]
    by (fastforce simp: header_init_def value_char_def)
  then show ?thesis by (simp add: eval_nat_numeral)
qed

text \<open>
  A name whose first character is not allowed leaves hash and i as the previous header left
  them. After a one-letter name, \<open>!ost\<close> gets the hash and the lowercase copy of \<open>host\<close>,
  with r->lowcase_index equal to its length: when invalid headers are not ignored it is taken
  for Host.
\<close>

definition stale_buf :: bytes where
  "stale_buf = bytes_of ''h:1'' @ [LF] @ bytes_of ''!ost:2'' @ [LF]"

theorem ngx_http_parse_header_line_stale:
  "case ngx_http_parse_header_line False (header_init False 0) stale_buf of
     Halt ((HL_OK, r1), rest) \<Rightarrow>
       (case ngx_http_parse_header_line False r1 stale_buf of
          Halt ((HL_OK, r2), rest') \<Rightarrow> rest' = []
            \<and> take 4 (drop (header_name_start r2) stale_buf) = bytes_of ''!ost''
            \<and> header_name_end r2 - header_name_start r2 = 4 \<and> lowcase_index r2 = 4
            \<and> take 4 (lowcase_header r2) = bytes_of ''host''
            \<and> header_hash r2 = ngx_hash_key (bytes_of ''host'')
        | _ \<Rightarrow> False)
   | _ \<Rightarrow> False"
  by code_simp

end
