(* ===== verification/Http_Range.thy ===== *)
theory Http_Range
  imports Ngx_Strings Ngx_Num
begin

text \<open>
  Byte ranges, src/http/modules/ngx_http_range_filter_module.c: the parsing of the Range header
  (ngx_http_range_parse) of a main request. The header value is a C string, the end of the list
  stands for its NUL. off_t values are integers; the one addition that can exceed 64 bits,
  \<open>size += end - start\<close>, wraps as it does on the target machines.
\<close>

section \<open>The Range header\<close>

definition wrap64 :: "int \<Rightarrow> int" where
  "wrap64 x = (x + 2 ^ 63) mod 2 ^ 64 - 2 ^ 63"

text \<open>\<open>while (*p == ' ') { p++; }\<close>.\<close>

abbreviation skip_spaces :: "bytes \<Rightarrow> bytes" where
  "skip_spaces \<equiv> dropWhile (\<lambda>c. c = SP)"

text \<open>The loop over the digits, with its cutoff test; \<open>None\<close> is NGX_HTTP_RANGE_NOT_SATISFIABLE.\<close>

fun range_number :: "int \<Rightarrow> bytes \<Rightarrow> (int \<times> bytes) option" where
  "range_number v [] = Some (v, [])"
| "range_number v (c # p) =
     (if is_digit c then
        (if v \<ge> NGX_MAX_OFF_T_VALUE div 10
            \<and> (v > NGX_MAX_OFF_T_VALUE div 10 \<or> dval c > NGX_MAX_OFF_T_VALUE mod 10) then None
         else range_number (v * 10 + dval c) p)
      else Some (v, c # p))"

text \<open>The last byte position, up to the label \<open>found\<close>.\<close>

definition range_last :: "int \<Rightarrow> bool \<Rightarrow> int \<Rightarrow> bytes \<Rightarrow> (int \<times> int \<times> bytes) option" where
  "range_last content_length suffix start p =
     (if \<not> is_digit (chd p) then None
      else
        (case range_number 0 p of
           None \<Rightarrow> None
         | Some (e, p) \<Rightarrow>
             (let p = skip_spaces p
              in if chd p \<noteq> ch CHR '','' \<and> chd p \<noteq> 0 then None
                 else
                   (let start = (if suffix then content_length - e else start);
                        e = (if suffix then content_length - 1 else e);
                        e = (if e \<ge> content_length then content_length else e + 1)
                    in Some (start, e, p)))))"

text \<open>One range: \<open>start\<close>, \<open>end\<close> and the rest of the header.\<close>

definition range_spec :: "int \<Rightarrow> bytes \<Rightarrow> (int \<times> int \<times> bytes) option" where
  "range_spec content_length p =
     (let p = skip_spaces p
      in if chd p = ch CHR ''-'' then range_last content_length True 0 (tl p)
         else if \<not> is_digit (chd p) then None
         else
           (case range_number 0 p of
              None \<Rightarrow> None
            | Some (start, p) \<Rightarrow>
                (let p = skip_spaces p
                 in if chd p \<noteq> ch CHR ''-'' then None
                    else
                      (let p = skip_spaces (tl p)
                       in if chd p = ch CHR '','' \<or> chd p = 0 then Some (start, content_length, p)
                          else range_last content_length False start p))))"

datatype range_rc = Range_ok | Range_declined | Range_not_satisfiable

lemma range_number_length: "range_number v p = Some (v', p') \<Longrightarrow> length p' \<le> length p"
  by (induction v p rule: range_number.induct) (auto split: if_splits)

lemma skip_spaces_length: "length (skip_spaces p) \<le> length p"
  by (rule length_dropWhile_le)

lemma range_last_length: "range_last n sfx start p = Some (s, e, p') \<Longrightarrow> length p' \<le> length p"
  using skip_spaces_length
  by (auto simp: range_last_def Let_def split: if_splits option.splits dest!: range_number_length)
    (meson le_trans)+

lemma range_spec_length:
  assumes "range_spec n p = Some (s, e, p')"
  shows "length p' \<le> length p"
proof -
  let ?p = "skip_spaces p"
  have sp: "length ?p \<le> length p" by (rule skip_spaces_length)
  have tl: "length (tl q) \<le> length q" for q :: bytes by simp
  show ?thesis
  proof (cases "chd ?p = ch CHR ''-''")
    case True
    with assms have "range_last n True 0 (tl ?p) = Some (s, e, p')" by (simp add: range_spec_def)
    with range_last_length [OF this] sp tl [of ?p] show ?thesis by linarith
  next
    case False
    with assms obtain st q where q: "range_number 0 ?p = Some (st, q)"
      by (auto simp: range_spec_def Let_def split: if_splits option.splits)
    let ?q = "skip_spaces (tl (skip_spaces q))"
    have "length ?q \<le> length p"
      using range_number_length [OF q] sp skip_spaces_length [of q] tl [of "skip_spaces q"]
        skip_spaces_length [of "tl (skip_spaces q)"] by linarith
    moreover have "length p' \<le> length ?q"
      using assms False q
      by (auto simp: range_spec_def Let_def split: if_splits dest: range_last_length)
    ultimately show ?thesis by linarith
  qed
qed

text \<open>The \<open>for (;;)\<close> loop, with the ranges found and their total size.\<close>

function range_loop :: "int \<Rightarrow> nat \<Rightarrow> int \<Rightarrow> (int \<times> int) list \<Rightarrow> bytes \<Rightarrow> range_rc \<times> (int \<times> int) list" where
  "range_loop content_length ranges sz found p =
     (case range_spec content_length p of
        None \<Rightarrow> (Range_not_satisfiable, found)
      | Some (start, e, p') \<Rightarrow>
          (if start < e \<and> ranges = 0 then (Range_declined, found @ [(start, e)])
           else
             (let found' = (if start < e then found @ [(start, e)] else found);
                  sz' = (if start < e then wrap64 (sz + (e - start)) else sz);
                  ranges' = (if start < e then ranges - 1 else ranges)
              in if chd p' = ch CHR '','' then range_loop content_length ranges' sz' found' (tl p')
                 else if found' = [] then (Range_not_satisfiable, found')
                 else if sz' > content_length then (Range_declined, found')
                 else (Range_ok, found'))))"
  by pat_completeness auto
termination
proof (relation "measure (\<lambda>(_, _, _, _, p). length p)", simp)
  fix content_length :: int and ranges :: nat and sz :: int and found :: "(int \<times> int) list" and p x y start z e p'
  fix f' s' r'
  assume spec: "range_spec content_length p = Some x" "(start, y) = x" "(e, p') = y"
    and comma: "chd p' = ch CHR '',''"
  from spec have "length p' \<le> length p" using range_spec_length by blast
  moreover have "p' \<noteq> []" using comma by auto
  ultimately show "((content_length, r', s', f', tl p'), content_length, ranges, sz, found, p)
      \<in> measure (\<lambda>(_, _, _, _, p). length p)"
    by (cases p') auto
qed

declare range_loop.simps [simp del]

text \<open>
  ngx_http_range_parse() of a main request, for the value of the header after \<open>bytes=\<close> (its
  first six bytes are skipped).
\<close>

definition ngx_http_range_parse :: "bytes \<Rightarrow> int \<Rightarrow> nat \<Rightarrow> range_rc \<times> (int \<times> int) list" where
  "ngx_http_range_parse hdr content_length ranges = range_loop content_length ranges 0 [] (drop 6 hdr)"

section \<open>Bounds of the ranges\<close>

abbreviation (input) MAX_OFF_T :: int where "MAX_OFF_T \<equiv> 9223372036854775807"

lemma wrap64_id: "\<lbrakk>- (2 ^ 63) \<le> x; x < 2 ^ 63\<rbrakk> \<Longrightarrow> wrap64 x = x"
  by (simp add: wrap64_def mod_pos_pos_trivial)

lemma range_number_bounds:
  "\<lbrakk>range_number v p = Some (v', p'); 0 \<le> v; v \<le> MAX_OFF_T\<rbrakk> \<Longrightarrow> 0 \<le> v' \<and> v' \<le> MAX_OFF_T"
proof (induction v p rule: range_number.induct)
  case (2 v c p)
  show ?case
  proof (cases "is_digit c")
    case True
    with "2.prems"(1) have cut: "\<not> (v \<ge> MAX_OFF_T div 10 \<and> (v > MAX_OFF_T div 10 \<or> dval c > MAX_OFF_T mod 10))"
      by (auto split: if_splits)
    have d: "0 \<le> dval c" "dval c \<le> 9" using True by auto
    have "v * 10 + dval c \<le> MAX_OFF_T" using cut d by auto
    with "2.IH" [OF True cut] "2.prems" True d show ?thesis by (auto split: if_splits)
  qed (use "2.prems" in auto)
qed auto

lemma range_last_bounds:
  assumes "range_last n sfx start p = Some (s, e, p')" "0 \<le> n" "n \<le> MAX_OFF_T" "0 \<le> start" "s < e"
  shows "e \<le> n \<and> n - MAX_OFF_T \<le> s \<and> (0 \<le> s \<or> e = n)"
proof -
  from assms(1) obtain v q where v: "range_number 0 p = Some (v, q)"
    by (auto simp: range_last_def split: if_splits option.splits)
  from range_number_bounds [OF v] have "0 \<le> v" "v \<le> MAX_OFF_T" by simp_all
  moreover have "s = (if sfx then n - v else start)"
    "e = (let e = (if sfx then n - 1 else v) in if e \<ge> n then n else e + 1)"
    using assms(1) v by (auto simp: range_last_def Let_def split: if_splits)
  ultimately show ?thesis using assms(2-5) by (auto simp: Let_def split: if_splits)
qed

lemma range_spec_bounds:
  assumes "range_spec n p = Some (s, e, p')" "0 \<le> n" "n \<le> MAX_OFF_T" "s < e"
  shows "e \<le> n \<and> n - MAX_OFF_T \<le> s \<and> (0 \<le> s \<or> e = n)"
proof (cases "chd (skip_spaces p) = ch CHR ''-''")
  case True
  with assms show ?thesis by (auto simp: range_spec_def dest: range_last_bounds)
next
  case False
  with assms(1) obtain st q where q: "range_number 0 (skip_spaces p) = Some (st, q)"
    by (auto simp: range_spec_def Let_def split: if_splits option.splits)
  then have st: "0 \<le> st" using range_number_bounds by fastforce
  let ?q = "skip_spaces (tl (skip_spaces q))"
  from assms(1) False q consider "s = st" "e = n" | "range_last n False st ?q = Some (s, e, p')"
    by (auto simp: range_spec_def Let_def split: if_splits)
  then show ?thesis
  proof cases
    case 1
    with st assms show ?thesis by simp
  next
    case 2
    from range_last_bounds [OF this assms(2,3) st assms(4)] show ?thesis .
  qed
qed

text \<open>The sum of the sizes as the loop computes it.\<close>

definition range_sum :: "(int \<times> int) list \<Rightarrow> int" where
  "range_sum = foldl (\<lambda>z (s, e). wrap64 (z + (e - s))) 0"

definition range_good :: "int \<Rightarrow> int \<times> int \<Rightarrow> bool" where
  "range_good n = (\<lambda>(s, e). s < e \<and> e \<le> n \<and> n - MAX_OFF_T \<le> s \<and> (0 \<le> s \<or> e = n))"

lemma range_loop_sound:
  assumes "range_loop n ranges z found p = (Range_ok, rs)" "0 \<le> n" "n \<le> MAX_OFF_T"
    "list_all (range_good n) found" "z = range_sum found"
  shows "rs \<noteq> [] \<and> list_all (range_good n) rs \<and> length rs \<le> length found + ranges \<and> range_sum rs \<le> n"
  using assms
proof (induction n ranges z found p rule: range_loop.induct)
  case (1 n ranges z found p)
  from "1.prems"(1) obtain s e p' where spec: "range_spec n p = Some (s, e, p')"
    by (subst (asm) range_loop.simps) (auto split: option.splits)
  let ?found = "if s < e then found @ [(s, e)] else found"
  let ?z = "if s < e then wrap64 (z + (e - s)) else z"
  let ?ranges = "if s < e then ranges - 1 else ranges"
  have go: "\<not> (s < e \<and> ranges = 0)"
    using "1.prems"(1) spec by (subst (asm) range_loop.simps) (auto split: if_splits)
  have good: "list_all (range_good n) ?found" "?z = range_sum ?found"
    using "1.prems" range_spec_bounds [OF spec] by (auto simp: range_good_def range_sum_def)
  have len: "length ?found + ?ranges \<le> length found + ranges" using go by auto
  show ?case
  proof (cases "chd p' = ch CHR '',''")
    case True
    have "range_loop n ranges z found p = range_loop n ?ranges ?z ?found (tl p')"
      using spec go True by (subst range_loop.simps) (auto simp: Let_def)
    with "1.prems" have "range_loop n ?ranges ?z ?found (tl p') = (Range_ok, rs)" by simp
    from "1.IH" [OF spec refl refl go refl refl refl True this "1.prems"(2,3) good] len show ?thesis by linarith
  next
    case False
    then have "range_loop n ranges z found p = (if ?found = [] then (Range_not_satisfiable, ?found)
        else if ?z > n then (Range_declined, ?found) else (Range_ok, ?found))"
      using spec go by (subst range_loop.simps) (auto simp: Let_def)
    with "1.prems"(1) have "rs = ?found" "?found \<noteq> []" "?z \<le> n" by (auto split: if_splits)
    with good len show ?thesis by auto
  qed
qed


lemma range_total_nonneg: "list_all (\<lambda>(s, e). s < e) rs \<Longrightarrow> 0 \<le> (\<Sum>(s, e) \<leftarrow> rs. e - s :: int)"
  by (intro sum_list_nonneg) (auto simp: list_all_iff)

lemma range_sum_exact:
  assumes "list_all (\<lambda>(s, e). s < e) rs" "(\<Sum>(s, e) \<leftarrow> rs. e - s) \<le> MAX_OFF_T"
  shows "range_sum rs = (\<Sum>(s, e) \<leftarrow> rs. e - s)"
  using assms
proof (induction rs rule: rev_induct)
  case Nil
  then show ?case by (simp add: range_sum_def)
next
  case (snoc x rs)
  obtain s e where x: "x = (s, e)" by fastforce
  have "0 \<le> (\<Sum>(s, e) \<leftarrow> rs. e - s)"
    using snoc.prems by (intro range_total_nonneg) simp
  with snoc x show ?case by (auto simp: range_sum_def wrap64_id)
qed

lemma range_le_total:
  "\<lbrakk>list_all (\<lambda>(s, e). s < e) rs; (s, e) \<in> set rs\<rbrakk> \<Longrightarrow> e - s \<le> (\<Sum>(s, e) \<leftarrow> rs. e - s :: int)"
  using range_total_nonneg by (induction rs) fastforce+

text \<open>
  C15. When the Range header is accepted there are between one and max_ranges ranges, each is
  not empty and ends within the content; and they all start within the content too, if
  there is only one range or the total of their lengths does not exceed off_t.
\<close>

theorem ngx_http_range_parse_safe:
  assumes "0 \<le> n" "n \<le> 9223372036854775807" "ngx_http_range_parse hdr n max_ranges = (Range_ok, rs)"
  shows "rs \<noteq> [] \<and> length rs \<le> max_ranges \<and> (\<forall>(s, e) \<in> set rs. s < e \<and> e \<le> n) \<and>
    (length rs = 1 \<or> (\<Sum>(s, e) \<leftarrow> rs. e - s) \<le> 9223372036854775807
      \<longrightarrow> (\<forall>(s, e) \<in> set rs. 0 \<le> s))"
proof -
  from range_loop_sound [of n max_ranges 0 "[]" "drop 6 hdr" rs] assms
  have *: "rs \<noteq> []" "list_all (range_good n) rs" "length rs \<le> max_ranges" "range_sum rs \<le> n"
    by (simp_all add: ngx_http_range_parse_def range_sum_def)
  have lt: "list_all (\<lambda>(s, e). s < e) rs" using *(2) by (auto simp: list_all_iff range_good_def)
  have start: "0 \<le> s" if "length rs = 1 \<or> (\<Sum>(s, e) \<leftarrow> rs. e - s) \<le> MAX_OFF_T" "(s, e) \<in> set rs" for s e
  proof (rule ccontr)
    assume neg: "\<not> 0 \<le> s"
    have g: "s < e" "e = n" "n - MAX_OFF_T \<le> s" using *(2) that(2) neg by (auto simp: list_all_iff range_good_def)
    have "(\<Sum>(s, e) \<leftarrow> rs. e - s) \<le> MAX_OFF_T"
      using that g by (cases rs) auto
    then have sum: "(\<Sum>(s, e) \<leftarrow> rs. e - s) \<le> n"
      using range_sum_exact [OF lt] *(4) by simp
    have "e - s \<le> (\<Sum>(s, e) \<leftarrow> rs. e - s)"
      using lt that(2) by (rule range_le_total)
    with sum g neg show False by simp
  qed
  then show ?thesis using * by (auto simp: list_all_iff range_good_def)
qed

theorem ngx_http_range_parse_safe_witness:
  "\<exists>rs. ngx_http_range_parse (bytes_of ''bytes=0-4, -10'') 100 5 = (Range_ok, rs) \<and> (\<forall>(s, e) \<in> set rs. 0 \<le> s \<and> e \<le> 100)"
proof -
  have run: "ngx_http_range_parse (bytes_of ''bytes=0-4, -10'') 100 5 = (Range_ok, [(0, 5), (90, 100)])"
    by (simp add: ngx_http_range_parse_def range_loop.simps range_spec_def range_last_def byte_class wrap64_def)
  with ngx_http_range_parse_safe [OF _ _ run] show ?thesis by auto
qed

text \<open>
  The overflow of \<open>size\<close> (CVE-2017-7529): two suffix ranges longer than the content, whose sizes
  add up to \<open>2 ^ 63\<close>, are accepted with ranges that start before the content.
\<close>

lemma ngx_http_range_parse_overflow:
  "ngx_http_range_parse (bytes_of ''bytes=-700,-9223372036854775108'') 100 5
    = (Range_ok, [(-600, 100), (-9223372036854775008, 100)])"
  by (simp add: ngx_http_range_parse_def range_loop.simps range_spec_def range_last_def byte_class wrap64_def)


section \<open>What the header means\<close>

text \<open>The byte-range-specs of the standard, with their digits, and the ranges they stand for.\<close>

datatype range_text = Range_first_last bytes bytes | Range_from bytes | Range_suffix bytes

definition off_digits :: "bytes \<Rightarrow> bool" where
  "off_digits ds \<longleftrightarrow> ds \<noteq> [] \<and> list_all is_digit ds \<and> dec_val ds \<le> MAX_OFF_T"

fun range_text_ok :: "range_text \<Rightarrow> bool" where
  "range_text_ok (Range_first_last a b) \<longleftrightarrow> off_digits a \<and> off_digits b"
| "range_text_ok (Range_from a) \<longleftrightarrow> off_digits a"
| "range_text_ok (Range_suffix b) \<longleftrightarrow> off_digits b"

fun range_text_bytes :: "range_text \<Rightarrow> bytes" where
  "range_text_bytes (Range_first_last a b) = a @ ch CHR ''-'' # b"
| "range_text_bytes (Range_from a) = a @ [ch CHR ''-'']"
| "range_text_bytes (Range_suffix b) = ch CHR ''-'' # b"

fun range_of_text :: "int \<Rightarrow> range_text \<Rightarrow> int \<times> int" where
  "range_of_text n (Range_first_last a b) = (dec_val a, min n (dec_val b + 1))"
| "range_of_text n (Range_from a) = (dec_val a, n)"
| "range_of_text n (Range_suffix b) = (n - dec_val b, n)"

fun range_header :: "range_text list \<Rightarrow> bytes" where
  "range_header [] = []"
| "range_header [t] = range_text_bytes t"
| "range_header (t # ts) = range_text_bytes t @ ch CHR '','' # range_header ts"

lemma range_number_digits:
  assumes "list_all is_digit ds" "0 \<le> v" "v * 10 ^ length ds + dec_val ds \<le> MAX_OFF_T"
    "\<not> is_digit (chd p)"
  shows "range_number v (ds @ p) = Some (v * 10 ^ length ds + dec_val ds, p)"
  using assms(1-3)
proof (induction ds arbitrary: v)
  case Nil
  with assms(4) show ?case by (cases p) auto
next
  case (Cons c ds)
  have c: "is_digit c" "0 \<le> dval c" "dval c \<le> 9" using Cons.prems(1) by auto
  have tail: "0 \<le> dec_val ds" using Cons.prems(1) by (simp add: dec_val_nonneg)
  have val: "v * 10 ^ length (c # ds) + dec_val (c # ds) = (v * 10 + dval c) * 10 ^ length ds + dec_val ds"
    by (simp add: num_val_Cons algebra_simps)
  have pow: "v * 10 + dval c \<le> (v * 10 + dval c) * 10 ^ length ds"
    using Cons.prems(2) c by (simp add: mult_le_cancel_left1)
  then have "\<not> MAX_OFF_T < v * 10 + dval c" using val tail Cons.prems(3) by linarith
  then have cut: "\<not> (MAX_OFF_T div 10 \<le> v \<and> (MAX_OFF_T div 10 < v \<or> MAX_OFF_T mod 10 < dval c))"
    unfolding cutoff_test [OF c(2,3)] .
  have "range_number (v * 10 + dval c) (ds @ p) = Some ((v * 10 + dval c) * 10 ^ length ds + dec_val ds, p)"
    using Cons.prems c val by (intro Cons.IH) auto
  moreover have "range_number v ((c # ds) @ p) = range_number (v * 10 + dval c) (ds @ p)"
    using c(1) cut by auto
  ultimately show ?case using val by simp
qed

lemma digits_start: "off_digits ds \<Longrightarrow> is_digit (chd (ds @ p)) \<and> skip_spaces (ds @ p) = ds @ p"
  by (cases ds) (auto simp: off_digits_def byte_class)

lemma range_last_digits:
  assumes "off_digits b" "p = [] \<or> hd p = ch CHR '',''"
  shows "range_last n sfx start (b @ p)
    = Some (if sfx then n - dec_val b else start, if sfx then n else min n (dec_val b + 1), p)"
proof -
  have p: "\<not> is_digit (chd p)" "skip_spaces p = p" "chd p = ch CHR '','' \<or> chd p = 0"
    using assms(2) by (cases p; auto simp: byte_class)+
  have b: "list_all is_digit b" "dec_val b \<le> MAX_OFF_T" using assms(1) by (auto simp: off_digits_def)
  have "range_number 0 (b @ p) = Some (dec_val b, p)"
    using range_number_digits [OF b(1), of 0 p] b(2) p(1) by simp
  with digits_start [OF assms(1), of p] p show ?thesis by (auto simp: range_last_def Let_def min_def)
qed

lemma range_spec_text:
  assumes "range_text_ok t" "p = [] \<or> hd p = ch CHR '',''"
  shows "range_spec n (range_text_bytes t @ p) = Some (fst (range_of_text n t), snd (range_of_text n t), p)"
proof (cases t)
  case (Range_suffix b)
  with assms range_last_digits [of b p n True 0] show ?thesis by (simp add: range_spec_def)
next
  case (Range_first_last a b)
  then have a: "off_digits a" and b: "off_digits b" using assms by auto
  have "chd (a @ q) \<noteq> ch CHR ''-''" for q using digits_start [OF a, of q] by (auto simp: byte_class)
  moreover have "range_number 0 (a @ ch CHR ''-'' # b @ p) = Some (dec_val a, ch CHR ''-'' # b @ p)"
    using range_number_digits [of a 0 "ch CHR ''-'' # b @ p"] a by (auto simp: off_digits_def byte_class)
  moreover have "chd (b @ p) \<noteq> ch CHR '',''" "chd (b @ p) \<noteq> 0"
    using digits_start [OF b, of p] by (auto simp: byte_class)
  ultimately show ?thesis
    using digits_start [OF a] digits_start [OF b] range_last_digits [OF b assms(2), of n False]
    by (simp add: Range_first_last range_spec_def Let_def)
next
  case (Range_from a)
  then have a: "off_digits a" using assms by auto
  have "chd (a @ q) \<noteq> ch CHR ''-''" for q using digits_start [OF a, of q] by (auto simp: byte_class)
  moreover have "range_number 0 (a @ ch CHR ''-'' # p) = Some (dec_val a, ch CHR ''-'' # p)"
    using range_number_digits [of a 0 "ch CHR ''-'' # p"] a by (auto simp: off_digits_def byte_class)
  moreover have "skip_spaces p = p" "chd p = ch CHR '','' \<or> chd p = 0"
    using assms(2) by (cases p; auto)+
  ultimately show ?thesis
    using digits_start [OF a] by (simp add: Range_from range_spec_def Let_def)
qed

definition satisfiable :: "int \<Rightarrow> range_text list \<Rightarrow> (int \<times> int) list" where
  "satisfiable n ts = filter (\<lambda>(s, e). s < e) (map (range_of_text n) ts)"

lemma range_loop_header:
  assumes "ts \<noteq> []" "list_all range_text_ok ts" "length (satisfiable n ts) \<le> ranges" "z = range_sum found"
  shows "range_loop n ranges z found (range_header ts)
    = (if found @ satisfiable n ts = [] then Range_not_satisfiable
       else if range_sum (found @ satisfiable n ts) > n then Range_declined else Range_ok,
       found @ satisfiable n ts)"
  using assms
proof (induction ts arbitrary: ranges z found rule: range_header.induct)
  case 1
  then show ?case by simp
next
  case (2 t)
  obtain s e where t: "range_of_text n t = (s, e)" by fastforce
  have "range_spec n (range_text_bytes t) = Some (s, e, [])"
    using range_spec_text [of t "[]" n] 2 t by simp
  with 2 t show ?case
    by (subst range_loop.simps) (auto simp: satisfiable_def range_sum_def Let_def)
next
  case (3 t t2 ts)
  obtain s e where t: "range_of_text n t = (s, e)" by fastforce
  let ?rest = "range_header (t2 # ts)"
  have spec: "range_spec n (range_header (t # t2 # ts)) = Some (s, e, ch CHR '','' # ?rest)"
    using range_spec_text [of t "ch CHR '','' # ?rest" n] 3 t by simp
  let ?found = "if s < e then found @ [(s, e)] else found"
  have go: "\<not> (s < e \<and> ranges = 0)" using 3 t by (auto simp: satisfiable_def)
  have "range_loop n ranges z found (range_header (t # t2 # ts))
      = range_loop n (if s < e then ranges - 1 else ranges) (if s < e then wrap64 (z + (e - s)) else z) ?found ?rest"
    using spec go by (subst range_loop.simps) (auto simp: Let_def simp del: range_header.simps)
  also have "\<dots> = (if ?found @ satisfiable n (t2 # ts) = [] then Range_not_satisfiable
       else if range_sum (?found @ satisfiable n (t2 # ts)) > n then Range_declined else Range_ok,
       ?found @ satisfiable n (t2 # ts))"
    using 3 t by (intro "3.IH") (auto simp: satisfiable_def range_sum_def split: if_splits)
  also have "?found @ satisfiable n (t2 # ts) = found @ satisfiable n (t # t2 # ts)"
    using t by (simp add: satisfiable_def)
  finally show ?case .
qed

text \<open>
  C16. A Range header of byte-range-specs as the standard writes them (first-last, first-, -suffix), not more
  than max_ranges of them satisfiable, is parsed to exactly the ranges they mean, cut at the end of the content; it is
  not satisfiable exactly if none is, and the ranges are declined exactly if their sizes, as
  the code adds them up, exceed the content.
\<close>

theorem ngx_http_range_parse_header:
  assumes "ts \<noteq> []" "list_all range_text_ok ts" "length (satisfiable n ts) \<le> max_ranges"
  shows "ngx_http_range_parse (bytes_of ''bytes='' @ range_header ts) n max_ranges
    = (if satisfiable n ts = [] then Range_not_satisfiable
       else if range_sum (satisfiable n ts) > n then Range_declined else Range_ok, satisfiable n ts)"
  using range_loop_header [OF assms, of 0 "[]"] by (simp add: ngx_http_range_parse_def range_sum_def)

theorem ngx_http_range_parse_header_witness:
  "ngx_http_range_parse (bytes_of ''bytes=5-,0-0,-500'') 100 3
    = (Range_declined, [(5, 100), (0, 1), (-400, 100)])"
  using ngx_http_range_parse_header [of "[Range_from (bytes_of ''5''), Range_first_last (bytes_of ''0'') (bytes_of ''0''),
      Range_suffix (bytes_of ''500'')]" 100 3]
  by (simp add: off_digits_def byte_class num_val_Cons satisfiable_def range_sum_def wrap64_def)

end
