(* ===== verification/Ngx_Printf.thy ===== *)
theory Ngx_Printf
  imports Ngx_Num Complex_Main
begin

text \<open>
  The formatter of src/core/ngx_string.c: ngx_sprintf_num and ngx_vslprintf with its
  wrappers. The output buffer is the number of bytes left in it (\<open>last - buf\<close>), the
  result the bytes written at \<open>buf\<close>. A variable argument is a value of \<open>va\<close>; reading an
  argument of another kind, or past the end of the format, is undefined in C and \<open>None\<close>
  here, as is the cast of a double that is out of the range of the integer type. A double is the rational
  number that it stands for, each operation on doubles the exact one, rounded to 53 bits.
\<close>

section \<open>Numbers\<close>

text \<open>\<open>do { *--p = v % 10 + '0'; } while (v /= 10)\<close>: digits are written backwards.\<close>

fun dec_digits :: "nat \<Rightarrow> bytes \<Rightarrow> bytes" where
  "dec_digits v p =
     (let p' = (word_of_nat (v mod 10) + ch CHR ''0'') # p
      in if v div 10 = 0 then p' else dec_digits (v div 10) p')"

declare dec_digits.simps [simp del]

text \<open>\<open>do { *--p = hex[v & 0xf]; } while (v >>= 4)\<close> for either alphabet.\<close>

fun hex_digits :: "bytes \<Rightarrow> nat \<Rightarrow> bytes \<Rightarrow> bytes" where
  "hex_digits hex v p =
     (let p' = hex ! (v mod 16) # p
      in if v div 16 = 0 then p' else hex_digits hex (v div 16) p')"

declare hex_digits.simps [simp del]

definition HEX_chars :: bytes where
  "HEX_chars = bytes_of ''0123456789ABCDEF''"

definition sprintf_digits :: "u64 \<Rightarrow> nat \<Rightarrow> bytes" where
  "sprintf_digits ui64 hexadecimal =
     (if hexadecimal = 0 then
        (if ui64 \<le> 0xffffffff then dec_digits (unat (ucast ui64 :: u32)) []
         else dec_digits (unat ui64) [])
      else if hexadecimal = 1 then hex_digits hex_chars (unat ui64) []
      else hex_digits HEX_chars (unat ui64) [])"

text \<open>\<open>while (len++ < width && buf < last) *buf++ = zero;\<close> by recursion on the room left.\<close>

fun sprintf_pad :: "nat \<Rightarrow> nat \<Rightarrow> nat \<Rightarrow> u_char \<Rightarrow> bytes" where
  "sprintf_pad len width 0 zero = []"
| "sprintf_pad len width (Suc room) zero =
     (if len < width then zero # sprintf_pad (Suc len) width room zero else [])"

definition ngx_sprintf_num :: "nat \<Rightarrow> u64 \<Rightarrow> u_char \<Rightarrow> nat \<Rightarrow> nat \<Rightarrow> bytes" where
  "ngx_sprintf_num room ui64 zero hexadecimal width =
     (let p = sprintf_digits ui64 hexadecimal;
          pad = sprintf_pad (length p) width room zero;
          room' = room - length pad;
          len = (if length p > room' then room' else length p)
      in pad @ take len p)"

section \<open>Doubles\<close>

text \<open>
  IEEE 754 arithmetic as the compiler uses it for %f (binary64, round to nearest, ties to even): \<open>double_round\<close> is
  the double next to a rational number, whose exponent is found from the lengths of numerator and denominator.
  Only numbers far below the overflow to infinity are rounded here.
\<close>

fun bit_count :: "nat \<Rightarrow> nat" where
  "bit_count n = (if n = 0 then 0 else Suc (bit_count (n div 2)))"

declare bit_count.simps [simp del]

definition pow2 :: "int \<Rightarrow> rat" where
  "pow2 e = (if e \<ge> 0 then of_int (2 ^ nat e) else 1 / of_int (2 ^ nat (- e)))"

definition round_half_even :: "rat \<Rightarrow> int" where
  "round_half_even x =
     (let n = \<lfloor>x\<rfloor>; d = x - of_int n
      in if d < 1 / 2 \<or> d = 1 / 2 \<and> even n then n else n + 1)"

definition double_round :: "rat \<Rightarrow> rat" where
  "double_round x =
     (let (p, q) = quotient_of x;
          k = int (bit_count (nat \<bar>p\<bar>)) - int (bit_count (nat q));
          e = max (-1074) ((if pow2 k \<le> \<bar>x\<bar> then k else k - 1) - 52)
      in of_int (round_half_even (x / pow2 e)) * pow2 e)"

section \<open>The format interpreter\<close>

text \<open>
  The kinds of argument: a signed or unsigned integer of any C type (already widened to 64
  bits), an ngx_str_t, an ngx_variable_value_t, a null-terminated string (its bytes before
  the terminator) or a pointer to the bytes whose length \<open>*\<close> has read, and a finite double.
\<close>

datatype va = VI int | VU u64 | VStr bytes | VVar bytes | VCStr bytes | VF rat

record fmt_flags =
  fmt_zero :: u_char
  fmt_width :: nat
  fmt_sign :: bool
  fmt_hex :: nat
  fmt_max_width :: bool
  fmt_frac_width :: nat
  fmt_slen :: u64

definition fmt_init :: "bool \<Rightarrow> fmt_flags" where
  "fmt_init zero =
     \<lparr>fmt_zero = (if zero then ch CHR ''0'' else SP), fmt_width = 0, fmt_sign = True,
      fmt_hex = 0, fmt_max_width = False, fmt_frac_width = 0, fmt_slen = -1\<rparr>"

fun fmt_num :: "nat \<Rightarrow> bytes \<Rightarrow> nat \<times> bytes" where
  "fmt_num width [] = (width, [])"
| "fmt_num width (c # fmt) =
     (if is_digit c then fmt_num ((width * 10 + nat (dval c)) mod 18446744073709551616) fmt
      else (width, c # fmt))"

text \<open>\<open>for ( ;; ) switch (*fmt)\<close>: the modifiers; \<open>.\<close> ends them.\<close>

fun fmt_modifiers :: "fmt_flags \<Rightarrow> bytes \<Rightarrow> va list \<Rightarrow> (fmt_flags \<times> bytes \<times> va list) option" where
  "fmt_modifiers fl [] args = Some (fl, [], args)"
| "fmt_modifiers fl (c # fmt) args =
     (if c = ch CHR ''u'' then fmt_modifiers (fl\<lparr>fmt_sign := False\<rparr>) fmt args
      else if c = ch CHR ''m'' then fmt_modifiers (fl\<lparr>fmt_max_width := True\<rparr>) fmt args
      else if c = ch CHR ''X'' then fmt_modifiers (fl\<lparr>fmt_hex := 2, fmt_sign := False\<rparr>) fmt args
      else if c = ch CHR ''x'' then fmt_modifiers (fl\<lparr>fmt_hex := 1, fmt_sign := False\<rparr>) fmt args
      else if c = ch CHR ''.'' then
        (let (n, fmt') = fmt_num 0 fmt in Some (fl\<lparr>fmt_frac_width := n\<rparr>, fmt', args))
      else if c = ch CHR ''*'' then
        (case args of
           VU n # args' \<Rightarrow> fmt_modifiers (fl\<lparr>fmt_slen := n\<rparr>) fmt args'
         | _ \<Rightarrow> None)
      else Some (fl, c # fmt, args))"

text \<open>NGX_INT_T_LEN and NGX_ATOMIC_T_LEN: \<open>sizeof("-9223372036854775808") - 1\<close>.\<close>

abbreviation (input) NGX_INT64_LEN :: nat where "NGX_INT64_LEN \<equiv> 20"

text \<open>The integer conversions: the common tail after the \<open>switch\<close>.\<close>

definition vsl_signed :: "nat \<Rightarrow> fmt_flags \<Rightarrow> int \<Rightarrow> bytes" where
  "vsl_signed room fl i64 =
     (if i64 < 0
      then ch CHR ''-'' # ngx_sprintf_num (room - 1) (word_of_int (- i64)) (fmt_zero fl) (fmt_hex fl) (fmt_width fl)
      else ngx_sprintf_num room (word_of_int i64) (fmt_zero fl) (fmt_hex fl) (fmt_width fl))"

definition vsl_unsigned :: "nat \<Rightarrow> fmt_flags \<Rightarrow> u64 \<Rightarrow> bytes" where
  "vsl_unsigned room fl ui64 = ngx_sprintf_num room ui64 (fmt_zero fl) (fmt_hex fl) (fmt_width fl)"

definition vsl_int :: "nat \<Rightarrow> fmt_flags \<Rightarrow> va list \<Rightarrow> (bytes \<times> va list) option" where
  "vsl_int room fl args =
     (case args of
        VI i # args' \<Rightarrow> if fmt_sign fl then Some (vsl_signed room fl i, args') else None
      | VU u # args' \<Rightarrow> if fmt_sign fl then None else Some (vsl_unsigned room fl u, args')
      | _ \<Rightarrow> None)"

definition vsl_string :: "nat \<Rightarrow> fmt_flags \<Rightarrow> va list \<Rightarrow> (bytes \<times> va list) option" where
  "vsl_string room fl args =
     (case args of
        VCStr p # args' \<Rightarrow>
          if fmt_slen fl = -1 then Some (take room p, args')
          else if unat (fmt_slen fl) \<le> length p
               then Some (take (min room (unat (fmt_slen fl))) p, args')
               else None
      | _ \<Rightarrow> None)"

text \<open>
  \<open>case 'f'\<close>: the sign, the integer part and, if the format has a width for it, the fraction, which may
  round up to the next integer. \<open>(int64_t) f\<close> is undefined for \<open>2 ^ 63\<close> and more, the
  cast of the fraction, which a scale near \<open>2 ^ 64\<close> can round up, for \<open>2 ^ 64\<close>.
\<close>

definition vsl_fraction :: "rat \<Rightarrow> u64 \<Rightarrow> u64 \<Rightarrow> u64 option" where
  "vsl_fraction f ui64 scale =
     (let x = double_round (double_round (double_round (f - of_int (uint ui64)) * double_round (of_int (uint scale))) + 1 / 2)
      in if x < 18446744073709551616 then Some (word_of_int \<lfloor>x\<rfloor>) else None)"

text \<open>What is written: the sign, for which the caller has checked the room, the integer part, the point and the fraction.\<close>

definition vsl_float_text :: "nat \<Rightarrow> fmt_flags \<Rightarrow> bool \<Rightarrow> u64 \<Rightarrow> u64 \<Rightarrow> bytes" where
  "vsl_float_text room fl neg ui64 fr =
     (let sgn = (if neg then [ch CHR ''-''] else []);
          buf1 = sgn @ ngx_sprintf_num (room - length sgn) ui64 (fmt_zero fl) 0 (fmt_width fl);
          buf2 = buf1 @ (if length buf1 < room then [ch CHR ''.''] else [])
      in if fmt_frac_width fl = 0 then buf1
         else buf2 @ ngx_sprintf_num (room - length buf2) fr (ch CHR ''0'') 0 (fmt_frac_width fl))"

definition vsl_float :: "nat \<Rightarrow> fmt_flags \<Rightarrow> rat \<Rightarrow> bytes option" where
  "vsl_float room fl d =
     (let f = (if d < 0 then - d else d);
          ui64 = word_of_int \<lfloor>f\<rfloor> :: u64;
          scale = 10 ^ fmt_frac_width fl
      in if f \<ge> 9223372036854775808 then None
         else if fmt_frac_width fl = 0 then Some (vsl_float_text room fl (d < 0) ui64 0)
         else (case vsl_fraction f ui64 scale of
                 None \<Rightarrow> None
               | Some fr \<Rightarrow>
                   if fr = scale then Some (vsl_float_text room fl (d < 0) (ui64 + 1) 0)
                   else Some (vsl_float_text room fl (d < 0) ui64 fr)))"

text \<open>One conversion, with at least one byte of room; the letters of the \<open>switch\<close> in order.\<close>

definition vsl_conv :: "nat \<Rightarrow> fmt_flags \<Rightarrow> u_char \<Rightarrow> va list \<Rightarrow> (bytes \<times> va list) option" where
  "vsl_conv room fl c args =
     (if c = ch CHR ''V'' then
        (case args of VStr v # args' \<Rightarrow> Some (take (min room (length v)) v, args') | _ \<Rightarrow> None)
      else if c = ch CHR ''v'' then
        (case args of VVar v # args' \<Rightarrow> Some (take (min room (length v)) v, args') | _ \<Rightarrow> None)
      else if c = ch CHR ''s'' then vsl_string room fl args
      else if c \<in> {ch CHR ''O'', ch CHR ''P'', ch CHR ''T'', ch CHR ''r''} then
        vsl_int room (fl\<lparr>fmt_sign := True\<rparr>) args
      else if c = ch CHR ''M'' then
        (case args of
           VU ms # args' \<Rightarrow>
             if ms = -1 then Some (vsl_signed room fl (-1), args')
             else Some (vsl_unsigned room fl ms, args')
         | _ \<Rightarrow> None)
      else if c \<in> {ch CHR ''i'', ch CHR ''A''} then
        vsl_int room (if fmt_max_width fl then fl\<lparr>fmt_width := NGX_INT64_LEN\<rparr> else fl) args
      else if c \<in> {ch CHR ''z'', ch CHR ''d'', ch CHR ''l'', ch CHR ''D'', ch CHR ''L''} then
        vsl_int room fl args
      else if c = ch CHR ''f'' then
        (case args of VF d # args' \<Rightarrow> map_option (\<lambda>tx. (tx, args')) (vsl_float room fl d) | _ \<Rightarrow> None)
      else if c = ch CHR ''p'' then
        (case args of
           VU a # args' \<Rightarrow> Some (ngx_sprintf_num room a (ch CHR ''0'') 2 16, args')
         | _ \<Rightarrow> None)
      else if c = ch CHR ''c'' then
        (case args of VI d # args' \<Rightarrow> Some ([word_of_int d], args') | _ \<Rightarrow> None)
      else if c = ch CHR ''Z'' then Some ([0], args)
      else if c = ch CHR ''N'' then Some ([LF], args)
      else if c = ch CHR ''%'' then Some ([ch CHR ''%''], args)
      else Some ([c], args))"

text \<open>One \<open>%\<close> directive: the zero flag, the width, the modifiers and the conversion.\<close>

definition vsl_directive :: "nat \<Rightarrow> bytes \<Rightarrow> va list \<Rightarrow> (bytes \<times> bytes \<times> va list) option" where
  "vsl_directive room fmt args =
     (let fl = fmt_init (fmt \<noteq> [] \<and> hd fmt = ch CHR ''0'');
          (width, fmt1) = fmt_num 0 fmt
      in case fmt_modifiers (fl\<lparr>fmt_width := width\<rparr>) fmt1 args of
           None \<Rightarrow> None
         | Some (fl', fmt2, args') \<Rightarrow>
             (case fmt2 of
                [] \<Rightarrow> None
              | c # fmt3 \<Rightarrow>
                  (case vsl_conv room fl' c args' of
                     None \<Rightarrow> None
                   | Some (out, args'') \<Rightarrow> Some (out, fmt3, args''))))"

lemma fmt_num_length: "length (snd (fmt_num w fmt)) \<le> length fmt"
  by (induction w fmt rule: fmt_num.induct) auto

lemma fmt_modifiers_length:
  "fmt_modifiers fl fmt args = Some (fl', fmt', args') \<Longrightarrow> length fmt' \<le> length fmt"
proof (induction fl fmt args rule: fmt_modifiers.induct)
  case (2 fl c fmt args)
  consider "c = ch CHR ''u''" | "c = ch CHR ''m''" | "c = ch CHR ''X''" | "c = ch CHR ''x''"
    | (dot) "c = ch CHR ''.''" | (star) "c = ch CHR ''*''"
    | (other) "c \<notin> {ch CHR ''u'', ch CHR ''m'', ch CHR ''X'', ch CHR ''x'', ch CHR ''.'', ch CHR ''*''}"
    by blast
  then show ?case
  proof cases
    case dot
    with "2.prems" fmt_num_length [of 0 fmt] show ?thesis by (simp add: Let_def split: prod.splits)
  next
    case star
    with "2.prems" obtain n args' where "args = VU n # args'"
      by (simp split: list.splits va.splits)
    with star "2.prems" "2.IH"(5) [of "VU n" args' n] show ?thesis by simp
  next
    case other
    with "2.prems" show ?thesis by simp
  qed (use "2.prems" "2.IH" in simp)+
qed simp

lemma vsl_directive_length:
  assumes "vsl_directive room fmt args = Some (out, fmt', args')"
  shows "length fmt' < length fmt"
proof -
  obtain width fmt1 where num: "fmt_num 0 fmt = (width, fmt1)" by fastforce
  with assms obtain fl' c args1 where
    mods: "fmt_modifiers (fmt_init (fmt \<noteq> [] \<and> hd fmt = ch CHR ''0'')\<lparr>fmt_width := width\<rparr>) fmt1 args
      = Some (fl', c # fmt', args1)"
    by (auto simp: vsl_directive_def Let_def split: option.splits list.splits prod.splits)
  show ?thesis
    using fmt_num_length [of 0 fmt] fmt_modifiers_length [OF mods] num by simp
qed

text \<open>\<open>while (*fmt && buf < last)\<close>.\<close>

function ngx_vslprintf :: "nat \<Rightarrow> bytes \<Rightarrow> va list \<Rightarrow> bytes option" where
  "ngx_vslprintf room [] args = Some []"
| "ngx_vslprintf room (c # fmt) args =
     (if room = 0 then Some []
      else if c = ch CHR ''%'' then
        (case vsl_directive room fmt args of
           None \<Rightarrow> None
         | Some (out, fmt', args') \<Rightarrow>
             map_option ((@) out) (ngx_vslprintf (room - length out) fmt' args'))
      else map_option ((#) c) (ngx_vslprintf (room - 1) fmt args))"
  by pat_completeness auto
termination
  by (relation "measure (\<lambda>(room, fmt, args). length fmt)")
     (auto dest!: vsl_directive_length)

text \<open>
  ngx_sprintf trusts the caller's buffer: \<open>last\<close> is the end of the address space.
  ngx_snprintf and ngx_slprintf bound the output.
\<close>

definition ngx_sprintf :: "u64 \<Rightarrow> bytes \<Rightarrow> va list \<Rightarrow> bytes option" where
  "ngx_sprintf buf fmt args = ngx_vslprintf (unat (-1 - buf)) fmt args"

definition ngx_snprintf :: "nat \<Rightarrow> bytes \<Rightarrow> va list \<Rightarrow> bytes option" where
  "ngx_snprintf room fmt args = ngx_vslprintf room fmt args"

definition ngx_slprintf :: "u64 \<Rightarrow> u64 \<Rightarrow> bytes \<Rightarrow> va list \<Rightarrow> bytes option" where
  "ngx_slprintf buf lst fmt args = ngx_vslprintf (unat lst - unat buf) fmt args"

section \<open>The digits of a number\<close>

lemma dec_digit:
  assumes "d < 10"
  shows "is_digit (word_of_nat d + ch CHR ''0'') \<and> dval (word_of_nat d + ch CHR ''0'') = int d"
proof -
  have "list_all (\<lambda>d. is_digit (word_of_nat d + ch CHR ''0'') \<and> dval (word_of_nat d + ch CHR ''0'') = int d)
          [0, 1, 2, 3, 4, 5, 6, 7, 8, 9]"
    by (simp add: byte_class)
  moreover have "d \<in> set [0, 1, 2, 3, 4, 5, 6, 7, 8, 9]"
    using assms by (simp, arith)
  ultimately show ?thesis unfolding list_all_iff by blast
qed

lemma dec_digits_spec:
  "\<exists>ds. dec_digits v p = ds @ p \<and> ds \<noteq> [] \<and> list_all is_digit ds \<and> dec_val ds = int v
      \<and> (\<forall>k>0. v < 10 ^ k \<longrightarrow> length ds \<le> k)"
proof (induction v p rule: dec_digits.induct)
  case (1 v p)
  let ?c = "word_of_nat (v mod 10) + ch CHR ''0''"
  have dig: "is_digit ?c" "dval ?c = int (v mod 10)" using dec_digit [of "v mod 10"] by simp_all
  show ?case
  proof (cases "v div 10 = 0")
    case True
    then have "dec_digits v p = [?c] @ p" "v mod 10 = v"
      by (simp_all add: dec_digits.simps [of v] Let_def)
    with dig show ?thesis
      by (intro exI [of _ "[?c]"]) (simp add: num_val_Cons)
  next
    case False
    from "1.IH" [OF refl False] obtain ds where ds:
      "dec_digits (v div 10) (?c # p) = ds @ ?c # p" "ds \<noteq> []" "list_all is_digit ds"
      "dec_val ds = int (v div 10)" "\<And>k. 0 < k \<Longrightarrow> v div 10 < 10 ^ k \<Longrightarrow> length ds \<le> k"
      by blast
    have len: "length (ds @ [?c]) \<le> k" if "0 < k" "v < 10 ^ k" for k
    proof -
      obtain j where k: "k = Suc j" using \<open>0 < k\<close> by (cases k) auto
      have "10 \<le> v" using False by simp
      with that k have "0 < j" by (cases j) auto
      moreover have "v div 10 < 10 ^ j" using that k by (simp add: div_less_iff_less_mult mult.commute)
      ultimately show ?thesis using ds(5) [of j] k by simp
    qed
    have "dec_digits v p = (ds @ [?c]) @ p"
      using False ds(1) by (simp add: dec_digits.simps [of v] Let_def)
    moreover have "10 * int (v div 10) + int (v mod 10) = int v" by presburger
    then have "dec_val (ds @ [?c]) = int v"
      using ds(4) dig(2) by simp
    ultimately show ?thesis
      using ds(3) dig(1) len by (intro exI [of _ "ds @ [?c]"]) auto
  qed
qed

lemma hex_digits_length:
  "\<exists>ds. hex_digits hex v p = ds @ p \<and> ds \<noteq> [] \<and> (\<forall>k>0. v < 16 ^ k \<longrightarrow> length ds \<le> k)"
proof (induction hex v p rule: hex_digits.induct)
  case (1 hex v p)
  let ?c = "hex ! (v mod 16)"
  show ?case
  proof (cases "v div 16 = 0")
    case True
    then show ?thesis
      by (intro exI [of _ "[?c]"]) (simp add: hex_digits.simps [of hex v] Let_def)
  next
    case False
    from "1.IH" [OF refl False] obtain ds where ds:
      "hex_digits hex (v div 16) (?c # p) = ds @ ?c # p" "ds \<noteq> []"
      "\<And>k. 0 < k \<Longrightarrow> v div 16 < 16 ^ k \<Longrightarrow> length ds \<le> k"
      by blast
    have len: "length (ds @ [?c]) \<le> k" if "0 < k" "v < 16 ^ k" for k
    proof -
      obtain j where k: "k = Suc j" using \<open>0 < k\<close> by (cases k) auto
      have "16 \<le> v" using False by simp
      with that k have "0 < j" by (cases j) auto
      moreover have "v div 16 < 16 ^ j" using that k by (simp add: div_less_iff_less_mult mult.commute)
      ultimately show ?thesis using ds(3) [of j] k by simp
    qed
    have "hex_digits hex v p = (ds @ [?c]) @ p"
      using False ds(1) by (simp add: hex_digits.simps [of hex v] Let_def)
    with len show ?thesis by (intro exI [of _ "ds @ [?c]"]) auto
  qed
qed

text \<open>
  The digits of every 64-bit number, in decimal or hexadecimal, fit the
  NGX_INT64_LEN bytes of ngx_sprintf_num's temporary buffer, which it fills backwards
  without any check; there is always at least one digit.
\<close>

theorem sprintf_digits_fit:
  "sprintf_digits ui64 hexadecimal \<noteq> [] \<and> length (sprintf_digits ui64 hexadecimal) \<le> NGX_INT64_LEN"
proof -
  have lt64: "unat ui64 < 18446744073709551616"
    using unsigned_less [of ui64, where ?'a = nat] by simp
  have lt32: "unat (ucast ui64 :: u32) < 4294967296"
    using unsigned_less [of "ucast ui64 :: u32", where ?'a = nat] by simp
  have dec: "dec_digits v [] \<noteq> [] \<and> length (dec_digits v []) \<le> 20" if "v < 18446744073709551616" for v
    using dec_digits_spec [of v "[]"] that by fastforce
  have hex: "hex_digits h v [] \<noteq> [] \<and> length (hex_digits h v []) \<le> 20" if "v < 18446744073709551616" for h v
    using hex_digits_length [of h v "[]"] that by fastforce
  show ?thesis
    using dec [of "unat ui64"] dec [of "unat (ucast ui64 :: u32)"] hex [OF lt64] lt64 lt32
    by (simp add: sprintf_digits_def)
qed

lemma sprintf_pad_eq: "sprintf_pad len width room zero = replicate (min (width - len) room) zero"
  by (induction len width room zero rule: sprintf_pad.induct)
     (auto simp: min_def Suc_diff_Suc simp flip: replicate_Suc)

lemma ngx_sprintf_num_length: "length (ngx_sprintf_num room v z h w) \<le> room"
  by (auto simp: ngx_sprintf_num_def Let_def sprintf_pad_eq)

lemma vsl_signed_length: "0 < room \<Longrightarrow> length (vsl_signed room fl i) \<le> room"
  by (cases room) (simp_all add: vsl_signed_def ngx_sprintf_num_length)

lemma vsl_unsigned_length: "length (vsl_unsigned room fl u) \<le> room"
  by (simp add: vsl_unsigned_def ngx_sprintf_num_length)

lemma vsl_int_length: "\<lbrakk>0 < room; vsl_int room fl args = Some (out, args')\<rbrakk> \<Longrightarrow> length out \<le> room"
  by (auto simp: vsl_int_def vsl_signed_length vsl_unsigned_length
           split: list.splits va.splits if_splits)

lemma vsl_string_length: "vsl_string room fl args = Some (out, args') \<Longrightarrow> length out \<le> room"
  by (auto simp: vsl_string_def split: list.splits va.splits if_splits)

lemma ngx_sprintf_num_length_le: "n \<le> room \<Longrightarrow> n + length (ngx_sprintf_num (room - n) v z h w) \<le> room"
  using ngx_sprintf_num_length [of "room - n" v z h w] by linarith

lemma vsl_float_text_length:
  assumes "0 < room"
  shows "length (vsl_float_text room fl neg v fr) \<le> room"
proof -
  define sgn where "sgn = (if neg then [ch CHR ''-''] else [])"
  define buf1 where "buf1 = sgn @ ngx_sprintf_num (room - length sgn) v (fmt_zero fl) 0 (fmt_width fl)"
  define buf2 where "buf2 = buf1 @ (if length buf1 < room then [ch CHR ''.''] else [])"
  have "length sgn \<le> room" using assms by (auto simp: sgn_def)
  from ngx_sprintf_num_length_le [OF this] have buf1: "length buf1 \<le> room" by (simp add: buf1_def)
  then have "length buf2 \<le> room" by (auto simp: buf2_def)
  from ngx_sprintf_num_length_le [OF this] buf1 show ?thesis
    unfolding vsl_float_text_def Let_def
    by (simp flip: sgn_def buf1_def buf2_def)
qed

lemma vsl_float_length: "\<lbrakk>0 < room; vsl_float room fl d = Some tx\<rbrakk> \<Longrightarrow> length tx \<le> room"
  by (auto simp: vsl_float_def Let_def vsl_float_text_length split: if_splits option.splits)

lemma vsl_conv_length:
  assumes "0 < room" "vsl_conv room fl c args = Some (out, args')"
  shows "length out \<le> room"
proof -
  note [split del] = if_split
  have str: "(case args of VStr v # a \<Rightarrow> Some (take (min room (length v)) v, a) | _ \<Rightarrow> None) = Some (out, args')
      \<Longrightarrow> length out \<le> room"
    and var: "(case args of VVar v # a \<Rightarrow> Some (take (min room (length v)) v, a) | _ \<Rightarrow> None) = Some (out, args')
      \<Longrightarrow> length out \<le> room"
    and ptr: "(case args of VU a # a' \<Rightarrow> Some (ngx_sprintf_num room a (ch CHR ''0'') 2 16, a') | _ \<Rightarrow> None)
      = Some (out, args') \<Longrightarrow> length out \<le> room"
    and chr: "(case args of VI d # a \<Rightarrow> Some ([word_of_int d], a) | _ \<Rightarrow> None) = Some (out, args')
      \<Longrightarrow> length out \<le> room"
    using assms(1)
    by (auto simp: ngx_sprintf_num_length Suc_le_eq split: list.splits va.splits)
  have flt: "(case args of VF d # a \<Rightarrow> map_option (\<lambda>tx. (tx, a)) (vsl_float room fl d) | _ \<Rightarrow> None) = Some (out, args')
      \<Longrightarrow> length out \<le> room"
    using vsl_float_length [OF assms(1)] by (auto split: list.splits va.splits)
  have msec: "(case args of VU ms # a \<Rightarrow>
        if ms = -1 then Some (vsl_signed room fl (-1), a) else Some (vsl_unsigned room fl ms, a) | _ \<Rightarrow> None)
      = Some (out, args') \<Longrightarrow> length out \<le> room"
    using assms(1)
    by (auto simp: vsl_signed_length vsl_unsigned_length split: list.splits va.splits if_splits)
  show ?thesis
    using assms str var ptr chr flt msec
    unfolding vsl_conv_def
    by (auto simp: Suc_le_eq dest: vsl_int_length vsl_string_length split: if_splits)
qed

text \<open>
  C37. The formatter never writes past the end of the caller's buffer: whatever the format, with any of the
  conversions, and the arguments, ngx_vslprintf writes at most \<open>last - buf\<close> bytes. Only what is undefined
  in C has no result: an argument of another kind than its conversion reads, a format that ends within a directive,
  and a \<open>%f\<close> whose number does not fit the integer that it is cast to.
\<close>

theorem ngx_vslprintf_bounded:
  "ngx_vslprintf room fmt args = Some out \<Longrightarrow> length out \<le> room"
proof (induction room fmt args arbitrary: out rule: ngx_vslprintf.induct)
  case (1 room args)
  then show ?case by simp
next
  case (2 room c fmt args)
  show ?case
  proof (cases "room = 0 \<or> c \<noteq> ch CHR ''%''")
    case True
    with "2.prems" "2.IH"(2) show ?thesis by (fastforce split: if_splits)
  next
    case False
    then have pct: "room \<noteq> 0" "c = ch CHR ''%''" by auto
    with "2.prems" obtain o1 fmt' args' o2 where
      dir: "vsl_directive room fmt args = Some (o1, fmt', args')" and
      rest: "ngx_vslprintf (room - length o1) fmt' args' = Some o2" and out: "out = o1 @ o2"
      by (auto split: option.splits)
    from dir pct have "length o1 \<le> room"
      by (auto simp: vsl_directive_def Let_def split: prod.splits option.splits list.splits
               intro: vsl_conv_length)
    moreover have "length o2 \<le> room - length o1"
      by (rule "2.IH"(1) [OF pct(1,2) dir refl refl rest])
    ultimately show ?thesis using out by simp
  qed
qed

text \<open>A double, cut by the end of the buffer.\<close>

lemma printf_float_example: "ngx_vslprintf 5 (bytes_of ''a%.3f'') [VF (- 1 / 8)] = Some (bytes_of ''a-0.1'')"
proof -
  have doubles: "double_round (1 / 8) = 1 / 8" "double_round 1000 = 1000" "double_round 125 = 125"
    "double_round (251 / 2) = 251 / 2" "\<lfloor>1 / 8 :: rat\<rfloor> = 0" "\<lfloor>251 / 2 :: rat\<rfloor> = 125"
    by code_simp+
  have "vsl_fraction (1 / 8) 0 1000 = Some 125" by (simp add: vsl_fraction_def doubles)
  moreover have "vsl_float_text 4 (fmt_init False\<lparr>fmt_frac_width := 3\<rparr>) True 0 125 = bytes_of ''-0.1''"
    by code_simp
  ultimately have "vsl_float 4 (fmt_init False\<lparr>fmt_frac_width := 3\<rparr>) (- 1 / 8) = Some (bytes_of ''-0.1'')"
    by (simp add: vsl_float_def doubles)
  then show ?thesis by (simp add: vsl_directive_def vsl_conv_def byte_class fmt_init_def)
qed

theorem ngx_vslprintf_bounded_witness:
  "ngx_vslprintf 5 (bytes_of ''a%.3f'') [VF (- 1 / 8)] = Some (bytes_of ''a-0.1'')
    \<and> length (bytes_of ''a-0.1'') \<le> 5"
  using printf_float_example ngx_vslprintf_bounded [OF printf_float_example] by blast

lemma ngx_sprintf_num_plain:
  "length (sprintf_digits v h) \<le> room \<Longrightarrow> ngx_sprintf_num room v z h 0 = sprintf_digits v h"
  by (simp add: ngx_sprintf_num_def Let_def sprintf_pad_eq)

lemma sprintf_digits_dec:
  "list_all is_digit (sprintf_digits v 0) \<and> dec_val (sprintf_digits v 0) = uint v"
proof -
  have "unat (ucast v :: u32) = unat v" if "v \<le> 0xffffffff"
    using that by (simp add: unsigned_ucast_eq take_bit_nat_eq_self word_le_nat_alt)
  then show ?thesis
    using dec_digits_spec [of "unat v" "[]"] dec_digits_spec [of "unat (ucast v :: u32)" "[]"]
    by (auto simp: sprintf_digits_def)
qed

text \<open>
  Printing a non-negative ngx_int_t with \<open>%i\<close> into a buffer of at least NGX_INT64_LEN
  bytes and parsing the result with ngx_atoi gives the number back.
\<close>

theorem ngx_atoi_sprintf:
  assumes "0 \<le> i" "i \<le> NGX_MAX_INT_T_VALUE" "NGX_INT64_LEN \<le> room"
  shows "\<exists>out. ngx_vslprintf room (bytes_of ''%i'') [VI i] = Some out \<and> ngx_atoi out = Some i"
proof -
  let ?w = "word_of_int i :: u64"
  have u: "uint ?w = i" using assms(1,2) by (simp add: uint_word_of_int)
  have len: "length (sprintf_digits ?w 0) \<le> room"
    using sprintf_digits_fit [of ?w 0] assms(3) by linarith
  have "ngx_vslprintf room (bytes_of ''%i'') [VI i] = Some (sprintf_digits ?w 0)"
    using assms len
    by (simp add: vsl_directive_def vsl_conv_def vsl_int_def vsl_signed_def fmt_init_def
        byte_class ngx_sprintf_num_plain)
  moreover have "ngx_atoi (sprintf_digits ?w 0) = Some i"
    using sprintf_digits_dec [of ?w] sprintf_digits_fit [of ?w 0] u assms(2)
    by (simp add: atoi.parse_eq)
  ultimately show ?thesis by blast
qed

theorem ngx_atoi_sprintf_witness:
  "\<exists>out. ngx_vslprintf 32 (bytes_of ''%i'') [VI 1048576] = Some out \<and> ngx_atoi out = Some 1048576"
  by (rule ngx_atoi_sprintf) simp_all

section \<open>Printing a known format\<close>

text \<open>What a caller with a literal format uses: its plain text, and the directives of it one by one.\<close>

lemma ngx_vslprintf_text:
  "\<lbrakk>ch CHR ''%'' \<notin> set s; length s \<le> room\<rbrakk>
   \<Longrightarrow> ngx_vslprintf room (s @ fmt) args = map_option ((@) s) (ngx_vslprintf (room - length s) fmt args)"
proof (induction s arbitrary: room)
  case Nil
  then show ?case by (simp add: option.map_id0 [unfolded id_def])
next
  case (Cons c s)
  then show ?case by (cases room) (auto simp: option.map_comp comp_def)
qed

lemma ngx_vslprintf_directive:
  assumes "0 < room" "vsl_directive room fmt args = Some (out, fmt', args')"
  shows "ngx_vslprintf room (ch CHR ''%'' # fmt) args = map_option ((@) out) (ngx_vslprintf (room - length out) fmt' args')"
  using assms by simp

lemma directive_0muA:
  "vsl_directive room (bytes_of ''0muA'' @ fmt) (VU b # args) =
    Some (ngx_sprintf_num room b (ch CHR ''0'') 0 NGX_INT64_LEN, fmt, args)"
  by (simp add: vsl_directive_def vsl_conv_def vsl_int_def vsl_unsigned_def fmt_init_def byte_class)

lemma directive_V:
  "vsl_directive room (ch CHR ''V'' # fmt) (VStr v # args) = Some (take room v, fmt, args)"
  by (simp add: vsl_directive_def vsl_conv_def fmt_init_def byte_class min_def)

lemma directive_O:
  "vsl_directive room (ch CHR ''O'' # fmt) (VI i # args) =
    Some (vsl_signed room (fmt_init False) i, fmt, args)"
  by (simp add: vsl_directive_def vsl_conv_def vsl_int_def vsl_signed_def fmt_init_def byte_class)
end
