(* ===== verification/Http_Range_Body.thy ===== *)
theory Http_Range_Body
  imports Http_Range Ngx_Printf
begin

text \<open>
  The other half of src/http/modules/ngx_http_range_filter_module.c: the texts and the length that
  \<open>ngx_http_range_multipart_header\<close> computes and the three functions of the body filter. Buffers
  hold their data; those of a file are the same with file positions in place of pointers.
\<close>

section \<open>The texts of a multipart response\<close>

text \<open>A range with its text "SSSS-EEEE/TTTT" CRLF CRLF, as ngx_http_range_multipart_header() leaves it.\<close>

record part_range =
  part_start :: int
  part_end :: int
  part_content_range :: bytes

text \<open>NGX_ATOMIC_T_LEN, the width of the boundary number, and NGX_OFF_T_LEN.\<close>

abbreviation (input) NGX_ATOMIC_T_LEN :: nat where "NGX_ATOMIC_T_LEN \<equiv> 20"
abbreviation (input) NGX_OFF_T_LEN :: nat where "NGX_OFF_T_LEN \<equiv> 20"

text \<open>The members of \<open>r->headers_out\<close> that are used.\<close>

record range_out =
  out_content_type :: bytes
  out_content_type_len :: nat
  out_charset :: bytes
  out_length_n :: int

definition range_charset :: "range_out \<Rightarrow> bool" where
  "range_charset h \<longleftrightarrow> out_content_type_len h = length (out_content_type h) \<and> out_charset h \<noteq> []"

text \<open>The size allocated for the boundary header, and the header written there.\<close>

definition range_boundary_room :: "range_out \<Rightarrow> nat" where
  "range_boundary_room h =
     4 + NGX_ATOMIC_T_LEN + 16 + length (out_content_type h) + 23
     + (if range_charset h then 10 + length (out_charset h) else 0)"

definition range_boundary_header :: "u64 \<Rightarrow> range_out \<Rightarrow> u64 \<Rightarrow> bytes option" where
  "range_boundary_header data h boundary =
     (if range_charset h then
        ngx_sprintf data ([CR, LF] @ bytes_of ''--%0muA'' @ [CR, LF]
            @ bytes_of ''Content-Type: %V; charset=%V'' @ [CR, LF] @ bytes_of ''Content-Range: bytes '')
          [VU boundary, VStr (out_content_type h), VStr (out_charset h)]
      else if out_content_type h \<noteq> [] then
        ngx_sprintf data ([CR, LF] @ bytes_of ''--%0muA'' @ [CR, LF]
            @ bytes_of ''Content-Type: %V'' @ [CR, LF] @ bytes_of ''Content-Range: bytes '')
          [VU boundary, VStr (out_content_type h)]
      else
        ngx_sprintf data ([CR, LF] @ bytes_of ''--%0muA'' @ [CR, LF] @ bytes_of ''Content-Range: bytes '')
          [VU boundary])"

definition range_content_range :: "u64 \<Rightarrow> range_out \<Rightarrow> int \<times> int \<Rightarrow> bytes option" where
  "range_content_range data h = (\<lambda>(s, e).
     ngx_sprintf data (bytes_of ''%O-%O/%O'' @ [CR, LF, CR, LF]) [VI s, VI (e - 1), VI (out_length_n h)])"

text \<open>The new Content-Type of the response, and the size allocated for it.\<close>

definition range_content_type_room :: nat where
  "range_content_type_room = length ''Content-Type: multipart/byteranges; boundary='' + NGX_ATOMIC_T_LEN"

definition range_content_type :: "u64 \<Rightarrow> u64 \<Rightarrow> bytes option" where
  "range_content_type data boundary = ngx_sprintf data (bytes_of ''multipart/byteranges; boundary=%0muA'') [VU boundary]"

text \<open>
  The ranges with their texts. The addresses of the texts, which ngx_pnalloc gives, are parameters:
  \<open>addr 0\<close> of the boundary header, \<open>addr 1\<close> of the Content-Type and \<open>addr i\<close> of the
  ranges from 2.
\<close>

fun range_parts :: "(nat \<Rightarrow> u64) \<Rightarrow> nat \<Rightarrow> range_out \<Rightarrow> (int \<times> int) list \<Rightarrow> part_range list option" where
  "range_parts addr i h [] = Some []"
| "range_parts addr i h ((s, e) # rngs) =
     (case range_content_range (addr i) h (s, e) of
        None \<Rightarrow> None
      | Some tx \<Rightarrow>
          map_option ((#) \<lparr>part_start = s, part_end = e, part_content_range = tx\<rparr>) (range_parts addr (Suc i) h rngs))"

text \<open>The sum over the ranges, from the size of the last boundary CRLF "--0123456789--" CRLF.\<close>

definition range_multipart_length :: "bytes \<Rightarrow> part_range list \<Rightarrow> int" where
  "range_multipart_length boundary_header parts =
     foldl (\<lambda>len p. len + (int (length boundary_header) + int (length (part_content_range p))
         + (part_end p - part_start p)))
       (4 + int NGX_ATOMIC_T_LEN + 4) parts"

text \<open>
  The boundary header, the ranges with their texts and the new headers of the response; the texts of the ranges still have
  the length of the whole.
\<close>

definition ngx_http_range_multipart_header ::
  "(nat \<Rightarrow> u64) \<Rightarrow> range_out \<Rightarrow> u64 \<Rightarrow> (int \<times> int) list \<Rightarrow> (bytes \<times> part_range list \<times> range_out) option" where
  "ngx_http_range_multipart_header addr h boundary rngs =
     (case range_boundary_header (addr 0) h boundary of
        None \<Rightarrow> None
      | Some bh \<Rightarrow>
          (case range_content_type (addr 1) boundary of
             None \<Rightarrow> None
           | Some ct \<Rightarrow>
               map_option (\<lambda>parts. (bh, parts,
                   h\<lparr>out_content_type := ct, out_content_type_len := length ct, out_charset := [],
                     out_length_n := range_multipart_length bh parts\<rparr>))
                 (range_parts addr 2 h rngs)))"

section \<open>The texts fit\<close>

text \<open>The boundary: the twenty digits of its number.\<close>

definition boundary_number :: "u64 \<Rightarrow> bytes" where
  "boundary_number v = replicate (NGX_INT64_LEN - length (sprintf_digits v 0)) (ch CHR ''0'') @ sprintf_digits v 0"

lemma boundary_number_length [simp]: "length (boundary_number v) = NGX_INT64_LEN"
  using sprintf_digits_fit [of v 0] by (simp add: boundary_number_def)

lemma ngx_sprintf_num_padded:
  "NGX_INT64_LEN \<le> room \<Longrightarrow> ngx_sprintf_num room v (ch CHR ''0'') 0 NGX_INT64_LEN = boundary_number v"
  using sprintf_digits_fit [of v 0] by (auto simp: ngx_sprintf_num_def boundary_number_def Let_def sprintf_pad_eq)

lemma vsl_signed_plain:
  assumes "0 \<le> i" "NGX_INT64_LEN \<le> room"
  shows "length (vsl_signed room (fmt_init z) i) \<le> NGX_INT64_LEN"
proof -
  have "ngx_sprintf_num room (word_of_int i) (fmt_zero (fmt_init z)) 0 0 = sprintf_digits (word_of_int i) 0"
    by (rule ngx_sprintf_num_plain) (use sprintf_digits_fit [of "word_of_int i" 0] assms(2) in linarith)
  with sprintf_digits_fit [of "word_of_int i" 0] assms(1) show ?thesis
    by (simp add: vsl_signed_def fmt_init_def)
qed

lemma vslprintf_text_end: "\<lbrakk>ch CHR ''%'' \<notin> set s; length s \<le> room\<rbrakk> \<Longrightarrow> ngx_vslprintf room s [] = Some s"
  using ngx_vslprintf_text [of s room "[]" "[]"] by simp

lemma vslprintf_0muA:
  assumes "ch CHR ''%'' \<notin> set s" "length s + NGX_INT64_LEN \<le> room"
    "ngx_vslprintf (room - length s - NGX_INT64_LEN) fmt args = Some out"
  shows "ngx_vslprintf room (s @ ch CHR ''%'' # bytes_of ''0muA'' @ fmt) (VU b # args) = Some (s @ boundary_number b @ out)"
proof -
  have n: "ngx_sprintf_num (room - length s) b (ch CHR ''0'') 0 NGX_INT64_LEN = boundary_number b"
    by (rule ngx_sprintf_num_padded) (use assms(2) in simp)
  have "ngx_vslprintf (room - length s) (ch CHR ''%'' # bytes_of ''0muA'' @ fmt) (VU b # args)
      = map_option ((@) (boundary_number b)) (ngx_vslprintf (room - length s - length (boundary_number b)) fmt args)"
    by (rule ngx_vslprintf_directive [OF _ directive_0muA [of "room - length s" fmt b args, unfolded n]])
      (use assms(2) in simp)
  with ngx_vslprintf_text [of s room "ch CHR ''%'' # bytes_of ''0muA'' @ fmt" "VU b # args"] assms
  show ?thesis by (simp del: ngx_vslprintf.simps)
qed

lemma vslprintf_V:
  assumes "ch CHR ''%'' \<notin> set s" "length s + length v < room"
    "ngx_vslprintf (room - length s - length v) fmt args = Some out"
  shows "ngx_vslprintf room (s @ ch CHR ''%'' # ch CHR ''V'' # fmt) (VStr v # args) = Some (s @ v @ out)"
proof -
  have "ngx_vslprintf (room - length s) (ch CHR ''%'' # ch CHR ''V'' # fmt) (VStr v # args)
      = map_option ((@) (take (room - length s) v)) (ngx_vslprintf (room - length s - length (take (room - length s) v)) fmt args)"
    by (rule ngx_vslprintf_directive [OF _ directive_V]) (use assms(2) in simp)
  with ngx_vslprintf_text [of s room "ch CHR ''%'' # ch CHR ''V'' # fmt" "VStr v # args"] assms
  show ?thesis by (simp add: min_def del: ngx_vslprintf.simps)
qed

lemma vslprintf_O:
  assumes "ch CHR ''%'' \<notin> set s" "length s + NGX_OFF_T_LEN \<le> room" "0 \<le> i"
    "\<And>n. n \<le> NGX_OFF_T_LEN \<Longrightarrow> \<exists>out. ngx_vslprintf (room - length s - n) fmt args = Some out \<and> length out \<le> k"
  shows "\<exists>out. ngx_vslprintf room (s @ ch CHR ''%'' # ch CHR ''O'' # fmt) (VI i # args) = Some out
    \<and> length out \<le> length s + NGX_OFF_T_LEN + k"
proof -
  let ?n = "vsl_signed (room - length s) (fmt_init False) i"
  have n: "length ?n \<le> NGX_OFF_T_LEN" by (rule vsl_signed_plain) (use assms in simp_all)
  have "ngx_vslprintf (room - length s) (ch CHR ''%'' # ch CHR ''O'' # fmt) (VI i # args)
      = map_option ((@) ?n) (ngx_vslprintf (room - length s - length ?n) fmt args)"
    by (rule ngx_vslprintf_directive [OF _ directive_O]) (use assms(2) in simp)
  with ngx_vslprintf_text [of s room "ch CHR ''%'' # ch CHR ''O'' # fmt" "VI i # args"] assms(1,2) assms(4) [OF n] n
  show ?thesis by (fastforce simp del: ngx_vslprintf.simps)
qed

lemma range_boundary_header_fits:
  assumes "range_boundary_room h \<le> unat (-1 - data)"
  shows "\<exists>tx. range_boundary_header data h boundary = Some tx \<and> length tx \<le> range_boundary_room h
    \<and> 4 + NGX_ATOMIC_T_LEN \<le> length tx
    \<and> take (4 + NGX_ATOMIC_T_LEN) tx = [CR, LF] @ bytes_of ''--'' @ boundary_number boundary"
proof -
  let ?room = "unat (-1 - data)"
  let ?fin = "[CR, LF] @ bytes_of ''Content-Range: bytes ''"
  let ?ct = "[CR, LF] @ bytes_of ''Content-Type: ''"
  have room: "63 + length (out_content_type h) + (if range_charset h then 10 + length (out_charset h) else 0) \<le> ?room"
    using assms by (auto simp: range_boundary_room_def)
  consider (cs) "range_charset h" | (ct) "\<not> range_charset h" "out_content_type h \<noteq> []"
    | (none) "\<not> range_charset h" "out_content_type h = []" by blast
  then show ?thesis
  proof cases
    case none
    have "ngx_vslprintf (?room - length ([CR, LF] @ bytes_of ''--'') - NGX_INT64_LEN) ?fin [] = Some ?fin"
      by (rule vslprintf_text_end) (use room in simp_all)
    from vslprintf_0muA [OF _ _ this, of boundary] have
      "ngx_vslprintf ?room (([CR, LF] @ bytes_of ''--'') @ ch CHR ''%'' # bytes_of ''0muA'' @ ?fin) [VU boundary]
        = Some (([CR, LF] @ bytes_of ''--'') @ boundary_number boundary @ ?fin)" using room by (auto simp del: ngx_vslprintf.simps)
    with none show ?thesis
      by (simp add: range_boundary_header_def ngx_sprintf_def range_boundary_room_def del: ngx_vslprintf.simps)
  next
    case ct
    let ?v = "out_content_type h"
    have e: "ngx_vslprintf (?room - length ([CR, LF] @ bytes_of ''--'') - NGX_INT64_LEN - length ?ct - length ?v) ?fin [] = Some ?fin"
      by (rule vslprintf_text_end) (use room in simp_all)
    have "ngx_vslprintf (?room - length ([CR, LF] @ bytes_of ''--'') - NGX_INT64_LEN)
        (?ct @ ch CHR ''%'' # ch CHR ''V'' # ?fin) [VStr ?v] = Some (?ct @ ?v @ ?fin)"
      by (rule vslprintf_V [OF _ _ e]) (use room in simp_all)
    from vslprintf_0muA [OF _ _ this, of boundary] have
      "ngx_vslprintf ?room (([CR, LF] @ bytes_of ''--'') @ ch CHR ''%'' # bytes_of ''0muA'' @ ?ct
          @ ch CHR ''%'' # ch CHR ''V'' # ?fin) [VU boundary, VStr ?v]
        = Some (([CR, LF] @ bytes_of ''--'') @ boundary_number boundary @ ?ct @ ?v @ ?fin)" using room by (auto simp del: ngx_vslprintf.simps)
    with ct show ?thesis
      by (simp add: range_boundary_header_def ngx_sprintf_def range_boundary_room_def del: ngx_vslprintf.simps)
  next
    case cs
    let ?v = "out_content_type h" and ?w = "out_charset h" and ?s = "bytes_of ''; charset=''"
    have e: "ngx_vslprintf (?room - length ([CR, LF] @ bytes_of ''--'') - NGX_INT64_LEN - length ?ct - length ?v
        - length ?s - length ?w) ?fin [] = Some ?fin"
      by (rule vslprintf_text_end) (use room cs in simp_all)
    have e2: "ngx_vslprintf (?room - length ([CR, LF] @ bytes_of ''--'') - NGX_INT64_LEN - length ?ct - length ?v)
        (?s @ ch CHR ''%'' # ch CHR ''V'' # ?fin) [VStr ?w] = Some (?s @ ?w @ ?fin)"
      by (rule vslprintf_V [OF _ _ e]) (use room cs in simp_all)
    have "ngx_vslprintf (?room - length ([CR, LF] @ bytes_of ''--'') - NGX_INT64_LEN)
        (?ct @ ch CHR ''%'' # ch CHR ''V'' # ?s @ ch CHR ''%'' # ch CHR ''V'' # ?fin) [VStr ?v, VStr ?w]
      = Some (?ct @ ?v @ ?s @ ?w @ ?fin)"
      by (rule vslprintf_V [OF _ _ e2]) (use room cs in simp_all)
    from vslprintf_0muA [OF _ _ this, of boundary] have
      "ngx_vslprintf ?room (([CR, LF] @ bytes_of ''--'') @ ch CHR ''%'' # bytes_of ''0muA'' @ ?ct
          @ ch CHR ''%'' # ch CHR ''V'' # ?s @ ch CHR ''%'' # ch CHR ''V'' # ?fin) [VU boundary, VStr ?v, VStr ?w]
        = Some (([CR, LF] @ bytes_of ''--'') @ boundary_number boundary @ ?ct @ ?v @ ?s @ ?w @ ?fin)"
      using room cs by (auto simp del: ngx_vslprintf.simps)
    with cs show ?thesis
      by (simp add: range_boundary_header_def ngx_sprintf_def range_boundary_room_def del: ngx_vslprintf.simps)
  qed
qed

lemma range_content_type_fits:
  assumes "range_content_type_room \<le> unat (-1 - data)"
  shows "range_content_type data boundary = Some (bytes_of ''multipart/byteranges; boundary='' @ boundary_number boundary)"
proof -
  let ?s = "bytes_of ''multipart/byteranges; boundary=''"
  have "ngx_vslprintf (unat (-1 - data)) (?s @ ch CHR ''%'' # bytes_of ''0muA'' @ []) (VU boundary # [])
      = Some (?s @ boundary_number boundary @ [])"
    by (rule vslprintf_0muA) (use assms in \<open>simp_all add: range_content_type_room_def\<close>)
  then show ?thesis by (simp add: range_content_type_def ngx_sprintf_def del: ngx_vslprintf.simps)
qed

lemma range_content_range_fits:
  assumes "0 \<le> s" "1 \<le> e" "0 \<le> out_length_n h" "3 * NGX_OFF_T_LEN + 2 + 4 \<le> unat (-1 - data)"
  shows "\<exists>tx. range_content_range data h (s, e) = Some tx \<and> length tx \<le> 3 * NGX_OFF_T_LEN + 2 + 4"
proof -
  let ?room = "unat (-1 - data)"
  have e1: "\<exists>out. ngx_vslprintf r [CR, LF, CR, LF] [] = Some out \<and> length out \<le> 4" if "4 \<le> r" for r
    by (rule exI, rule conjI, rule vslprintf_text_end) (use that in simp_all)
  have e2: "\<exists>out. ngx_vslprintf r ([ch CHR ''/''] @ ch CHR ''%'' # ch CHR ''O'' # [CR, LF, CR, LF]) [VI (out_length_n h)]
      = Some out \<and> length out \<le> 1 + 20 + 4" if "25 \<le> r" for r
    using that assms(3) e1 vslprintf_O [of "[ch CHR ''/'']" r "out_length_n h" "[CR, LF, CR, LF]" "[]" 4]
    by (simp del: ngx_vslprintf.simps)
  have e3: "\<exists>out. ngx_vslprintf r ([ch CHR ''-''] @ ch CHR ''%'' # ch CHR ''O'' # ([ch CHR ''/''] @ ch CHR ''%'' # ch CHR ''O'' # [CR, LF, CR, LF]))
      [VI (e - 1), VI (out_length_n h)] = Some out \<and> length out \<le> 1 + 20 + (1 + 20 + 4)" if "46 \<le> r" for r
    using that assms(2) e2 vslprintf_O [of "[ch CHR ''-'']" r "e - 1" "[ch CHR ''/''] @ ch CHR ''%'' # ch CHR ''O'' # [CR, LF, CR, LF]"
      "[VI (out_length_n h)]" 25]
    by (simp del: ngx_vslprintf.simps)
  show ?thesis
    using assms(1,4) e3 vslprintf_O [of "[]" ?room s "[ch CHR ''-''] @ ch CHR ''%'' # ch CHR ''O'' # ([ch CHR ''/''] @ ch CHR ''%'' # ch CHR ''O'' # [CR, LF, CR, LF])"
      "[VI (e - 1), VI (out_length_n h)]" 46]
    by (simp add: range_content_range_def ngx_sprintf_def del: ngx_vslprintf.simps)
qed

section \<open>The body\<close>

text \<open>
  A buffer of the chain: data in memory with its \<open>last_buf\<close> flag, or a special one without
  data (\<open>ngx_buf_special\<close>).
\<close>

datatype range_buf = Data_buf (buf_data: bytes) (buf_last: bool) | Special_buf

primrec range_buf_bytes :: "range_buf \<Rightarrow> bytes" where
  "range_buf_bytes (Data_buf d l) = d"
| "range_buf_bytes Special_buf = []"

text \<open>The loop over the chain: the new \<open>ctx->offset\<close> and the output chain.\<close>

fun range_single_chain :: "bool \<Rightarrow> int \<times> int \<Rightarrow> int \<Rightarrow> range_buf list \<Rightarrow> int \<times> range_buf list" where
  "range_single_chain main (s, e) offset [] = (offset, [])"
| "range_single_chain main (s, e) offset (Special_buf # bufs) =
     (let (offset', out) = range_single_chain main (s, e) offset bufs in (offset', Special_buf # out))"
| "range_single_chain main (s, e) offset (Data_buf d l # bufs) =
     (let start = offset; last = offset + int (length d)
      in if e \<le> start \<or> s \<ge> last then range_single_chain main (s, e) last bufs
         else
           (let d = (if s > start then drop (nat (s - start)) d else d)
            in if e \<le> last then (last, [Data_buf (take (length d - nat (last - e)) d) main])
               else (let (offset', out) = range_single_chain main (s, e) last bufs
                     in (offset', Data_buf d l # out))))"

definition ngx_http_range_singlepart_body ::
  "bool \<Rightarrow> int \<times> int \<Rightarrow> int \<Rightarrow> range_buf list \<Rightarrow> int \<times> range_buf list" where
  "ngx_http_range_singlepart_body main rng offset chain = range_single_chain main rng offset chain"

text \<open>Several ranges are served only from a single buffer that holds them all.\<close>

definition ngx_http_range_test_overlapped :: "(int \<times> int) list \<Rightarrow> int \<Rightarrow> bytes \<Rightarrow> bool \<Rightarrow> int option" where
  "ngx_http_range_test_overlapped rngs offset d last_buf =
     (if offset \<noteq> 0 then None
      else if \<not> last_buf \<and> (\<exists>(s, e) \<in> set rngs. offset > s \<or> offset + int (length d) < e) then None
      else Some (int (length d)))"

definition ngx_http_range_multipart_body :: "bytes \<Rightarrow> part_range list \<Rightarrow> bytes \<Rightarrow> range_buf list" where
  "ngx_http_range_multipart_body boundary_header parts d =
     concat (map (\<lambda>p. [Data_buf boundary_header False, Data_buf (part_content_range p) False,
         Data_buf (take (nat (part_end p - part_start p)) (drop (nat (part_start p)) d)) False]) parts)
     @ [Data_buf (take (4 + NGX_ATOMIC_T_LEN) boundary_header @ bytes_of ''--'' @ [CR, LF]) True]"

record range_ctx =
  ctx_offset :: int
  ctx_boundary_header :: bytes
  ctx_ranges :: "part_range list"

text \<open>
  The body filter on a chain: NGX_ERROR is \<open>None\<close>, otherwise the context and what is passed on to
  the next filter.
\<close>

definition ngx_http_range_body_filter ::
  "bool \<Rightarrow> range_ctx \<Rightarrow> range_buf list \<Rightarrow> (range_ctx \<times> range_buf list) option" where
  "ngx_http_range_body_filter main ctx bufs =
     (if bufs = [] then Some (ctx, bufs)
      else if length (ctx_ranges ctx) = 1 then
        (let p = hd (ctx_ranges ctx);
             (offset, out) = ngx_http_range_singlepart_body main (part_start p, part_end p) (ctx_offset ctx) bufs
         in Some (ctx\<lparr>ctx_offset := offset\<rparr>, out))
      else (case hd bufs of
              Special_buf \<Rightarrow> Some (ctx, bufs)
            | Data_buf d l \<Rightarrow>
                (case ngx_http_range_test_overlapped (map (\<lambda>p. (part_start p, part_end p)) (ctx_ranges ctx)) (ctx_offset ctx) d l of
                   None \<Rightarrow> None
                 | Some offset \<Rightarrow>
                     Some (ctx\<lparr>ctx_offset := offset\<rparr>,
                       ngx_http_range_multipart_body (ctx_boundary_header ctx) (ctx_ranges ctx) d))))"

text \<open>The bytes at the places \<open>s .. e - 1\<close> of data that begins at the place \<open>offset\<close>.\<close>

definition slice :: "int \<Rightarrow> int \<Rightarrow> int \<Rightarrow> bytes \<Rightarrow> bytes" where
  "slice s e offset d = drop (nat (s - offset)) (take (nat (e - offset)) d)"

lemma slice_append:
  "slice s e offset (d @ d') = slice s e offset d @ slice s e (offset + int (length d)) d'"
proof (cases "nat (e - offset) \<le> length d")
  case True
  then have "nat (e - (offset + int (length d))) = 0" by simp
  with True show ?thesis by (simp add: slice_def)
next
  case False
  then have "nat (e - offset) - length d = nat (e - (offset + int (length d)))"
    "nat (s - offset) - length d = nat (s - (offset + int (length d)))" by simp_all
  with False show ?thesis by (simp add: slice_def)
qed

lemma slice_past: "e \<le> offset \<Longrightarrow> slice s e offset d = []"
  by (simp add: slice_def)

abbreviation chain_bytes :: "range_buf list \<Rightarrow> bytes" where
  "chain_bytes bufs \<equiv> concat (map range_buf_bytes bufs)"

lemma range_single_chain_slice:
  assumes "s < e" "range_single_chain main (s, e) offset bufs = (offset', out)"
  shows "chain_bytes out = slice s e offset (chain_bytes bufs)
    \<and> (offset' = offset + int (length (chain_bytes bufs)) \<or> e \<le> offset' \<and> offset' \<le> offset + int (length (chain_bytes bufs)))"
  using assms
proof (induction main "(s, e)" offset bufs arbitrary: offset' out rule: range_single_chain.induct)
  case (1 main offset)
  then show ?case by (simp add: slice_def)
next
  case (2 main offset bufs)
  then obtain out' where "range_single_chain main (s, e) offset bufs = (offset', out')" "out = Special_buf # out'"
    by (auto split: prod.splits)
  with 2 show ?case by simp
next
  case (3 main offset d l bufs)
  let ?last = "offset + int (length d)"
  consider (skip) "e \<le> offset \<or> s \<ge> ?last" | (stop) "\<not> (e \<le> offset \<or> s \<ge> ?last)" "e \<le> ?last"
    | (more) "\<not> (e \<le> offset \<or> s \<ge> ?last)" "\<not> e \<le> ?last" by blast
  then show ?case
  proof cases
    case skip
    then have "range_single_chain main (s, e) ?last bufs = (offset', out)" using 3 by simp
    from "3.hyps"(1) [OF refl refl skip "3.prems"(1) this]
    have IH: "chain_bytes out = slice s e ?last (chain_bytes bufs)"
      "offset' = ?last + int (length (chain_bytes bufs)) \<or> e \<le> offset' \<and> offset' \<le> ?last + int (length (chain_bytes bufs))" by simp_all
    have "slice s e offset d = []" using skip by (auto simp: slice_def)
    with IH show ?thesis by (auto simp: slice_append)
  next
    case stop
    let ?d = "if s > offset then drop (nat (s - offset)) d else d"
    have out: "out = [Data_buf (take (length ?d - nat (?last - e)) ?d) main]" "offset' = ?last"
      using "3.prems"(2) stop by (auto simp: Let_def split: if_splits)
    have "slice s e ?last (chain_bytes bufs) = []" using stop by (simp add: slice_past)
    moreover have "take (length ?d - nat (?last - e)) ?d = slice s e offset d"
    proof -
      have "nat (?last - e) = length d - nat (e - offset)" "nat (e - offset) \<le> length d" using stop by linarith+
      then show ?thesis using stop by (auto simp: slice_def drop_take)
    qed
    ultimately show ?thesis using out stop by (simp add: slice_append)
  next
    case more
    let ?d = "if s > offset then drop (nat (s - offset)) d else d"
    obtain out' where out: "range_single_chain main (s, e) ?last bufs = (offset', out')" "out = Data_buf ?d l # out'"
      using "3.prems"(2) more by (auto simp: Let_def split: prod.splits if_splits)
    have "?d = slice s e offset d" using more by (auto simp: slice_def)
    moreover have "chain_bytes out' = slice s e ?last (chain_bytes bufs)
      \<and> (offset' = ?last + int (length (chain_bytes bufs)) \<or> e \<le> offset' \<and> offset' \<le> ?last + int (length (chain_bytes bufs)))"
      using "3.hyps"(2) [OF refl refl more(1) refl more(2) "3.prems"(1) out(1)] by simp
    ultimately show ?thesis using out by (auto simp: slice_append)
  qed
qed


text \<open>The calls of the filter with the chains of a response, one after another.\<close>

fun range_single_run :: "bool \<Rightarrow> int \<times> int \<Rightarrow> int \<Rightarrow> range_buf list list \<Rightarrow> range_buf list" where
  "range_single_run main rng offset [] = []"
| "range_single_run main rng offset (cl # cls) =
     (let (offset', out) = ngx_http_range_singlepart_body main rng offset cl
      in out @ range_single_run main rng offset' cls)"

text \<open>
  C17. For a single range within the content the body filter passes on exactly the bytes at the places
  \<open>start .. end - 1\<close> of the response, however the response is cut into buffers and the
  buffers into chains.
\<close>

theorem ngx_http_range_singlepart_body_slice:
  assumes "0 \<le> s" "s < e"
  shows "chain_bytes (range_single_run main (s, e) 0 cls)
    = take (nat (e - s)) (drop (nat s) (chain_bytes (concat cls)))"
proof -
  have run: "chain_bytes (range_single_run main (s, e) offset cls)
      = slice s e offset (chain_bytes (concat cls))" for offset
  proof (induction cls arbitrary: offset)
    case Nil
    then show ?case by (simp add: slice_def)
  next
    case (Cons cl cls)
    obtain offset' out where cl: "range_single_chain main (s, e) offset cl = (offset', out)" by fastforce
    from range_single_chain_slice [OF assms(2) this]
    have out: "chain_bytes out = slice s e offset (chain_bytes cl)"
      and off': "offset' = offset + int (length (chain_bytes cl))
        \<or> e \<le> offset' \<and> offset' \<le> offset + int (length (chain_bytes cl))" by simp_all
    have "slice s e offset' (chain_bytes (concat cls))
        = slice s e (offset + int (length (chain_bytes cl))) (chain_bytes (concat cls))"
      using off' by (auto simp: slice_past)
    with Cons out cl show ?case by (simp add: ngx_http_range_singlepart_body_def slice_append)
  qed
  show ?thesis
    unfolding run using assms by (simp add: slice_def drop_take nat_diff_distrib')
qed

theorem ngx_http_range_singlepart_body_slice_witness:
  "chain_bytes (range_single_run True (2, 5) 0 [[Data_buf [10, 11, 12] False], [Special_buf, Data_buf [13, 14, 15] True]])
    = [12, 13, 14]"
  using ngx_http_range_singlepart_body_slice [of 2 5 True
      "[[Data_buf [10, 11, 12] False], [Special_buf, Data_buf [13, 14, 15] True]]"]
  by (simp add: eval_nat_numeral del: range_single_run.simps)

lemma multipart_body_length:
  assumes "\<forall>p \<in> set parts. 0 \<le> part_start p \<and> part_start p < part_end p \<and> part_end p \<le> int (length d)"
    "4 + NGX_ATOMIC_T_LEN \<le> length boundary_header"
  shows "int (length (chain_bytes (ngx_http_range_multipart_body boundary_header parts d)))
    = range_multipart_length boundary_header parts"
proof -
  have fold: "foldl (\<lambda>len p. len + (int (length boundary_header) + int (length (part_content_range p))
      + (part_end p - part_start p))) z parts
    = z + (\<Sum>p \<leftarrow> parts. int (length boundary_header) + int (length (part_content_range p)) + (part_end p - part_start p))"
    for z by (induction parts arbitrary: z) simp_all
  have one: "int (length (chain_bytes [Data_buf boundary_header False, Data_buf (part_content_range p) False,
      Data_buf (take (nat (part_end p - part_start p)) (drop (nat (part_start p)) d)) False]))
      = int (length boundary_header) + int (length (part_content_range p)) + (part_end p - part_start p)"
    if "p \<in> set parts" for p
  proof -
    have "min (length d - nat (part_start p)) (nat (part_end p - part_start p)) = nat (part_end p - part_start p)"
      using assms(1) that by (auto simp: min_def)
    with assms(1) that show ?thesis by (auto simp: min.commute)
  qed
  have "int (length (chain_bytes (concat (map (\<lambda>p. [Data_buf boundary_header False, Data_buf (part_content_range p) False,
        Data_buf (take (nat (part_end p - part_start p)) (drop (nat (part_start p)) d)) False]) ps))))
      = (\<Sum>p \<leftarrow> ps. int (length boundary_header) + int (length (part_content_range p)) + (part_end p - part_start p))"
    if "set ps \<subseteq> set parts" for ps
    using that by (induction ps) (use one in auto)
  from this [of parts] show ?thesis
    using assms(2) by (simp add: ngx_http_range_multipart_body_def range_multipart_length_def fold)
qed

lemma range_parts_fit:
  assumes "\<forall>(s, e) \<in> set rngs. 0 \<le> s \<and> s < e" "0 \<le> out_length_n h"
    "\<forall>j < length rngs. 3 * NGX_OFF_T_LEN + 2 + 4 \<le> unat (-1 - addr (i + j))"
  shows "\<exists>parts. range_parts addr i h rngs = Some parts \<and> map (\<lambda>p. (part_start p, part_end p)) parts = rngs
    \<and> (\<forall>p \<in> set parts. length (part_content_range p) \<le> 3 * NGX_OFF_T_LEN + 2 + 4)"
  using assms
proof (induction rngs arbitrary: i)
  case (Cons r rngs)
  obtain s e where r: "r = (s, e)" by (cases r)
  have "\<forall>j < length rngs. 3 * NGX_OFF_T_LEN + 2 + 4 \<le> unat (-1 - addr (Suc i + j))"
    using Cons.prems(3) by (metis Suc_less_eq add_Suc_shift length_Cons)
  with Cons.IH [of "Suc i"] Cons.prems obtain parts where "range_parts addr (Suc i) h rngs = Some parts"
    "map (\<lambda>p. (part_start p, part_end p)) parts = rngs"
    "\<forall>p \<in> set parts. length (part_content_range p) \<le> 3 * NGX_OFF_T_LEN + 2 + 4"
    by (auto simp del: range_parts.simps)
  moreover from Cons.prems(3) have "3 * NGX_OFF_T_LEN + 2 + 4 \<le> unat (-1 - addr i)"
    by (metis add.right_neutral length_Cons zero_less_Suc)
  with Cons.prems r range_content_range_fits [of s e h "addr i"] obtain tx where
    "range_content_range (addr i) h (s, e) = Some tx" "length tx \<le> 3 * NGX_OFF_T_LEN + 2 + 4" by auto
  ultimately show ?case using r by auto
qed simp

text \<open>
  C18. A multipart response: each of its texts, the boundary header of the parts, the Content-Type of the
  response and the Content-Range of every part, fits the buffer allocated for it, which ngx_sprintf does
  not check; the boundary that the Content-Type names is the one that the parts begin with; and the body is exactly
  as long as the new Content-Length, so a persistent connection stays in step.
\<close>

theorem ngx_http_range_multipart_length:
  assumes "\<forall>(s, e) \<in> set rngs. 0 \<le> s \<and> s < e \<and> e \<le> int (length d)" "out_length_n h = int (length d)"
    "range_boundary_room h \<le> unat (-1 - addr 0)" "range_content_type_room \<le> unat (-1 - addr 1)"
    "\<forall>i < length rngs. 3 * NGX_OFF_T_LEN + 2 + 4 \<le> unat (-1 - addr (2 + i))"
  shows "\<exists>boundary_header parts h' number.
      ngx_http_range_multipart_header addr h boundary rngs = Some (boundary_header, parts, h')
    \<and> map (\<lambda>p. (part_start p, part_end p)) parts = rngs
    \<and> length boundary_header \<le> range_boundary_room h
    \<and> length (out_content_type h') \<le> range_content_type_room
    \<and> (\<forall>p \<in> set parts. length (part_content_range p) \<le> 3 * NGX_OFF_T_LEN + 2 + 4)
    \<and> out_content_type h' = bytes_of ''multipart/byteranges; boundary='' @ number
    \<and> out_content_type_len h' = length (out_content_type h')
    \<and> take (4 + NGX_ATOMIC_T_LEN) boundary_header = [CR, LF] @ bytes_of ''--'' @ number
    \<and> int (length (chain_bytes (ngx_http_range_multipart_body boundary_header parts d))) = out_length_n h'"
proof -
  from range_boundary_header_fits [OF assms(3)] obtain bh where
    bh: "range_boundary_header (addr 0) h boundary = Some bh" "length bh \<le> range_boundary_room h"
      "4 + NGX_ATOMIC_T_LEN \<le> length bh"
      "take (4 + NGX_ATOMIC_T_LEN) bh = [CR, LF] @ bytes_of ''--'' @ boundary_number boundary" by blast
  from range_parts_fit [of rngs h addr 2] assms obtain parts where
    parts: "range_parts addr 2 h rngs = Some parts" "map (\<lambda>p. (part_start p, part_end p)) parts = rngs"
      "\<forall>p \<in> set parts. length (part_content_range p) \<le> 3 * NGX_OFF_T_LEN + 2 + 4" by fastforce
  have "\<forall>p \<in> set parts. 0 \<le> part_start p \<and> part_start p < part_end p \<and> part_end p \<le> int (length d)"
    using assms(1) parts(2) by force
  from multipart_body_length [OF this bh(3)]
    range_content_type_fits [OF assms(4), of boundary] bh(1,2,4) parts show ?thesis
    by (simp add: ngx_http_range_multipart_header_def range_content_type_room_def)
qed

theorem ngx_http_range_multipart_length_witness:
  "\<exists>boundary_header parts h' number.
      ngx_http_range_multipart_header (\<lambda>i. 4096 * of_nat i)
        \<lparr>out_content_type = bytes_of ''text/plain'', out_content_type_len = 10, out_charset = [], out_length_n = 3\<rparr>
        7 [(0, 1), (1, 3)] = Some (boundary_header, parts, h')
    \<and> map (\<lambda>p. (part_start p, part_end p)) parts = [(0, 1), (1, 3)]
    \<and> length boundary_header \<le> 73
    \<and> length (out_content_type h') \<le> 65
    \<and> (\<forall>p \<in> set parts. length (part_content_range p) \<le> 66)
    \<and> out_content_type h' = bytes_of ''multipart/byteranges; boundary='' @ number
    \<and> out_content_type_len h' = length (out_content_type h')
    \<and> take 24 boundary_header = [CR, LF] @ bytes_of ''--'' @ number
    \<and> int (length (chain_bytes (ngx_http_range_multipart_body boundary_header parts [7, 8, 9]))) = out_length_n h'"
proof -
  let ?h = "\<lparr>out_content_type = bytes_of ''text/plain'', out_content_type_len = 10, out_charset = [], out_length_n = 3\<rparr>"
  have rooms: "range_boundary_room ?h = 73" "range_content_type_room = 65"
    by (simp_all add: range_boundary_room_def range_charset_def range_content_type_room_def)
  have "\<forall>i < length [(0, 1), (1, 3) :: int \<times> int]. 3 * NGX_OFF_T_LEN + 2 + 4 \<le> unat (-1 - 4096 * of_nat (2 + i) :: u64)"
    by (auto simp: less_Suc_eq)
  from ngx_http_range_multipart_length [of "[(0, 1), (1, 3)]" "[7, 8, 9]" ?h
      "\<lambda>i. 4096 * of_nat i" 7, OF _ _ _ _ this]
  show ?thesis unfolding rooms
    by (simp add: unsigned_minus_1_eq_mask mask_eq_exp_minus_1 del: of_nat_numeral)
qed

end
