(* ===== verification/Http_Uri.thy ===== *)
theory Http_Uri
  imports Http_Request_Line "HOL-Library.Sublist"
begin

text \<open>
  Normalisation of URIs in src/http/ngx_http_parse.c: ngx_http_parse_uri() marks what needs
  normalising in a URI that the server made itself, ngx_http_parse_complex_uri() unescapes,
  merges slashes and resolves "." and ".." segments into r->uri. A path separator is "/" (no
  NGX_WIN32).
\<close>

section \<open>ngx_http_parse_uri\<close>

datatype pu_state = psw_start | psw_after_slash_in_uri | psw_check_uri | psw_uri

record parsed_uri =
  pu_state :: pu_state
  pu_pos :: nat
  pu_ext :: "nat option"
  pu_args_start :: "nat option"
  pu_complex :: bool
  pu_quoted :: bool
  pu_plus :: bool
  pu_space :: bool

type_synonym pu_out = "(parsed_uri, parsed_uri) outcome"

definition pu_init :: parsed_uri where
  "pu_init = \<lparr> pu_state = psw_start, pu_pos = 0, pu_ext = None, pu_args_start = None,
     pu_complex = False, pu_quoted = False, pu_plus = False, pu_space = False \<rparr>"

definition pu_start :: "parsed_uri \<Rightarrow> u_char \<Rightarrow> pu_out" where
  "pu_start r c =
     (if c \<noteq> ch CHR ''/'' then Halt r else Go (r\<lparr>pu_state := psw_after_slash_in_uri\<rparr>))"

definition pu_after_slash_in_uri :: "parsed_uri \<Rightarrow> u_char \<Rightarrow> pu_out" where
  "pu_after_slash_in_uri r c =
     (if is_usual c then Go (r\<lparr>pu_state := psw_check_uri\<rparr>)
      else if c = ch CHR '' '' then Go (r\<lparr>pu_space := True, pu_state := psw_check_uri\<rparr>)
      else if c = ch CHR ''.'' then Go (r\<lparr>pu_complex := True, pu_state := psw_uri\<rparr>)
      else if c = ch CHR ''%'' then Go (r\<lparr>pu_quoted := True, pu_state := psw_uri\<rparr>)
      else if c = ch CHR ''/'' then Go (r\<lparr>pu_complex := True, pu_state := psw_uri\<rparr>)
      else if c = ch CHR ''?'' then Go (r\<lparr>pu_args_start := Some (pu_pos r + 1), pu_state := psw_uri\<rparr>)
      else if c = ch CHR ''#'' then Go (r\<lparr>pu_complex := True, pu_state := psw_uri\<rparr>)
      else if c = ch CHR ''+'' then Go (r\<lparr>pu_plus := True\<rparr>)
      else Go (r\<lparr>pu_state := psw_check_uri\<rparr>))"

definition pu_check_uri :: "parsed_uri \<Rightarrow> u_char \<Rightarrow> pu_out" where
  "pu_check_uri r c =
     (if is_usual c then Go r
      else if c = ch CHR ''/'' then Go (r\<lparr>pu_ext := None, pu_state := psw_after_slash_in_uri\<rparr>)
      else if c = ch CHR ''.'' then Go (r\<lparr>pu_ext := Some (pu_pos r + 1)\<rparr>)
      else if c = ch CHR '' '' then Go (r\<lparr>pu_space := True\<rparr>)
      else if c = ch CHR ''%'' then Go (r\<lparr>pu_quoted := True, pu_state := psw_uri\<rparr>)
      else if c = ch CHR ''?'' then Go (r\<lparr>pu_args_start := Some (pu_pos r + 1), pu_state := psw_uri\<rparr>)
      else if c = ch CHR ''#'' then Go (r\<lparr>pu_complex := True, pu_state := psw_uri\<rparr>)
      else if c = ch CHR ''+'' then Go (r\<lparr>pu_plus := True\<rparr>)
      else Go r)"

definition pu_uri :: "parsed_uri \<Rightarrow> u_char \<Rightarrow> pu_out" where
  "pu_uri r c =
     (if is_usual c then Go r
      else if c = ch CHR '' '' then Go (r\<lparr>pu_space := True\<rparr>)
      else if c = ch CHR ''#'' then Go (r\<lparr>pu_complex := True\<rparr>)
      else Go r)"

definition pu_step :: "parsed_uri \<Rightarrow> u_char \<Rightarrow> pu_out" where
  "pu_step r c =
     (case (case pu_state r of
              psw_start \<Rightarrow> pu_start r c
            | psw_after_slash_in_uri \<Rightarrow> pu_after_slash_in_uri r c
            | psw_check_uri \<Rightarrow> pu_check_uri r c
            | psw_uri \<Rightarrow> pu_uri r c) of
        Go r' \<Rightarrow> Go (r'\<lparr>pu_pos := pu_pos r' + 1\<rparr>)
      | Halt r' \<Rightarrow> Halt r')"

text \<open>The bytes from uri_start to uri_end; None is NGX_ERROR.\<close>

definition ngx_http_parse_uri :: "bytes \<Rightarrow> parsed_uri option" where
  "ngx_http_parse_uri s = (case feed pu_step pu_init s of Go r \<Rightarrow> Some r | Halt _ \<Rightarrow> None)"

section \<open>ngx_http_parse_complex_uri\<close>

datatype cu_state = usw_usual | usw_slash | usw_dot | usw_dot_dot

text \<open>
  sw_quoted and sw_quoted_second remember the state to return to, which is never one of
  them. \<open>out\<close> is what has been written from r->uri.data to u; \<open>ext\<close> is r->uri_ext as an
  offset in it.
\<close>

datatype cu_mode = Plain cu_state | Quoted cu_state | Quoted_second cu_state u_char

record complex_uri_in =
  mode :: cu_mode
  out :: bytes
  ext :: "nat option"
  cu_plus :: bool
  cu_quoted :: bool

datatype cu_halt = CU_done | CU_args | CU_invalid

type_synonym cu_out = "(complex_uri_in, cu_halt \<times> complex_uri_in) outcome"

definition cu_put :: "cu_state \<Rightarrow> u_char \<Rightarrow> complex_uri_in \<Rightarrow> complex_uri_in" where
  "cu_put st c r = r\<lparr>mode := Plain st, out := out r @ [c]\<rparr>"

text \<open>\<open>case '+': r->plus_in_uri = 1; fall through; default: *u++ = ch\<close>.\<close>

definition cu_other :: "u_char \<Rightarrow> complex_uri_in \<Rightarrow> cu_out" where
  "cu_other c r = Go (cu_put usw_usual c (if c = ch CHR ''+'' then r\<lparr>cu_plus := True\<rparr> else r))"

definition cu_usual :: "complex_uri_in \<Rightarrow> u_char \<Rightarrow> cu_out" where
  "cu_usual r c =
     (if is_usual c then Go (cu_put usw_usual c r)
      else if c = ch CHR ''/'' then Go (cu_put usw_slash c (r\<lparr>ext := None\<rparr>))
      else if c = ch CHR ''%'' then Go (r\<lparr>mode := Quoted usw_usual\<rparr>)
      else if c = ch CHR ''?'' then Halt (CU_args, r)
      else if c = ch CHR ''#'' then Halt (CU_done, r)
      else if c = ch CHR ''.'' then Go (cu_put usw_usual c (r\<lparr>ext := Some (length (out r) + 1)\<rparr>))
      else cu_other c r)"

definition cu_slash :: "bool \<Rightarrow> complex_uri_in \<Rightarrow> u_char \<Rightarrow> cu_out" where
  "cu_slash merge_slashes r c =
     (if is_usual c then Go (cu_put usw_usual c r)
      else if c = ch CHR ''/'' then
        (if \<not> merge_slashes then Go (cu_put usw_slash c r) else Go (r\<lparr>mode := Plain usw_slash\<rparr>))
      else if c = ch CHR ''.'' then Go (cu_put usw_dot c r)
      else if c = ch CHR ''%'' then Go (r\<lparr>mode := Quoted usw_slash\<rparr>)
      else if c = ch CHR ''?'' then Halt (CU_args, r)
      else if c = ch CHR ''#'' then Halt (CU_done, r)
      else cu_other c r)"

definition cu_dot :: "complex_uri_in \<Rightarrow> u_char \<Rightarrow> cu_out" where
  "cu_dot r c =
     (if is_usual c then Go (cu_put usw_usual c r)
      else if c = ch CHR ''/'' then Go (r\<lparr>mode := Plain usw_slash, out := butlast (out r)\<rparr>)
      else if c = ch CHR ''.'' then Go (cu_put usw_dot_dot c r)
      else if c = ch CHR ''%'' then Go (r\<lparr>mode := Quoted usw_dot\<rparr>)
      else if c = ch CHR ''?'' then Halt (CU_args, r)
      else if c = ch CHR ''#'' then Halt (CU_done, r)
      else cu_other c r)"

text \<open>
  \<open>u -= 5\<close> and the loop back to the slash before the last segment; with \<open>u\<close> below
  r->uri.data the URI climbs above the root. The argument is \<open>u + 1\<close>.
\<close>

fun cu_scan :: "bytes \<Rightarrow> nat \<Rightarrow> bytes option" where
  "cu_scan s 0 = None"
| "cu_scan s (Suc u) = (if s ! u = ch CHR ''/'' then Some (take (Suc u) s) else cu_scan s u)"

definition cu_dot_dot :: "complex_uri_in \<Rightarrow> u_char \<Rightarrow> cu_out" where
  "cu_dot_dot r c =
     (if is_usual c then Go (cu_put usw_usual c r)
      else if c = ch CHR ''/'' then
        (case cu_scan (out r) (length (out r) - 4) of
           None \<Rightarrow> Halt (CU_invalid, r)
         | Some s \<Rightarrow> Go (r\<lparr>mode := Plain usw_slash, out := s\<rparr>))
      else if c = ch CHR ''%'' then Go (r\<lparr>mode := Quoted usw_dot_dot\<rparr>)
      else if c = ch CHR ''?'' then Halt (CU_args, r)
      else if c = ch CHR ''#'' then Halt (CU_done, r)
      else cu_other c r)"

definition cu_plain :: "bool \<Rightarrow> cu_state \<Rightarrow> complex_uri_in \<Rightarrow> u_char \<Rightarrow> cu_out" where
  "cu_plain merge_slashes st r c =
     (case st of
        usw_usual \<Rightarrow> cu_usual r c
      | usw_slash \<Rightarrow> cu_slash merge_slashes r c
      | usw_dot \<Rightarrow> cu_dot r c
      | usw_dot_dot \<Rightarrow> cu_dot_dot r c)"

definition cu_quote :: "cu_state \<Rightarrow> complex_uri_in \<Rightarrow> u_char \<Rightarrow> cu_out" where
  "cu_quote st r c =
     (let r = r\<lparr>cu_quoted := True\<rparr>
      in if is_digit c then Go (r\<lparr>mode := Quoted_second st (c - ch CHR ''0'')\<rparr>)
         else if is_af20 c then
           Go (r\<lparr>mode := Quoted_second st ((c OR 0x20) - ch CHR ''a'' + 10)\<rparr>)
         else Halt (CU_invalid, r))"

text \<open>
  The decoded byte is either written at once or, with \<open>state = quoted_state; break\<close>, taken by
  the remembered state in the next round of the loop, which reads no new byte.
\<close>

definition cu_quote_second :: "bool \<Rightarrow> cu_state \<Rightarrow> u_char \<Rightarrow> complex_uri_in \<Rightarrow> u_char \<Rightarrow> cu_out" where
  "cu_quote_second merge_slashes st decoded r c =
     (if is_digit c then
        (let c' = push_bit 4 decoded + c - ch CHR ''0''
         in if c' = ch CHR ''%'' \<or> c' = ch CHR ''#'' then Go (cu_put usw_usual c' r)
            else if c' = 0 then Halt (CU_invalid, r)
            else cu_plain merge_slashes st (r\<lparr>mode := Plain st\<rparr>) c')
      else if is_af20 c then
        (let c' = push_bit 4 decoded + (c OR 0x20) - ch CHR ''a'' + 10
         in if c' = ch CHR ''?'' then Go (cu_put usw_usual c' r)
            else
              (let r = (if c' = ch CHR ''+'' then r\<lparr>cu_plus := True\<rparr> else r)
               in cu_plain merge_slashes st (r\<lparr>mode := Plain st\<rparr>) c'))
      else Halt (CU_invalid, r))"

definition cu_step :: "bool \<Rightarrow> complex_uri_in \<Rightarrow> u_char \<Rightarrow> cu_out" where
  "cu_step merge_slashes r c =
     (case mode r of
        Plain st \<Rightarrow> cu_plain merge_slashes st r c
      | Quoted st \<Rightarrow> cu_quote st r c
      | Quoted_second st decoded \<Rightarrow> cu_quote_second merge_slashes st decoded r c)"

record complex_uri_res =
  res_uri :: bytes
  res_exten :: "bytes option"
  res_args_start :: "nat option"
  res_args :: "bytes option"
  res_plus :: bool
  res_quoted :: bool

definition cu_result :: "complex_uri_in \<Rightarrow> complex_uri_res" where
  "cu_result r = \<lparr> res_uri = out r, res_exten = map_option (\<lambda>e. drop e (out r)) (ext r),
     res_args_start = None, res_args = None, res_plus = cu_plus r, res_quoted = cu_quoted r \<rparr>"

text \<open>\<open>args:\<close>, with \<open>rest\<close> the bytes after the question mark: a fragment ends the arguments.\<close>

definition cu_args :: "nat \<Rightarrow> bytes \<Rightarrow> complex_uri_res \<Rightarrow> complex_uri_res" where
  "cu_args start rest res =
     (if ch CHR ''#'' \<in> set rest
      then res\<lparr>res_args := Some (takeWhile (\<lambda>c. c \<noteq> ch CHR ''#'') rest)\<rparr>
      else res\<lparr>res_args_start := Some start\<rparr>)"

definition cu_init :: "bool \<Rightarrow> bool \<Rightarrow> complex_uri_in" where
  "cu_init plus_in quoted_in = \<lparr> mode = Plain usw_usual, out = [], ext = None,
     cu_plus = plus_in, cu_quoted = quoted_in \<rparr>"

text \<open>\<open>s\<close>: the bytes from uri_start to uri_end. None is NGX_HTTP_PARSE_INVALID_REQUEST.\<close>

definition ngx_http_parse_complex_uri :: "bool \<Rightarrow> bool \<Rightarrow> bool \<Rightarrow> bytes \<Rightarrow> complex_uri_res option" where
  "ngx_http_parse_complex_uri merge_slashes plus_in quoted_in s =
     (case feed (cu_step merge_slashes) (cu_init plus_in quoted_in) s of
        Go r \<Rightarrow> Some (cu_result r)
      | Halt ((CU_done, r), rest) \<Rightarrow> Some (cu_result r)
      | Halt ((CU_args, r), rest) \<Rightarrow> Some (cu_args (length s - length rest) rest (cu_result r))
      | Halt ((CU_invalid, r), rest) \<Rightarrow> None)"

section \<open>No dot segment survives\<close>

abbreviation slash_dot :: bytes where "slash_dot \<equiv> bytes_of ''/.''"
abbreviation slash_dot_dot :: bytes where "slash_dot_dot \<equiv> bytes_of ''/..''"

definition no_dot_segment :: "bytes \<Rightarrow> bool" where
  "no_dot_segment s \<longleftrightarrow> \<not> sublist (bytes_of ''/./'') s \<and> \<not> sublist (bytes_of ''/../'') s"

definition no_empty_segment :: "bytes \<Rightarrow> bool" where
  "no_empty_segment s \<longleftrightarrow> \<not> sublist (bytes_of ''//'') s"

lemma sublist_snoc: "sublist p (s @ [c]) \<longleftrightarrow> sublist p s \<or> suffix p (s @ [c])"
proof -
  have "sublist p (s @ [c]) \<longleftrightarrow> sublist (rev p) (c # rev s)"
    by (metis rev.simps(2) rev_rev_ident sublist_rev)
  also have "\<dots> \<longleftrightarrow> prefix (rev p) (c # rev s) \<or> sublist (rev p) (rev s)"
    by (simp add: sublist_Cons_right)
  also have "prefix (rev p) (c # rev s) \<longleftrightarrow> suffix p (s @ [c])"
    by (simp add: suffix_to_prefix)
  finally show ?thesis by auto
qed

lemma no_dot_segment_snoc:
  "no_dot_segment (s @ [c]) \<longleftrightarrow> no_dot_segment s
     \<and> (c = ch CHR ''/'' \<longrightarrow> \<not> suffix slash_dot s \<and> \<not> suffix slash_dot_dot s)"
  by (auto simp: no_dot_segment_def sublist_snoc suffix_snoc)

lemma no_dot_segment_prefix: "\<lbrakk>no_dot_segment s; prefix t s\<rbrakk> \<Longrightarrow> no_dot_segment t"
  by (auto simp: no_dot_segment_def dest: prefix_imp_sublist sublist_order.order.trans)

lemma no_dot_segment_Nil [simp]: "no_dot_segment []"
  by (simp add: no_dot_segment_def)

lemma cu_scan_Some:
  "cu_scan s n = Some t \<Longrightarrow> prefix t s \<and> suffix [ch CHR ''/''] t \<or> length s < n"
proof (induction n)
  case 0
  then show ?case by simp
next
  case (Suc n)
  show ?case
  proof (cases "n < length s")
    case True
    then show ?thesis
      using Suc take_is_prefix [of "Suc n" s]
      by (auto simp: take_Suc_conv_app_nth suffix_def split: if_splits)
  qed simp
qed

definition ends_dotty :: "bytes \<Rightarrow> bool" where
  "ends_dotty s \<longleftrightarrow> suffix [ch CHR ''/''] s \<or> suffix slash_dot s \<or> suffix slash_dot_dot s"

definition cu_ok :: "cu_state \<Rightarrow> bytes \<Rightarrow> bool" where
  "cu_ok st s \<longleftrightarrow> no_dot_segment s \<and>
     (case st of
        usw_usual \<Rightarrow> \<not> ends_dotty s
      | usw_slash \<Rightarrow> suffix [ch CHR ''/''] s
      | usw_dot \<Rightarrow> suffix slash_dot s
      | usw_dot_dot \<Rightarrow> suffix slash_dot_dot s)"

definition cu_inv :: "complex_uri_in \<Rightarrow> bool" where
  "cu_inv r \<longleftrightarrow> (case mode r of Plain st \<Rightarrow> cu_ok st (out r) | Quoted st \<Rightarrow> cu_ok st (out r)
     | Quoted_second st _ \<Rightarrow> cu_ok st (out r))"

definition cu_post :: "cu_halt \<times> complex_uri_in \<Rightarrow> bool" where
  "cu_post = (\<lambda>(h, r). no_dot_segment (out r))"

lemma suffix_slash_cases:
  "suffix [47] (s :: bytes) \<Longrightarrow> \<not> suffix [47, 46] s \<and> \<not> suffix [47, 46, 46] s"
  "suffix [47, 46] s \<Longrightarrow> \<not> suffix [47] s \<and> \<not> suffix [47, 46, 46] s"
  "suffix [47, 46, 46] s \<Longrightarrow> \<not> suffix [47] s \<and> \<not> suffix [47, 46] s"
  by (auto simp: suffix_def)

lemma cu_ok_usual_snoc:
  "\<lbrakk>no_dot_segment s; c \<noteq> ch CHR ''/''; c \<noteq> ch CHR ''.'' \<or> cu_ok usw_usual s \<or> cu_ok usw_dot_dot s\<rbrakk>
   \<Longrightarrow> cu_ok usw_usual (s @ [c])"
  by (auto simp: cu_ok_def no_dot_segment_snoc ends_dotty_def suffix_snoc dest: suffix_slash_cases)

lemma cu_ok_slash_snoc: "cu_ok usw_usual s \<Longrightarrow> cu_ok usw_slash (s @ [ch CHR ''/''])"
  by (auto simp: cu_ok_def no_dot_segment_snoc ends_dotty_def)

lemma cu_ok_dot_snoc:
  "cu_ok usw_slash s \<Longrightarrow> cu_ok usw_dot (s @ [ch CHR ''.''])"
  "cu_ok usw_dot s \<Longrightarrow> cu_ok usw_dot_dot (s @ [ch CHR ''.''])"
  by (auto simp: cu_ok_def no_dot_segment_snoc suffix_snoc)

lemma cu_ok_slash_slash: "cu_ok usw_slash s \<Longrightarrow> cu_ok usw_slash (s @ [ch CHR ''/''])"
  by (auto simp: cu_ok_def no_dot_segment_snoc dest: suffix_slash_cases)

lemma cu_ok_dot_pop: "cu_ok usw_dot s \<Longrightarrow> cu_ok usw_slash (butlast s)"
  using no_dot_segment_prefix [of s "butlast s"] prefixeq_butlast [of s]
  by (auto simp: cu_ok_def suffix_def butlast_append)

lemma cu_ok_dot_dot_pop:
  "\<lbrakk>cu_ok usw_dot_dot s; cu_scan s (length s - 4) = Some t\<rbrakk> \<Longrightarrow> cu_ok usw_slash t"
  using cu_scan_Some [of s "length s - 4" t] no_dot_segment_prefix [of s t]
  by (auto simp: cu_ok_def)

lemma cu_ok_nds: "cu_ok st s \<Longrightarrow> no_dot_segment s"
  by (simp add: cu_ok_def)

lemma cu_other_inv:
  "\<lbrakk>cu_other c r = Go r'; cu_ok st (out r); c \<noteq> ch CHR ''/'';
    c \<noteq> ch CHR ''.'' \<or> st = usw_usual \<or> st = usw_dot_dot\<rbrakk> \<Longrightarrow> cu_inv r'"
  using cu_ok_usual_snoc [of "out r" c] cu_ok_nds [of st "out r"]
  by (auto simp: cu_other_def cu_inv_def cu_put_def split: if_splits)

lemma cu_plain_inv:
  assumes "cu_ok st (out r)" "cu_plain merge st r c = Go r'"
  shows "cu_inv r'"
proof (cases "is_usual c")
  case True
  with usual_not [OF True] assms cu_ok_usual_snoc [of "out r" c] cu_ok_nds [OF assms(1)]
  show ?thesis
    by (auto simp: cu_plain_def cu_usual_def cu_slash_def cu_dot_def cu_dot_dot_def
        cu_put_def cu_inv_def split: cu_state.splits)
next
  case False
  note snoc = cu_ok_usual_snoc [of "out r" "ch CHR ''.''"] cu_ok_nds [OF assms(1)]
    cu_ok_slash_snoc [of "out r"] cu_ok_dot_snoc [of "out r"] cu_ok_slash_slash [of "out r"]
    cu_ok_dot_pop [of "out r"]
  consider "c = ch CHR ''/''" | "c = ch CHR ''%''" | "c = ch CHR ''?''" | "c = ch CHR ''#''"
    | "c = ch CHR ''.''" | "c \<notin> set (bytes_of ''/%?#.'')" by auto
  then show ?thesis
  proof cases
    case 1
    then show ?thesis
      using assms False snoc cu_ok_dot_dot_pop [of "out r"]
      by (cases st) (auto simp: cu_plain_def cu_usual_def cu_slash_def cu_dot_def cu_dot_dot_def
          cu_put_def cu_inv_def split: if_splits option.splits)
  next
    case 2
    then show ?thesis
      using assms False
      by (cases st) (auto simp: cu_plain_def cu_usual_def cu_slash_def cu_dot_def cu_dot_dot_def
          cu_inv_def)
  next
    case 5
    then show ?thesis
      using assms False snoc
      by (cases st) (auto simp: cu_plain_def cu_usual_def cu_slash_def cu_dot_def cu_dot_dot_def
          cu_put_def cu_inv_def cu_other_def)
  next
    case 6
    then have "cu_other c r = Go r'"
      using assms False
      by (cases st) (auto simp: cu_plain_def cu_usual_def cu_slash_def cu_dot_def cu_dot_dot_def)
    then show ?thesis by (rule cu_other_inv [OF _ assms(1)]) (use 6 in auto)
  qed (use assms False in \<open>cases st; auto simp: cu_plain_def cu_usual_def cu_slash_def cu_dot_def
      cu_dot_dot_def\<close>)+
qed

lemma cu_plain_post:
  "\<lbrakk>no_dot_segment (out r); cu_plain merge st r c = Halt h\<rbrakk> \<Longrightarrow> cu_post h"
  by (cases st) (auto simp: cu_plain_def cu_usual_def cu_slash_def cu_dot_def cu_dot_dot_def
      cu_post_def cu_other_def split: if_splits option.splits)

lemma cu_plain_post':
  "\<lbrakk>cu_plain merge st r c = Halt (h, r'); no_dot_segment (out r)\<rbrakk> \<Longrightarrow> no_dot_segment (out r')"
  using cu_plain_post [of r merge st c "(h, r')"] by (simp add: cu_post_def)

lemma special_cu_ok:
  "cu_ok st s \<Longrightarrow> cu_ok usw_usual (s @ [37])"
  "cu_ok st s \<Longrightarrow> cu_ok usw_usual (s @ [35])"
  "cu_ok st s \<Longrightarrow> cu_ok usw_usual (s @ [63])"
  using cu_ok_usual_snoc [of s] cu_ok_nds [of st s] by auto

interpretation cu: byte_machine "cu_step merge" cu_inv cu_post for merge
proof
  show "cu_inv r'" if "cu_inv r" "cu_step merge r c = Go r'" for r c r'
  proof (cases "mode r")
    case (Plain st)
    with that show ?thesis by (intro cu_plain_inv [of st r]) (simp_all add: cu_inv_def cu_step_def)
  next
    case (Quoted st)
    with that show ?thesis by (auto simp: cu_inv_def cu_step_def cu_quote_def Let_def split: if_splits)
  next
    case (Quoted_second st d)
    with that(1) have ok: "cu_ok st (out r)" by (simp add: cu_inv_def)
    have plain: "cu_inv r'" if "cu_plain merge st (r1\<lparr>mode := Plain st\<rparr>) c' = Go r'" "out r1 = out r" for r1 c'
      using that ok by (intro cu_plain_inv [of st "r1\<lparr>mode := Plain st\<rparr>" merge c']) simp_all
    from that(2) Quoted_second ok show ?thesis
      by (auto simp: cu_step_def cu_quote_second_def Let_def cu_put_def cu_inv_def
          intro: special_cu_ok plain [unfolded cu_inv_def] split: if_splits)
  qed
  show "cu_post h" if "cu_inv r" "cu_step merge r c = Halt h" for r c h
  proof -
    have nds: "no_dot_segment (out r)"
      using that(1) cu_ok_nds by (auto simp: cu_inv_def split: cu_mode.splits)
    then show ?thesis
      using that(2)
      by (auto simp: cu_step_def cu_quote_def cu_quote_second_def Let_def cu_post_def
          split: cu_mode.splits if_splits elim!: cu_plain_post')
  qed
qed

lemma complex_uri_no_dot_segment:
  "case ngx_http_parse_complex_uri merge p q s of
     Some res \<Rightarrow> \<not> sublist (bytes_of ''/./'') (res_uri res) \<and> \<not> sublist (bytes_of ''/../'') (res_uri res)
   | None \<Rightarrow> True"
proof -
  have init: "cu_inv (cu_init p q)"
    by (simp add: cu_inv_def cu_init_def cu_ok_def ends_dotty_def)
  have go: "no_dot_segment (out r)" if "feed (cu_step merge) (cu_init p q) s = Go r" for r
    using cu.feed_inv [OF init that] cu_ok_nds by (auto simp: cu_inv_def split: cu_mode.splits)
  have halt: "no_dot_segment (out r)" if "feed (cu_step merge) (cu_init p q) s = Halt ((h, r), rest)" for h r rest
    using cu.feed_post [OF init that] by (simp add: cu_post_def)
  show ?thesis
    using go halt
    by (auto simp: ngx_http_parse_complex_uri_def cu_result_def cu_args_def no_dot_segment_def
        split: outcome.splits cu_halt.splits)
qed

text \<open>
  Whatever the URI, escaped or not, and whatever merge_slashes: if
  ngx_http_parse_complex_uri accepts it, the path it produces has no "." and no ".." segment
  that is followed by a slash, also when the dots or the slashes came from escapes.
\<close>
theorem ngx_http_parse_complex_uri_no_dot_segment:
  "case ngx_http_parse_complex_uri merge p q s of
     Some res \<Rightarrow> \<not> sublist (bytes_of ''/./'') (res_uri res) \<and> \<not> sublist (bytes_of ''/../'') (res_uri res)
   | None \<Rightarrow> True"
  by (rule complex_uri_no_dot_segment)

section \<open>Segments\<close>

text \<open>
  The reference: the complete segments of a path on a stack, nothing for the empty segment
  and ".", the last one dropped for "..", which the root does not have.
\<close>

fun resolve :: "bytes list \<Rightarrow> bytes list \<Rightarrow> bytes list option" where
  "resolve stack [] = Some stack"
| "resolve stack (g # gs) =
     (if g = [] \<or> g = bytes_of ''.'' then resolve stack gs
      else if g = bytes_of ''..'' then
        (if stack = [] then None else resolve (butlast stack) gs)
      else resolve (stack @ [g]) gs)"

definition unsplit :: "bytes list \<Rightarrow> bytes" where
  "unsplit gs = ch CHR ''/'' # concat (map (\<lambda>g. g @ [ch CHR ''/'']) gs)"

definition seg_byte :: "u_char \<Rightarrow> bool" where
  "seg_byte c \<longleftrightarrow> c \<notin> set (bytes_of ''/%#?'')"

definition seg_state :: "bytes \<Rightarrow> cu_state" where
  "seg_state g = (if g = [] then usw_slash else if g = bytes_of ''.'' then usw_dot
     else if g = bytes_of ''..'' then usw_dot_dot else usw_usual)"

lemma unsplit_snoc: "unsplit (gs @ [g]) = unsplit gs @ g @ [ch CHR ''/'']"
  by (simp add: unsplit_def)

lemma unsplit_last: "unsplit gs \<noteq> [] \<and> last (unsplit gs) = ch CHR ''/''"
  by (cases gs rule: rev_cases) (simp_all add: unsplit_def)

lemma seg_byte_step:
  assumes "mode r = Plain (seg_state g)" "seg_byte c"
  shows "\<exists>r'. cu_step merge r c = Go r' \<and> mode r' = Plain (seg_state (g @ [c])) \<and> out r' = out r @ [c]"
  using assms usual_not [of c]
  by (cases "is_usual c")
    (auto simp: seg_state_def seg_byte_def cu_step_def cu_plain_def cu_usual_def cu_slash_def
      cu_dot_def cu_dot_dot_def cu_put_def cu_other_def append_eq_Cons_conv)

lemma feed_segment:
  "\<lbrakk>mode r = Plain usw_slash; list_all seg_byte g\<rbrakk>
   \<Longrightarrow> \<exists>r'. feed (cu_step merge) r g = Go r' \<and> mode r' = Plain (seg_state g) \<and> out r' = out r @ g"
proof (induction g rule: rev_induct)
  case Nil
  then show ?case by (simp add: seg_state_def)
next
  case (snoc c g)
  then obtain r1 where "feed (cu_step merge) r g = Go r1" "mode r1 = Plain (seg_state g)"
    "out r1 = out r @ g" by auto
  with seg_byte_step [of r1 g c merge] snoc.prems show ?case by (auto simp: feed_append)
qed

lemma cu_scan_segment:
  "\<lbrakk>ch CHR ''/'' \<notin> set g; pre \<noteq> []; last pre = ch CHR ''/''\<rbrakk>
   \<Longrightarrow> cu_scan (pre @ g @ z) (length pre + length g) = Some pre"
proof (induction g arbitrary: z rule: rev_induct)
  case Nil
  then show ?case by (cases pre rule: rev_cases) (simp_all add: nth_append)
next
  case (snoc c g)
  then show ?case by (simp add: nth_append)
qed

definition good_stack :: "bytes list \<Rightarrow> bool" where
  "good_stack stack \<longleftrightarrow> (\<forall>h\<in>set stack. h \<noteq> [] \<and> ch CHR ''/'' \<notin> set h)"

lemma cu_scan_pop:
  assumes "good_stack (stack @ [h])"
  shows "cu_scan (unsplit (stack @ [h]) @ bytes_of ''..'') (length (unsplit (stack @ [h])) - 2)
    = Some (unsplit stack)"
proof -
  obtain h' x where h: "h = h' @ [x]" using assms by (cases h rule: rev_cases) (auto simp: good_stack_def)
  then have "ch CHR ''/'' \<notin> set h'" using assms by (simp add: good_stack_def)
  from cu_scan_segment [OF this, of "unsplit stack" "x # ch CHR ''/'' # bytes_of ''..''"]
  show ?thesis using unsplit_last [of stack] by (simp add: unsplit_snoc h)
qed

text \<open>One complete segment, from behind a slash to behind the next.\<close>

lemma feed_complete_segment:
  assumes r: "mode r = Plain usw_slash" "out r = unsplit stack" and g: "list_all seg_byte g"
    and stack: "good_stack stack"
  shows "case resolve stack [g] of
      None \<Rightarrow> \<exists>r'. feed (cu_step True) r (g @ [ch CHR ''/'']) = Halt ((CU_invalid, r'), [])
    | Some st \<Rightarrow> \<exists>r'. feed (cu_step True) r (g @ [ch CHR ''/'']) = Go r'
        \<and> mode r' = Plain usw_slash \<and> out r' = unsplit st \<and> good_stack st"
proof -
  obtain r1 where r1: "feed (cu_step True) r g = Go r1" "mode r1 = Plain (seg_state g)"
    "out r1 = unsplit stack @ g" using feed_segment [OF r(1) g] r(2) by auto
  have nu: "\<not> is_usual (ch CHR ''/'')" by (simp add: is_usual_def in_bitmap_def usual_def)
  have fin: "feed (cu_step True) r (g @ [ch CHR ''/'']) = feed (cu_step True) r1 [ch CHR ''/'']"
    using r1(1) by (rule feed_Go_append)
  consider "g = []" | "g = bytes_of ''.''" | "g = bytes_of ''..''" "stack = []"
    | s h where "g = bytes_of ''..''" "stack = s @ [h]"
    | "g \<noteq> []" "g \<noteq> bytes_of ''.''" "g \<noteq> bytes_of ''..''"
    by (metis rev_exhaust)
  then show ?thesis
  proof cases
    case 1
    then show ?thesis
      unfolding fin using r1(2,3) nu stack by (simp add: cu_step_def seg_state_def cu_plain_def cu_slash_def)
  next
    case 2
    then show ?thesis
      unfolding fin using r1(2,3) nu stack
      by (simp add: cu_step_def seg_state_def cu_plain_def cu_dot_def butlast_append)
  next
    case 3
    then show ?thesis
      unfolding fin using r1(2,3) nu by (simp add: cu_step_def seg_state_def cu_plain_def cu_dot_dot_def unsplit_def)
  next
    case 4
    have "length (out r1) - 4 = length (unsplit (s @ [h])) - 2"
      using r1(3) 4 by (simp add: unsplit_snoc)
    then have "cu_scan (out r1) (length (out r1) - 4) = Some (unsplit s)"
      using cu_scan_pop [of s h] stack r1(3) 4 by simp
    with 4 r1(2,3) nu stack show ?thesis
      unfolding fin by (simp add: cu_step_def seg_state_def cu_plain_def cu_dot_dot_def good_stack_def)
  next
    case 5
    then have "resolve stack [g] = Some (stack @ [g])" by simp
    moreover have "ch CHR ''/'' \<notin> set g" using g by (auto simp: list_all_iff seg_byte_def)
    ultimately show ?thesis
      unfolding fin using 5 r1(2,3) nu stack
      by (simp add: cu_step_def seg_state_def cu_plain_def cu_usual_def cu_put_def
          good_stack_def unsplit_snoc ball_Un)
  qed
qed

lemma feed_segments:
  "\<lbrakk>mode r = Plain usw_slash; out r = unsplit stack; good_stack stack; list_all (list_all seg_byte) gs\<rbrakk>
   \<Longrightarrow> case resolve stack gs of
      None \<Rightarrow> \<exists>r' rest. feed (cu_step True) r (concat (map (\<lambda>g. g @ [ch CHR ''/'']) gs))
        = Halt ((CU_invalid, r'), rest)
    | Some st \<Rightarrow> \<exists>r'. feed (cu_step True) r (concat (map (\<lambda>g. g @ [ch CHR ''/'']) gs)) = Go r'
        \<and> mode r' = Plain usw_slash \<and> out r' = unsplit st"
proof (induction gs arbitrary: r stack)
  case Nil
  then show ?case by simp
next
  case (Cons g gs)
  let ?tail = "concat (map (\<lambda>g. g @ [ch CHR ''/'']) gs)"
  have split: "concat (map (\<lambda>g. g @ [ch CHR ''/'']) (g # gs)) = (g @ [ch CHR ''/'']) @ ?tail" by simp
  have res: "resolve stack (g # gs)
      = (case resolve stack [g] of None \<Rightarrow> None | Some st \<Rightarrow> resolve st gs)" by simp
  have one: "case resolve stack [g] of
      None \<Rightarrow> \<exists>r'. feed (cu_step True) r (g @ [ch CHR ''/'']) = Halt ((CU_invalid, r'), [])
    | Some st \<Rightarrow> \<exists>r'. feed (cu_step True) r (g @ [ch CHR ''/'']) = Go r'
        \<and> mode r' = Plain usw_slash \<and> out r' = unsplit st \<and> good_stack st"
    using feed_complete_segment Cons.prems by simp
  show ?case
  proof (cases "resolve stack [g]")
    case None
    with one show ?thesis unfolding split feed_append res by auto
  next
    case (Some st)
    with one obtain r1 where r1: "feed (cu_step True) r (g @ [ch CHR ''/'']) = Go r1"
      "mode r1 = Plain usw_slash" "out r1 = unsplit st" "good_stack st" by auto
    have "feed (cu_step True) r ((g @ [ch CHR ''/'']) @ ?tail) = feed (cu_step True) r1 ?tail"
      using r1(1) by (rule feed_Go_append)
    moreover have "list_all (list_all seg_byte) gs" using Cons.prems(4) by simp
    ultimately show ?thesis
      using Cons.IH [OF r1(2-4)] unfolding split res Some option.case by (simp only:)
  qed
qed

text \<open>
  C6. On a URI without escapes, arguments and fragment, and with merge_slashes on,
  ngx_http_parse_complex_uri computes the resolution of its segments: the complete segments
  are resolved on a stack, a ".." above the root is refused, and what follows the last slash is
  kept as it is.
\<close>
theorem ngx_http_parse_complex_uri_resolves:
  assumes "list_all (list_all seg_byte) gs" "list_all seg_byte g"
  shows "map_option res_uri (ngx_http_parse_complex_uri True p q (unsplit gs @ g))
    = map_option (\<lambda>stack. unsplit stack @ g) (resolve [] gs)"
proof -
  let ?r0 = "cu_init p q"
  let ?r1 = "cu_put usw_slash (ch CHR ''/'') ?r0"
  have nu: "\<not> is_usual (ch CHR ''/'')" by (simp add: is_usual_def in_bitmap_def usual_def)
  have first: "cu_step True ?r0 (ch CHR ''/'') = Go ?r1"
    using nu by (simp add: cu_step_def cu_init_def cu_plain_def cu_usual_def cu_put_def)
  have r1: "mode ?r1 = Plain usw_slash" "out ?r1 = unsplit []"
    by (simp_all add: cu_put_def cu_init_def unsplit_def)
  note segs = feed_segments [OF r1 _ assms(1), unfolded good_stack_def, simplified]
  show ?thesis
  proof (cases "resolve [] gs")
    case None
    with segs obtain r' rest where
      "feed (cu_step True) ?r1 (concat (map (\<lambda>g. g @ [ch CHR ''/'']) gs)) = Halt ((CU_invalid, r'), rest)"
      by auto
    with first None show ?thesis
      by (simp add: ngx_http_parse_complex_uri_def unsplit_def feed_append)
  next
    case (Some st)
    with segs obtain r2 where r2:
      "feed (cu_step True) ?r1 (concat (map (\<lambda>g. g @ [ch CHR ''/'']) gs)) = Go r2"
      "mode r2 = Plain usw_slash" "out r2 = unsplit st" by auto
    obtain r3 where "feed (cu_step True) r2 g = Go r3" "out r3 = unsplit st @ g"
      using feed_segment [OF r2(2) assms(2)] r2(3) by auto
    with first r2(1) Some show ?thesis
      by (simp add: ngx_http_parse_complex_uri_def unsplit_def feed_append cu_result_def)
  qed
qed

theorem ngx_http_parse_complex_uri_resolves_witness:
  "map_option res_uri (ngx_http_parse_complex_uri True False False (bytes_of ''/a/..//./b'')) = Some (bytes_of ''/b'')"
  using ngx_http_parse_complex_uri_resolves
    [of "[bytes_of ''a'', bytes_of ''..'', [], bytes_of ''.'']" "bytes_of ''b''" False False]
  by (simp add: seg_byte_def unsplit_def)

text \<open>
  What follows the last slash is never resolved: a trailing ".." stays, and an escape that the
  URI breaks off is dropped instead of refused.
\<close>

lemma ngx_http_parse_complex_uri_trailing:
  "map_option res_uri (ngx_http_parse_complex_uri True False False (bytes_of ''/a/..'')) = Some (bytes_of ''/a/..'')"
  "map_option res_uri (ngx_http_parse_complex_uri True False False (bytes_of ''/a%2'')) = Some (bytes_of ''/a'')"
  by (simp_all add: ngx_http_parse_complex_uri_def cu_init_def cu_step_def cu_plain_def cu_usual_def
      cu_slash_def cu_dot_def cu_dot_dot_def cu_put_def cu_quote_def cu_result_def is_usual_def
      in_bitmap_def usual_def is_digit_def)

end
