(* ===== verification/Http_Request.thy ===== *)
theory Http_Request
  imports Http_Header_Line Http_Uri Http_Request_Line Ngx_Num
begin

text \<open>
  The processing of a request line and its headers in src/http/ngx_http_request.c: the check of a host, the
  URI, the handlers of the headers a server looks at, the loop over the header lines and the checks after it.
  The timers, the reading from the connection and the large buffers are not modelled: a function takes the
  bytes that have arrived and returns when it needs more of them. A closed or finalized request is the
  status code it is finalized with.
\<close>

section \<open>Configuration\<close>

text \<open>
  The settings of the server that the code reads, the number of buckets of \<open>headers_in_hash\<close>, and
  \<open>vserver\<close>, the code that ngx_http_set_virtual_server() has finalized the request with where it fails. (The
  servers it may switch to are taken to have the same settings.)
\<close>

record http_conf =
  underscores_in_headers :: bool
  ignore_invalid_headers :: bool
  merge_slashes :: bool
  hash_buckets :: nat
  vserver :: "bytes \<Rightarrow> nat option"

section \<open>Hosts\<close>

datatype vh_state = vsw_usual | vsw_literal | vsw_rest

text \<open>The local variables of ngx_http_validate_host(); the positions are integers, as -1 is compared with.\<close>

record vhost =
  vh_state :: vh_state
  vh_i :: nat
  vh_dot_pos :: int
  vh_host_len :: int
  vh_alloc :: bool

definition vh_init :: "nat \<Rightarrow> bool \<Rightarrow> vhost" where
  "vh_init len alloc = \<lparr>vh_state = vsw_usual, vh_i = 0, vh_dot_pos = int len, vh_host_len = int len, vh_alloc = alloc\<rparr>"

definition vh_case :: "vhost \<Rightarrow> u_char \<Rightarrow> (vhost, unit) outcome" where
  "vh_case v c =
     (if c = ch CHR ''.'' then
        (if vh_dot_pos v = int (vh_i v) - 1 then Halt () else Go (v\<lparr>vh_dot_pos := int (vh_i v)\<rparr>))
      else if c = ch CHR '':'' then
        (if vh_state v = vsw_usual then Go (v\<lparr>vh_host_len := int (vh_i v), vh_state := vsw_rest\<rparr>) else Go v)
      else if c = ch CHR ''['' then
        (if vh_i v = 0 then Go (v\<lparr>vh_state := vsw_literal\<rparr>) else Go v)
      else if c = ch CHR '']'' then
        (if vh_state v = vsw_literal then Go (v\<lparr>vh_host_len := int (vh_i v) + 1, vh_state := vsw_rest\<rparr>) else Go v)
      else if c = 0 then Halt ()
      else if c = ch CHR ''/'' then Halt ()
      else if c \<ge> ch CHR ''A'' \<and> c \<le> ch CHR ''Z'' then Go (v\<lparr>vh_alloc := True\<rparr>)
      else Go v)"

definition vh_step :: "vhost \<Rightarrow> u_char \<Rightarrow> (vhost, unit) outcome" where
  "vh_step v c = (case vh_case v c of Go v' \<Rightarrow> Go (v'\<lparr>vh_i := vh_i v' + 1\<rparr>) | Halt h \<Rightarrow> Halt h)"

text \<open>\<open>None\<close> is NGX_DECLINED.\<close>

definition ngx_http_validate_host :: "bytes \<Rightarrow> bool \<Rightarrow> bytes option" where
  "ngx_http_validate_host host alloc =
     (case feed vh_step (vh_init (length host) alloc) host of
        Halt _ \<Rightarrow> None
      | Go v \<Rightarrow>
          (let host_len = (if vh_dot_pos v = vh_host_len v - 1 then vh_host_len v - 1 else vh_host_len v)
           in if host_len = 0 then None
              else if vh_alloc v then Some (map ngx_tolower (take (nat host_len) host))
              else Some (take (nat host_len) host)))"

section \<open>URIs\<close>

text \<open>What ngx_http_process_request_uri() leaves in the request.\<close>

record request_uri =
  ru_uri :: bytes
  ru_unparsed_uri :: bytes
  ru_valid_unparsed_uri :: bool
  ru_exten :: bytes
  ru_args :: bytes

text \<open>
  \<open>s\<close> are the bytes from \<open>uri_start\<close> to \<open>uri_end\<close>, \<open>uext\<close> and \<open>uargs\<close> are \<open>uri_ext\<close> and \<open>args_start\<close> as offsets
  in them; \<open>None\<close> is a request finalized with NGX_HTTP_BAD_REQUEST. The arguments and the extension that
  ngx_http_parse_complex_uri() has set itself stay, and \<open>args_start\<close> is then what it has left.
\<close>

definition ngx_http_process_request_uri ::
  "bool \<Rightarrow> bytes \<Rightarrow> bool \<Rightarrow> bool \<Rightarrow> bool \<Rightarrow> bool \<Rightarrow> nat option \<Rightarrow> nat option \<Rightarrow> request_uri option" where
  "ngx_http_process_request_uri merge s complex quoted plus_in space uext uargs =
     (let ulen = (case uargs of Some a \<Rightarrow> a - 1 | None \<Rightarrow> length s);
          u = \<lparr>ru_uri = [], ru_unparsed_uri = s, ru_valid_unparsed_uri = \<not> space, ru_exten = [], ru_args = []\<rparr>;
          tail = (\<lambda>uext uargs u.
            (let u = (case uext of
                        None \<Rightarrow> u
                      | Some e \<Rightarrow> u\<lparr>ru_exten := take ((case uargs of Some a \<Rightarrow> a - 1 | None \<Rightarrow> length s) - e) (drop e s)\<rparr>)
             in case uargs of
                  None \<Rightarrow> u
                | Some a \<Rightarrow> if length s > a then u\<lparr>ru_args := drop a s\<rparr> else u))
      in if complex \<or> quoted then
           (case ngx_http_parse_complex_uri merge plus_in quoted s of
              None \<Rightarrow> None
            | Some res \<Rightarrow>
                Some (tail None (res_args_start res)
                  (u\<lparr>ru_uri := res_uri res,
                     ru_exten := (case res_exten res of Some x \<Rightarrow> x | None \<Rightarrow> []),
                     ru_args := (case res_args res of Some x \<Rightarrow> x | None \<Rightarrow> [])\<rparr>)))
         else Some (tail uext uargs (u\<lparr>ru_uri := take ulen s\<rparr>)))"

section \<open>Headers\<close>

record table_elt =
  elt_hash :: u64
  elt_key :: bytes
  elt_value :: bytes
  elt_lowcase_key :: bytes

datatype connection_type = No_connection_type | NGX_HTTP_CONNECTION_CLOSE | NGX_HTTP_CONNECTION_KEEP_ALIVE

text \<open>
  ngx_http_headers_in_t: \<open>hi_ptr\<close> and \<open>hi_multi\<close> are the pointers and the arrays of pointers to headers, under the
  name of the header in place of the offset.
\<close>

record headers_in =
  hi_headers :: "table_elt list"
  hi_ptr :: "bytes \<Rightarrow> table_elt option"
  hi_multi :: "bytes \<Rightarrow> table_elt list"
  hi_server :: bytes
  hi_content_length_n :: int
  hi_keep_alive_n :: int
  hi_connection_type :: connection_type
  hi_chunked :: bool
  hi_msie :: bool
  hi_msie6 :: bool
  hi_opera :: bool
  hi_gecko :: bool
  hi_chrome :: bool
  hi_safari :: bool
  hi_konqueror :: bool

text \<open>After ngx_http_create_request(): both numbers are -1.\<close>

definition headers_in_init :: headers_in where
  "headers_in_init = \<lparr>hi_headers = [], hi_ptr = (\<lambda>_. None), hi_multi = (\<lambda>_. []), hi_server = [],
     hi_content_length_n = -1, hi_keep_alive_n = -1, hi_connection_type = No_connection_type, hi_chunked = False,
     hi_msie = False, hi_msie6 = False, hi_opera = False, hi_gecko = False, hi_chrome = False, hi_safari = False,
     hi_konqueror = False\<rparr>"

text \<open>The handlers, by name, and the table of the default build with the lower case names the hash is built from.\<close>

datatype header_handler = Process_header_line | Process_unique_header_line | Process_host | Process_connection
  | Process_user_agent | Process_multi_header_lines

definition ngx_http_headers_in :: "(bytes \<times> header_handler) list" where
  "ngx_http_headers_in =
    [(bytes_of ''host'', Process_host),
     (bytes_of ''connection'', Process_connection),
     (bytes_of ''if-modified-since'', Process_unique_header_line),
     (bytes_of ''if-unmodified-since'', Process_unique_header_line),
     (bytes_of ''if-match'', Process_unique_header_line),
     (bytes_of ''if-none-match'', Process_unique_header_line),
     (bytes_of ''user-agent'', Process_user_agent),
     (bytes_of ''referer'', Process_header_line),
     (bytes_of ''content-length'', Process_unique_header_line),
     (bytes_of ''content-range'', Process_unique_header_line),
     (bytes_of ''content-type'', Process_header_line),
     (bytes_of ''range'', Process_header_line),
     (bytes_of ''if-range'', Process_unique_header_line),
     (bytes_of ''transfer-encoding'', Process_header_line),
     (bytes_of ''expect'', Process_unique_header_line),
     (bytes_of ''upgrade'', Process_header_line),
     (bytes_of ''accept-encoding'', Process_header_line),
     (bytes_of ''via'', Process_header_line),
     (bytes_of ''authorization'', Process_unique_header_line),
     (bytes_of ''keep-alive'', Process_header_line),
     (bytes_of ''x-forwarded-for'', Process_multi_header_lines),
     (bytes_of ''cookie'', Process_multi_header_lines)]"

text \<open>
  ngx_hash_find() in the hash that ngx_hash_init() builds: the bucket of the hash value is searched for the name.
\<close>

definition headers_in_find :: "nat \<Rightarrow> u64 \<Rightarrow> bytes \<Rightarrow> header_handler option" where
  "headers_in_find buckets hash name =
     map_option snd (find (\<lambda>(n, _). unat (ngx_hash_key n) mod buckets = unat hash mod buckets \<and> n = name) ngx_http_headers_in)"

text \<open>A handler returns the code a request has been finalized with, or the headers.\<close>

type_synonym handled = "nat + headers_in"

definition ngx_http_process_header_line :: "headers_in \<Rightarrow> table_elt \<Rightarrow> bytes \<Rightarrow> handled" where
  "ngx_http_process_header_line hi h ofs =
     (case hi_ptr hi ofs of None \<Rightarrow> Inr (hi\<lparr>hi_ptr := (hi_ptr hi)(ofs \<mapsto> h)\<rparr>) | Some _ \<Rightarrow> Inr hi)"

definition ngx_http_process_unique_header_line :: "headers_in \<Rightarrow> table_elt \<Rightarrow> bytes \<Rightarrow> handled" where
  "ngx_http_process_unique_header_line hi h ofs =
     (case hi_ptr hi ofs of None \<Rightarrow> Inr (hi\<lparr>hi_ptr := (hi_ptr hi)(ofs \<mapsto> h)\<rparr>) | Some _ \<Rightarrow> Inl 400)"

definition ngx_http_process_host :: "http_conf \<Rightarrow> headers_in \<Rightarrow> table_elt \<Rightarrow> handled" where
  "ngx_http_process_host cf hi h =
     (let host = bytes_of ''host'';
          hi = (case hi_ptr hi host of None \<Rightarrow> hi\<lparr>hi_ptr := (hi_ptr hi)(host \<mapsto> h)\<rparr> | Some _ \<Rightarrow> hi)
      in case ngx_http_validate_host (elt_value h) False of
           None \<Rightarrow> Inl 400
         | Some host \<Rightarrow>
             if hi_server hi \<noteq> [] then Inr hi
             else (case vserver cf host of Some code \<Rightarrow> Inl code | None \<Rightarrow> Inr (hi\<lparr>hi_server := host\<rparr>)))"

definition ngx_http_process_connection :: "headers_in \<Rightarrow> table_elt \<Rightarrow> handled" where
  "ngx_http_process_connection hi h =
     Inr (if ngx_strcasestrn (elt_value h) (bytes_of ''close'') (5 - 1) \<noteq> None
          then hi\<lparr>hi_connection_type := NGX_HTTP_CONNECTION_CLOSE\<rparr>
          else if ngx_strcasestrn (elt_value h) (bytes_of ''keep-alive'') (10 - 1) \<noteq> None
          then hi\<lparr>hi_connection_type := NGX_HTTP_CONNECTION_KEEP_ALIVE\<rparr>
          else hi)"

definition ua_has :: "bytes \<Rightarrow> string \<Rightarrow> nat \<Rightarrow> bool" where
  "ua_has s what n \<longleftrightarrow> ngx_strstrn s (bytes_of what) n \<noteq> None"

definition ua_msie :: "headers_in \<Rightarrow> bytes \<Rightarrow> headers_in" where
  "ua_msie hi ua =
     (case ngx_strstrn ua (bytes_of ''MSIE '') (5 - 1) of
        None \<Rightarrow> hi
      | Some msie \<Rightarrow>
          if msie + 7 < length ua then
            (let hi = hi\<lparr>hi_msie := True\<rparr>
             in if ua ! (msie + 6) = ch CHR ''.'' then
                  (if ua ! (msie + 5) = ch CHR ''4'' \<or> ua ! (msie + 5) = ch CHR ''5'' then hi\<lparr>hi_msie6 := True\<rparr>
                   else if ua ! (msie + 5) = ch CHR ''6'' \<and> \<not> ua_has (drop (msie + 8) ua) ''SV1'' (3 - 1)
                   then hi\<lparr>hi_msie6 := True\<rparr>
                   else hi)
                else hi)
          else hi)"

definition ua_opera :: "headers_in \<Rightarrow> bytes \<Rightarrow> headers_in" where
  "ua_opera hi ua =
     (if ua_has ua ''Opera'' (5 - 1) then hi\<lparr>hi_opera := True, hi_msie := False, hi_msie6 := False\<rparr> else hi)"

definition ua_others :: "headers_in \<Rightarrow> bytes \<Rightarrow> headers_in" where
  "ua_others hi ua =
     (if \<not> hi_msie hi \<and> \<not> hi_opera hi then
        (if ua_has ua ''Gecko/'' (6 - 1) then hi\<lparr>hi_gecko := True\<rparr>
         else if ua_has ua ''Chrome/'' (7 - 1) then hi\<lparr>hi_chrome := True\<rparr>
         else if ua_has ua ''Safari/'' (7 - 1) \<and> ua_has ua ''Mac OS X'' (8 - 1) then hi\<lparr>hi_safari := True\<rparr>
         else if ua_has ua ''Konqueror'' (9 - 1) then hi\<lparr>hi_konqueror := True\<rparr>
         else hi)
      else hi)"

definition ngx_http_process_user_agent :: "headers_in \<Rightarrow> table_elt \<Rightarrow> handled" where
  "ngx_http_process_user_agent hi h =
     (let name = bytes_of ''user-agent''; ua = elt_value h
      in case hi_ptr hi name of
           Some _ \<Rightarrow> Inr hi
         | None \<Rightarrow> Inr (ua_others (ua_opera (ua_msie (hi\<lparr>hi_ptr := (hi_ptr hi)(name \<mapsto> h)\<rparr>) ua) ua) ua))"

definition ngx_http_process_multi_header_lines :: "headers_in \<Rightarrow> table_elt \<Rightarrow> bytes \<Rightarrow> handled" where
  "ngx_http_process_multi_header_lines hi h ofs =
     Inr (hi\<lparr>hi_multi := (hi_multi hi)(ofs := hi_multi hi ofs @ [h])\<rparr>)"

definition header_handle :: "http_conf \<Rightarrow> header_handler \<Rightarrow> headers_in \<Rightarrow> table_elt \<Rightarrow> bytes \<Rightarrow> handled" where
  "header_handle cf hh hi h ofs =
     (case hh of
        Process_header_line \<Rightarrow> ngx_http_process_header_line hi h ofs
      | Process_unique_header_line \<Rightarrow> ngx_http_process_unique_header_line hi h ofs
      | Process_host \<Rightarrow> ngx_http_process_host cf hi h
      | Process_connection \<Rightarrow> ngx_http_process_connection hi h
      | Process_user_agent \<Rightarrow> ngx_http_process_user_agent hi h
      | Process_multi_header_lines \<Rightarrow> ngx_http_process_multi_header_lines hi h ofs)"

text \<open>A header is added to the list and handled, in HTTP/1 and in HTTP/2.\<close>

definition header_push :: "http_conf \<Rightarrow> headers_in \<Rightarrow> table_elt \<Rightarrow> handled" where
  "header_push cf hi h =
     (let hi = hi\<lparr>hi_headers := hi_headers hi @ [h]\<rparr>
      in case headers_in_find (hash_buckets cf) (elt_hash h) (elt_lowcase_key h) of
           None \<Rightarrow> Inr hi
         | Some hh \<Rightarrow> header_handle cf hh hi h (elt_lowcase_key h))"

section \<open>After the headers\<close>

abbreviation (input) NGX_HTTP_VERSION_10 :: nat where "NGX_HTTP_VERSION_10 \<equiv> 1000"

definition header_te :: "headers_in \<Rightarrow> handled" where
  "header_te hi =
     (case hi_ptr hi (bytes_of ''transfer-encoding'') of
        None \<Rightarrow> Inr hi
      | Some te \<Rightarrow>
          if length (elt_value te) = 7 \<and> ngx_strncasecmp (elt_value te) (bytes_of ''chunked'') 7 = 0
          then Inr (hi\<lparr>hi_ptr := (hi_ptr hi)(bytes_of ''content-length'' := None), hi_content_length_n := -1,
                       hi_chunked := True\<rparr>)
          else if length (elt_value te) \<noteq> 8 \<or> ngx_strncasecmp (elt_value te) (bytes_of ''identity'') 8 \<noteq> 0
          then Inl 501
          else Inr hi)"

definition header_length :: "headers_in \<Rightarrow> handled" where
  "header_length hi =
     (case hi_ptr hi (bytes_of ''content-length'') of
        None \<Rightarrow> Inr hi
      | Some cl \<Rightarrow>
          (case ngx_atoof (elt_value cl) of
             None \<Rightarrow> Inl 400
           | Some n \<Rightarrow> Inr (hi\<lparr>hi_content_length_n := n\<rparr>)))"

definition header_keepalive :: "headers_in \<Rightarrow> headers_in" where
  "header_keepalive hi =
     (case hi_ptr hi (bytes_of ''keep-alive'') of
        None \<Rightarrow> hi
      | Some ka \<Rightarrow>
          if hi_connection_type hi = NGX_HTTP_CONNECTION_KEEP_ALIVE
          then hi\<lparr>hi_keep_alive_n := (case ngx_atotm (elt_value ka) of None \<Rightarrow> -1 | Some n \<Rightarrow> n)\<rparr>
          else hi)"

definition ngx_http_process_request_header :: "http_conf \<Rightarrow> http_method \<Rightarrow> nat \<Rightarrow> headers_in \<Rightarrow> handled" where
  "ngx_http_process_request_header cf meth version hi =
     (if hi_server hi = [] \<and> vserver cf (hi_server hi) \<noteq> None then Inl (the (vserver cf (hi_server hi)))
      else if hi_ptr hi (bytes_of ''host'') = None \<and> version > NGX_HTTP_VERSION_10 then Inl 400
      else
        (case header_length hi of
           Inl rc \<Rightarrow> Inl rc
         | Inr hi \<Rightarrow>
             if meth = NGX_HTTP_TRACE then Inl 405
             else
               (case header_te hi of
                  Inl rc \<Rightarrow> Inl rc
                | Inr hi \<Rightarrow> Inr (header_keepalive hi))))"

section \<open>The loop over the header lines\<close>

text \<open>
  The result of the loop: the request is finalized, needs more bytes (the parser's state and the headers so
  far are kept), or goes on to ngx_http_process_request() with the headers, its length and the bytes that follow.
\<close>

datatype headers_rc = Headers_finalized nat | Headers_again header_in headers_in nat
  | Headers_done headers_in nat bytes

definition header_elt :: "bytes \<Rightarrow> header_in \<Rightarrow> table_elt" where
  "header_elt buf r =
     (let key = take (header_name_end r - header_name_start r) (drop (header_name_start r) buf)
      in \<lparr>elt_hash = header_hash r, elt_key = key,
          elt_value = take (header_end r - header_start r) (drop (header_start r) buf),
          elt_lowcase_key = (if length key = lowcase_index r then take (length key) (lowcase_header r) else ngx_strlow key)\<rparr>)"

text \<open>\<open>rest\<close> are the bytes of \<open>buf\<close> from the parser's position on.\<close>

function headers_loop ::
  "http_conf \<Rightarrow> http_method \<Rightarrow> nat \<Rightarrow> bytes \<Rightarrow> header_in \<Rightarrow> headers_in \<Rightarrow> nat \<Rightarrow> bytes \<Rightarrow> headers_rc" where
  "headers_loop cf meth version buf r hi len rest =
     (case feed (hl_step (underscores_in_headers cf) buf) r rest of
        Go r' \<Rightarrow> Headers_again r' hi len
      | Halt ((rc, r'), rest') \<Rightarrow>
          (case rc of
             HL_OK \<Rightarrow>
               (let len = len + (hl_pos r' - header_name_start r')
                in if invalid_header r' \<and> ignore_invalid_headers cf
                   then headers_loop cf meth version buf r' hi len rest'
                   else (case header_push cf hi (header_elt buf r') of
                           Inl code \<Rightarrow> Headers_finalized code
                         | Inr hi \<Rightarrow> headers_loop cf meth version buf r' hi len rest'))
           | NGX_HTTP_PARSE_HEADER_DONE \<Rightarrow>
               (case ngx_http_process_request_header cf meth version hi of
                  Inl code \<Rightarrow> Headers_finalized code
                | Inr hi \<Rightarrow> Headers_done hi (len + (hl_pos r' - header_name_start r')) rest')
           | NGX_HTTP_PARSE_INVALID_HEADER \<Rightarrow> Headers_finalized 400))"
  by pat_completeness auto
termination
  by (relation "measure (\<lambda>(cf, meth, version, buf, r, hi, len, rest). length rest)")
    (auto dest!: feed_Halt_suffix)

declare headers_loop.simps [simp del]

definition ngx_http_process_request_headers ::
  "http_conf \<Rightarrow> http_method \<Rightarrow> nat \<Rightarrow> bytes \<Rightarrow> header_in \<Rightarrow> headers_in \<Rightarrow> nat \<Rightarrow> headers_rc" where
  "ngx_http_process_request_headers cf meth version buf r hi len =
     headers_loop cf meth version buf r hi len (drop (hl_pos r) buf)"

section \<open>The request line\<close>

text \<open>
  The members of ngx_http_request_t set for a parsed request line, and what comes next: the request is
  processed at once (HTTP/0.9) or its headers are read.
\<close>

record request_line =
  rq_line :: bytes
  rq_method_name :: bytes
  rq_protocol :: bytes
  rq_length :: nat
  rq_uri :: request_uri
  rq_server :: bytes
  rq_headers :: bool

datatype line_rc = Line_finalized nat | Line_again request | Line_done request request_line bytes

definition buf_slice :: "nat \<Rightarrow> nat \<Rightarrow> bytes \<Rightarrow> bytes" where
  "buf_slice a b s = take (b - a) (drop a s)"

definition line_uri :: "http_conf \<Rightarrow> bytes \<Rightarrow> request \<Rightarrow> request_uri option" where
  "line_uri cf buf r =
     ngx_http_process_request_uri (merge_slashes cf) (buf_slice (off (uri_start r)) (off (uri_end r)) buf)
       (complex_uri r) (quoted_uri r) (plus_in_uri r) (space_in_uri r)
       (map_option (\<lambda>e. e - off (uri_start r)) (uri_ext r)) (map_option (\<lambda>a. a - off (uri_start r)) (args_start r))"

text \<open>The host of an absolute URI: the code to finalize with, or the server name.\<close>

definition line_host :: "http_conf \<Rightarrow> bytes \<Rightarrow> request \<Rightarrow> nat + bytes" where
  "line_host cf buf r =
     (case (host_start r, host_end r) of
        (Some a, Some b) \<Rightarrow>
          (case ngx_http_validate_host (buf_slice a b buf) False of
             None \<Rightarrow> Inl 400
           | Some host \<Rightarrow> (case vserver cf host of None \<Rightarrow> Inr host | Some code \<Rightarrow> Inl code))
      | _ \<Rightarrow> Inr [])"

definition ngx_http_process_request_line :: "http_conf \<Rightarrow> request \<Rightarrow> bytes \<Rightarrow> line_rc" where
  "ngx_http_process_request_line cf r buf =
     (case ngx_http_parse_request_line r buf of
        Go r \<Rightarrow> Line_again r
      | Halt ((rc, r), rest) \<Rightarrow>
          if rc = NGX_OK then
            (case line_uri cf buf r of
               None \<Rightarrow> Line_finalized 400
             | Some u \<Rightarrow>
                 (case line_host cf buf r of
                    Inl code \<Rightarrow> Line_finalized code
                  | Inr server \<Rightarrow>
                      if http_version r < NGX_HTTP_VERSION_10 \<and> server = [] \<and> vserver cf server \<noteq> None
                      then Line_finalized (the (vserver cf server))
                      else
                        Line_done r
                          \<lparr>rq_line = buf_slice (off (request_start r)) (off (request_end r)) buf,
                           rq_method_name = buf_slice (off (request_start r)) (off (method_end r) + 1) buf,
                           rq_protocol = (case http_protocol r of None \<Rightarrow> [] | Some p \<Rightarrow> buf_slice p (off (request_end r)) buf),
                           rq_length = pos r - off (request_start r), rq_uri = u, rq_server = server,
                           rq_headers = (http_version r \<ge> NGX_HTTP_VERSION_10)\<rparr> rest))
          else if rc = NGX_HTTP_PARSE_INVALID_VERSION then Line_finalized 505
          else Line_finalized 400)"

end
