(* ===== verification/Http_Request_Headers.thy ===== *)
theory Http_Request_Headers
  imports Http_Request
begin

text \<open>
  The loop over the header lines: how a request is framed, which headers it is read as, and that packets make no
  difference.
\<close>

section \<open>Which headers the server has seen\<close>

text \<open>The headers of a list that are found in the table under a name.\<close>

definition headers_named :: "http_conf \<Rightarrow> bytes \<Rightarrow> table_elt list \<Rightarrow> table_elt list" where
  "headers_named cf name hs =
     filter (\<lambda>h. elt_lowcase_key h = name \<and> headers_in_find (hash_buckets cf) (elt_hash h) name \<noteq> None) hs"

lemma headers_named_simps [simp]:
  "headers_named cf name [] = []" "headers_named cf name (xs @ ys) = headers_named cf name xs @ headers_named cf name ys"
  by (simp_all add: headers_named_def)

definition handler_of :: "bytes \<Rightarrow> header_handler option" where
  "handler_of name = map_of ngx_http_headers_in name"

lemma handler_of_names:
  "handler_of name = Some Process_host \<Longrightarrow> name = bytes_of ''host''"
  "handler_of name = Some Process_user_agent \<Longrightarrow> name = bytes_of ''user-agent''"
  by (simp_all add: handler_of_def ngx_http_headers_in_def split: if_splits)

lemma handler_of_framing:
  "handler_of (bytes_of ''content-length'') = Some Process_unique_header_line"
  "handler_of (bytes_of ''transfer-encoding'') = Some Process_header_line"
  by (simp_all add: handler_of_def ngx_http_headers_in_def)

lemma headers_in_find_handler:
  assumes "headers_in_find b h name = Some hh"
  shows "handler_of name = Some hh"
proof -
  have "distinct (map fst ngx_http_headers_in)" by (simp add: ngx_http_headers_in_def)
  moreover obtain n where "(n, hh) \<in> set ngx_http_headers_in" "n = name"
    using assms by (auto simp: headers_in_find_def find_Some_iff) (metis nth_mem)
  ultimately show ?thesis by (simp add: handler_of_def)
qed

text \<open>The pointers: to the first header of a name; a header that must be unique has come at most once.\<close>

definition first_elt :: "table_elt list \<Rightarrow> table_elt option" where
  "first_elt hs = (case hs of [] \<Rightarrow> None | h # _ \<Rightarrow> Some h)"

lemma first_elt_simps [simp]: "first_elt [] = None" "first_elt (h # hs) = Some h"
  "first_elt (xs @ ys) = (if xs = [] then first_elt ys else first_elt xs)"
  by (cases xs; simp add: first_elt_def)+

lemma first_elt_None [simp]: "first_elt hs = None \<longleftrightarrow> hs = []"
  by (cases hs) simp_all

definition headers_ok :: "http_conf \<Rightarrow> headers_in \<Rightarrow> bool" where
  "headers_ok cf hi \<longleftrightarrow> \<not> hi_chunked hi \<and> hi_content_length_n hi = -1 \<and>
     (\<forall>name. handler_of name = Some Process_unique_header_line \<or> handler_of name = Some Process_header_line \<longrightarrow>
        hi_ptr hi name = first_elt (headers_named cf name (hi_headers hi))) \<and>
     (\<forall>name. handler_of name = Some Process_unique_header_line \<longrightarrow>
        length (headers_named cf name (hi_headers hi)) \<le> 1)"

lemma headers_ok_init: "headers_ok cf headers_in_init"
  by (simp add: headers_ok_def headers_in_init_def)

text \<open>What the handlers leave alone.\<close>

definition same_framing :: "headers_in \<Rightarrow> headers_in \<Rightarrow> bool" where
  "same_framing hi hi' \<longleftrightarrow> hi_headers hi' = hi_headers hi \<and> hi_chunked hi' = hi_chunked hi
     \<and> hi_content_length_n hi' = hi_content_length_n hi"

lemma ua_frame:
  "same_framing hi (ua_msie hi ua) \<and> hi_ptr (ua_msie hi ua) = hi_ptr hi"
  "same_framing hi (ua_opera hi ua) \<and> hi_ptr (ua_opera hi ua) = hi_ptr hi"
  "same_framing hi (ua_others hi ua) \<and> hi_ptr (ua_others hi ua) = hi_ptr hi"
  by (simp_all add: ua_msie_def ua_opera_def ua_others_def same_framing_def Let_def split: option.split)

lemma header_handle_frame:
  assumes "header_handle cf hh hi h name = Inr hi'" "handler_of name = Some hh"
  shows "same_framing hi hi' \<and> (\<forall>n. n \<noteq> name \<longrightarrow> hi_ptr hi' n = hi_ptr hi n)"
proof (cases hh)
  case Process_host
  with assms show ?thesis using handler_of_names(1) [of name]
    by (auto simp: header_handle_def ngx_http_process_host_def same_framing_def Let_def split: option.splits if_splits)
next
  case Process_user_agent
  with assms show ?thesis using handler_of_names(2) [of name]
    using ua_frame
    by (auto simp: header_handle_def ngx_http_process_user_agent_def same_framing_def Let_def split: option.splits)
qed (use assms in \<open>auto simp: header_handle_def ngx_http_process_header_line_def ngx_http_process_unique_header_line_def
  ngx_http_process_connection_def ngx_http_process_multi_header_lines_def same_framing_def split: option.splits if_splits\<close>)

lemma headers_named_other:
  "n \<noteq> elt_lowcase_key h \<or> headers_in_find (hash_buckets cf) (elt_hash h) n = None \<Longrightarrow> headers_named cf n [h] = []"
  by (auto simp: headers_named_def)

lemma header_push_ok:
  assumes "headers_ok cf hi" "header_push cf hi h = Inr hi'"
  shows "headers_ok cf hi' \<and> hi_headers hi' = hi_headers hi @ [h]"
proof (cases "headers_in_find (hash_buckets cf) (elt_hash h) (elt_lowcase_key h)")
  case None
  then have "headers_named cf n [h] = []" for n
    by (cases "n = elt_lowcase_key h") (simp_all add: headers_named_other)
  with None assms show ?thesis by (auto simp: header_push_def headers_ok_def)
next
  case (Some hh)
  let ?name = "elt_lowcase_key h"
  have handler: "handler_of ?name = Some hh" using headers_in_find_handler [OF Some] .
  have here: "headers_named cf ?name [h] = [h]" using Some by (simp add: headers_named_def)
  have other: "headers_named cf n [h] = []" if "n \<noteq> ?name" for n using that by (simp add: headers_named_other)
  have run: "header_handle cf hh (hi\<lparr>hi_headers := hi_headers hi @ [h]\<rparr>) h ?name = Inr hi'"
    using assms(2) Some by (simp add: header_push_def)
  note frame = header_handle_frame [OF run handler]
  have headers: "hi_headers hi' = hi_headers hi @ [h]" using frame by (simp add: same_framing_def)
  have ptr: "hi_ptr hi' n = first_elt (headers_named cf n (hi_headers hi'))"
    and uniq: "handler_of n = Some Process_unique_header_line \<Longrightarrow> length (headers_named cf n (hi_headers hi')) \<le> 1"
    if "handler_of n = Some Process_unique_header_line \<or> handler_of n = Some Process_header_line" for n
  proof -
    have old: "hi_ptr hi n = first_elt (headers_named cf n (hi_headers hi))"
      "handler_of n = Some Process_unique_header_line \<Longrightarrow> length (headers_named cf n (hi_headers hi)) \<le> 1"
      using assms(1) that by (auto simp: headers_ok_def)
    show "hi_ptr hi' n = first_elt (headers_named cf n (hi_headers hi'))"
      "handler_of n = Some Process_unique_header_line \<Longrightarrow> length (headers_named cf n (hi_headers hi')) \<le> 1"
      using old frame headers here other [of n] run handler that
      by (cases "n = ?name"; auto simp: header_handle_def ngx_http_process_header_line_def
          ngx_http_process_unique_header_line_def split: option.splits)+
  qed
  show ?thesis using assms(1) frame headers ptr uniq by (simp add: headers_ok_def same_framing_def)
qed

text \<open>The checks after the headers.\<close>

definition headers_of :: "http_conf \<Rightarrow> string \<Rightarrow> headers_in \<Rightarrow> table_elt list" where
  "headers_of cf name hi = headers_named cf (bytes_of name) (hi_headers hi)"

definition ptr_of :: "string \<Rightarrow> headers_in \<Rightarrow> table_elt option" where
  "ptr_of name hi = hi_ptr hi (bytes_of name)"

definition coding :: "string \<Rightarrow> table_elt list \<Rightarrow> bool" where
  "coding s tes \<longleftrightarrow> tes \<noteq> [] \<and> map ngx_tolower (elt_value (hd tes)) = bytes_of s"

definition decimal_length :: "table_elt list \<Rightarrow> int \<Rightarrow> bool" where
  "decimal_length cls n \<longleftrightarrow>
     (if cls = [] then n = -1
      else elt_value (hd cls) \<noteq> [] \<and> list_all is_digit (elt_value (hd cls)) \<and> n = dec_val (elt_value (hd cls)))"

lemma strncasecmp_word:
  "\<lbrakk>length s = length t; 0 \<notin> set t; map ngx_tolower t = t\<rbrakk> \<Longrightarrow> ngx_strncasecmp s t (length t) = 0 \<longleftrightarrow> map ngx_tolower s = t"
  using strncasecmp_0 [of t s] by simp

lemma strncasecmp_coding:
  "length s = 7 \<and> ngx_strncasecmp s (bytes_of ''chunked'') 7 = 0 \<longleftrightarrow> map ngx_tolower s = bytes_of ''chunked''"
  "length s \<noteq> 8 \<or> ngx_strncasecmp s (bytes_of ''identity'') 8 \<noteq> 0 \<longleftrightarrow> map ngx_tolower s \<noteq> bytes_of ''identity''"
proof -
  have len: "length (bytes_of ''chunked'') = 7" "length (bytes_of ''identity'') = 8" by simp_all
  have low: "0 \<notin> set (bytes_of ''chunked'')" "map ngx_tolower (bytes_of ''chunked'') = bytes_of ''chunked''"
    "0 \<notin> set (bytes_of ''identity'')" "map ngx_tolower (bytes_of ''identity'') = bytes_of ''identity''"
    by (simp_all add: ngx_tolower_def word_le_nat_alt)
  show "length s = 7 \<and> ngx_strncasecmp s (bytes_of ''chunked'') 7 = 0 \<longleftrightarrow> map ngx_tolower s = bytes_of ''chunked''"
    using strncasecmp_word [of s "bytes_of ''chunked''"] len(1) low(1, 2) by (metis length_map)
  show "length s \<noteq> 8 \<or> ngx_strncasecmp s (bytes_of ''identity'') 8 \<noteq> 0 \<longleftrightarrow> map ngx_tolower s \<noteq> bytes_of ''identity''"
    using strncasecmp_word [of s "bytes_of ''identity''"] len(2) low(3, 4) by (metis length_map)
qed

lemma headers_ok_ptr:
  assumes "headers_ok cf hi"
  shows "ptr_of ''content-length'' hi = first_elt (headers_of cf ''content-length'' hi)"
    "ptr_of ''transfer-encoding'' hi = first_elt (headers_of cf ''transfer-encoding'' hi)"
    "length (headers_of cf ''content-length'' hi) \<le> 1" "\<not> hi_chunked hi" "hi_content_length_n hi = -1"
  using assms handler_of_framing unfolding headers_ok_def ptr_of_def headers_of_def by blast+

lemma header_length_ok:
  assumes "header_length hi = Inr hi'" "ptr_of ''content-length'' hi = first_elt cls" "hi_content_length_n hi = -1"
  shows "hi_headers hi' = hi_headers hi \<and> ptr_of name hi' = ptr_of name hi \<and> hi_chunked hi' = hi_chunked hi
    \<and> decimal_length cls (hi_content_length_n hi')"
  using assms(1, 3) unfolding header_length_def assms(2) [unfolded ptr_of_def] ptr_of_def
  by (cases cls) (auto simp: atoof.parse_eq decimal_length_def split: option.splits if_splits)

lemma header_te_ok:
  assumes "header_te hi = Inr hi'" "\<not> hi_chunked hi" "ptr_of ''transfer-encoding'' hi = first_elt tes"
  shows "hi_headers hi' = hi_headers hi \<and>
    (if hi_chunked hi' then coding ''chunked'' tes \<and> ptr_of ''content-length'' hi' = None \<and> hi_content_length_n hi' = -1
     else (tes = [] \<or> coding ''identity'' tes) \<and> hi_content_length_n hi' = hi_content_length_n hi)"
proof (cases tes)
  case (Cons te tl)
  then have te: "hi_ptr hi (bytes_of ''transfer-encoding'') = Some te" using assms(3) by (simp add: ptr_of_def)
  from assms(1, 2) Cons show ?thesis
    unfolding header_te_def te option.case strncasecmp_coding coding_def ptr_of_def
    by (auto split: if_splits)
qed (use assms in \<open>simp add: header_te_def ptr_of_def\<close>)

lemma header_keepalive_ok:
  "hi_headers (header_keepalive hi) = hi_headers hi \<and> hi_chunked (header_keepalive hi) = hi_chunked hi
   \<and> ptr_of name (header_keepalive hi) = ptr_of name hi \<and> hi_content_length_n (header_keepalive hi) = hi_content_length_n hi"
  by (simp add: header_keepalive_def ptr_of_def split: option.split)

definition framing_ok :: "http_conf \<Rightarrow> headers_in \<Rightarrow> bool" where
  "framing_ok cf hi \<longleftrightarrow>
     (let cls = headers_of cf ''content-length'' hi; tes = headers_of cf ''transfer-encoding'' hi
      in length cls \<le> 1 \<and>
         (if hi_chunked hi
          then coding ''chunked'' tes \<and> ptr_of ''content-length'' hi = None \<and> hi_content_length_n hi = -1
          else (tes = [] \<or> coding ''identity'' tes) \<and> decimal_length cls (hi_content_length_n hi)))"

lemma process_request_header_framing:
  assumes "headers_ok cf hi" "ngx_http_process_request_header cf meth version hi = Inr hi'"
  shows "hi_headers hi' = hi_headers hi \<and> framing_ok cf hi'"
proof -
  obtain hi1 hi2 where steps: "header_length hi = Inr hi1" "header_te hi1 = Inr hi2" "hi' = header_keepalive hi2"
    using assms(2) by (auto simp: ngx_http_process_request_header_def split: if_splits sum.splits)
  note ok = headers_ok_ptr [OF assms(1)]
  note len = header_length_ok [OF steps(1) ok(1, 5)]
  have te: "ptr_of ''transfer-encoding'' hi1 = first_elt (headers_of cf ''transfer-encoding'' hi)" "\<not> hi_chunked hi1"
    using len ok by simp_all
  note te = header_te_ok [OF steps(2) te(2, 1)]
  have "headers_of cf name hi' = headers_of cf name hi" for name
    using len te header_keepalive_ok [of hi2] by (simp add: steps(3) headers_of_def)
  with len te ok(3) header_keepalive_ok [of hi2] show ?thesis
    by (cases "hi_chunked hi2") (auto simp: framing_ok_def steps(3) Let_def)
qed

lemma headers_loop_framing:
  "\<lbrakk>headers_ok cf hi; headers_loop cf meth version buf r hi len rest = Headers_done hi' n rest'\<rbrakk> \<Longrightarrow> framing_ok cf hi'"
proof (induction "length rest" arbitrary: r hi len rest rule: less_induct)
  case less
  note run = less.prems(2) [unfolded headers_loop.simps [of cf meth version buf r hi len rest]]
  show ?case
  proof (cases "feed (hl_step (underscores_in_headers cf) buf) r rest")
    case (Halt h)
    obtain rc r1 rest1 where h: "h = ((rc, r1), rest1)" by (metis prod.collapse)
    have shorter: "length rest1 < length rest" using feed_Halt_suffix Halt h by fastforce
    show ?thesis
    proof (cases rc)
      case HL_OK
      show ?thesis
      proof (cases "invalid_header r1 \<and> ignore_invalid_headers cf")
        case True
        with less.hyps [OF shorter less.prems(1)] run Halt h HL_OK show ?thesis by (simp add: Let_def)
      next
        case False
        with run Halt h HL_OK obtain hi1 where push: "header_push cf hi (header_elt buf r1) = Inr hi1"
          by (auto simp: Let_def split: sum.splits if_splits)
        have "headers_ok cf hi1" using header_push_ok [OF less.prems(1) push] by simp
        from less.hyps [OF shorter this] push run Halt h HL_OK False show ?thesis by (auto simp: Let_def)
      qed
    next
      case NGX_HTTP_PARSE_HEADER_DONE
      with run Halt h show ?thesis
        using process_request_header_framing [OF less.prems(1)] by (auto split: sum.splits)
    qed (use run Halt h in simp)
  qed (use run in simp)
qed

text \<open>
  C2. A request whose headers are accepted has one meaning: it has at most one Content-Length header; if it is
  chunked, its first Transfer-Encoding is "chunked" in any case and no length is left; otherwise the first
  Transfer-Encoding, if any, is "identity", and the length is the decimal value of the Content-Length header, or
  -1 where there is none.
\<close>

theorem ngx_http_process_request_headers_framing:
  "case ngx_http_process_request_headers cf meth version buf r headers_in_init len of
     Headers_done hi n rest \<Rightarrow>
       (let cls = headers_of cf ''content-length'' hi; tes = headers_of cf ''transfer-encoding'' hi
        in length cls \<le> 1 \<and>
           (if hi_chunked hi
            then coding ''chunked'' tes \<and> ptr_of ''content-length'' hi = None \<and> hi_content_length_n hi = -1
            else (tes = [] \<or> coding ''identity'' tes) \<and> decimal_length cls (hi_content_length_n hi)))
   | Headers_again r hi n \<Rightarrow> True
   | Headers_finalized code \<Rightarrow> True"
proof (cases "ngx_http_process_request_headers cf meth version buf r headers_in_init len")
  case (Headers_done hi n rest)
  then have "framing_ok cf hi"
    using headers_loop_framing [OF headers_ok_init] unfolding ngx_http_process_request_headers_def by blast
  with Headers_done show ?thesis by (simp add: framing_ok_def)
qed simp_all

section \<open>Well-formed headers\<close>

text \<open>The headers of a list, pushed and handled in their order.\<close>

fun headers_fold :: "http_conf \<Rightarrow> headers_in \<Rightarrow> table_elt list \<Rightarrow> handled" where
  "headers_fold cf hi [] = Inr hi"
| "headers_fold cf hi (h # hs) = (case header_push cf hi h of Inl code \<Rightarrow> Inl code | Inr hi \<Rightarrow> headers_fold cf hi hs)"

record header_line =
  ln_name :: bytes
  ln_before :: nat
  ln_value :: bytes
  ln_after :: nat

definition line_bytes :: "header_line \<Rightarrow> bytes" where
  "line_bytes l = ln_name l @ ch CHR '':'' # replicate (ln_before l) SP @ ln_value l @ replicate (ln_after l) SP @ [CR, LF]"

definition line_ok :: "http_conf \<Rightarrow> header_line \<Rightarrow> bool" where
  "line_ok cf l \<longleftrightarrow> ln_name l \<noteq> [] \<and> length (ln_name l) < 32 \<and> list_all (name_char (underscores_in_headers cf)) (ln_name l)
     \<and> ln_value l \<noteq> [] \<and> list_all value_char (ln_value l) \<and> hd (ln_value l) \<noteq> SP \<and> last (ln_value l) \<noteq> SP"

definition line_elt :: "header_line \<Rightarrow> table_elt" where
  "line_elt l = \<lparr>elt_hash = ngx_hash_key_lc (ln_name l), elt_key = ln_name l, elt_value = ln_value l,
     elt_lowcase_key = map ngx_tolower (ln_name l)\<rparr>"

lemma headers_loop_line:
  assumes "line_ok cf l" "hl_state r = hsw_start" "hl_pos r = length pre" "length (lowcase_header r) = 32"
    and buf: "buf = pre @ line_bytes l @ rest"
  shows "\<exists>r'. hl_state r' = hsw_start \<and> hl_pos r' = length (pre @ line_bytes l) \<and> length (lowcase_header r') = 32
    \<and> headers_loop cf meth version buf r hi len (line_bytes l @ rest) =
      (case header_push cf hi (line_elt l) of
         Inl code \<Rightarrow> Headers_finalized code
       | Inr hi \<Rightarrow> headers_loop cf meth version buf r' hi (len + length (line_bytes l)) rest)"
proof -
  have buf': "buf = pre @ ln_name l @ ch CHR '':'' # replicate (ln_before l) SP @ ln_value l @ replicate (ln_after l) SP @ CR # LF # rest"
    by (simp add: buf line_bytes_def)
  note ok = assms(1) [unfolded line_ok_def]
  obtain r' where r': "ngx_http_parse_header_line (underscores_in_headers cf) r buf = Halt ((HL_OK, r'), rest)"
    "header_name_start r' = length pre" "header_name_end r' = length pre + length (ln_name l)"
    "header_start r' = length pre + length (ln_name l) + 1 + ln_before l"
    "header_end r' = header_start r' + length (ln_value l)" "header_hash r' = ngx_hash_key_lc (ln_name l)"
    "lowcase_index r' = length (ln_name l)" "take (length (ln_name l)) (lowcase_header r') = map ngx_tolower (ln_name l)"
    "\<not> invalid_header r'" "hl_state r' = hsw_start" "hl_pos r' + length rest = length buf" "length (lowcase_header r') = 32"
    using header_line_accepts [OF _ _ _ _ _ _ _ assms(2, 3, 4) buf'] ok by blast
  have pos: "hl_pos r' = length pre + length (line_bytes l)" using r'(11) by (simp add: buf)
  have elt: "header_elt buf r' = line_elt l"
    using r'(2-8) by (simp add: header_elt_def line_elt_def Let_def buf')
  have "feed (hl_step (underscores_in_headers cf) buf) r (line_bytes l @ rest) = Halt ((HL_OK, r'), rest)"
    using r'(1) assms(3) by (simp add: ngx_http_parse_header_line_def buf)
  with r'(2, 9, 10, 12) pos elt show ?thesis
    by (intro exI [of _ r']) (simp add: headers_loop.simps [of cf meth version buf r])
qed

lemma headers_loop_lines:
  assumes "list_all (line_ok cf) ls" "hl_state r = hsw_start" "hl_pos r = length pre" "length (lowcase_header r) = 32"
    and "buf = pre @ concat (map line_bytes ls) @ rest"
  shows "\<exists>r'. hl_state r' = hsw_start \<and> hl_pos r' = length (pre @ concat (map line_bytes ls))
    \<and> headers_loop cf meth version buf r hi len (concat (map line_bytes ls) @ rest) =
      (case headers_fold cf hi (map line_elt ls) of
         Inl code \<Rightarrow> Headers_finalized code
       | Inr hi \<Rightarrow> headers_loop cf meth version buf r' hi (len + length (concat (map line_bytes ls))) rest)"
  using assms
proof (induction ls arbitrary: r pre hi len)
  case (Cons l ls)
  let ?rest = "concat (map line_bytes ls) @ rest"
  obtain r1 where r1: "hl_state r1 = hsw_start" "hl_pos r1 = length (pre @ line_bytes l)" "length (lowcase_header r1) = 32"
    "headers_loop cf meth version buf r hi len (line_bytes l @ ?rest) =
      (case header_push cf hi (line_elt l) of
         Inl code \<Rightarrow> Headers_finalized code
       | Inr hi \<Rightarrow> headers_loop cf meth version buf r1 hi (len + length (line_bytes l)) ?rest)"
    using headers_loop_line [OF _ Cons.prems(2-4), of cf l buf ?rest meth version hi len] Cons.prems(1, 5) by auto
  show ?case
  proof (cases "header_push cf hi (line_elt l)")
    case (Inl code)
    with r1(4) show ?thesis
      by (intro exI [of _ "r\<lparr>hl_state := hsw_start, hl_pos := length (pre @ concat (map line_bytes (l # ls)))\<rparr>"]) simp
  next
    case (Inr hi1)
    have "list_all (line_ok cf) ls" "buf = (pre @ line_bytes l) @ concat (map line_bytes ls) @ rest"
      using Cons.prems(1, 5) by simp_all
    from Cons.IH [OF this(1) r1(1, 2, 3) this(2), of hi1 "len + length (line_bytes l)"] obtain r2 where
      "hl_state r2 = hsw_start" "hl_pos r2 = length ((pre @ line_bytes l) @ concat (map line_bytes ls))"
      "headers_loop cf meth version buf r1 hi1 (len + length (line_bytes l)) ?rest =
        (case headers_fold cf hi1 (map line_elt ls) of
           Inl code \<Rightarrow> Headers_finalized code
         | Inr hi \<Rightarrow> headers_loop cf meth version buf r2 hi (len + length (line_bytes l) + length (concat (map line_bytes ls))) rest)"
      by blast
    with Inr r1(4) show ?thesis
      by (intro exI [of _ r2]) (simp add: add.assoc split: sum.split)
  qed
next
  case Nil
  then show ?case by (intro exI [of _ r]) simp
qed

lemma headers_in_find_key: "headers_in_find b (ngx_hash_key name) name = handler_of name"
proof -
  have "find (\<lambda>(n, _). unat (ngx_hash_key n) mod b = unat (ngx_hash_key name) mod b \<and> n = name) tab = find (\<lambda>(n, _). n = name) tab"
    for tab :: "(bytes \<times> header_handler) list"
    by (induction tab) auto
  moreover have "map_option snd (find (\<lambda>(n, _). n = name) tab) = map_of tab name" for tab :: "(bytes \<times> header_handler) list"
    by (induction tab) auto
  ultimately show ?thesis by (simp add: headers_in_find_def handler_of_def)
qed

text \<open>
  C3. Header lines that are well formed, with a name of at most 31 characters, blanks around the value in any
  number, and an empty line after them, are read as exactly these headers: each is added and handled in its
  order under the hash and the lower case form of its name, and then the request is checked; what follows
  the empty line is left, and the request has grown by the bytes read.
\<close>

theorem ngx_http_process_request_headers_accepts:
  assumes "list_all (line_ok cf) ls"
    and buf: "buf = pre @ concat (map line_bytes ls) @ CR # LF # rest"
  shows "ngx_http_process_request_headers cf meth version buf (header_init False (length pre)) hi len =
    (case headers_fold cf hi (map line_elt ls) of
       Inl code \<Rightarrow> Headers_finalized code
     | Inr hi \<Rightarrow>
         (case ngx_http_process_request_header cf meth version hi of
            Inl code \<Rightarrow> Headers_finalized code
          | Inr hi \<Rightarrow> Headers_done hi (len + length (concat (map line_bytes ls)) + 2) rest))"
proof -
  obtain r where r: "hl_state r = hsw_start" "hl_pos r = length (pre @ concat (map line_bytes ls))"
    "headers_loop cf meth version buf (header_init False (length pre)) hi len (concat (map line_bytes ls) @ CR # LF # rest) =
      (case headers_fold cf hi (map line_elt ls) of
         Inl code \<Rightarrow> Headers_finalized code
       | Inr hi \<Rightarrow> headers_loop cf meth version buf r hi (len + length (concat (map line_bytes ls))) (CR # LF # rest))"
    using headers_loop_lines [OF assms(1), of "header_init False (length pre)" pre buf "CR # LF # rest" meth version hi len] buf
    by (auto simp: header_init_def)
  have "headers_loop cf meth version buf r hi' n (CR # LF # rest) =
      (case ngx_http_process_request_header cf meth version hi' of
         Inl code \<Rightarrow> Headers_finalized code | Inr hi \<Rightarrow> Headers_done hi (n + 2) rest)" for hi' n
    using r(1) by (simp add: headers_loop.simps [of cf meth version buf r] hl_step_def hl_case_def hl_start_def
        hl_header_almost_done_def hl_header_done_def split: sum.split)
  with r(3) show ?thesis
    by (simp add: ngx_http_process_request_headers_def header_init_def buf split: sum.split)
qed

theorem ngx_http_process_request_headers_accepts_witness:
  "ngx_http_process_request_headers
      \<lparr>underscores_in_headers = False, ignore_invalid_headers = True, merge_slashes = True, hash_buckets = 64,
        vserver = (\<lambda>_. None)\<rparr> NGX_HTTP_GET 1001 (bytes_of ''x: y'' @ [CR, LF, CR, LF]) (header_init False 0) headers_in_init 0
    = Headers_finalized 400"
proof -
  let ?cf = "\<lparr>underscores_in_headers = False, ignore_invalid_headers = True, merge_slashes = True, hash_buckets = 64,
    vserver = (\<lambda>_. None)\<rparr> :: http_conf"
  let ?l = "\<lparr>ln_name = bytes_of ''x'', ln_before = 1, ln_value = bytes_of ''y'', ln_after = 0\<rparr>"
  have ok: "list_all (line_ok ?cf) [?l]"
    by (simp add: line_ok_def name_char_def lowcase_low_char low_char_def ngx_tolower_def value_char_def)
  have buf: "bytes_of ''x: y'' @ [CR, LF, CR, LF] = [] @ concat (map line_bytes [?l]) @ CR # LF # []"
    by (simp add: line_bytes_def)
  have "headers_in_find 64 (ngx_hash_key_lc (bytes_of ''x'')) (map ngx_tolower (bytes_of ''x'')) = None"
    using headers_in_find_key [of 64 "map ngx_tolower (bytes_of ''x'')"]
    by (simp add: ngx_hash_key_lc_lower ngx_tolower_def handler_of_def ngx_http_headers_in_def)
  then have "headers_fold ?cf headers_in_init (map line_elt [?l]) = Inr (headers_in_init\<lparr>hi_headers := [line_elt ?l]\<rparr>)"
    by (simp add: header_push_def line_elt_def headers_in_init_def)
  with ngx_http_process_request_headers_accepts [OF ok buf, of NGX_HTTP_GET 1001 headers_in_init 0] show ?thesis
    by (simp add: ngx_http_process_request_header_def headers_in_init_def)
qed

text \<open>
  Only the first Transfer-Encoding header counts: after "identity", a second one that says "chunked" is passed on
  unread and the body is framed by the Content-Length.
\<close>

definition te_elt :: "string \<Rightarrow> string \<Rightarrow> table_elt" where
  "te_elt name val = \<lparr>elt_hash = ngx_hash_key (bytes_of name), elt_key = bytes_of name, elt_value = bytes_of val,
     elt_lowcase_key = bytes_of name\<rparr>"


lemma ngx_http_process_request_headers_second_coding:
  "\<exists>hi hi'. headers_fold \<lparr>underscores_in_headers = False, ignore_invalid_headers = True, merge_slashes = True,
        hash_buckets = 64, vserver = (\<lambda>_. None)\<rparr> headers_in_init
       [te_elt ''host'' ''a'', te_elt ''content-length'' ''5'', te_elt ''transfer-encoding'' ''identity'',
        te_elt ''transfer-encoding'' ''chunked''] = Inr hi
     \<and> ngx_http_process_request_header \<lparr>underscores_in_headers = False, ignore_invalid_headers = True, merge_slashes = True,
        hash_buckets = 64, vserver = (\<lambda>_. None)\<rparr> NGX_HTTP_POST 1001 hi = Inr hi'
     \<and> \<not> hi_chunked hi' \<and> hi_content_length_n hi' = 5"
proof -
  have "ngx_strncasecmp (bytes_of ''identity'') (bytes_of ''identity'') 8 = 0" by (simp add: numeral_eq_Suc ngx_tolower_def)
  moreover have "is_digit 53" "dec_val [53] = 5" by (simp_all add: is_digit_def num_val_def dval_def)
  ultimately show ?thesis
    by (simp add: header_push_def te_elt_def headers_in_find_key handler_of_def ngx_http_headers_in_def header_handle_def
      ngx_http_process_host_def ngx_http_process_unique_header_line_def ngx_http_process_header_line_def headers_in_init_def
      ngx_http_validate_host_def vh_step_def vh_case_def vh_init_def ngx_http_process_request_header_def header_length_def
      header_te_def header_keepalive_def atoof.parse_eq Let_def ngx_tolower_def word_le_nat_alt)
qed

section \<open>Packets\<close>

text \<open>A request is not an answer of an upstream server, so the parser looks at one byte at a time only.\<close>

lemma hl_step_buf:
  assumes "\<not> upstream r"
  shows "hl_step a buf r c = hl_step a buf' r c"
    "hl_step a buf r c = Go r' \<Longrightarrow> \<not> upstream r' \<and> hl_pos r' = Suc (hl_pos r)"
    "hl_step a buf r c = Halt (rc, r') \<Longrightarrow> \<not> upstream r'"
  using assms by (cases "hl_state r"; auto simp: hl_defs split: if_splits)+

lemma hl_feed_same: "\<not> upstream r \<Longrightarrow> feed (hl_step a buf) r xs = feed (hl_step a buf') r xs"
proof (induction xs arbitrary: r)
  case (Cons c xs)
  note same = hl_step_buf(1) [OF Cons.prems, of a buf c buf']
  show ?case
  proof (cases "hl_step a buf r c")
    case (Go r1)
    moreover have "hl_step a buf' r c = Go r1" using same Go by simp
    moreover have "\<not> upstream r1" using hl_step_buf(2) [OF Cons.prems Go] by simp
    ultimately show ?thesis using Cons.IH by simp
  next
    case (Halt h)
    moreover have "hl_step a buf' r c = Halt h" using same Halt by simp
    ultimately show ?thesis by simp
  qed
qed simp

lemma hl_feed_end:
  "\<not> upstream r \<Longrightarrow>
   (case feed (hl_step a buf) r xs of
      Go r' \<Rightarrow> \<not> upstream r' \<and> hl_pos r' = hl_pos r + length xs
    | Halt ((rc, r'), rest) \<Rightarrow> \<not> upstream r' \<and>
        (rc = HL_OK \<longrightarrow> hl_pos r' + length rest = hl_pos r + length xs \<and> hl_state r' = hsw_start))"
proof (induction xs arbitrary: r)
  case (Cons c xs)
  show ?case
  proof (cases "hl_step a buf r c")
    case (Go r1)
    with hl_step_buf(2) [OF Cons.prems Go] Cons.IH [of r1] show ?thesis
      by (auto split: outcome.splits prod.splits)
  next
    case (Halt h)
    obtain rc r' where h: "h = (rc, r')" by (cases h)
    have "rc = HL_OK \<longrightarrow> hl_pos r' = Suc (hl_pos r) \<and> hl_state r' = hsw_start"
      using Halt h by (cases "hl_state r") (auto simp: hl_defs split: if_splits)
    with Halt h hl_step_buf(3) [OF Cons.prems, of a buf c rc r'] show ?thesis by simp
  qed
qed simp

lemma header_elt_append:
  assumes "hl_post (HL_OK, r)" "hl_pos r \<le> length buf"
  shows "header_elt (buf @ ys) r = header_elt buf r"
proof -
  have "header_name_end r \<le> length buf" "header_end r \<le> length buf"
    "header_name_start r \<le> length buf" "header_start r \<le> length buf"
    using assms by (auto simp: hl_post_def)
  then show ?thesis by (simp add: header_elt_def)
qed

lemma headers_loop_append:
  assumes "hl_inv r" "\<not> upstream r" "hl_pos r + length rest = length buf"
  shows "headers_loop cf meth version (buf @ ys) r hi len (rest @ ys) =
      (case headers_loop cf meth version buf r hi len rest of
         Headers_again r' hi' n \<Rightarrow> headers_loop cf meth version (buf @ ys) r' hi' n ys
       | Headers_done hi' n rest' \<Rightarrow> Headers_done hi' n (rest' @ ys)
       | Headers_finalized code \<Rightarrow> Headers_finalized code)
    \<and> (case headers_loop cf meth version buf r hi len rest of
         Headers_again r' hi' n \<Rightarrow> hl_pos r' = length buf
       | Headers_done hi' n rest' \<Rightarrow> True
       | Headers_finalized code \<Rightarrow> True)"
  using assms
proof (induction "length rest" arbitrary: r hi len rest rule: less_induct)
  case less
  let ?us = "underscores_in_headers cf"
  note small = headers_loop.simps [of cf meth version buf r hi len rest]
  note large = headers_loop.simps [of cf meth version "buf @ ys" r hi len "rest @ ys"]
  note fin = hl_feed_end [OF less.prems(2), where a = ?us and buf = buf and xs = rest]
  note same = hl_feed_same [OF less.prems(2), where a = ?us and buf = "buf @ ys" and buf' = buf]
  show ?case
  proof (cases "feed (hl_step ?us buf) r rest")
    case (Go r1)
    with fin have r1: "\<not> upstream r1" "hl_pos r1 = length buf" using less.prems(3) by simp_all
    have "feed (hl_step ?us (buf @ ys)) r (rest @ ys) = feed (hl_step ?us (buf @ ys)) r1 ys"
      using same Go by (simp add: feed_append)
    with Go r1 show ?thesis
      by (simp add: small large headers_loop.simps [of cf meth version "buf @ ys" r1])
  next
    case (Halt h)
    obtain rc r1 rest1 where h: "h = ((rc, r1), rest1)" by (metis prod.collapse)
    have whole: "feed (hl_step ?us (buf @ ys)) r (rest @ ys) = Halt ((rc, r1), rest1 @ ys)"
      using same [of rest] Halt h by (simp add: feed_append)
    have shorter: "length rest1 < length rest" using feed_Halt_suffix Halt h by fastforce
    show ?thesis
    proof (cases rc)
      case HL_OK
      have r1: "\<not> upstream r1" "hl_pos r1 + length rest1 = length buf" "hl_state r1 = hsw_start"
        using fin Halt h HL_OK less.prems(3) by simp_all
      have post: "hl_post (HL_OK, r1)" using hl.feed_post [OF less.prems(1)] Halt h HL_OK by blast
      have inv: "hl_inv r1" using post r1(3) by (simp add: hl_post_def hl_inv_def)
      have elt: "header_elt (buf @ ys) r1 = header_elt buf r1" by (rule header_elt_append [OF post]) (use r1 in simp)
      show ?thesis
        using less.hyps [OF shorter inv r1(1, 2)] Halt h HL_OK whole elt
        by (auto simp: small large Let_def split: sum.split)
    qed (use Halt h whole in \<open>simp_all add: small large split: sum.split\<close>)
  qed
qed

text \<open>
  C4. Where the packets of a client end makes no difference: when the headers that have arrived do not end,
  going on with the parser and the headers kept, once more bytes are there, gives what reading all the
  bytes at once gives; otherwise more bytes only follow those left.
\<close>

theorem ngx_http_process_request_headers_resume:
  assumes "hl_inv r" "\<not> upstream r" "hl_pos r \<le> length buf"
  shows "ngx_http_process_request_headers cf meth version (buf @ ys) r hi len =
    (case ngx_http_process_request_headers cf meth version buf r hi len of
       Headers_again r' hi' n \<Rightarrow> ngx_http_process_request_headers cf meth version (buf @ ys) r' hi' n
     | Headers_done hi' n rest' \<Rightarrow> Headers_done hi' n (rest' @ ys)
     | Headers_finalized code \<Rightarrow> Headers_finalized code)"
proof -
  have "hl_pos r + length (drop (hl_pos r) buf) = length buf" using assms(3) by simp
  from headers_loop_append [OF assms(1, 2) this, of cf meth version ys hi len] assms(3) show ?thesis
    by (auto simp: ngx_http_process_request_headers_def split: headers_rc.splits)
qed

theorem ngx_http_process_request_headers_resume_witness:
  "ngx_http_process_request_headers
      \<lparr>underscores_in_headers = False, ignore_invalid_headers = True, merge_slashes = True, hash_buckets = 64,
        vserver = (\<lambda>_. None)\<rparr> NGX_HTTP_GET 1001 ([CR] @ [LF, 1]) (header_init False 0) headers_in_init 0
    = Headers_finalized 400"
proof -
  have "hl_inv (header_init False 0)" by (simp add: hl_inv_def header_init_def)
  from ngx_http_process_request_headers_resume [OF this, of "[CR]"] show ?thesis
    by (simp add: header_init_def ngx_http_process_request_headers_def headers_loop.simps hl_step_def hl_case_def hl_start_def
        hl_header_almost_done_def hl_header_done_def ngx_http_process_request_header_def headers_in_init_def)
qed

end
