(* ===== verification/Http_Request_Line_Accept.thy ===== *)
theory Http_Request_Line_Accept
  imports Http_Request_Line
begin

text \<open>
  Completeness of ngx_http_parse_request_line(): every request line
  \<open>METHOD SP /uri SP HTTP/1.d CR LF\<close> is accepted, whatever the bytes of the URI but NUL, LF,
  CR and space, and its parts are found where they are.
\<close>

definition uri_byte :: "u_char \<Rightarrow> bool" where
  "uri_byte c \<longleftrightarrow> c \<noteq> 0 \<and> c \<noteq> LF \<and> c \<noteq> CR \<and> c \<noteq> SP"

lemma method_char_not_SP: "is_method_char c \<Longrightarrow> c \<noteq> SP \<and> c \<noteq> CR \<and> c \<noteq> LF"
  by (auto simp: is_method_char_def)

lemma feed_method:
  "\<lbrakk>state r = sw_method; list_all is_method_char m\<rbrakk>
   \<Longrightarrow> feed (rl_step buf) r m = Go (r\<lparr>pos := pos r + length m\<rparr>)"
proof (induction m arbitrary: r)
  case Nil
  then show ?case by simp
next
  case (Cons c m)
  then show ?case
    by (auto simp: rl_step_def rl_case_def rl_method_def dest: method_char_not_SP)
qed

text \<open>What the bytes of the URI leave alone.\<close>

definition same_line :: "request \<Rightarrow> request \<Rightarrow> bool" where
  "same_line r r' \<longleftrightarrow> request_start r' = request_start r \<and> method_end r' = method_end r
     \<and> http_method r' = http_method r \<and> uri_start r' = uri_start r
     \<and> request_end r' = request_end r \<and> space_in_uri r' = space_in_uri r"

abbreviation uri_states :: "rl_state set" where
  "uri_states \<equiv> {sw_after_slash_in_uri, sw_check_uri, sw_uri}"

lemma uri_byte_step:
  assumes "state r \<in> uri_states" "uri_byte c"
  shows "\<exists>r'. rl_step buf r c = Go r' \<and> state r' \<in> uri_states \<and> same_line r r' \<and> pos r' = Suc (pos r)"
proof -
  consider "state r = sw_after_slash_in_uri" | "state r = sw_check_uri" | "state r = sw_uri"
    using assms(1) by blast
  then show ?thesis
    by cases (use assms(2) in \<open>auto simp: uri_byte_def rl_step_def rl_case_def same_line_def
      rl_after_slash_in_uri_def rl_check_uri_def rl_uri_def\<close>)
qed

lemma feed_uri_bytes:
  "\<lbrakk>state r \<in> uri_states; list_all uri_byte s\<rbrakk>
   \<Longrightarrow> \<exists>r'. feed (rl_step buf) r s = Go r' \<and> state r' \<in> uri_states \<and> same_line r r'
          \<and> pos r' = pos r + length s"
proof (induction s arbitrary: r)
  case Nil
  then show ?case by (simp add: same_line_def)
next
  case (Cons c s)
  obtain r1 where r1: "rl_step buf r c = Go r1" "state r1 \<in> uri_states" "same_line r r1"
    "pos r1 = Suc (pos r)"
    using uri_byte_step [of r c buf] Cons.prems by auto
  obtain r2 where "feed (rl_step buf) r1 s = Go r2" "state r2 \<in> uri_states" "same_line r1 r2"
    "pos r2 = pos r1 + length s"
    using Cons.IH [OF r1(2)] Cons.prems(2) by auto
  with r1 show ?case by (intro exI [of _ r2]) (simp add: same_line_def)
qed

text \<open>The space after the URI, then the protocol and the end of the line.\<close>

lemma feed_version:
  assumes "state r \<in> uri_states" "is_digit d" "request_end r = None"
  shows "\<exists>r'. feed (rl_step buf) r (SP # bytes_of ''HTTP/1.'' @ [d, CR, LF] @ rest)
      = Halt ((NGX_OK, r'), rest)
    \<and> same_line (r\<lparr>request_end := Some (pos r + 9)\<rparr>) r' \<and> uri_end r' = Some (pos r)
    \<and> http_protocol r' = Some (pos r + 1) \<and> http_version r' = 1000 + nat (dval d)"
proof -
  have d: "d \<noteq> CR" "d \<noteq> LF" "d \<noteq> SP" using assms(2) by (auto simp: is_digit_def)
  have one: "dval 49 = 1" by (simp add: dval_def)
  have sp: "\<exists>r1. rl_step buf r SP = Go r1 \<and> state r1 \<in> {sw_check_uri_http_09, sw_http_09}
      \<and> same_line r r1 \<and> pos r1 = Suc (pos r) \<and> uri_end r1 = Some (pos r) \<and> http_major r1 = http_major r"
  proof -
    have usual: "\<not> is_usual SP" by (simp add: is_usual_def in_bitmap_def usual_def)
    consider "state r = sw_after_slash_in_uri" | "state r = sw_check_uri" | "state r = sw_uri"
      using assms(1) by blast
    then show ?thesis
      by cases (simp_all add: usual rl_step_def rl_case_def same_line_def
        rl_after_slash_in_uri_def rl_check_uri_def rl_uri_def)
  qed
  then obtain r1 where r1: "rl_step buf r SP = Go r1"
    "state r1 = sw_check_uri_http_09 \<or> state r1 = sw_http_09"
    "same_line r r1" "pos r1 = Suc (pos r)" "uri_end r1 = Some (pos r)" by auto
  have H: "rl_step buf r1 (ch CHR ''H'')
      = Go (r1\<lparr>http_protocol := Some (pos r1), state := sw_http_H, pos := pos r1 + 1\<rparr>)"
    using r1(2) by (auto simp: rl_step_def rl_case_def rl_check_uri_http_09_def rl_http_09_def
        rl_after_uri_def)
  let ?r2 = "r1\<lparr>http_protocol := Some (pos r1), state := sw_http_H, pos := pos r1 + 1\<rparr>"
  have tail: "feed (rl_step buf) ?r2 (bytes_of ''TTP/1.'' @ [d, CR, LF] @ rest)
     = Halt ((NGX_OK, r1\<lparr>http_protocol := Some (pos r1), http_major := 1, http_minor := nat (dval d),
         request_end := Some (pos r1 + 8), http_version := 1000 + nat (dval d), state := sw_start,
         pos := pos r1 + 10\<rparr>), rest)"
    using assms(2) d one
    by (simp add: rl_step_def rl_case_def rl_expect_def rl_first_major_digit_def
        rl_major_digit_def rl_first_minor_digit_def rl_minor_digit_def rl_almost_done_def
        rl_done_def Let_def)
  have all: "feed (rl_step buf) r (SP # bytes_of ''HTTP/1.'' @ [d, CR, LF] @ rest)
    = feed (rl_step buf) ?r2 (bytes_of ''TTP/1.'' @ [d, CR, LF] @ rest)"
    using r1(1) H by simp
  show ?thesis
    unfolding all tail using r1 by (auto simp: same_line_def)
qed

text \<open>The method the line names: an unknown one is not an error.\<close>

definition method_named :: "bytes \<Rightarrow> http_method" where
  "method_named m = (case rl_method_of (m @ [SP]) 0 (length m) of Some k \<Rightarrow> k | None \<Rightarrow> NGX_HTTP_UNKNOWN)"

text \<open>
  C10. Every line \<open>METHOD SP /path SP HTTP/1.d CR LF\<close> is accepted, for any method of letters,
  "_" and "-" and any URI without NUL, LF, CR and space; the rest of the buffer is left, the
  method, the URI, the protocol and the end of the line are found at their places and the
  version is 1000 + d.
\<close>
theorem ngx_http_parse_request_line_accepts:
  assumes "m \<noteq> []" "list_all is_method_char m" "list_all uri_byte path" "is_digit d"
    and line: "line = m @ SP # ch CHR ''/'' # path @ SP # bytes_of ''HTTP/1.'' @ [d, CR, LF]"
  shows "\<exists>r. ngx_http_parse_request_line (request_init 0) (line @ rest) = Halt ((NGX_OK, r), rest)
    \<and> request_start r = Some 0 \<and> method_end r = Some (length m - 1)
    \<and> http_method r = method_named m \<and> uri_start r = Some (length m + 1)
    \<and> uri_end r = Some (length m + 2 + length path)
    \<and> http_protocol r = Some (length m + 3 + length path)
    \<and> request_end r = Some (length line - 2) \<and> \<not> space_in_uri r
    \<and> http_version r = 1000 + nat (dval d)"
proof -
  let ?buf = "line @ rest"
  let ?r0 = "request_init 0"
  obtain c m' where m: "m = c # m'" using assms(1) by (cases m) auto
  have start: "rl_step ?buf ?r0 c = Go (?r0\<lparr>state := sw_method, request_start := Some 0, pos := 1\<rparr>)"
    using assms(2) method_char_not_SP [of c]
    by (simp add: m rl_step_def rl_case_def rl_start_def request_init_def)
  let ?r1 = "?r0\<lparr>state := sw_method, request_start := Some 0, pos := length m\<rparr>"
  have meth: "feed (rl_step ?buf) ?r0 m = Go ?r1"
    using feed_method [of "?r0\<lparr>state := sw_method, request_start := Some 0, pos := 1\<rparr>" m' ?buf]
      start assms(2) by (simp add: m)
  have "rl_method_of ?buf 0 (length m) = rl_method_of (m @ [SP]) 0 (length m)"
  proof -
    have "?buf = (m @ [SP]) @ (ch CHR ''/'' # path @ SP # bytes_of ''HTTP/1.'' @ [d, CR, LF] @ rest)"
      by (simp add: line)
    then show ?thesis using rl_method_of_append [of 0 "length m" "m @ [SP]"] by (simp only: length_append) simp
  qed
  then have named: "(case rl_method_of ?buf 0 (length m) of Some k \<Rightarrow> ?r1\<lparr>http_method := k\<rparr> | None \<Rightarrow> ?r1)
      = ?r1\<lparr>http_method := method_named m\<rparr>"
    by (simp add: method_named_def request_init_def split: option.split)
  let ?r2 = "?r1\<lparr>http_method := method_named m, method_end := Some (length m - 1),
      state := sw_spaces_before_uri, pos := length m + 1\<rparr>"
  have sp: "rl_step ?buf ?r1 SP = Go ?r2"
    using named
    by (auto simp: rl_step_def rl_case_def rl_method_def Let_def off_def method_named_def
        request_init_def split: option.splits)
  let ?r3 = "?r2\<lparr>uri_start := Some (length m + 1), state := sw_after_slash_in_uri, pos := length m + 2\<rparr>"
  have slash: "rl_step ?buf ?r2 (ch CHR ''/'') = Go ?r3"
    by (simp add: rl_step_def rl_case_def rl_spaces_before_uri_def)
  obtain r4 where r4: "feed (rl_step ?buf) ?r3 path = Go r4" "state r4 \<in> uri_states"
    "same_line ?r3 r4" "pos r4 = length m + 2 + length path"
    using feed_uri_bytes [of ?r3 path ?buf] assms(3) by auto
  have "request_end r4 = None" using r4(3) by (simp add: same_line_def request_init_def)
  from feed_version [OF r4(2) assms(4) this, of ?buf rest] obtain r5 where r5:
    "feed (rl_step ?buf) r4 (SP # bytes_of ''HTTP/1.'' @ [d, CR, LF] @ rest) = Halt ((NGX_OK, r5), rest)"
    "same_line (r4\<lparr>request_end := Some (pos r4 + 9)\<rparr>) r5" "uri_end r5 = Some (pos r4)"
    "http_protocol r5 = Some (pos r4 + 1)" "http_version r5 = 1000 + nat (dval d)" by blast
  have "feed (rl_step ?buf) ?r0 ?buf = Halt ((NGX_OK, r5), rest)"
  proof -
    have split: "?buf = m @ [SP, ch CHR ''/''] @ path @ SP # bytes_of ''HTTP/1.'' @ [d, CR, LF] @ rest"
      by (simp add: line)
    have "feed (rl_step ?buf) ?r0 (m @ [SP, ch CHR ''/''] @ path @ SP # bytes_of ''HTTP/1.'' @ [d, CR, LF] @ rest)
      = feed (rl_step ?buf) r4 (SP # bytes_of ''HTTP/1.'' @ [d, CR, LF] @ rest)"
      using meth sp slash r4(1) by (simp only: feed_append feed.simps outcome.case)
    with r5(1) split show ?thesis by simp
  qed
  then show ?thesis
    using r5 r4(3,4)
    by (intro exI [of _ r5]) (auto simp: ngx_http_parse_request_line_def request_init_def
        same_line_def line)
qed

theorem ngx_http_parse_request_line_accepts_witness:
  "\<exists>r. ngx_http_parse_request_line (request_init 0)
      (bytes_of ''PUT /a/../b?c HTTP/1.1'' @ [CR, LF]) = Halt ((NGX_OK, r), [])
    \<and> http_method r = NGX_HTTP_PUT \<and> http_version r = 1001"
proof -
  have "method_named (bytes_of ''PUT'') = NGX_HTTP_PUT"
    by (simp add: method_named_def rl_method_of_def ngx_str_cmp_def)
  then show ?thesis
    using ngx_http_parse_request_line_accepts [of "bytes_of ''PUT''" "bytes_of ''a/../b?c''"
        "ch CHR ''1''" _ "[]", OF _ _ _ _ refl]
    by (fastforce simp: is_method_char_def uri_byte_def is_digit_def dval_def)
qed

end
