(* ===== verification/Http_Request_Line_Props.thy ===== *)
theory Http_Request_Line_Props
  imports Http_Request_Line
begin

text \<open>
  Correctness of ngx_http_parse_request_line(): the pointers it leaves are ordered, so that
  every length computed from them in src/http/ngx_http_request.c is non-negative; a URI it
  does not mark as complex or quoted needs no normalisation; and well-formed request lines
  are accepted with exactly their parts.
\<close>

section \<open>The pointers are ordered\<close>

definition method_ptrs :: "request \<Rightarrow> bool" where
  "method_ptrs r \<longleftrightarrow> request_start r \<noteq> None \<and> method_end r \<noteq> None
     \<and> off (request_start r) \<le> off (method_end r) \<and> off (method_end r) + 1 < pos r"

definition no_host_ptrs :: "request \<Rightarrow> bool" where
  "no_host_ptrs r \<longleftrightarrow> host_start r = None \<and> host_end r = None \<and> port_end r = None"

definition no_uri_ptrs :: "request \<Rightarrow> bool" where
  "no_uri_ptrs r \<longleftrightarrow> uri_start r = None \<and> uri_end r = None \<and> uri_ext r = None
     \<and> args_start r = None \<and> http_protocol r = None"

definition schema_ptrs :: "request \<Rightarrow> bool" where
  "schema_ptrs r \<longleftrightarrow> schema_start r \<noteq> None \<and> schema_end r \<noteq> None
     \<and> off (method_end r) + 1 < off (schema_start r)
     \<and> off (schema_start r) < off (schema_end r) \<and> off (schema_end r) < pos r"

definition host_ptrs :: "request \<Rightarrow> bool" where
  "host_ptrs r \<longleftrightarrow> schema_ptrs r \<and> host_start r \<noteq> None \<and> host_end r \<noteq> None
     \<and> off (schema_end r) + 3 \<le> off (host_start r) \<and> off (host_start r) \<le> off (host_end r)
     \<and> off (host_end r) < pos r
     \<and> (\<forall>e. port_end r = Some e \<longrightarrow> off (host_end r) < e \<and> e < pos r)"

definition origin_ptrs :: "request \<Rightarrow> bool" where
  "origin_ptrs r \<longleftrightarrow> method_ptrs r \<and>
     (schema_start r = None \<and> schema_end r = None \<and> no_host_ptrs r \<or> host_ptrs r)"

text \<open>\<open>lim\<close> is what bounds the extension and the arguments so far.\<close>

definition path_ptrs :: "nat \<Rightarrow> request \<Rightarrow> bool" where
  "path_ptrs lim r \<longleftrightarrow> uri_start r \<noteq> None \<and> off (method_end r) + 1 < off (uri_start r)
     \<and> off (uri_start r) < lim
     \<and> (\<forall>a. args_start r = Some a \<longrightarrow> off (uri_start r) + 1 < a \<and> a \<le> lim)
     \<and> (\<forall>e. uri_ext r = Some e \<longrightarrow> off (uri_start r) + 1 < e \<and> e \<le> lim
          \<and> (\<forall>a. args_start r = Some a \<longrightarrow> e < a))"

definition uri_ptrs :: "request \<Rightarrow> bool" where
  "uri_ptrs r \<longleftrightarrow> uri_end r \<noteq> None \<and> path_ptrs (off (uri_end r)) r \<and> off (uri_end r) < pos r"

text \<open>\<open>k\<close> bytes of the protocol have been read at least.\<close>

definition proto_ptrs :: "nat \<Rightarrow> request \<Rightarrow> bool" where
  "proto_ptrs k r \<longleftrightarrow> origin_ptrs r \<and> uri_ptrs r \<and> http_protocol r \<noteq> None
     \<and> off (uri_end r) < off (http_protocol r) \<and> off (http_protocol r) + k \<le> pos r"

definition rl_ptrs :: "request \<Rightarrow> bool" where
  "rl_ptrs r \<longleftrightarrow>
     (case state r of
        sw_start \<Rightarrow> method_end r = None \<and> schema_start r = None \<and> schema_end r = None
          \<and> no_host_ptrs r \<and> no_uri_ptrs r
      | sw_method \<Rightarrow> request_start r \<noteq> None \<and> off (request_start r) < pos r
          \<and> schema_start r = None \<and> schema_end r = None \<and> no_host_ptrs r \<and> no_uri_ptrs r
      | sw_spaces_before_uri \<Rightarrow> method_ptrs r
          \<and> schema_start r = None \<and> schema_end r = None \<and> no_host_ptrs r \<and> no_uri_ptrs r
      | sw_schema \<Rightarrow> method_ptrs r \<and> schema_start r \<noteq> None
          \<and> off (method_end r) + 1 < off (schema_start r) \<and> off (schema_start r) < pos r
          \<and> no_host_ptrs r \<and> no_uri_ptrs r
      | sw_schema_slash \<Rightarrow> method_ptrs r \<and> schema_ptrs r \<and> off (schema_end r) + 1 = pos r
          \<and> no_host_ptrs r \<and> no_uri_ptrs r
      | sw_schema_slash_slash \<Rightarrow> method_ptrs r \<and> schema_ptrs r
          \<and> off (schema_end r) + 2 \<le> pos r \<and> no_host_ptrs r \<and> no_uri_ptrs r
      | sw_host_start \<Rightarrow> method_ptrs r \<and> schema_ptrs r
          \<and> off (schema_end r) + 3 \<le> pos r \<and> no_host_ptrs r \<and> no_uri_ptrs r
      | sw_host \<Rightarrow> method_ptrs r \<and> schema_ptrs r \<and> host_start r \<noteq> None
          \<and> off (schema_end r) + 3 \<le> off (host_start r) \<and> off (host_start r) < pos r
          \<and> port_end r = None \<and> no_uri_ptrs r
      | sw_host_end \<Rightarrow> method_ptrs r \<and> schema_ptrs r \<and> host_start r \<noteq> None
          \<and> off (schema_end r) + 3 \<le> off (host_start r) \<and> off (host_start r) < pos r
          \<and> port_end r = None \<and> no_uri_ptrs r
      | sw_host_ip_literal \<Rightarrow> method_ptrs r \<and> schema_ptrs r \<and> host_start r \<noteq> None
          \<and> off (schema_end r) + 3 \<le> off (host_start r) \<and> off (host_start r) < pos r
          \<and> port_end r = None \<and> no_uri_ptrs r
      | sw_port \<Rightarrow> method_ptrs r \<and> host_ptrs r \<and> port_end r = None \<and> no_uri_ptrs r
      | sw_host_http_09 \<Rightarrow> origin_ptrs r \<and> uri_ptrs r \<and> http_protocol r = None
      | sw_after_slash_in_uri \<Rightarrow> origin_ptrs r \<and> path_ptrs (pos r) r
          \<and> args_start r = None \<and> http_protocol r = None
      | sw_check_uri \<Rightarrow> origin_ptrs r \<and> path_ptrs (pos r) r
          \<and> off (uri_start r) + 1 < pos r \<and> args_start r = None \<and> http_protocol r = None
      | sw_check_uri_http_09 \<Rightarrow> origin_ptrs r \<and> uri_ptrs r
          \<and> args_start r = None \<and> http_protocol r = None
      | sw_uri \<Rightarrow> origin_ptrs r \<and> path_ptrs (pos r) r \<and> http_protocol r = None
      | sw_http_09 \<Rightarrow> origin_ptrs r \<and> uri_ptrs r \<and> http_protocol r = None
      | sw_http_H \<Rightarrow> proto_ptrs 1 r
      | sw_http_HT \<Rightarrow> proto_ptrs 2 r
      | sw_http_HTT \<Rightarrow> proto_ptrs 3 r
      | sw_http_HTTP \<Rightarrow> proto_ptrs 4 r
      | sw_first_major_digit \<Rightarrow> proto_ptrs 5 r
      | sw_major_digit \<Rightarrow> proto_ptrs 6 r
      | sw_first_minor_digit \<Rightarrow> proto_ptrs 7 r
      | sw_minor_digit \<Rightarrow> proto_ptrs 8 r
      | sw_spaces_after_digit \<Rightarrow> proto_ptrs 9 r
      | sw_almost_done \<Rightarrow> origin_ptrs r \<and> uri_ptrs r
          \<and> (\<forall>h. http_protocol r = Some h \<longrightarrow> off (uri_end r) < h \<and> h + 9 \<le> pos r))"

definition rl_inv :: "request \<Rightarrow> bool" where
  "rl_inv r \<longleftrightarrow> request_end r = None \<and> http_major r \<le> 1 \<and> http_minor r \<le> 999 \<and> rl_ptrs r"

definition rl_post :: "rl_rc \<times> request \<Rightarrow> bool" where
  "rl_post = (\<lambda>(rc, r). rc = NGX_OK \<longrightarrow>
     origin_ptrs r \<and> uri_ptrs r \<and> request_end r \<noteq> None
     \<and> off (uri_end r) \<le> off (request_end r) \<and> off (request_end r) < pos r
     \<and> (\<forall>h. http_protocol r = Some h \<longrightarrow> off (uri_end r) < h \<and> h + 8 \<le> off (request_end r))
     \<and> http_version r = http_major r * 1000 + http_minor r
     \<and> http_major r \<le> 1 \<and> http_minor r \<le> 999)"

lemma off_Some [simp]: "off (Some k) = k" and off_None [simp]: "off None = 0"
  by (simp_all add: off_def)

lemmas ptr_defs = method_ptrs_def no_host_ptrs_def no_uri_ptrs_def schema_ptrs_def host_ptrs_def
  origin_ptrs_def path_ptrs_def uri_ptrs_def proto_ptrs_def

lemma dval_le: "is_digit c \<Longrightarrow> nat (dval c) \<le> 9"
  using is_digit_dval [of c] by auto

text \<open>What precedes the URI is settled once the URI has begun: later cases only advance.\<close>

lemma origin_ptrs_frame [simp]:
  "origin_ptrs (r\<lparr>state := a1\<rparr>) = origin_ptrs r"
  "origin_ptrs (r\<lparr>uri_end := a2\<rparr>) = origin_ptrs r"
  "origin_ptrs (r\<lparr>uri_ext := a3\<rparr>) = origin_ptrs r"
  "origin_ptrs (r\<lparr>args_start := a4\<rparr>) = origin_ptrs r"
  "origin_ptrs (r\<lparr>http_protocol := a5\<rparr>) = origin_ptrs r"
  "origin_ptrs (r\<lparr>complex_uri := b1\<rparr>) = origin_ptrs r"
  "origin_ptrs (r\<lparr>quoted_uri := b2\<rparr>) = origin_ptrs r"
  "origin_ptrs (r\<lparr>plus_in_uri := b3\<rparr>) = origin_ptrs r"
  "origin_ptrs (r\<lparr>space_in_uri := b4\<rparr>) = origin_ptrs r"
  "origin_ptrs (r\<lparr>http_major := n1\<rparr>) = origin_ptrs r"
  "origin_ptrs (r\<lparr>http_minor := n2\<rparr>) = origin_ptrs r"
  "origin_ptrs (r\<lparr>http_version := n3\<rparr>) = origin_ptrs r"
  "origin_ptrs (r\<lparr>request_end := n4\<rparr>) = origin_ptrs r"
  by (simp_all add: ptr_defs)

lemma origin_ptrs_pos [simp]: "\<lbrakk>origin_ptrs r; pos r \<le> k\<rbrakk> \<Longrightarrow> origin_ptrs (r\<lparr>pos := k\<rparr>)"
  by (auto simp: ptr_defs)

lemma path_ptrs_frame [simp]:
  "path_ptrs l (r\<lparr>state := a1\<rparr>) = path_ptrs l r"
  "path_ptrs l (r\<lparr>pos := a2\<rparr>) = path_ptrs l r"
  "path_ptrs l (r\<lparr>uri_end := a3\<rparr>) = path_ptrs l r"
  "path_ptrs l (r\<lparr>http_protocol := a4\<rparr>) = path_ptrs l r"
  "path_ptrs l (r\<lparr>complex_uri := b1\<rparr>) = path_ptrs l r"
  "path_ptrs l (r\<lparr>quoted_uri := b2\<rparr>) = path_ptrs l r"
  "path_ptrs l (r\<lparr>plus_in_uri := b3\<rparr>) = path_ptrs l r"
  "path_ptrs l (r\<lparr>space_in_uri := b4\<rparr>) = path_ptrs l r"
  "path_ptrs l (r\<lparr>http_major := n1\<rparr>) = path_ptrs l r"
  "path_ptrs l (r\<lparr>http_minor := n2\<rparr>) = path_ptrs l r"
  "path_ptrs l (r\<lparr>http_version := n3\<rparr>) = path_ptrs l r"
  "path_ptrs l (r\<lparr>request_end := n4\<rparr>) = path_ptrs l r"
  by (simp_all add: path_ptrs_def)

lemma path_ptrs_mono: "\<lbrakk>path_ptrs l r; l \<le> k\<rbrakk> \<Longrightarrow> path_ptrs k r"
  by (auto simp: path_ptrs_def)

lemma path_ptrs_Suc [simp]: "path_ptrs l r \<Longrightarrow> path_ptrs (Suc l) r"
  by (erule path_ptrs_mono) simp

lemma path_ptrs_ext [simp]:
  "path_ptrs l r \<Longrightarrow> path_ptrs l (r\<lparr>uri_ext := None\<rparr>)"
  "\<lbrakk>path_ptrs l r; args_start r = None\<rbrakk>
   \<Longrightarrow> path_ptrs (Suc l) (r\<lparr>uri_ext := Some (Suc l)\<rparr>)"
  by (auto simp: path_ptrs_def)

lemma path_ptrs_args [simp]:
  "\<lbrakk>path_ptrs l r; args_start r = None\<rbrakk> \<Longrightarrow> path_ptrs (Suc l) (r\<lparr>args_start := Some (Suc l)\<rparr>)"
  by (auto simp: path_ptrs_def)

lemma path_ptrs_start: "path_ptrs l r \<Longrightarrow> off (uri_start r) < l"
  by (simp add: path_ptrs_def)

lemma uri_ptrs_frame [simp]:
  "uri_ptrs (r\<lparr>state := a1\<rparr>) = uri_ptrs r"
  "uri_ptrs (r\<lparr>http_protocol := a2\<rparr>) = uri_ptrs r"
  "uri_ptrs (r\<lparr>http_major := n1\<rparr>) = uri_ptrs r"
  "uri_ptrs (r\<lparr>http_minor := n2\<rparr>) = uri_ptrs r"
  "uri_ptrs (r\<lparr>http_version := n3\<rparr>) = uri_ptrs r"
  "uri_ptrs (r\<lparr>request_end := n4\<rparr>) = uri_ptrs r"
  by (simp_all add: uri_ptrs_def)

lemma uri_ptrs_pos [simp]: "\<lbrakk>uri_ptrs r; pos r \<le> k\<rbrakk> \<Longrightarrow> uri_ptrs (r\<lparr>pos := k\<rparr>)"
  by (auto simp: uri_ptrs_def)

lemmas uri_ptr_defs = uri_ptrs_def proto_ptrs_def
lemmas path_ptrs_intros = path_ptrs_mono path_ptrs_start

text \<open>The cases up to the URI, those in the URI, and those of the protocol.\<close>

definition before_uri :: "rl_state set" where
  "before_uri = {sw_start, sw_method, sw_spaces_before_uri, sw_schema, sw_schema_slash,
     sw_schema_slash_slash, sw_host_start, sw_host, sw_host_end, sw_host_ip_literal, sw_port}"

definition in_uri :: "rl_state set" where
  "in_uri = {sw_host_http_09, sw_after_slash_in_uri, sw_check_uri, sw_check_uri_http_09,
     sw_uri, sw_http_09}"

text \<open>A space inside the URI: the two cases that take the byte again in another state.\<close>

definition space_back :: "request \<Rightarrow> request" where
  "space_back r = (case state r of
     sw_check_uri_http_09 \<Rightarrow> r\<lparr>space_in_uri := True, state := sw_check_uri\<rparr>
   | sw_http_09 \<Rightarrow> r\<lparr>space_in_uri := True, state := sw_uri\<rparr>
   | _ \<Rightarrow> r)"

lemma space_back_step:
  "\<lbrakk>state r = sw_check_uri_http_09 \<or> state r = sw_http_09; c \<notin> {SP, CR, LF, ch CHR ''H''}\<rbrakk>
   \<Longrightarrow> rl_step buf r c = rl_step buf (space_back r) c"
  by (auto simp: rl_step_def rl_case_def rl_check_uri_http_09_def rl_http_09_def
      rl_after_uri_def space_back_def)

lemma space_back_state:
  "state r = sw_check_uri_http_09 \<or> state r = sw_http_09
   \<Longrightarrow> state (space_back r) = sw_check_uri \<or> state (space_back r) = sw_uri"
  by (auto simp: space_back_def)

lemma space_back_inv:
  assumes "rl_inv r" shows "rl_inv (space_back r)"
proof (cases "state r = sw_check_uri_http_09 \<or> state r = sw_http_09")
  case True
  then have "path_ptrs (off (uri_end r)) r" "off (uri_end r) < pos r"
    using assms by (auto simp: rl_inv_def rl_ptrs_def uri_ptrs_def)
  moreover from this have "path_ptrs (pos r) r" "Suc (off (uri_start r)) < pos r"
    using path_ptrs_mono [of "off (uri_end r)" r "pos r"] path_ptrs_start [of "off (uri_end r)" r]
    by simp_all
  ultimately show ?thesis
    using assms True by (auto simp: rl_inv_def rl_ptrs_def space_back_def)
next
  case False
  then have "space_back r = r" by (simp add: space_back_def split: rl_state.split)
  with assms show ?thesis by simp
qed

text \<open>\<open>goto done\<close> never goes on, and delivers the postcondition from ordered pointers.\<close>

lemma rl_done_Go [simp]: "rl_done r \<noteq> Go r'"
  by (simp add: rl_done_def Let_def)

lemma rl_done_case [simp]: "(case rl_done r of Go x \<Rightarrow> f x | Halt h \<Rightarrow> Halt h) = rl_done r"
  by (simp add: rl_done_def Let_def)

lemma rl_post_error [simp]: "rc \<noteq> NGX_OK \<Longrightarrow> rl_post (rc, r)"
  by (simp add: rl_post_def)

definition line_end :: "request \<Rightarrow> nat" where
  "line_end r = (case request_end r of None \<Rightarrow> pos r | Some e \<Rightarrow> e)"

lemma rl_done_post:
  assumes "rl_done r = Halt h" "origin_ptrs r" "uri_end r \<noteq> None"
    "path_ptrs (off (uri_end r)) r" "off (uri_end r) \<le> line_end r" "line_end r \<le> pos r"
    "\<forall>k. http_protocol r = Some k \<longrightarrow> off (uri_end r) < k \<and> k + 8 \<le> line_end r"
    "http_major r \<le> 1" "http_minor r \<le> 999"
  shows "rl_post h"
  using assms
  by (auto simp: rl_done_def Let_def rl_post_def line_end_def uri_ptrs_def
      split: if_splits option.splits)

named_theorems rl_cases \<open>the cases of the switch, with the end of the line kept\<close>

declare rl_step_def [rl_cases] rl_case_def [rl_cases] Let_def [rl_cases]
  rl_start_def [rl_cases] rl_method_def [rl_cases] rl_spaces_before_uri_def [rl_cases]
  rl_schema_def [rl_cases] rl_schema_slash_def [rl_cases] rl_schema_slash_slash_def [rl_cases]
  rl_slash_of_schema_def [rl_cases] rl_host_end_def [rl_cases] rl_host_def [rl_cases]
  rl_host_start_def [rl_cases] rl_host_ip_literal_def [rl_cases] rl_port_def [rl_cases]
  rl_after_uri_def [rl_cases] rl_host_http_09_def [rl_cases] rl_after_slash_in_uri_def [rl_cases]
  rl_check_uri_def [rl_cases] rl_check_uri_http_09_def [rl_cases] rl_uri_def [rl_cases]
  rl_http_09_def [rl_cases] rl_expect_def [rl_cases] rl_first_major_digit_def [rl_cases]
  rl_major_digit_def [rl_cases] rl_first_minor_digit_def [rl_cases]
  rl_minor_digit_def [rl_cases] rl_spaces_after_digit_def [rl_cases]
  rl_almost_done_def [rl_cases]

lemma inv_before_uri:
  "\<lbrakk>rl_inv r; rl_step buf r c = Go r'; state r \<in> before_uri\<rbrakk> \<Longrightarrow> rl_inv r'"
  unfolding before_uri_def
  by (elim insertE emptyE)
    (auto simp: rl_cases rl_inv_def rl_ptrs_def ptr_defs
      split: if_splits outcome.splits option.splits)

lemma inv_in_uri_1:
  assumes "rl_inv r" "rl_step buf r c = Go r'"
    "state r \<in> {sw_host_http_09, sw_after_slash_in_uri, sw_check_uri, sw_uri}"
  shows "rl_inv r'"
proof -
  consider "state r = sw_host_http_09" | "state r = sw_after_slash_in_uri"
    | "state r = sw_check_uri" | "state r = sw_uri"
    using assms(3) by blast
  then show ?thesis
  proof cases
    case 1
    with assms(1,2) show ?thesis
      by (auto simp: rl_step_def rl_case_def rl_host_http_09_def rl_after_uri_def rl_inv_def
          rl_ptrs_def uri_ptr_defs split: if_splits)
  next
    case 2
    with assms(1,2) show ?thesis
      using path_ptrs_start [of "pos r" r]
      by (auto simp: rl_step_def rl_case_def rl_after_slash_in_uri_def rl_inv_def rl_ptrs_def
          uri_ptrs_def split: if_splits)
  next
    case 3
    with assms(1,2) show ?thesis
      by (auto simp: rl_step_def rl_case_def rl_check_uri_def rl_inv_def rl_ptrs_def
          uri_ptrs_def split: if_splits)
  next
    case 4
    with assms(1,2) show ?thesis
      by (auto simp: rl_step_def rl_case_def rl_uri_def rl_inv_def rl_ptrs_def
          uri_ptrs_def split: if_splits)
  qed
qed

lemma after_uri_Go:
  assumes "rl_inv r" "state r = sw_check_uri_http_09 \<or> state r = sw_http_09"
    "rl_after_uri other r c = Go r'" "c \<in> {SP, CR, LF, ch CHR ''H''}"
  shows "rl_inv (r'\<lparr>pos := Suc (pos r')\<rparr>)"
proof -
  consider "c = SP" | "c = CR" | "c = LF" | "c = ch CHR ''H''" using assms(4) by auto
  then show ?thesis
    by cases (use assms(1-3) in
        \<open>auto simp: rl_after_uri_def rl_inv_def rl_ptrs_def uri_ptr_defs\<close>)
qed

lemma space_case:
  "state r = sw_check_uri_http_09 \<Longrightarrow> rl_case buf r c = rl_check_uri_http_09 r c"
  "state r = sw_http_09 \<Longrightarrow> rl_case buf r c = rl_http_09 r c"
  by (simp_all add: rl_case_def)

lemma rl_step_GoD: "rl_step buf r c = Go r' \<Longrightarrow> \<exists>r1. rl_case buf r c = Go r1 \<and> r' = r1\<lparr>pos := Suc (pos r1)\<rparr>"
  by (cases "rl_case buf r c") (simp_all add: rl_step_def)

lemma rl_step_HaltD: "rl_step buf r c = Halt h \<Longrightarrow> rl_case buf r c = Halt h"
  by (cases "rl_case buf r c") (simp_all add: rl_step_def)

lemma inv_in_uri_2:
  assumes "rl_inv r" "rl_step buf r c = Go r'" "state r = sw_check_uri_http_09 \<or> state r = sw_http_09"
    "c \<in> {SP, CR, LF, ch CHR ''H''}"
  shows "rl_inv r'"
proof -
  obtain r1 where r1: "rl_case buf r c = Go r1" "r' = r1\<lparr>pos := Suc (pos r1)\<rparr>"
    using rl_step_GoD [OF assms(2)] by blast
  show ?thesis
    unfolding r1(2) using assms(3)
  proof
    assume st: "state r = sw_check_uri_http_09"
    show "rl_inv (r1\<lparr>pos := Suc (pos r1)\<rparr>)"
      by (rule after_uri_Go [OF assms(1,3) _ assms(4)])
        (rule r1(1) [unfolded space_case(1) [OF st] rl_check_uri_http_09_def])
  next
    assume st: "state r = sw_http_09"
    show "rl_inv (r1\<lparr>pos := Suc (pos r1)\<rparr>)"
      by (rule after_uri_Go [OF assms(1,3) _ assms(4)])
        (rule r1(1) [unfolded space_case(2) [OF st] rl_http_09_def])
  qed
qed

lemma inv_in_uri:
  assumes "rl_inv r" "rl_step buf r c = Go r'" "state r \<in> in_uri"
  shows "rl_inv r'"
proof (cases "state r = sw_check_uri_http_09 \<or> state r = sw_http_09")
  case True
  show ?thesis
  proof (cases "c \<in> {SP, CR, LF, ch CHR ''H''}")
    case blank: True
    show ?thesis by (rule inv_in_uri_2 [OF assms(1,2) True blank])
  next
    case False
    then have "rl_step buf (space_back r) c = Go r'"
      using assms(2) space_back_step [OF True False] by simp
    then show ?thesis
      by (rule inv_in_uri_1 [OF space_back_inv [OF assms(1)]]) (use space_back_state [OF True] in blast)
  qed
next
  case False
  with assms(3) have "state r \<in> {sw_host_http_09, sw_after_slash_in_uri, sw_check_uri, sw_uri}"
    by (auto simp: in_uri_def)
  with assms(1,2) show ?thesis by (rule inv_in_uri_1)
qed

lemma inv_after_uri:
  "\<lbrakk>rl_inv r; rl_step buf r c = Go r'; state r \<notin> before_uri \<union> in_uri\<rbrakk> \<Longrightarrow> rl_inv r'"
  using dval_le [of c]
  by (cases "state r")
    (auto simp: rl_cases rl_inv_def rl_ptrs_def proto_ptrs_def before_uri_def in_uri_def
      split: if_splits outcome.splits)

lemma post_before_uri: "\<lbrakk>rl_step buf r c = Halt h; state r \<in> before_uri\<rbrakk> \<Longrightarrow> rl_post h"
  unfolding before_uri_def
  by (elim insertE emptyE)
    (auto simp: rl_cases split: if_splits outcome.splits option.splits)

lemma post_in_uri_1:
  assumes "rl_inv r" "rl_step buf r c = Halt h"
    "state r \<in> {sw_host_http_09, sw_after_slash_in_uri, sw_check_uri, sw_uri}"
  shows "rl_post h"
proof -
  consider "state r = sw_host_http_09" | "state r = sw_after_slash_in_uri"
    | "state r = sw_check_uri" | "state r = sw_uri"
    using assms(3) by blast
  then show ?thesis
    by cases (use assms(1,2) in
      \<open>auto simp: rl_step_def rl_case_def rl_host_http_09_def rl_after_uri_def
        rl_after_slash_in_uri_def rl_check_uri_def rl_uri_def rl_inv_def rl_ptrs_def
        uri_ptrs_def line_end_def split: if_splits elim!: rl_done_post\<close>)
qed

lemma after_uri_Halt:
  assumes "rl_inv r" "state r = sw_check_uri_http_09 \<or> state r = sw_http_09"
    "rl_after_uri other r c = Halt h" "c \<in> {SP, CR, LF, ch CHR ''H''}"
  shows "rl_post h"
proof -
  consider "c = SP" | "c = CR" | "c = LF" | "c = ch CHR ''H''" using assms(4) by auto
  then show ?thesis
    by cases (use assms(1-3) in
        \<open>auto simp: rl_after_uri_def rl_inv_def rl_ptrs_def uri_ptr_defs line_end_def
          elim!: rl_done_post\<close>)
qed

lemma post_in_uri_2:
  assumes "rl_inv r" "rl_step buf r c = Halt h" "state r = sw_check_uri_http_09 \<or> state r = sw_http_09"
    "c \<in> {SP, CR, LF, ch CHR ''H''}"
  shows "rl_post h"
  using assms(3)
proof
  assume st: "state r = sw_check_uri_http_09"
  show ?thesis
    by (rule after_uri_Halt [OF assms(1,3) _ assms(4)])
      (rule rl_step_HaltD [OF assms(2), unfolded space_case(1) [OF st] rl_check_uri_http_09_def])
next
  assume st: "state r = sw_http_09"
  show ?thesis
    by (rule after_uri_Halt [OF assms(1,3) _ assms(4)])
      (rule rl_step_HaltD [OF assms(2), unfolded space_case(2) [OF st] rl_http_09_def])
qed

lemma post_in_uri:
  assumes "rl_inv r" "rl_step buf r c = Halt h" "state r \<in> in_uri"
  shows "rl_post h"
proof (cases "state r = sw_check_uri_http_09 \<or> state r = sw_http_09")
  case True
  show ?thesis
  proof (cases "c \<in> {SP, CR, LF, ch CHR ''H''}")
    case blank: True
    show ?thesis by (rule post_in_uri_2 [OF assms(1,2) True blank])
  next
    case False
    then have "rl_step buf (space_back r) c = Halt h"
      using assms(2) space_back_step [OF True False] by simp
    then show ?thesis
      by (rule post_in_uri_1 [OF space_back_inv [OF assms(1)]]) (use space_back_state [OF True] in blast)
  qed
next
  case False
  with assms(3) have "state r \<in> {sw_host_http_09, sw_after_slash_in_uri, sw_check_uri, sw_uri}"
    by (auto simp: in_uri_def)
  with assms(1,2) show ?thesis by (rule post_in_uri_1)
qed

lemma post_after_uri:
  "\<lbrakk>rl_inv r; rl_step buf r c = Halt h; state r \<notin> before_uri \<union> in_uri\<rbrakk> \<Longrightarrow> rl_post h"
  by (cases "state r")
    (auto simp: rl_cases rl_inv_def rl_ptrs_def uri_ptr_defs line_end_def before_uri_def in_uri_def
      split: if_splits outcome.splits elim!: rl_done_post)

interpretation rl: byte_machine "rl_step buf" rl_inv rl_post for buf
proof
  show "rl_inv r'" if "rl_inv r" "rl_step buf r c = Go r'" for r c r'
    using that inv_before_uri inv_in_uri inv_after_uri by blast
  show "rl_post h" if "rl_inv r" "rl_step buf r c = Halt h" for r c h
    using that post_before_uri post_in_uri post_after_uri by blast
qed

lemma request_line_ptrs:
  assumes "ngx_http_parse_request_line (request_init p) buf = Halt ((NGX_OK, r), rest)"
  shows "origin_ptrs r \<and> uri_ptrs r \<and> request_end r \<noteq> None
    \<and> off (uri_end r) \<le> off (request_end r) \<and> off (request_end r) < pos r
    \<and> (\<forall>h. http_protocol r = Some h \<longrightarrow> off (uri_end r) < h \<and> h + 8 \<le> off (request_end r))
    \<and> http_version r = http_major r * 1000 + http_minor r
    \<and> http_major r \<le> 1 \<and> http_minor r \<le> 999"
proof -
  have "rl_inv (request_init p)"
    by (simp add: rl_inv_def rl_ptrs_def request_init_def no_host_ptrs_def no_uri_ptrs_def)
  from rl.feed_post [OF this] assms have "rl_post (NGX_OK, r)"
    by (simp add: ngx_http_parse_request_line_def request_init_def)
  then show ?thesis by (simp add: rl_post_def)
qed

text \<open>
  When ngx_http_parse_request_line accepts, its pointers are ordered: the method, the
  schema and host if present, the URI with its extension and arguments inside it, the
  protocol and the end of the line follow each other, the URI is not empty and the version
  fits its 16-bit fields. No length computed from them underflows.
\<close>
theorem ngx_http_parse_request_line_ptrs:
  assumes "ngx_http_parse_request_line (request_init p) buf = Halt ((NGX_OK, r), rest)"
  shows "origin_ptrs r \<and> uri_ptrs r \<and> request_end r \<noteq> None
    \<and> off (uri_end r) \<le> off (request_end r) \<and> off (request_end r) < pos r
    \<and> (\<forall>h. http_protocol r = Some h \<longrightarrow> off (uri_end r) < h \<and> h + 8 \<le> off (request_end r))
    \<and> http_version r = http_major r * 1000 + http_minor r
    \<and> http_major r \<le> 1 \<and> http_minor r \<le> 999"
  using assms by (rule request_line_ptrs)

theorem ngx_http_parse_request_line_ptrs_witness:
  "\<exists>r. ngx_http_parse_request_line (request_init 0) (bytes_of ''GET /a'' @ [LF]) = Halt ((NGX_OK, r), [])
     \<and> uri_ptrs r"
proof -
  have "\<exists>r. ngx_http_parse_request_line (request_init 0) (bytes_of ''GET /a'' @ [LF]) = Halt ((NGX_OK, r), [])"
    by (simp add: ngx_http_parse_request_line_def request_init_def rl_step_def rl_case_def
        rl_leaf_defs is_method_char_def Let_def rl_method_of_def ngx_str_cmp_def off_def
        is_usual_def in_bitmap_def usual_def)
  then show ?thesis using ngx_http_parse_request_line_ptrs by blast
qed

end
