(* ===== verification/Http_Request_Line_Clean.thy ===== *)
theory Http_Request_Line_Clean
  imports Http_Request_Line_Props
begin

section \<open>An unmarked URI needs no normalisation\<close>

text \<open>No escape, no fragment, and no slash before a slash or a dot.\<close>

definition clean_path :: "bytes \<Rightarrow> bool" where
  "clean_path s \<longleftrightarrow> ch CHR ''%'' \<notin> set s \<and> ch CHR ''#'' \<notin> set s
     \<and> successively (\<lambda>a b. a = ch CHR ''/'' \<longrightarrow> b \<noteq> ch CHR ''/'' \<and> b \<noteq> ch CHR ''.'') s"

lemma clean_path_snoc:
  "clean_path (s @ [c]) \<longleftrightarrow> clean_path s \<and> c \<noteq> ch CHR ''%'' \<and> c \<noteq> ch CHR ''#''
     \<and> (s \<noteq> [] \<and> last s = ch CHR ''/'' \<longrightarrow> c \<noteq> ch CHR ''/'' \<and> c \<noteq> ch CHR ''.'')"
  by (auto simp: clean_path_def successively_append_iff)

lemma clean_path_take: "clean_path s \<Longrightarrow> clean_path (take n s)"
proof -
  assume "clean_path s"
  then have "clean_path (take n s @ drop n s)" by simp
  then show ?thesis by (simp only: clean_path_def successively_append_iff set_append) blast
qed

lemma clean_path_single [simp]: "clean_path [c] \<longleftrightarrow> c \<noteq> ch CHR ''%'' \<and> c \<noteq> ch CHR ''#''"
  by (auto simp: clean_path_def)

text \<open>The path of the URI in the bytes received so far: up to the arguments or to its end.\<close>

definition path_of :: "bytes \<Rightarrow> request \<Rightarrow> bytes" where
  "path_of xs r =
     (let lim = (case args_start r of Some a \<Rightarrow> a - 1 | None \<Rightarrow> off (uri_end r))
      in take (lim - off (uri_start r)) (drop (off (uri_start r)) xs))"

definition rl_clean :: "bytes \<Rightarrow> request \<Rightarrow> bool" where
  "rl_clean xs r \<longleftrightarrow> complex_uri r \<or> quoted_uri r \<or>
     (if state r = sw_after_slash_in_uri then clean_path (drop (off (uri_start r)) xs)
      else if state r = sw_check_uri \<or> state r = sw_check_uri_http_09 then
        clean_path (drop (off (uri_start r)) xs) \<and> last xs \<noteq> ch CHR ''/''
      else if state r = sw_uri \<or> state r = sw_http_09 then
        args_start r \<noteq> None \<and> clean_path (path_of xs r)
      else state r \<in> before_uri \<or> clean_path (path_of xs r))"

definition schema_slash :: "bytes \<Rightarrow> request \<Rightarrow> bool" where
  "schema_slash xs r \<longleftrightarrow>
     (state r \<in> {sw_schema_slash_slash, sw_host_start, sw_host, sw_host_end, sw_host_ip_literal, sw_port}
      \<longrightarrow> xs ! (off (schema_end r) + 1) = ch CHR ''/'')"

text \<open>The parser together with the bytes it has consumed.\<close>

definition rl_trace :: "bytes \<times> request \<Rightarrow> u_char \<Rightarrow> (bytes \<times> request, rl_rc \<times> bytes \<times> request) outcome" where
  "rl_trace = (\<lambda>(xs, r) c.
     (case rl_step (xs @ [c]) r c of
        Go r' \<Rightarrow> Go (xs @ [c], r')
      | Halt (rc, r') \<Rightarrow> Halt (rc, xs @ [c], r')))"

definition rl_tinv :: "bytes \<times> request \<Rightarrow> bool" where
  "rl_tinv = (\<lambda>(xs, r). rl_inv r \<and> pos r = length xs \<and> schema_slash xs r \<and> rl_clean xs r)"

definition rl_tpost :: "rl_rc \<times> bytes \<times> request \<Rightarrow> bool" where
  "rl_tpost = (\<lambda>(rc, xs, r). rc = NGX_OK \<longrightarrow>
     pos r = length xs \<and> (\<not> complex_uri r \<and> \<not> quoted_uri r \<longrightarrow> clean_path (path_of xs r)))"

lemma path_of_frame:
  "\<lbrakk>uri_start r' = uri_start r; uri_end r' = uri_end r; args_start r' = args_start r;
    uri_ptrs r; pos r \<le> length xs\<rbrakk> \<Longrightarrow> path_of (xs @ [c]) r' = path_of xs r"
  by (auto simp: path_of_def Let_def uri_ptrs_def path_ptrs_def split: option.splits)

lemma drop_snoc: "k \<le> length xs \<Longrightarrow> drop k (xs @ [c]) = drop k xs @ [c]"
  by simp

definition in_schema :: "rl_state set" where
  "in_schema = {sw_schema_slash_slash, sw_host_start, sw_host, sw_host_end, sw_host_ip_literal,
     sw_port}"

lemma enter_schema:
  "\<lbrakk>rl_case buf r c = Go r'; state r \<notin> insert sw_schema_slash in_schema\<rbrakk>
   \<Longrightarrow> state r' \<notin> in_schema"
  by (cases "state r")
    (auto simp: rl_case_def rl_leaf_defs Let_def in_schema_def split: if_splits option.splits)

lemma schema_end_frame:
  "\<lbrakk>rl_case buf r c = Go r'; state r \<in> insert sw_schema_slash in_schema\<rbrakk>
   \<Longrightarrow> schema_end r' = schema_end r \<and> (state r = sw_schema_slash \<longrightarrow> c = ch CHR ''/'')"
  by (cases "state r")
    (auto simp: rl_case_def rl_schema_slash_def rl_schema_slash_slash_def rl_host_start_def
      rl_host_def rl_host_end_def rl_host_ip_literal_def rl_port_def rl_slash_of_schema_def
      Let_def in_schema_def split: if_splits)

lemma trace_slash:
  assumes "rl_inv r" "pos r = length xs" "rl_case buf r c = Go r'" "schema_slash xs r"
  shows "schema_slash (xs @ [c]) r'"
proof (cases "state r' \<in> in_schema")
  case False
  then show ?thesis by (auto simp: schema_slash_def in_schema_def)
next
  case True
  then have st: "state r \<in> insert sw_schema_slash in_schema"
    using enter_schema [OF assms(3)] by blast
  note se = schema_end_frame [OF assms(3) st]
  show ?thesis
  proof (cases "state r = sw_schema_slash")
    case True
    with assms(1,2) have "off (schema_end r) + 1 = length xs"
      by (simp add: rl_inv_def rl_ptrs_def)
    with se True show ?thesis by (simp add: schema_slash_def)
  next
    case False
    with st have st': "state r \<in> in_schema" by blast
    then have "off (schema_end r) + 1 < length xs"
      using assms(1,2)
      by (auto simp: in_schema_def rl_inv_def rl_ptrs_def host_ptrs_def)
    moreover have "xs ! (off (schema_end r) + 1) = ch CHR ''/''"
      using assms(4) st' by (auto simp: schema_slash_def in_schema_def)
    ultimately show ?thesis using se by (simp add: schema_slash_def nth_append)
  qed
qed

lemma leave_before_uri:
  "\<lbrakk>rl_case buf r c = Go r'; state r \<in> before_uri\<rbrakk> \<Longrightarrow>
   state r' \<in> before_uri
   \<or> (state r' = sw_after_slash_in_uri \<and> uri_start r' = Some (pos r) \<and> c = ch CHR ''/'')
   \<or> (state r' = sw_host_http_09 \<and> uri_start r' = Some (off (schema_end r) + 1)
      \<and> uri_end r' = Some (off (schema_end r) + 2) \<and> args_start r' = args_start r
      \<and> state r \<in> in_schema)"
  by (cases "state r")
    (auto simp: rl_case_def rl_leaf_defs Let_def in_schema_def before_uri_def
      split: if_splits option.splits)

lemma trace_clean_before:
  assumes "rl_inv r" "pos r = length xs" "rl_case buf r c = Go r'" "schema_slash xs r"
    "state r \<in> before_uri"
  shows "rl_clean (xs @ [c]) r'"
  using leave_before_uri [OF assms(3,5)]
proof (elim disjE conjE)
  assume "state r' \<in> before_uri"
  then show ?thesis by (auto simp: rl_clean_def before_uri_def)
next
  assume "state r' = sw_after_slash_in_uri" "uri_start r' = Some (pos r)" "c = ch CHR ''/''"
  with assms(2) show ?thesis by (simp add: rl_clean_def)
next
  assume r': "state r' = sw_host_http_09" "uri_start r' = Some (off (schema_end r) + 1)"
    "uri_end r' = Some (off (schema_end r) + 2)" "args_start r' = args_start r"
    "state r \<in> in_schema"
  let ?k = "Suc (off (schema_end r))"
  have k: "?k < length xs" "args_start r = None"
    using assms(1,2) r'(5)
    by (auto simp: in_schema_def rl_inv_def rl_ptrs_def host_ptrs_def no_uri_ptrs_def)
  moreover have "xs ! ?k = ch CHR ''/''"
    using assms(4) r'(5) by (auto simp: schema_slash_def in_schema_def)
  ultimately have "path_of (xs @ [c]) r' = [ch CHR ''/'']"
    using r' by (simp add: path_of_def Let_def take_Suc_conv_app_nth hd_drop_conv_nth take_Suc)
  with r' show ?thesis by (simp add: rl_clean_def)
qed

lemma flags_stay:
  assumes "rl_case buf r c = Go r'" "state r \<in> {sw_after_slash_in_uri, sw_check_uri, sw_uri}"
    "complex_uri r \<or> quoted_uri r"
  shows "rl_clean xs r'"
proof -
  consider "state r = sw_after_slash_in_uri" | "state r = sw_check_uri" | "state r = sw_uri"
    using assms(2) by blast
  then have "complex_uri r' \<or> quoted_uri r'"
    by cases (use assms(1,3) in \<open>auto simp: rl_case_def rl_after_slash_in_uri_def
      rl_check_uri_def rl_uri_def split: if_splits\<close>)
  then show ?thesis by (auto simp: rl_clean_def)
qed

lemma after_slash_clean:
  assumes "rl_after_slash_in_uri r c = Go r'" "pos r = length xs" "args_start r = None"
    "state r = sw_after_slash_in_uri" "off (uri_start r) < length xs"
    "clean_path (drop (off (uri_start r)) xs)"
  shows "rl_clean (xs @ [c]) r'"
proof (cases "is_usual c")
  case True
  with assms usual_not [OF True] show ?thesis
    by (auto simp: rl_after_slash_in_uri_def rl_clean_def clean_path_snoc)
next
  case False
  consider "c = SP" | "c = CR" | "c = LF" | "c = 0" | "c = ch CHR ''.''" | "c = ch CHR ''%''"
    | "c = ch CHR ''/''" | "c = ch CHR ''#''" | "c = ch CHR ''?''" | "c = ch CHR ''+''"
    | (other) "c \<notin> {SP, CR, LF, 0, ch CHR ''.'', ch CHR ''%'', ch CHR ''/'', ch CHR ''#'',
        ch CHR ''?'', ch CHR ''+''}"
    by blast
  then show ?thesis
    by cases (use assms False in
      \<open>auto simp: rl_after_slash_in_uri_def rl_clean_def path_of_def clean_path_snoc\<close>)
qed

lemma check_clean:
  assumes "rl_check_uri r c = Go r'" "pos r = length xs" "args_start r = None"
    "state r = sw_check_uri" "off (uri_start r) < length xs"
    "clean_path (drop (off (uri_start r)) xs)" "last xs \<noteq> ch CHR ''/''"
  shows "rl_clean (xs @ [c]) r'"
proof (cases "is_usual c")
  case True
  with assms usual_not [OF True] show ?thesis
    by (auto simp: rl_check_uri_def rl_clean_def clean_path_snoc)
next
  case False
  consider "c = SP" | "c = CR" | "c = LF" | "c = 0" | "c = ch CHR ''.''" | "c = ch CHR ''%''"
    | "c = ch CHR ''/''" | "c = ch CHR ''#''" | "c = ch CHR ''?''" | "c = ch CHR ''+''"
    | (other) "c \<notin> {SP, CR, LF, 0, ch CHR ''.'', ch CHR ''%'', ch CHR ''/'', ch CHR ''#'',
        ch CHR ''?'', ch CHR ''+''}"
    by blast
  then show ?thesis
    by cases (use assms False in
      \<open>auto simp: rl_check_uri_def rl_clean_def path_of_def clean_path_snoc last_drop\<close>)
qed

lemma trace_clean_uri:
  assumes "rl_inv r" "pos r = length xs" "rl_case buf r c = Go r'" "rl_clean xs r"
    "state r \<in> {sw_after_slash_in_uri, sw_check_uri, sw_uri}"
  shows "rl_clean (xs @ [c]) r'"
proof (cases "complex_uri r \<or> quoted_uri r")
  case True
  with assms(3,5) show ?thesis by (intro flags_stay)
next
  case False
  have us: "off (uri_start r) < length xs"
    using assms(1,2,5) path_ptrs_start by (auto simp: rl_inv_def rl_ptrs_def)
  consider "state r = sw_after_slash_in_uri" | "state r = sw_check_uri" | "state r = sw_uri"
    using assms(5) by blast
  then show ?thesis
  proof cases
    case 1
    then show ?thesis
      using assms False us by (intro after_slash_clean) (simp_all add: rl_inv_def rl_ptrs_def rl_case_def rl_clean_def)
  next
    case 2
    then show ?thesis
      using assms False us
      by (intro check_clean) (auto simp: rl_inv_def rl_ptrs_def rl_case_def rl_clean_def)
  next
    case 3
    then have "\<forall>a. args_start r = Some a \<longrightarrow> a \<le> length xs"
      using assms(1,2) by (auto simp: rl_inv_def rl_ptrs_def path_ptrs_def)
    with 3 assms(2-4) False us show ?thesis
      by (auto simp: rl_case_def rl_uri_def rl_clean_def path_of_def split: if_splits)
  qed
qed

definition settled :: "rl_state set" where
  "settled = - (before_uri \<union> {sw_after_slash_in_uri, sw_check_uri, sw_check_uri_http_09, sw_uri,
     sw_http_09})"

text \<open>Once the URI has ended its pointers and flags stay.\<close>

lemma settled_step:
  "\<lbrakk>rl_case buf r c = Go r'; state r \<in> settled\<rbrakk> \<Longrightarrow>
   state r' \<in> settled \<and> uri_start r' = uri_start r \<and> uri_end r' = uri_end r
   \<and> args_start r' = args_start r \<and> complex_uri r' = complex_uri r \<and> quoted_uri r' = quoted_uri r"
  by (cases "state r")
    (auto simp: rl_case_def rl_leaf_defs Let_def settled_def before_uri_def split: if_splits)

lemma clean_settled:
  "state r \<in> settled \<Longrightarrow> rl_clean xs r \<longleftrightarrow> complex_uri r \<or> quoted_uri r \<or> clean_path (path_of xs r)"
  by (auto simp: settled_def rl_clean_def)

lemma settled_uri_ptrs: "\<lbrakk>rl_inv r; state r \<in> settled\<rbrakk> \<Longrightarrow> uri_ptrs r"
  by (cases "state r")
    (simp_all add: settled_def before_uri_def rl_inv_def rl_ptrs_def proto_ptrs_def)

lemma trace_clean_settled:
  assumes "rl_inv r" "pos r = length xs" "rl_case buf r c = Go r'" "rl_clean xs r"
    "state r \<in> settled"
  shows "rl_clean (xs @ [c]) r'"
proof -
  note s = settled_step [OF assms(3,5)]
  then have "path_of (xs @ [c]) r' = path_of xs r"
    using path_of_frame [of r' r xs c] settled_uri_ptrs [OF assms(1,5)] assms(2) by simp
  with s assms(4,5) show ?thesis by (simp add: clean_settled)
qed

lemma spaces_clean:
  assumes "rl_inv r" "rl_clean xs r" "state r = sw_check_uri_http_09 \<or> state r = sw_http_09"
  shows "complex_uri r \<or> quoted_uri r \<or> clean_path (path_of xs r)"
  using assms(3)
proof
  assume "state r = sw_check_uri_http_09"
  with assms(1,2) show ?thesis
    by (auto simp: rl_inv_def rl_ptrs_def rl_clean_def path_of_def clean_path_take)
qed (use assms(2) in \<open>auto simp: rl_clean_def\<close>)

lemma trace_clean_spaces:
  assumes "rl_inv r" "pos r = length xs" "rl_after_uri other r c = Go r'" "rl_clean xs r"
    "state r = sw_check_uri_http_09 \<or> state r = sw_http_09" "c \<in> {SP, CR, LF, ch CHR ''H''}"
  shows "rl_clean (xs @ [c]) r'"
proof -
  have ptrs: "uri_ptrs r" and us: "off (uri_start r) < length xs"
    using assms(1,2,5) by (auto simp: rl_inv_def rl_ptrs_def uri_ptrs_def path_ptrs_def)
  consider "c = SP" "r' = r" | "state r' \<in> settled" "uri_start r' = uri_start r" "uri_end r' = uri_end r"
      "args_start r' = args_start r" "complex_uri r' = complex_uri r" "quoted_uri r' = quoted_uri r"
    using assms(3,6) by (auto simp: rl_after_uri_def settled_def before_uri_def split: if_splits)
  then show ?thesis
  proof cases
    case 1
    have "path_of (xs @ [c]) r = path_of xs r"
      using path_of_frame [of r r xs c] ptrs assms(2) by simp
    with 1 assms(4,5) us show ?thesis
      by (auto simp: rl_clean_def clean_path_snoc)
  next
    case 2
    have "path_of (xs @ [c]) r' = path_of xs r"
      using path_of_frame [of r' r xs c] ptrs assms(2) 2 by simp
    with 2 spaces_clean [OF assms(1,4,5)] show ?thesis by (simp add: clean_settled)
  qed
qed

lemma space_back_clean:
  assumes "rl_clean xs r" shows "rl_clean xs (space_back r)"
  using assms by (cases "state r") (auto simp: space_back_def rl_clean_def path_of_def)

lemma space_back_case:
  "\<lbrakk>state r = sw_check_uri_http_09 \<or> state r = sw_http_09; c \<notin> {SP, CR, LF, ch CHR ''H''}\<rbrakk>
   \<Longrightarrow> rl_case buf r c = rl_case buf (space_back r) c"
  by (auto simp: rl_case_def rl_check_uri_http_09_def rl_http_09_def
      rl_after_uri_def space_back_def)

lemma space_back_pos [simp]: "pos (space_back r) = pos r"
  by (cases "state r") (simp_all add: space_back_def)

lemma trace_clean:
  assumes "rl_inv r" "pos r = length xs" "rl_case buf r c = Go r'" "rl_clean xs r"
    "schema_slash xs r"
  shows "rl_clean (xs @ [c]) r'"
proof -
  consider "state r \<in> before_uri" | "state r \<in> settled"
    | "state r \<in> {sw_after_slash_in_uri, sw_check_uri, sw_uri}"
    | (sp) "state r = sw_check_uri_http_09 \<or> state r = sw_http_09"
    by (auto simp: settled_def)
  then show ?thesis
  proof cases
    case 1
    with assms show ?thesis by (intro trace_clean_before)
  next
    case 2
    with assms show ?thesis by (intro trace_clean_settled)
  next
    case 3
    with assms show ?thesis by (intro trace_clean_uri)
  next
    case sp
    show ?thesis
    proof (cases "c \<in> {SP, CR, LF, ch CHR ''H''}")
      case True
      from sp show ?thesis
      proof
        assume st: "state r = sw_check_uri_http_09"
        show ?thesis
          by (rule trace_clean_spaces [OF assms(1,2) _ assms(4) sp True])
            (rule assms(3) [unfolded space_case(1) [OF st] rl_check_uri_http_09_def])
      next
        assume st: "state r = sw_http_09"
        show ?thesis
          by (rule trace_clean_spaces [OF assms(1,2) _ assms(4) sp True])
            (rule assms(3) [unfolded space_case(2) [OF st] rl_http_09_def])
      qed
    next
      case False
      have again: "rl_case buf (space_back r) c = Go r'"
        using assms(3) space_back_case [OF sp False] by simp
      show ?thesis
        by (rule trace_clean_uri [OF space_back_inv [OF assms(1)] _ again space_back_clean [OF assms(4)]])
          (use assms(2) space_back_state [OF sp] in auto)
    qed
  qed
qed

text \<open>The line ends: the last byte is at \<open>pos\<close> and the URI before it.\<close>

lemma rl_done_fields:
  "rl_done r = Halt (rc, r') \<Longrightarrow> uri_start r' = uri_start r \<and> uri_end r' = uri_end r
   \<and> args_start r' = args_start r \<and> complex_uri r' = complex_uri r \<and> quoted_uri r' = quoted_uri r
   \<and> pos r' = Suc (pos r)"
  by (auto simp: rl_done_def Let_def split: if_splits)

lemma path_of_cong:
  "\<lbrakk>uri_start r' = uri_start r; uri_end r' = uri_end r; args_start r' = args_start r\<rbrakk>
   \<Longrightarrow> path_of xs r' = path_of xs r"
  by (simp add: path_of_def cong: option.case_cong)

lemma done_settled:
  "\<lbrakk>rl_case buf r c = Halt (NGX_OK, r'); state r \<notin> {sw_after_slash_in_uri, sw_check_uri, sw_uri}\<rbrakk> \<Longrightarrow>
   c = LF \<and> state r \<notin> before_uri \<and> uri_start r' = uri_start r \<and> uri_end r' = uri_end r
   \<and> args_start r' = args_start r \<and> complex_uri r' = complex_uri r \<and> quoted_uri r' = quoted_uri r
   \<and> pos r' = Suc (pos r)"
  by (cases "state r")
    (auto simp: rl_cases before_uri_def split: if_splits dest: rl_done_fields)

lemma done_in_uri:
  "\<lbrakk>rl_case buf r c = Halt (NGX_OK, r'); state r \<in> {sw_after_slash_in_uri, sw_check_uri, sw_uri}\<rbrakk> \<Longrightarrow>
   uri_start r' = uri_start r \<and> uri_end r' = Some (pos r)
   \<and> args_start r' = args_start r \<and> complex_uri r' = complex_uri r \<and> quoted_uri r' = quoted_uri r
   \<and> pos r' = Suc (pos r)"
  by (cases "state r")
    (auto simp: rl_cases split: if_splits dest: rl_done_fields)

lemma trace_pos_frame [simp]:
  "path_of xs (r\<lparr>pos := k\<rparr>) = path_of xs r"
  "rl_clean xs (r\<lparr>pos := k\<rparr>) = rl_clean xs r"
  "schema_slash xs (r\<lparr>pos := k\<rparr>) = schema_slash xs r"
  by (simp_all add: path_of_def rl_clean_def schema_slash_def cong: option.case_cong)

lemma rl_post_ptrs: "rl_post (NGX_OK, r) \<Longrightarrow> uri_ptrs r"
  by (simp add: rl_post_def)

lemma path_of_append:
  "\<lbrakk>uri_ptrs r; pos r \<le> length xs\<rbrakk> \<Longrightarrow> path_of (xs @ ys) r = path_of xs r"
  by (auto simp: path_of_def Let_def uri_ptrs_def path_ptrs_def split: option.splits)

lemma trace_done:
  assumes "rl_inv r" "pos r = length xs" "rl_step buf r c = Halt (NGX_OK, r')" "rl_clean xs r"
  shows "complex_uri r' \<or> quoted_uri r' \<or> clean_path (path_of (xs @ [c]) r')"
proof -
  have "uri_ptrs r'" using rl_post_ptrs [OF rl.step_Halt [OF assms(1,3)]] .
  note halt = rl_step_HaltD [OF assms(3)]
  show ?thesis
  proof (cases "state r \<in> {sw_after_slash_in_uri, sw_check_uri, sw_uri}")
    case True
    note d = done_in_uri [OF halt True]
    have us: "off (uri_start r) < length xs"
      using assms(1,2) True path_ptrs_start by (auto simp: rl_inv_def rl_ptrs_def)
    consider "state r \<in> {sw_after_slash_in_uri, sw_check_uri}" | "state r = sw_uri"
      using True by blast
    then show ?thesis
    proof cases
      case 1
      then have "args_start r = None" using assms(1) by (auto simp: rl_inv_def rl_ptrs_def)
      with 1 d us assms(2,4) show ?thesis by (auto simp: rl_clean_def path_of_def)
    next
      case 2
      then have "\<forall>a. args_start r = Some a \<longrightarrow> a \<le> length xs"
        using assms(1,2) by (auto simp: rl_inv_def rl_ptrs_def path_ptrs_def)
      with 2 d us assms(2,4) show ?thesis by (auto simp: rl_clean_def path_of_def)
    qed
  next
    case False
    note d = done_settled [OF halt False]
    have "uri_ptrs r"
    proof (cases "state r \<in> settled")
      case True
      with assms(1) show ?thesis by (rule settled_uri_ptrs)
    next
      case nset: False
      with False d have "state r = sw_check_uri_http_09 \<or> state r = sw_http_09"
        by (auto simp: settled_def)
      then show ?thesis using assms(1) by (auto simp: rl_inv_def rl_ptrs_def)
    qed
    then have path: "path_of (xs @ [c]) r' = path_of xs r"
      using path_of_cong [of r' r "xs @ [c]"] path_of_append [of r xs "[c]"] d assms(2) by simp
    have "complex_uri r \<or> quoted_uri r \<or> clean_path (path_of xs r)"
    proof (cases "state r \<in> settled")
      case True
      with assms(4) show ?thesis by (simp add: clean_settled)
    next
      case nset: False
      with False d have "state r = sw_check_uri_http_09 \<or> state r = sw_http_09"
        by (auto simp: settled_def)
      then show ?thesis by (rule spaces_clean [OF assms(1,4)])
    qed
    with path d show ?thesis by simp
  qed
qed

interpretation trace: byte_machine rl_trace rl_tinv rl_tpost
proof
  fix s :: "bytes \<times> request" and c
  obtain xs r where s: "s = (xs, r)" by (cases s) auto
  show "rl_tinv s'" if inv: "rl_tinv s" and step: "rl_trace s c = Go s'" for s'
  proof -
    obtain r' where r': "rl_step (xs @ [c]) r c = Go r'" "s' = (xs @ [c], r')"
      using step by (auto simp: s rl_trace_def split: outcome.splits prod.splits)
    obtain r1 where r1: "rl_case (xs @ [c]) r c = Go r1" "r' = r1\<lparr>pos := Suc (pos r1)\<rparr>"
      using rl_step_GoD [OF r'(1)] by blast
    have pre: "rl_inv r" "pos r = length xs" "schema_slash xs r" "rl_clean xs r"
      using inv by (auto simp: s rl_tinv_def)
    have "rl_clean (xs @ [c]) r1" "schema_slash (xs @ [c]) r1"
      using trace_clean [OF pre(1,2) r1(1) pre(4,3)] trace_slash [OF pre(1,2) r1(1) pre(3)] .
    then have "rl_clean (xs @ [c]) r'" "schema_slash (xs @ [c]) r'"
      by (simp_all add: r1(2))
    then show ?thesis
      using rl.step_Go [OF pre(1) r'(1)] rl_step_pos [OF r'(1)] pre(2)
      by (simp add: r'(2) rl_tinv_def)
  qed
  show "rl_tpost h" if inv: "rl_tinv s" and step: "rl_trace s c = Halt h" for h
  proof -
    obtain rc r' where r': "rl_step (xs @ [c]) r c = Halt (rc, r')" "h = (rc, xs @ [c], r')"
      using step by (auto simp: s rl_trace_def split: outcome.splits prod.splits)
    have pre: "rl_inv r" "pos r = length xs" "rl_clean xs r"
      using inv by (auto simp: s rl_tinv_def)
    show ?thesis
    proof (cases "rc = NGX_OK")
      case True
      with r' have ok: "rl_step (xs @ [c]) r c = Halt (NGX_OK, r')" by simp
      have "pos r' = Suc (pos r)"
        using done_settled [OF rl_step_HaltD [OF ok]] done_in_uri [OF rl_step_HaltD [OF ok]] by blast
      with trace_done [OF pre(1,2) ok pre(3)] pre(2) show ?thesis
        by (auto simp: rl_tpost_def r'(2))
    next
      case False
      then show ?thesis by (simp add: rl_tpost_def r'(2))
    qed
  qed
qed

lemma trace_feed:
  "\<lbrakk>pos r = length xs; feed (rl_step (xs @ ys)) r ys = Halt ((rc, r'), rest)\<rbrakk>
   \<Longrightarrow> \<exists>zs. xs @ ys = zs @ rest \<and> feed rl_trace (xs, r) ys = Halt ((rc, zs, r'), rest)"
proof (induction ys arbitrary: xs r)
  case Nil
  then show ?case by simp
next
  case (Cons c ys)
  have step: "rl_step (xs @ c # ys) r c = rl_step (xs @ [c]) r c"
    using rl_step_append [of r "xs @ [c]" ys c] Cons.prems(1) by simp
  show ?case
  proof (cases "rl_step (xs @ [c]) r c")
    case (Go r1)
    then have "pos r1 = length (xs @ [c])" using rl_step_pos [OF Go] Cons.prems(1) by simp
    moreover have "feed (rl_step ((xs @ [c]) @ ys)) r1 ys = Halt ((rc, r'), rest)"
      using Cons.prems(2) Go step by simp
    ultimately obtain zs where "(xs @ [c]) @ ys = zs @ rest"
      "feed rl_trace (xs @ [c], r1) ys = Halt ((rc, zs, r'), rest)"
      using Cons.IH [of r1 "xs @ [c]"] by blast
    with Go show ?thesis by (intro exI [of _ zs]) (simp add: rl_trace_def)
  next
    case (Halt h)
    with Cons.prems(2) step have "h = (rc, r')" "ys = rest" by simp_all
    with Halt show ?thesis by (intro exI [of _ "xs @ [c]"]) (simp add: rl_trace_def)
  qed
qed

lemma request_line_unmarked_clean:
  assumes "ngx_http_parse_request_line (request_init p) buf = Halt ((NGX_OK, r), rest)"
    "p \<le> length buf" "\<not> complex_uri r" "\<not> quoted_uri r"
  shows "clean_path (path_of buf r)"
proof -
  let ?r0 = "request_init p"
  have inv0: "rl_inv ?r0"
    by (simp add: rl_inv_def rl_ptrs_def request_init_def no_host_ptrs_def no_uri_ptrs_def)
  have feed: "feed (rl_step (take p buf @ drop p buf)) ?r0 (drop p buf) = Halt ((NGX_OK, r), rest)"
    using assms(1) by (simp add: ngx_http_parse_request_line_def request_init_def)
  have p0: "pos ?r0 = length (take p buf)" using assms(2) by (simp add: request_init_def)
  obtain zs where zs: "buf = zs @ rest"
    "feed rl_trace (take p buf, ?r0) (drop p buf) = Halt ((NGX_OK, zs, r), rest)"
    using trace_feed [OF p0 feed] by auto
  have "rl_tinv (take p buf, ?r0)"
    using inv0 p0 by (simp add: rl_tinv_def schema_slash_def rl_clean_def request_init_def before_uri_def)
  from trace.feed_post [OF this zs(2)] have "clean_path (path_of zs r)" "pos r = length zs"
    using assms(3,4) by (simp_all add: rl_tpost_def)
  moreover have "uri_ptrs r"
    using rl.feed_post [OF inv0 feed] by (rule rl_post_ptrs)
  ultimately show ?thesis using path_of_append [of r zs rest] zs(1) by simp
qed

text \<open>
  If an accepted request line leaves the flags complex_uri and quoted_uri unset, then
  ngx_http_process_request_uri uses the path of the URI as it is; that path contains no
  escape, no fragment, and no slash before a slash or a dot, so it needs no unescaping and no
  merging, and it has no "." or ".." segment.
\<close>
theorem ngx_http_parse_request_line_unmarked_clean:
  assumes "ngx_http_parse_request_line (request_init p) buf = Halt ((NGX_OK, r), rest)"
    "p \<le> length buf" "\<not> complex_uri r" "\<not> quoted_uri r"
  shows "clean_path (path_of buf r)"
  using assms by (rule request_line_unmarked_clean)

theorem ngx_http_parse_request_line_unmarked_clean_witness:
  "\<exists>r. ngx_http_parse_request_line (request_init 0) (bytes_of ''GET /a'' @ [LF]) = Halt ((NGX_OK, r), [])
     \<and> clean_path (path_of (bytes_of ''GET /a'' @ [LF]) r)"
proof -
  have "\<exists>r. ngx_http_parse_request_line (request_init 0) (bytes_of ''GET /a'' @ [LF]) = Halt ((NGX_OK, r), [])
    \<and> \<not> complex_uri r \<and> \<not> quoted_uri r"
    by (simp add: ngx_http_parse_request_line_def request_init_def rl_step_def rl_case_def
        rl_leaf_defs is_method_char_def Let_def rl_method_of_def ngx_str_cmp_def off_def
        is_usual_def in_bitmap_def usual_def)
  then show ?thesis using ngx_http_parse_request_line_unmarked_clean by fastforce
qed

end
