(* ===== verification/Http_Request_Uri.thy ===== *)
theory Http_Request_Uri
  imports Http_Request Http_Request_Line_Clean
begin

text \<open>
  The host and the URI that a request is processed with: what ngx_http_validate_host() lets through, and the path
  after ngx_http_process_request_line() has put the parser of the request line, its marks and the
  normalisation together.
\<close>

section \<open>Hosts\<close>

text \<open>What is known after a part of the host, of its bytes, of the dots and of the end of the name.\<close>

definition two_dots :: bytes where "two_dots = bytes_of ''..''"

definition vh_bytes :: "bytes \<Rightarrow> vhost \<Rightarrow> bool" where
  "vh_bytes xs v \<longleftrightarrow> list_all (\<lambda>c. c \<noteq> 0 \<and> c \<noteq> ch CHR ''/'') xs
     \<and> (\<not> vh_alloc v \<longrightarrow> list_all (\<lambda>c. ngx_tolower c = c) xs)"

definition vh_dots :: "nat \<Rightarrow> bytes \<Rightarrow> vhost \<Rightarrow> bool" where
  "vh_dots len xs v \<longleftrightarrow> vh_i v = length xs \<and> 0 \<le> vh_dot_pos v \<and> \<not> sublist two_dots xs
     \<and> (xs \<noteq> [] \<and> last xs = ch CHR ''.'' \<longrightarrow> vh_dot_pos v = int (length xs) - 1)"

definition bracketed :: "bytes \<Rightarrow> bool" where
  "bracketed xs \<longleftrightarrow> xs \<noteq> [] \<and> hd xs = ch CHR ''[''"

definition vh_name :: "nat \<Rightarrow> bytes \<Rightarrow> vhost \<Rightarrow> bool" where
  "vh_name len xs v \<longleftrightarrow> vh_i v = length xs \<and>
     (case vh_state v of
        vsw_usual \<Rightarrow> vh_host_len v = int len \<and> ch CHR '':'' \<notin> set xs
      | vsw_literal \<Rightarrow> vh_host_len v = int len \<and> bracketed xs
      | vsw_rest \<Rightarrow> xs \<noteq> [] \<and> 0 \<le> vh_host_len v \<and> vh_host_len v \<le> int (length xs)
          \<and> (ch CHR '':'' \<notin> set (take (nat (vh_host_len v)) xs) \<or> bracketed xs))"

lemma two_dots_snoc: "sublist two_dots (s @ [c]) \<longleftrightarrow> sublist two_dots s \<or> c = ch CHR ''.'' \<and> s \<noteq> [] \<and> last s = ch CHR ''.''"
proof -
  have "suffix two_dots (s @ [c]) \<longleftrightarrow> c = ch CHR ''.'' \<and> s \<noteq> [] \<and> last s = ch CHR ''.''"
    by (cases s rule: rev_cases) (auto simp: two_dots_def suffix_def)
  then show ?thesis by (simp add: sublist_snoc)
qed

lemma two_dots_single: "\<not> sublist two_dots [c]"
  using two_dots_snoc [of "[]" c] by (simp add: two_dots_def)

lemma tolower_same: "\<not> (c \<ge> ch CHR ''A'' \<and> c \<le> ch CHR ''Z'') \<Longrightarrow> ngx_tolower c = c"
  by (auto simp: ngx_tolower_def)

lemma bracketed_simps [simp]: "\<not> bracketed []" "bracketed (c # s) \<longleftrightarrow> c = ch CHR ''[''"
  by (simp_all add: bracketed_def)

lemma bracketed_snoc: "bracketed (xs @ ys) \<longleftrightarrow> bracketed xs \<or> xs = [] \<and> bracketed ys"
  by (cases xs) auto

lemma take_nat_append: "k \<le> int (length xs) \<Longrightarrow> take (nat k) (xs @ ys) = take (nat k) xs"
  by simp

lemma vh_step_bytes: "\<lbrakk>vh_bytes xs v; vh_step v c = Go v'\<rbrakk> \<Longrightarrow> vh_bytes (xs @ [c]) v'"
  by (auto simp: vh_step_def vh_case_def vh_bytes_def tolower_same split: if_splits)

lemma vh_step_dots: "\<lbrakk>vh_dots len xs v; vh_step v c = Go v'\<rbrakk> \<Longrightarrow> vh_dots len (xs @ [c]) v'"
  by (auto simp: vh_step_def vh_case_def vh_dots_def two_dots_snoc split: if_splits)

lemma vh_step_name: "\<lbrakk>vh_name len xs v; vh_step v c = Go v'\<rbrakk> \<Longrightarrow> vh_name len (xs @ [c]) v'"
  by (cases "vh_state v")
    (auto simp: vh_step_def vh_case_def vh_name_def bracketed_snoc take_nat_append nat_add_distrib split: if_splits)

lemma vh_feed:
  "feed vh_step (vh_init len alloc) xs = Go v \<Longrightarrow> vh_bytes xs v \<and> vh_dots len xs v \<and> vh_name len xs v"
proof (induction xs arbitrary: v rule: rev_induct)
  case Nil
  then show ?case by (auto simp: vh_bytes_def vh_dots_def vh_name_def vh_init_def two_dots_def)
next
  case (snoc c xs)
  then obtain v1 where "feed vh_step (vh_init len alloc) xs = Go v1" "vh_step v1 c = Go v"
    by (auto simp: feed_append split: outcome.splits)
  with snoc.IH vh_step_bytes vh_step_dots vh_step_name show ?case by blast
qed

text \<open>Lower case keeps all of this.\<close>

lemma tolower_bytes: "ngx_tolower c = 46 \<longleftrightarrow> c = 46" "ngx_tolower c = 47 \<longleftrightarrow> c = 47" "ngx_tolower c = 58 \<longleftrightarrow> c = 58"
  "ngx_tolower c = 0 \<longleftrightarrow> c = 0" "ngx_tolower c = 91 \<longleftrightarrow> c = 91"
proof -
  have "list_all (\<lambda>c. (ngx_tolower c = 46 \<longleftrightarrow> c = 46) \<and> (ngx_tolower c = 47 \<longleftrightarrow> c = 47) \<and> (ngx_tolower c = 58 \<longleftrightarrow> c = 58)
    \<and> (ngx_tolower c = 0 \<longleftrightarrow> c = 0) \<and> (ngx_tolower c = 91 \<longleftrightarrow> c = 91)) all_bytes"
    unfolding all_bytes_list by (simp add: ngx_tolower_def word_le_nat_alt)
  then show "ngx_tolower c = 46 \<longleftrightarrow> c = 46" "ngx_tolower c = 47 \<longleftrightarrow> c = 47" "ngx_tolower c = 58 \<longleftrightarrow> c = 58"
    "ngx_tolower c = 0 \<longleftrightarrow> c = 0" "ngx_tolower c = 91 \<longleftrightarrow> c = 91"
    using all_bytes_set [of c] by (simp_all add: list_all_iff)
qed

lemma host_lower_dots: "sublist two_dots (map ngx_tolower s) \<longleftrightarrow> sublist two_dots s"
proof (induction s rule: rev_induct)
  case (snoc c s)
  then show ?case by (cases "s = []") (simp_all add: two_dots_snoc two_dots_single tolower_bytes last_map)
qed simp

lemma host_lower_ok:
  "list_all (\<lambda>c. c \<noteq> 0 \<and> c \<noteq> ch CHR ''/'') s \<Longrightarrow> list_all (\<lambda>c. c \<noteq> 0 \<and> c \<noteq> ch CHR ''/'') (map ngx_tolower s)"
  "\<not> sublist two_dots s \<Longrightarrow> \<not> sublist (bytes_of ''..'') (map ngx_tolower s)"
  "ch CHR '':'' \<notin> set s \<or> bracketed s \<Longrightarrow> s \<noteq> [] \<Longrightarrow>
     ch CHR '':'' \<notin> set (map ngx_tolower s) \<or> hd (map ngx_tolower s) = ch CHR ''[''"
  using host_lower_dots [of s]
  by (auto simp: list_all_iff tolower_bytes bracketed_def hd_map two_dots_def)


text \<open>
  The dot at the end of a name is taken off only if the port has no dot: the name of "a.:1.2" is "a.", which is
  another name than "a".
\<close>

lemma ngx_http_validate_host_port_dot:
  "ngx_http_validate_host (bytes_of ''a.:12'') False = Some (bytes_of ''a'')"
  "ngx_http_validate_host (bytes_of ''a.:1.2'') False = Some (bytes_of ''a.'')"
  by (simp_all add: ngx_http_validate_host_def vh_step_def vh_case_def vh_init_def)

section \<open>The URI of a request\<close>

text \<open>A path without a slash before a dot has no dot segment.\<close>

lemma successively_sublist: "\<lbrakk>successively P s; sublist (a # b # p) s\<rbrakk> \<Longrightarrow> P a b"
proof -
  assume "successively P s" "sublist (a # b # p) s"
  then obtain xs ys where "successively P (xs @ (a # b # p) @ ys)" by (auto simp: sublist_def)
  then show "P a b" by (simp add: successively_append_iff)
qed

lemma clean_path_no_dots: "clean_path s \<Longrightarrow> \<not> sublist (bytes_of ''/./'') s \<and> \<not> sublist (bytes_of ''/../'') s"
  using successively_sublist [of _ s 47 46] by (auto simp: clean_path_def)

lemma request_uri_plain:
  "ngx_http_process_request_uri merge s False False plus_in space uext uargs = Some u
   \<Longrightarrow> ru_uri u = (case uargs of Some a \<Rightarrow> take (a - 1) s | None \<Rightarrow> s)"
  by (cases uargs; cases uext) (auto simp: ngx_http_process_request_uri_def Let_def split: if_splits)

lemma line_uri_plain:
  assumes "uri_ptrs r" "\<not> complex_uri r" "\<not> quoted_uri r" "line_uri cf buf r = Some u"
  shows "ru_uri u = path_of buf r"
proof -
  let ?us = "off (uri_start r)" and ?ue = "off (uri_end r)"
  have us: "?us < ?ue" using assms(1) by (simp add: uri_ptrs_def path_ptrs_def)
  show ?thesis
  proof (cases "args_start r")
    case None
    with request_uri_plain assms show ?thesis by (fastforce simp: line_uri_def path_of_def buf_slice_def)
  next
    case (Some a)
    have a: "?us + 1 < a" "a \<le> ?ue" using assms(1) Some by (simp_all add: uri_ptrs_def path_ptrs_def)
    have "ru_uri u = take (a - ?us - 1) (take (?ue - ?us) (drop ?us buf))"
      using request_uri_plain assms Some by (fastforce simp: line_uri_def buf_slice_def)
    also have "\<dots> = take (a - 1 - ?us) (drop ?us buf)" using a by (simp add: min_def)
    finally show ?thesis using Some by (simp add: path_of_def)
  qed
qed

lemma line_uri_marked:
  assumes "complex_uri r \<or> quoted_uri r" "line_uri cf buf r = Some u"
  shows "\<not> sublist (bytes_of ''/./'') (ru_uri u) \<and> \<not> sublist (bytes_of ''/../'') (ru_uri u)"
proof -
  let ?s = "buf_slice (off (uri_start r)) (off (uri_end r)) buf"
  obtain res where res: "ngx_http_parse_complex_uri (merge_slashes cf) (plus_in_uri r) (quoted_uri r) ?s = Some res"
    using assms by (auto simp: line_uri_def ngx_http_process_request_uri_def Let_def split: option.splits)
  with assms have "ru_uri u = res_uri res"
    by (auto simp: line_uri_def ngx_http_process_request_uri_def Let_def split: option.splits if_splits)
  with complex_uri_no_dot_segment [of "merge_slashes cf" "plus_in_uri r" "quoted_uri r" ?s] res show ?thesis by simp
qed

text \<open>
  C1. Whatever request line a client sends, and whether its URI has gone through
  ngx_http_parse_complex_uri() or has been used as it is: the URI the request is processed with has no "." and
  no ".." segment that is followed by a slash.
\<close>

theorem ngx_http_process_request_line_no_dot_segment:
  "case ngx_http_process_request_line cf (request_init p) buf of
     Line_done r l rest \<Rightarrow> \<not> sublist (bytes_of ''/./'') (ru_uri (rq_uri l)) \<and> \<not> sublist (bytes_of ''/../'') (ru_uri (rq_uri l))
   | Line_finalized code \<Rightarrow> True
   | Line_again r \<Rightarrow> True"
proof (cases "ngx_http_process_request_line cf (request_init p) buf")
  case (Line_done r l rest)
  then have parse: "ngx_http_parse_request_line (request_init p) buf = Halt ((NGX_OK, r), rest)"
    and uri: "line_uri cf buf r = Some (rq_uri l)"
    by (auto simp: ngx_http_process_request_line_def split: outcome.splits option.splits sum.splits if_splits)
  have "p \<le> length buf"
    using parse by (rule_tac ccontr) (simp add: ngx_http_parse_request_line_def request_init_def)
  moreover have "uri_ptrs r" using request_line_ptrs [OF parse] by simp
  ultimately have "\<not> sublist (bytes_of ''/./'') (ru_uri (rq_uri l)) \<and> \<not> sublist (bytes_of ''/../'') (ru_uri (rq_uri l))"
    using line_uri_marked [OF _ uri] line_uri_plain [OF _ _ _ uri] request_line_unmarked_clean [OF parse]
      clean_path_no_dots [of "path_of buf r"] by (cases "complex_uri r \<or> quoted_uri r") auto
  with Line_done show ?thesis by simp
qed simp_all

end
