(* ===== verification/Http_Status.thy ===== *)
theory Http_Status
  imports Prelude
begin

text \<open>
  The status line of an upstream's response: ngx_http_parse_status_line() of
  src/http/ngx_http_parse.c as a byte machine, with the ngx_http_status_t it fills. A
  pointer into the buffer is an offset. \<open>status->count\<close> and \<open>status->code\<close> are cleared by the
  callers before the first call.
\<close>

section \<open>The machine\<close>

datatype sl_state = ssw_start | ssw_H | ssw_HT | ssw_HTT | ssw_HTTP | ssw_first_major_digit
  | ssw_major_digit | ssw_first_minor_digit | ssw_minor_digit | ssw_status
  | ssw_space_after_status | ssw_status_text | ssw_almost_done

record http_status =
  sl_state :: sl_state
  sl_pos :: nat
  sl_major :: nat
  sl_minor :: nat
  status_code :: nat
  status_count :: nat
  status_start :: nat
  status_end :: "nat option"
  status_version :: nat

datatype sl_rc = SL_OK | SL_ERROR

type_synonym sl_out = "(http_status, sl_rc \<times> http_status) outcome"

definition status_init :: "nat \<Rightarrow> http_status" where
  "status_init p = \<lparr> sl_state = ssw_start, sl_pos = p, sl_major = 0, sl_minor = 0, status_code = 0,
     status_count = 0, status_start = 0, status_end = None, status_version = 0 \<rparr>"

definition sl_done :: "http_status \<Rightarrow> sl_out" where
  "sl_done r = Halt (SL_OK, r\<lparr>sl_pos := sl_pos r + 1,
     status_end := (case status_end r of None \<Rightarrow> Some (sl_pos r) | Some e \<Rightarrow> Some e),
     status_version := sl_major r * 1000 + sl_minor r, sl_state := ssw_start\<rparr>)"

definition sl_error :: "http_status \<Rightarrow> sl_out" where
  "sl_error r = Halt (SL_ERROR, r)"

text \<open>The letters of "HTTP/".\<close>

definition sl_expect :: "u_char \<Rightarrow> sl_state \<Rightarrow> http_status \<Rightarrow> u_char \<Rightarrow> sl_out" where
  "sl_expect want st r c = (if c = want then Go (r\<lparr>sl_state := st\<rparr>) else sl_error r)"

definition digit_val :: "u_char \<Rightarrow> nat" where
  "digit_val c = nat (dval c)"

definition sl_first_major_digit :: "http_status \<Rightarrow> u_char \<Rightarrow> sl_out" where
  "sl_first_major_digit r c =
     (if c < ch CHR ''1'' \<or> c > ch CHR ''9'' then sl_error r
      else Go (r\<lparr>sl_major := digit_val c, sl_state := ssw_major_digit\<rparr>))"

definition sl_major_digit :: "http_status \<Rightarrow> u_char \<Rightarrow> sl_out" where
  "sl_major_digit r c =
     (if c = ch CHR ''.'' then Go (r\<lparr>sl_state := ssw_first_minor_digit\<rparr>)
      else if \<not> is_digit c then sl_error r
      else if sl_major r > 99 then sl_error r
      else Go (r\<lparr>sl_major := sl_major r * 10 + digit_val c\<rparr>))"

definition sl_first_minor_digit :: "http_status \<Rightarrow> u_char \<Rightarrow> sl_out" where
  "sl_first_minor_digit r c =
     (if \<not> is_digit c then sl_error r
      else Go (r\<lparr>sl_minor := digit_val c, sl_state := ssw_minor_digit\<rparr>))"

definition sl_minor_digit :: "http_status \<Rightarrow> u_char \<Rightarrow> sl_out" where
  "sl_minor_digit r c =
     (if c = SP then Go (r\<lparr>sl_state := ssw_status\<rparr>)
      else if \<not> is_digit c then sl_error r
      else if sl_minor r > 99 then sl_error r
      else Go (r\<lparr>sl_minor := sl_minor r * 10 + digit_val c\<rparr>))"

text \<open>\<open>status->start = p - 2\<close> at the third digit.\<close>

definition sl_status :: "http_status \<Rightarrow> u_char \<Rightarrow> sl_out" where
  "sl_status r c =
     (if c = SP then Go r
      else if \<not> is_digit c then sl_error r
      else
        (let r = r\<lparr>status_code := status_code r * 10 + digit_val c, status_count := status_count r + 1\<rparr>
         in if status_count r = 3
            then Go (r\<lparr>sl_state := ssw_space_after_status, status_start := sl_pos r - 2\<rparr>)
            else Go r))"

definition sl_space_after_status :: "http_status \<Rightarrow> u_char \<Rightarrow> sl_out" where
  "sl_space_after_status r c =
     (if c = SP then Go (r\<lparr>sl_state := ssw_status_text\<rparr>)
      else if c = ch CHR ''.'' then Go (r\<lparr>sl_state := ssw_status_text\<rparr>)
      else if c = CR then Go (r\<lparr>sl_state := ssw_almost_done\<rparr>)
      else if c = LF then sl_done r
      else sl_error r)"

definition sl_status_text :: "http_status \<Rightarrow> u_char \<Rightarrow> sl_out" where
  "sl_status_text r c =
     (if c = CR then Go (r\<lparr>sl_state := ssw_almost_done\<rparr>)
      else if c = LF then sl_done r
      else Go r)"

definition sl_almost_done :: "http_status \<Rightarrow> u_char \<Rightarrow> sl_out" where
  "sl_almost_done r c =
     (let r = r\<lparr>status_end := Some (sl_pos r - 1)\<rparr> in if c = LF then sl_done r else sl_error r)"

fun sl_case :: "sl_state \<Rightarrow> http_status \<Rightarrow> u_char \<Rightarrow> sl_out" where
  "sl_case ssw_start r c = sl_expect (ch CHR ''H'') ssw_H r c"
| "sl_case ssw_H r c = sl_expect (ch CHR ''T'') ssw_HT r c"
| "sl_case ssw_HT r c = sl_expect (ch CHR ''T'') ssw_HTT r c"
| "sl_case ssw_HTT r c = sl_expect (ch CHR ''P'') ssw_HTTP r c"
| "sl_case ssw_HTTP r c = sl_expect (ch CHR ''/'') ssw_first_major_digit r c"
| "sl_case ssw_first_major_digit r c = sl_first_major_digit r c"
| "sl_case ssw_major_digit r c = sl_major_digit r c"
| "sl_case ssw_first_minor_digit r c = sl_first_minor_digit r c"
| "sl_case ssw_minor_digit r c = sl_minor_digit r c"
| "sl_case ssw_status r c = sl_status r c"
| "sl_case ssw_space_after_status r c = sl_space_after_status r c"
| "sl_case ssw_status_text r c = sl_status_text r c"
| "sl_case ssw_almost_done r c = sl_almost_done r c"

definition sl_step :: "http_status \<Rightarrow> u_char \<Rightarrow> sl_out" where
  "sl_step r c =
     (case sl_case (sl_state r) r c of Go r' \<Rightarrow> Go (r'\<lparr>sl_pos := sl_pos r' + 1\<rparr>) | Halt h \<Rightarrow> Halt h)"

definition ngx_http_parse_status_line ::
  "http_status \<Rightarrow> bytes \<Rightarrow> (http_status, (sl_rc \<times> http_status) \<times> bytes) outcome" where
  "ngx_http_parse_status_line r buf = feed sl_step r (drop (sl_pos r) buf)"

lemmas sl_leaf_defs = sl_done_def sl_error_def sl_expect_def sl_first_major_digit_def
  sl_major_digit_def sl_first_minor_digit_def sl_minor_digit_def sl_status_def
  sl_space_after_status_def sl_status_text_def sl_almost_done_def

section \<open>Bounds of the fields\<close>

lemma digit_val_le: "is_digit c \<Longrightarrow> digit_val c \<le> 9"
  using is_digit_dval [of c] by (simp add: digit_val_def) linarith

lemma digit_val_first: "\<not> (c < ch CHR ''1'' \<or> c > ch CHR ''9'') \<Longrightarrow> is_digit c \<and> 1 \<le> digit_val c"
proof -
  assume "\<not> (c < ch CHR ''1'' \<or> c > ch CHR ''9'')"
  then have "49 \<le> uint c" "uint c \<le> 57" by (simp_all add: word_less_def)
  then show ?thesis by (simp add: is_digit_def digit_val_def dval_def word_le_def)
qed

text \<open>
  How far the parser is at least in each state, from where the line started, how many digits
  of the status it has, and how far behind the status is.
\<close>

fun sl_least :: "sl_state \<Rightarrow> nat \<Rightarrow> nat" where
  "sl_least ssw_start n = 0"
| "sl_least ssw_H n = 1"
| "sl_least ssw_HT n = 2"
| "sl_least ssw_HTT n = 3"
| "sl_least ssw_HTTP n = 4"
| "sl_least ssw_first_major_digit n = 5"
| "sl_least ssw_major_digit n = 6"
| "sl_least ssw_first_minor_digit n = 7"
| "sl_least ssw_minor_digit n = 8"
| "sl_least ssw_status n = 9 + n"
| "sl_least ssw_space_after_status n = 12"
| "sl_least ssw_status_text n = 13"
| "sl_least ssw_almost_done n = 13"

fun sl_digits :: "sl_state \<Rightarrow> nat \<Rightarrow> bool" where
  "sl_digits ssw_status n \<longleftrightarrow> n < 3"
| "sl_digits ssw_space_after_status n \<longleftrightarrow> n = 3"
| "sl_digits ssw_status_text n \<longleftrightarrow> n = 3"
| "sl_digits ssw_almost_done n \<longleftrightarrow> n = 3"
| "sl_digits _ n \<longleftrightarrow> n = 0"

fun sl_behind :: "sl_state \<Rightarrow> nat \<Rightarrow> nat \<Rightarrow> nat \<Rightarrow> bool" where
  "sl_behind ssw_space_after_status q s p \<longleftrightarrow> q + 9 \<le> s \<and> s + 3 \<le> p"
| "sl_behind ssw_status_text q s p \<longleftrightarrow> q + 9 \<le> s \<and> s + 4 \<le> p"
| "sl_behind ssw_almost_done q s p \<longleftrightarrow> q + 9 \<le> s \<and> s + 4 \<le> p"
| "sl_behind _ q s p \<longleftrightarrow> True"

definition sl_inv :: "nat \<Rightarrow> http_status \<Rightarrow> bool" where
  "sl_inv q r \<longleftrightarrow> q + sl_least (sl_state r) (status_count r) \<le> sl_pos r
     \<and> sl_major r \<le> 999 \<and> sl_minor r \<le> 999 \<and> status_end r = None
     \<and> status_code r < 10 ^ status_count r \<and> sl_digits (sl_state r) (status_count r)
     \<and> sl_behind (sl_state r) q (status_start r) (sl_pos r)"

definition sl_post :: "nat \<Rightarrow> sl_rc \<times> http_status \<Rightarrow> bool" where
  "sl_post q = (\<lambda>(rc, r). rc = SL_OK \<longrightarrow> sl_major r \<le> 999 \<and> sl_minor r \<le> 999
     \<and> status_version r = sl_major r * 1000 + sl_minor r \<and> status_count r = 3 \<and> status_code r \<le> 999
     \<and> (\<exists>e. status_end r = Some e \<and> q + 9 \<le> status_start r \<and> status_start r + 3 \<le> e \<and> e < sl_pos r))"

interpretation sl: byte_machine sl_step "sl_inv q" "sl_post q" for q
proof
  show "sl_inv q r'" if "sl_inv q r" "sl_step r c = Go r'" for r c r'
    using that digit_val_le [of c] digit_val_first [of c]
    by (cases "sl_state r")
      (auto simp: sl_step_def sl_leaf_defs sl_inv_def Let_def less_Suc_eq numeral_3_eq_3
        split: if_splits)
  show "sl_post q h" if "sl_inv q r" "sl_step r c = Halt h" for r c h
    using that
    by (cases "sl_state r")
      (auto simp: sl_step_def sl_leaf_defs sl_inv_def sl_post_def Let_def split: if_splits)
qed

text \<open>
  When ngx_http_parse_status_line() returns NGX_OK, however the line arrived in pieces, the version fits
  its 16-bit halves, three digits of status were read, and the three bytes from
  status->start up to status->end (from which the callers compute the length of the status
  text) lie inside the data consumed.
\<close>

theorem ngx_http_parse_status_line_safe:
  assumes "ngx_http_parse_status_line (status_init q) buf = Halt ((SL_OK, r), rest)"
  shows "sl_major r \<le> 999 \<and> sl_minor r \<le> 999 \<and> status_version r = sl_major r * 1000 + sl_minor r
    \<and> status_count r = 3 \<and> status_code r \<le> 999
    \<and> (\<exists>e. status_end r = Some e \<and> q + 9 \<le> status_start r \<and> status_start r + 3 \<le> e \<and> e < sl_pos r)"
proof -
  have "sl_post q (SL_OK, r)"
    using assms unfolding ngx_http_parse_status_line_def
    by (rule sl.feed_post [rotated]) (simp add: sl_inv_def status_init_def)
  then show ?thesis by (simp add: sl_post_def)
qed

theorem ngx_http_parse_status_line_safe_witness:
  "\<exists>r. ngx_http_parse_status_line (status_init 0) (bytes_of ''HTTP/1.1 204'' @ [LF]) = Halt ((SL_OK, r), [])
     \<and> status_code r = 204 \<and> status_start r + 3 \<le> the (status_end r)"
proof -
  obtain r where r: "ngx_http_parse_status_line (status_init 0) (bytes_of ''HTTP/1.1 204'' @ [LF])
      = Halt ((SL_OK, r), [])" "status_code r = 204"
    by (simp add: ngx_http_parse_status_line_def status_init_def sl_step_def sl_leaf_defs byte_class
        digit_val_def Let_def)
  with ngx_http_parse_status_line_safe [OF r(1)] show ?thesis by auto
qed

text \<open>
  Spaces are skipped between the digits of the status too, and \<open>status->start = p - 2\<close> then no
  longer is where the status begins.
\<close>

lemma ngx_http_parse_status_line_spaced:
  "\<exists>r. ngx_http_parse_status_line (status_init 0) (bytes_of ''HTTP/1.1 2 0 4 x'' @ [LF]) = Halt ((SL_OK, r), [])
     \<and> status_code r = 204 \<and> take 5 (drop (status_start r) (bytes_of ''HTTP/1.1 2 0 4 x'')) = bytes_of ''0 4 x''"
  by (simp add: ngx_http_parse_status_line_def status_init_def sl_step_def sl_leaf_defs byte_class
        digit_val_def Let_def)

section \<open>What a status line gives\<close>

lemma digit_val_dval: "is_digit c \<Longrightarrow> int (digit_val c) = dval c"
  using is_digit_dval [of c] by (simp add: digit_val_def)

text \<open>The digits of the version, one after another.\<close>

lemma sl_feed_major:
  assumes "sl_state r = ssw_major_digit" "list_all is_digit ds"
    "int (sl_major r) * 10 ^ length ds + dec_val ds \<le> 999"
  shows "feed sl_step r ds = Go (r\<lparr>sl_major := nat (int (sl_major r) * 10 ^ length ds + dec_val ds),
    sl_pos := sl_pos r + length ds\<rparr>)"
  using assms
proof (induction ds arbitrary: r)
  case Nil
  then show ?case by simp
next
  case (Cons c ds)
  let ?n = "sl_major r * 10 + digit_val c"
  have c: "is_digit c" "c \<noteq> ch CHR ''.''" using Cons.prems(2) by (auto simp: byte_class)
  have val: "int (sl_major r) * 10 ^ length (c # ds) + dec_val (c # ds) = int ?n * 10 ^ length ds + dec_val ds"
    using digit_val_dval [OF c(1)] by (simp add: num_val_Cons algebra_simps)
  have "int ?n \<le> int ?n * 10 ^ length ds" by (simp add: mult_le_cancel_left1)
  moreover have "0 \<le> dec_val ds" using Cons.prems(2) by (simp add: dec_val_nonneg)
  ultimately have "sl_major r \<le> 99" using Cons.prems(3) val by linarith
  then have step: "sl_step r c = Go (r\<lparr>sl_major := ?n, sl_pos := sl_pos r + 1\<rparr>)"
    using Cons.prems(1) c by (simp add: sl_step_def sl_major_digit_def)
  have "feed sl_step (r\<lparr>sl_major := ?n, sl_pos := sl_pos r + 1\<rparr>) ds
      = Go (r\<lparr>sl_major := nat (int ?n * 10 ^ length ds + dec_val ds), sl_pos := sl_pos r + 1 + length ds\<rparr>)"
    using Cons.IH [of "r\<lparr>sl_major := ?n, sl_pos := sl_pos r + 1\<rparr>"] Cons.prems val by simp
  with step val show ?case by simp
qed

lemma sl_feed_minor:
  assumes "sl_state r = ssw_minor_digit" "list_all is_digit ds"
    "int (sl_minor r) * 10 ^ length ds + dec_val ds \<le> 999"
  shows "feed sl_step r ds = Go (r\<lparr>sl_minor := nat (int (sl_minor r) * 10 ^ length ds + dec_val ds),
    sl_pos := sl_pos r + length ds\<rparr>)"
  using assms
proof (induction ds arbitrary: r)
  case Nil
  then show ?case by simp
next
  case (Cons c ds)
  let ?n = "sl_minor r * 10 + digit_val c"
  have c: "is_digit c" "c \<noteq> SP" using Cons.prems(2) by (auto simp: byte_class)
  have val: "int (sl_minor r) * 10 ^ length (c # ds) + dec_val (c # ds) = int ?n * 10 ^ length ds + dec_val ds"
    using digit_val_dval [OF c(1)] by (simp add: num_val_Cons algebra_simps)
  have "int ?n \<le> int ?n * 10 ^ length ds" by (simp add: mult_le_cancel_left1)
  moreover have "0 \<le> dec_val ds" using Cons.prems(2) by (simp add: dec_val_nonneg)
  ultimately have "sl_minor r \<le> 99" using Cons.prems(3) val by linarith
  then have step: "sl_step r c = Go (r\<lparr>sl_minor := ?n, sl_pos := sl_pos r + 1\<rparr>)"
    using Cons.prems(1) c by (simp add: sl_step_def sl_minor_digit_def)
  have "feed sl_step (r\<lparr>sl_minor := ?n, sl_pos := sl_pos r + 1\<rparr>) ds
      = Go (r\<lparr>sl_minor := nat (int ?n * 10 ^ length ds + dec_val ds), sl_pos := sl_pos r + 1 + length ds\<rparr>)"
    using Cons.IH [of "r\<lparr>sl_minor := ?n, sl_pos := sl_pos r + 1\<rparr>"] Cons.prems val by simp
  with step val show ?case by simp
qed

lemma sl_feed_text:
  assumes "sl_state r = ssw_status_text" "CR \<notin> set t" "LF \<notin> set t"
  shows "feed sl_step r t = Go (r\<lparr>sl_pos := sl_pos r + length t\<rparr>)"
  using assms
proof (induction t arbitrary: r)
  case (Cons c t)
  then have "sl_step r c = Go (r\<lparr>sl_pos := sl_pos r + 1\<rparr>)" by (simp add: sl_step_def sl_status_text_def)
  with Cons show ?case by simp
qed simp

text \<open>What follows the status: nothing, or a space or dot and a text; then the end of the line.\<close>

definition status_tail :: "bytes \<Rightarrow> bool" where
  "status_tail t \<longleftrightarrow> CR \<notin> set t \<and> LF \<notin> set t \<and> (t = [] \<or> hd t = SP \<or> hd t = ch CHR ''.'')"

definition line_end :: "bytes \<Rightarrow> bool" where
  "line_end e \<longleftrightarrow> e = [LF] \<or> e = [CR, LF]"

text \<open>
  Every status line \<open>HTTP/major.minor SP ddd\<close>, with versions up to 999 and with or without a text
  after a space or a dot, ended by LF or CR LF, is accepted with its version and status; the
  status text given to the callers runs from the first digit to the end of the line.
\<close>

theorem ngx_http_parse_status_line_accepts:
  assumes "maj \<noteq> []" "list_all is_digit maj" "hd maj \<noteq> ch CHR ''0''" "dec_val maj \<le> 999"
    "mino \<noteq> []" "list_all is_digit mino" "dec_val mino \<le> 999"
    "list_all is_digit [d1, d2, d3]" "status_tail t" "line_end e"
    and line: "line = bytes_of ''HTTP/'' @ maj @ ch CHR ''.'' # mino @ SP # [d1, d2, d3] @ t @ e"
  shows "\<exists>r. ngx_http_parse_status_line (status_init 0) (line @ rest) = Halt ((SL_OK, r), rest)
    \<and> int (status_version r) = dec_val maj * 1000 + dec_val mino
    \<and> int (status_code r) = dec_val [d1, d2, d3]
    \<and> status_start r = 7 + length maj + length mino
    \<and> status_end r = Some (length line - length e)
    \<and> sl_pos r = length line"
proof -
  obtain m ms where maj: "maj = m # ms" using assms(1) by (cases maj) auto
  obtain n ns where mino: "mino = n # ns" using assms(5) by (cases mino) auto
  let ?s = "\<lambda>st p a b. (status_init 0)\<lparr>sl_state := st, sl_pos := p, sl_major := a, sl_minor := b\<rparr>"
  let ?a = "nat (dec_val maj)" and ?b = "nat (dec_val mino)"
  let ?p = "6 + length maj + length mino"
  have m: "is_digit m" "\<not> (m < ch CHR ''1'' \<or> m > ch CHR ''9'')"
  proof -
    show "is_digit m" using assms(2) by (simp add: maj)
    then have "48 \<le> uint m" "uint m \<le> 57" by (simp_all add: is_digit_iff_uint)
    moreover have "uint m \<noteq> 48" using assms(3) by (auto simp: maj simp flip: word_uint_eq_iff [of m 48, simplified])
    ultimately show "\<not> (m < ch CHR ''1'' \<or> m > ch CHR ''9'')" by (simp add: word_less_def)
  qed
  have 1: "feed sl_step (status_init 0) (bytes_of ''HTTP/'' @ [m]) = Go (?s ssw_major_digit 6 (digit_val m) 0)"
    using m by (simp add: status_init_def sl_step_def sl_leaf_defs)
  have 2: "feed sl_step (?s ssw_major_digit 6 (digit_val m) 0) ms = Go (?s ssw_major_digit (5 + length maj) ?a 0)"
    using sl_feed_major [of "?s ssw_major_digit 6 (digit_val m) 0" ms] assms(2,4) digit_val_dval [OF m(1)]
    by (simp add: maj num_val_Cons)
  have 3: "feed sl_step (?s ssw_major_digit (5 + length maj) ?a 0) [ch CHR ''.'', n]
      = Go (?s ssw_minor_digit (7 + length maj) ?a (digit_val n))"
    using assms(6) by (simp add: mino status_init_def sl_step_def sl_leaf_defs)
  have 4: "feed sl_step (?s ssw_minor_digit (7 + length maj) ?a (digit_val n)) ns
      = Go (?s ssw_minor_digit ?p ?a ?b)"
    using sl_feed_minor [of "?s ssw_minor_digit (7 + length maj) ?a (digit_val n)" ns] assms(6,7)
      digit_val_dval [of n]
    by (simp add: mino num_val_Cons)
  let ?r = "(?s ssw_space_after_status (?p + 4) ?a ?b)\<lparr>status_code := nat (dec_val [d1, d2, d3]),
      status_count := 3, status_start := ?p + 1\<rparr>"
  have 5: "feed sl_step (?s ssw_minor_digit ?p ?a ?b) [SP, d1, d2, d3] = Go ?r"
  proof -
    have d: "is_digit d1" "is_digit d2" "is_digit d3" using assms(8) by simp_all
    have not_SP: "\<not> is_digit SP" by (simp add: byte_class)
    have val: "nat (dec_val [d1, d2, d3]) = (digit_val d1 * 10 + digit_val d2) * 10 + digit_val d3"
      using d [THEN digit_val_dval] by (simp add: num_val_Cons flip: of_nat_eq_iff [where 'a = int])
    show ?thesis
      using d not_SP val
      by (auto simp: status_init_def sl_step_def sl_leaf_defs)
  qed
  have 6: "\<exists>r. feed sl_step ?r (t @ e @ rest) = Halt ((SL_OK, r), rest)
      \<and> r = ?r\<lparr>sl_state := ssw_start, sl_pos := ?p + 4 + length t + length e,
          status_end := Some (?p + 4 + length t), status_version := ?a * 1000 + ?b\<rparr>"
  proof (cases t)
    case Nil
    with assms(10) show ?thesis
      by (auto simp: line_end_def status_init_def sl_step_def sl_leaf_defs)
  next
    case (Cons c t')
    with assms(9) have c: "c = SP \<or> c = ch CHR ''.''" "CR \<notin> set t'" "LF \<notin> set t'"
      by (auto simp: status_tail_def)
    let ?r1 = "?r\<lparr>sl_state := ssw_status_text, sl_pos := ?p + 5\<rparr>"
    have "sl_step ?r c = Go ?r1"
      using c by (auto simp: status_init_def sl_step_def sl_leaf_defs)
    then have "feed sl_step ?r (t @ e @ rest) = feed sl_step ?r1 (t' @ e @ rest)"
      by (simp add: Cons)
    also have "\<dots> = feed sl_step (?r1\<lparr>sl_pos := ?p + 5 + length t'\<rparr>) (e @ rest)"
      using sl_feed_text [of ?r1 t'] c by (intro feed_Go_append) simp
    finally show ?thesis
      using assms(10) Cons by (auto simp: line_end_def status_init_def sl_step_def sl_leaf_defs)
  qed
  have "feed sl_step (status_init 0) ((bytes_of ''HTTP/'' @ [m]) @ ms @ [ch CHR ''.'', n] @ ns
      @ [SP, d1, d2, d3] @ t @ e @ rest) = feed sl_step ?r (t @ e @ rest)"
    by (simp only: feed_Go_append [OF 1] feed_Go_append [OF 2] feed_Go_append [OF 3]
        feed_Go_append [OF 4] feed_Go_append [OF 5])
  moreover have "(bytes_of ''HTTP/'' @ [m]) @ ms @ [ch CHR ''.'', n] @ ns @ [SP, d1, d2, d3] @ t @ e @ rest
      = line @ rest"
    by (simp add: line maj mino)
  ultimately have "feed sl_step (status_init 0) (line @ rest) = feed sl_step ?r (t @ e @ rest)" by (simp only:)
  with 6 obtain r where run: "ngx_http_parse_status_line (status_init 0) (line @ rest) = Halt ((SL_OK, r), rest)"
    and r: "r = ?r\<lparr>sl_state := ssw_start, sl_pos := ?p + 4 + length t + length e,
          status_end := Some (?p + 4 + length t), status_version := ?a * 1000 + ?b\<rparr>"
    by (auto simp: ngx_http_parse_status_line_def status_init_def)
  have "0 \<le> dec_val maj" "0 \<le> dec_val mino" "0 \<le> dec_val [d1, d2, d3]"
    using assms(2,6,8) by (intro dec_val_nonneg, simp)+
  with run r show ?thesis by (intro exI [of _ r]) (simp add: line)
qed

theorem ngx_http_parse_status_line_accepts_witness:
  "\<exists>r. ngx_http_parse_status_line (status_init 0) ((bytes_of ''HTTP/1.1 404 Not Found'' @ [CR, LF]) @ [65])
      = Halt ((SL_OK, r), [65]) \<and> status_version r = 1001 \<and> status_code r = 404
      \<and> status_start r = 9 \<and> status_end r = Some 22"
  using ngx_http_parse_status_line_accepts [of "bytes_of ''1''" "bytes_of ''1''" "ch CHR ''4''" "ch CHR ''0''"
      "ch CHR ''4''" "bytes_of '' Not Found''" "[CR, LF]" "bytes_of ''HTTP/1.1 404 Not Found'' @ [CR, LF]" "[65]"]
  by (auto simp: status_tail_def line_end_def byte_class num_val_Cons)

end
