(* ===== verification/Ngx_Base64.thy ===== *)
theory Ngx_Base64
  imports Prelude
begin

text \<open>
  Base64 and base64url of src/core/ngx_string.c: the encoders with their basis strings and
  padding flag, the decoders with their 256-entry tables (77 marks a byte outside the
  alphabet). The destination is the list of bytes written, whose length is \<open>dst->len\<close>.
\<close>

section \<open>Definitions\<close>

definition base64_basis :: bytes where
  "base64_basis = bytes_of ''ABCDEFGHIJKLMNOPQRSTUVWXYZabcdefghijklmnopqrstuvwxyz0123456789+/''"

definition base64url_basis :: bytes where
  "base64url_basis = bytes_of ''ABCDEFGHIJKLMNOPQRSTUVWXYZabcdefghijklmnopqrstuvwxyz0123456789-_''"

fun ngx_encode_base64_internal :: "bytes \<Rightarrow> bool \<Rightarrow> bytes \<Rightarrow> bytes" where
  "ngx_encode_base64_internal basis padding (s0 # s1 # s2 # s) =
     basis ! unat (drop_bit 2 s0 AND 0x3f) #
     basis ! unat (push_bit 4 (s0 AND 3) OR drop_bit 4 s1) #
     basis ! unat (push_bit 2 (s1 AND 0x0f) OR drop_bit 6 s2) #
     basis ! unat (s2 AND 0x3f) # ngx_encode_base64_internal basis padding s"
| "ngx_encode_base64_internal basis padding [s0, s1] =
     [basis ! unat (drop_bit 2 s0 AND 0x3f),
      basis ! unat (push_bit 4 (s0 AND 3) OR drop_bit 4 s1),
      basis ! unat (push_bit 2 (s1 AND 0x0f))]
     @ (if padding then [ch CHR ''='' ] else [])"
| "ngx_encode_base64_internal basis padding [s0] =
     [basis ! unat (drop_bit 2 s0 AND 0x3f), basis ! unat (push_bit 4 (s0 AND 3))]
     @ (if padding then [ch CHR ''='' ] else []) @ (if padding then [ch CHR ''='' ] else [])"
| "ngx_encode_base64_internal basis padding [] = []"

definition ngx_encode_base64 :: "bytes \<Rightarrow> bytes" where
  "ngx_encode_base64 src = ngx_encode_base64_internal base64_basis True src"

definition ngx_encode_base64url :: "bytes \<Rightarrow> bytes" where
  "ngx_encode_base64url src = ngx_encode_base64_internal base64url_basis False src"

definition base64_table :: bytes where
  "base64_table =
    [77, 77, 77, 77, 77, 77, 77, 77, 77, 77, 77, 77, 77, 77, 77, 77,
     77, 77, 77, 77, 77, 77, 77, 77, 77, 77, 77, 77, 77, 77, 77, 77,
     77, 77, 77, 77, 77, 77, 77, 77, 77, 77, 77, 62, 77, 77, 77, 63,
     52, 53, 54, 55, 56, 57, 58, 59, 60, 61, 77, 77, 77, 77, 77, 77,
     77, 0, 1, 2, 3, 4, 5, 6, 7, 8, 9, 10, 11, 12, 13, 14,
     15, 16, 17, 18, 19, 20, 21, 22, 23, 24, 25, 77, 77, 77, 77, 77,
     77, 26, 27, 28, 29, 30, 31, 32, 33, 34, 35, 36, 37, 38, 39, 40,
     41, 42, 43, 44, 45, 46, 47, 48, 49, 50, 51, 77, 77, 77, 77, 77,
     77, 77, 77, 77, 77, 77, 77, 77, 77, 77, 77, 77, 77, 77, 77, 77,
     77, 77, 77, 77, 77, 77, 77, 77, 77, 77, 77, 77, 77, 77, 77, 77,
     77, 77, 77, 77, 77, 77, 77, 77, 77, 77, 77, 77, 77, 77, 77, 77,
     77, 77, 77, 77, 77, 77, 77, 77, 77, 77, 77, 77, 77, 77, 77, 77,
     77, 77, 77, 77, 77, 77, 77, 77, 77, 77, 77, 77, 77, 77, 77, 77,
     77, 77, 77, 77, 77, 77, 77, 77, 77, 77, 77, 77, 77, 77, 77, 77,
     77, 77, 77, 77, 77, 77, 77, 77, 77, 77, 77, 77, 77, 77, 77, 77,
     77, 77, 77, 77, 77, 77, 77, 77, 77, 77, 77, 77, 77, 77, 77, 77]"

definition base64url_table :: bytes where
  "base64url_table =
    [77, 77, 77, 77, 77, 77, 77, 77, 77, 77, 77, 77, 77, 77, 77, 77,
     77, 77, 77, 77, 77, 77, 77, 77, 77, 77, 77, 77, 77, 77, 77, 77,
     77, 77, 77, 77, 77, 77, 77, 77, 77, 77, 77, 77, 77, 62, 77, 77,
     52, 53, 54, 55, 56, 57, 58, 59, 60, 61, 77, 77, 77, 77, 77, 77,
     77, 0, 1, 2, 3, 4, 5, 6, 7, 8, 9, 10, 11, 12, 13, 14,
     15, 16, 17, 18, 19, 20, 21, 22, 23, 24, 25, 77, 77, 77, 77, 63,
     77, 26, 27, 28, 29, 30, 31, 32, 33, 34, 35, 36, 37, 38, 39, 40,
     41, 42, 43, 44, 45, 46, 47, 48, 49, 50, 51, 77, 77, 77, 77, 77,
     77, 77, 77, 77, 77, 77, 77, 77, 77, 77, 77, 77, 77, 77, 77, 77,
     77, 77, 77, 77, 77, 77, 77, 77, 77, 77, 77, 77, 77, 77, 77, 77,
     77, 77, 77, 77, 77, 77, 77, 77, 77, 77, 77, 77, 77, 77, 77, 77,
     77, 77, 77, 77, 77, 77, 77, 77, 77, 77, 77, 77, 77, 77, 77, 77,
     77, 77, 77, 77, 77, 77, 77, 77, 77, 77, 77, 77, 77, 77, 77, 77,
     77, 77, 77, 77, 77, 77, 77, 77, 77, 77, 77, 77, 77, 77, 77, 77,
     77, 77, 77, 77, 77, 77, 77, 77, 77, 77, 77, 77, 77, 77, 77, 77,
     77, 77, 77, 77, 77, 77, 77, 77, 77, 77, 77, 77, 77, 77, 77, 77]"

text \<open>The first loop: the bytes before an equals sign, all of which must be in the alphabet.\<close>

fun base64_scan :: "bytes \<Rightarrow> bytes \<Rightarrow> bytes option" where
  "base64_scan basis [] = Some []"
| "base64_scan basis (c # s) =
     (if c = ch CHR ''='' then Some []
      else if basis ! unat c = 77 then None
      else map_option ((#) c) (base64_scan basis s))"

text \<open>The second loop and its tail; the shifts are truncated to u_char.\<close>

fun base64_join :: "bytes \<Rightarrow> bytes \<Rightarrow> bytes" where
  "base64_join basis (s0 # s1 # s2 # s3 # s) =
     (push_bit 2 (basis ! unat s0) OR drop_bit 4 (basis ! unat s1)) #
     (push_bit 4 (basis ! unat s1) OR drop_bit 2 (basis ! unat s2)) #
     (push_bit 6 (basis ! unat s2) OR basis ! unat s3) # base64_join basis s"
| "base64_join basis [s0, s1, s2] =
     [push_bit 2 (basis ! unat s0) OR drop_bit 4 (basis ! unat s1),
      push_bit 4 (basis ! unat s1) OR drop_bit 2 (basis ! unat s2)]"
| "base64_join basis [s0, s1] =
     [push_bit 2 (basis ! unat s0) OR drop_bit 4 (basis ! unat s1)]"
| "base64_join basis _ = []"

definition ngx_decode_base64_internal :: "bytes \<Rightarrow> bytes \<Rightarrow> bytes option" where
  "ngx_decode_base64_internal basis src =
     (case base64_scan basis src of
        None \<Rightarrow> None
      | Some s \<Rightarrow> if length s mod 4 = 1 then None else Some (base64_join basis s))"

definition ngx_decode_base64 :: "bytes \<Rightarrow> bytes option" where
  "ngx_decode_base64 src = ngx_decode_base64_internal base64_table src"

definition ngx_decode_base64url :: "bytes \<Rightarrow> bytes option" where
  "ngx_decode_base64url src = ngx_decode_base64_internal base64url_table src"

section \<open>Six-bit groups\<close>

lemma sextets:
  fixes a b c :: u_char
  shows sextet0: "unat (drop_bit 2 a AND 63) < 64"
    and sextet1: "unat (push_bit 4 (a AND 3) OR drop_bit 4 b) < 64"
    and sextet2: "unat (push_bit 2 (b AND 15) OR drop_bit 6 c) < 64"
    and sextet3: "unat (c AND 63) < 64"
proof -
  have small: "unat w < 64" if "w = w AND 63" for w :: u_char
    using that by (metis unat_and_numeral(4) mod_less_divisor zero_less_numeral)
  have "push_bit 4 (a AND 3) OR drop_bit 4 b = (push_bit 4 (a AND 3) OR drop_bit 4 b) AND 63"
    "push_bit 2 (b AND 15) OR drop_bit 6 c = (push_bit 2 (b AND 15) OR drop_bit 6 c) AND 63"
    by (rule byte_eqI; simp add: bit_simps)+
  then show "unat (push_bit 4 (a AND 3) OR drop_bit 4 b) < 64"
    "unat (push_bit 2 (b AND 15) OR drop_bit 6 c) < 64"
    by (blast intro: small)+
qed (simp_all add: word_arith)

lemma sextet_join:
  fixes a b c :: u_char
  shows "push_bit 2 (drop_bit 2 a AND 63) OR drop_bit 4 (push_bit 4 (a AND 3) OR drop_bit 4 b) = a"
    and "push_bit 4 (push_bit 4 (a AND 3) OR drop_bit 4 b) OR drop_bit 2 (push_bit 2 (b AND 15) OR drop_bit 6 c) = b"
    and "push_bit 6 (push_bit 2 (b AND 15) OR drop_bit 6 c) OR (c AND 63) = c"
  by (rule byte_eqI; simp add: bit_simps)+

text \<open>The last group of a two-byte or one-byte tail is padded with zero bits.\<close>

lemma sextet_tail:
  fixes a b :: u_char
  shows "unat (push_bit 4 (a AND 3)) < 64" "unat (push_bit 2 (b AND 15)) < 64"
    "push_bit 2 (drop_bit 2 a AND 63) OR drop_bit 4 (push_bit 4 (a AND 3)) = a"
    "push_bit 4 (push_bit 4 (a AND 3) OR drop_bit 4 b) OR drop_bit 2 (push_bit 2 (b AND 15)) = b"
  using sextet1 [of a 0] sextet2 [of b 0] sextet_join(1) [of a 0] sextet_join(2) [of a b 0] by simp_all

section \<open>The alphabet\<close>

text \<open>
  What the encoder's basis and the decoder's table owe each other: the table inverts the
  basis, and the padding character is not in it.
\<close>

locale base64_alphabet =
  fixes basis :: bytes and table :: bytes
  assumes table_basis: "k < 64 \<Longrightarrow> table ! unat (basis ! k) = word_of_nat k"
    and basis_no_pad: "k < 64 \<Longrightarrow> basis ! k \<noteq> ch CHR ''=''"
begin

lemma nat_word64: "unat (w :: u_char) < 64 \<Longrightarrow> table ! unat (basis ! unat w) = w"
  using table_basis [of "unat w"] by simp

lemma scan_basis:
  assumes "unat (w :: u_char) < 64"
  shows "base64_scan table (basis ! unat w # s) = map_option ((#) (basis ! unat w)) (base64_scan table s)"
proof -
  have "w \<noteq> 77" using assms by auto
  with nat_word64 [OF assms] basis_no_pad [OF assms] show ?thesis by simp
qed

end

lemma alphabet_list: "k < 64 \<Longrightarrow> k \<in> set
  [0, 1, 2, 3, 4, 5, 6, 7, 8, 9, 10, 11, 12, 13, 14, 15, 16, 17, 18, 19, 20, 21, 22, 23, 24, 25,
   26, 27, 28, 29, 30, 31, 32, 33, 34, 35, 36, 37, 38, 39, 40, 41, 42, 43, 44,
   45, 46, 47, 48, 49, 50, 51, 52, 53, 54, 55, 56, 57, 58, 59, 60, 61, 62, 63] " for k :: nat
  by (simp, arith)

interpretation b64: base64_alphabet base64_basis base64_table
proof -
  have "k < 64 \<Longrightarrow> base64_table ! unat (base64_basis ! k) = word_of_nat k \<and> base64_basis ! k \<noteq> ch CHR ''=''" for k
    by (drule alphabet_list) (auto simp: base64_table_def base64_basis_def)
  then show "base64_alphabet base64_basis base64_table" by unfold_locales simp_all
qed

interpretation b64url: base64_alphabet base64url_basis base64url_table
proof -
  have "k < 64 \<Longrightarrow> base64url_table ! unat (base64url_basis ! k) = word_of_nat k \<and> base64url_basis ! k \<noteq> ch CHR ''=''" for k
    by (drule alphabet_list) (auto simp: base64url_table_def base64url_basis_def)
  then show "base64_alphabet base64url_basis base64url_table" by unfold_locales simp_all
qed

section \<open>Decoding what was encoded\<close>

context base64_alphabet
begin

lemma scan_encode_aux:
  "b = basis \<Longrightarrow> base64_scan table (ngx_encode_base64_internal b p src)
     = Some (ngx_encode_base64_internal basis False src)"
  by (induction b p src rule: ngx_encode_base64_internal.induct)
     (simp_all add: scan_basis sextet0 sextet1 sextet2 sextet3 sextet_tail
        del: base64_scan.simps(2) push_bit_and, simp_all)

lemmas scan_encode = scan_encode_aux [OF refl]

lemma join_encode_aux:
  "b = basis \<Longrightarrow> p = False \<Longrightarrow> base64_join table (ngx_encode_base64_internal b p src) = src"
  by (induction b p src rule: ngx_encode_base64_internal.induct)
     (simp_all add: nat_word64 sextet0 sextet1 sextet2 sextet3 sextet_tail sextet_join
        del: push_bit_and push_bit_or drop_bit_or drop_bit_and)

lemmas join_encode = join_encode_aux [OF refl refl]

lemma encode_length_mod: "length (ngx_encode_base64_internal b False src) mod 4 \<noteq> 1"
  by (induction b False src rule: ngx_encode_base64_internal.induct) simp_all

lemma decode_encode: "ngx_decode_base64_internal table (ngx_encode_base64_internal basis p src) = Some src"
  using encode_length_mod [of basis src]
  by (simp add: ngx_decode_base64_internal_def scan_encode join_encode)

end

text \<open>Both pairs of operations are codecs on every byte string, hence encode injectively.\<close>

interpretation b64c: codec ngx_encode_base64 ngx_decode_base64 "\<lambda>_. True"
  by unfold_locales (simp add: ngx_encode_base64_def ngx_decode_base64_def b64.decode_encode)

interpretation b64urlc: codec ngx_encode_base64url ngx_decode_base64url "\<lambda>_. True"
  by unfold_locales (simp add: ngx_encode_base64url_def ngx_decode_base64url_def b64url.decode_encode)

text \<open>
  C40. base64 and base64url round trip: the decoder of each alphabet recovers every byte
  string from what the matching encoder wrote, with padding (base64) or without
  (base64url); in particular no two strings share an encoding.
\<close>

theorem ngx_base64_roundtrip:
  "ngx_decode_base64 (ngx_encode_base64 src) = Some src \<and>
   ngx_decode_base64url (ngx_encode_base64url src) = Some src"
  by (simp add: b64c.dec_enc b64urlc.dec_enc)

section \<open>Destination sizes\<close>

text \<open>The macros callers size the destination with.\<close>

definition ngx_base64_encoded_length :: "nat \<Rightarrow> nat" where
  "ngx_base64_encoded_length len = ((len + 2) div 3) * 4"

definition ngx_base64_decoded_length :: "nat \<Rightarrow> nat" where
  "ngx_base64_decoded_length len = ((len + 3) div 4) * 3"

lemma div_step: "0 < k \<Longrightarrow> (k + n) div k = Suc (n div k)" for k n :: nat
  by (simp add: div_add_self1)

lemma encoded_length_step:
  "ngx_base64_encoded_length (Suc (Suc (Suc n))) = ngx_base64_encoded_length n + 4"
  "ngx_base64_encoded_length (Suc (Suc 0)) = 4" "ngx_base64_encoded_length (Suc 0) = 4"
  "ngx_base64_encoded_length 0 = 0"
  using div_step [of 3 "n + 2"] by (simp_all add: ngx_base64_encoded_length_def)

lemma decoded_length_step:
  "ngx_base64_decoded_length (Suc (Suc (Suc (Suc n)))) = ngx_base64_decoded_length n + 3"
  "ngx_base64_decoded_length (Suc (Suc (Suc 0))) = 3" "ngx_base64_decoded_length (Suc (Suc 0)) = 3"
  using div_step [of 4 "n + 3"] by (simp_all add: ngx_base64_decoded_length_def)

lemma encode_length:
  "length (ngx_encode_base64_internal b p src) \<le> ngx_base64_encoded_length (length src) \<and>
   (p \<longrightarrow> length (ngx_encode_base64_internal b p src) = ngx_base64_encoded_length (length src))"
  by (induction b p src rule: ngx_encode_base64_internal.induct)
     (auto simp: encoded_length_step)

lemma scan_length: "base64_scan b src = Some s \<Longrightarrow> length s \<le> length src"
  by (induction b src arbitrary: s rule: base64_scan.induct) (auto split: if_splits)

lemma join_length: "length (base64_join b s) \<le> ngx_base64_decoded_length (length s)"
  by (induction b s rule: base64_join.induct) (auto simp: decoded_length_step)

text \<open>
  The size macros are upper bounds: encoding writes at most
  ngx_base64_encoded_length bytes (exactly that many with padding), and decoding any
  input, valid or hostile, at most ngx_base64_decoded_length bytes.
\<close>

theorem ngx_base64_lengths:
  "length (ngx_encode_base64 src) = ngx_base64_encoded_length (length src) \<and>
   length (ngx_encode_base64url src) \<le> ngx_base64_encoded_length (length src) \<and>
   (case ngx_decode_base64_internal basis src of
      None \<Rightarrow> True | Some d \<Rightarrow> length d \<le> ngx_base64_decoded_length (length src))"
proof -
  have "length (base64_join basis s) \<le> ngx_base64_decoded_length (length src)"
    if "base64_scan basis src = Some s" for s
  proof -
    have "length (base64_join basis s) \<le> ngx_base64_decoded_length (length s)" by (rule join_length)
    also have "\<dots> \<le> ngx_base64_decoded_length (length src)"
      using scan_length [OF that] by (simp add: ngx_base64_decoded_length_def div_le_mono)
    finally show ?thesis .
  qed
  then show ?thesis
    using encode_length
    by (simp add: ngx_encode_base64_def ngx_encode_base64url_def ngx_decode_base64_internal_def
        split: option.split)
qed

end
