(* ===== verification/Ngx_Crc32.thy ===== *)
theory Ngx_Crc32
  imports Prelude
begin

text \<open>
  CRC-32, src/core/ngx_crc32.c and src/core/ngx_crc32.h: the tables of 16 and of 256 elements and
  the three loops over them. The reference is the division of a message, bit by bit, by the
  reversed polynomial 0xEDB88320.
\<close>

section \<open>The tables and the loops\<close>

definition ngx_crc32_table16 :: "u32 list" where
  "ngx_crc32_table16 = [
    0x00000000, 0x1db71064, 0x3b6e20c8, 0x26d930ac, 0x76dc4190, 0x6b6b51f4,
    0x4db26158, 0x5005713c, 0xedb88320, 0xf00f9344, 0xd6d6a3e8, 0xcb61b38c,
    0x9b64c2b0, 0x86d3d2d4, 0xa00ae278, 0xbdbdf21c]"

definition ngx_crc32_table256 :: "u32 list" where
  "ngx_crc32_table256 = [
    0x00000000, 0x77073096, 0xee0e612c, 0x990951ba, 0x076dc419, 0x706af48f,
    0xe963a535, 0x9e6495a3, 0x0edb8832, 0x79dcb8a4, 0xe0d5e91e, 0x97d2d988,
    0x09b64c2b, 0x7eb17cbd, 0xe7b82d07, 0x90bf1d91, 0x1db71064, 0x6ab020f2,
    0xf3b97148, 0x84be41de, 0x1adad47d, 0x6ddde4eb, 0xf4d4b551, 0x83d385c7,
    0x136c9856, 0x646ba8c0, 0xfd62f97a, 0x8a65c9ec, 0x14015c4f, 0x63066cd9,
    0xfa0f3d63, 0x8d080df5, 0x3b6e20c8, 0x4c69105e, 0xd56041e4, 0xa2677172,
    0x3c03e4d1, 0x4b04d447, 0xd20d85fd, 0xa50ab56b, 0x35b5a8fa, 0x42b2986c,
    0xdbbbc9d6, 0xacbcf940, 0x32d86ce3, 0x45df5c75, 0xdcd60dcf, 0xabd13d59,
    0x26d930ac, 0x51de003a, 0xc8d75180, 0xbfd06116, 0x21b4f4b5, 0x56b3c423,
    0xcfba9599, 0xb8bda50f, 0x2802b89e, 0x5f058808, 0xc60cd9b2, 0xb10be924,
    0x2f6f7c87, 0x58684c11, 0xc1611dab, 0xb6662d3d, 0x76dc4190, 0x01db7106,
    0x98d220bc, 0xefd5102a, 0x71b18589, 0x06b6b51f, 0x9fbfe4a5, 0xe8b8d433,
    0x7807c9a2, 0x0f00f934, 0x9609a88e, 0xe10e9818, 0x7f6a0dbb, 0x086d3d2d,
    0x91646c97, 0xe6635c01, 0x6b6b51f4, 0x1c6c6162, 0x856530d8, 0xf262004e,
    0x6c0695ed, 0x1b01a57b, 0x8208f4c1, 0xf50fc457, 0x65b0d9c6, 0x12b7e950,
    0x8bbeb8ea, 0xfcb9887c, 0x62dd1ddf, 0x15da2d49, 0x8cd37cf3, 0xfbd44c65,
    0x4db26158, 0x3ab551ce, 0xa3bc0074, 0xd4bb30e2, 0x4adfa541, 0x3dd895d7,
    0xa4d1c46d, 0xd3d6f4fb, 0x4369e96a, 0x346ed9fc, 0xad678846, 0xda60b8d0,
    0x44042d73, 0x33031de5, 0xaa0a4c5f, 0xdd0d7cc9, 0x5005713c, 0x270241aa,
    0xbe0b1010, 0xc90c2086, 0x5768b525, 0x206f85b3, 0xb966d409, 0xce61e49f,
    0x5edef90e, 0x29d9c998, 0xb0d09822, 0xc7d7a8b4, 0x59b33d17, 0x2eb40d81,
    0xb7bd5c3b, 0xc0ba6cad, 0xedb88320, 0x9abfb3b6, 0x03b6e20c, 0x74b1d29a,
    0xead54739, 0x9dd277af, 0x04db2615, 0x73dc1683, 0xe3630b12, 0x94643b84,
    0x0d6d6a3e, 0x7a6a5aa8, 0xe40ecf0b, 0x9309ff9d, 0x0a00ae27, 0x7d079eb1,
    0xf00f9344, 0x8708a3d2, 0x1e01f268, 0x6906c2fe, 0xf762575d, 0x806567cb,
    0x196c3671, 0x6e6b06e7, 0xfed41b76, 0x89d32be0, 0x10da7a5a, 0x67dd4acc,
    0xf9b9df6f, 0x8ebeeff9, 0x17b7be43, 0x60b08ed5, 0xd6d6a3e8, 0xa1d1937e,
    0x38d8c2c4, 0x4fdff252, 0xd1bb67f1, 0xa6bc5767, 0x3fb506dd, 0x48b2364b,
    0xd80d2bda, 0xaf0a1b4c, 0x36034af6, 0x41047a60, 0xdf60efc3, 0xa867df55,
    0x316e8eef, 0x4669be79, 0xcb61b38c, 0xbc66831a, 0x256fd2a0, 0x5268e236,
    0xcc0c7795, 0xbb0b4703, 0x220216b9, 0x5505262f, 0xc5ba3bbe, 0xb2bd0b28,
    0x2bb45a92, 0x5cb36a04, 0xc2d7ffa7, 0xb5d0cf31, 0x2cd99e8b, 0x5bdeae1d,
    0x9b64c2b0, 0xec63f226, 0x756aa39c, 0x026d930a, 0x9c0906a9, 0xeb0e363f,
    0x72076785, 0x05005713, 0x95bf4a82, 0xe2b87a14, 0x7bb12bae, 0x0cb61b38,
    0x92d28e9b, 0xe5d5be0d, 0x7cdcefb7, 0x0bdbdf21, 0x86d3d2d4, 0xf1d4e242,
    0x68ddb3f8, 0x1fda836e, 0x81be16cd, 0xf6b9265b, 0x6fb077e1, 0x18b74777,
    0x88085ae6, 0xff0f6a70, 0x66063bca, 0x11010b5c, 0x8f659eff, 0xf862ae69,
    0x616bffd3, 0x166ccf45, 0xa00ae278, 0xd70dd2ee, 0x4e048354, 0x3903b3c2,
    0xa7672661, 0xd06016f7, 0x4969474d, 0x3e6e77db, 0xaed16a4a, 0xd9d65adc,
    0x40df0b66, 0x37d83bf0, 0xa9bcae53, 0xdebb9ec5, 0x47b2cf7f, 0x30b5ffe9,
    0xbdbdf21c, 0xcabac28a, 0x53b39330, 0x24b4a3a6, 0xbad03605, 0xcdd70693,
    0x54de5729, 0x23d967bf, 0xb3667a2e, 0xc4614ab8, 0x5d681b02, 0x2a6f2b94,
    0xb40bbe37, 0xc30c8ea1, 0x5a05df1b, 0x2d02ef8d]"

text \<open>
  The bodies of the loops. \<open>c >> 4\<close> and \<open>c & 0xf\<close> are computed on the promoted byte.
\<close>

definition crc_short_step :: "u32 \<Rightarrow> u_char \<Rightarrow> u32" where
  "crc_short_step crc c =
     (let crc = ngx_crc32_table16 ! unat ((crc XOR (ucast c AND 0xf)) AND 0xf) XOR drop_bit 4 crc
      in ngx_crc32_table16 ! unat ((crc XOR drop_bit 4 (ucast c)) AND 0xf) XOR drop_bit 4 crc)"

definition crc_long_step :: "u32 \<Rightarrow> u_char \<Rightarrow> u32" where
  "crc_long_step crc c = ngx_crc32_table256 ! unat ((crc XOR ucast c) AND 0xff) XOR drop_bit 8 crc"

definition ngx_crc32_short :: "bytes \<Rightarrow> u32" where
  "ngx_crc32_short p = foldl crc_short_step 0xffffffff p XOR 0xffffffff"

definition ngx_crc32_long :: "bytes \<Rightarrow> u32" where
  "ngx_crc32_long p = foldl crc_long_step 0xffffffff p XOR 0xffffffff"

definition ngx_crc32_init :: u32 where
  "ngx_crc32_init = 0xffffffff"

definition ngx_crc32_update :: "u32 \<Rightarrow> bytes \<Rightarrow> u32" where
  "ngx_crc32_update crc p = foldl crc_long_step crc p"

definition ngx_crc32_final :: "u32 \<Rightarrow> u32" where
  "ngx_crc32_final crc = crc XOR 0xffffffff"

section \<open>Division bit by bit\<close>

definition crc_bit :: "u32 \<Rightarrow> u32" where
  "crc_bit crc = (if bit crc 0 then drop_bit 1 crc XOR 0xedb88320 else drop_bit 1 crc)"

definition crc_byte :: "u32 \<Rightarrow> u_char \<Rightarrow> u32" where
  "crc_byte crc c = (crc_bit ^^ 8) (crc XOR ucast c)"

definition crc32_spec :: "bytes \<Rightarrow> u32" where
  "crc32_spec p = foldl crc_byte 0xffffffff p XOR 0xffffffff"

lemma xor_cancel: "a XOR c = b XOR c \<longleftrightarrow> a = (b :: u32)"
  by (auto simp: bit_eq_iff bit_simps)

lemma crc_bit_xor: "crc_bit (a XOR b) = crc_bit a XOR crc_bit b"
  by (cases "bit a 0"; cases "bit b 0")
     (simp_all add: crc_bit_def bit_xor_iff drop_bit_xor xor.assoc xor.left_commute [of _ "0xedb88320"] xor.commute [of _ "0xedb88320"])

lemma crc_bits_xor: "(crc_bit ^^ n) (a XOR b) = (crc_bit ^^ n) a XOR (crc_bit ^^ n) b"
  by (induction n arbitrary: a b) (simp_all add: crc_bit_xor)

lemma crc_bits_high: "take_bit n a = 0 \<Longrightarrow> (crc_bit ^^ n) a = drop_bit n a"
proof (induction n arbitrary: a)
  case (Suc n)
  then have low: "\<not> bit a k" if "k < Suc n" for k
    using that by (metis bit_0_eq bit_take_bit_iff bot_apply bot_bool_def)
  then have "take_bit n (drop_bit 1 a) = 0"
    by (intro bit_eqI) (simp add: bit_simps)
  with Suc.IH [of "drop_bit 1 a"] low [of 0] show ?case
    by (simp add: funpow_Suc_right crc_bit_def del: funpow.simps)
qed simp

text \<open>A table of the remainders of all \<open>n\<close>-bit numbers does \<open>n\<close> steps at once.\<close>

lemma crc_bits_table: "(crc_bit ^^ n) a = (crc_bit ^^ n) (take_bit n a) XOR drop_bit n a"
proof -
  have "a = take_bit n a XOR (a AND NOT (mask n))"
    by (auto simp: bit_eq_iff bit_simps)
  then have "(crc_bit ^^ n) a = (crc_bit ^^ n) (take_bit n a) XOR (crc_bit ^^ n) (a AND NOT (mask n))"
    by (metis crc_bits_xor)
  moreover have "(crc_bit ^^ n) (a AND NOT (mask n)) = drop_bit n (a AND NOT (mask n))"
    by (rule crc_bits_high) (auto simp: bit_eq_iff bit_simps)
  moreover have "drop_bit n (a AND NOT (mask n)) = drop_bit n a"
    by (intro bit_eqI) (auto simp: bit_simps dest: bit_imp_le_length)
  ultimately show ?thesis by simp
qed


lemma crc_bits_4: "(crc_bit ^^ 4) a = crc_bit (crc_bit (crc_bit (crc_bit a)))"
  by (simp add: eval_nat_numeral)

lemma crc_bits_8: "(crc_bit ^^ 8) a = (crc_bit ^^ 4) ((crc_bit ^^ 4) a)"
  by (simp add: eval_nat_numeral)

lemma table16: "ngx_crc32_table16 = map (\<lambda>i. (crc_bit ^^ 4) i) [0, 1, 2, 3, 4, 5, 6, 7, 8, 9, 10, 11, 12, 13, 14, 15]"
  by (simp add: ngx_crc32_table16_def crc_bits_4 crc_bit_def)

text \<open>The table of 256 elements from its first row and its first column.\<close>

lemma table256_row: "map (crc_bit ^^ 8) [0, 1, 2, 3, 4, 5, 6, 7, 8, 9, 10, 11, 12, 13, 14, 15]
    = [0x00000000, 0x77073096, 0xee0e612c, 0x990951ba, 0x076dc419, 0x706af48f,
      0xe963a535, 0x9e6495a3, 0x0edb8832, 0x79dcb8a4, 0xe0d5e91e, 0x97d2d988,
      0x09b64c2b, 0x7eb17cbd, 0xe7b82d07, 0x90bf1d91]"
  by (simp add: crc_bits_8 crc_bits_4 crc_bit_def)

lemma table256_column: "map (\<lambda>h. (crc_bit ^^ 8) (push_bit 4 h)) [0, 1, 2, 3, 4, 5, 6, 7, 8, 9, 10, 11, 12, 13, 14, 15]
    = [0x00000000, 0x1db71064, 0x3b6e20c8, 0x26d930ac, 0x76dc4190, 0x6b6b51f4,
      0x4db26158, 0x5005713c, 0xedb88320, 0xf00f9344, 0xd6d6a3e8, 0xcb61b38c,
      0x9b64c2b0, 0x86d3d2d4, 0xa00ae278, 0xbdbdf21c]"
  by (simp add: crc_bits_8 crc_bits_4 crc_bit_def)

lemma table256: "ngx_crc32_table256 = concat (map (\<lambda>x. map ((XOR) x) (map (crc_bit ^^ 8) [0, 1, 2, 3, 4, 5, 6, 7, 8, 9, 10, 11, 12, 13, 14, 15]))
    (map (\<lambda>h. (crc_bit ^^ 8) (push_bit 4 h)) [0, 1, 2, 3, 4, 5, 6, 7, 8, 9, 10, 11, 12, 13, 14, 15]))"
  unfolding table256_row table256_column by (simp add: ngx_crc32_table256_def)


lemma table256_bytes: "map (\<lambda>c. (crc_bit ^^ 8) (ucast c)) all_bytes = ngx_crc32_table256"
proof -
  have "map (ucast :: u_char \<Rightarrow> u32) all_bytes
    = concat (map (\<lambda>h. map ((XOR) (push_bit 4 h)) [0, 1, 2, 3, 4, 5, 6, 7, 8, 9, 10, 11, 12, 13, 14, 15])
        [0, 1, 2, 3, 4, 5, 6, 7, 8, 9, 10, 11, 12, 13, 14, 15])"
    unfolding all_bytes_list by simp
  from arg_cong [OF this, of "map (crc_bit ^^ 8)"] show ?thesis
    unfolding table256 by (simp only: map_concat map_map comp_def crc_bits_xor)
qed

lemma table256_nth: "ngx_crc32_table256 ! unat (x AND 0xff) = (crc_bit ^^ 8) (take_bit 8 x)"
proof -
  have "unat (x AND 0xff) = unat (ucast x :: u_char)"
    by (simp add: unat_and_numeral unsigned_ucast_eq take_bit_eq_mod)
  moreover have "(ucast (ucast x :: u_char) :: u32) = take_bit 8 x"
    by (intro bit_eqI) (simp add: bit_simps)
  ultimately show ?thesis using table_map [OF table256_bytes, of "ucast x"] by simp
qed

lemma table16_nth: "ngx_crc32_table16 ! unat (x AND 0xf) = (crc_bit ^^ 4) (take_bit 4 x)"
proof -
  have m: "x AND 0xf = take_bit 4 x" by (simp add: take_bit_eq_mask mask_eq_exp_minus_1)
  have lt: "unat (x AND 0xf) < 16" by (simp add: unat_and_numeral)
  have "[0, 1, 2, 3, 4, 5, 6, 7, 8, 9, 10, 11, 12, 13, 14, 15] = map (of_nat :: nat \<Rightarrow> u32) [0..<16]"
    by (simp add: upt_rec)
  with lt show ?thesis by (simp add: table16 m)
qed

lemma crc_long_step_byte: "crc_long_step crc c = crc_byte crc c"
proof -
  have "drop_bit 8 (crc XOR ucast c) = drop_bit 8 crc"
    by (intro bit_eqI) (simp add: bit_simps)
  then show ?thesis
    using crc_bits_table [of 8 "crc XOR ucast c"] by (simp add: crc_long_step_def crc_byte_def table256_nth)
qed

lemma crc_short_step_byte: "crc_short_step crc c = crc_byte crc c"
proof -
  let ?lo = "ucast c AND 0xf :: u32" and ?hi = "drop_bit 4 (ucast c) :: u32"
  let ?crc = "(crc_bit ^^ 4) (crc XOR ?lo)"
  have lo: "drop_bit 4 (crc XOR ?lo) = drop_bit 4 crc" and hi: "drop_bit 4 (x XOR ?hi) = drop_bit 4 x" for x
    by (intro bit_eqI; auto simp: bit_simps)+
  have "ucast c = (ucast c AND mask 4) XOR push_bit 4 ?hi" by (intro bit_eqI) (auto simp: bit_simps)
  then have c: "ucast c = ?lo XOR push_bit 4 ?hi" by (simp add: mask_eq_exp_minus_1)
  have 1: "ngx_crc32_table16 ! unat ((crc XOR ?lo) AND 0xf) XOR drop_bit 4 crc = ?crc"
    using crc_bits_table [of 4 "crc XOR ?lo"] by (simp only: table16_nth lo)
  have 2: "ngx_crc32_table16 ! unat ((?crc XOR ?hi) AND 0xf) XOR drop_bit 4 ?crc = (crc_bit ^^ 4) (?crc XOR ?hi)"
    using crc_bits_table [of 4 "?crc XOR ?hi"] by (simp only: table16_nth hi)
  have "crc_short_step crc c = (crc_bit ^^ 4) (?crc XOR ?hi)"
    by (simp only: crc_short_step_def Let_def 1 2)
  also have "?hi = (crc_bit ^^ 4) (push_bit 4 ?hi)"
    by (subst crc_bits_high) (auto intro!: bit_eqI simp: bit_simps)
  also have "(crc_bit ^^ 4) (?crc XOR \<dots>) = (crc_bit ^^ 8) (crc XOR ?lo XOR push_bit 4 ?hi)"
    by (simp only: crc_bits_8 crc_bits_xor xor.assoc)
  also have "\<dots> = crc_byte crc c" by (simp add: crc_byte_def c xor.assoc flip: c)
  finally show ?thesis .
qed

section \<open>What the check sum is\<close>

lemma ngx_crc32_correct_long: "ngx_crc32_long p = crc32_spec p"
proof -
  have "crc_long_step = crc_byte" by (intro ext) (rule crc_long_step_byte)
  then show ?thesis by (simp add: ngx_crc32_long_def crc32_spec_def)
qed

text \<open>
  Both table-driven routines, and ngx_crc32_update over any partition of the data, compute
  the remainder that the division bit by bit gives.
\<close>

theorem ngx_crc32_correct:
  "ngx_crc32_long p = crc32_spec p \<and> ngx_crc32_short p = crc32_spec p
   \<and> ngx_crc32_final (foldl ngx_crc32_update ngx_crc32_init ps) = crc32_spec (concat ps)"
proof -
  have steps: "crc_long_step = crc_byte" "crc_short_step = crc_byte"
    by (intro ext; rule crc_long_step_byte crc_short_step_byte)+
  have "foldl ngx_crc32_update crc ps = foldl crc_byte crc (concat ps)" for crc
    by (induction ps arbitrary: crc) (simp_all add: ngx_crc32_update_def steps)
  then show ?thesis
    by (simp add: ngx_crc32_long_def ngx_crc32_short_def crc32_spec_def steps ngx_crc32_final_def ngx_crc32_init_def)
qed

lemma crc_bit_inj: "crc_bit a = crc_bit b \<Longrightarrow> a = b"
proof -
  assume eq: "crc_bit a = crc_bit b"
  have b31: "bit (crc_bit x) 31 = bit x 0" for x
    using bit_imp_le_length [of x 32] by (auto simp: crc_bit_def bit_simps)
  with eq have low: "bit a 0 = bit b 0" by metis
  with eq have "drop_bit 1 a = drop_bit 1 b"
    by (cases "bit b 0") (simp_all add: crc_bit_def xor_cancel)
  then have "bit a (Suc n) = bit b (Suc n)" for n
    by (metis add.commute bit_drop_bit_eq comp_apply plus_1_eq_Suc)
  with low show ?thesis
    by (intro bit_eqI) (metis not0_implies_Suc)
qed

lemma crc_bits_inj: "(crc_bit ^^ n) a = (crc_bit ^^ n) b \<Longrightarrow> a = b"
  by (induction n) (auto dest: crc_bit_inj)

text \<open>Up to four bytes as the little-endian number that is divided in their place.\<close>

primrec le_word :: "bytes \<Rightarrow> u32" where
  "le_word [] = 0"
| "le_word (c # u) = ucast c XOR push_bit 8 (le_word u)"

lemma le_word_bit: "bit (le_word u) n \<longleftrightarrow> n < 32 \<and> n div 8 < length u \<and> bit (u ! (n div 8)) (n mod 8)"
proof (induction u arbitrary: n)
  case (Cons c u)
  show ?case
  proof (cases "n < 8")
    case True
    then show ?thesis by (simp add: bit_simps)
  next
    case False
    then obtain m where m: "n = m + 8" by (metis add.commute le_Suc_ex not_less)
    have "bit (le_word (c # u)) n \<longleftrightarrow> m + 8 < 32 \<and> bit (le_word u) m"
      by (simp add: m bit_simps)
    moreover have "(m + 8) div 8 = Suc (m div 8)" "(m + 8) mod 8 = m mod 8" by simp_all
    ultimately show ?thesis unfolding m Cons by auto
  qed
qed simp

lemma crc_bytes_word: "length u \<le> 4 \<Longrightarrow> foldl crc_byte s u = (crc_bit ^^ (8 * length u)) (s XOR le_word u)"
proof (induction u arbitrary: s)
  case (Cons c u)
  have "(crc_bit ^^ 8) (push_bit 8 (le_word u)) = drop_bit 8 (push_bit 8 (le_word u))"
    by (rule crc_bits_high) (auto intro!: bit_eqI simp: bit_simps)
  also have "\<dots> = le_word u"
    using Cons.prems by (intro bit_eqI) (auto simp: bit_simps le_word_bit)
  finally have word: "le_word u = (crc_bit ^^ 8) (push_bit 8 (le_word u))" ..
  have "foldl crc_byte s (c # u) = (crc_bit ^^ (8 * length u)) (crc_byte s c XOR le_word u)"
    using Cons by simp
  also have "crc_byte s c XOR le_word u = (crc_bit ^^ 8) (s XOR ucast c XOR push_bit 8 (le_word u))"
    by (subst word) (simp only: crc_byte_def crc_bits_xor xor.assoc)
  also have "(crc_bit ^^ (8 * length u)) \<dots> = (crc_bit ^^ (8 * length (c # u))) (s XOR le_word (c # u))"
  proof -
    have "8 * length (c # u) = 8 * length u + 8" by simp
    then show ?thesis by (simp only: funpow_add comp_apply xor.assoc le_word.simps)
  qed
  finally show ?case .
qed simp

lemma le_word_inj:
  assumes "length u = length v" "length u \<le> 4" "le_word u = le_word v"
  shows "u = v"
proof (rule nth_equalityI)
  fix i assume i: "i < length u"
  show "u ! i = v ! i"
  proof (rule bit_word_eqI)
    fix k assume "k < LENGTH(8)"
    then have "k < 8" by simp
    with assms(3) have "bit (le_word u) (8 * i + k) = bit (le_word v) (8 * i + k)" by simp
    with i assms(1,2) \<open>k < 8\<close> show "bit (u ! i) k = bit (v ! i) k" by (simp add: le_word_bit)
  qed
qed (rule assms)

text \<open>
  Every error confined to four consecutive bytes is detected: two messages of the same
  length that differ in such a window have different check sums, whatever surrounds it.
\<close>

theorem ngx_crc32_detects:
  assumes "length u = length v" "length u \<le> 4" "u \<noteq> v"
  shows "ngx_crc32_long (a @ u @ b) \<noteq> ngx_crc32_long (a @ v @ b)"
proof
  assume "ngx_crc32_long (a @ u @ b) = ngx_crc32_long (a @ v @ b)"
  moreover have "foldl crc_byte s b = foldl crc_byte s' b \<Longrightarrow> s = s'" for s s'
  proof (induction b arbitrary: s s')
    case (Cons c b)
    then have "s XOR ucast c = s' XOR ucast c" by (auto simp: crc_byte_def dest: crc_bits_inj)
    then show ?case by (simp only: xor_cancel)
  qed simp
  moreover define s where "s = foldl crc_byte 0xffffffff a"
  ultimately have "foldl crc_byte s u = foldl crc_byte s v"
    by (simp only: ngx_crc32_correct_long crc32_spec_def foldl_append xor_cancel)
  with assms(1,2) have "le_word u XOR s = le_word v XOR s"
    by (simp add: crc_bytes_word xor.commute [of _ s]) (rule crc_bits_inj)
  then have "le_word u = le_word v" by (simp only: xor_cancel)
  with assms le_word_inj show False by blast
qed

theorem ngx_crc32_detects_witness:
  "ngx_crc32_long (bytes_of ''GET /'') \<noteq> ngx_crc32_long (bytes_of ''GET ?'')"
  using ngx_crc32_detects [of "[ch CHR ''/'']" "[ch CHR ''?'']" "bytes_of ''GET ''" "[]"] by simp

end
