(* ===== verification/Ngx_Rwlock.thy ===== *)
theory Ngx_Rwlock
  imports Prelude
begin

text \<open>
  The read-write spin lock of src/core/ngx_rwlock.c, shared by worker processes: the lock word, the
  atomic actions of its three functions as steps of a program counter, and every interleaving of
  them. Pausing and yielding between two attempts change nothing and are left out, so the attempts of
  the spin loops and of the outer loop are the same step.
\<close>

section \<open>The functions, action by action\<close>

abbreviation (input) NGX_RWLOCK_WLOCK :: u64 where "NGX_RWLOCK_WLOCK \<equiv> -1"

text \<open>\<open>ngx_atomic_cmp_set(lock, old, set)\<close>: whether it succeeded, and the new value.\<close>

definition ngx_atomic_cmp_set :: "u64 \<Rightarrow> u64 \<Rightarrow> u64 \<Rightarrow> bool \<times> u64" where
  "ngx_atomic_cmp_set lock old new = (if lock = old then (True, new) else (False, lock))"

text \<open>
  Where a process is: outside, before the test and before the exchange of ngx_rwlock_wlock(), before
  the load and before the exchange of ngx_rwlock_rlock() with the value it loaded, inside with
  the lock, and in ngx_rwlock_unlock() before its load, its store, its exchange and the load
  after a failed exchange.
\<close>

datatype rw_pc = Outside | W_test | W_set | R_load | R_set u64 | Inside | U_load | U_store | U_set u64 | U_reload

definition ngx_rwlock_wlock :: "u64 \<Rightarrow> rw_pc \<Rightarrow> u64 \<times> rw_pc" where
  "ngx_rwlock_wlock lock pc =
     (if pc = W_test then (lock, if lock = 0 then W_set else W_test)
      else
        (case ngx_atomic_cmp_set lock 0 NGX_RWLOCK_WLOCK of
           (ok, lock) \<Rightarrow> (lock, if ok then Inside else W_test)))"

definition ngx_rwlock_rlock :: "u64 \<Rightarrow> rw_pc \<Rightarrow> u64 \<times> rw_pc" where
  "ngx_rwlock_rlock lock pc =
     (case pc of
        R_set readers \<Rightarrow>
          (case ngx_atomic_cmp_set lock readers (readers + 1) of
             (ok, lock) \<Rightarrow> (lock, if ok then Inside else R_load))
      | _ \<Rightarrow> (lock, if lock \<noteq> NGX_RWLOCK_WLOCK then R_set lock else R_load))"

definition ngx_rwlock_unlock :: "u64 \<Rightarrow> rw_pc \<Rightarrow> u64 \<times> rw_pc" where
  "ngx_rwlock_unlock lock pc =
     (case pc of
        U_store \<Rightarrow> (0, Outside)
      | U_set readers \<Rightarrow>
          (case ngx_atomic_cmp_set lock readers (readers - 1) of
             (True, lock) \<Rightarrow> (lock, Outside)
           | (False, lock) \<Rightarrow> (lock, U_reload))
      | U_reload \<Rightarrow> (lock, U_set lock)
      | _ \<Rightarrow> (lock, if lock = NGX_RWLOCK_WLOCK then U_store else U_set lock))"

section \<open>Every interleaving\<close>

text \<open>
  The processes call the functions properly: they take the lock from outside and release it
  when they are inside. What a process holds is recorded beside its program counter; the code
  does not read it.
\<close>

datatype rw_role = Free | Reader | Writer

record rw_proc =
  rw_pc :: rw_pc
  rw_role :: rw_role

record rw_state =
  rw_lock :: u64
  rw_procs :: "rw_proc list"

definition rw_wlock_pc :: "rw_pc \<Rightarrow> bool" where
  "rw_wlock_pc pc \<longleftrightarrow> pc = W_test \<or> pc = W_set"

definition rw_rlock_pc :: "rw_pc \<Rightarrow> bool" where
  "rw_rlock_pc pc \<longleftrightarrow> pc = R_load \<or> (\<exists>r. pc = R_set r)"

definition rw_unlock_pc :: "rw_pc \<Rightarrow> bool" where
  "rw_unlock_pc pc \<longleftrightarrow> pc = U_load \<or> pc = U_store \<or> pc = U_reload \<or> (\<exists>r. pc = U_set r)"

lemmas rw_pc_defs = rw_wlock_pc_def rw_rlock_pc_def rw_unlock_pc_def

text \<open>One step of one process.\<close>

inductive rw_proc_step :: "u64 \<times> rw_proc \<Rightarrow> u64 \<times> rw_proc \<Rightarrow> bool" where
  call_wlock: "rw_proc_step (l, \<lparr>rw_pc = Outside, rw_role = Free\<rparr>) (l, \<lparr>rw_pc = W_test, rw_role = Free\<rparr>)"
| call_rlock: "rw_proc_step (l, \<lparr>rw_pc = Outside, rw_role = Free\<rparr>) (l, \<lparr>rw_pc = R_load, rw_role = Free\<rparr>)"
| call_unlock: "rw_proc_step (l, \<lparr>rw_pc = Inside, rw_role = r\<rparr>) (l, \<lparr>rw_pc = U_load, rw_role = r\<rparr>)"
| wlock: "\<lbrakk>rw_wlock_pc pc; ngx_rwlock_wlock l pc = (l', pc')\<rbrakk>
    \<Longrightarrow> rw_proc_step (l, \<lparr>rw_pc = pc, rw_role = r\<rparr>) (l', \<lparr>rw_pc = pc', rw_role = if pc' = Inside then Writer else r\<rparr>)"
| rlock: "\<lbrakk>rw_rlock_pc pc; ngx_rwlock_rlock l pc = (l', pc')\<rbrakk>
    \<Longrightarrow> rw_proc_step (l, \<lparr>rw_pc = pc, rw_role = r\<rparr>) (l', \<lparr>rw_pc = pc', rw_role = if pc' = Inside then Reader else r\<rparr>)"
| unlock: "\<lbrakk>rw_unlock_pc pc; ngx_rwlock_unlock l pc = (l', pc')\<rbrakk>
    \<Longrightarrow> rw_proc_step (l, \<lparr>rw_pc = pc, rw_role = r\<rparr>) (l', \<lparr>rw_pc = pc', rw_role = if pc' = Outside then Free else r\<rparr>)"

inductive_cases rw_proc_stepE: "rw_proc_step (l, p) (l', p')"

inductive rw_step :: "rw_state \<Rightarrow> rw_state \<Rightarrow> bool" where
  "\<lbrakk>i < length ps; rw_proc_step (l, ps ! i) (l', p')\<rbrakk>
   \<Longrightarrow> rw_step \<lparr>rw_lock = l, rw_procs = ps\<rparr> \<lparr>rw_lock = l', rw_procs = ps[i := p']\<rparr>"

inductive_cases rw_stepE: "rw_step s s'"

definition rw_init :: "nat \<Rightarrow> rw_state" where
  "rw_init n = \<lparr>rw_lock = 0, rw_procs = replicate n \<lparr>rw_pc = Outside, rw_role = Free\<rparr>\<rparr>"

inductive rw_reachable :: "nat \<Rightarrow> rw_state \<Rightarrow> bool" for n where
  init: "rw_reachable n (rw_init n)"
| step: "\<lbrakk>rw_reachable n s; rw_step s s'\<rbrakk> \<Longrightarrow> rw_reachable n s'"

section \<open>Mutual exclusion\<close>

definition rw_holders :: "rw_role \<Rightarrow> rw_proc list \<Rightarrow> nat" where
  "rw_holders r ps = length (filter (\<lambda>p. rw_role p = r) ps)"

lemma filter_update:
  "i < length xs \<Longrightarrow> length (filter P (xs[i := x])) + of_bool (P (xs ! i)) = length (filter P xs) + of_bool (P x)"
proof (induction xs arbitrary: i)
  case (Cons y ys)
  show ?case
  proof (cases i)
    case (Suc j)
    with Cons.IH [of j] Cons.prems show ?thesis by auto
  qed auto
qed simp

lemma rw_holders_update:
  assumes "i < length ps"
  shows "rw_holders r (ps[i := p]) + of_bool (rw_role (ps ! i) = r) = rw_holders r ps + of_bool (rw_role p = r)"
  unfolding rw_holders_def by (rule filter_update [OF assms, of "\<lambda>p. rw_role p = r"])

text \<open>What the lock word says of the holders, and what each process may believe.\<close>

definition rw_lock_ok :: "u64 \<Rightarrow> nat \<Rightarrow> nat \<Rightarrow> bool" where
  "rw_lock_ok l writers readers \<longleftrightarrow>
     (if writers = 0 then unat l = readers else writers = 1 \<and> readers = 0 \<and> l = NGX_RWLOCK_WLOCK)"

fun rw_proc_ok :: "rw_proc \<Rightarrow> bool" where
  "rw_proc_ok p \<longleftrightarrow>
     (case rw_pc p of
        Inside \<Rightarrow> rw_role p \<noteq> Free
      | U_load \<Rightarrow> rw_role p \<noteq> Free
      | U_store \<Rightarrow> rw_role p = Writer
      | U_set r \<Rightarrow> rw_role p = Reader
      | U_reload \<Rightarrow> rw_role p = Reader
      | R_set r \<Rightarrow> rw_role p = Free \<and> r \<noteq> NGX_RWLOCK_WLOCK
      | _ \<Rightarrow> rw_role p = Free)"

definition rw_inv :: "nat \<Rightarrow> rw_state \<Rightarrow> bool" where
  "rw_inv n s \<longleftrightarrow> length (rw_procs s) = n \<and> list_all rw_proc_ok (rw_procs s)
     \<and> rw_lock_ok (rw_lock s) (rw_holders Writer (rw_procs s)) (rw_holders Reader (rw_procs s))"

lemma rw_holders_le: "rw_holders r ps \<le> length ps"
  by (simp add: rw_holders_def)

lemma rw_holders_0: "\<lbrakk>rw_holders r ps = 0; i < length ps\<rbrakk> \<Longrightarrow> rw_role (ps ! i) \<noteq> r"
  by (auto simp: rw_holders_def filter_empty_conv)

text \<open>A process that holds the lock sees from the word what it holds.\<close>

lemma rw_lock_writer:
  assumes "rw_lock_ok l (rw_holders Writer ps) (rw_holders Reader ps)" "int (length ps) < 2 ^ 64 - 1"
    "i < length ps" "rw_role (ps ! i) \<noteq> Free"
  shows "l = NGX_RWLOCK_WLOCK \<longleftrightarrow> rw_role (ps ! i) = Writer"
proof (cases "rw_role (ps ! i)")
  case Writer
  with rw_holders_0 [OF _ assms(3)] assms(1) show ?thesis by (auto simp: rw_lock_ok_def split: if_splits)
next
  case Reader
  with rw_holders_0 [OF _ assms(3)] assms(1) have "unat l = rw_holders Reader ps"
    by (auto simp: rw_lock_ok_def split: if_splits)
  with rw_holders_le [of Reader ps] assms(2) have "int (unat l) < 2 ^ 64 - 1" by linarith
  then have "l \<noteq> NGX_RWLOCK_WLOCK" by (auto simp: unsigned_minus_1_eq_mask mask_eq_exp_minus_1)
  with Reader show ?thesis by simp
qed (use assms(4) in simp)

lemma rw_step_inv:
  assumes "rw_inv n s" "rw_step s s'" "int n < 2 ^ 64 - 1"
  shows "rw_inv n s'"
  using assms(2)
proof (cases rule: rw_step.cases)
  case (1 i ps l l' p')
  have inv: "length ps = n" "list_all rw_proc_ok ps" "rw_lock_ok l (rw_holders Writer ps) (rw_holders Reader ps)"
    using assms(1) 1 by (simp_all add: rw_inv_def)
  have ok: "rw_proc_ok (ps ! i)" using inv(2) 1(3) by (simp add: list_all_length)
  note upd = rw_holders_update [OF 1(3), of _ p']
  have "rw_proc_ok p' \<and> rw_lock_ok l' (rw_holders Writer (ps[i := p'])) (rw_holders Reader (ps[i := p']))"
    using 1(4)
  proof (cases rule: rw_proc_step.cases)
    case call_wlock
    with upd [of Writer] upd [of Reader] inv ok show ?thesis by simp
  next
    case call_rlock
    with upd [of Writer] upd [of Reader] inv ok show ?thesis by simp
  next
    case call_unlock
    with upd [of Writer] upd [of Reader] inv ok show ?thesis by (simp split: if_splits)
  next
    case (wlock pc pc' r)
    have free: "rw_role (ps ! i) = Free" using ok wlock by (auto simp: rw_wlock_pc_def)
    show ?thesis
    proof (cases "pc' = Inside")
      case True
      with wlock have l: "l = 0" "l' = NGX_RWLOCK_WLOCK" and p': "rw_role p' = Writer"
        by (auto simp: ngx_rwlock_wlock_def ngx_atomic_cmp_set_def split: if_splits)
      with inv(3) have "rw_holders Writer ps = 0" "rw_holders Reader ps = 0"
        by (auto simp: rw_lock_ok_def split: if_splits)
      with upd [of Writer] upd [of Reader] free l p' True wlock show ?thesis
        by (simp add: rw_lock_ok_def)
    next
      case False
      with wlock have "l' = l" "pc' = W_test \<or> pc' = W_set"
        by (auto simp: ngx_rwlock_wlock_def ngx_atomic_cmp_set_def split: if_splits)
      with upd [of Writer] upd [of Reader] free wlock False inv(3) show ?thesis by auto
    qed
  next
    case (rlock pc pc' r)
    have free: "rw_role (ps ! i) = Free" using ok rlock by (auto simp: rw_rlock_pc_def)
    show ?thesis
    proof (cases "pc' = Inside")
      case True
      with rlock obtain rd where rd: "pc = R_set rd" "l = rd" "l' = rd + 1"
        by (auto simp: ngx_rwlock_rlock_def ngx_atomic_cmp_set_def rw_rlock_pc_def split: if_splits)
      have p': "rw_role p' = Reader" using True rlock by simp
      have "l \<noteq> NGX_RWLOCK_WLOCK" using ok rlock rd by simp
      with inv(3) have w: "rw_holders Writer ps = 0" "unat l = rw_holders Reader ps"
        by (auto simp: rw_lock_ok_def split: if_splits)
      have "unat (l + 1) = unat l + 1"
        using \<open>l \<noteq> NGX_RWLOCK_WLOCK\<close> by (metis Suc_eq_plus1 add.commute eq_neg_iff_add_eq_0 unatSuc)
      with upd [of Writer] upd [of Reader] free w p' True rlock rd show ?thesis
        by (simp add: rw_lock_ok_def)
    next
      case False
      with rlock have "l' = l" "pc' = R_load \<or> pc' = R_set l \<and> l \<noteq> NGX_RWLOCK_WLOCK"
        by (auto simp: ngx_rwlock_rlock_def ngx_atomic_cmp_set_def rw_rlock_pc_def split: if_splits)
      with upd [of Writer] upd [of Reader] free rlock False inv(3) show ?thesis by auto
    qed
  next
    case (unlock pc pc' r)
    have role: "rw_role (ps ! i) = r" using unlock by simp
    consider (store) "pc = U_store" | (set) rd where "pc = U_set rd" "l = rd" | (stay) "l' = l" "pc' \<noteq> Outside"
      using unlock(3,4) by (auto simp: rw_unlock_pc_def ngx_rwlock_unlock_def ngx_atomic_cmp_set_def split: if_splits)
    then show ?thesis
    proof cases
      case store
      with ok unlock have "r = Writer" "l' = 0" "pc' = Outside" by (auto simp: ngx_rwlock_unlock_def)
      with role upd [of Writer] upd [of Reader] inv(3) unlock show ?thesis
        by (auto simp: rw_lock_ok_def split: if_splits)
    next
      case (set rd)
      with ok unlock have r: "r = Reader" "l' = l - 1" "pc' = Outside"
        by (auto simp: ngx_rwlock_unlock_def ngx_atomic_cmp_set_def)
      with role upd [of Reader] unlock have "rw_holders Reader ps \<noteq> 0" by auto
      with inv(3) have w: "rw_holders Writer ps = 0" "unat l = rw_holders Reader ps"
        by (auto simp: rw_lock_ok_def split: if_splits)
      then have "unat (l - 1) = unat l - 1"
        using \<open>rw_holders Reader ps \<noteq> 0\<close> by (metis unat_0 unat_minus_one)
      with role r w upd [of Writer] upd [of Reader] unlock show ?thesis by (simp add: rw_lock_ok_def)
    next
      case stay
      have "rw_proc_ok p'"
      proof -
        have "l = NGX_RWLOCK_WLOCK \<longleftrightarrow> r = Writer" if "r \<noteq> Free"
          using rw_lock_writer [OF inv(3) _ 1(3)] inv(1) assms(3) role that by simp
        with stay ok unlock show ?thesis
          by (auto simp: rw_unlock_pc_def ngx_rwlock_unlock_def ngx_atomic_cmp_set_def split: if_splits)
            (metis rw_role.exhaust)+
      qed
      moreover have "rw_role p' = r" using stay unlock by simp
      ultimately show ?thesis using role upd [of Writer] upd [of Reader] inv(3) stay by simp
    qed
  qed
  then show ?thesis
    using 1 inv by (auto simp: rw_inv_def list_all_iff dest!: set_update_subset_insert [THEN subsetD])
qed

lemma rw_reachable_inv: "\<lbrakk>rw_reachable n s; int n < 2 ^ 64 - 1\<rbrakk> \<Longrightarrow> rw_inv n s"
proof (induction rule: rw_reachable.induct)
  case init
  show ?case by (simp add: rw_inv_def rw_init_def rw_lock_ok_def rw_holders_def list_all_iff)
next
  case (step s s')
  then show ?case by (blast intro: rw_step_inv)
qed

text \<open>Holders of a role at two places.\<close>

lemma rw_holders_ge_2:
  assumes "i < length ps" "j < length ps" "i \<noteq> j" "rw_role (ps ! i) = r" "rw_role (ps ! j) = r"
  shows "2 \<le> rw_holders r ps"
proof -
  let ?p = "\<lparr>rw_pc = Outside, rw_role = if r = Free then Reader else Free\<rparr>"
  have "rw_holders r (ps[i := ?p]) + 1 = rw_holders r ps"
    using rw_holders_update [OF assms(1), of r ?p] assms(4) by auto
  moreover have "rw_holders r (ps[i := ?p]) \<noteq> 0"
  proof
    assume "rw_holders r (ps[i := ?p]) = 0"
    from rw_holders_0 [OF this, of j] assms show False by simp
  qed
  ultimately show ?thesis by linarith
qed

text \<open>
  C35. Whatever the interleaving of up to \<open>2 ^ 64 - 2\<close> processes, while a writer is inside (it took
  the lock and has not called ngx_rwlock_unlock yet) no other process is inside, reading or
  writing, and the lock word stays all ones.
\<close>

theorem ngx_rwlock_exclusion:
  assumes "rw_reachable n s" "int n < 2 ^ 64 - 1"
    "i < n" "j < n" "i \<noteq> j" "rw_pc (rw_procs s ! i) = Inside" "rw_role (rw_procs s ! i) = Writer"
  shows "rw_pc (rw_procs s ! j) \<noteq> Inside \<and> rw_lock s = NGX_RWLOCK_WLOCK"
proof -
  from rw_reachable_inv [OF assms(1,2)] have inv: "length (rw_procs s) = n" "list_all rw_proc_ok (rw_procs s)"
    "rw_lock_ok (rw_lock s) (rw_holders Writer (rw_procs s)) (rw_holders Reader (rw_procs s))"
    by (simp_all add: rw_inv_def)
  have w: "rw_holders Writer (rw_procs s) \<noteq> 0" using rw_holders_0 [of Writer "rw_procs s" i] assms inv(1) by auto
  with inv(3) have one: "rw_holders Writer (rw_procs s) = 1" "rw_holders Reader (rw_procs s) = 0"
    "rw_lock s = NGX_RWLOCK_WLOCK" by (auto simp: rw_lock_ok_def)
  have "rw_role (rw_procs s ! j) = Free"
    using rw_holders_ge_2 [of i "rw_procs s" j Writer] rw_holders_0 [of Reader "rw_procs s" j] one assms inv(1)
    by (cases "rw_role (rw_procs s ! j)") auto
  moreover have "rw_proc_ok (rw_procs s ! j)" using inv(1,2) assms(4) by (simp add: list_all_length)
  ultimately show ?thesis using one by auto
qed

lemma rw_step_at:
  "\<lbrakk>rw_reachable n \<lparr>rw_lock = l, rw_procs = ps\<rparr>; i < length ps; rw_proc_step (l, ps ! i) (l', p'); ps' = ps[i := p']\<rbrakk>
   \<Longrightarrow> rw_reachable n \<lparr>rw_lock = l', rw_procs = ps'\<rparr>"
  by (auto intro: rw_reachable.step rw_step.intros)

text \<open>A run in which the first of two processes gets the lock for writing.\<close>

lemma rw_writer_reachable:
  "rw_reachable 2 \<lparr>rw_lock = NGX_RWLOCK_WLOCK,
     rw_procs = [\<lparr>rw_pc = Inside, rw_role = Writer\<rparr>, \<lparr>rw_pc = Outside, rw_role = Free\<rparr>]\<rparr>"
proof -
  let ?q = "\<lparr>rw_pc = Outside, rw_role = Free\<rparr>"
  have "rw_reachable 2 \<lparr>rw_lock = 0, rw_procs = [?q, ?q]\<rparr>"
    using rw_reachable.init [of 2] by (simp add: rw_init_def numeral_2_eq_2)
  from rw_step_at [OF this, of 0, OF _ _ refl] have "rw_reachable 2 \<lparr>rw_lock = 0, rw_procs = [\<lparr>rw_pc = W_test, rw_role = Free\<rparr>, ?q]\<rparr>"
    by (simp add: call_wlock)
  from rw_step_at [OF this, of 0, OF _ _ refl] have "rw_reachable 2 \<lparr>rw_lock = 0, rw_procs = [\<lparr>rw_pc = W_set, rw_role = Free\<rparr>, ?q]\<rparr>"
    using wlock [of W_test 0 0 W_set Free] by (simp add: rw_wlock_pc_def ngx_rwlock_wlock_def)
  from rw_step_at [OF this, of 0, OF _ _ refl] show ?thesis
    using wlock [of W_set 0 NGX_RWLOCK_WLOCK Inside Free]
    by (simp add: rw_wlock_pc_def ngx_rwlock_wlock_def ngx_atomic_cmp_set_def)
qed

theorem ngx_rwlock_exclusion_witness:
  "rw_pc ([\<lparr>rw_pc = Inside, rw_role = Writer\<rparr>, \<lparr>rw_pc = Outside, rw_role = Free\<rparr>] ! 1) \<noteq> Inside"
  using ngx_rwlock_exclusion [OF rw_writer_reachable, of 0 1] by simp

text \<open>
  The lock is never lost: in every reachable state in which no process holds it the word is 0,
  and a process that tries to lock, for writing or for reading, gets it with its next two steps if it
  is not interrupted.
\<close>

theorem ngx_rwlock_available:
  assumes "rw_reachable n s" "int n < 2 ^ 64 - 1" "\<forall>p \<in> set (rw_procs s). rw_role p = Free"
  shows "rw_lock s = 0
    \<and> (case ngx_rwlock_wlock (rw_lock s) W_test of (l, pc) \<Rightarrow> ngx_rwlock_wlock l pc) = (NGX_RWLOCK_WLOCK, Inside)
    \<and> (case ngx_rwlock_rlock (rw_lock s) R_load of (l, pc) \<Rightarrow> ngx_rwlock_rlock l pc) = (1, Inside)"
proof -
  have "rw_holders r (rw_procs s) = 0" if "r \<noteq> Free" for r
    using assms(3) that by (auto simp: rw_holders_def filter_empty_conv)
  with rw_reachable_inv [OF assms(1,2)] have "rw_lock s = 0"
    by (simp add: rw_inv_def rw_lock_ok_def unsigned_eq_0_iff)
  then show ?thesis
    by (simp add: ngx_rwlock_wlock_def ngx_rwlock_rlock_def ngx_atomic_cmp_set_def)
qed

theorem ngx_rwlock_available_witness:
  "(case ngx_rwlock_wlock (rw_lock (rw_init 3)) W_test of (l, pc) \<Rightarrow> ngx_rwlock_wlock l pc) = (NGX_RWLOCK_WLOCK, Inside)"
  using ngx_rwlock_available [OF rw_reachable.init [of 3]] by (simp add: rw_init_def)

end
