(* ===== verification/Ngx_Utf8.thy ===== *)
theory Ngx_Utf8
  imports Prelude
begin

text \<open>
  UTF-8 in src/core/ngx_string.c: ngx_utf8_decode, ngx_utf8_length and ngx_utf8_cpystrn.
  A pointer is the list of bytes readable from it; reading past them is the result None,
  so that an over-read of the code is visible. Sizes are 64-bit words (size_t).
\<close>

section \<open>Decoding one character\<close>

text \<open>The lead byte gives the first bits, the greatest value that is overlong, and the
  number of continuation bytes.\<close>

definition utf8_lead :: "u_char \<Rightarrow> (u32 \<times> u32 \<times> nat) option" where
  "utf8_lead c =
     (let u = (ucast c :: u32)
      in if u \<ge> 0xf0 then Some (u AND 0x07, 0xffff, 3)
         else if u \<ge> 0xe0 then Some (u AND 0x0f, 0x7ff, 2)
         else if u \<ge> 0xc2 then Some (u AND 0x1f, 0x7f, 1)
         else None)"

fun utf8_cont :: "nat \<Rightarrow> u32 \<Rightarrow> bytes \<Rightarrow> (u32 option \<times> bytes) option" where
  "utf8_cont 0 u p = Some (Some u, p)"
| "utf8_cont (Suc len) u [] = None"
| "utf8_cont (Suc len) u (c # p) =
     (let i = (ucast c :: u32)
      in if i < 0x80 then Some (None, p)
         else utf8_cont len (push_bit 6 u OR (i AND 0x3f)) p)"

definition ngx_utf8_decode :: "bytes \<Rightarrow> u64 \<Rightarrow> (u32 \<times> bytes) option" where
  "ngx_utf8_decode p n =
     (case p of
        [] \<Rightarrow> None
      | c # p' \<Rightarrow>
          (case utf8_lead c of
             None \<Rightarrow> Some (0xffffffff, p')
           | Some (u, valid, len) \<Rightarrow>
               if n - 1 < of_nat len then Some (0xfffffffe, p)
               else
                 (case utf8_cont len u p' of
                    None \<Rightarrow> None
                  | Some (None, q) \<Rightarrow> Some (0xffffffff, q)
                  | Some (Some u', q) \<Rightarrow>
                      if u' > valid then Some (u', q) else Some (0xffffffff, q))))"

section \<open>Length and copy\<close>

text \<open>\<open>p < last\<close>: the distance may become negative when a character crosses \<open>last\<close>. Every
  round consumes at least one byte, so the number of readable bytes bounds the rounds.\<close>

fun utf8_length_loop :: "nat \<Rightarrow> u64 \<Rightarrow> bytes \<Rightarrow> int \<Rightarrow> u64 \<Rightarrow> u64 option" where
  "utf8_length_loop 0 n p left len = (if left \<le> 0 then Some len else None)"
| "utf8_length_loop (Suc fuel) n p left len =
     (if left \<le> 0 then Some len
      else case p of
        [] \<Rightarrow> None
      | c # p' \<Rightarrow>
          if c < 0x80 then utf8_length_loop fuel n p' (left - 1) (len + 1)
          else case ngx_utf8_decode p n of
              None \<Rightarrow> None
            | Some (u, q) \<Rightarrow>
                if u > 0x10ffff then Some n
                else utf8_length_loop fuel n q (left - int (length p - length q)) (len + 1))"

definition ngx_utf8_length :: "bytes \<Rightarrow> u64 \<Rightarrow> u64 option" where
  "ngx_utf8_length p n = utf8_length_loop (length p) n p (uint n) 0"

text \<open>
  The result is what was copied before the terminating NUL, whose position is returned.
  \<open>n\<close> is the room in characters, as in the call in ngx_http_autoindex_module.c.
\<close>

fun utf8_cpystrn_loop :: "bytes \<Rightarrow> nat \<Rightarrow> u64 \<Rightarrow> bytes option" where
  "utf8_cpystrn_loop src 0 len = Some []"
| "utf8_cpystrn_loop src (Suc n) len =
     (if n = 0 then Some []
      else case src of
        [] \<Rightarrow> None
      | c # src' \<Rightarrow>
          if c < 0x80 then
            (if c \<noteq> 0 then map_option (Cons c) (utf8_cpystrn_loop src' n (len - 1))
             else Some [])
          else case ngx_utf8_decode src len of
              None \<Rightarrow> None
            | Some (u, q) \<Rightarrow>
                if u > 0x10ffff then Some []
                else
                  (let k = length src - length q
                   in map_option ((@) (take k src))
                        (utf8_cpystrn_loop q n (len - of_nat k))))"

definition ngx_utf8_cpystrn :: "bytes \<Rightarrow> nat \<Rightarrow> u64 \<Rightarrow> bytes option" where
  "ngx_utf8_cpystrn src n len = utf8_cpystrn_loop src n len"

section \<open>The decoder inverts the encoding of the standard\<close>

text \<open>The encoding of RFC 3629, in two to four bytes.\<close>

definition utf8_enc :: "nat \<Rightarrow> bytes" where
  "utf8_enc u =
     (if u < 0x800 then [of_nat (0xc0 + u div 64), of_nat (0x80 + u mod 64)]
      else if u < 0x10000 then
        [of_nat (0xe0 + u div 4096), of_nat (0x80 + u div 64 mod 64), of_nat (0x80 + u mod 64)]
      else
        [of_nat (0xf0 + u div 262144), of_nat (0x80 + u div 4096 mod 64),
         of_nat (0x80 + u div 64 mod 64), of_nat (0x80 + u mod 64)])"

lemma push6_or:
  assumes "unat u < 2 ^ 26"
  shows "unat (push_bit 6 u OR (i AND 0x3f)) = unat (u :: u32) * 64 + unat i mod 64"
proof -
  have m: "0x3f = (mask 6 :: u32)" by (simp add: mask_eq_exp_minus_1)
  have "push_bit 6 u AND (i AND 0x3f) = 0"
    unfolding m by (rule bit_word_eqI) (auto simp: bit_simps)
  then have "push_bit 6 u OR (i AND 0x3f) = push_bit 6 u + (i AND 0x3f)"
    by (simp add: disjunctive_add_eq_or)
  moreover have "unat (push_bit 6 u) = unat u * 64"
    using assms by (simp add: push_bit_eq_mult unat_mult_lem unat_word_ariths)
  moreover have "unat (i AND 0x3f) = unat i mod 64"
    by (rule unat_and_numeral)
  ultimately show ?thesis using assms by (simp add: unat_word_ariths)
qed

lemma utf8_cont_step:
  assumes "unat u < 2 ^ 26" "d < 64"
  shows "utf8_cont (Suc len) u (of_nat (0x80 + d) # p)
    = utf8_cont len (of_nat (unat u * 64 + d)) p"
proof -
  let ?i = "ucast (of_nat (0x80 + d) :: u_char) :: u32"
  have i: "unat ?i = 0x80 + d"
    using assms(2)
    by (simp only: unsigned_ucast_eq unsigned_of_nat) (simp add: take_bit_nat_eq_self)
  then have "\<not> ?i < 0x80" by (simp add: word_less_nat_alt)
  moreover have "push_bit 6 u OR (?i AND 0x3f) = of_nat (unat u * 64 + d)"
  proof (rule word_unat_eq_iff [THEN iffD2])
    have "(0x80 + d) mod 64 = d" using assms(2) by (simp add: mod_if)
    then show "unat (push_bit 6 u OR (?i AND 0x3f)) = unat (of_nat (unat u * 64 + d) :: u32)"
      using push6_or [OF assms(1), of ?i] i assms
      by (simp add: unat_of_nat_lt del: of_nat_add of_nat_mult)
  qed
  ultimately show ?thesis by (simp add: Let_def)
qed

lemma utf8_lead_2: "d < 0x20 \<Longrightarrow> 2 \<le> d \<Longrightarrow> utf8_lead (of_nat (0xc0 + d)) = Some (of_nat d, 0x7f, 1)"
proof -
  assume d: "d < 0x20" "2 \<le> d"
  have "2 \<le> unat b \<longrightarrow> utf8_lead (of_nat (0xc0 + unat b)) = Some (of_nat (unat b), 0x7f, 1)"
    if "unat b < 0x20" for b :: u_char
    using that by (rule byte_less_exhaust [rotated]) (simp add: upt_rec utf8_lead_def)
  from this [of "of_nat d"] d show ?thesis by (simp add: unsigned_of_nat take_bit_nat_eq_self)
qed

lemma utf8_lead_3: "d < 0x10 \<Longrightarrow> utf8_lead (of_nat (0xe0 + d)) = Some (of_nat d, 0x7ff, 2)"
proof -
  assume d: "d < 0x10"
  have "utf8_lead (of_nat (0xe0 + unat b)) = Some (of_nat (unat b), 0x7ff, 2)"
    if "unat b < 0x10" for b :: u_char
    using that by (rule byte_less_exhaust [rotated]) (simp add: upt_rec utf8_lead_def)
  from this [of "of_nat d"] d show ?thesis by (simp add: unsigned_of_nat take_bit_nat_eq_self)
qed

lemma utf8_lead_4: "d < 8 \<Longrightarrow> utf8_lead (of_nat (0xf0 + d)) = Some (of_nat d, 0xffff, 3)"
proof -
  assume d: "d < 8"
  have "utf8_lead (of_nat (0xf0 + unat b)) = Some (of_nat (unat b), 0xffff, 3)"
    if "unat b < 8" for b :: u_char
    using that by (rule byte_less_exhaust [rotated]) (simp add: upt_rec utf8_lead_def)
  from this [of "of_nat d"] d show ?thesis by (simp add: unsigned_of_nat take_bit_nat_eq_self)
qed

text \<open>\<open>n - 1 < len\<close>: the test that refuses an incomplete sequence.\<close>

lemma utf8_room:
  assumes "of_nat (Suc len) \<le> n" "len < 4"
  shows "\<not> n - 1 < (of_nat len :: u64)"
proof -
  have "unat (of_nat (Suc len) :: u64) = Suc len" "unat (of_nat len :: u64) = len"
    using assms(2) by (simp_all add: unat_of_nat_lt del: of_nat_Suc)
  moreover from this assms(1) have "Suc len \<le> unat n" by (simp add: word_le_nat_alt del: of_nat_Suc)
  moreover from this have "unat (n - 1) = unat n - 1" by (simp add: unat_sub word_le_nat_alt)
  ultimately show ?thesis by (simp add: word_less_nat_alt)
qed

lemma utf8_cont_of_nat:
  "\<lbrakk>a < 2 ^ 26; d < 64\<rbrakk> \<Longrightarrow> utf8_cont (Suc len) (of_nat a) (of_nat (0x80 + d) # p)
    = utf8_cont len (of_nat (a * 64 + d)) p"
  by (subst utf8_cont_step) (simp_all add: unat_of_nat_lt del: of_nat_add of_nat_mult)

lemma utf8_cont_div:
  assumes "v < 2 ^ 32"
  shows "utf8_cont (Suc len) (of_nat (v div 64)) (of_nat (0x80 + v mod 64) # p)
    = utf8_cont len (of_nat v) p"
  using assms utf8_cont_of_nat [of "v div 64" "v mod 64" len p]
  by (simp only: div_mult_mod_eq) simp

lemma utf8_cont_1:
  "u < 2 ^ 32 \<Longrightarrow> utf8_cont 1 (of_nat (u div 64)) (of_nat (0x80 + u mod 64) # p)
    = Some (Some (of_nat u), p)"
  using utf8_cont_div [of u 0 p] by simp

lemma utf8_cont_2:
  "u < 2 ^ 32 \<Longrightarrow> utf8_cont 2 (of_nat (u div 4096))
    (of_nat (0x80 + u div 64 mod 64) # of_nat (0x80 + u mod 64) # p) = Some (Some (of_nat u), p)"
  using utf8_cont_div [of "u div 64" 1 "of_nat (0x80 + u mod 64) # p"] utf8_cont_1 [of u p]
  unfolding Suc_1 div_mult2_eq [symmetric] by simp

lemma utf8_cont_3:
  "u < 2 ^ 32 \<Longrightarrow> utf8_cont 3 (of_nat (u div 262144))
    (of_nat (0x80 + u div 4096 mod 64) # of_nat (0x80 + u div 64 mod 64)
     # of_nat (0x80 + u mod 64) # p) = Some (Some (of_nat u), p)"
  using utf8_cont_div [of "u div 4096" 2
      "of_nat (0x80 + u div 64 mod 64) # of_nat (0x80 + u mod 64) # p"] utf8_cont_2 [of u p]
  unfolding Suc_numeral div_mult2_eq [symmetric] by simp

lemma utf8_decode_step:
  "\<lbrakk>utf8_lead c = Some (u, valid, len); of_nat (Suc len) \<le> n; len < 4;
    utf8_cont len u p = Some (Some v, q); v > valid\<rbrakk>
   \<Longrightarrow> ngx_utf8_decode (c # p) n = Some (v, q)"
  using utf8_room [of len n] by (simp add: ngx_utf8_decode_def)

text \<open>
  ngx_utf8_decode inverts the standard encoding: for every code point of two bytes and
  more, with at least its bytes available, it returns the code point and advances past
  exactly its bytes.
\<close>
theorem ngx_utf8_decode_enc:
  assumes "0x80 \<le> u" "u \<le> 0x10ffff" "of_nat (length (utf8_enc u)) \<le> n"
  shows "ngx_utf8_decode (utf8_enc u @ rest) n = Some (of_nat u, rest)"
proof -
  have less: "(k :: u32) < of_nat u" if "unat k < u" for k
    using that assms(2) by (simp add: word_less_nat_alt unat_of_nat_lt)
  consider "u < 0x800" | "0x800 \<le> u" "u < 0x10000" | "0x10000 \<le> u" by linarith
  then show ?thesis
  proof cases
    case 1
    then have enc: "utf8_enc u = [of_nat (0xc0 + u div 64), of_nat (0x80 + u mod 64)]"
      by (simp add: utf8_enc_def)
    show ?thesis
      unfolding enc append.simps
      by (rule utf8_decode_step [OF utf8_lead_2])
        (use 1 assms less utf8_cont_1 [of u rest] enc in simp_all)
  next
    case 2
    then have enc: "utf8_enc u
      = [of_nat (0xe0 + u div 4096), of_nat (0x80 + u div 64 mod 64), of_nat (0x80 + u mod 64)]"
      by (simp add: utf8_enc_def)
    show ?thesis
      unfolding enc append.simps
      by (rule utf8_decode_step [OF utf8_lead_3])
        (use 2 assms less utf8_cont_2 [of u rest] enc in simp_all)
  next
    case 3
    then have enc: "utf8_enc u
      = [of_nat (0xf0 + u div 262144), of_nat (0x80 + u div 4096 mod 64),
         of_nat (0x80 + u div 64 mod 64), of_nat (0x80 + u mod 64)]"
      by (simp add: utf8_enc_def)
    show ?thesis
      unfolding enc append.simps
      by (rule utf8_decode_step [OF utf8_lead_4])
        (use 3 assms less utf8_cont_3 [of u rest] enc in simp_all)
  qed
qed

theorem ngx_utf8_decode_enc_witness:
  "ngx_utf8_decode [0xe2, 0x82, 0xac, 0x21] 4 = Some (0x20ac, [0x21])"
  using ngx_utf8_decode_enc [of "0x20ac" 4 "[0x21]"] by (simp add: utf8_enc_def)

section \<open>Where the terminating NUL stops the reads\<close>

text \<open>A C string of \<open>n\<close> bytes: no NUL inside, one after it.\<close>

definition c_string :: "bytes \<Rightarrow> bytes \<Rightarrow> bool" where
  "c_string s p \<longleftrightarrow> p = s @ [0] \<and> 0 \<notin> set s"

lemma utf8_cont_c_string:
  assumes "c_string s p"
  shows "\<exists>r q. utf8_cont len u p = Some (r, q) \<and> (r \<noteq> None \<longrightarrow> (\<exists>k. c_string (drop k s) q \<and> k = len \<and> k \<le> length s))"
  using assms
proof (induction len arbitrary: u p s)
  case 0
  then show ?case by auto
next
  case (Suc len)
  show ?case
  proof (cases s)
    case Nil
    with Suc.prems have "p = [0]" by (simp add: c_string_def)
    then show ?thesis by simp
  next
    case (Cons c s')
    with Suc.prems obtain p' where p: "p = c # p'" "c_string s' p'" by (auto simp: c_string_def)
    let ?u = "push_bit 6 u OR (ucast c AND 0x3f) :: u32"
    obtain r q where rq: "utf8_cont len ?u p' = Some (r, q)"
      "r \<noteq> None \<longrightarrow> (\<exists>k. c_string (drop k s') q \<and> k = len \<and> k \<le> length s')"
      using Suc.IH [OF p(2)] by blast
    with p Cons show ?thesis by (cases "ucast c < (0x80 :: u32)") (auto simp: Let_def)
  qed
qed

text \<open>A valid character of a C string lies inside it.\<close>

lemma utf8_decode_c_string:
  assumes "c_string s p" "s \<noteq> []"
  shows "\<exists>u q. ngx_utf8_decode p n = Some (u, q)
    \<and> (u \<le> 0x10ffff \<longrightarrow> (\<exists>k. 0 < k \<and> k \<le> length s \<and> k < 5 \<and> c_string (drop k s) q))"
proof -
  obtain c s' where s: "s = c # s'" using assms(2) by (cases s) auto
  then have p: "p = c # (s' @ [0])" "c_string s' (s' @ [0])"
    using assms(1) by (auto simp: c_string_def)
  show ?thesis
  proof (cases "utf8_lead c")
    case None
    then show ?thesis using p by (simp add: ngx_utf8_decode_def)
  next
    case (Some ul)
    then obtain u v len where lead: "utf8_lead c = Some (u, v, len)" by (cases ul) auto
    then have len: "len < 4" by (auto simp: utf8_lead_def Let_def split: if_splits)
    obtain r q where rq: "utf8_cont len u (s' @ [0]) = Some (r, q)"
      "r \<noteq> None \<longrightarrow> (\<exists>k. c_string (drop k s') q \<and> k = len \<and> k \<le> length s')"
      using utf8_cont_c_string [OF p(2)] by blast
    show ?thesis
    proof (cases r)
      case None
      then show ?thesis using p lead rq by (simp add: ngx_utf8_decode_def)
    next
      case (Some u')
      with rq have "c_string (drop (Suc len) s) q" "Suc len \<le> length s" by (auto simp: s)
      with Some p lead rq len show ?thesis
        by (auto simp: ngx_utf8_decode_def intro!: exI [of _ "Suc len"])
    qed
  qed
qed

lemma utf8_length_loop_c_string:
  assumes "c_string s p" "length s < fuel" "left = int (length s)" "uint len + left < 2 ^ 64"
    "uint len + left \<le> uint n"
  shows "\<exists>l. utf8_length_loop fuel n p left len = Some l \<and> l \<le> n"
  using assms
proof (induction fuel n p left len arbitrary: s rule: utf8_length_loop.induct)
  case (1 n p left len)
  then show ?case by simp
next
  case (2 fuel n p left len)
  show ?case
  proof (cases s)
    case Nil
    with "2.prems" show ?thesis by (simp add: word_le_def)
  next
    case (Cons c s')
    with "2.prems" have p: "p = c # (s' @ [0])" "c_string s' (s' @ [0])"
      and left: "left = int (length s)" "0 < left" by (auto simp: c_string_def)
    have len1: "uint (len + 1) = uint len + 1"
      using left Cons "2.prems"(4) by (simp add: uint_word_ariths mod_pos_pos_trivial)
    show ?thesis
    proof (cases "c < 0x80")
      case True
      have "\<exists>l. utf8_length_loop fuel n (s' @ [0]) (left - 1) (len + 1) = Some l \<and> l \<le> n"
        by (rule "2.IH"(1) [OF _ p(1) True p(2)]) (use left len1 Cons "2.prems" in auto)
      with True left p show ?thesis by simp
    next
      case False
      obtain u q where uq: "ngx_utf8_decode p n = Some (u, q)"
        "u \<le> 0x10ffff \<longrightarrow> (\<exists>k. 0 < k \<and> k \<le> length s \<and> k < 5 \<and> c_string (drop k s) q)"
        using utf8_decode_c_string [OF "2.prems"(1)] Cons by blast
      show ?thesis
      proof (cases "u > 0x10ffff")
        case True
        with uq left p False show ?thesis by simp
      next
        case valid: False
        with uq obtain k where k: "0 < k" "k \<le> length s" "c_string (drop k s) q"
          by (auto simp: not_less)
        then have lq: "length p - length q = k" using p Cons by (auto simp: c_string_def)
        have "\<exists>l. utf8_length_loop fuel n q (left - int k) (len + 1) = Some l \<and> l \<le> n"
          using "2.IH"(2) [OF _ p(1) False uq(1) refl valid k(3)] k left len1 lq "2.prems" by simp
        with valid uq left p False lq show ?thesis by simp
      qed
    qed
  qed
qed

text \<open>
  ngx_utf8_length on a NUL-terminated name of \<open>n\<close> bytes reads nothing past the NUL and
  returns at most \<open>n\<close>, although it gives the decoder the whole length \<open>n\<close> at every
  character: a continuation byte is never the NUL.
\<close>
theorem ngx_utf8_length_safe:
  assumes "0 \<notin> set s" "length s < 2 ^ 64"
  shows "\<exists>l. ngx_utf8_length (s @ [0]) (of_nat (length s)) = Some l \<and> unat l \<le> length s"
proof -
  have n: "uint (of_nat (length s) :: u64) = int (length s)"
    using assms(2) by (simp only: uint_nat) (simp add: unat_of_nat_lt)
  have "\<exists>l. ngx_utf8_length (s @ [0]) (of_nat (length s)) = Some l \<and> l \<le> of_nat (length s)"
    unfolding ngx_utf8_length_def
    by (rule utf8_length_loop_c_string [of s]) (use assms n in \<open>simp_all add: c_string_def\<close>)
  then show ?thesis using assms(2) by (auto simp: word_le_nat_alt unat_of_nat_lt)
qed

theorem ngx_utf8_length_safe_witness:
  "\<exists>l. ngx_utf8_length [0x41, 0xc3, 0] 2 = Some l \<and> unat l \<le> length [0x41, 0xc3 :: u_char]"
  using ngx_utf8_length_safe [of "[0x41, 0xc3]"] by simp

text \<open>
  Without the NUL the incomplete character at the end makes the decoder read past the
  \<open>n\<close> bytes: its own length argument is not what is left of them.
\<close>

lemma ngx_utf8_length_overread: "ngx_utf8_length [0x41, 0xc3] 2 = None"
  by (simp add: ngx_utf8_length_def ngx_utf8_decode_def utf8_lead_def)

end
