(* ===== verification/Upstream_RR.thy ===== *)
theory Upstream_RR
  imports Prelude
begin

text \<open>
  The weighted round robin balancer of src/http/ngx_http_upstream_round_robin.c: choosing a peer
  (ngx_http_upstream_get_peer, ngx_http_upstream_get_round_robin_peer) and giving it back
  (ngx_http_upstream_free_round_robin_peer). The chain of peers is a list, a peer is named by its
  place in it; the bitmap of the peers tried by a request is the array of 64-bit words it is
  in C. ngx_time() is an argument. Peers of one process: no shared zone, so the locks are
  empty. Weights and times are unbounded integers.
\<close>

section \<open>State\<close>

record rr_peer =
  current_weight :: int
  effective_weight :: int
  weight :: int
  conns :: u64
  max_conns :: u64
  fails :: nat
  accessed :: int
  checked :: int
  max_fails :: nat
  fail_timeout :: int
  down :: bool

record rr_peers =
  rr_single :: bool
  rr_peer :: "rr_peer list"

text \<open>\<open>rrp->peers\<close> and its chain of backup peers; \<open>rrp->current\<close>; \<open>rrp->tried\<close>.\<close>

record rr_data =
  rrp_peers :: rr_peers
  rrp_next :: "rr_peers list"
  rrp_current :: "nat option"
  rrp_tried :: "u64 list"

definition tried_bit :: "u64 list \<Rightarrow> nat \<Rightarrow> bool" where
  "tried_bit tried i \<longleftrightarrow> (tried ! (i div 64)) AND push_bit (i mod 64) 1 \<noteq> 0"

definition set_tried :: "u64 list \<Rightarrow> nat \<Rightarrow> u64 list" where
  "set_tried tried p = tried[p div 64 := (tried ! (p div 64)) OR push_bit (p mod 64) 1]"

section \<open>Choosing a peer\<close>

definition peer_usable :: "int \<Rightarrow> u64 list \<Rightarrow> nat \<Rightarrow> rr_peer \<Rightarrow> bool" where
  "peer_usable now tried i peer \<longleftrightarrow>
     (if tried_bit tried i then False
      else if down peer then False
      else if max_fails peer \<noteq> 0 \<and> fails peer \<ge> max_fails peer
              \<and> now - checked peer \<le> fail_timeout peer then False
      else if max_conns peer \<noteq> 0 \<and> conns peer \<ge> max_conns peer then False
      else True)"

text \<open>\<open>peer->current_weight += peer->effective_weight\<close> and the recovery of the effective weight.\<close>

definition peer_advance :: "rr_peer \<Rightarrow> rr_peer" where
  "peer_advance peer =
     (let peer = peer\<lparr>current_weight := current_weight peer + effective_weight peer\<rparr>
      in if effective_weight peer < weight peer
         then peer\<lparr>effective_weight := effective_weight peer + 1\<rparr> else peer)"

text \<open>The loop over the peers from the \<open>i\<close>-th on, with the best so far and the total.\<close>

fun get_peer_loop :: "int \<Rightarrow> u64 list \<Rightarrow> nat \<Rightarrow> (nat \<times> int) option \<Rightarrow> int \<Rightarrow> rr_peer list
    \<Rightarrow> rr_peer list \<times> (nat \<times> int) option \<times> int" where
  "get_peer_loop now tried i best tot [] = ([], best, tot)"
| "get_peer_loop now tried i best tot (peer # peers) =
     (if \<not> peer_usable now tried i peer
      then (let (ps, b, t) = get_peer_loop now tried (i + 1) best tot peers in (peer # ps, b, t))
      else
        (let tot = tot + effective_weight peer;
             peer = peer_advance peer;
             best = (case best of
                       None \<Rightarrow> Some (i, current_weight peer)
                     | Some (j, cw) \<Rightarrow> if current_weight peer > cw then Some (i, current_weight peer) else best);
             (ps, b, t) = get_peer_loop now tried (i + 1) best tot peers
         in (peer # ps, b, t)))"

definition peer_choose :: "int \<Rightarrow> int \<Rightarrow> rr_peer \<Rightarrow> rr_peer" where
  "peer_choose now tot best =
     (let best = best\<lparr>current_weight := current_weight best - tot\<rparr>
      in if now - checked best > fail_timeout best then best\<lparr>checked := now\<rparr> else best)"

definition ngx_http_upstream_get_peer :: "int \<Rightarrow> rr_data \<Rightarrow> rr_data \<times> nat option" where
  "ngx_http_upstream_get_peer now rrp =
     (case get_peer_loop now (rrp_tried rrp) 0 None 0 (rr_peer (rrp_peers rrp)) of
        (ps, None, tot) \<Rightarrow> (rrp\<lparr>rrp_peers := (rrp_peers rrp)\<lparr>rr_peer := ps\<rparr>\<rparr>, None)
      | (ps, Some (p, cw), tot) \<Rightarrow>
          (rrp\<lparr>rrp_peers := (rrp_peers rrp)\<lparr>rr_peer := ps[p := peer_choose now tot (ps ! p)]\<rparr>,
               rrp_current := Some p, rrp_tried := set_tried (rrp_tried rrp) p\<rparr>, Some p))"

text \<open>
  ngx_http_upstream_get_round_robin_peer(): the chosen peer, \<open>None\<close> for NGX_BUSY. When a
  group has no usable peer the next one of backup servers is tried, with the bitmap cleared.
\<close>

definition take_conn :: "rr_data \<Rightarrow> nat \<Rightarrow> rr_data" where
  "take_conn rrp p = rrp\<lparr>rrp_peers := (rrp_peers rrp)\<lparr>rr_peer :=
     (rr_peer (rrp_peers rrp))[p := (rr_peer (rrp_peers rrp) ! p)
       \<lparr>conns := conns (rr_peer (rrp_peers rrp) ! p) + 1\<rparr>]\<rparr>\<rparr>"

definition get_from_group :: "int \<Rightarrow> rr_data \<Rightarrow> rr_data \<times> nat option" where
  "get_from_group now rrp =
     (if rr_single (rrp_peers rrp) then
        (let peer = rr_peer (rrp_peers rrp) ! 0
         in if down peer then (rrp, None)
            else if max_conns peer \<noteq> 0 \<and> conns peer \<ge> max_conns peer then (rrp, None)
            else (rrp\<lparr>rrp_current := Some 0\<rparr>, Some 0))
      else ngx_http_upstream_get_peer now rrp)"

definition clear_tried :: "nat \<Rightarrow> u64 list \<Rightarrow> u64 list" where
  "clear_tried number tried =
     (let n = (number + 63) div 64 in replicate (min n (length tried)) 0 @ drop n tried)"

function ngx_http_upstream_get_round_robin_peer :: "int \<Rightarrow> rr_data \<Rightarrow> rr_data \<times> nat option" where
  "ngx_http_upstream_get_round_robin_peer now rrp =
     (case get_from_group now rrp of
        (rrp', Some p) \<Rightarrow> (take_conn rrp' p, Some p)
      | (rrp', None) \<Rightarrow>
          (case rrp_next rrp of
             [] \<Rightarrow> (rrp', None)
           | peers # next \<Rightarrow>
               ngx_http_upstream_get_round_robin_peer now
                 (rrp'\<lparr>rrp_peers := peers, rrp_next := next,
                       rrp_tried := clear_tried (length (rr_peer peers)) (rrp_tried rrp')\<rparr>)))"
  by pat_completeness auto
termination
  by (relation "measure (\<lambda>(_, rrp). length (rrp_next rrp))") auto

declare ngx_http_upstream_get_round_robin_peer.simps [simp del]

section \<open>Giving it back\<close>

definition peer_failed :: "int \<Rightarrow> rr_peer \<Rightarrow> rr_peer" where
  "peer_failed now peer =
     (let peer = peer\<lparr>fails := fails peer + 1, accessed := now, checked := now\<rparr>;
          peer = (if max_fails peer \<noteq> 0
                  then peer\<lparr>effective_weight := effective_weight peer - weight peer div int (max_fails peer)\<rparr>
                  else peer)
      in if effective_weight peer < 0 then peer\<lparr>effective_weight := 0\<rparr> else peer)"

definition peer_live :: "rr_peer \<Rightarrow> rr_peer" where
  "peer_live peer = (if accessed peer < checked peer then peer\<lparr>fails := 0\<rparr> else peer)"

definition peer_free :: "int \<Rightarrow> bool \<Rightarrow> rr_peer \<Rightarrow> rr_peer" where
  "peer_free now failed peer =
     (let peer = (if failed then peer_failed now peer else peer_live peer)
      in peer\<lparr>conns := conns peer - 1\<rparr>)"

text \<open>The new state and \<open>pc->tries\<close>.\<close>

definition ngx_http_upstream_free_round_robin_peer ::
  "int \<Rightarrow> rr_data \<Rightarrow> bool \<Rightarrow> nat \<Rightarrow> rr_data \<times> nat" where
  "ngx_http_upstream_free_round_robin_peer now rrp failed tries =
     (case rrp_current rrp of
        None \<Rightarrow> (rrp, tries)
      | Some p \<Rightarrow>
          (let ps = rr_peer (rrp_peers rrp); peers = rrp_peers rrp
           in if rr_single peers
              then (rrp\<lparr>rrp_peers := peers\<lparr>rr_peer := ps[p := (ps ! p)\<lparr>conns := conns (ps ! p) - 1\<rparr>]\<rparr>\<rparr>, 0)
              else (rrp\<lparr>rrp_peers := peers\<lparr>rr_peer := ps[p := peer_free now failed (ps ! p)]\<rparr>\<rparr>, tries - 1)))"

section \<open>What the loop computes\<close>

definition usable_at :: "int \<Rightarrow> u64 list \<Rightarrow> nat \<times> rr_peer \<Rightarrow> bool" where
  "usable_at now tried = (\<lambda>(k, peer). peer_usable now tried k peer)"

definition step_peer :: "int \<Rightarrow> u64 list \<Rightarrow> nat \<times> rr_peer \<Rightarrow> rr_peer" where
  "step_peer now tried = (\<lambda>(k, peer). if peer_usable now tried k peer then peer_advance peer else peer)"

definition step_weight :: "int \<Rightarrow> u64 list \<Rightarrow> nat \<times> rr_peer \<Rightarrow> int" where
  "step_weight now tried = (\<lambda>(k, peer). if peer_usable now tried k peer then effective_weight peer else 0)"

lemmas step_defs = usable_at_def step_peer_def step_weight_def

lemma get_peer_loop_peers:
  "get_peer_loop now tried i best tot ps = (ps', best', tot')
   \<Longrightarrow> ps' = map (step_peer now tried) (enumerate i ps)
     \<and> tot' = tot + (\<Sum>x \<leftarrow> enumerate i ps. step_weight now tried x)"
  by (induction now tried i best tot ps arbitrary: ps' rule: get_peer_loop.induct)
    (auto simp: step_defs Let_def split: prod.splits if_splits)

text \<open>The best is the first usable peer of the greatest weight.\<close>

fun first_max :: "(nat \<times> int) option \<Rightarrow> (nat \<times> int) list \<Rightarrow> (nat \<times> int) option" where
  "first_max best [] = best"
| "first_max best (x # xs) =
     first_max (case best of None \<Rightarrow> Some x | Some b \<Rightarrow> if snd x > snd b then Some x else Some b) xs"

lemma first_max_Some:
  "first_max (Some b) xs = r \<Longrightarrow> \<exists>pre x post. r = Some x \<and> b # xs = pre @ x # post
     \<and> (\<forall>y \<in> set pre. snd y < snd x) \<and> (\<forall>y \<in> set post. snd y \<le> snd x)"
proof (induction xs arbitrary: b)
  case Nil
  then have "r = Some b \<and> [b] = [] @ b # []" by simp
  then show ?case by fastforce
next
  case (Cons a xs)
  show ?case
  proof (cases "snd a > snd b")
    case True
    with Cons.prems have "first_max (Some a) xs = r" by simp
    from Cons.IH [OF this] obtain pre x post where r: "r = Some x" "a # xs = pre @ x # post"
      "\<forall>y \<in> set pre. snd y < snd x" "\<forall>y \<in> set post. snd y \<le> snd x" by blast
    then have "snd b < snd x" using True by (cases pre) auto
    with r have "r = Some x \<and> b # a # xs = (b # pre) @ x # post
      \<and> (\<forall>y \<in> set (b # pre). snd y < snd x) \<and> (\<forall>y \<in> set post. snd y \<le> snd x)" by simp
    then show ?thesis by blast
  next
    case False
    with Cons.prems have "first_max (Some b) xs = r" by simp
    from Cons.IH [OF this] obtain pre x post where r: "r = Some x" "b # xs = pre @ x # post"
      "\<forall>y \<in> set pre. snd y < snd x" "\<forall>y \<in> set post. snd y \<le> snd x" by blast
    show ?thesis
    proof (cases pre)
      case Nil
      with r False have "r = Some x \<and> b # a # xs = [] @ x # (a # post)
        \<and> (\<forall>y \<in> set []. snd y < snd x) \<and> (\<forall>y \<in> set (a # post). snd y \<le> snd x)" by auto
      then show ?thesis by blast
    next
      case (Cons c pre')
      with r False have "r = Some x \<and> b # a # xs = (b # a # pre') @ x # post
        \<and> (\<forall>y \<in> set (b # a # pre'). snd y < snd x) \<and> (\<forall>y \<in> set post. snd y \<le> snd x)" by auto
      then show ?thesis by blast
    qed
  qed
qed

definition candidates :: "int \<Rightarrow> u64 list \<Rightarrow> (nat \<times> rr_peer) list \<Rightarrow> (nat \<times> int) list" where
  "candidates now tried xs =
     map (\<lambda>x. (fst x, current_weight (step_peer now tried x))) (filter (usable_at now tried) xs)"

lemma get_peer_loop_best:
  "get_peer_loop now tried i best tot ps = (ps', best', tot')
   \<Longrightarrow> best' = first_max best (candidates now tried (enumerate i ps))"
proof (induction now tried i best tot ps arbitrary: ps' rule: get_peer_loop.induct)
  case (1 now tried i best tot)
  then show ?case by (simp add: candidates_def)
next
  case (2 now tried i best tot peer peers)
  show ?case
  proof (cases "peer_usable now tried i peer")
    case False
    then obtain qs where "get_peer_loop now tried (i + 1) best tot peers = (qs, best', tot')"
      using "2.prems" by (auto split: prod.splits)
    from "2.IH"(1) [OF False this] False show ?thesis by (simp add: candidates_def step_defs)
  next
    case True
    let ?tot = "tot + effective_weight peer" and ?peer = "peer_advance peer"
    let ?best = "case best of None \<Rightarrow> Some (i, current_weight ?peer)
        | Some (j, cw) \<Rightarrow> if current_weight ?peer > cw then Some (i, current_weight ?peer) else best"
    from True obtain qs where "get_peer_loop now tried (i + 1) ?best ?tot peers = (qs, best', tot')"
      using "2.prems" by (auto simp: Let_def split: prod.splits)
    then have "best' = first_max ?best (candidates now tried (enumerate (i + 1) peers))"
      by (rule "2.IH"(2) [OF _ refl refl refl, rotated]) (use True in simp)
    also have "?best = (case best of None \<Rightarrow> Some (i, current_weight ?peer)
        | Some b \<Rightarrow> if current_weight ?peer > snd b then Some (i, current_weight ?peer) else Some b)"
      by (auto split: option.splits)
    finally show ?thesis using True by (simp add: candidates_def step_defs split: option.split)
  qed
qed

text \<open>
  What one call does: the peers with their weights advanced, and the chosen one, which is
  usable, has the greatest weight and is the first such.
\<close>

lemma get_peer_choice:
  assumes "get_peer_loop now tried 0 None 0 ps = (ps', Some (p, cw), tot)"
  shows "p < length ps" "peer_usable now tried p (ps ! p)" "cw = current_weight (ps' ! p)"
    "\<forall>k < length ps. peer_usable now tried k (ps ! k)
       \<longrightarrow> current_weight (ps' ! k) \<le> cw \<and> (k < p \<longrightarrow> current_weight (ps' ! k) < cw)"
proof -
  let ?xs = "filter (usable_at now tried) (enumerate 0 ps)"
  let ?f = "\<lambda>x. (fst x, current_weight (step_peer now tried x))"
  have ps': "ps' = map (step_peer now tried) (enumerate 0 ps)"
    using get_peer_loop_peers [OF assms] by simp
  have nth: "ps' ! k = step_peer now tried (k, ps ! k)" if "k < length ps" for k
    using that by (simp add: ps' nth_enumerate_eq)
  have "first_max None (map ?f ?xs) = Some (p, cw)"
    using get_peer_loop_best [OF assms] by (simp add: candidates_def)
  then obtain b bs where "map ?f ?xs = b # bs" "first_max (Some b) bs = Some (p, cw)"
    by (cases "map ?f ?xs") auto
  with first_max_Some [of b bs "Some (p, cw)"] obtain pre post where split: "map ?f ?xs = pre @ (p, cw) # post"
    "\<forall>y \<in> set pre. snd y < cw" "\<forall>y \<in> set post. snd y \<le> cw" by auto
  have mem: "x \<in> set ?xs \<longleftrightarrow> fst x < length ps \<and> snd x = ps ! fst x \<and> usable_at now tried x" for x
    by (cases x) (auto simp: in_set_enumerate_eq)
  have "(p, cw) \<in> set (map ?f ?xs)" unfolding split by simp
  then obtain x where "x \<in> set ?xs" "fst x = p" "cw = current_weight (step_peer now tried x)" by auto
  moreover from this have "x = (p, ps ! p)" using mem [of x] by (simp add: prod_eq_iff)
  ultimately have x: "(p, ps ! p) \<in> set ?xs" "cw = current_weight (step_peer now tried (p, ps ! p))" by simp_all
  show "p < length ps" using x(1) mem [of "(p, ps ! p)"] by simp
  then show "cw = current_weight (ps' ! p)" using x(2) nth by simp
  show "peer_usable now tried p (ps ! p)" using x(1) by (simp add: usable_at_def)
  have sorted: "sorted_wrt (<) (map fst (map ?f ?xs))"
  proof -
    have "sorted_wrt (<) (map fst (enumerate 0 ps))" by simp
    then have "sorted_wrt (\<lambda>x y. fst x < fst y) (enumerate 0 ps)" unfolding sorted_wrt_map .
    then have "sorted_wrt (<) (map fst ?xs)" unfolding sorted_wrt_map by (rule sorted_wrt_filter)
    then show ?thesis by (simp add: comp_def)
  qed
  show "\<forall>k < length ps. peer_usable now tried k (ps ! k)
       \<longrightarrow> current_weight (ps' ! k) \<le> cw \<and> (k < p \<longrightarrow> current_weight (ps' ! k) < cw)"
  proof (intro allI impI)
    fix k
    assume k: "k < length ps" "peer_usable now tried k (ps ! k)"
    then have "(k, ps ! k) \<in> set ?xs" using mem [of "(k, ps ! k)"] by (simp add: usable_at_def)
    then have "?f (k, ps ! k) \<in> ?f ` set ?xs" by (rule imageI)
    then have "?f (k, ps ! k) \<in> set (pre @ (p, cw) # post)" unfolding split(1) [symmetric] set_map .
    moreover have "?f (k, ps ! k) = (k, current_weight (ps' ! k))" using nth [OF k(1)] by simp
    ultimately have "(k, current_weight (ps' ! k)) \<in> set (pre @ (p, cw) # post)" by (simp only:)
    then consider "(k, current_weight (ps' ! k)) \<in> set pre" | "k = p" "current_weight (ps' ! k) = cw"
      | "(k, current_weight (ps' ! k)) \<in> set post" by auto
    then show "current_weight (ps' ! k) \<le> cw \<and> (k < p \<longrightarrow> current_weight (ps' ! k) < cw)"
    proof cases
      case 1
      with split(2) show ?thesis by fastforce
    next
      case 2
      then show ?thesis by simp
    next
      case 3
      have "p < k" using sorted 3 unfolding split(1) by (auto simp: sorted_wrt_append)
      with 3 split(3) show ?thesis by fastforce
    qed
  qed
qed

lemma get_peer_none:
  assumes "get_peer_loop now tried 0 None 0 ps = (ps', None, tot)"
  shows "ps' = ps" "\<forall>k < length ps. \<not> peer_usable now tried k (ps ! k)"
proof -
  have "first_max None (candidates now tried (enumerate 0 ps)) = None"
    using get_peer_loop_best [OF assms] by simp
  then have "candidates now tried (enumerate 0 ps) = []"
    by (cases "candidates now tried (enumerate 0 ps)") (auto dest: first_max_Some)
  then have none: "\<forall>x \<in> set (enumerate 0 ps). \<not> usable_at now tried x"
    by (auto simp: candidates_def filter_empty_conv)
  then show "\<forall>k < length ps. \<not> peer_usable now tried k (ps ! k)"
    by (auto simp: in_set_enumerate_eq usable_at_def)
  have "map (step_peer now tried) (enumerate 0 ps) = map snd (enumerate 0 ps)"
    using none by (intro map_cong refl) (auto simp: step_defs)
  with get_peer_loop_peers [OF assms] show "ps' = ps" by simp
qed


section \<open>Sums and bounds\<close>

definition weight_sum :: "rr_peer list \<Rightarrow> int" where
  "weight_sum ps = sum_list (map current_weight ps)"

lemma weight_sum_update:
  "p < length ps \<Longrightarrow> weight_sum (ps[p := x]) = weight_sum ps + current_weight x - current_weight (ps ! p)"
  by (induction ps arbitrary: p) (auto simp: weight_sum_def split: nat.split)

lemma peer_choose_weight: "current_weight (peer_choose now tot peer) = current_weight peer - tot"
  by (simp add: peer_choose_def Let_def)

lemma peer_advance_weight: "current_weight (peer_advance peer) = current_weight peer + effective_weight peer"
  by (simp add: peer_advance_def Let_def)

lemma step_peer_sum:
  "weight_sum (map (step_peer now tried) xs)
    = weight_sum (map snd xs) + (\<Sum>x \<leftarrow> xs. step_weight now tried x)"
  by (induction xs) (auto simp: weight_sum_def step_defs peer_advance_weight split: prod.splits)

lemma get_peer_sum:
  "weight_sum (rr_peer (rrp_peers (fst (ngx_http_upstream_get_peer now rrp)))) = weight_sum (rr_peer (rrp_peers rrp))"
proof -
  let ?ps = "rr_peer (rrp_peers rrp)"
  obtain ps' best tot where loop: "get_peer_loop now (rrp_tried rrp) 0 None 0 ?ps = (ps', best, tot)"
    by (metis prod_cases3)
  have sum: "weight_sum ps' = weight_sum ?ps + tot"
    using get_peer_loop_peers [OF loop] step_peer_sum [of now "rrp_tried rrp" "enumerate 0 ?ps"] by simp
  show ?thesis
  proof (cases best)
    case None
    with get_peer_none(1) [OF loop [unfolded None]] loop show ?thesis
      by (simp add: ngx_http_upstream_get_peer_def)
  next
    case (Some pc)
    obtain p cw where pc: "pc = (p, cw)" by fastforce
    have "p < length ps'" using get_peer_choice(1) get_peer_loop_peers loop Some pc by fastforce
    then show ?thesis
      using loop Some pc sum by (simp add: ngx_http_upstream_get_peer_def weight_sum_update peer_choose_weight)
  qed
qed

text \<open>
  C12. ngx_http_upstream_get_peer() chooses, among the peers that are not tried yet, not down,
  not disabled by failures and not at their connection limit, the first one of the greatest
  weight after every such peer got its effective weight; it takes the total from the
  chosen one, so that the sum of the current weights never changes, and marks it as tried.
  It chooses none only if there is no such peer.
\<close>

theorem ngx_http_upstream_get_peer_choice:
  "case ngx_http_upstream_get_peer now rrp of (rrp', chosen) \<Rightarrow>
     weight_sum (rr_peer (rrp_peers rrp')) = weight_sum (rr_peer (rrp_peers rrp)) \<and>
     (let ps = rr_peer (rrp_peers rrp);
          usable = (\<lambda>k. k < length ps \<and> peer_usable now (rrp_tried rrp) k (ps ! k));
          key = (\<lambda>k. current_weight (ps ! k) + effective_weight (ps ! k))
      in case chosen of
           None \<Rightarrow> rrp' = rrp \<and> (\<forall>k. \<not> usable k)
         | Some p \<Rightarrow> usable p \<and> (\<forall>k. usable k \<longrightarrow> key k \<le> key p \<and> (k < p \<longrightarrow> key k < key p))
             \<and> rrp_current rrp' = Some p \<and> rrp_tried rrp' = set_tried (rrp_tried rrp) p)"
proof -
  let ?ps = "rr_peer (rrp_peers rrp)" and ?tried = "rrp_tried rrp"
  obtain ps' best tot where loop: "get_peer_loop now ?tried 0 None 0 ?ps = (ps', best, tot)"
    by (metis prod_cases3)
  have ps': "ps' ! k = (if peer_usable now ?tried k (?ps ! k) then peer_advance (?ps ! k) else ?ps ! k)"
    if "k < length ?ps" for k
    using get_peer_loop_peers [OF loop] that by (simp add: nth_enumerate_eq step_defs)
  note sum = get_peer_sum [of now rrp]
  show ?thesis
  proof (cases best)
    case None
    with loop get_peer_none [OF loop [unfolded None]] sum show ?thesis
      by (simp add: ngx_http_upstream_get_peer_def)
  next
    case (Some pc)
    obtain p cw where pc: "pc = (p, cw)" by fastforce
    note choice = get_peer_choice [OF loop [unfolded Some pc]]
    with loop Some pc sum ps' show ?thesis
      by (auto simp: ngx_http_upstream_get_peer_def peer_advance_weight)
  qed
qed

theorem ngx_http_upstream_get_peer_choice_witness:
  "let peer = (\<lambda>w. \<lparr> current_weight = 0, effective_weight = w, weight = w, conns = 0, max_conns = 0, fails = 0,
          accessed = 0, checked = 0, max_fails = 1, fail_timeout = 10, down = False \<rparr>);
       rrp = \<lparr> rrp_peers = \<lparr> rr_single = False, rr_peer = [peer 5, peer 2, peer 3] \<rparr>, rrp_next = [],
          rrp_current = None, rrp_tried = [1] \<rparr>
   in snd (ngx_http_upstream_get_peer 7 rrp) = Some 2
      \<and> weight_sum (rr_peer (rrp_peers (fst (ngx_http_upstream_get_peer 7 rrp)))) = weight_sum (rr_peer (rrp_peers rrp))"
proof -
  let ?peer = "\<lambda>w. \<lparr> current_weight = 0, effective_weight = w, weight = w, conns = 0, max_conns = 0, fails = 0,
      accessed = 0, checked = 0, max_fails = 1, fail_timeout = 10, down = False \<rparr>"
  let ?rrp = "\<lparr> rrp_peers = \<lparr> rr_single = False, rr_peer = [?peer 5, ?peer 2, ?peer 3] \<rparr>, rrp_next = [],
      rrp_current = None, rrp_tried = [1] \<rparr>"
  obtain rrp' chosen where run: "ngx_http_upstream_get_peer 7 ?rrp = (rrp', chosen)" by fastforce
  have "chosen = Some 2"
    using run by (auto simp: ngx_http_upstream_get_peer_def peer_usable_def tried_bit_def peer_advance_def Let_def)
  with run ngx_http_upstream_get_peer_choice [where now = 7 and rrp = ?rrp] show ?thesis by simp
qed

end
