(* ===== verification/Upstream_RR_Fair.thy ===== *)
theory Upstream_RR_Fair
  imports Upstream_RR
begin

text \<open>
  Fairness of the weighted round robin of Upstream_RR: the contract of a balancer whose peers
  are all usable as the locale smooth_wrr, what it gives, its interpretation on the model's
  get and free operations, and the bounds of the effective weights.
\<close>

section \<open>Fairness\<close>

text \<open>
  The contract of a balancer whose peers are all usable: serving a request gives every peer
  its weight, picks one of the greatest current weight and takes the total from it.
\<close>

locale smooth_wrr =
  fixes alive :: "'s \<Rightarrow> bool"
    and weights :: "'s \<Rightarrow> int list"
    and current :: "'s \<Rightarrow> int list"
    and serve :: "int \<Rightarrow> 's \<Rightarrow> 's \<times> nat"
  assumes alive_weights: "alive s \<Longrightarrow> length (current s) = length (weights s) \<and> (\<forall>w \<in> set (weights s). 0 < w)"
    and serve_alive: "\<lbrakk>alive s; serve t s = (s', p)\<rbrakk> \<Longrightarrow> alive s' \<and> weights s' = weights s \<and> p < length (weights s)"
    and serve_current: "\<lbrakk>alive s; serve t s = (s', p); k < length (weights s)\<rbrakk>
      \<Longrightarrow> current s' ! k = current s ! k + weights s ! k - (if k = p then sum_list (weights s) else 0)"
    and serve_max: "\<lbrakk>alive s; serve t s = (s', p); k < length (weights s)\<rbrakk>
      \<Longrightarrow> current s ! k + weights s ! k \<le> current s ! p + weights s ! p"

lemma sum_list_pos_int: "\<lbrakk>\<forall>w \<in> set ws. 0 < (w :: int); ws \<noteq> []\<rbrakk> \<Longrightarrow> 0 < sum_list ws"
proof (induction ws)
  case (Cons w ws)
  then show ?case by (cases "ws = []") auto
qed simp

text \<open>Requests served one after another, at the given times.\<close>

fun serve_run :: "(int \<Rightarrow> 's \<Rightarrow> 's \<times> nat) \<Rightarrow> int list \<Rightarrow> 's \<Rightarrow> 's \<times> nat list" where
  "serve_run serve [] s = (s, [])"
| "serve_run serve (t # ts) s =
     (let (s1, p) = serve t s; (s2, ps) = serve_run serve ts s1 in (s2, p # ps))"

context smooth_wrr
begin

abbreviation tot :: "'s \<Rightarrow> int" where "tot s \<equiv> sum_list (weights s)"

text \<open>Nobody is ever behind by a whole round.\<close>

definition balanced :: "'s \<Rightarrow> bool" where
  "balanced s \<longleftrightarrow> sum_list (current s) = 0 \<and> (\<forall>k < length (weights s). - tot s < current s ! k)"

lemma tot_pos: "\<lbrakk>alive s; p < length (weights s)\<rbrakk> \<Longrightarrow> 0 < tot s"
proof -
  assume s: "alive s" "p < length (weights s)"
  then have "\<forall>w \<in> set (weights s). 0 < w" using alive_weights by blast
  moreover have "weights s \<noteq> []" using s by auto
  ultimately show ?thesis by (rule sum_list_pos_int)
qed

lemma serve_balanced:
  assumes "alive s" "serve t s = (s', p)" "balanced s"
  shows "balanced s'"
proof -
  let ?n = "length (weights s)" and ?w = "weights s"
  note a = alive_weights [OF assms(1)] and a' = serve_alive [OF assms(1,2)]
  have len: "length (current s) = ?n" "length (current s') = ?n"
    using a a' alive_weights [of s'] by simp_all
  have sum0: "(\<Sum>k < ?n. current s ! k) = 0"
    using assms(3) len by (simp add: balanced_def sum_list_sum_nth atLeast0LessThan)
  have sumw: "(\<Sum>k < ?n. ?w ! k) = tot s" by (simp add: sum_list_sum_nth atLeast0LessThan)
  have "(\<Sum>k < ?n. current s' ! k) = (\<Sum>k < ?n. current s ! k + ?w ! k - (if k = p then tot s else 0))"
    using serve_current [OF assms(1,2)] by (intro sum.cong) auto
  also have "\<dots> = 0"
    using a' sum0 sumw by (simp add: sum.distrib sum_subtractf)
  finally have sum': "sum_list (current s') = 0" using len by (simp add: sum_list_sum_nth atLeast0LessThan)
  have "- tot s < current s' ! k" if k: "k < ?n" for k
  proof (cases "k = p")
    case True
    have "0 < current s ! p + ?w ! p"
    proof (rule ccontr)
      assume "\<not> 0 < current s ! p + ?w ! p"
      then have "(\<Sum>k < ?n. current s ! k + ?w ! k) \<le> 0"
        using serve_max [OF assms(1,2)] by (intro sum_nonpos) fastforce
      then show False using sum0 sumw tot_pos [OF assms(1)] k by (simp add: sum.distrib)
    qed
    then show ?thesis using serve_current [OF assms(1,2) k] True by simp
  next
    case False
    have "0 < ?w ! k" using a k by simp
    then show ?thesis
      using serve_current [OF assms(1,2) k] False assms(3) k by (simp add: balanced_def) fastforce
  qed
  with sum' a' show ?thesis by (simp add: balanced_def)
qed

lemma run_current:
  assumes "alive s" "balanced s" "serve_run serve ts s = (s', ps)"
  shows "alive s' \<and> balanced s' \<and> weights s' = weights s \<and> length ps = length ts
    \<and> set ps \<subseteq> {..< length (weights s)}
    \<and> (\<forall>k < length (weights s). current s' ! k
        = current s ! k + int (length ts) * weights s ! k - tot s * int (count_list ps k))"
  using assms
proof (induction ts arbitrary: s ps)
  case Nil
  then show ?case by simp
next
  case (Cons t ts)
  obtain s1 p where s1: "serve t s = (s1, p)" by fastforce
  with Cons.prems obtain ps1 where ps: "serve_run serve ts s1 = (s', ps1)" "ps = p # ps1"
    by (auto split: prod.splits)
  note a = serve_alive [OF Cons.prems(1) s1]
  note IH = Cons.IH [OF _ serve_balanced [OF Cons.prems(1) s1 Cons.prems(2)] ps(1)]
  then show ?case
    using a ps serve_current [OF Cons.prems(1) s1] by (auto simp: algebra_simps)
qed

lemma run_weights: "\<lbrakk>alive s; serve_run serve ts s = (s', ps)\<rbrakk> \<Longrightarrow> weights s' = weights s"
proof (induction ts arbitrary: s ps)
  case (Cons t ts)
  obtain s1 p where s1: "serve t s = (s1, p)" by fastforce
  with Cons.prems obtain ps1 where "serve_run serve ts s1 = (s', ps1)" by (auto split: prod.splits)
  with Cons.IH [of s1] serve_alive [OF Cons.prems(1) s1] show ?case by simp
qed simp

text \<open>
  After any number of requests a peer has had less than one request more than its share; after
  as many requests as the total weight, each has had exactly its weight.
\<close>

lemma run_share:
  assumes "alive s" "serve_run serve ts s = (s', ps)" "\<forall>k < length (weights s). current s ! k = 0"
    "k < length (weights s)"
  shows "tot s * (int (count_list ps k) - 1) < int (length ts) * weights s ! k"
proof -
  have "balanced s"
    using assms alive_weights [OF assms(1)] tot_pos [OF assms(1,4)]
    by (auto simp: balanced_def sum_list_sum_nth)
  from run_current [OF assms(1) this assms(2)] assms(3,4) show ?thesis
    by (auto simp: balanced_def right_diff_distrib)
qed

lemma run_round:
  assumes "alive s" "serve_run serve ts s = (s', ps)" "\<forall>k < length (weights s). current s ! k = 0"
    "int (length ts) = tot s" "k < length (weights s)"
  shows "int (count_list ps k) = weights s ! k \<and> current s' ! k = 0"
proof -
  let ?n = "length (weights s)"
  have pos: "0 < tot s" using tot_pos [OF assms(1,5)] .
  have b: "balanced s"
    using assms(3) alive_weights [OF assms(1)] pos by (auto simp: balanced_def sum_list_sum_nth)
  note run = run_current [OF assms(1) b assms(2)]
  have le: "int (count_list ps j) \<le> weights s ! j" if "j < ?n" for j
  proof -
    have "tot s * (int (count_list ps j) - 1) < tot s * weights s ! j"
      using run_share [OF assms(1-3) that] assms(4) by simp
    then show ?thesis using pos by simp
  qed
  have "(\<Sum>j < ?n. int (count_list ps j)) = int (length ps)"
  proof -
    have "(\<Sum>j < ?n. count_list ps j) = (\<Sum>j \<in> set ps. count_list ps j)"
      using run by (intro sum.mono_neutral_right) (auto simp: count_list_0_iff)
    then show ?thesis by (simp add: sum_count_set flip: of_nat_sum)
  qed
  also have "\<dots> = (\<Sum>j < ?n. weights s ! j)" using run assms(4) by (simp add: sum_list_sum_nth atLeast0LessThan)
  finally have "int (count_list ps k) = weights s ! k"
    using sum_mono_inv [of "\<lambda>j. int (count_list ps j)" "{..<?n}" "\<lambda>j. weights s ! j" k] le assms(5) by simp
  with run assms(3-5) show ?thesis by simp
qed

end


text \<open>
  A request that succeeds: a peer is chosen, with a fresh bitmap, and given back. All peers
  are usable and recovered (\<open>peers_up\<close>).
\<close>

definition peers_up :: "rr_peer list \<Rightarrow> bool" where
  "peers_up ps \<longleftrightarrow> ps \<noteq> [] \<and> (\<forall>p \<in> set ps. \<not> down p \<and> (max_fails p = 0 \<or> fails p < max_fails p)
     \<and> max_conns p = 0 \<and> effective_weight p = weight p \<and> 0 < weight p)"

definition rr_init :: "rr_peer list \<Rightarrow> rr_data" where
  "rr_init ps = \<lparr> rrp_peers = \<lparr> rr_single = False, rr_peer = ps \<rparr>, rrp_next = [], rrp_current = None,
     rrp_tried = replicate ((length ps + 63) div 64) 0 \<rparr>"

definition rr_serve :: "int \<Rightarrow> rr_peer list \<Rightarrow> rr_peer list \<times> nat" where
  "rr_serve now ps =
     (case ngx_http_upstream_get_round_robin_peer now (rr_init ps) of
        (rrp, Some p) \<Rightarrow>
          (rr_peer (rrp_peers (fst (ngx_http_upstream_free_round_robin_peer now rrp False 1))), p)
      | (rrp, None) \<Rightarrow> (rr_peer (rrp_peers rrp), length ps))"

lemma tried_bit_zero: "i < n \<Longrightarrow> \<not> tried_bit (replicate ((n + 63) div 64) 0) i"
proof -
  assume "i < n"
  then have "i div 64 < (n + 63) div 64" by linarith
  then show ?thesis by (simp add: tried_bit_def)
qed

lemma up_usable:
  assumes "peers_up ps" "k < length ps"
  shows "peer_usable now (replicate ((length ps + 63) div 64) 0) k (ps ! k)"
proof -
  have "\<not> down (ps ! k)" "max_fails (ps ! k) = 0 \<or> fails (ps ! k) < max_fails (ps ! k)" "max_conns (ps ! k) = 0"
    using assms(1) nth_mem [OF assms(2)] by (auto simp: peers_up_def)
  then show ?thesis using tried_bit_zero [OF assms(2)] by (auto simp: peer_usable_def)
qed

text \<open>The state after such a request.\<close>

lemma rr_serve_up:
  assumes up: "peers_up ps" and serve: "rr_serve now ps = (ps', p)"
  shows "p < length ps" "length ps' = length ps"
    "\<forall>k < length ps. current_weight (ps ! k) + weight (ps ! k) \<le> current_weight (ps ! p) + weight (ps ! p)"
    "\<forall>k < length ps. current_weight (ps' ! k) = current_weight (ps ! k) + weight (ps ! k)
       - (if k = p then sum_list (map weight ps) else 0) \<and> weight (ps' ! k) = weight (ps ! k)
       \<and> effective_weight (ps' ! k) = weight (ps ! k) \<and> down (ps' ! k) = down (ps ! k)
       \<and> max_fails (ps' ! k) = max_fails (ps ! k) \<and> max_conns (ps' ! k) = max_conns (ps ! k)
       \<and> (fails (ps' ! k) = fails (ps ! k) \<or> fails (ps' ! k) = 0)"
proof -
  let ?tried = "replicate ((length ps + 63) div 64) 0"
  obtain qs best t where loop: "get_peer_loop now ?tried 0 None 0 ps = (qs, best, t)"
    by (metis prod_cases3)
  have us: "peer_usable now ?tried k (ps ! k)" if "k < length ps" for k using up that by (rule up_usable)
  have eff: "effective_weight (ps ! k) = weight (ps ! k)" if "k < length ps" for k
    using up nth_mem [OF that] by (auto simp: peers_up_def)
  note spec = get_peer_loop_peers [OF loop]
  have qs: "length qs = length ps" "\<And>k. k < length ps \<Longrightarrow> qs ! k = (ps ! k)\<lparr>current_weight := current_weight (ps ! k) + weight (ps ! k)\<rparr>"
    using spec us eff by (simp_all add: nth_enumerate_eq step_defs peer_advance_def)
  have t: "t = sum_list (map weight ps)"
  proof -
    have "(\<Sum>x \<leftarrow> enumerate 0 ps. step_weight now ?tried x) = (\<Sum>x \<leftarrow> enumerate 0 ps. weight (snd x))"
      using us eff by (intro arg_cong [of _ _ sum_list] map_cong refl)
        (auto simp: in_set_enumerate_eq step_defs)
    also have "\<dots> = sum_list (map weight (map snd (enumerate 0 ps)))" unfolding map_map comp_def ..
    finally show ?thesis using spec by simp
  qed
  have "0 < length ps" using up by (simp add: peers_up_def)
  have "best \<noteq> None"
  proof
    assume none: "best = None"
    from get_peer_none(2) [OF loop [unfolded none]] us [OF \<open>0 < length ps\<close>] \<open>0 < length ps\<close>
    show False by simp
  qed
  then obtain q cw where best: "best = Some (q, cw)" by auto
  note choice = get_peer_choice [OF loop [unfolded best]]
  let ?q = "peer_free now False ((peer_choose now t (qs ! q))\<lparr>conns := conns (peer_choose now t (qs ! q)) + 1\<rparr>)"
  have "rr_serve now ps = (qs[q := ?q], q)"
    using loop best choice(1) qs(1)
    unfolding rr_serve_def
    by (subst ngx_http_upstream_get_round_robin_peer.simps) (simp add: get_from_group_def ngx_http_upstream_get_peer_def rr_init_def take_conn_def ngx_http_upstream_free_round_robin_peer_def Let_def)
  with serve have p: "p = q" "ps' = qs[q := ?q]" by (metis prod.inject)+
  show "p < length ps" "length ps' = length ps" using p choice(1) qs(1) by simp_all
  show "\<forall>k < length ps. current_weight (ps ! k) + weight (ps ! k) \<le> current_weight (ps ! p) + weight (ps ! p)"
    using choice(1,3,4) us qs(2) p(1) by fastforce
  show "\<forall>k < length ps. current_weight (ps' ! k) = current_weight (ps ! k) + weight (ps ! k)
       - (if k = p then sum_list (map weight ps) else 0) \<and> weight (ps' ! k) = weight (ps ! k)
       \<and> effective_weight (ps' ! k) = weight (ps ! k) \<and> down (ps' ! k) = down (ps ! k)
       \<and> max_fails (ps' ! k) = max_fails (ps ! k) \<and> max_conns (ps' ! k) = max_conns (ps ! k)
       \<and> (fails (ps' ! k) = fails (ps ! k) \<or> fails (ps' ! k) = 0)"
    using p qs t eff
    by (auto simp: nth_list_update peer_free_def peer_live_def peer_choose_def Let_def)
qed

interpretation rr: smooth_wrr peers_up "map weight" "map current_weight" rr_serve
proof
  fix s s' :: "rr_peer list" and t p k
  show "length (map current_weight s) = length (map weight s) \<and> (\<forall>w \<in> set (map weight s). 0 < w)"
    if "peers_up s" using that by (auto simp: peers_up_def)
  assume s: "peers_up s" "rr_serve t s = (s', p)"
  note spec = rr_serve_up [OF s]
  have "map weight s' = map weight s" using spec(2,4) by (simp add: list_eq_iff_nth_eq)
  moreover have "peers_up s'"
    unfolding peers_up_def all_set_conv_all_nth
  proof (intro conjI allI impI)
    show "s' \<noteq> []" using s(1) spec(2) by (auto simp: peers_up_def)
    fix i
    assume i: "i < length s'"
    then have up: "\<not> down (s ! i)" "max_fails (s ! i) = 0 \<or> fails (s ! i) < max_fails (s ! i)"
      "max_conns (s ! i) = 0" "0 < weight (s ! i)"
      using s(1) spec(2) nth_mem [of i s] by (auto simp: peers_up_def)
    with spec(2,4) i show "\<not> down (s' ! i)" "max_conns (s' ! i) = 0"
      "effective_weight (s' ! i) = weight (s' ! i)" "0 < weight (s' ! i)" by simp_all
    have "fails (s' ! i) = fails (s ! i) \<or> fails (s' ! i) = 0" "max_fails (s' ! i) = max_fails (s ! i)"
      using spec(2,4) i by auto
    with up(2) show "max_fails (s' ! i) = 0 \<or> fails (s' ! i) < max_fails (s' ! i)" by (auto intro: gr0I)
  qed
  ultimately show "peers_up s' \<and> map weight s' = map weight s \<and> p < length (map weight s)"
    using spec(1) by simp
  show "map current_weight s' ! k = map current_weight s ! k + map weight s ! k
      - (if k = p then sum_list (map weight s) else 0)" if "k < length (map weight s)"
    using that spec by simp
  show "map current_weight s ! k + map weight s ! k \<le> map current_weight s ! p + map weight s ! p"
    if "k < length (map weight s)"
    using that spec by simp
qed

text \<open>
  C13. Weighted round robin is fair and smooth: when all peers are usable and requests succeed,
  then after any number of requests each peer has been chosen less than once more than its
  share weight / total, and after as many requests as the total weight each has been
  chosen exactly weight times and the current weights are back where they started.
\<close>

theorem ngx_http_upstream_round_robin_fair:
  assumes "peers_up ps" "\<forall>p \<in> set ps. current_weight p = 0" "serve_run rr_serve ts ps = (ps', chosen)"
    "k < length ps"
  shows "sum_list (map weight ps) * (int (count_list chosen k) - 1) < int (length ts) * weight (ps ! k)
    \<and> (int (length ts) = sum_list (map weight ps)
       \<longrightarrow> int (count_list chosen k) = weight (ps ! k) \<and> current_weight (ps' ! k) = 0)"
proof -
  have zero: "\<forall>k < length (map weight ps). map current_weight ps ! k = 0" using assms(2) by simp
  have "map weight ps' = map weight ps" using rr.run_weights [OF assms(1,3)] .
  then have "length ps' = length ps" by (metis length_map)
  then show ?thesis
    using rr.run_share [OF assms(1,3) zero, of k] rr.run_round [OF assms(1,3) zero, of k] assms(4)
    by auto
qed


theorem ngx_http_upstream_round_robin_fair_witness:
  "\<exists>ps' chosen. serve_run rr_serve [7, 8, 9] [
      \<lparr> current_weight = 0, effective_weight = 2, weight = 2, conns = 0, max_conns = 0, fails = 0, accessed = 0,
        checked = 0, max_fails = 1, fail_timeout = 10, down = False \<rparr>,
      \<lparr> current_weight = 0, effective_weight = 1, weight = 1, conns = 0, max_conns = 0, fails = 0, accessed = 0,
        checked = 0, max_fails = 1, fail_timeout = 10, down = False \<rparr>] = (ps', chosen)
    \<and> count_list chosen 0 = 2 \<and> current_weight (ps' ! 0) = 0"
proof -
  let ?ps = "[\<lparr> current_weight = 0, effective_weight = 2, weight = 2, conns = 0, max_conns = 0, fails = 0,
        accessed = 0, checked = 0, max_fails = 1, fail_timeout = 10, down = False \<rparr>,
      \<lparr> current_weight = 0, effective_weight = 1, weight = 1, conns = 0, max_conns = 0, fails = 0, accessed = 0,
        checked = 0, max_fails = 1, fail_timeout = 10, down = False \<rparr>]"
  obtain ps' chosen where run: "serve_run rr_serve [7, 8, 9] ?ps = (ps', chosen)" by fastforce
  have "peers_up ?ps" by (simp add: peers_up_def)
  from ngx_http_upstream_round_robin_fair [OF this _ run, of 0] run show ?thesis by simp
qed

section \<open>Effective weights\<close>

definition weight_ok :: "rr_peer \<Rightarrow> bool" where
  "weight_ok p \<longleftrightarrow> 0 \<le> effective_weight p \<and> effective_weight p \<le> weight p"

definition weights_ok :: "rr_data \<Rightarrow> bool" where
  "weights_ok rrp \<longleftrightarrow> (\<forall>peers \<in> set (rrp_peers rrp # rrp_next rrp). \<forall>p \<in> set (rr_peer peers). weight_ok p)"

lemma weight_ok_step:
  "weight_ok p \<Longrightarrow> weight_ok (peer_advance p)"
  "weight_ok p \<Longrightarrow> weight_ok (peer_choose now t p)"
  "weight_ok p \<Longrightarrow> weight_ok (peer_free now failed p)"
  "weight_ok p \<Longrightarrow> weight_ok (p\<lparr>conns := c\<rparr>)"
proof -
  show "weight_ok p \<Longrightarrow> weight_ok (peer_free now failed p)"
  proof -
    assume "weight_ok p"
    moreover have "0 \<le> weight p div int (max_fails p)" if "0 \<le> weight p"
      using that by (simp add: pos_imp_zdiv_nonneg_iff div_int_pos_iff)
    ultimately show ?thesis
      by (auto simp: weight_ok_def peer_free_def peer_failed_def peer_live_def Let_def)
  qed
qed (auto simp: weight_ok_def peer_advance_def peer_choose_def Let_def)

lemma weights_ok_update:
  "\<lbrakk>\<forall>p \<in> set ps. weight_ok p; k < length ps \<Longrightarrow> weight_ok x\<rbrakk> \<Longrightarrow> \<forall>p \<in> set (ps[k := x]). weight_ok p"
  by (cases "k < length ps") (auto dest!: subsetD [OF set_update_subset_insert] simp: list_update_beyond)

lemma get_peer_weights_ok:
  assumes "\<forall>p \<in> set (rr_peer (rrp_peers rrp)). weight_ok p"
  shows "\<forall>p \<in> set (rr_peer (rrp_peers (fst (ngx_http_upstream_get_peer now rrp)))). weight_ok p"
proof -
  let ?ps = "rr_peer (rrp_peers rrp)"
  obtain qs best t where loop: "get_peer_loop now (rrp_tried rrp) 0 None 0 ?ps = (qs, best, t)"
    by (metis prod_cases3)
  have qs: "\<forall>p \<in> set qs. weight_ok p"
    using get_peer_loop_peers [OF loop] assms
    by (auto simp: in_set_enumerate_eq step_defs intro!: weight_ok_step(1))
  show ?thesis
  proof (cases best)
    case None
    with loop qs show ?thesis by (simp add: ngx_http_upstream_get_peer_def)
  next
    case (Some pc)
    obtain k cw where "pc = (k, cw)" by fastforce
    with loop Some weights_ok_update [OF qs, of k "peer_choose now t (qs ! k)"] qs
    show ?thesis by (simp add: ngx_http_upstream_get_peer_def weight_ok_step)
  qed
qed

lemma group_ok_update:
  "\<lbrakk>weights_ok rrp; k < length (rr_peer (rrp_peers rrp)) \<Longrightarrow> weight_ok x\<rbrakk>
   \<Longrightarrow> weights_ok (rrp\<lparr>rrp_peers := (rrp_peers rrp)\<lparr>rr_peer := (rr_peer (rrp_peers rrp))[k := x]\<rparr>\<rparr>)"
  using weights_ok_update [of "rr_peer (rrp_peers rrp)" k x] by (simp add: weights_ok_def)

lemma weights_ok_nth: "\<lbrakk>weights_ok rrp; k < length (rr_peer (rrp_peers rrp))\<rbrakk> \<Longrightarrow> weight_ok (rr_peer (rrp_peers rrp) ! k)"
  by (simp add: weights_ok_def)

lemma get_from_group_ok:
  "weights_ok rrp \<Longrightarrow> weights_ok (fst (get_from_group now rrp)) \<and> rrp_next (fst (get_from_group now rrp)) = rrp_next rrp"
  using get_peer_weights_ok [of rrp now]
  by (auto simp: get_from_group_def weights_ok_def Let_def ngx_http_upstream_get_peer_def
      split: prod.splits option.splits)

lemma get_round_robin_ok: "weights_ok rrp \<Longrightarrow> weights_ok (fst (ngx_http_upstream_get_round_robin_peer now rrp))"
proof (induction now rrp rule: ngx_http_upstream_get_round_robin_peer.induct)
  case (1 now rrp)
  obtain rrp' r where g: "get_from_group now rrp = (rrp', r)" by fastforce
  with get_from_group_ok [OF "1.prems", of now] have ok: "weights_ok rrp'" "rrp_next rrp' = rrp_next rrp" by simp_all
  show ?case
  proof (cases r)
    case (Some p)
    have "weights_ok (take_conn rrp' p)"
      unfolding take_conn_def by (rule group_ok_update [OF ok(1)]) (rule weight_ok_step, rule weights_ok_nth [OF ok(1)])
    with g Some show ?thesis by (subst ngx_http_upstream_get_round_robin_peer.simps) simp
  next
    case None
    show ?thesis
    proof (cases "rrp_next rrp")
      case Nil
      with g None ok show ?thesis by (subst ngx_http_upstream_get_round_robin_peer.simps) simp
    next
      case (Cons peers rest)
      let ?rrp = "rrp'\<lparr>rrp_peers := peers, rrp_next := rest,
          rrp_tried := clear_tried (length (rr_peer peers)) (rrp_tried rrp')\<rparr>"
      have "weights_ok ?rrp" using ok Cons by (simp add: weights_ok_def)
      then have "weights_ok (fst (ngx_http_upstream_get_round_robin_peer now ?rrp))"
        using "1.IH" [OF g [symmetric] None Cons] by simp
      with g None Cons show ?thesis by (subst ngx_http_upstream_get_round_robin_peer.simps) simp
    qed
  qed
qed

text \<open>
  C14. Choosing and freeing peers, failed or not, keeps every effective weight between 0 and the configured
  weight.
\<close>

theorem ngx_http_upstream_round_robin_weights:
  assumes "weights_ok rrp"
  shows "weights_ok (fst (ngx_http_upstream_get_round_robin_peer now rrp))
    \<and> weights_ok (fst (ngx_http_upstream_free_round_robin_peer now rrp failed tries))"
proof
  show "weights_ok (fst (ngx_http_upstream_get_round_robin_peer now rrp))"
    using assms by (rule get_round_robin_ok)
  have "weights_ok (fst (ngx_http_upstream_free_round_robin_peer now rrp failed tries))"
    if "rrp_current rrp = Some p" for p
    using group_ok_update [OF assms, of p] weights_ok_nth [OF assms, of p] that
    by (simp add: ngx_http_upstream_free_round_robin_peer_def Let_def weight_ok_step)
  with assms show "weights_ok (fst (ngx_http_upstream_free_round_robin_peer now rrp failed tries))"
    by (cases "rrp_current rrp") (simp_all add: ngx_http_upstream_free_round_robin_peer_def)
qed

theorem ngx_http_upstream_round_robin_weights_witness:
  "weights_ok (fst (ngx_http_upstream_free_round_robin_peer 5
     ((rr_init [\<lparr> current_weight = 0, effective_weight = 2, weight = 2, conns = 1, max_conns = 0, fails = 0,
       accessed = 0, checked = 0, max_fails = 1, fail_timeout = 10, down = False \<rparr>])\<lparr>rrp_current := Some 0\<rparr>) True 1))"
  by (rule ngx_http_upstream_round_robin_weights [THEN conjunct2])
    (simp add: weights_ok_def rr_init_def weight_ok_def)

end
