(* ===== verification/V2_Table.thy ===== *)
theory V2_Table
  imports Prelude
begin

text \<open>
  The header tables of HTTP/2, src/http/v2/ngx_http_v2_table.c: the static table and the dynamic
  one of a connection, a ring of pointers to entries whose names and values lie in a ring of 4096 bytes.
  Entries are allocated once and reused, so they are cells of a store and the ring holds their
  addresses. A position in the storage is an offset; the end of the storage is a position too.
  The counters \<open>added\<close>, \<open>deleted\<close> and \<open>reused\<close> are natural numbers: no connection adds
  \<open>2 ^ 64\<close> headers.
\<close>

type_synonym v2_header = "bytes \<times> bytes"

abbreviation (input) NGX_HTTP_V2_TABLE_SIZE :: nat where "NGX_HTTP_V2_TABLE_SIZE \<equiv> 4096"

section \<open>The tables\<close>

definition ngx_http_v2_static_table :: "v2_header list" where
  "ngx_http_v2_static_table = [
    (bytes_of '':authority'', []),
    (bytes_of '':method'', bytes_of ''GET''),
    (bytes_of '':method'', bytes_of ''POST''),
    (bytes_of '':path'', bytes_of ''/''),
    (bytes_of '':path'', bytes_of ''/index.html''),
    (bytes_of '':scheme'', bytes_of ''http''),
    (bytes_of '':scheme'', bytes_of ''https''),
    (bytes_of '':status'', bytes_of ''200''),
    (bytes_of '':status'', bytes_of ''204''),
    (bytes_of '':status'', bytes_of ''206''),
    (bytes_of '':status'', bytes_of ''304''),
    (bytes_of '':status'', bytes_of ''400''),
    (bytes_of '':status'', bytes_of ''404''),
    (bytes_of '':status'', bytes_of ''500''),
    (bytes_of ''accept-charset'', []),
    (bytes_of ''accept-encoding'', bytes_of ''gzip, deflate''),
    (bytes_of ''accept-language'', []),
    (bytes_of ''accept-ranges'', []),
    (bytes_of ''accept'', []),
    (bytes_of ''access-control-allow-origin'', []),
    (bytes_of ''age'', []),
    (bytes_of ''allow'', []),
    (bytes_of ''authorization'', []),
    (bytes_of ''cache-control'', []),
    (bytes_of ''content-disposition'', []),
    (bytes_of ''content-encoding'', []),
    (bytes_of ''content-language'', []),
    (bytes_of ''content-length'', []),
    (bytes_of ''content-location'', []),
    (bytes_of ''content-range'', []),
    (bytes_of ''content-type'', []),
    (bytes_of ''cookie'', []),
    (bytes_of ''date'', []),
    (bytes_of ''etag'', []),
    (bytes_of ''expect'', []),
    (bytes_of ''expires'', []),
    (bytes_of ''from'', []),
    (bytes_of ''host'', []),
    (bytes_of ''if-match'', []),
    (bytes_of ''if-modified-since'', []),
    (bytes_of ''if-none-match'', []),
    (bytes_of ''if-range'', []),
    (bytes_of ''if-unmodified-since'', []),
    (bytes_of ''last-modified'', []),
    (bytes_of ''link'', []),
    (bytes_of ''location'', []),
    (bytes_of ''max-forwards'', []),
    (bytes_of ''proxy-authenticate'', []),
    (bytes_of ''proxy-authorization'', []),
    (bytes_of ''range'', []),
    (bytes_of ''referer'', []),
    (bytes_of ''refresh'', []),
    (bytes_of ''retry-after'', []),
    (bytes_of ''server'', []),
    (bytes_of ''set-cookie'', []),
    (bytes_of ''strict-transport-security'', []),
    (bytes_of ''transfer-encoding'', []),
    (bytes_of ''user-agent'', []),
    (bytes_of ''vary'', []),
    (bytes_of ''via'', []),
    (bytes_of ''www-authenticate'', [])]"

abbreviation (input) NGX_HTTP_V2_STATIC_TABLE_ENTRIES :: nat where
  "NGX_HTTP_V2_STATIC_TABLE_ENTRIES \<equiv> 61"

text \<open>An entry points into the storage.\<close>

record v2_entry =
  name_data :: nat
  name_len :: nat
  value_data :: nat
  value_len :: nat

text \<open>
  The members of \<open>h2c->hpack\<close>: \<open>entries\<close> is empty while the pointer is NULL; \<open>hp_store\<close> are the
  entries allocated so far, at their addresses.
\<close>

record hpack =
  hp_entries :: "nat list"
  hp_added :: nat
  hp_deleted :: nat
  hp_reused :: nat
  hp_allocated :: nat
  hp_size :: nat
  hp_free :: nat
  hp_storage :: bytes
  hp_pos :: nat
  hp_store :: "v2_entry list"

definition hpack_zero :: hpack where
  "hpack_zero = \<lparr>hp_entries = [], hp_added = 0, hp_deleted = 0, hp_reused = 0, hp_allocated = 0,
     hp_size = 0, hp_free = 0, hp_storage = [], hp_pos = 0, hp_store = []\<rparr>"

text \<open>The entry of a running number.\<close>

definition hp_entry :: "hpack \<Rightarrow> nat \<Rightarrow> v2_entry" where
  "hp_entry h i = hp_store h ! (hp_entries h ! (i mod hp_allocated h))"

section \<open>Looking up\<close>

text \<open>The two ngx_cpymem() of a string that may wrap around the end of the storage.\<close>

definition ring_read :: "bytes \<Rightarrow> nat \<Rightarrow> nat \<Rightarrow> bytes" where
  "ring_read st data len =
     (let rest = NGX_HTTP_V2_TABLE_SIZE - data
      in if len > rest then take rest (drop data st) @ take (len - rest) st
         else take len (drop data st))"

text \<open>\<open>None\<close> is NGX_ERROR, otherwise the new \<open>state.header\<close>; with \<open>name_only\<close> its value stays.\<close>

definition ngx_http_v2_get_indexed_header :: "hpack \<Rightarrow> v2_header \<Rightarrow> nat \<Rightarrow> bool \<Rightarrow> v2_header option" where
  "ngx_http_v2_get_indexed_header h header index name_only =
     (if index = 0 then None
      else
        (let index = index - 1
         in if index < NGX_HTTP_V2_STATIC_TABLE_ENTRIES then Some (ngx_http_v2_static_table ! index)
            else
              (let index = index - NGX_HTTP_V2_STATIC_TABLE_ENTRIES
               in if index < hp_added h - hp_deleted h then
                    (let entry = hp_entry h (hp_added h - index - 1);
                         name = ring_read (hp_storage h) (name_data entry) (name_len entry)
                     in if name_only then Some (name, snd header)
                        else Some (name, ring_read (hp_storage h) (value_data entry) (value_len entry)))
                  else None)))"

section \<open>Accounting\<close>

text \<open>The body of both eviction loops: the oldest entry is given up.\<close>

definition hp_evict :: "hpack \<Rightarrow> hpack" where
  "hp_evict h =
     (let entry = hp_entry h (hp_deleted h)
      in h\<lparr>hp_deleted := hp_deleted h + 1, hp_free := hp_free h + (32 + name_len entry + value_len entry)\<rparr>)"

text \<open>
  The loops, with the number of entries as fuel: \<open>None\<close> is a loop that goes on past the newest
  entry.
\<close>

fun evict_do :: "nat \<Rightarrow> nat \<Rightarrow> hpack \<Rightarrow> hpack option" where
  "evict_do 0 sz h = None"
| "evict_do (Suc fuel) sz h = (let h = hp_evict h in if sz > hp_free h then evict_do fuel sz h else Some h)"

fun evict_while :: "nat \<Rightarrow> int \<Rightarrow> hpack \<Rightarrow> hpack option" where
  "evict_while fuel needed h =
     (if needed > int (hp_free h)
      then (case fuel of 0 \<Rightarrow> None | Suc fuel \<Rightarrow> evict_while fuel needed (hp_evict h))
      else Some h)"

text \<open>The flag is \<open>False\<close> for NGX_DECLINED.\<close>

definition ngx_http_v2_table_account :: "hpack \<Rightarrow> nat \<Rightarrow> (hpack \<times> bool) option" where
  "ngx_http_v2_table_account h sz =
     (let sz = sz + 32
      in if sz \<le> hp_free h then Some (h\<lparr>hp_free := hp_free h - sz\<rparr>, True)
         else if sz > hp_size h then Some (h\<lparr>hp_deleted := hp_added h, hp_free := hp_size h\<rparr>, False)
         else
           (case evict_do (hp_added h - hp_deleted h) sz h of
              None \<Rightarrow> None
            | Some h \<Rightarrow> Some (h\<lparr>hp_free := hp_free h - sz\<rparr>, True)))"

text \<open>\<open>None\<close> is NGX_ERROR or a runaway loop.\<close>

definition ngx_http_v2_table_size :: "hpack \<Rightarrow> nat \<Rightarrow> hpack option" where
  "ngx_http_v2_table_size h sz =
     (if sz > NGX_HTTP_V2_TABLE_SIZE then None
      else
        (let needed = int (hp_size h) - int sz
         in case evict_while (hp_added h - hp_deleted h) needed h of
              None \<Rightarrow> None
            | Some h \<Rightarrow> Some (h\<lparr>hp_size := sz, hp_free := nat (int (hp_free h) - needed)\<rparr>)))"

section \<open>Adding\<close>

definition splice :: "bytes \<Rightarrow> nat \<Rightarrow> bytes \<Rightarrow> bytes" where
  "splice st p bs = take p st @ bs @ drop (p + length bs) st"

text \<open>One string is copied to \<open>pos\<close>: the storage, the new \<open>pos\<close> and \<open>avail\<close> as the code has it.\<close>

definition ring_write :: "bytes \<Rightarrow> nat \<Rightarrow> nat \<Rightarrow> bytes \<Rightarrow> bytes \<times> nat \<times> nat" where
  "ring_write st pos avail bs =
     (if avail \<ge> length bs then (splice st pos bs, pos + length bs, avail)
      else (splice (splice st pos (take avail bs)) 0 (drop avail bs), length bs - avail, NGX_HTTP_V2_TABLE_SIZE))"

text \<open>The ring of pointers with room for 64 more.\<close>

definition hp_grow :: "hpack \<Rightarrow> hpack" where
  "hp_grow h =
     (let index = hp_deleted h mod hp_allocated h
      in h\<lparr>hp_entries := drop index (hp_entries h) @ take index (hp_entries h) @ replicate 64 0,
           hp_added := hp_allocated h, hp_deleted := 0, hp_reused := 0, hp_allocated := hp_allocated h + 64\<rparr>)"

definition hp_start :: "hpack \<Rightarrow> hpack" where
  "hp_start h =
     h\<lparr>hp_allocated := 64, hp_size := NGX_HTTP_V2_TABLE_SIZE, hp_free := NGX_HTTP_V2_TABLE_SIZE,
       hp_entries := replicate 64 0, hp_storage := replicate NGX_HTTP_V2_TABLE_SIZE 0, hp_pos := 0\<rparr>"

text \<open>The cell for the new entry: a fresh one, or the oldest of those given up and not reused yet.\<close>

definition hp_cell :: "hpack \<Rightarrow> nat \<times> hpack" where
  "hp_cell h =
     (if hp_reused h = hp_deleted h
      then (length (hp_store h), h\<lparr>hp_store := hp_store h @ [\<lparr>name_data = 0, name_len = 0, value_data = 0, value_len = 0\<rparr>]\<rparr>)
      else (hp_entries h ! (hp_reused h mod hp_allocated h), h\<lparr>hp_reused := hp_reused h + 1\<rparr>))"

definition hp_insert :: "hpack \<Rightarrow> v2_header \<Rightarrow> hpack" where
  "hp_insert h = (\<lambda>(name, val).
     let (entry, h) = hp_cell h;
         name_data = hp_pos h;
         (st, pos, avail) = ring_write (hp_storage h) (hp_pos h) (NGX_HTTP_V2_TABLE_SIZE - hp_pos h) name;
         avail = avail - length name;
         value_data = pos;
         (st, pos, _) = ring_write st pos avail val;
         h = h\<lparr>hp_storage := st, hp_pos := pos,
               hp_store := (hp_store h)[entry := \<lparr>name_data = name_data, name_len = length name,
                 value_data = value_data, value_len = length val\<rparr>]\<rparr>;
         h = (if hp_allocated h = hp_added h - hp_deleted h then hp_grow h else h)
     in h\<lparr>hp_entries := (hp_entries h)[hp_added h mod hp_allocated h := entry], hp_added := hp_added h + 1\<rparr>)"

text \<open>\<open>None\<close> is a runaway loop; a header that is too large empties the table and is not added.\<close>

definition ngx_http_v2_add_header :: "hpack \<Rightarrow> v2_header \<Rightarrow> hpack option" where
  "ngx_http_v2_add_header h header =
     (let h = (if hp_entries h = [] then hp_start h else h)
      in case ngx_http_v2_table_account h (length (fst header) + length (snd header)) of
           None \<Rightarrow> None
         | Some (h, False) \<Rightarrow> Some h
         | Some (h, True) \<Rightarrow> Some (hp_insert h header))"

end
