(* ===== verification/V2_Request.thy ===== *)
theory V2_Request
  imports Http_Request V2_Table
begin

text \<open>
  Requests of HTTP/2 in src/http/v2/ngx_http_v2.c: the fields that a header block is decoded to become a
  request, with the checks of their bytes, the pseudo-headers, the cookies, and the request line that the rest
  of the server sees. Allocation succeeds; what is logged and the frames sent for a terminated stream are not
  modelled.
\<close>

section \<open>The request of a stream\<close>

text \<open>
  The members of ngx_http_request_t and of its stream that the functions use. \<open>vr_uri\<close> is what
  ngx_http_process_request_uri() has set; an array of cookies exists if it has elements.
\<close>

record v2_request =
  vr_headers_in :: headers_in
  vr_method_name :: bytes
  vr_method :: http_method
  vr_uri :: "request_uri option"
  vr_schema :: "bytes option"
  vr_cookies :: "bytes list"
  vr_invalid_header :: bool
  vr_request_line :: bytes
  vr_request_length :: nat
  vr_in_closed :: bool

definition v2_request_init :: "nat \<Rightarrow> bool \<Rightarrow> v2_request" where
  "v2_request_init len in_closed = \<lparr>vr_headers_in = headers_in_init, vr_method_name = [], vr_method = NGX_HTTP_UNKNOWN,
     vr_uri = None, vr_schema = None, vr_cookies = [], vr_invalid_header = False, vr_request_line = [],
     vr_request_length = len, vr_in_closed = in_closed\<rparr>"

text \<open>\<open>r->unparsed_uri\<close>\<close>

definition vr_unparsed_uri :: "v2_request \<Rightarrow> bytes" where
  "vr_unparsed_uri r = (case vr_uri r of None \<Rightarrow> [] | Some u \<Rightarrow> ru_unparsed_uri u)"

text \<open>The codes of the functions that take a header; NGX_ABORT comes with the code the request was finalized with.\<close>

datatype v2_rc = V2_OK v2_request | V2_ERROR | V2_ABORT nat | V2_DECLINED

section \<open>The bytes of a header\<close>

text \<open>The loop over a name, with \<open>r->invalid_header\<close>; \<open>None\<close> is NGX_ERROR.\<close>

fun v2_name_loop :: "bool \<Rightarrow> bool \<Rightarrow> bytes \<Rightarrow> bool option" where
  "v2_name_loop underscores invalid [] = Some invalid"
| "v2_name_loop underscores invalid (c # s) =
     (if (c \<ge> ch CHR ''a'' \<and> c \<le> ch CHR ''z'') \<or> c = ch CHR ''-'' \<or> (c \<ge> ch CHR ''0'' \<and> c \<le> ch CHR ''9'')
         \<or> (c = ch CHR ''_'' \<and> underscores)
      then v2_name_loop underscores invalid s
      else if c = 0 \<or> c = LF \<or> c = CR \<or> c = ch CHR '':'' then None
      else if c \<ge> ch CHR ''A'' \<and> c \<le> ch CHR ''Z'' then None
      else v2_name_loop underscores True s)"

fun v2_value_loop :: "bytes \<Rightarrow> bool" where
  "v2_value_loop [] = True"
| "v2_value_loop (c # s) = (if c = 0 \<or> c = LF \<or> c = CR then False else v2_value_loop s)"

definition ngx_http_v2_validate_header :: "http_conf \<Rightarrow> v2_request \<Rightarrow> v2_header \<Rightarrow> v2_request option" where
  "ngx_http_v2_validate_header cf r header =
     (if length (fst header) = 0 then None
      else
        (case v2_name_loop (underscores_in_headers cf) False
                (if fst header ! 0 = ch CHR '':'' then drop 1 (fst header) else fst header) of
           None \<Rightarrow> None
         | Some invalid \<Rightarrow>
             if v2_value_loop (snd header) then Some (r\<lparr>vr_invalid_header := invalid\<rparr>) else None))"

section \<open>Pseudo-headers\<close>

definition ngx_http_v2_parse_path :: "http_conf \<Rightarrow> v2_request \<Rightarrow> bytes \<Rightarrow> v2_rc" where
  "ngx_http_v2_parse_path cf r val =
     (if length (vr_unparsed_uri r) \<noteq> 0 then V2_DECLINED
      else if length val = 0 then V2_DECLINED
      else
        (case ngx_http_parse_uri val of
           None \<Rightarrow> V2_DECLINED
         | Some p \<Rightarrow>
             (case ngx_http_process_request_uri (merge_slashes cf) val (pu_complex p) (pu_quoted p) (pu_plus p)
                     (pu_space p) (pu_ext p) (pu_args_start p) of
                None \<Rightarrow> V2_ABORT 400
              | Some u \<Rightarrow> V2_OK (r\<lparr>vr_uri := Some u\<rparr>))))"

definition v2_tests :: "(bytes \<times> http_method) list" where
  "v2_tests =
    [(bytes_of ''GET'', NGX_HTTP_GET), (bytes_of ''POST'', NGX_HTTP_POST), (bytes_of ''HEAD'', NGX_HTTP_HEAD),
     (bytes_of ''OPTIONS'', NGX_HTTP_OPTIONS), (bytes_of ''PROPFIND'', NGX_HTTP_PROPFIND), (bytes_of ''PUT'', NGX_HTTP_PUT),
     (bytes_of ''MKCOL'', NGX_HTTP_MKCOL), (bytes_of ''DELETE'', NGX_HTTP_DELETE), (bytes_of ''COPY'', NGX_HTTP_COPY),
     (bytes_of ''MOVE'', NGX_HTTP_MOVE), (bytes_of ''PROPPATCH'', NGX_HTTP_PROPPATCH), (bytes_of ''LOCK'', NGX_HTTP_LOCK),
     (bytes_of ''UNLOCK'', NGX_HTTP_UNLOCK), (bytes_of ''PATCH'', NGX_HTTP_PATCH), (bytes_of ''TRACE'', NGX_HTTP_TRACE)]"

text \<open>The loop over the table, which compares lengths first and then byte by byte.\<close>

fun v2_method_find :: "bytes \<Rightarrow> (bytes \<times> http_method) list \<Rightarrow> http_method option" where
  "v2_method_find name [] = None"
| "v2_method_find name ((m, v) # tests) =
     (if length name = length m \<and> name = m then Some v else v2_method_find name tests)"

definition ngx_http_v2_parse_method :: "v2_request \<Rightarrow> bytes \<Rightarrow> v2_rc" where
  "ngx_http_v2_parse_method r val =
     (if length (vr_method_name r) \<noteq> 0 then V2_DECLINED
      else if length val = 0 then V2_DECLINED
      else
        (let r = r\<lparr>vr_method_name := val\<rparr>
         in case v2_method_find val v2_tests of
              Some v \<Rightarrow> V2_OK (r\<lparr>vr_method := v\<rparr>)
            | None \<Rightarrow>
                if list_ex (\<lambda>c. (c < ch CHR ''A'' \<or> c > ch CHR ''Z'') \<and> c \<noteq> ch CHR ''_'' \<and> c \<noteq> ch CHR ''-'') val
                then V2_DECLINED else V2_OK r))"

definition ngx_http_v2_parse_scheme :: "v2_request \<Rightarrow> bytes \<Rightarrow> v2_rc" where
  "ngx_http_v2_parse_scheme r val =
     (if vr_schema r \<noteq> None then V2_DECLINED
      else if length val = 0 then V2_DECLINED
      else V2_OK (r\<lparr>vr_schema := Some val\<rparr>))"

definition v2_elt :: "bytes \<Rightarrow> bytes \<Rightarrow> table_elt" where
  "v2_elt key val = \<lparr>elt_hash = ngx_hash_key key, elt_key = key, elt_value = val, elt_lowcase_key = key\<rparr>"

text \<open>A header the code makes itself: its handler has to be found; the outer \<open>None\<close> is a name without one.\<close>

definition v2_push_known :: "http_conf \<Rightarrow> headers_in \<Rightarrow> bytes \<Rightarrow> bytes \<Rightarrow> handled option" where
  "v2_push_known cf hi key val =
     (let h = v2_elt key val; hi = hi\<lparr>hi_headers := hi_headers hi @ [h]\<rparr>
      in case headers_in_find (hash_buckets cf) (elt_hash h) (elt_lowcase_key h) of
           None \<Rightarrow> None
         | Some hh \<Rightarrow> Some (header_handle cf hh hi h key))"

definition ngx_http_v2_parse_authority :: "http_conf \<Rightarrow> v2_request \<Rightarrow> bytes \<Rightarrow> v2_rc" where
  "ngx_http_v2_parse_authority cf r val =
     (case v2_push_known cf (vr_headers_in r) (bytes_of ''host'') val of
        None \<Rightarrow> V2_ERROR
      | Some (Inl code) \<Rightarrow> V2_ABORT code
      | Some (Inr hi) \<Rightarrow> V2_OK (r\<lparr>vr_headers_in := hi\<rparr>))"

text \<open>The name comes without its colon.\<close>

definition ngx_http_v2_pseudo_header :: "http_conf \<Rightarrow> v2_request \<Rightarrow> v2_header \<Rightarrow> v2_rc" where
  "ngx_http_v2_pseudo_header cf r header =
     (let name = drop 1 (fst header)
      in if length name = 4 then
           (if name = bytes_of ''path'' then ngx_http_v2_parse_path cf r (snd header) else V2_DECLINED)
         else if length name = 6 then
           (if name = bytes_of ''method'' then ngx_http_v2_parse_method r (snd header)
            else if name = bytes_of ''scheme'' then ngx_http_v2_parse_scheme r (snd header)
            else V2_DECLINED)
         else if length name = 9 then
           (if name = bytes_of ''authority'' then ngx_http_v2_parse_authority cf r (snd header) else V2_DECLINED)
         else V2_DECLINED)"

section \<open>A decoded header\<close>

definition ngx_http_v2_cookie :: "v2_request \<Rightarrow> bytes \<Rightarrow> v2_request" where
  "ngx_http_v2_cookie r val = r\<lparr>vr_cookies := vr_cookies r @ [val]\<rparr>"

text \<open>
  The part of ngx_http_v2_state_process_header() for a stream that has not failed. The results: the request
  goes on, it has been finalized by a handler, its stream is terminated with PROTOCOL_ERROR, or the connection
  fails with INTERNAL_ERROR.
\<close>

datatype v2_header_rc = V2_header v2_request | V2_header_finalized nat | V2_header_terminated | V2_header_internal

definition v2_header_pseudo :: "http_conf \<Rightarrow> v2_request \<Rightarrow> v2_header \<Rightarrow> v2_header_rc" where
  "v2_header_pseudo cf r header =
     (case ngx_http_v2_pseudo_header cf r header of
        V2_OK r \<Rightarrow> V2_header r
      | V2_ABORT code \<Rightarrow> V2_header_finalized code
      | V2_DECLINED \<Rightarrow> V2_header_terminated
      | V2_ERROR \<Rightarrow> V2_header_internal)"

definition v2_process_header :: "http_conf \<Rightarrow> v2_request \<Rightarrow> v2_header \<Rightarrow> v2_header_rc" where
  "v2_process_header cf r header =
     (case ngx_http_v2_validate_header cf r header of
        None \<Rightarrow> V2_header_terminated
      | Some r \<Rightarrow>
          if fst header ! 0 = ch CHR '':'' then v2_header_pseudo cf r header
          else if vr_invalid_header r \<and> ignore_invalid_headers cf then V2_header r
          else if length (fst header) = 6 \<and> fst header = bytes_of ''cookie'' then V2_header (ngx_http_v2_cookie r (snd header))
          else
            (case header_push cf (vr_headers_in r) (v2_elt (fst header) (snd header)) of
               Inl code \<Rightarrow> V2_header_finalized code
             | Inr hi \<Rightarrow> V2_header (r\<lparr>vr_headers_in := hi\<rparr>)))"

section \<open>The end of the headers\<close>

text \<open>\<open>None\<close> is a request finalized with NGX_HTTP_BAD_REQUEST.\<close>

definition ngx_http_v2_construct_request_line :: "v2_request \<Rightarrow> v2_request option" where
  "ngx_http_v2_construct_request_line r =
     (if length (vr_method_name r) = 0 \<or> length (vr_unparsed_uri r) = 0 then None
      else Some (r\<lparr>vr_request_line := vr_method_name r @ bytes_of '' '' @ vr_unparsed_uri r @ bytes_of '' HTTP/2.0''\<rparr>))"

text \<open>The two loops over the cookies: the length of the buffer, and the bytes up to \<open>p = end\<close>; \<open>None\<close> reads past the array.\<close>

fun v2_cookies_len :: "nat \<Rightarrow> bytes list \<Rightarrow> nat" where
  "v2_cookies_len len [] = len - 2"
| "v2_cookies_len len (v # vals) = v2_cookies_len (len + (length v + 2)) vals"

fun v2_cookies_copy :: "nat \<Rightarrow> bytes \<Rightarrow> bytes list \<Rightarrow> bytes option" where
  "v2_cookies_copy len buf [] = None"
| "v2_cookies_copy len buf (v # vals) =
     (let buf = buf @ v
      in if length buf = len then Some buf else v2_cookies_copy len (buf @ [ch CHR '';'', ch CHR '' '']) vals)"

text \<open>\<open>Inl\<close> is the code of a closed or finalized request.\<close>

definition ngx_http_v2_construct_cookie_header :: "http_conf \<Rightarrow> v2_request \<Rightarrow> nat + v2_request" where
  "ngx_http_v2_construct_cookie_header cf r =
     (if vr_cookies r = [] then Inr r
      else
        (case v2_cookies_copy (v2_cookies_len 0 (vr_cookies r)) [] (vr_cookies r) of
           None \<Rightarrow> Inl 500
         | Some buf \<Rightarrow>
             (case v2_push_known cf (vr_headers_in r) (bytes_of ''cookie'') buf of
                None \<Rightarrow> Inl 500
              | Some (Inl code) \<Rightarrow> Inl code
              | Some (Inr hi) \<Rightarrow> Inr (r\<lparr>vr_headers_in := hi\<rparr>))))"

text \<open>The request that ngx_http_process_request() is called with, or the code.\<close>

definition ngx_http_v2_run_request :: "http_conf \<Rightarrow> v2_request \<Rightarrow> nat + v2_request" where
  "ngx_http_v2_run_request cf r =
     (case ngx_http_v2_construct_request_line r of
        None \<Rightarrow> Inl 400
      | Some r \<Rightarrow>
          (case ngx_http_v2_construct_cookie_header cf r of
             Inl code \<Rightarrow> Inl code
           | Inr r \<Rightarrow>
               (case ngx_http_process_request_header cf (vr_method r) 2000 (vr_headers_in r) of
                  Inl code \<Rightarrow> Inl code
                | Inr hi \<Rightarrow>
                    if hi_content_length_n hi > 0 \<and> vr_in_closed r then Inl 400
                    else
                      Inr (r\<lparr>vr_headers_in :=
                              (if hi_content_length_n hi = -1 \<and> \<not> vr_in_closed r then hi\<lparr>hi_chunked := True\<rparr> else hi)\<rparr>))))"

text \<open>All headers of a request, one after the other.\<close>

fun v2_process_headers :: "http_conf \<Rightarrow> v2_request \<Rightarrow> v2_header list \<Rightarrow> v2_header_rc" where
  "v2_process_headers cf r [] = V2_header r"
| "v2_process_headers cf r (h # hs) =
     (case v2_process_header cf r h of V2_header r \<Rightarrow> v2_process_headers cf r hs | rc \<Rightarrow> rc)"

text \<open>The request that is processed for the headers of a block, where there is one.\<close>

definition v2_request_run :: "http_conf \<Rightarrow> nat \<Rightarrow> bool \<Rightarrow> v2_header list \<Rightarrow> v2_request option" where
  "v2_request_run cf len in_closed hs =
     (case v2_process_headers cf (v2_request_init len in_closed) hs of
        V2_header r \<Rightarrow> (case ngx_http_v2_run_request cf r of Inl code \<Rightarrow> None | Inr r \<Rightarrow> Some r)
      | _ \<Rightarrow> None)"

end
