(* ===== verification/V2_Huff.thy ===== *)
theory V2_Huff
  imports Prelude
begin

text \<open>
  The Huffman coding of HTTP/2: src/http/v2/ngx_http_v2_huff_encode.c and
  src/http/v2/ngx_http_v2_huff_decode.c. The encoder packs codes into a 64-bit accumulator; the
  decoder is an automaton of 256 states that takes four bits at a time, its table given here in
  sixteen parts.
\<close>

section \<open>The encoder\<close>

text \<open>Codes and their lengths; the second table encodes upper case letters as lower case ones.\<close>

definition ngx_http_v2_huff_encode_table :: "(u32 \<times> nat) list" where
  "ngx_http_v2_huff_encode_table = [
    (0x1ff8, 13), (0x7fffd8, 23), (0xfffffe2, 28), (0xfffffe3, 28), (0xfffffe4, 28),
    (0xfffffe5, 28), (0xfffffe6, 28), (0xfffffe7, 28), (0xfffffe8, 28), (0xffffea, 24),
    (0x3ffffffc, 30), (0xfffffe9, 28), (0xfffffea, 28), (0x3ffffffd, 30), (0xfffffeb, 28),
    (0xfffffec, 28), (0xfffffed, 28), (0xfffffee, 28), (0xfffffef, 28), (0xffffff0, 28),
    (0xffffff1, 28), (0xffffff2, 28), (0x3ffffffe, 30), (0xffffff3, 28), (0xffffff4, 28),
    (0xffffff5, 28), (0xffffff6, 28), (0xffffff7, 28), (0xffffff8, 28), (0xffffff9, 28),
    (0xffffffa, 28), (0xffffffb, 28), (0x14, 6), (0x3f8, 10), (0x3f9, 10), (0xffa, 12),
    (0x1ff9, 13), (0x15, 6), (0xf8, 8), (0x7fa, 11), (0x3fa, 10), (0x3fb, 10), (0xf9, 8),
    (0x7fb, 11), (0xfa, 8), (0x16, 6), (0x17, 6), (0x18, 6), (0x0, 5), (0x1, 5), (0x2, 5),
    (0x19, 6), (0x1a, 6), (0x1b, 6), (0x1c, 6), (0x1d, 6), (0x1e, 6), (0x1f, 6), (0x5c, 7),
    (0xfb, 8), (0x7ffc, 15), (0x20, 6), (0xffb, 12), (0x3fc, 10), (0x1ffa, 13), (0x21, 6),
    (0x5d, 7), (0x5e, 7), (0x5f, 7), (0x60, 7), (0x61, 7), (0x62, 7), (0x63, 7), (0x64, 7),
    (0x65, 7), (0x66, 7), (0x67, 7), (0x68, 7), (0x69, 7), (0x6a, 7), (0x6b, 7), (0x6c, 7),
    (0x6d, 7), (0x6e, 7), (0x6f, 7), (0x70, 7), (0x71, 7), (0x72, 7), (0xfc, 8), (0x73, 7),
    (0xfd, 8), (0x1ffb, 13), (0x7fff0, 19), (0x1ffc, 13), (0x3ffc, 14), (0x22, 6), (0x7ffd, 15),
    (0x3, 5), (0x23, 6), (0x4, 5), (0x24, 6), (0x5, 5), (0x25, 6), (0x26, 6), (0x27, 6), (0x6, 5),
    (0x74, 7), (0x75, 7), (0x28, 6), (0x29, 6), (0x2a, 6), (0x7, 5), (0x2b, 6), (0x76, 7),
    (0x2c, 6), (0x8, 5), (0x9, 5), (0x2d, 6), (0x77, 7), (0x78, 7), (0x79, 7), (0x7a, 7),
    (0x7b, 7), (0x7ffe, 15), (0x7fc, 11), (0x3ffd, 14), (0x1ffd, 13), (0xffffffc, 28),
    (0xfffe6, 20), (0x3fffd2, 22), (0xfffe7, 20), (0xfffe8, 20), (0x3fffd3, 22), (0x3fffd4, 22),
    (0x3fffd5, 22), (0x7fffd9, 23), (0x3fffd6, 22), (0x7fffda, 23), (0x7fffdb, 23), (0x7fffdc, 23),
    (0x7fffdd, 23), (0x7fffde, 23), (0xffffeb, 24), (0x7fffdf, 23), (0xffffec, 24), (0xffffed, 24),
    (0x3fffd7, 22), (0x7fffe0, 23), (0xffffee, 24), (0x7fffe1, 23), (0x7fffe2, 23), (0x7fffe3, 23),
    (0x7fffe4, 23), (0x1fffdc, 21), (0x3fffd8, 22), (0x7fffe5, 23), (0x3fffd9, 22), (0x7fffe6, 23),
    (0x7fffe7, 23), (0xffffef, 24), (0x3fffda, 22), (0x1fffdd, 21), (0xfffe9, 20), (0x3fffdb, 22),
    (0x3fffdc, 22), (0x7fffe8, 23), (0x7fffe9, 23), (0x1fffde, 21), (0x7fffea, 23), (0x3fffdd, 22),
    (0x3fffde, 22), (0xfffff0, 24), (0x1fffdf, 21), (0x3fffdf, 22), (0x7fffeb, 23), (0x7fffec, 23),
    (0x1fffe0, 21), (0x1fffe1, 21), (0x3fffe0, 22), (0x1fffe2, 21), (0x7fffed, 23), (0x3fffe1, 22),
    (0x7fffee, 23), (0x7fffef, 23), (0xfffea, 20), (0x3fffe2, 22), (0x3fffe3, 22), (0x3fffe4, 22),
    (0x7ffff0, 23), (0x3fffe5, 22), (0x3fffe6, 22), (0x7ffff1, 23), (0x3ffffe0, 26),
    (0x3ffffe1, 26), (0xfffeb, 20), (0x7fff1, 19), (0x3fffe7, 22), (0x7ffff2, 23), (0x3fffe8, 22),
    (0x1ffffec, 25), (0x3ffffe2, 26), (0x3ffffe3, 26), (0x3ffffe4, 26), (0x7ffffde, 27),
    (0x7ffffdf, 27), (0x3ffffe5, 26), (0xfffff1, 24), (0x1ffffed, 25), (0x7fff2, 19),
    (0x1fffe3, 21), (0x3ffffe6, 26), (0x7ffffe0, 27), (0x7ffffe1, 27), (0x3ffffe7, 26),
    (0x7ffffe2, 27), (0xfffff2, 24), (0x1fffe4, 21), (0x1fffe5, 21), (0x3ffffe8, 26),
    (0x3ffffe9, 26), (0xffffffd, 28), (0x7ffffe3, 27), (0x7ffffe4, 27), (0x7ffffe5, 27),
    (0xfffec, 20), (0xfffff3, 24), (0xfffed, 20), (0x1fffe6, 21), (0x3fffe9, 22), (0x1fffe7, 21),
    (0x1fffe8, 21), (0x7ffff3, 23), (0x3fffea, 22), (0x3fffeb, 22), (0x1ffffee, 25),
    (0x1ffffef, 25), (0xfffff4, 24), (0xfffff5, 24), (0x3ffffea, 26), (0x7ffff4, 23),
    (0x3ffffeb, 26), (0x7ffffe6, 27), (0x3ffffec, 26), (0x3ffffed, 26), (0x7ffffe7, 27),
    (0x7ffffe8, 27), (0x7ffffe9, 27), (0x7ffffea, 27), (0x7ffffeb, 27), (0xffffffe, 28),
    (0x7ffffec, 27), (0x7ffffed, 27), (0x7ffffee, 27), (0x7ffffef, 27), (0x7fffff0, 27),
    (0x3ffffee, 26)]"

definition ngx_http_v2_huff_encode_table_lc :: "(u32 \<times> nat) list" where
  "ngx_http_v2_huff_encode_table_lc = [
    (0x1ff8, 13), (0x7fffd8, 23), (0xfffffe2, 28), (0xfffffe3, 28), (0xfffffe4, 28),
    (0xfffffe5, 28), (0xfffffe6, 28), (0xfffffe7, 28), (0xfffffe8, 28), (0xffffea, 24),
    (0x3ffffffc, 30), (0xfffffe9, 28), (0xfffffea, 28), (0x3ffffffd, 30), (0xfffffeb, 28),
    (0xfffffec, 28), (0xfffffed, 28), (0xfffffee, 28), (0xfffffef, 28), (0xffffff0, 28),
    (0xffffff1, 28), (0xffffff2, 28), (0x3ffffffe, 30), (0xffffff3, 28), (0xffffff4, 28),
    (0xffffff5, 28), (0xffffff6, 28), (0xffffff7, 28), (0xffffff8, 28), (0xffffff9, 28),
    (0xffffffa, 28), (0xffffffb, 28), (0x14, 6), (0x3f8, 10), (0x3f9, 10), (0xffa, 12),
    (0x1ff9, 13), (0x15, 6), (0xf8, 8), (0x7fa, 11), (0x3fa, 10), (0x3fb, 10), (0xf9, 8),
    (0x7fb, 11), (0xfa, 8), (0x16, 6), (0x17, 6), (0x18, 6), (0x0, 5), (0x1, 5), (0x2, 5),
    (0x19, 6), (0x1a, 6), (0x1b, 6), (0x1c, 6), (0x1d, 6), (0x1e, 6), (0x1f, 6), (0x5c, 7),
    (0xfb, 8), (0x7ffc, 15), (0x20, 6), (0xffb, 12), (0x3fc, 10), (0x1ffa, 13), (0x3, 5),
    (0x23, 6), (0x4, 5), (0x24, 6), (0x5, 5), (0x25, 6), (0x26, 6), (0x27, 6), (0x6, 5), (0x74, 7),
    (0x75, 7), (0x28, 6), (0x29, 6), (0x2a, 6), (0x7, 5), (0x2b, 6), (0x76, 7), (0x2c, 6),
    (0x8, 5), (0x9, 5), (0x2d, 6), (0x77, 7), (0x78, 7), (0x79, 7), (0x7a, 7), (0x7b, 7),
    (0x1ffb, 13), (0x7fff0, 19), (0x1ffc, 13), (0x3ffc, 14), (0x22, 6), (0x7ffd, 15), (0x3, 5),
    (0x23, 6), (0x4, 5), (0x24, 6), (0x5, 5), (0x25, 6), (0x26, 6), (0x27, 6), (0x6, 5), (0x74, 7),
    (0x75, 7), (0x28, 6), (0x29, 6), (0x2a, 6), (0x7, 5), (0x2b, 6), (0x76, 7), (0x2c, 6),
    (0x8, 5), (0x9, 5), (0x2d, 6), (0x77, 7), (0x78, 7), (0x79, 7), (0x7a, 7), (0x7b, 7),
    (0x7ffe, 15), (0x7fc, 11), (0x3ffd, 14), (0x1ffd, 13), (0xffffffc, 28), (0xfffe6, 20),
    (0x3fffd2, 22), (0xfffe7, 20), (0xfffe8, 20), (0x3fffd3, 22), (0x3fffd4, 22), (0x3fffd5, 22),
    (0x7fffd9, 23), (0x3fffd6, 22), (0x7fffda, 23), (0x7fffdb, 23), (0x7fffdc, 23), (0x7fffdd, 23),
    (0x7fffde, 23), (0xffffeb, 24), (0x7fffdf, 23), (0xffffec, 24), (0xffffed, 24), (0x3fffd7, 22),
    (0x7fffe0, 23), (0xffffee, 24), (0x7fffe1, 23), (0x7fffe2, 23), (0x7fffe3, 23), (0x7fffe4, 23),
    (0x1fffdc, 21), (0x3fffd8, 22), (0x7fffe5, 23), (0x3fffd9, 22), (0x7fffe6, 23), (0x7fffe7, 23),
    (0xffffef, 24), (0x3fffda, 22), (0x1fffdd, 21), (0xfffe9, 20), (0x3fffdb, 22), (0x3fffdc, 22),
    (0x7fffe8, 23), (0x7fffe9, 23), (0x1fffde, 21), (0x7fffea, 23), (0x3fffdd, 22), (0x3fffde, 22),
    (0xfffff0, 24), (0x1fffdf, 21), (0x3fffdf, 22), (0x7fffeb, 23), (0x7fffec, 23), (0x1fffe0, 21),
    (0x1fffe1, 21), (0x3fffe0, 22), (0x1fffe2, 21), (0x7fffed, 23), (0x3fffe1, 22), (0x7fffee, 23),
    (0x7fffef, 23), (0xfffea, 20), (0x3fffe2, 22), (0x3fffe3, 22), (0x3fffe4, 22), (0x7ffff0, 23),
    (0x3fffe5, 22), (0x3fffe6, 22), (0x7ffff1, 23), (0x3ffffe0, 26), (0x3ffffe1, 26),
    (0xfffeb, 20), (0x7fff1, 19), (0x3fffe7, 22), (0x7ffff2, 23), (0x3fffe8, 22), (0x1ffffec, 25),
    (0x3ffffe2, 26), (0x3ffffe3, 26), (0x3ffffe4, 26), (0x7ffffde, 27), (0x7ffffdf, 27),
    (0x3ffffe5, 26), (0xfffff1, 24), (0x1ffffed, 25), (0x7fff2, 19), (0x1fffe3, 21),
    (0x3ffffe6, 26), (0x7ffffe0, 27), (0x7ffffe1, 27), (0x3ffffe7, 26), (0x7ffffe2, 27),
    (0xfffff2, 24), (0x1fffe4, 21), (0x1fffe5, 21), (0x3ffffe8, 26), (0x3ffffe9, 26),
    (0xffffffd, 28), (0x7ffffe3, 27), (0x7ffffe4, 27), (0x7ffffe5, 27), (0xfffec, 20),
    (0xfffff3, 24), (0xfffed, 20), (0x1fffe6, 21), (0x3fffe9, 22), (0x1fffe7, 21), (0x1fffe8, 21),
    (0x7ffff3, 23), (0x3fffea, 22), (0x3fffeb, 22), (0x1ffffee, 25), (0x1ffffef, 25),
    (0xfffff4, 24), (0xfffff5, 24), (0x3ffffea, 26), (0x7ffff4, 23), (0x3ffffeb, 26),
    (0x7ffffe6, 27), (0x3ffffec, 26), (0x3ffffed, 26), (0x7ffffe7, 27), (0x7ffffe8, 27),
    (0x7ffffe9, 27), (0x7ffffea, 27), (0x7ffffeb, 27), (0xffffffe, 28), (0x7ffffec, 27),
    (0x7ffffed, 27), (0x7ffffee, 27), (0x7ffffef, 27), (0x7fffff0, 27), (0x3ffffee, 26)]"

text \<open>ngx_http_v2_huff_encode_buf(): the accumulator in network byte order.\<close>

definition ngx_http_v2_huff_encode_buf :: "u64 \<Rightarrow> bytes" where
  "ngx_http_v2_huff_encode_buf buf =
     [ucast (drop_bit 56 buf), ucast (drop_bit 48 buf), ucast (drop_bit 40 buf), ucast (drop_bit 32 buf),
      ucast (drop_bit 24 buf), ucast (drop_bit 16 buf), ucast (drop_bit 8 buf), ucast buf]"

text \<open>
  The loop over the input, with the bytes written so far; \<open>None\<close> is the return of 0 because the
  result would not be shorter than the input of \<open>len\<close> bytes.
\<close>

fun huff_encode_loop :: "(u32 \<times> nat) list \<Rightarrow> nat \<Rightarrow> bytes \<Rightarrow> u64 \<Rightarrow> nat \<Rightarrow> bytes \<Rightarrow> (bytes \<times> u64 \<times> nat) option" where
  "huff_encode_loop tab len dst buf pending [] = Some (dst, buf, pending)"
| "huff_encode_loop tab len dst buf pending (c # src) =
     (let (code, n) = tab ! unat c;
          code = ucast code;
          pending = pending + n
      in if pending < 64 then
           huff_encode_loop tab len dst (buf OR push_bit (64 - pending) code) pending src
         else if length dst + 8 \<ge> len then None
         else
           (let pending = pending - 64;
                buf = buf OR drop_bit pending code;
                dst = dst @ ngx_http_v2_huff_encode_buf buf
            in huff_encode_loop tab len dst (if pending \<noteq> 0 then push_bit (64 - pending) code else 0) pending src))"

text \<open>The last bytes, the accumulator aligned to the low end.\<close>

fun huff_encode_tail :: "u64 \<Rightarrow> nat \<Rightarrow> bytes" where
  "huff_encode_tail buf 0 = []"
| "huff_encode_tail buf (Suc k) = ucast (drop_bit (8 * k) buf) # huff_encode_tail buf k"

text \<open>The bytes written, or none when the function returns 0.\<close>

definition ngx_http_v2_huff_encode :: "bytes \<Rightarrow> bool \<Rightarrow> bytes" where
  "ngx_http_v2_huff_encode src lower =
     (let tab = (if lower then ngx_http_v2_huff_encode_table_lc else ngx_http_v2_huff_encode_table)
      in case huff_encode_loop tab (length src) [] 0 0 src of
           None \<Rightarrow> []
         | Some (dst, buf, pending) \<Rightarrow>
             if pending = 0 then dst
             else
               (let buf = buf OR drop_bit pending (-1);
                    pending = (pending + 7) div 8 * 8
                in if length dst + pending div 8 \<ge> length src then []
                   else dst @ huff_encode_tail (drop_bit (64 - pending) buf) (pending div 8)))"

section \<open>The decoder\<close>

datatype huff_code = Huff (huff_next: u_char) (huff_emit: u_char) (huff_sym: u_char) (huff_ending: u_char)

text \<open>The rows of the states, sixteen at a time.\<close>

definition huff_rows_0 :: "huff_code list list" where
  "huff_rows_0 = [
    [
     Huff 0x04 0 0x00 0, Huff 0x05 0 0x00 0, Huff 0x07 0 0x00 0, Huff 0x08 0 0x00 0,
     Huff 0x0b 0 0x00 0, Huff 0x0c 0 0x00 0, Huff 0x10 0 0x00 0, Huff 0x13 0 0x00 0,
     Huff 0x19 0 0x00 0, Huff 0x1c 0 0x00 0, Huff 0x20 0 0x00 0, Huff 0x23 0 0x00 0,
     Huff 0x2a 0 0x00 0, Huff 0x31 0 0x00 0, Huff 0x39 0 0x00 0, Huff 0x40 0 0x00 1],
    [
     Huff 0x00 1 0x30 1, Huff 0x00 1 0x31 1, Huff 0x00 1 0x32 1, Huff 0x00 1 0x61 1,
     Huff 0x00 1 0x63 1, Huff 0x00 1 0x65 1, Huff 0x00 1 0x69 1, Huff 0x00 1 0x6f 1,
     Huff 0x00 1 0x73 1, Huff 0x00 1 0x74 1, Huff 0x0d 0 0x00 0, Huff 0x0e 0 0x00 0,
     Huff 0x11 0 0x00 0, Huff 0x12 0 0x00 0, Huff 0x14 0 0x00 0, Huff 0x15 0 0x00 0],
    [
     Huff 0x01 1 0x30 0, Huff 0x16 1 0x30 1, Huff 0x01 1 0x31 0, Huff 0x16 1 0x31 1,
     Huff 0x01 1 0x32 0, Huff 0x16 1 0x32 1, Huff 0x01 1 0x61 0, Huff 0x16 1 0x61 1,
     Huff 0x01 1 0x63 0, Huff 0x16 1 0x63 1, Huff 0x01 1 0x65 0, Huff 0x16 1 0x65 1,
     Huff 0x01 1 0x69 0, Huff 0x16 1 0x69 1, Huff 0x01 1 0x6f 0, Huff 0x16 1 0x6f 1],
    [
     Huff 0x02 1 0x30 0, Huff 0x09 1 0x30 0, Huff 0x17 1 0x30 0, Huff 0x28 1 0x30 1,
     Huff 0x02 1 0x31 0, Huff 0x09 1 0x31 0, Huff 0x17 1 0x31 0, Huff 0x28 1 0x31 1,
     Huff 0x02 1 0x32 0, Huff 0x09 1 0x32 0, Huff 0x17 1 0x32 0, Huff 0x28 1 0x32 1,
     Huff 0x02 1 0x61 0, Huff 0x09 1 0x61 0, Huff 0x17 1 0x61 0, Huff 0x28 1 0x61 1],
    [
     Huff 0x03 1 0x30 0, Huff 0x06 1 0x30 0, Huff 0x0a 1 0x30 0, Huff 0x0f 1 0x30 0,
     Huff 0x18 1 0x30 0, Huff 0x1f 1 0x30 0, Huff 0x29 1 0x30 0, Huff 0x38 1 0x30 1,
     Huff 0x03 1 0x31 0, Huff 0x06 1 0x31 0, Huff 0x0a 1 0x31 0, Huff 0x0f 1 0x31 0,
     Huff 0x18 1 0x31 0, Huff 0x1f 1 0x31 0, Huff 0x29 1 0x31 0, Huff 0x38 1 0x31 1],
    [
     Huff 0x03 1 0x32 0, Huff 0x06 1 0x32 0, Huff 0x0a 1 0x32 0, Huff 0x0f 1 0x32 0,
     Huff 0x18 1 0x32 0, Huff 0x1f 1 0x32 0, Huff 0x29 1 0x32 0, Huff 0x38 1 0x32 1,
     Huff 0x03 1 0x61 0, Huff 0x06 1 0x61 0, Huff 0x0a 1 0x61 0, Huff 0x0f 1 0x61 0,
     Huff 0x18 1 0x61 0, Huff 0x1f 1 0x61 0, Huff 0x29 1 0x61 0, Huff 0x38 1 0x61 1],
    [
     Huff 0x02 1 0x63 0, Huff 0x09 1 0x63 0, Huff 0x17 1 0x63 0, Huff 0x28 1 0x63 1,
     Huff 0x02 1 0x65 0, Huff 0x09 1 0x65 0, Huff 0x17 1 0x65 0, Huff 0x28 1 0x65 1,
     Huff 0x02 1 0x69 0, Huff 0x09 1 0x69 0, Huff 0x17 1 0x69 0, Huff 0x28 1 0x69 1,
     Huff 0x02 1 0x6f 0, Huff 0x09 1 0x6f 0, Huff 0x17 1 0x6f 0, Huff 0x28 1 0x6f 1],
    [
     Huff 0x03 1 0x63 0, Huff 0x06 1 0x63 0, Huff 0x0a 1 0x63 0, Huff 0x0f 1 0x63 0,
     Huff 0x18 1 0x63 0, Huff 0x1f 1 0x63 0, Huff 0x29 1 0x63 0, Huff 0x38 1 0x63 1,
     Huff 0x03 1 0x65 0, Huff 0x06 1 0x65 0, Huff 0x0a 1 0x65 0, Huff 0x0f 1 0x65 0,
     Huff 0x18 1 0x65 0, Huff 0x1f 1 0x65 0, Huff 0x29 1 0x65 0, Huff 0x38 1 0x65 1],
    [
     Huff 0x03 1 0x69 0, Huff 0x06 1 0x69 0, Huff 0x0a 1 0x69 0, Huff 0x0f 1 0x69 0,
     Huff 0x18 1 0x69 0, Huff 0x1f 1 0x69 0, Huff 0x29 1 0x69 0, Huff 0x38 1 0x69 1,
     Huff 0x03 1 0x6f 0, Huff 0x06 1 0x6f 0, Huff 0x0a 1 0x6f 0, Huff 0x0f 1 0x6f 0,
     Huff 0x18 1 0x6f 0, Huff 0x1f 1 0x6f 0, Huff 0x29 1 0x6f 0, Huff 0x38 1 0x6f 1],
    [
     Huff 0x01 1 0x73 0, Huff 0x16 1 0x73 1, Huff 0x01 1 0x74 0, Huff 0x16 1 0x74 1,
     Huff 0x00 1 0x20 1, Huff 0x00 1 0x25 1, Huff 0x00 1 0x2d 1, Huff 0x00 1 0x2e 1,
     Huff 0x00 1 0x2f 1, Huff 0x00 1 0x33 1, Huff 0x00 1 0x34 1, Huff 0x00 1 0x35 1,
     Huff 0x00 1 0x36 1, Huff 0x00 1 0x37 1, Huff 0x00 1 0x38 1, Huff 0x00 1 0x39 1],
    [
     Huff 0x02 1 0x73 0, Huff 0x09 1 0x73 0, Huff 0x17 1 0x73 0, Huff 0x28 1 0x73 1,
     Huff 0x02 1 0x74 0, Huff 0x09 1 0x74 0, Huff 0x17 1 0x74 0, Huff 0x28 1 0x74 1,
     Huff 0x01 1 0x20 0, Huff 0x16 1 0x20 1, Huff 0x01 1 0x25 0, Huff 0x16 1 0x25 1,
     Huff 0x01 1 0x2d 0, Huff 0x16 1 0x2d 1, Huff 0x01 1 0x2e 0, Huff 0x16 1 0x2e 1],
    [
     Huff 0x03 1 0x73 0, Huff 0x06 1 0x73 0, Huff 0x0a 1 0x73 0, Huff 0x0f 1 0x73 0,
     Huff 0x18 1 0x73 0, Huff 0x1f 1 0x73 0, Huff 0x29 1 0x73 0, Huff 0x38 1 0x73 1,
     Huff 0x03 1 0x74 0, Huff 0x06 1 0x74 0, Huff 0x0a 1 0x74 0, Huff 0x0f 1 0x74 0,
     Huff 0x18 1 0x74 0, Huff 0x1f 1 0x74 0, Huff 0x29 1 0x74 0, Huff 0x38 1 0x74 1],
    [
     Huff 0x02 1 0x20 0, Huff 0x09 1 0x20 0, Huff 0x17 1 0x20 0, Huff 0x28 1 0x20 1,
     Huff 0x02 1 0x25 0, Huff 0x09 1 0x25 0, Huff 0x17 1 0x25 0, Huff 0x28 1 0x25 1,
     Huff 0x02 1 0x2d 0, Huff 0x09 1 0x2d 0, Huff 0x17 1 0x2d 0, Huff 0x28 1 0x2d 1,
     Huff 0x02 1 0x2e 0, Huff 0x09 1 0x2e 0, Huff 0x17 1 0x2e 0, Huff 0x28 1 0x2e 1],
    [
     Huff 0x03 1 0x20 0, Huff 0x06 1 0x20 0, Huff 0x0a 1 0x20 0, Huff 0x0f 1 0x20 0,
     Huff 0x18 1 0x20 0, Huff 0x1f 1 0x20 0, Huff 0x29 1 0x20 0, Huff 0x38 1 0x20 1,
     Huff 0x03 1 0x25 0, Huff 0x06 1 0x25 0, Huff 0x0a 1 0x25 0, Huff 0x0f 1 0x25 0,
     Huff 0x18 1 0x25 0, Huff 0x1f 1 0x25 0, Huff 0x29 1 0x25 0, Huff 0x38 1 0x25 1],
    [
     Huff 0x03 1 0x2d 0, Huff 0x06 1 0x2d 0, Huff 0x0a 1 0x2d 0, Huff 0x0f 1 0x2d 0,
     Huff 0x18 1 0x2d 0, Huff 0x1f 1 0x2d 0, Huff 0x29 1 0x2d 0, Huff 0x38 1 0x2d 1,
     Huff 0x03 1 0x2e 0, Huff 0x06 1 0x2e 0, Huff 0x0a 1 0x2e 0, Huff 0x0f 1 0x2e 0,
     Huff 0x18 1 0x2e 0, Huff 0x1f 1 0x2e 0, Huff 0x29 1 0x2e 0, Huff 0x38 1 0x2e 1],
    [
     Huff 0x01 1 0x2f 0, Huff 0x16 1 0x2f 1, Huff 0x01 1 0x33 0, Huff 0x16 1 0x33 1,
     Huff 0x01 1 0x34 0, Huff 0x16 1 0x34 1, Huff 0x01 1 0x35 0, Huff 0x16 1 0x35 1,
     Huff 0x01 1 0x36 0, Huff 0x16 1 0x36 1, Huff 0x01 1 0x37 0, Huff 0x16 1 0x37 1,
     Huff 0x01 1 0x38 0, Huff 0x16 1 0x38 1, Huff 0x01 1 0x39 0, Huff 0x16 1 0x39 1]]"

definition huff_rows_1 :: "huff_code list list" where
  "huff_rows_1 = [
    [
     Huff 0x02 1 0x2f 0, Huff 0x09 1 0x2f 0, Huff 0x17 1 0x2f 0, Huff 0x28 1 0x2f 1,
     Huff 0x02 1 0x33 0, Huff 0x09 1 0x33 0, Huff 0x17 1 0x33 0, Huff 0x28 1 0x33 1,
     Huff 0x02 1 0x34 0, Huff 0x09 1 0x34 0, Huff 0x17 1 0x34 0, Huff 0x28 1 0x34 1,
     Huff 0x02 1 0x35 0, Huff 0x09 1 0x35 0, Huff 0x17 1 0x35 0, Huff 0x28 1 0x35 1],
    [
     Huff 0x03 1 0x2f 0, Huff 0x06 1 0x2f 0, Huff 0x0a 1 0x2f 0, Huff 0x0f 1 0x2f 0,
     Huff 0x18 1 0x2f 0, Huff 0x1f 1 0x2f 0, Huff 0x29 1 0x2f 0, Huff 0x38 1 0x2f 1,
     Huff 0x03 1 0x33 0, Huff 0x06 1 0x33 0, Huff 0x0a 1 0x33 0, Huff 0x0f 1 0x33 0,
     Huff 0x18 1 0x33 0, Huff 0x1f 1 0x33 0, Huff 0x29 1 0x33 0, Huff 0x38 1 0x33 1],
    [
     Huff 0x03 1 0x34 0, Huff 0x06 1 0x34 0, Huff 0x0a 1 0x34 0, Huff 0x0f 1 0x34 0,
     Huff 0x18 1 0x34 0, Huff 0x1f 1 0x34 0, Huff 0x29 1 0x34 0, Huff 0x38 1 0x34 1,
     Huff 0x03 1 0x35 0, Huff 0x06 1 0x35 0, Huff 0x0a 1 0x35 0, Huff 0x0f 1 0x35 0,
     Huff 0x18 1 0x35 0, Huff 0x1f 1 0x35 0, Huff 0x29 1 0x35 0, Huff 0x38 1 0x35 1],
    [
     Huff 0x02 1 0x36 0, Huff 0x09 1 0x36 0, Huff 0x17 1 0x36 0, Huff 0x28 1 0x36 1,
     Huff 0x02 1 0x37 0, Huff 0x09 1 0x37 0, Huff 0x17 1 0x37 0, Huff 0x28 1 0x37 1,
     Huff 0x02 1 0x38 0, Huff 0x09 1 0x38 0, Huff 0x17 1 0x38 0, Huff 0x28 1 0x38 1,
     Huff 0x02 1 0x39 0, Huff 0x09 1 0x39 0, Huff 0x17 1 0x39 0, Huff 0x28 1 0x39 1],
    [
     Huff 0x03 1 0x36 0, Huff 0x06 1 0x36 0, Huff 0x0a 1 0x36 0, Huff 0x0f 1 0x36 0,
     Huff 0x18 1 0x36 0, Huff 0x1f 1 0x36 0, Huff 0x29 1 0x36 0, Huff 0x38 1 0x36 1,
     Huff 0x03 1 0x37 0, Huff 0x06 1 0x37 0, Huff 0x0a 1 0x37 0, Huff 0x0f 1 0x37 0,
     Huff 0x18 1 0x37 0, Huff 0x1f 1 0x37 0, Huff 0x29 1 0x37 0, Huff 0x38 1 0x37 1],
    [
     Huff 0x03 1 0x38 0, Huff 0x06 1 0x38 0, Huff 0x0a 1 0x38 0, Huff 0x0f 1 0x38 0,
     Huff 0x18 1 0x38 0, Huff 0x1f 1 0x38 0, Huff 0x29 1 0x38 0, Huff 0x38 1 0x38 1,
     Huff 0x03 1 0x39 0, Huff 0x06 1 0x39 0, Huff 0x0a 1 0x39 0, Huff 0x0f 1 0x39 0,
     Huff 0x18 1 0x39 0, Huff 0x1f 1 0x39 0, Huff 0x29 1 0x39 0, Huff 0x38 1 0x39 1],
    [
     Huff 0x1a 0 0x00 0, Huff 0x1b 0 0x00 0, Huff 0x1d 0 0x00 0, Huff 0x1e 0 0x00 0,
     Huff 0x21 0 0x00 0, Huff 0x22 0 0x00 0, Huff 0x24 0 0x00 0, Huff 0x25 0 0x00 0,
     Huff 0x2b 0 0x00 0, Huff 0x2e 0 0x00 0, Huff 0x32 0 0x00 0, Huff 0x35 0 0x00 0,
     Huff 0x3a 0 0x00 0, Huff 0x3d 0 0x00 0, Huff 0x41 0 0x00 0, Huff 0x44 0 0x00 1],
    [
     Huff 0x00 1 0x3d 1, Huff 0x00 1 0x41 1, Huff 0x00 1 0x5f 1, Huff 0x00 1 0x62 1,
     Huff 0x00 1 0x64 1, Huff 0x00 1 0x66 1, Huff 0x00 1 0x67 1, Huff 0x00 1 0x68 1,
     Huff 0x00 1 0x6c 1, Huff 0x00 1 0x6d 1, Huff 0x00 1 0x6e 1, Huff 0x00 1 0x70 1,
     Huff 0x00 1 0x72 1, Huff 0x00 1 0x75 1, Huff 0x26 0 0x00 0, Huff 0x27 0 0x00 0],
    [
     Huff 0x01 1 0x3d 0, Huff 0x16 1 0x3d 1, Huff 0x01 1 0x41 0, Huff 0x16 1 0x41 1,
     Huff 0x01 1 0x5f 0, Huff 0x16 1 0x5f 1, Huff 0x01 1 0x62 0, Huff 0x16 1 0x62 1,
     Huff 0x01 1 0x64 0, Huff 0x16 1 0x64 1, Huff 0x01 1 0x66 0, Huff 0x16 1 0x66 1,
     Huff 0x01 1 0x67 0, Huff 0x16 1 0x67 1, Huff 0x01 1 0x68 0, Huff 0x16 1 0x68 1],
    [
     Huff 0x02 1 0x3d 0, Huff 0x09 1 0x3d 0, Huff 0x17 1 0x3d 0, Huff 0x28 1 0x3d 1,
     Huff 0x02 1 0x41 0, Huff 0x09 1 0x41 0, Huff 0x17 1 0x41 0, Huff 0x28 1 0x41 1,
     Huff 0x02 1 0x5f 0, Huff 0x09 1 0x5f 0, Huff 0x17 1 0x5f 0, Huff 0x28 1 0x5f 1,
     Huff 0x02 1 0x62 0, Huff 0x09 1 0x62 0, Huff 0x17 1 0x62 0, Huff 0x28 1 0x62 1],
    [
     Huff 0x03 1 0x3d 0, Huff 0x06 1 0x3d 0, Huff 0x0a 1 0x3d 0, Huff 0x0f 1 0x3d 0,
     Huff 0x18 1 0x3d 0, Huff 0x1f 1 0x3d 0, Huff 0x29 1 0x3d 0, Huff 0x38 1 0x3d 1,
     Huff 0x03 1 0x41 0, Huff 0x06 1 0x41 0, Huff 0x0a 1 0x41 0, Huff 0x0f 1 0x41 0,
     Huff 0x18 1 0x41 0, Huff 0x1f 1 0x41 0, Huff 0x29 1 0x41 0, Huff 0x38 1 0x41 1],
    [
     Huff 0x03 1 0x5f 0, Huff 0x06 1 0x5f 0, Huff 0x0a 1 0x5f 0, Huff 0x0f 1 0x5f 0,
     Huff 0x18 1 0x5f 0, Huff 0x1f 1 0x5f 0, Huff 0x29 1 0x5f 0, Huff 0x38 1 0x5f 1,
     Huff 0x03 1 0x62 0, Huff 0x06 1 0x62 0, Huff 0x0a 1 0x62 0, Huff 0x0f 1 0x62 0,
     Huff 0x18 1 0x62 0, Huff 0x1f 1 0x62 0, Huff 0x29 1 0x62 0, Huff 0x38 1 0x62 1],
    [
     Huff 0x02 1 0x64 0, Huff 0x09 1 0x64 0, Huff 0x17 1 0x64 0, Huff 0x28 1 0x64 1,
     Huff 0x02 1 0x66 0, Huff 0x09 1 0x66 0, Huff 0x17 1 0x66 0, Huff 0x28 1 0x66 1,
     Huff 0x02 1 0x67 0, Huff 0x09 1 0x67 0, Huff 0x17 1 0x67 0, Huff 0x28 1 0x67 1,
     Huff 0x02 1 0x68 0, Huff 0x09 1 0x68 0, Huff 0x17 1 0x68 0, Huff 0x28 1 0x68 1],
    [
     Huff 0x03 1 0x64 0, Huff 0x06 1 0x64 0, Huff 0x0a 1 0x64 0, Huff 0x0f 1 0x64 0,
     Huff 0x18 1 0x64 0, Huff 0x1f 1 0x64 0, Huff 0x29 1 0x64 0, Huff 0x38 1 0x64 1,
     Huff 0x03 1 0x66 0, Huff 0x06 1 0x66 0, Huff 0x0a 1 0x66 0, Huff 0x0f 1 0x66 0,
     Huff 0x18 1 0x66 0, Huff 0x1f 1 0x66 0, Huff 0x29 1 0x66 0, Huff 0x38 1 0x66 1],
    [
     Huff 0x03 1 0x67 0, Huff 0x06 1 0x67 0, Huff 0x0a 1 0x67 0, Huff 0x0f 1 0x67 0,
     Huff 0x18 1 0x67 0, Huff 0x1f 1 0x67 0, Huff 0x29 1 0x67 0, Huff 0x38 1 0x67 1,
     Huff 0x03 1 0x68 0, Huff 0x06 1 0x68 0, Huff 0x0a 1 0x68 0, Huff 0x0f 1 0x68 0,
     Huff 0x18 1 0x68 0, Huff 0x1f 1 0x68 0, Huff 0x29 1 0x68 0, Huff 0x38 1 0x68 1],
    [
     Huff 0x01 1 0x6c 0, Huff 0x16 1 0x6c 1, Huff 0x01 1 0x6d 0, Huff 0x16 1 0x6d 1,
     Huff 0x01 1 0x6e 0, Huff 0x16 1 0x6e 1, Huff 0x01 1 0x70 0, Huff 0x16 1 0x70 1,
     Huff 0x01 1 0x72 0, Huff 0x16 1 0x72 1, Huff 0x01 1 0x75 0, Huff 0x16 1 0x75 1,
     Huff 0x00 1 0x3a 1, Huff 0x00 1 0x42 1, Huff 0x00 1 0x43 1, Huff 0x00 1 0x44 1]]"

definition huff_rows_2 :: "huff_code list list" where
  "huff_rows_2 = [
    [
     Huff 0x02 1 0x6c 0, Huff 0x09 1 0x6c 0, Huff 0x17 1 0x6c 0, Huff 0x28 1 0x6c 1,
     Huff 0x02 1 0x6d 0, Huff 0x09 1 0x6d 0, Huff 0x17 1 0x6d 0, Huff 0x28 1 0x6d 1,
     Huff 0x02 1 0x6e 0, Huff 0x09 1 0x6e 0, Huff 0x17 1 0x6e 0, Huff 0x28 1 0x6e 1,
     Huff 0x02 1 0x70 0, Huff 0x09 1 0x70 0, Huff 0x17 1 0x70 0, Huff 0x28 1 0x70 1],
    [
     Huff 0x03 1 0x6c 0, Huff 0x06 1 0x6c 0, Huff 0x0a 1 0x6c 0, Huff 0x0f 1 0x6c 0,
     Huff 0x18 1 0x6c 0, Huff 0x1f 1 0x6c 0, Huff 0x29 1 0x6c 0, Huff 0x38 1 0x6c 1,
     Huff 0x03 1 0x6d 0, Huff 0x06 1 0x6d 0, Huff 0x0a 1 0x6d 0, Huff 0x0f 1 0x6d 0,
     Huff 0x18 1 0x6d 0, Huff 0x1f 1 0x6d 0, Huff 0x29 1 0x6d 0, Huff 0x38 1 0x6d 1],
    [
     Huff 0x03 1 0x6e 0, Huff 0x06 1 0x6e 0, Huff 0x0a 1 0x6e 0, Huff 0x0f 1 0x6e 0,
     Huff 0x18 1 0x6e 0, Huff 0x1f 1 0x6e 0, Huff 0x29 1 0x6e 0, Huff 0x38 1 0x6e 1,
     Huff 0x03 1 0x70 0, Huff 0x06 1 0x70 0, Huff 0x0a 1 0x70 0, Huff 0x0f 1 0x70 0,
     Huff 0x18 1 0x70 0, Huff 0x1f 1 0x70 0, Huff 0x29 1 0x70 0, Huff 0x38 1 0x70 1],
    [
     Huff 0x02 1 0x72 0, Huff 0x09 1 0x72 0, Huff 0x17 1 0x72 0, Huff 0x28 1 0x72 1,
     Huff 0x02 1 0x75 0, Huff 0x09 1 0x75 0, Huff 0x17 1 0x75 0, Huff 0x28 1 0x75 1,
     Huff 0x01 1 0x3a 0, Huff 0x16 1 0x3a 1, Huff 0x01 1 0x42 0, Huff 0x16 1 0x42 1,
     Huff 0x01 1 0x43 0, Huff 0x16 1 0x43 1, Huff 0x01 1 0x44 0, Huff 0x16 1 0x44 1],
    [
     Huff 0x03 1 0x72 0, Huff 0x06 1 0x72 0, Huff 0x0a 1 0x72 0, Huff 0x0f 1 0x72 0,
     Huff 0x18 1 0x72 0, Huff 0x1f 1 0x72 0, Huff 0x29 1 0x72 0, Huff 0x38 1 0x72 1,
     Huff 0x03 1 0x75 0, Huff 0x06 1 0x75 0, Huff 0x0a 1 0x75 0, Huff 0x0f 1 0x75 0,
     Huff 0x18 1 0x75 0, Huff 0x1f 1 0x75 0, Huff 0x29 1 0x75 0, Huff 0x38 1 0x75 1],
    [
     Huff 0x02 1 0x3a 0, Huff 0x09 1 0x3a 0, Huff 0x17 1 0x3a 0, Huff 0x28 1 0x3a 1,
     Huff 0x02 1 0x42 0, Huff 0x09 1 0x42 0, Huff 0x17 1 0x42 0, Huff 0x28 1 0x42 1,
     Huff 0x02 1 0x43 0, Huff 0x09 1 0x43 0, Huff 0x17 1 0x43 0, Huff 0x28 1 0x43 1,
     Huff 0x02 1 0x44 0, Huff 0x09 1 0x44 0, Huff 0x17 1 0x44 0, Huff 0x28 1 0x44 1],
    [
     Huff 0x03 1 0x3a 0, Huff 0x06 1 0x3a 0, Huff 0x0a 1 0x3a 0, Huff 0x0f 1 0x3a 0,
     Huff 0x18 1 0x3a 0, Huff 0x1f 1 0x3a 0, Huff 0x29 1 0x3a 0, Huff 0x38 1 0x3a 1,
     Huff 0x03 1 0x42 0, Huff 0x06 1 0x42 0, Huff 0x0a 1 0x42 0, Huff 0x0f 1 0x42 0,
     Huff 0x18 1 0x42 0, Huff 0x1f 1 0x42 0, Huff 0x29 1 0x42 0, Huff 0x38 1 0x42 1],
    [
     Huff 0x03 1 0x43 0, Huff 0x06 1 0x43 0, Huff 0x0a 1 0x43 0, Huff 0x0f 1 0x43 0,
     Huff 0x18 1 0x43 0, Huff 0x1f 1 0x43 0, Huff 0x29 1 0x43 0, Huff 0x38 1 0x43 1,
     Huff 0x03 1 0x44 0, Huff 0x06 1 0x44 0, Huff 0x0a 1 0x44 0, Huff 0x0f 1 0x44 0,
     Huff 0x18 1 0x44 0, Huff 0x1f 1 0x44 0, Huff 0x29 1 0x44 0, Huff 0x38 1 0x44 1],
    [
     Huff 0x2c 0 0x00 0, Huff 0x2d 0 0x00 0, Huff 0x2f 0 0x00 0, Huff 0x30 0 0x00 0,
     Huff 0x33 0 0x00 0, Huff 0x34 0 0x00 0, Huff 0x36 0 0x00 0, Huff 0x37 0 0x00 0,
     Huff 0x3b 0 0x00 0, Huff 0x3c 0 0x00 0, Huff 0x3e 0 0x00 0, Huff 0x3f 0 0x00 0,
     Huff 0x42 0 0x00 0, Huff 0x43 0 0x00 0, Huff 0x45 0 0x00 0, Huff 0x48 0 0x00 1],
    [
     Huff 0x00 1 0x45 1, Huff 0x00 1 0x46 1, Huff 0x00 1 0x47 1, Huff 0x00 1 0x48 1,
     Huff 0x00 1 0x49 1, Huff 0x00 1 0x4a 1, Huff 0x00 1 0x4b 1, Huff 0x00 1 0x4c 1,
     Huff 0x00 1 0x4d 1, Huff 0x00 1 0x4e 1, Huff 0x00 1 0x4f 1, Huff 0x00 1 0x50 1,
     Huff 0x00 1 0x51 1, Huff 0x00 1 0x52 1, Huff 0x00 1 0x53 1, Huff 0x00 1 0x54 1],
    [
     Huff 0x01 1 0x45 0, Huff 0x16 1 0x45 1, Huff 0x01 1 0x46 0, Huff 0x16 1 0x46 1,
     Huff 0x01 1 0x47 0, Huff 0x16 1 0x47 1, Huff 0x01 1 0x48 0, Huff 0x16 1 0x48 1,
     Huff 0x01 1 0x49 0, Huff 0x16 1 0x49 1, Huff 0x01 1 0x4a 0, Huff 0x16 1 0x4a 1,
     Huff 0x01 1 0x4b 0, Huff 0x16 1 0x4b 1, Huff 0x01 1 0x4c 0, Huff 0x16 1 0x4c 1],
    [
     Huff 0x02 1 0x45 0, Huff 0x09 1 0x45 0, Huff 0x17 1 0x45 0, Huff 0x28 1 0x45 1,
     Huff 0x02 1 0x46 0, Huff 0x09 1 0x46 0, Huff 0x17 1 0x46 0, Huff 0x28 1 0x46 1,
     Huff 0x02 1 0x47 0, Huff 0x09 1 0x47 0, Huff 0x17 1 0x47 0, Huff 0x28 1 0x47 1,
     Huff 0x02 1 0x48 0, Huff 0x09 1 0x48 0, Huff 0x17 1 0x48 0, Huff 0x28 1 0x48 1],
    [
     Huff 0x03 1 0x45 0, Huff 0x06 1 0x45 0, Huff 0x0a 1 0x45 0, Huff 0x0f 1 0x45 0,
     Huff 0x18 1 0x45 0, Huff 0x1f 1 0x45 0, Huff 0x29 1 0x45 0, Huff 0x38 1 0x45 1,
     Huff 0x03 1 0x46 0, Huff 0x06 1 0x46 0, Huff 0x0a 1 0x46 0, Huff 0x0f 1 0x46 0,
     Huff 0x18 1 0x46 0, Huff 0x1f 1 0x46 0, Huff 0x29 1 0x46 0, Huff 0x38 1 0x46 1],
    [
     Huff 0x03 1 0x47 0, Huff 0x06 1 0x47 0, Huff 0x0a 1 0x47 0, Huff 0x0f 1 0x47 0,
     Huff 0x18 1 0x47 0, Huff 0x1f 1 0x47 0, Huff 0x29 1 0x47 0, Huff 0x38 1 0x47 1,
     Huff 0x03 1 0x48 0, Huff 0x06 1 0x48 0, Huff 0x0a 1 0x48 0, Huff 0x0f 1 0x48 0,
     Huff 0x18 1 0x48 0, Huff 0x1f 1 0x48 0, Huff 0x29 1 0x48 0, Huff 0x38 1 0x48 1],
    [
     Huff 0x02 1 0x49 0, Huff 0x09 1 0x49 0, Huff 0x17 1 0x49 0, Huff 0x28 1 0x49 1,
     Huff 0x02 1 0x4a 0, Huff 0x09 1 0x4a 0, Huff 0x17 1 0x4a 0, Huff 0x28 1 0x4a 1,
     Huff 0x02 1 0x4b 0, Huff 0x09 1 0x4b 0, Huff 0x17 1 0x4b 0, Huff 0x28 1 0x4b 1,
     Huff 0x02 1 0x4c 0, Huff 0x09 1 0x4c 0, Huff 0x17 1 0x4c 0, Huff 0x28 1 0x4c 1],
    [
     Huff 0x03 1 0x49 0, Huff 0x06 1 0x49 0, Huff 0x0a 1 0x49 0, Huff 0x0f 1 0x49 0,
     Huff 0x18 1 0x49 0, Huff 0x1f 1 0x49 0, Huff 0x29 1 0x49 0, Huff 0x38 1 0x49 1,
     Huff 0x03 1 0x4a 0, Huff 0x06 1 0x4a 0, Huff 0x0a 1 0x4a 0, Huff 0x0f 1 0x4a 0,
     Huff 0x18 1 0x4a 0, Huff 0x1f 1 0x4a 0, Huff 0x29 1 0x4a 0, Huff 0x38 1 0x4a 1]]"

definition huff_rows_3 :: "huff_code list list" where
  "huff_rows_3 = [
    [
     Huff 0x03 1 0x4b 0, Huff 0x06 1 0x4b 0, Huff 0x0a 1 0x4b 0, Huff 0x0f 1 0x4b 0,
     Huff 0x18 1 0x4b 0, Huff 0x1f 1 0x4b 0, Huff 0x29 1 0x4b 0, Huff 0x38 1 0x4b 1,
     Huff 0x03 1 0x4c 0, Huff 0x06 1 0x4c 0, Huff 0x0a 1 0x4c 0, Huff 0x0f 1 0x4c 0,
     Huff 0x18 1 0x4c 0, Huff 0x1f 1 0x4c 0, Huff 0x29 1 0x4c 0, Huff 0x38 1 0x4c 1],
    [
     Huff 0x01 1 0x4d 0, Huff 0x16 1 0x4d 1, Huff 0x01 1 0x4e 0, Huff 0x16 1 0x4e 1,
     Huff 0x01 1 0x4f 0, Huff 0x16 1 0x4f 1, Huff 0x01 1 0x50 0, Huff 0x16 1 0x50 1,
     Huff 0x01 1 0x51 0, Huff 0x16 1 0x51 1, Huff 0x01 1 0x52 0, Huff 0x16 1 0x52 1,
     Huff 0x01 1 0x53 0, Huff 0x16 1 0x53 1, Huff 0x01 1 0x54 0, Huff 0x16 1 0x54 1],
    [
     Huff 0x02 1 0x4d 0, Huff 0x09 1 0x4d 0, Huff 0x17 1 0x4d 0, Huff 0x28 1 0x4d 1,
     Huff 0x02 1 0x4e 0, Huff 0x09 1 0x4e 0, Huff 0x17 1 0x4e 0, Huff 0x28 1 0x4e 1,
     Huff 0x02 1 0x4f 0, Huff 0x09 1 0x4f 0, Huff 0x17 1 0x4f 0, Huff 0x28 1 0x4f 1,
     Huff 0x02 1 0x50 0, Huff 0x09 1 0x50 0, Huff 0x17 1 0x50 0, Huff 0x28 1 0x50 1],
    [
     Huff 0x03 1 0x4d 0, Huff 0x06 1 0x4d 0, Huff 0x0a 1 0x4d 0, Huff 0x0f 1 0x4d 0,
     Huff 0x18 1 0x4d 0, Huff 0x1f 1 0x4d 0, Huff 0x29 1 0x4d 0, Huff 0x38 1 0x4d 1,
     Huff 0x03 1 0x4e 0, Huff 0x06 1 0x4e 0, Huff 0x0a 1 0x4e 0, Huff 0x0f 1 0x4e 0,
     Huff 0x18 1 0x4e 0, Huff 0x1f 1 0x4e 0, Huff 0x29 1 0x4e 0, Huff 0x38 1 0x4e 1],
    [
     Huff 0x03 1 0x4f 0, Huff 0x06 1 0x4f 0, Huff 0x0a 1 0x4f 0, Huff 0x0f 1 0x4f 0,
     Huff 0x18 1 0x4f 0, Huff 0x1f 1 0x4f 0, Huff 0x29 1 0x4f 0, Huff 0x38 1 0x4f 1,
     Huff 0x03 1 0x50 0, Huff 0x06 1 0x50 0, Huff 0x0a 1 0x50 0, Huff 0x0f 1 0x50 0,
     Huff 0x18 1 0x50 0, Huff 0x1f 1 0x50 0, Huff 0x29 1 0x50 0, Huff 0x38 1 0x50 1],
    [
     Huff 0x02 1 0x51 0, Huff 0x09 1 0x51 0, Huff 0x17 1 0x51 0, Huff 0x28 1 0x51 1,
     Huff 0x02 1 0x52 0, Huff 0x09 1 0x52 0, Huff 0x17 1 0x52 0, Huff 0x28 1 0x52 1,
     Huff 0x02 1 0x53 0, Huff 0x09 1 0x53 0, Huff 0x17 1 0x53 0, Huff 0x28 1 0x53 1,
     Huff 0x02 1 0x54 0, Huff 0x09 1 0x54 0, Huff 0x17 1 0x54 0, Huff 0x28 1 0x54 1],
    [
     Huff 0x03 1 0x51 0, Huff 0x06 1 0x51 0, Huff 0x0a 1 0x51 0, Huff 0x0f 1 0x51 0,
     Huff 0x18 1 0x51 0, Huff 0x1f 1 0x51 0, Huff 0x29 1 0x51 0, Huff 0x38 1 0x51 1,
     Huff 0x03 1 0x52 0, Huff 0x06 1 0x52 0, Huff 0x0a 1 0x52 0, Huff 0x0f 1 0x52 0,
     Huff 0x18 1 0x52 0, Huff 0x1f 1 0x52 0, Huff 0x29 1 0x52 0, Huff 0x38 1 0x52 1],
    [
     Huff 0x03 1 0x53 0, Huff 0x06 1 0x53 0, Huff 0x0a 1 0x53 0, Huff 0x0f 1 0x53 0,
     Huff 0x18 1 0x53 0, Huff 0x1f 1 0x53 0, Huff 0x29 1 0x53 0, Huff 0x38 1 0x53 1,
     Huff 0x03 1 0x54 0, Huff 0x06 1 0x54 0, Huff 0x0a 1 0x54 0, Huff 0x0f 1 0x54 0,
     Huff 0x18 1 0x54 0, Huff 0x1f 1 0x54 0, Huff 0x29 1 0x54 0, Huff 0x38 1 0x54 1],
    [
     Huff 0x00 1 0x55 1, Huff 0x00 1 0x56 1, Huff 0x00 1 0x57 1, Huff 0x00 1 0x59 1,
     Huff 0x00 1 0x6a 1, Huff 0x00 1 0x6b 1, Huff 0x00 1 0x71 1, Huff 0x00 1 0x76 1,
     Huff 0x00 1 0x77 1, Huff 0x00 1 0x78 1, Huff 0x00 1 0x79 1, Huff 0x00 1 0x7a 1,
     Huff 0x46 0 0x00 0, Huff 0x47 0 0x00 0, Huff 0x49 0 0x00 0, Huff 0x4a 0 0x00 1],
    [
     Huff 0x01 1 0x55 0, Huff 0x16 1 0x55 1, Huff 0x01 1 0x56 0, Huff 0x16 1 0x56 1,
     Huff 0x01 1 0x57 0, Huff 0x16 1 0x57 1, Huff 0x01 1 0x59 0, Huff 0x16 1 0x59 1,
     Huff 0x01 1 0x6a 0, Huff 0x16 1 0x6a 1, Huff 0x01 1 0x6b 0, Huff 0x16 1 0x6b 1,
     Huff 0x01 1 0x71 0, Huff 0x16 1 0x71 1, Huff 0x01 1 0x76 0, Huff 0x16 1 0x76 1],
    [
     Huff 0x02 1 0x55 0, Huff 0x09 1 0x55 0, Huff 0x17 1 0x55 0, Huff 0x28 1 0x55 1,
     Huff 0x02 1 0x56 0, Huff 0x09 1 0x56 0, Huff 0x17 1 0x56 0, Huff 0x28 1 0x56 1,
     Huff 0x02 1 0x57 0, Huff 0x09 1 0x57 0, Huff 0x17 1 0x57 0, Huff 0x28 1 0x57 1,
     Huff 0x02 1 0x59 0, Huff 0x09 1 0x59 0, Huff 0x17 1 0x59 0, Huff 0x28 1 0x59 1],
    [
     Huff 0x03 1 0x55 0, Huff 0x06 1 0x55 0, Huff 0x0a 1 0x55 0, Huff 0x0f 1 0x55 0,
     Huff 0x18 1 0x55 0, Huff 0x1f 1 0x55 0, Huff 0x29 1 0x55 0, Huff 0x38 1 0x55 1,
     Huff 0x03 1 0x56 0, Huff 0x06 1 0x56 0, Huff 0x0a 1 0x56 0, Huff 0x0f 1 0x56 0,
     Huff 0x18 1 0x56 0, Huff 0x1f 1 0x56 0, Huff 0x29 1 0x56 0, Huff 0x38 1 0x56 1],
    [
     Huff 0x03 1 0x57 0, Huff 0x06 1 0x57 0, Huff 0x0a 1 0x57 0, Huff 0x0f 1 0x57 0,
     Huff 0x18 1 0x57 0, Huff 0x1f 1 0x57 0, Huff 0x29 1 0x57 0, Huff 0x38 1 0x57 1,
     Huff 0x03 1 0x59 0, Huff 0x06 1 0x59 0, Huff 0x0a 1 0x59 0, Huff 0x0f 1 0x59 0,
     Huff 0x18 1 0x59 0, Huff 0x1f 1 0x59 0, Huff 0x29 1 0x59 0, Huff 0x38 1 0x59 1],
    [
     Huff 0x02 1 0x6a 0, Huff 0x09 1 0x6a 0, Huff 0x17 1 0x6a 0, Huff 0x28 1 0x6a 1,
     Huff 0x02 1 0x6b 0, Huff 0x09 1 0x6b 0, Huff 0x17 1 0x6b 0, Huff 0x28 1 0x6b 1,
     Huff 0x02 1 0x71 0, Huff 0x09 1 0x71 0, Huff 0x17 1 0x71 0, Huff 0x28 1 0x71 1,
     Huff 0x02 1 0x76 0, Huff 0x09 1 0x76 0, Huff 0x17 1 0x76 0, Huff 0x28 1 0x76 1],
    [
     Huff 0x03 1 0x6a 0, Huff 0x06 1 0x6a 0, Huff 0x0a 1 0x6a 0, Huff 0x0f 1 0x6a 0,
     Huff 0x18 1 0x6a 0, Huff 0x1f 1 0x6a 0, Huff 0x29 1 0x6a 0, Huff 0x38 1 0x6a 1,
     Huff 0x03 1 0x6b 0, Huff 0x06 1 0x6b 0, Huff 0x0a 1 0x6b 0, Huff 0x0f 1 0x6b 0,
     Huff 0x18 1 0x6b 0, Huff 0x1f 1 0x6b 0, Huff 0x29 1 0x6b 0, Huff 0x38 1 0x6b 1],
    [
     Huff 0x03 1 0x71 0, Huff 0x06 1 0x71 0, Huff 0x0a 1 0x71 0, Huff 0x0f 1 0x71 0,
     Huff 0x18 1 0x71 0, Huff 0x1f 1 0x71 0, Huff 0x29 1 0x71 0, Huff 0x38 1 0x71 1,
     Huff 0x03 1 0x76 0, Huff 0x06 1 0x76 0, Huff 0x0a 1 0x76 0, Huff 0x0f 1 0x76 0,
     Huff 0x18 1 0x76 0, Huff 0x1f 1 0x76 0, Huff 0x29 1 0x76 0, Huff 0x38 1 0x76 1]]"

definition huff_rows_4 :: "huff_code list list" where
  "huff_rows_4 = [
    [
     Huff 0x01 1 0x77 0, Huff 0x16 1 0x77 1, Huff 0x01 1 0x78 0, Huff 0x16 1 0x78 1,
     Huff 0x01 1 0x79 0, Huff 0x16 1 0x79 1, Huff 0x01 1 0x7a 0, Huff 0x16 1 0x7a 1,
     Huff 0x00 1 0x26 1, Huff 0x00 1 0x2a 1, Huff 0x00 1 0x2c 1, Huff 0x00 1 0x3b 1,
     Huff 0x00 1 0x58 1, Huff 0x00 1 0x5a 1, Huff 0x4b 0 0x00 0, Huff 0x4e 0 0x00 1],
    [
     Huff 0x02 1 0x77 0, Huff 0x09 1 0x77 0, Huff 0x17 1 0x77 0, Huff 0x28 1 0x77 1,
     Huff 0x02 1 0x78 0, Huff 0x09 1 0x78 0, Huff 0x17 1 0x78 0, Huff 0x28 1 0x78 1,
     Huff 0x02 1 0x79 0, Huff 0x09 1 0x79 0, Huff 0x17 1 0x79 0, Huff 0x28 1 0x79 1,
     Huff 0x02 1 0x7a 0, Huff 0x09 1 0x7a 0, Huff 0x17 1 0x7a 0, Huff 0x28 1 0x7a 1],
    [
     Huff 0x03 1 0x77 0, Huff 0x06 1 0x77 0, Huff 0x0a 1 0x77 0, Huff 0x0f 1 0x77 0,
     Huff 0x18 1 0x77 0, Huff 0x1f 1 0x77 0, Huff 0x29 1 0x77 0, Huff 0x38 1 0x77 1,
     Huff 0x03 1 0x78 0, Huff 0x06 1 0x78 0, Huff 0x0a 1 0x78 0, Huff 0x0f 1 0x78 0,
     Huff 0x18 1 0x78 0, Huff 0x1f 1 0x78 0, Huff 0x29 1 0x78 0, Huff 0x38 1 0x78 1],
    [
     Huff 0x03 1 0x79 0, Huff 0x06 1 0x79 0, Huff 0x0a 1 0x79 0, Huff 0x0f 1 0x79 0,
     Huff 0x18 1 0x79 0, Huff 0x1f 1 0x79 0, Huff 0x29 1 0x79 0, Huff 0x38 1 0x79 1,
     Huff 0x03 1 0x7a 0, Huff 0x06 1 0x7a 0, Huff 0x0a 1 0x7a 0, Huff 0x0f 1 0x7a 0,
     Huff 0x18 1 0x7a 0, Huff 0x1f 1 0x7a 0, Huff 0x29 1 0x7a 0, Huff 0x38 1 0x7a 1],
    [
     Huff 0x01 1 0x26 0, Huff 0x16 1 0x26 1, Huff 0x01 1 0x2a 0, Huff 0x16 1 0x2a 1,
     Huff 0x01 1 0x2c 0, Huff 0x16 1 0x2c 1, Huff 0x01 1 0x3b 0, Huff 0x16 1 0x3b 1,
     Huff 0x01 1 0x58 0, Huff 0x16 1 0x58 1, Huff 0x01 1 0x5a 0, Huff 0x16 1 0x5a 1,
     Huff 0x4c 0 0x00 0, Huff 0x4d 0 0x00 0, Huff 0x4f 0 0x00 0, Huff 0x51 0 0x00 1],
    [
     Huff 0x02 1 0x26 0, Huff 0x09 1 0x26 0, Huff 0x17 1 0x26 0, Huff 0x28 1 0x26 1,
     Huff 0x02 1 0x2a 0, Huff 0x09 1 0x2a 0, Huff 0x17 1 0x2a 0, Huff 0x28 1 0x2a 1,
     Huff 0x02 1 0x2c 0, Huff 0x09 1 0x2c 0, Huff 0x17 1 0x2c 0, Huff 0x28 1 0x2c 1,
     Huff 0x02 1 0x3b 0, Huff 0x09 1 0x3b 0, Huff 0x17 1 0x3b 0, Huff 0x28 1 0x3b 1],
    [
     Huff 0x03 1 0x26 0, Huff 0x06 1 0x26 0, Huff 0x0a 1 0x26 0, Huff 0x0f 1 0x26 0,
     Huff 0x18 1 0x26 0, Huff 0x1f 1 0x26 0, Huff 0x29 1 0x26 0, Huff 0x38 1 0x26 1,
     Huff 0x03 1 0x2a 0, Huff 0x06 1 0x2a 0, Huff 0x0a 1 0x2a 0, Huff 0x0f 1 0x2a 0,
     Huff 0x18 1 0x2a 0, Huff 0x1f 1 0x2a 0, Huff 0x29 1 0x2a 0, Huff 0x38 1 0x2a 1],
    [
     Huff 0x03 1 0x2c 0, Huff 0x06 1 0x2c 0, Huff 0x0a 1 0x2c 0, Huff 0x0f 1 0x2c 0,
     Huff 0x18 1 0x2c 0, Huff 0x1f 1 0x2c 0, Huff 0x29 1 0x2c 0, Huff 0x38 1 0x2c 1,
     Huff 0x03 1 0x3b 0, Huff 0x06 1 0x3b 0, Huff 0x0a 1 0x3b 0, Huff 0x0f 1 0x3b 0,
     Huff 0x18 1 0x3b 0, Huff 0x1f 1 0x3b 0, Huff 0x29 1 0x3b 0, Huff 0x38 1 0x3b 1],
    [
     Huff 0x02 1 0x58 0, Huff 0x09 1 0x58 0, Huff 0x17 1 0x58 0, Huff 0x28 1 0x58 1,
     Huff 0x02 1 0x5a 0, Huff 0x09 1 0x5a 0, Huff 0x17 1 0x5a 0, Huff 0x28 1 0x5a 1,
     Huff 0x00 1 0x21 1, Huff 0x00 1 0x22 1, Huff 0x00 1 0x28 1, Huff 0x00 1 0x29 1,
     Huff 0x00 1 0x3f 1, Huff 0x50 0 0x00 0, Huff 0x52 0 0x00 0, Huff 0x54 0 0x00 1],
    [
     Huff 0x03 1 0x58 0, Huff 0x06 1 0x58 0, Huff 0x0a 1 0x58 0, Huff 0x0f 1 0x58 0,
     Huff 0x18 1 0x58 0, Huff 0x1f 1 0x58 0, Huff 0x29 1 0x58 0, Huff 0x38 1 0x58 1,
     Huff 0x03 1 0x5a 0, Huff 0x06 1 0x5a 0, Huff 0x0a 1 0x5a 0, Huff 0x0f 1 0x5a 0,
     Huff 0x18 1 0x5a 0, Huff 0x1f 1 0x5a 0, Huff 0x29 1 0x5a 0, Huff 0x38 1 0x5a 1],
    [
     Huff 0x01 1 0x21 0, Huff 0x16 1 0x21 1, Huff 0x01 1 0x22 0, Huff 0x16 1 0x22 1,
     Huff 0x01 1 0x28 0, Huff 0x16 1 0x28 1, Huff 0x01 1 0x29 0, Huff 0x16 1 0x29 1,
     Huff 0x01 1 0x3f 0, Huff 0x16 1 0x3f 1, Huff 0x00 1 0x27 1, Huff 0x00 1 0x2b 1,
     Huff 0x00 1 0x7c 1, Huff 0x53 0 0x00 0, Huff 0x55 0 0x00 0, Huff 0x58 0 0x00 1],
    [
     Huff 0x02 1 0x21 0, Huff 0x09 1 0x21 0, Huff 0x17 1 0x21 0, Huff 0x28 1 0x21 1,
     Huff 0x02 1 0x22 0, Huff 0x09 1 0x22 0, Huff 0x17 1 0x22 0, Huff 0x28 1 0x22 1,
     Huff 0x02 1 0x28 0, Huff 0x09 1 0x28 0, Huff 0x17 1 0x28 0, Huff 0x28 1 0x28 1,
     Huff 0x02 1 0x29 0, Huff 0x09 1 0x29 0, Huff 0x17 1 0x29 0, Huff 0x28 1 0x29 1],
    [
     Huff 0x03 1 0x21 0, Huff 0x06 1 0x21 0, Huff 0x0a 1 0x21 0, Huff 0x0f 1 0x21 0,
     Huff 0x18 1 0x21 0, Huff 0x1f 1 0x21 0, Huff 0x29 1 0x21 0, Huff 0x38 1 0x21 1,
     Huff 0x03 1 0x22 0, Huff 0x06 1 0x22 0, Huff 0x0a 1 0x22 0, Huff 0x0f 1 0x22 0,
     Huff 0x18 1 0x22 0, Huff 0x1f 1 0x22 0, Huff 0x29 1 0x22 0, Huff 0x38 1 0x22 1],
    [
     Huff 0x03 1 0x28 0, Huff 0x06 1 0x28 0, Huff 0x0a 1 0x28 0, Huff 0x0f 1 0x28 0,
     Huff 0x18 1 0x28 0, Huff 0x1f 1 0x28 0, Huff 0x29 1 0x28 0, Huff 0x38 1 0x28 1,
     Huff 0x03 1 0x29 0, Huff 0x06 1 0x29 0, Huff 0x0a 1 0x29 0, Huff 0x0f 1 0x29 0,
     Huff 0x18 1 0x29 0, Huff 0x1f 1 0x29 0, Huff 0x29 1 0x29 0, Huff 0x38 1 0x29 1],
    [
     Huff 0x02 1 0x3f 0, Huff 0x09 1 0x3f 0, Huff 0x17 1 0x3f 0, Huff 0x28 1 0x3f 1,
     Huff 0x01 1 0x27 0, Huff 0x16 1 0x27 1, Huff 0x01 1 0x2b 0, Huff 0x16 1 0x2b 1,
     Huff 0x01 1 0x7c 0, Huff 0x16 1 0x7c 1, Huff 0x00 1 0x23 1, Huff 0x00 1 0x3e 1,
     Huff 0x56 0 0x00 0, Huff 0x57 0 0x00 0, Huff 0x59 0 0x00 0, Huff 0x5a 0 0x00 1],
    [
     Huff 0x03 1 0x3f 0, Huff 0x06 1 0x3f 0, Huff 0x0a 1 0x3f 0, Huff 0x0f 1 0x3f 0,
     Huff 0x18 1 0x3f 0, Huff 0x1f 1 0x3f 0, Huff 0x29 1 0x3f 0, Huff 0x38 1 0x3f 1,
     Huff 0x02 1 0x27 0, Huff 0x09 1 0x27 0, Huff 0x17 1 0x27 0, Huff 0x28 1 0x27 1,
     Huff 0x02 1 0x2b 0, Huff 0x09 1 0x2b 0, Huff 0x17 1 0x2b 0, Huff 0x28 1 0x2b 1]]"

definition huff_rows_5 :: "huff_code list list" where
  "huff_rows_5 = [
    [
     Huff 0x03 1 0x27 0, Huff 0x06 1 0x27 0, Huff 0x0a 1 0x27 0, Huff 0x0f 1 0x27 0,
     Huff 0x18 1 0x27 0, Huff 0x1f 1 0x27 0, Huff 0x29 1 0x27 0, Huff 0x38 1 0x27 1,
     Huff 0x03 1 0x2b 0, Huff 0x06 1 0x2b 0, Huff 0x0a 1 0x2b 0, Huff 0x0f 1 0x2b 0,
     Huff 0x18 1 0x2b 0, Huff 0x1f 1 0x2b 0, Huff 0x29 1 0x2b 0, Huff 0x38 1 0x2b 1],
    [
     Huff 0x02 1 0x7c 0, Huff 0x09 1 0x7c 0, Huff 0x17 1 0x7c 0, Huff 0x28 1 0x7c 1,
     Huff 0x01 1 0x23 0, Huff 0x16 1 0x23 1, Huff 0x01 1 0x3e 0, Huff 0x16 1 0x3e 1,
     Huff 0x00 1 0x00 1, Huff 0x00 1 0x24 1, Huff 0x00 1 0x40 1, Huff 0x00 1 0x5b 1,
     Huff 0x00 1 0x5d 1, Huff 0x00 1 0x7e 1, Huff 0x5b 0 0x00 0, Huff 0x5c 0 0x00 1],
    [
     Huff 0x03 1 0x7c 0, Huff 0x06 1 0x7c 0, Huff 0x0a 1 0x7c 0, Huff 0x0f 1 0x7c 0,
     Huff 0x18 1 0x7c 0, Huff 0x1f 1 0x7c 0, Huff 0x29 1 0x7c 0, Huff 0x38 1 0x7c 1,
     Huff 0x02 1 0x23 0, Huff 0x09 1 0x23 0, Huff 0x17 1 0x23 0, Huff 0x28 1 0x23 1,
     Huff 0x02 1 0x3e 0, Huff 0x09 1 0x3e 0, Huff 0x17 1 0x3e 0, Huff 0x28 1 0x3e 1],
    [
     Huff 0x03 1 0x23 0, Huff 0x06 1 0x23 0, Huff 0x0a 1 0x23 0, Huff 0x0f 1 0x23 0,
     Huff 0x18 1 0x23 0, Huff 0x1f 1 0x23 0, Huff 0x29 1 0x23 0, Huff 0x38 1 0x23 1,
     Huff 0x03 1 0x3e 0, Huff 0x06 1 0x3e 0, Huff 0x0a 1 0x3e 0, Huff 0x0f 1 0x3e 0,
     Huff 0x18 1 0x3e 0, Huff 0x1f 1 0x3e 0, Huff 0x29 1 0x3e 0, Huff 0x38 1 0x3e 1],
    [
     Huff 0x01 1 0x00 0, Huff 0x16 1 0x00 1, Huff 0x01 1 0x24 0, Huff 0x16 1 0x24 1,
     Huff 0x01 1 0x40 0, Huff 0x16 1 0x40 1, Huff 0x01 1 0x5b 0, Huff 0x16 1 0x5b 1,
     Huff 0x01 1 0x5d 0, Huff 0x16 1 0x5d 1, Huff 0x01 1 0x7e 0, Huff 0x16 1 0x7e 1,
     Huff 0x00 1 0x5e 1, Huff 0x00 1 0x7d 1, Huff 0x5d 0 0x00 0, Huff 0x5e 0 0x00 1],
    [
     Huff 0x02 1 0x00 0, Huff 0x09 1 0x00 0, Huff 0x17 1 0x00 0, Huff 0x28 1 0x00 1,
     Huff 0x02 1 0x24 0, Huff 0x09 1 0x24 0, Huff 0x17 1 0x24 0, Huff 0x28 1 0x24 1,
     Huff 0x02 1 0x40 0, Huff 0x09 1 0x40 0, Huff 0x17 1 0x40 0, Huff 0x28 1 0x40 1,
     Huff 0x02 1 0x5b 0, Huff 0x09 1 0x5b 0, Huff 0x17 1 0x5b 0, Huff 0x28 1 0x5b 1],
    [
     Huff 0x03 1 0x00 0, Huff 0x06 1 0x00 0, Huff 0x0a 1 0x00 0, Huff 0x0f 1 0x00 0,
     Huff 0x18 1 0x00 0, Huff 0x1f 1 0x00 0, Huff 0x29 1 0x00 0, Huff 0x38 1 0x00 1,
     Huff 0x03 1 0x24 0, Huff 0x06 1 0x24 0, Huff 0x0a 1 0x24 0, Huff 0x0f 1 0x24 0,
     Huff 0x18 1 0x24 0, Huff 0x1f 1 0x24 0, Huff 0x29 1 0x24 0, Huff 0x38 1 0x24 1],
    [
     Huff 0x03 1 0x40 0, Huff 0x06 1 0x40 0, Huff 0x0a 1 0x40 0, Huff 0x0f 1 0x40 0,
     Huff 0x18 1 0x40 0, Huff 0x1f 1 0x40 0, Huff 0x29 1 0x40 0, Huff 0x38 1 0x40 1,
     Huff 0x03 1 0x5b 0, Huff 0x06 1 0x5b 0, Huff 0x0a 1 0x5b 0, Huff 0x0f 1 0x5b 0,
     Huff 0x18 1 0x5b 0, Huff 0x1f 1 0x5b 0, Huff 0x29 1 0x5b 0, Huff 0x38 1 0x5b 1],
    [
     Huff 0x02 1 0x5d 0, Huff 0x09 1 0x5d 0, Huff 0x17 1 0x5d 0, Huff 0x28 1 0x5d 1,
     Huff 0x02 1 0x7e 0, Huff 0x09 1 0x7e 0, Huff 0x17 1 0x7e 0, Huff 0x28 1 0x7e 1,
     Huff 0x01 1 0x5e 0, Huff 0x16 1 0x5e 1, Huff 0x01 1 0x7d 0, Huff 0x16 1 0x7d 1,
     Huff 0x00 1 0x3c 1, Huff 0x00 1 0x60 1, Huff 0x00 1 0x7b 1, Huff 0x5f 0 0x00 1],
    [
     Huff 0x03 1 0x5d 0, Huff 0x06 1 0x5d 0, Huff 0x0a 1 0x5d 0, Huff 0x0f 1 0x5d 0,
     Huff 0x18 1 0x5d 0, Huff 0x1f 1 0x5d 0, Huff 0x29 1 0x5d 0, Huff 0x38 1 0x5d 1,
     Huff 0x03 1 0x7e 0, Huff 0x06 1 0x7e 0, Huff 0x0a 1 0x7e 0, Huff 0x0f 1 0x7e 0,
     Huff 0x18 1 0x7e 0, Huff 0x1f 1 0x7e 0, Huff 0x29 1 0x7e 0, Huff 0x38 1 0x7e 1],
    [
     Huff 0x02 1 0x5e 0, Huff 0x09 1 0x5e 0, Huff 0x17 1 0x5e 0, Huff 0x28 1 0x5e 1,
     Huff 0x02 1 0x7d 0, Huff 0x09 1 0x7d 0, Huff 0x17 1 0x7d 0, Huff 0x28 1 0x7d 1,
     Huff 0x01 1 0x3c 0, Huff 0x16 1 0x3c 1, Huff 0x01 1 0x60 0, Huff 0x16 1 0x60 1,
     Huff 0x01 1 0x7b 0, Huff 0x16 1 0x7b 1, Huff 0x60 0 0x00 0, Huff 0x6e 0 0x00 1],
    [
     Huff 0x03 1 0x5e 0, Huff 0x06 1 0x5e 0, Huff 0x0a 1 0x5e 0, Huff 0x0f 1 0x5e 0,
     Huff 0x18 1 0x5e 0, Huff 0x1f 1 0x5e 0, Huff 0x29 1 0x5e 0, Huff 0x38 1 0x5e 1,
     Huff 0x03 1 0x7d 0, Huff 0x06 1 0x7d 0, Huff 0x0a 1 0x7d 0, Huff 0x0f 1 0x7d 0,
     Huff 0x18 1 0x7d 0, Huff 0x1f 1 0x7d 0, Huff 0x29 1 0x7d 0, Huff 0x38 1 0x7d 1],
    [
     Huff 0x02 1 0x3c 0, Huff 0x09 1 0x3c 0, Huff 0x17 1 0x3c 0, Huff 0x28 1 0x3c 1,
     Huff 0x02 1 0x60 0, Huff 0x09 1 0x60 0, Huff 0x17 1 0x60 0, Huff 0x28 1 0x60 1,
     Huff 0x02 1 0x7b 0, Huff 0x09 1 0x7b 0, Huff 0x17 1 0x7b 0, Huff 0x28 1 0x7b 1,
     Huff 0x61 0 0x00 0, Huff 0x65 0 0x00 0, Huff 0x6f 0 0x00 0, Huff 0x85 0 0x00 1],
    [
     Huff 0x03 1 0x3c 0, Huff 0x06 1 0x3c 0, Huff 0x0a 1 0x3c 0, Huff 0x0f 1 0x3c 0,
     Huff 0x18 1 0x3c 0, Huff 0x1f 1 0x3c 0, Huff 0x29 1 0x3c 0, Huff 0x38 1 0x3c 1,
     Huff 0x03 1 0x60 0, Huff 0x06 1 0x60 0, Huff 0x0a 1 0x60 0, Huff 0x0f 1 0x60 0,
     Huff 0x18 1 0x60 0, Huff 0x1f 1 0x60 0, Huff 0x29 1 0x60 0, Huff 0x38 1 0x60 1],
    [
     Huff 0x03 1 0x7b 0, Huff 0x06 1 0x7b 0, Huff 0x0a 1 0x7b 0, Huff 0x0f 1 0x7b 0,
     Huff 0x18 1 0x7b 0, Huff 0x1f 1 0x7b 0, Huff 0x29 1 0x7b 0, Huff 0x38 1 0x7b 1,
     Huff 0x62 0 0x00 0, Huff 0x63 0 0x00 0, Huff 0x66 0 0x00 0, Huff 0x69 0 0x00 0,
     Huff 0x70 0 0x00 0, Huff 0x77 0 0x00 0, Huff 0x86 0 0x00 0, Huff 0x99 0 0x00 1],
    [
     Huff 0x00 1 0x5c 1, Huff 0x00 1 0xc3 1, Huff 0x00 1 0xd0 1, Huff 0x64 0 0x00 0,
     Huff 0x67 0 0x00 0, Huff 0x68 0 0x00 0, Huff 0x6a 0 0x00 0, Huff 0x6b 0 0x00 0,
     Huff 0x71 0 0x00 0, Huff 0x74 0 0x00 0, Huff 0x78 0 0x00 0, Huff 0x7e 0 0x00 0,
     Huff 0x87 0 0x00 0, Huff 0x8e 0 0x00 0, Huff 0x9a 0 0x00 0, Huff 0xa9 0 0x00 1]]"

definition huff_rows_6 :: "huff_code list list" where
  "huff_rows_6 = [
    [
     Huff 0x01 1 0x5c 0, Huff 0x16 1 0x5c 1, Huff 0x01 1 0xc3 0, Huff 0x16 1 0xc3 1,
     Huff 0x01 1 0xd0 0, Huff 0x16 1 0xd0 1, Huff 0x00 1 0x80 1, Huff 0x00 1 0x82 1,
     Huff 0x00 1 0x83 1, Huff 0x00 1 0xa2 1, Huff 0x00 1 0xb8 1, Huff 0x00 1 0xc2 1,
     Huff 0x00 1 0xe0 1, Huff 0x00 1 0xe2 1, Huff 0x6c 0 0x00 0, Huff 0x6d 0 0x00 0],
    [
     Huff 0x02 1 0x5c 0, Huff 0x09 1 0x5c 0, Huff 0x17 1 0x5c 0, Huff 0x28 1 0x5c 1,
     Huff 0x02 1 0xc3 0, Huff 0x09 1 0xc3 0, Huff 0x17 1 0xc3 0, Huff 0x28 1 0xc3 1,
     Huff 0x02 1 0xd0 0, Huff 0x09 1 0xd0 0, Huff 0x17 1 0xd0 0, Huff 0x28 1 0xd0 1,
     Huff 0x01 1 0x80 0, Huff 0x16 1 0x80 1, Huff 0x01 1 0x82 0, Huff 0x16 1 0x82 1],
    [
     Huff 0x03 1 0x5c 0, Huff 0x06 1 0x5c 0, Huff 0x0a 1 0x5c 0, Huff 0x0f 1 0x5c 0,
     Huff 0x18 1 0x5c 0, Huff 0x1f 1 0x5c 0, Huff 0x29 1 0x5c 0, Huff 0x38 1 0x5c 1,
     Huff 0x03 1 0xc3 0, Huff 0x06 1 0xc3 0, Huff 0x0a 1 0xc3 0, Huff 0x0f 1 0xc3 0,
     Huff 0x18 1 0xc3 0, Huff 0x1f 1 0xc3 0, Huff 0x29 1 0xc3 0, Huff 0x38 1 0xc3 1],
    [
     Huff 0x03 1 0xd0 0, Huff 0x06 1 0xd0 0, Huff 0x0a 1 0xd0 0, Huff 0x0f 1 0xd0 0,
     Huff 0x18 1 0xd0 0, Huff 0x1f 1 0xd0 0, Huff 0x29 1 0xd0 0, Huff 0x38 1 0xd0 1,
     Huff 0x02 1 0x80 0, Huff 0x09 1 0x80 0, Huff 0x17 1 0x80 0, Huff 0x28 1 0x80 1,
     Huff 0x02 1 0x82 0, Huff 0x09 1 0x82 0, Huff 0x17 1 0x82 0, Huff 0x28 1 0x82 1],
    [
     Huff 0x03 1 0x80 0, Huff 0x06 1 0x80 0, Huff 0x0a 1 0x80 0, Huff 0x0f 1 0x80 0,
     Huff 0x18 1 0x80 0, Huff 0x1f 1 0x80 0, Huff 0x29 1 0x80 0, Huff 0x38 1 0x80 1,
     Huff 0x03 1 0x82 0, Huff 0x06 1 0x82 0, Huff 0x0a 1 0x82 0, Huff 0x0f 1 0x82 0,
     Huff 0x18 1 0x82 0, Huff 0x1f 1 0x82 0, Huff 0x29 1 0x82 0, Huff 0x38 1 0x82 1],
    [
     Huff 0x01 1 0x83 0, Huff 0x16 1 0x83 1, Huff 0x01 1 0xa2 0, Huff 0x16 1 0xa2 1,
     Huff 0x01 1 0xb8 0, Huff 0x16 1 0xb8 1, Huff 0x01 1 0xc2 0, Huff 0x16 1 0xc2 1,
     Huff 0x01 1 0xe0 0, Huff 0x16 1 0xe0 1, Huff 0x01 1 0xe2 0, Huff 0x16 1 0xe2 1,
     Huff 0x00 1 0x99 1, Huff 0x00 1 0xa1 1, Huff 0x00 1 0xa7 1, Huff 0x00 1 0xac 1],
    [
     Huff 0x02 1 0x83 0, Huff 0x09 1 0x83 0, Huff 0x17 1 0x83 0, Huff 0x28 1 0x83 1,
     Huff 0x02 1 0xa2 0, Huff 0x09 1 0xa2 0, Huff 0x17 1 0xa2 0, Huff 0x28 1 0xa2 1,
     Huff 0x02 1 0xb8 0, Huff 0x09 1 0xb8 0, Huff 0x17 1 0xb8 0, Huff 0x28 1 0xb8 1,
     Huff 0x02 1 0xc2 0, Huff 0x09 1 0xc2 0, Huff 0x17 1 0xc2 0, Huff 0x28 1 0xc2 1],
    [
     Huff 0x03 1 0x83 0, Huff 0x06 1 0x83 0, Huff 0x0a 1 0x83 0, Huff 0x0f 1 0x83 0,
     Huff 0x18 1 0x83 0, Huff 0x1f 1 0x83 0, Huff 0x29 1 0x83 0, Huff 0x38 1 0x83 1,
     Huff 0x03 1 0xa2 0, Huff 0x06 1 0xa2 0, Huff 0x0a 1 0xa2 0, Huff 0x0f 1 0xa2 0,
     Huff 0x18 1 0xa2 0, Huff 0x1f 1 0xa2 0, Huff 0x29 1 0xa2 0, Huff 0x38 1 0xa2 1],
    [
     Huff 0x03 1 0xb8 0, Huff 0x06 1 0xb8 0, Huff 0x0a 1 0xb8 0, Huff 0x0f 1 0xb8 0,
     Huff 0x18 1 0xb8 0, Huff 0x1f 1 0xb8 0, Huff 0x29 1 0xb8 0, Huff 0x38 1 0xb8 1,
     Huff 0x03 1 0xc2 0, Huff 0x06 1 0xc2 0, Huff 0x0a 1 0xc2 0, Huff 0x0f 1 0xc2 0,
     Huff 0x18 1 0xc2 0, Huff 0x1f 1 0xc2 0, Huff 0x29 1 0xc2 0, Huff 0x38 1 0xc2 1],
    [
     Huff 0x02 1 0xe0 0, Huff 0x09 1 0xe0 0, Huff 0x17 1 0xe0 0, Huff 0x28 1 0xe0 1,
     Huff 0x02 1 0xe2 0, Huff 0x09 1 0xe2 0, Huff 0x17 1 0xe2 0, Huff 0x28 1 0xe2 1,
     Huff 0x01 1 0x99 0, Huff 0x16 1 0x99 1, Huff 0x01 1 0xa1 0, Huff 0x16 1 0xa1 1,
     Huff 0x01 1 0xa7 0, Huff 0x16 1 0xa7 1, Huff 0x01 1 0xac 0, Huff 0x16 1 0xac 1],
    [
     Huff 0x03 1 0xe0 0, Huff 0x06 1 0xe0 0, Huff 0x0a 1 0xe0 0, Huff 0x0f 1 0xe0 0,
     Huff 0x18 1 0xe0 0, Huff 0x1f 1 0xe0 0, Huff 0x29 1 0xe0 0, Huff 0x38 1 0xe0 1,
     Huff 0x03 1 0xe2 0, Huff 0x06 1 0xe2 0, Huff 0x0a 1 0xe2 0, Huff 0x0f 1 0xe2 0,
     Huff 0x18 1 0xe2 0, Huff 0x1f 1 0xe2 0, Huff 0x29 1 0xe2 0, Huff 0x38 1 0xe2 1],
    [
     Huff 0x02 1 0x99 0, Huff 0x09 1 0x99 0, Huff 0x17 1 0x99 0, Huff 0x28 1 0x99 1,
     Huff 0x02 1 0xa1 0, Huff 0x09 1 0xa1 0, Huff 0x17 1 0xa1 0, Huff 0x28 1 0xa1 1,
     Huff 0x02 1 0xa7 0, Huff 0x09 1 0xa7 0, Huff 0x17 1 0xa7 0, Huff 0x28 1 0xa7 1,
     Huff 0x02 1 0xac 0, Huff 0x09 1 0xac 0, Huff 0x17 1 0xac 0, Huff 0x28 1 0xac 1],
    [
     Huff 0x03 1 0x99 0, Huff 0x06 1 0x99 0, Huff 0x0a 1 0x99 0, Huff 0x0f 1 0x99 0,
     Huff 0x18 1 0x99 0, Huff 0x1f 1 0x99 0, Huff 0x29 1 0x99 0, Huff 0x38 1 0x99 1,
     Huff 0x03 1 0xa1 0, Huff 0x06 1 0xa1 0, Huff 0x0a 1 0xa1 0, Huff 0x0f 1 0xa1 0,
     Huff 0x18 1 0xa1 0, Huff 0x1f 1 0xa1 0, Huff 0x29 1 0xa1 0, Huff 0x38 1 0xa1 1],
    [
     Huff 0x03 1 0xa7 0, Huff 0x06 1 0xa7 0, Huff 0x0a 1 0xa7 0, Huff 0x0f 1 0xa7 0,
     Huff 0x18 1 0xa7 0, Huff 0x1f 1 0xa7 0, Huff 0x29 1 0xa7 0, Huff 0x38 1 0xa7 1,
     Huff 0x03 1 0xac 0, Huff 0x06 1 0xac 0, Huff 0x0a 1 0xac 0, Huff 0x0f 1 0xac 0,
     Huff 0x18 1 0xac 0, Huff 0x1f 1 0xac 0, Huff 0x29 1 0xac 0, Huff 0x38 1 0xac 1],
    [
     Huff 0x72 0 0x00 0, Huff 0x73 0 0x00 0, Huff 0x75 0 0x00 0, Huff 0x76 0 0x00 0,
     Huff 0x79 0 0x00 0, Huff 0x7b 0 0x00 0, Huff 0x7f 0 0x00 0, Huff 0x82 0 0x00 0,
     Huff 0x88 0 0x00 0, Huff 0x8b 0 0x00 0, Huff 0x8f 0 0x00 0, Huff 0x92 0 0x00 0,
     Huff 0x9b 0 0x00 0, Huff 0xa2 0 0x00 0, Huff 0xaa 0 0x00 0, Huff 0xb4 0 0x00 1],
    [
     Huff 0x00 1 0xb0 1, Huff 0x00 1 0xb1 1, Huff 0x00 1 0xb3 1, Huff 0x00 1 0xd1 1,
     Huff 0x00 1 0xd8 1, Huff 0x00 1 0xd9 1, Huff 0x00 1 0xe3 1, Huff 0x00 1 0xe5 1,
     Huff 0x00 1 0xe6 1, Huff 0x7a 0 0x00 0, Huff 0x7c 0 0x00 0, Huff 0x7d 0 0x00 0,
     Huff 0x80 0 0x00 0, Huff 0x81 0 0x00 0, Huff 0x83 0 0x00 0, Huff 0x84 0 0x00 0]]"

definition huff_rows_7 :: "huff_code list list" where
  "huff_rows_7 = [
    [
     Huff 0x01 1 0xb0 0, Huff 0x16 1 0xb0 1, Huff 0x01 1 0xb1 0, Huff 0x16 1 0xb1 1,
     Huff 0x01 1 0xb3 0, Huff 0x16 1 0xb3 1, Huff 0x01 1 0xd1 0, Huff 0x16 1 0xd1 1,
     Huff 0x01 1 0xd8 0, Huff 0x16 1 0xd8 1, Huff 0x01 1 0xd9 0, Huff 0x16 1 0xd9 1,
     Huff 0x01 1 0xe3 0, Huff 0x16 1 0xe3 1, Huff 0x01 1 0xe5 0, Huff 0x16 1 0xe5 1],
    [
     Huff 0x02 1 0xb0 0, Huff 0x09 1 0xb0 0, Huff 0x17 1 0xb0 0, Huff 0x28 1 0xb0 1,
     Huff 0x02 1 0xb1 0, Huff 0x09 1 0xb1 0, Huff 0x17 1 0xb1 0, Huff 0x28 1 0xb1 1,
     Huff 0x02 1 0xb3 0, Huff 0x09 1 0xb3 0, Huff 0x17 1 0xb3 0, Huff 0x28 1 0xb3 1,
     Huff 0x02 1 0xd1 0, Huff 0x09 1 0xd1 0, Huff 0x17 1 0xd1 0, Huff 0x28 1 0xd1 1],
    [
     Huff 0x03 1 0xb0 0, Huff 0x06 1 0xb0 0, Huff 0x0a 1 0xb0 0, Huff 0x0f 1 0xb0 0,
     Huff 0x18 1 0xb0 0, Huff 0x1f 1 0xb0 0, Huff 0x29 1 0xb0 0, Huff 0x38 1 0xb0 1,
     Huff 0x03 1 0xb1 0, Huff 0x06 1 0xb1 0, Huff 0x0a 1 0xb1 0, Huff 0x0f 1 0xb1 0,
     Huff 0x18 1 0xb1 0, Huff 0x1f 1 0xb1 0, Huff 0x29 1 0xb1 0, Huff 0x38 1 0xb1 1],
    [
     Huff 0x03 1 0xb3 0, Huff 0x06 1 0xb3 0, Huff 0x0a 1 0xb3 0, Huff 0x0f 1 0xb3 0,
     Huff 0x18 1 0xb3 0, Huff 0x1f 1 0xb3 0, Huff 0x29 1 0xb3 0, Huff 0x38 1 0xb3 1,
     Huff 0x03 1 0xd1 0, Huff 0x06 1 0xd1 0, Huff 0x0a 1 0xd1 0, Huff 0x0f 1 0xd1 0,
     Huff 0x18 1 0xd1 0, Huff 0x1f 1 0xd1 0, Huff 0x29 1 0xd1 0, Huff 0x38 1 0xd1 1],
    [
     Huff 0x02 1 0xd8 0, Huff 0x09 1 0xd8 0, Huff 0x17 1 0xd8 0, Huff 0x28 1 0xd8 1,
     Huff 0x02 1 0xd9 0, Huff 0x09 1 0xd9 0, Huff 0x17 1 0xd9 0, Huff 0x28 1 0xd9 1,
     Huff 0x02 1 0xe3 0, Huff 0x09 1 0xe3 0, Huff 0x17 1 0xe3 0, Huff 0x28 1 0xe3 1,
     Huff 0x02 1 0xe5 0, Huff 0x09 1 0xe5 0, Huff 0x17 1 0xe5 0, Huff 0x28 1 0xe5 1],
    [
     Huff 0x03 1 0xd8 0, Huff 0x06 1 0xd8 0, Huff 0x0a 1 0xd8 0, Huff 0x0f 1 0xd8 0,
     Huff 0x18 1 0xd8 0, Huff 0x1f 1 0xd8 0, Huff 0x29 1 0xd8 0, Huff 0x38 1 0xd8 1,
     Huff 0x03 1 0xd9 0, Huff 0x06 1 0xd9 0, Huff 0x0a 1 0xd9 0, Huff 0x0f 1 0xd9 0,
     Huff 0x18 1 0xd9 0, Huff 0x1f 1 0xd9 0, Huff 0x29 1 0xd9 0, Huff 0x38 1 0xd9 1],
    [
     Huff 0x03 1 0xe3 0, Huff 0x06 1 0xe3 0, Huff 0x0a 1 0xe3 0, Huff 0x0f 1 0xe3 0,
     Huff 0x18 1 0xe3 0, Huff 0x1f 1 0xe3 0, Huff 0x29 1 0xe3 0, Huff 0x38 1 0xe3 1,
     Huff 0x03 1 0xe5 0, Huff 0x06 1 0xe5 0, Huff 0x0a 1 0xe5 0, Huff 0x0f 1 0xe5 0,
     Huff 0x18 1 0xe5 0, Huff 0x1f 1 0xe5 0, Huff 0x29 1 0xe5 0, Huff 0x38 1 0xe5 1],
    [
     Huff 0x01 1 0xe6 0, Huff 0x16 1 0xe6 1, Huff 0x00 1 0x81 1, Huff 0x00 1 0x84 1,
     Huff 0x00 1 0x85 1, Huff 0x00 1 0x86 1, Huff 0x00 1 0x88 1, Huff 0x00 1 0x92 1,
     Huff 0x00 1 0x9a 1, Huff 0x00 1 0x9c 1, Huff 0x00 1 0xa0 1, Huff 0x00 1 0xa3 1,
     Huff 0x00 1 0xa4 1, Huff 0x00 1 0xa9 1, Huff 0x00 1 0xaa 1, Huff 0x00 1 0xad 1],
    [
     Huff 0x02 1 0xe6 0, Huff 0x09 1 0xe6 0, Huff 0x17 1 0xe6 0, Huff 0x28 1 0xe6 1,
     Huff 0x01 1 0x81 0, Huff 0x16 1 0x81 1, Huff 0x01 1 0x84 0, Huff 0x16 1 0x84 1,
     Huff 0x01 1 0x85 0, Huff 0x16 1 0x85 1, Huff 0x01 1 0x86 0, Huff 0x16 1 0x86 1,
     Huff 0x01 1 0x88 0, Huff 0x16 1 0x88 1, Huff 0x01 1 0x92 0, Huff 0x16 1 0x92 1],
    [
     Huff 0x03 1 0xe6 0, Huff 0x06 1 0xe6 0, Huff 0x0a 1 0xe6 0, Huff 0x0f 1 0xe6 0,
     Huff 0x18 1 0xe6 0, Huff 0x1f 1 0xe6 0, Huff 0x29 1 0xe6 0, Huff 0x38 1 0xe6 1,
     Huff 0x02 1 0x81 0, Huff 0x09 1 0x81 0, Huff 0x17 1 0x81 0, Huff 0x28 1 0x81 1,
     Huff 0x02 1 0x84 0, Huff 0x09 1 0x84 0, Huff 0x17 1 0x84 0, Huff 0x28 1 0x84 1],
    [
     Huff 0x03 1 0x81 0, Huff 0x06 1 0x81 0, Huff 0x0a 1 0x81 0, Huff 0x0f 1 0x81 0,
     Huff 0x18 1 0x81 0, Huff 0x1f 1 0x81 0, Huff 0x29 1 0x81 0, Huff 0x38 1 0x81 1,
     Huff 0x03 1 0x84 0, Huff 0x06 1 0x84 0, Huff 0x0a 1 0x84 0, Huff 0x0f 1 0x84 0,
     Huff 0x18 1 0x84 0, Huff 0x1f 1 0x84 0, Huff 0x29 1 0x84 0, Huff 0x38 1 0x84 1],
    [
     Huff 0x02 1 0x85 0, Huff 0x09 1 0x85 0, Huff 0x17 1 0x85 0, Huff 0x28 1 0x85 1,
     Huff 0x02 1 0x86 0, Huff 0x09 1 0x86 0, Huff 0x17 1 0x86 0, Huff 0x28 1 0x86 1,
     Huff 0x02 1 0x88 0, Huff 0x09 1 0x88 0, Huff 0x17 1 0x88 0, Huff 0x28 1 0x88 1,
     Huff 0x02 1 0x92 0, Huff 0x09 1 0x92 0, Huff 0x17 1 0x92 0, Huff 0x28 1 0x92 1],
    [
     Huff 0x03 1 0x85 0, Huff 0x06 1 0x85 0, Huff 0x0a 1 0x85 0, Huff 0x0f 1 0x85 0,
     Huff 0x18 1 0x85 0, Huff 0x1f 1 0x85 0, Huff 0x29 1 0x85 0, Huff 0x38 1 0x85 1,
     Huff 0x03 1 0x86 0, Huff 0x06 1 0x86 0, Huff 0x0a 1 0x86 0, Huff 0x0f 1 0x86 0,
     Huff 0x18 1 0x86 0, Huff 0x1f 1 0x86 0, Huff 0x29 1 0x86 0, Huff 0x38 1 0x86 1],
    [
     Huff 0x03 1 0x88 0, Huff 0x06 1 0x88 0, Huff 0x0a 1 0x88 0, Huff 0x0f 1 0x88 0,
     Huff 0x18 1 0x88 0, Huff 0x1f 1 0x88 0, Huff 0x29 1 0x88 0, Huff 0x38 1 0x88 1,
     Huff 0x03 1 0x92 0, Huff 0x06 1 0x92 0, Huff 0x0a 1 0x92 0, Huff 0x0f 1 0x92 0,
     Huff 0x18 1 0x92 0, Huff 0x1f 1 0x92 0, Huff 0x29 1 0x92 0, Huff 0x38 1 0x92 1],
    [
     Huff 0x01 1 0x9a 0, Huff 0x16 1 0x9a 1, Huff 0x01 1 0x9c 0, Huff 0x16 1 0x9c 1,
     Huff 0x01 1 0xa0 0, Huff 0x16 1 0xa0 1, Huff 0x01 1 0xa3 0, Huff 0x16 1 0xa3 1,
     Huff 0x01 1 0xa4 0, Huff 0x16 1 0xa4 1, Huff 0x01 1 0xa9 0, Huff 0x16 1 0xa9 1,
     Huff 0x01 1 0xaa 0, Huff 0x16 1 0xaa 1, Huff 0x01 1 0xad 0, Huff 0x16 1 0xad 1],
    [
     Huff 0x02 1 0x9a 0, Huff 0x09 1 0x9a 0, Huff 0x17 1 0x9a 0, Huff 0x28 1 0x9a 1,
     Huff 0x02 1 0x9c 0, Huff 0x09 1 0x9c 0, Huff 0x17 1 0x9c 0, Huff 0x28 1 0x9c 1,
     Huff 0x02 1 0xa0 0, Huff 0x09 1 0xa0 0, Huff 0x17 1 0xa0 0, Huff 0x28 1 0xa0 1,
     Huff 0x02 1 0xa3 0, Huff 0x09 1 0xa3 0, Huff 0x17 1 0xa3 0, Huff 0x28 1 0xa3 1]]"

definition huff_rows_8 :: "huff_code list list" where
  "huff_rows_8 = [
    [
     Huff 0x03 1 0x9a 0, Huff 0x06 1 0x9a 0, Huff 0x0a 1 0x9a 0, Huff 0x0f 1 0x9a 0,
     Huff 0x18 1 0x9a 0, Huff 0x1f 1 0x9a 0, Huff 0x29 1 0x9a 0, Huff 0x38 1 0x9a 1,
     Huff 0x03 1 0x9c 0, Huff 0x06 1 0x9c 0, Huff 0x0a 1 0x9c 0, Huff 0x0f 1 0x9c 0,
     Huff 0x18 1 0x9c 0, Huff 0x1f 1 0x9c 0, Huff 0x29 1 0x9c 0, Huff 0x38 1 0x9c 1],
    [
     Huff 0x03 1 0xa0 0, Huff 0x06 1 0xa0 0, Huff 0x0a 1 0xa0 0, Huff 0x0f 1 0xa0 0,
     Huff 0x18 1 0xa0 0, Huff 0x1f 1 0xa0 0, Huff 0x29 1 0xa0 0, Huff 0x38 1 0xa0 1,
     Huff 0x03 1 0xa3 0, Huff 0x06 1 0xa3 0, Huff 0x0a 1 0xa3 0, Huff 0x0f 1 0xa3 0,
     Huff 0x18 1 0xa3 0, Huff 0x1f 1 0xa3 0, Huff 0x29 1 0xa3 0, Huff 0x38 1 0xa3 1],
    [
     Huff 0x02 1 0xa4 0, Huff 0x09 1 0xa4 0, Huff 0x17 1 0xa4 0, Huff 0x28 1 0xa4 1,
     Huff 0x02 1 0xa9 0, Huff 0x09 1 0xa9 0, Huff 0x17 1 0xa9 0, Huff 0x28 1 0xa9 1,
     Huff 0x02 1 0xaa 0, Huff 0x09 1 0xaa 0, Huff 0x17 1 0xaa 0, Huff 0x28 1 0xaa 1,
     Huff 0x02 1 0xad 0, Huff 0x09 1 0xad 0, Huff 0x17 1 0xad 0, Huff 0x28 1 0xad 1],
    [
     Huff 0x03 1 0xa4 0, Huff 0x06 1 0xa4 0, Huff 0x0a 1 0xa4 0, Huff 0x0f 1 0xa4 0,
     Huff 0x18 1 0xa4 0, Huff 0x1f 1 0xa4 0, Huff 0x29 1 0xa4 0, Huff 0x38 1 0xa4 1,
     Huff 0x03 1 0xa9 0, Huff 0x06 1 0xa9 0, Huff 0x0a 1 0xa9 0, Huff 0x0f 1 0xa9 0,
     Huff 0x18 1 0xa9 0, Huff 0x1f 1 0xa9 0, Huff 0x29 1 0xa9 0, Huff 0x38 1 0xa9 1],
    [
     Huff 0x03 1 0xaa 0, Huff 0x06 1 0xaa 0, Huff 0x0a 1 0xaa 0, Huff 0x0f 1 0xaa 0,
     Huff 0x18 1 0xaa 0, Huff 0x1f 1 0xaa 0, Huff 0x29 1 0xaa 0, Huff 0x38 1 0xaa 1,
     Huff 0x03 1 0xad 0, Huff 0x06 1 0xad 0, Huff 0x0a 1 0xad 0, Huff 0x0f 1 0xad 0,
     Huff 0x18 1 0xad 0, Huff 0x1f 1 0xad 0, Huff 0x29 1 0xad 0, Huff 0x38 1 0xad 1],
    [
     Huff 0x89 0 0x00 0, Huff 0x8a 0 0x00 0, Huff 0x8c 0 0x00 0, Huff 0x8d 0 0x00 0,
     Huff 0x90 0 0x00 0, Huff 0x91 0 0x00 0, Huff 0x93 0 0x00 0, Huff 0x96 0 0x00 0,
     Huff 0x9c 0 0x00 0, Huff 0x9f 0 0x00 0, Huff 0xa3 0 0x00 0, Huff 0xa6 0 0x00 0,
     Huff 0xab 0 0x00 0, Huff 0xae 0 0x00 0, Huff 0xb5 0 0x00 0, Huff 0xbe 0 0x00 1],
    [
     Huff 0x00 1 0xb2 1, Huff 0x00 1 0xb5 1, Huff 0x00 1 0xb9 1, Huff 0x00 1 0xba 1,
     Huff 0x00 1 0xbb 1, Huff 0x00 1 0xbd 1, Huff 0x00 1 0xbe 1, Huff 0x00 1 0xc4 1,
     Huff 0x00 1 0xc6 1, Huff 0x00 1 0xe4 1, Huff 0x00 1 0xe8 1, Huff 0x00 1 0xe9 1,
     Huff 0x94 0 0x00 0, Huff 0x95 0 0x00 0, Huff 0x97 0 0x00 0, Huff 0x98 0 0x00 0],
    [
     Huff 0x01 1 0xb2 0, Huff 0x16 1 0xb2 1, Huff 0x01 1 0xb5 0, Huff 0x16 1 0xb5 1,
     Huff 0x01 1 0xb9 0, Huff 0x16 1 0xb9 1, Huff 0x01 1 0xba 0, Huff 0x16 1 0xba 1,
     Huff 0x01 1 0xbb 0, Huff 0x16 1 0xbb 1, Huff 0x01 1 0xbd 0, Huff 0x16 1 0xbd 1,
     Huff 0x01 1 0xbe 0, Huff 0x16 1 0xbe 1, Huff 0x01 1 0xc4 0, Huff 0x16 1 0xc4 1],
    [
     Huff 0x02 1 0xb2 0, Huff 0x09 1 0xb2 0, Huff 0x17 1 0xb2 0, Huff 0x28 1 0xb2 1,
     Huff 0x02 1 0xb5 0, Huff 0x09 1 0xb5 0, Huff 0x17 1 0xb5 0, Huff 0x28 1 0xb5 1,
     Huff 0x02 1 0xb9 0, Huff 0x09 1 0xb9 0, Huff 0x17 1 0xb9 0, Huff 0x28 1 0xb9 1,
     Huff 0x02 1 0xba 0, Huff 0x09 1 0xba 0, Huff 0x17 1 0xba 0, Huff 0x28 1 0xba 1],
    [
     Huff 0x03 1 0xb2 0, Huff 0x06 1 0xb2 0, Huff 0x0a 1 0xb2 0, Huff 0x0f 1 0xb2 0,
     Huff 0x18 1 0xb2 0, Huff 0x1f 1 0xb2 0, Huff 0x29 1 0xb2 0, Huff 0x38 1 0xb2 1,
     Huff 0x03 1 0xb5 0, Huff 0x06 1 0xb5 0, Huff 0x0a 1 0xb5 0, Huff 0x0f 1 0xb5 0,
     Huff 0x18 1 0xb5 0, Huff 0x1f 1 0xb5 0, Huff 0x29 1 0xb5 0, Huff 0x38 1 0xb5 1],
    [
     Huff 0x03 1 0xb9 0, Huff 0x06 1 0xb9 0, Huff 0x0a 1 0xb9 0, Huff 0x0f 1 0xb9 0,
     Huff 0x18 1 0xb9 0, Huff 0x1f 1 0xb9 0, Huff 0x29 1 0xb9 0, Huff 0x38 1 0xb9 1,
     Huff 0x03 1 0xba 0, Huff 0x06 1 0xba 0, Huff 0x0a 1 0xba 0, Huff 0x0f 1 0xba 0,
     Huff 0x18 1 0xba 0, Huff 0x1f 1 0xba 0, Huff 0x29 1 0xba 0, Huff 0x38 1 0xba 1],
    [
     Huff 0x02 1 0xbb 0, Huff 0x09 1 0xbb 0, Huff 0x17 1 0xbb 0, Huff 0x28 1 0xbb 1,
     Huff 0x02 1 0xbd 0, Huff 0x09 1 0xbd 0, Huff 0x17 1 0xbd 0, Huff 0x28 1 0xbd 1,
     Huff 0x02 1 0xbe 0, Huff 0x09 1 0xbe 0, Huff 0x17 1 0xbe 0, Huff 0x28 1 0xbe 1,
     Huff 0x02 1 0xc4 0, Huff 0x09 1 0xc4 0, Huff 0x17 1 0xc4 0, Huff 0x28 1 0xc4 1],
    [
     Huff 0x03 1 0xbb 0, Huff 0x06 1 0xbb 0, Huff 0x0a 1 0xbb 0, Huff 0x0f 1 0xbb 0,
     Huff 0x18 1 0xbb 0, Huff 0x1f 1 0xbb 0, Huff 0x29 1 0xbb 0, Huff 0x38 1 0xbb 1,
     Huff 0x03 1 0xbd 0, Huff 0x06 1 0xbd 0, Huff 0x0a 1 0xbd 0, Huff 0x0f 1 0xbd 0,
     Huff 0x18 1 0xbd 0, Huff 0x1f 1 0xbd 0, Huff 0x29 1 0xbd 0, Huff 0x38 1 0xbd 1],
    [
     Huff 0x03 1 0xbe 0, Huff 0x06 1 0xbe 0, Huff 0x0a 1 0xbe 0, Huff 0x0f 1 0xbe 0,
     Huff 0x18 1 0xbe 0, Huff 0x1f 1 0xbe 0, Huff 0x29 1 0xbe 0, Huff 0x38 1 0xbe 1,
     Huff 0x03 1 0xc4 0, Huff 0x06 1 0xc4 0, Huff 0x0a 1 0xc4 0, Huff 0x0f 1 0xc4 0,
     Huff 0x18 1 0xc4 0, Huff 0x1f 1 0xc4 0, Huff 0x29 1 0xc4 0, Huff 0x38 1 0xc4 1],
    [
     Huff 0x01 1 0xc6 0, Huff 0x16 1 0xc6 1, Huff 0x01 1 0xe4 0, Huff 0x16 1 0xe4 1,
     Huff 0x01 1 0xe8 0, Huff 0x16 1 0xe8 1, Huff 0x01 1 0xe9 0, Huff 0x16 1 0xe9 1,
     Huff 0x00 1 0x01 1, Huff 0x00 1 0x87 1, Huff 0x00 1 0x89 1, Huff 0x00 1 0x8a 1,
     Huff 0x00 1 0x8b 1, Huff 0x00 1 0x8c 1, Huff 0x00 1 0x8d 1, Huff 0x00 1 0x8f 1],
    [
     Huff 0x02 1 0xc6 0, Huff 0x09 1 0xc6 0, Huff 0x17 1 0xc6 0, Huff 0x28 1 0xc6 1,
     Huff 0x02 1 0xe4 0, Huff 0x09 1 0xe4 0, Huff 0x17 1 0xe4 0, Huff 0x28 1 0xe4 1,
     Huff 0x02 1 0xe8 0, Huff 0x09 1 0xe8 0, Huff 0x17 1 0xe8 0, Huff 0x28 1 0xe8 1,
     Huff 0x02 1 0xe9 0, Huff 0x09 1 0xe9 0, Huff 0x17 1 0xe9 0, Huff 0x28 1 0xe9 1]]"

definition huff_rows_9 :: "huff_code list list" where
  "huff_rows_9 = [
    [
     Huff 0x03 1 0xc6 0, Huff 0x06 1 0xc6 0, Huff 0x0a 1 0xc6 0, Huff 0x0f 1 0xc6 0,
     Huff 0x18 1 0xc6 0, Huff 0x1f 1 0xc6 0, Huff 0x29 1 0xc6 0, Huff 0x38 1 0xc6 1,
     Huff 0x03 1 0xe4 0, Huff 0x06 1 0xe4 0, Huff 0x0a 1 0xe4 0, Huff 0x0f 1 0xe4 0,
     Huff 0x18 1 0xe4 0, Huff 0x1f 1 0xe4 0, Huff 0x29 1 0xe4 0, Huff 0x38 1 0xe4 1],
    [
     Huff 0x03 1 0xe8 0, Huff 0x06 1 0xe8 0, Huff 0x0a 1 0xe8 0, Huff 0x0f 1 0xe8 0,
     Huff 0x18 1 0xe8 0, Huff 0x1f 1 0xe8 0, Huff 0x29 1 0xe8 0, Huff 0x38 1 0xe8 1,
     Huff 0x03 1 0xe9 0, Huff 0x06 1 0xe9 0, Huff 0x0a 1 0xe9 0, Huff 0x0f 1 0xe9 0,
     Huff 0x18 1 0xe9 0, Huff 0x1f 1 0xe9 0, Huff 0x29 1 0xe9 0, Huff 0x38 1 0xe9 1],
    [
     Huff 0x01 1 0x01 0, Huff 0x16 1 0x01 1, Huff 0x01 1 0x87 0, Huff 0x16 1 0x87 1,
     Huff 0x01 1 0x89 0, Huff 0x16 1 0x89 1, Huff 0x01 1 0x8a 0, Huff 0x16 1 0x8a 1,
     Huff 0x01 1 0x8b 0, Huff 0x16 1 0x8b 1, Huff 0x01 1 0x8c 0, Huff 0x16 1 0x8c 1,
     Huff 0x01 1 0x8d 0, Huff 0x16 1 0x8d 1, Huff 0x01 1 0x8f 0, Huff 0x16 1 0x8f 1],
    [
     Huff 0x02 1 0x01 0, Huff 0x09 1 0x01 0, Huff 0x17 1 0x01 0, Huff 0x28 1 0x01 1,
     Huff 0x02 1 0x87 0, Huff 0x09 1 0x87 0, Huff 0x17 1 0x87 0, Huff 0x28 1 0x87 1,
     Huff 0x02 1 0x89 0, Huff 0x09 1 0x89 0, Huff 0x17 1 0x89 0, Huff 0x28 1 0x89 1,
     Huff 0x02 1 0x8a 0, Huff 0x09 1 0x8a 0, Huff 0x17 1 0x8a 0, Huff 0x28 1 0x8a 1],
    [
     Huff 0x03 1 0x01 0, Huff 0x06 1 0x01 0, Huff 0x0a 1 0x01 0, Huff 0x0f 1 0x01 0,
     Huff 0x18 1 0x01 0, Huff 0x1f 1 0x01 0, Huff 0x29 1 0x01 0, Huff 0x38 1 0x01 1,
     Huff 0x03 1 0x87 0, Huff 0x06 1 0x87 0, Huff 0x0a 1 0x87 0, Huff 0x0f 1 0x87 0,
     Huff 0x18 1 0x87 0, Huff 0x1f 1 0x87 0, Huff 0x29 1 0x87 0, Huff 0x38 1 0x87 1],
    [
     Huff 0x03 1 0x89 0, Huff 0x06 1 0x89 0, Huff 0x0a 1 0x89 0, Huff 0x0f 1 0x89 0,
     Huff 0x18 1 0x89 0, Huff 0x1f 1 0x89 0, Huff 0x29 1 0x89 0, Huff 0x38 1 0x89 1,
     Huff 0x03 1 0x8a 0, Huff 0x06 1 0x8a 0, Huff 0x0a 1 0x8a 0, Huff 0x0f 1 0x8a 0,
     Huff 0x18 1 0x8a 0, Huff 0x1f 1 0x8a 0, Huff 0x29 1 0x8a 0, Huff 0x38 1 0x8a 1],
    [
     Huff 0x02 1 0x8b 0, Huff 0x09 1 0x8b 0, Huff 0x17 1 0x8b 0, Huff 0x28 1 0x8b 1,
     Huff 0x02 1 0x8c 0, Huff 0x09 1 0x8c 0, Huff 0x17 1 0x8c 0, Huff 0x28 1 0x8c 1,
     Huff 0x02 1 0x8d 0, Huff 0x09 1 0x8d 0, Huff 0x17 1 0x8d 0, Huff 0x28 1 0x8d 1,
     Huff 0x02 1 0x8f 0, Huff 0x09 1 0x8f 0, Huff 0x17 1 0x8f 0, Huff 0x28 1 0x8f 1],
    [
     Huff 0x03 1 0x8b 0, Huff 0x06 1 0x8b 0, Huff 0x0a 1 0x8b 0, Huff 0x0f 1 0x8b 0,
     Huff 0x18 1 0x8b 0, Huff 0x1f 1 0x8b 0, Huff 0x29 1 0x8b 0, Huff 0x38 1 0x8b 1,
     Huff 0x03 1 0x8c 0, Huff 0x06 1 0x8c 0, Huff 0x0a 1 0x8c 0, Huff 0x0f 1 0x8c 0,
     Huff 0x18 1 0x8c 0, Huff 0x1f 1 0x8c 0, Huff 0x29 1 0x8c 0, Huff 0x38 1 0x8c 1],
    [
     Huff 0x03 1 0x8d 0, Huff 0x06 1 0x8d 0, Huff 0x0a 1 0x8d 0, Huff 0x0f 1 0x8d 0,
     Huff 0x18 1 0x8d 0, Huff 0x1f 1 0x8d 0, Huff 0x29 1 0x8d 0, Huff 0x38 1 0x8d 1,
     Huff 0x03 1 0x8f 0, Huff 0x06 1 0x8f 0, Huff 0x0a 1 0x8f 0, Huff 0x0f 1 0x8f 0,
     Huff 0x18 1 0x8f 0, Huff 0x1f 1 0x8f 0, Huff 0x29 1 0x8f 0, Huff 0x38 1 0x8f 1],
    [
     Huff 0x9d 0 0x00 0, Huff 0x9e 0 0x00 0, Huff 0xa0 0 0x00 0, Huff 0xa1 0 0x00 0,
     Huff 0xa4 0 0x00 0, Huff 0xa5 0 0x00 0, Huff 0xa7 0 0x00 0, Huff 0xa8 0 0x00 0,
     Huff 0xac 0 0x00 0, Huff 0xad 0 0x00 0, Huff 0xaf 0 0x00 0, Huff 0xb1 0 0x00 0,
     Huff 0xb6 0 0x00 0, Huff 0xb9 0 0x00 0, Huff 0xbf 0 0x00 0, Huff 0xcf 0 0x00 1],
    [
     Huff 0x00 1 0x93 1, Huff 0x00 1 0x95 1, Huff 0x00 1 0x96 1, Huff 0x00 1 0x97 1,
     Huff 0x00 1 0x98 1, Huff 0x00 1 0x9b 1, Huff 0x00 1 0x9d 1, Huff 0x00 1 0x9e 1,
     Huff 0x00 1 0xa5 1, Huff 0x00 1 0xa6 1, Huff 0x00 1 0xa8 1, Huff 0x00 1 0xae 1,
     Huff 0x00 1 0xaf 1, Huff 0x00 1 0xb4 1, Huff 0x00 1 0xb6 1, Huff 0x00 1 0xb7 1],
    [
     Huff 0x01 1 0x93 0, Huff 0x16 1 0x93 1, Huff 0x01 1 0x95 0, Huff 0x16 1 0x95 1,
     Huff 0x01 1 0x96 0, Huff 0x16 1 0x96 1, Huff 0x01 1 0x97 0, Huff 0x16 1 0x97 1,
     Huff 0x01 1 0x98 0, Huff 0x16 1 0x98 1, Huff 0x01 1 0x9b 0, Huff 0x16 1 0x9b 1,
     Huff 0x01 1 0x9d 0, Huff 0x16 1 0x9d 1, Huff 0x01 1 0x9e 0, Huff 0x16 1 0x9e 1],
    [
     Huff 0x02 1 0x93 0, Huff 0x09 1 0x93 0, Huff 0x17 1 0x93 0, Huff 0x28 1 0x93 1,
     Huff 0x02 1 0x95 0, Huff 0x09 1 0x95 0, Huff 0x17 1 0x95 0, Huff 0x28 1 0x95 1,
     Huff 0x02 1 0x96 0, Huff 0x09 1 0x96 0, Huff 0x17 1 0x96 0, Huff 0x28 1 0x96 1,
     Huff 0x02 1 0x97 0, Huff 0x09 1 0x97 0, Huff 0x17 1 0x97 0, Huff 0x28 1 0x97 1],
    [
     Huff 0x03 1 0x93 0, Huff 0x06 1 0x93 0, Huff 0x0a 1 0x93 0, Huff 0x0f 1 0x93 0,
     Huff 0x18 1 0x93 0, Huff 0x1f 1 0x93 0, Huff 0x29 1 0x93 0, Huff 0x38 1 0x93 1,
     Huff 0x03 1 0x95 0, Huff 0x06 1 0x95 0, Huff 0x0a 1 0x95 0, Huff 0x0f 1 0x95 0,
     Huff 0x18 1 0x95 0, Huff 0x1f 1 0x95 0, Huff 0x29 1 0x95 0, Huff 0x38 1 0x95 1],
    [
     Huff 0x03 1 0x96 0, Huff 0x06 1 0x96 0, Huff 0x0a 1 0x96 0, Huff 0x0f 1 0x96 0,
     Huff 0x18 1 0x96 0, Huff 0x1f 1 0x96 0, Huff 0x29 1 0x96 0, Huff 0x38 1 0x96 1,
     Huff 0x03 1 0x97 0, Huff 0x06 1 0x97 0, Huff 0x0a 1 0x97 0, Huff 0x0f 1 0x97 0,
     Huff 0x18 1 0x97 0, Huff 0x1f 1 0x97 0, Huff 0x29 1 0x97 0, Huff 0x38 1 0x97 1],
    [
     Huff 0x02 1 0x98 0, Huff 0x09 1 0x98 0, Huff 0x17 1 0x98 0, Huff 0x28 1 0x98 1,
     Huff 0x02 1 0x9b 0, Huff 0x09 1 0x9b 0, Huff 0x17 1 0x9b 0, Huff 0x28 1 0x9b 1,
     Huff 0x02 1 0x9d 0, Huff 0x09 1 0x9d 0, Huff 0x17 1 0x9d 0, Huff 0x28 1 0x9d 1,
     Huff 0x02 1 0x9e 0, Huff 0x09 1 0x9e 0, Huff 0x17 1 0x9e 0, Huff 0x28 1 0x9e 1]]"

definition huff_rows_a :: "huff_code list list" where
  "huff_rows_a = [
    [
     Huff 0x03 1 0x98 0, Huff 0x06 1 0x98 0, Huff 0x0a 1 0x98 0, Huff 0x0f 1 0x98 0,
     Huff 0x18 1 0x98 0, Huff 0x1f 1 0x98 0, Huff 0x29 1 0x98 0, Huff 0x38 1 0x98 1,
     Huff 0x03 1 0x9b 0, Huff 0x06 1 0x9b 0, Huff 0x0a 1 0x9b 0, Huff 0x0f 1 0x9b 0,
     Huff 0x18 1 0x9b 0, Huff 0x1f 1 0x9b 0, Huff 0x29 1 0x9b 0, Huff 0x38 1 0x9b 1],
    [
     Huff 0x03 1 0x9d 0, Huff 0x06 1 0x9d 0, Huff 0x0a 1 0x9d 0, Huff 0x0f 1 0x9d 0,
     Huff 0x18 1 0x9d 0, Huff 0x1f 1 0x9d 0, Huff 0x29 1 0x9d 0, Huff 0x38 1 0x9d 1,
     Huff 0x03 1 0x9e 0, Huff 0x06 1 0x9e 0, Huff 0x0a 1 0x9e 0, Huff 0x0f 1 0x9e 0,
     Huff 0x18 1 0x9e 0, Huff 0x1f 1 0x9e 0, Huff 0x29 1 0x9e 0, Huff 0x38 1 0x9e 1],
    [
     Huff 0x01 1 0xa5 0, Huff 0x16 1 0xa5 1, Huff 0x01 1 0xa6 0, Huff 0x16 1 0xa6 1,
     Huff 0x01 1 0xa8 0, Huff 0x16 1 0xa8 1, Huff 0x01 1 0xae 0, Huff 0x16 1 0xae 1,
     Huff 0x01 1 0xaf 0, Huff 0x16 1 0xaf 1, Huff 0x01 1 0xb4 0, Huff 0x16 1 0xb4 1,
     Huff 0x01 1 0xb6 0, Huff 0x16 1 0xb6 1, Huff 0x01 1 0xb7 0, Huff 0x16 1 0xb7 1],
    [
     Huff 0x02 1 0xa5 0, Huff 0x09 1 0xa5 0, Huff 0x17 1 0xa5 0, Huff 0x28 1 0xa5 1,
     Huff 0x02 1 0xa6 0, Huff 0x09 1 0xa6 0, Huff 0x17 1 0xa6 0, Huff 0x28 1 0xa6 1,
     Huff 0x02 1 0xa8 0, Huff 0x09 1 0xa8 0, Huff 0x17 1 0xa8 0, Huff 0x28 1 0xa8 1,
     Huff 0x02 1 0xae 0, Huff 0x09 1 0xae 0, Huff 0x17 1 0xae 0, Huff 0x28 1 0xae 1],
    [
     Huff 0x03 1 0xa5 0, Huff 0x06 1 0xa5 0, Huff 0x0a 1 0xa5 0, Huff 0x0f 1 0xa5 0,
     Huff 0x18 1 0xa5 0, Huff 0x1f 1 0xa5 0, Huff 0x29 1 0xa5 0, Huff 0x38 1 0xa5 1,
     Huff 0x03 1 0xa6 0, Huff 0x06 1 0xa6 0, Huff 0x0a 1 0xa6 0, Huff 0x0f 1 0xa6 0,
     Huff 0x18 1 0xa6 0, Huff 0x1f 1 0xa6 0, Huff 0x29 1 0xa6 0, Huff 0x38 1 0xa6 1],
    [
     Huff 0x03 1 0xa8 0, Huff 0x06 1 0xa8 0, Huff 0x0a 1 0xa8 0, Huff 0x0f 1 0xa8 0,
     Huff 0x18 1 0xa8 0, Huff 0x1f 1 0xa8 0, Huff 0x29 1 0xa8 0, Huff 0x38 1 0xa8 1,
     Huff 0x03 1 0xae 0, Huff 0x06 1 0xae 0, Huff 0x0a 1 0xae 0, Huff 0x0f 1 0xae 0,
     Huff 0x18 1 0xae 0, Huff 0x1f 1 0xae 0, Huff 0x29 1 0xae 0, Huff 0x38 1 0xae 1],
    [
     Huff 0x02 1 0xaf 0, Huff 0x09 1 0xaf 0, Huff 0x17 1 0xaf 0, Huff 0x28 1 0xaf 1,
     Huff 0x02 1 0xb4 0, Huff 0x09 1 0xb4 0, Huff 0x17 1 0xb4 0, Huff 0x28 1 0xb4 1,
     Huff 0x02 1 0xb6 0, Huff 0x09 1 0xb6 0, Huff 0x17 1 0xb6 0, Huff 0x28 1 0xb6 1,
     Huff 0x02 1 0xb7 0, Huff 0x09 1 0xb7 0, Huff 0x17 1 0xb7 0, Huff 0x28 1 0xb7 1],
    [
     Huff 0x03 1 0xaf 0, Huff 0x06 1 0xaf 0, Huff 0x0a 1 0xaf 0, Huff 0x0f 1 0xaf 0,
     Huff 0x18 1 0xaf 0, Huff 0x1f 1 0xaf 0, Huff 0x29 1 0xaf 0, Huff 0x38 1 0xaf 1,
     Huff 0x03 1 0xb4 0, Huff 0x06 1 0xb4 0, Huff 0x0a 1 0xb4 0, Huff 0x0f 1 0xb4 0,
     Huff 0x18 1 0xb4 0, Huff 0x1f 1 0xb4 0, Huff 0x29 1 0xb4 0, Huff 0x38 1 0xb4 1],
    [
     Huff 0x03 1 0xb6 0, Huff 0x06 1 0xb6 0, Huff 0x0a 1 0xb6 0, Huff 0x0f 1 0xb6 0,
     Huff 0x18 1 0xb6 0, Huff 0x1f 1 0xb6 0, Huff 0x29 1 0xb6 0, Huff 0x38 1 0xb6 1,
     Huff 0x03 1 0xb7 0, Huff 0x06 1 0xb7 0, Huff 0x0a 1 0xb7 0, Huff 0x0f 1 0xb7 0,
     Huff 0x18 1 0xb7 0, Huff 0x1f 1 0xb7 0, Huff 0x29 1 0xb7 0, Huff 0x38 1 0xb7 1],
    [
     Huff 0x00 1 0xbc 1, Huff 0x00 1 0xbf 1, Huff 0x00 1 0xc5 1, Huff 0x00 1 0xe7 1,
     Huff 0x00 1 0xef 1, Huff 0xb0 0 0x00 0, Huff 0xb2 0 0x00 0, Huff 0xb3 0 0x00 0,
     Huff 0xb7 0 0x00 0, Huff 0xb8 0 0x00 0, Huff 0xba 0 0x00 0, Huff 0xbb 0 0x00 0,
     Huff 0xc0 0 0x00 0, Huff 0xc7 0 0x00 0, Huff 0xd0 0 0x00 0, Huff 0xdf 0 0x00 1],
    [
     Huff 0x01 1 0xbc 0, Huff 0x16 1 0xbc 1, Huff 0x01 1 0xbf 0, Huff 0x16 1 0xbf 1,
     Huff 0x01 1 0xc5 0, Huff 0x16 1 0xc5 1, Huff 0x01 1 0xe7 0, Huff 0x16 1 0xe7 1,
     Huff 0x01 1 0xef 0, Huff 0x16 1 0xef 1, Huff 0x00 1 0x09 1, Huff 0x00 1 0x8e 1,
     Huff 0x00 1 0x90 1, Huff 0x00 1 0x91 1, Huff 0x00 1 0x94 1, Huff 0x00 1 0x9f 1],
    [
     Huff 0x02 1 0xbc 0, Huff 0x09 1 0xbc 0, Huff 0x17 1 0xbc 0, Huff 0x28 1 0xbc 1,
     Huff 0x02 1 0xbf 0, Huff 0x09 1 0xbf 0, Huff 0x17 1 0xbf 0, Huff 0x28 1 0xbf 1,
     Huff 0x02 1 0xc5 0, Huff 0x09 1 0xc5 0, Huff 0x17 1 0xc5 0, Huff 0x28 1 0xc5 1,
     Huff 0x02 1 0xe7 0, Huff 0x09 1 0xe7 0, Huff 0x17 1 0xe7 0, Huff 0x28 1 0xe7 1],
    [
     Huff 0x03 1 0xbc 0, Huff 0x06 1 0xbc 0, Huff 0x0a 1 0xbc 0, Huff 0x0f 1 0xbc 0,
     Huff 0x18 1 0xbc 0, Huff 0x1f 1 0xbc 0, Huff 0x29 1 0xbc 0, Huff 0x38 1 0xbc 1,
     Huff 0x03 1 0xbf 0, Huff 0x06 1 0xbf 0, Huff 0x0a 1 0xbf 0, Huff 0x0f 1 0xbf 0,
     Huff 0x18 1 0xbf 0, Huff 0x1f 1 0xbf 0, Huff 0x29 1 0xbf 0, Huff 0x38 1 0xbf 1],
    [
     Huff 0x03 1 0xc5 0, Huff 0x06 1 0xc5 0, Huff 0x0a 1 0xc5 0, Huff 0x0f 1 0xc5 0,
     Huff 0x18 1 0xc5 0, Huff 0x1f 1 0xc5 0, Huff 0x29 1 0xc5 0, Huff 0x38 1 0xc5 1,
     Huff 0x03 1 0xe7 0, Huff 0x06 1 0xe7 0, Huff 0x0a 1 0xe7 0, Huff 0x0f 1 0xe7 0,
     Huff 0x18 1 0xe7 0, Huff 0x1f 1 0xe7 0, Huff 0x29 1 0xe7 0, Huff 0x38 1 0xe7 1],
    [
     Huff 0x02 1 0xef 0, Huff 0x09 1 0xef 0, Huff 0x17 1 0xef 0, Huff 0x28 1 0xef 1,
     Huff 0x01 1 0x09 0, Huff 0x16 1 0x09 1, Huff 0x01 1 0x8e 0, Huff 0x16 1 0x8e 1,
     Huff 0x01 1 0x90 0, Huff 0x16 1 0x90 1, Huff 0x01 1 0x91 0, Huff 0x16 1 0x91 1,
     Huff 0x01 1 0x94 0, Huff 0x16 1 0x94 1, Huff 0x01 1 0x9f 0, Huff 0x16 1 0x9f 1],
    [
     Huff 0x03 1 0xef 0, Huff 0x06 1 0xef 0, Huff 0x0a 1 0xef 0, Huff 0x0f 1 0xef 0,
     Huff 0x18 1 0xef 0, Huff 0x1f 1 0xef 0, Huff 0x29 1 0xef 0, Huff 0x38 1 0xef 1,
     Huff 0x02 1 0x09 0, Huff 0x09 1 0x09 0, Huff 0x17 1 0x09 0, Huff 0x28 1 0x09 1,
     Huff 0x02 1 0x8e 0, Huff 0x09 1 0x8e 0, Huff 0x17 1 0x8e 0, Huff 0x28 1 0x8e 1]]"

definition huff_rows_b :: "huff_code list list" where
  "huff_rows_b = [
    [
     Huff 0x03 1 0x09 0, Huff 0x06 1 0x09 0, Huff 0x0a 1 0x09 0, Huff 0x0f 1 0x09 0,
     Huff 0x18 1 0x09 0, Huff 0x1f 1 0x09 0, Huff 0x29 1 0x09 0, Huff 0x38 1 0x09 1,
     Huff 0x03 1 0x8e 0, Huff 0x06 1 0x8e 0, Huff 0x0a 1 0x8e 0, Huff 0x0f 1 0x8e 0,
     Huff 0x18 1 0x8e 0, Huff 0x1f 1 0x8e 0, Huff 0x29 1 0x8e 0, Huff 0x38 1 0x8e 1],
    [
     Huff 0x02 1 0x90 0, Huff 0x09 1 0x90 0, Huff 0x17 1 0x90 0, Huff 0x28 1 0x90 1,
     Huff 0x02 1 0x91 0, Huff 0x09 1 0x91 0, Huff 0x17 1 0x91 0, Huff 0x28 1 0x91 1,
     Huff 0x02 1 0x94 0, Huff 0x09 1 0x94 0, Huff 0x17 1 0x94 0, Huff 0x28 1 0x94 1,
     Huff 0x02 1 0x9f 0, Huff 0x09 1 0x9f 0, Huff 0x17 1 0x9f 0, Huff 0x28 1 0x9f 1],
    [
     Huff 0x03 1 0x90 0, Huff 0x06 1 0x90 0, Huff 0x0a 1 0x90 0, Huff 0x0f 1 0x90 0,
     Huff 0x18 1 0x90 0, Huff 0x1f 1 0x90 0, Huff 0x29 1 0x90 0, Huff 0x38 1 0x90 1,
     Huff 0x03 1 0x91 0, Huff 0x06 1 0x91 0, Huff 0x0a 1 0x91 0, Huff 0x0f 1 0x91 0,
     Huff 0x18 1 0x91 0, Huff 0x1f 1 0x91 0, Huff 0x29 1 0x91 0, Huff 0x38 1 0x91 1],
    [
     Huff 0x03 1 0x94 0, Huff 0x06 1 0x94 0, Huff 0x0a 1 0x94 0, Huff 0x0f 1 0x94 0,
     Huff 0x18 1 0x94 0, Huff 0x1f 1 0x94 0, Huff 0x29 1 0x94 0, Huff 0x38 1 0x94 1,
     Huff 0x03 1 0x9f 0, Huff 0x06 1 0x9f 0, Huff 0x0a 1 0x9f 0, Huff 0x0f 1 0x9f 0,
     Huff 0x18 1 0x9f 0, Huff 0x1f 1 0x9f 0, Huff 0x29 1 0x9f 0, Huff 0x38 1 0x9f 1],
    [
     Huff 0x00 1 0xab 1, Huff 0x00 1 0xce 1, Huff 0x00 1 0xd7 1, Huff 0x00 1 0xe1 1,
     Huff 0x00 1 0xec 1, Huff 0x00 1 0xed 1, Huff 0xbc 0 0x00 0, Huff 0xbd 0 0x00 0,
     Huff 0xc1 0 0x00 0, Huff 0xc4 0 0x00 0, Huff 0xc8 0 0x00 0, Huff 0xcb 0 0x00 0,
     Huff 0xd1 0 0x00 0, Huff 0xd8 0 0x00 0, Huff 0xe0 0 0x00 0, Huff 0xee 0 0x00 1],
    [
     Huff 0x01 1 0xab 0, Huff 0x16 1 0xab 1, Huff 0x01 1 0xce 0, Huff 0x16 1 0xce 1,
     Huff 0x01 1 0xd7 0, Huff 0x16 1 0xd7 1, Huff 0x01 1 0xe1 0, Huff 0x16 1 0xe1 1,
     Huff 0x01 1 0xec 0, Huff 0x16 1 0xec 1, Huff 0x01 1 0xed 0, Huff 0x16 1 0xed 1,
     Huff 0x00 1 0xc7 1, Huff 0x00 1 0xcf 1, Huff 0x00 1 0xea 1, Huff 0x00 1 0xeb 1],
    [
     Huff 0x02 1 0xab 0, Huff 0x09 1 0xab 0, Huff 0x17 1 0xab 0, Huff 0x28 1 0xab 1,
     Huff 0x02 1 0xce 0, Huff 0x09 1 0xce 0, Huff 0x17 1 0xce 0, Huff 0x28 1 0xce 1,
     Huff 0x02 1 0xd7 0, Huff 0x09 1 0xd7 0, Huff 0x17 1 0xd7 0, Huff 0x28 1 0xd7 1,
     Huff 0x02 1 0xe1 0, Huff 0x09 1 0xe1 0, Huff 0x17 1 0xe1 0, Huff 0x28 1 0xe1 1],
    [
     Huff 0x03 1 0xab 0, Huff 0x06 1 0xab 0, Huff 0x0a 1 0xab 0, Huff 0x0f 1 0xab 0,
     Huff 0x18 1 0xab 0, Huff 0x1f 1 0xab 0, Huff 0x29 1 0xab 0, Huff 0x38 1 0xab 1,
     Huff 0x03 1 0xce 0, Huff 0x06 1 0xce 0, Huff 0x0a 1 0xce 0, Huff 0x0f 1 0xce 0,
     Huff 0x18 1 0xce 0, Huff 0x1f 1 0xce 0, Huff 0x29 1 0xce 0, Huff 0x38 1 0xce 1],
    [
     Huff 0x03 1 0xd7 0, Huff 0x06 1 0xd7 0, Huff 0x0a 1 0xd7 0, Huff 0x0f 1 0xd7 0,
     Huff 0x18 1 0xd7 0, Huff 0x1f 1 0xd7 0, Huff 0x29 1 0xd7 0, Huff 0x38 1 0xd7 1,
     Huff 0x03 1 0xe1 0, Huff 0x06 1 0xe1 0, Huff 0x0a 1 0xe1 0, Huff 0x0f 1 0xe1 0,
     Huff 0x18 1 0xe1 0, Huff 0x1f 1 0xe1 0, Huff 0x29 1 0xe1 0, Huff 0x38 1 0xe1 1],
    [
     Huff 0x02 1 0xec 0, Huff 0x09 1 0xec 0, Huff 0x17 1 0xec 0, Huff 0x28 1 0xec 1,
     Huff 0x02 1 0xed 0, Huff 0x09 1 0xed 0, Huff 0x17 1 0xed 0, Huff 0x28 1 0xed 1,
     Huff 0x01 1 0xc7 0, Huff 0x16 1 0xc7 1, Huff 0x01 1 0xcf 0, Huff 0x16 1 0xcf 1,
     Huff 0x01 1 0xea 0, Huff 0x16 1 0xea 1, Huff 0x01 1 0xeb 0, Huff 0x16 1 0xeb 1],
    [
     Huff 0x03 1 0xec 0, Huff 0x06 1 0xec 0, Huff 0x0a 1 0xec 0, Huff 0x0f 1 0xec 0,
     Huff 0x18 1 0xec 0, Huff 0x1f 1 0xec 0, Huff 0x29 1 0xec 0, Huff 0x38 1 0xec 1,
     Huff 0x03 1 0xed 0, Huff 0x06 1 0xed 0, Huff 0x0a 1 0xed 0, Huff 0x0f 1 0xed 0,
     Huff 0x18 1 0xed 0, Huff 0x1f 1 0xed 0, Huff 0x29 1 0xed 0, Huff 0x38 1 0xed 1],
    [
     Huff 0x02 1 0xc7 0, Huff 0x09 1 0xc7 0, Huff 0x17 1 0xc7 0, Huff 0x28 1 0xc7 1,
     Huff 0x02 1 0xcf 0, Huff 0x09 1 0xcf 0, Huff 0x17 1 0xcf 0, Huff 0x28 1 0xcf 1,
     Huff 0x02 1 0xea 0, Huff 0x09 1 0xea 0, Huff 0x17 1 0xea 0, Huff 0x28 1 0xea 1,
     Huff 0x02 1 0xeb 0, Huff 0x09 1 0xeb 0, Huff 0x17 1 0xeb 0, Huff 0x28 1 0xeb 1],
    [
     Huff 0x03 1 0xc7 0, Huff 0x06 1 0xc7 0, Huff 0x0a 1 0xc7 0, Huff 0x0f 1 0xc7 0,
     Huff 0x18 1 0xc7 0, Huff 0x1f 1 0xc7 0, Huff 0x29 1 0xc7 0, Huff 0x38 1 0xc7 1,
     Huff 0x03 1 0xcf 0, Huff 0x06 1 0xcf 0, Huff 0x0a 1 0xcf 0, Huff 0x0f 1 0xcf 0,
     Huff 0x18 1 0xcf 0, Huff 0x1f 1 0xcf 0, Huff 0x29 1 0xcf 0, Huff 0x38 1 0xcf 1],
    [
     Huff 0x03 1 0xea 0, Huff 0x06 1 0xea 0, Huff 0x0a 1 0xea 0, Huff 0x0f 1 0xea 0,
     Huff 0x18 1 0xea 0, Huff 0x1f 1 0xea 0, Huff 0x29 1 0xea 0, Huff 0x38 1 0xea 1,
     Huff 0x03 1 0xeb 0, Huff 0x06 1 0xeb 0, Huff 0x0a 1 0xeb 0, Huff 0x0f 1 0xeb 0,
     Huff 0x18 1 0xeb 0, Huff 0x1f 1 0xeb 0, Huff 0x29 1 0xeb 0, Huff 0x38 1 0xeb 1],
    [
     Huff 0xc2 0 0x00 0, Huff 0xc3 0 0x00 0, Huff 0xc5 0 0x00 0, Huff 0xc6 0 0x00 0,
     Huff 0xc9 0 0x00 0, Huff 0xca 0 0x00 0, Huff 0xcc 0 0x00 0, Huff 0xcd 0 0x00 0,
     Huff 0xd2 0 0x00 0, Huff 0xd5 0 0x00 0, Huff 0xd9 0 0x00 0, Huff 0xdc 0 0x00 0,
     Huff 0xe1 0 0x00 0, Huff 0xe7 0 0x00 0, Huff 0xef 0 0x00 0, Huff 0xf6 0 0x00 1],
    [
     Huff 0x00 1 0xc0 1, Huff 0x00 1 0xc1 1, Huff 0x00 1 0xc8 1, Huff 0x00 1 0xc9 1,
     Huff 0x00 1 0xca 1, Huff 0x00 1 0xcd 1, Huff 0x00 1 0xd2 1, Huff 0x00 1 0xd5 1,
     Huff 0x00 1 0xda 1, Huff 0x00 1 0xdb 1, Huff 0x00 1 0xee 1, Huff 0x00 1 0xf0 1,
     Huff 0x00 1 0xf2 1, Huff 0x00 1 0xf3 1, Huff 0x00 1 0xff 1, Huff 0xce 0 0x00 0]]"

definition huff_rows_c :: "huff_code list list" where
  "huff_rows_c = [
    [
     Huff 0x01 1 0xc0 0, Huff 0x16 1 0xc0 1, Huff 0x01 1 0xc1 0, Huff 0x16 1 0xc1 1,
     Huff 0x01 1 0xc8 0, Huff 0x16 1 0xc8 1, Huff 0x01 1 0xc9 0, Huff 0x16 1 0xc9 1,
     Huff 0x01 1 0xca 0, Huff 0x16 1 0xca 1, Huff 0x01 1 0xcd 0, Huff 0x16 1 0xcd 1,
     Huff 0x01 1 0xd2 0, Huff 0x16 1 0xd2 1, Huff 0x01 1 0xd5 0, Huff 0x16 1 0xd5 1],
    [
     Huff 0x02 1 0xc0 0, Huff 0x09 1 0xc0 0, Huff 0x17 1 0xc0 0, Huff 0x28 1 0xc0 1,
     Huff 0x02 1 0xc1 0, Huff 0x09 1 0xc1 0, Huff 0x17 1 0xc1 0, Huff 0x28 1 0xc1 1,
     Huff 0x02 1 0xc8 0, Huff 0x09 1 0xc8 0, Huff 0x17 1 0xc8 0, Huff 0x28 1 0xc8 1,
     Huff 0x02 1 0xc9 0, Huff 0x09 1 0xc9 0, Huff 0x17 1 0xc9 0, Huff 0x28 1 0xc9 1],
    [
     Huff 0x03 1 0xc0 0, Huff 0x06 1 0xc0 0, Huff 0x0a 1 0xc0 0, Huff 0x0f 1 0xc0 0,
     Huff 0x18 1 0xc0 0, Huff 0x1f 1 0xc0 0, Huff 0x29 1 0xc0 0, Huff 0x38 1 0xc0 1,
     Huff 0x03 1 0xc1 0, Huff 0x06 1 0xc1 0, Huff 0x0a 1 0xc1 0, Huff 0x0f 1 0xc1 0,
     Huff 0x18 1 0xc1 0, Huff 0x1f 1 0xc1 0, Huff 0x29 1 0xc1 0, Huff 0x38 1 0xc1 1],
    [
     Huff 0x03 1 0xc8 0, Huff 0x06 1 0xc8 0, Huff 0x0a 1 0xc8 0, Huff 0x0f 1 0xc8 0,
     Huff 0x18 1 0xc8 0, Huff 0x1f 1 0xc8 0, Huff 0x29 1 0xc8 0, Huff 0x38 1 0xc8 1,
     Huff 0x03 1 0xc9 0, Huff 0x06 1 0xc9 0, Huff 0x0a 1 0xc9 0, Huff 0x0f 1 0xc9 0,
     Huff 0x18 1 0xc9 0, Huff 0x1f 1 0xc9 0, Huff 0x29 1 0xc9 0, Huff 0x38 1 0xc9 1],
    [
     Huff 0x02 1 0xca 0, Huff 0x09 1 0xca 0, Huff 0x17 1 0xca 0, Huff 0x28 1 0xca 1,
     Huff 0x02 1 0xcd 0, Huff 0x09 1 0xcd 0, Huff 0x17 1 0xcd 0, Huff 0x28 1 0xcd 1,
     Huff 0x02 1 0xd2 0, Huff 0x09 1 0xd2 0, Huff 0x17 1 0xd2 0, Huff 0x28 1 0xd2 1,
     Huff 0x02 1 0xd5 0, Huff 0x09 1 0xd5 0, Huff 0x17 1 0xd5 0, Huff 0x28 1 0xd5 1],
    [
     Huff 0x03 1 0xca 0, Huff 0x06 1 0xca 0, Huff 0x0a 1 0xca 0, Huff 0x0f 1 0xca 0,
     Huff 0x18 1 0xca 0, Huff 0x1f 1 0xca 0, Huff 0x29 1 0xca 0, Huff 0x38 1 0xca 1,
     Huff 0x03 1 0xcd 0, Huff 0x06 1 0xcd 0, Huff 0x0a 1 0xcd 0, Huff 0x0f 1 0xcd 0,
     Huff 0x18 1 0xcd 0, Huff 0x1f 1 0xcd 0, Huff 0x29 1 0xcd 0, Huff 0x38 1 0xcd 1],
    [
     Huff 0x03 1 0xd2 0, Huff 0x06 1 0xd2 0, Huff 0x0a 1 0xd2 0, Huff 0x0f 1 0xd2 0,
     Huff 0x18 1 0xd2 0, Huff 0x1f 1 0xd2 0, Huff 0x29 1 0xd2 0, Huff 0x38 1 0xd2 1,
     Huff 0x03 1 0xd5 0, Huff 0x06 1 0xd5 0, Huff 0x0a 1 0xd5 0, Huff 0x0f 1 0xd5 0,
     Huff 0x18 1 0xd5 0, Huff 0x1f 1 0xd5 0, Huff 0x29 1 0xd5 0, Huff 0x38 1 0xd5 1],
    [
     Huff 0x01 1 0xda 0, Huff 0x16 1 0xda 1, Huff 0x01 1 0xdb 0, Huff 0x16 1 0xdb 1,
     Huff 0x01 1 0xee 0, Huff 0x16 1 0xee 1, Huff 0x01 1 0xf0 0, Huff 0x16 1 0xf0 1,
     Huff 0x01 1 0xf2 0, Huff 0x16 1 0xf2 1, Huff 0x01 1 0xf3 0, Huff 0x16 1 0xf3 1,
     Huff 0x01 1 0xff 0, Huff 0x16 1 0xff 1, Huff 0x00 1 0xcb 1, Huff 0x00 1 0xcc 1],
    [
     Huff 0x02 1 0xda 0, Huff 0x09 1 0xda 0, Huff 0x17 1 0xda 0, Huff 0x28 1 0xda 1,
     Huff 0x02 1 0xdb 0, Huff 0x09 1 0xdb 0, Huff 0x17 1 0xdb 0, Huff 0x28 1 0xdb 1,
     Huff 0x02 1 0xee 0, Huff 0x09 1 0xee 0, Huff 0x17 1 0xee 0, Huff 0x28 1 0xee 1,
     Huff 0x02 1 0xf0 0, Huff 0x09 1 0xf0 0, Huff 0x17 1 0xf0 0, Huff 0x28 1 0xf0 1],
    [
     Huff 0x03 1 0xda 0, Huff 0x06 1 0xda 0, Huff 0x0a 1 0xda 0, Huff 0x0f 1 0xda 0,
     Huff 0x18 1 0xda 0, Huff 0x1f 1 0xda 0, Huff 0x29 1 0xda 0, Huff 0x38 1 0xda 1,
     Huff 0x03 1 0xdb 0, Huff 0x06 1 0xdb 0, Huff 0x0a 1 0xdb 0, Huff 0x0f 1 0xdb 0,
     Huff 0x18 1 0xdb 0, Huff 0x1f 1 0xdb 0, Huff 0x29 1 0xdb 0, Huff 0x38 1 0xdb 1],
    [
     Huff 0x03 1 0xee 0, Huff 0x06 1 0xee 0, Huff 0x0a 1 0xee 0, Huff 0x0f 1 0xee 0,
     Huff 0x18 1 0xee 0, Huff 0x1f 1 0xee 0, Huff 0x29 1 0xee 0, Huff 0x38 1 0xee 1,
     Huff 0x03 1 0xf0 0, Huff 0x06 1 0xf0 0, Huff 0x0a 1 0xf0 0, Huff 0x0f 1 0xf0 0,
     Huff 0x18 1 0xf0 0, Huff 0x1f 1 0xf0 0, Huff 0x29 1 0xf0 0, Huff 0x38 1 0xf0 1],
    [
     Huff 0x02 1 0xf2 0, Huff 0x09 1 0xf2 0, Huff 0x17 1 0xf2 0, Huff 0x28 1 0xf2 1,
     Huff 0x02 1 0xf3 0, Huff 0x09 1 0xf3 0, Huff 0x17 1 0xf3 0, Huff 0x28 1 0xf3 1,
     Huff 0x02 1 0xff 0, Huff 0x09 1 0xff 0, Huff 0x17 1 0xff 0, Huff 0x28 1 0xff 1,
     Huff 0x01 1 0xcb 0, Huff 0x16 1 0xcb 1, Huff 0x01 1 0xcc 0, Huff 0x16 1 0xcc 1],
    [
     Huff 0x03 1 0xf2 0, Huff 0x06 1 0xf2 0, Huff 0x0a 1 0xf2 0, Huff 0x0f 1 0xf2 0,
     Huff 0x18 1 0xf2 0, Huff 0x1f 1 0xf2 0, Huff 0x29 1 0xf2 0, Huff 0x38 1 0xf2 1,
     Huff 0x03 1 0xf3 0, Huff 0x06 1 0xf3 0, Huff 0x0a 1 0xf3 0, Huff 0x0f 1 0xf3 0,
     Huff 0x18 1 0xf3 0, Huff 0x1f 1 0xf3 0, Huff 0x29 1 0xf3 0, Huff 0x38 1 0xf3 1],
    [
     Huff 0x03 1 0xff 0, Huff 0x06 1 0xff 0, Huff 0x0a 1 0xff 0, Huff 0x0f 1 0xff 0,
     Huff 0x18 1 0xff 0, Huff 0x1f 1 0xff 0, Huff 0x29 1 0xff 0, Huff 0x38 1 0xff 1,
     Huff 0x02 1 0xcb 0, Huff 0x09 1 0xcb 0, Huff 0x17 1 0xcb 0, Huff 0x28 1 0xcb 1,
     Huff 0x02 1 0xcc 0, Huff 0x09 1 0xcc 0, Huff 0x17 1 0xcc 0, Huff 0x28 1 0xcc 1],
    [
     Huff 0x03 1 0xcb 0, Huff 0x06 1 0xcb 0, Huff 0x0a 1 0xcb 0, Huff 0x0f 1 0xcb 0,
     Huff 0x18 1 0xcb 0, Huff 0x1f 1 0xcb 0, Huff 0x29 1 0xcb 0, Huff 0x38 1 0xcb 1,
     Huff 0x03 1 0xcc 0, Huff 0x06 1 0xcc 0, Huff 0x0a 1 0xcc 0, Huff 0x0f 1 0xcc 0,
     Huff 0x18 1 0xcc 0, Huff 0x1f 1 0xcc 0, Huff 0x29 1 0xcc 0, Huff 0x38 1 0xcc 1],
    [
     Huff 0xd3 0 0x00 0, Huff 0xd4 0 0x00 0, Huff 0xd6 0 0x00 0, Huff 0xd7 0 0x00 0,
     Huff 0xda 0 0x00 0, Huff 0xdb 0 0x00 0, Huff 0xdd 0 0x00 0, Huff 0xde 0 0x00 0,
     Huff 0xe2 0 0x00 0, Huff 0xe4 0 0x00 0, Huff 0xe8 0 0x00 0, Huff 0xeb 0 0x00 0,
     Huff 0xf0 0 0x00 0, Huff 0xf3 0 0x00 0, Huff 0xf7 0 0x00 0, Huff 0xfa 0 0x00 1]]"

definition huff_rows_d :: "huff_code list list" where
  "huff_rows_d = [
    [
     Huff 0x00 1 0xd3 1, Huff 0x00 1 0xd4 1, Huff 0x00 1 0xd6 1, Huff 0x00 1 0xdd 1,
     Huff 0x00 1 0xde 1, Huff 0x00 1 0xdf 1, Huff 0x00 1 0xf1 1, Huff 0x00 1 0xf4 1,
     Huff 0x00 1 0xf5 1, Huff 0x00 1 0xf6 1, Huff 0x00 1 0xf7 1, Huff 0x00 1 0xf8 1,
     Huff 0x00 1 0xfa 1, Huff 0x00 1 0xfb 1, Huff 0x00 1 0xfc 1, Huff 0x00 1 0xfd 1],
    [
     Huff 0x01 1 0xd3 0, Huff 0x16 1 0xd3 1, Huff 0x01 1 0xd4 0, Huff 0x16 1 0xd4 1,
     Huff 0x01 1 0xd6 0, Huff 0x16 1 0xd6 1, Huff 0x01 1 0xdd 0, Huff 0x16 1 0xdd 1,
     Huff 0x01 1 0xde 0, Huff 0x16 1 0xde 1, Huff 0x01 1 0xdf 0, Huff 0x16 1 0xdf 1,
     Huff 0x01 1 0xf1 0, Huff 0x16 1 0xf1 1, Huff 0x01 1 0xf4 0, Huff 0x16 1 0xf4 1],
    [
     Huff 0x02 1 0xd3 0, Huff 0x09 1 0xd3 0, Huff 0x17 1 0xd3 0, Huff 0x28 1 0xd3 1,
     Huff 0x02 1 0xd4 0, Huff 0x09 1 0xd4 0, Huff 0x17 1 0xd4 0, Huff 0x28 1 0xd4 1,
     Huff 0x02 1 0xd6 0, Huff 0x09 1 0xd6 0, Huff 0x17 1 0xd6 0, Huff 0x28 1 0xd6 1,
     Huff 0x02 1 0xdd 0, Huff 0x09 1 0xdd 0, Huff 0x17 1 0xdd 0, Huff 0x28 1 0xdd 1],
    [
     Huff 0x03 1 0xd3 0, Huff 0x06 1 0xd3 0, Huff 0x0a 1 0xd3 0, Huff 0x0f 1 0xd3 0,
     Huff 0x18 1 0xd3 0, Huff 0x1f 1 0xd3 0, Huff 0x29 1 0xd3 0, Huff 0x38 1 0xd3 1,
     Huff 0x03 1 0xd4 0, Huff 0x06 1 0xd4 0, Huff 0x0a 1 0xd4 0, Huff 0x0f 1 0xd4 0,
     Huff 0x18 1 0xd4 0, Huff 0x1f 1 0xd4 0, Huff 0x29 1 0xd4 0, Huff 0x38 1 0xd4 1],
    [
     Huff 0x03 1 0xd6 0, Huff 0x06 1 0xd6 0, Huff 0x0a 1 0xd6 0, Huff 0x0f 1 0xd6 0,
     Huff 0x18 1 0xd6 0, Huff 0x1f 1 0xd6 0, Huff 0x29 1 0xd6 0, Huff 0x38 1 0xd6 1,
     Huff 0x03 1 0xdd 0, Huff 0x06 1 0xdd 0, Huff 0x0a 1 0xdd 0, Huff 0x0f 1 0xdd 0,
     Huff 0x18 1 0xdd 0, Huff 0x1f 1 0xdd 0, Huff 0x29 1 0xdd 0, Huff 0x38 1 0xdd 1],
    [
     Huff 0x02 1 0xde 0, Huff 0x09 1 0xde 0, Huff 0x17 1 0xde 0, Huff 0x28 1 0xde 1,
     Huff 0x02 1 0xdf 0, Huff 0x09 1 0xdf 0, Huff 0x17 1 0xdf 0, Huff 0x28 1 0xdf 1,
     Huff 0x02 1 0xf1 0, Huff 0x09 1 0xf1 0, Huff 0x17 1 0xf1 0, Huff 0x28 1 0xf1 1,
     Huff 0x02 1 0xf4 0, Huff 0x09 1 0xf4 0, Huff 0x17 1 0xf4 0, Huff 0x28 1 0xf4 1],
    [
     Huff 0x03 1 0xde 0, Huff 0x06 1 0xde 0, Huff 0x0a 1 0xde 0, Huff 0x0f 1 0xde 0,
     Huff 0x18 1 0xde 0, Huff 0x1f 1 0xde 0, Huff 0x29 1 0xde 0, Huff 0x38 1 0xde 1,
     Huff 0x03 1 0xdf 0, Huff 0x06 1 0xdf 0, Huff 0x0a 1 0xdf 0, Huff 0x0f 1 0xdf 0,
     Huff 0x18 1 0xdf 0, Huff 0x1f 1 0xdf 0, Huff 0x29 1 0xdf 0, Huff 0x38 1 0xdf 1],
    [
     Huff 0x03 1 0xf1 0, Huff 0x06 1 0xf1 0, Huff 0x0a 1 0xf1 0, Huff 0x0f 1 0xf1 0,
     Huff 0x18 1 0xf1 0, Huff 0x1f 1 0xf1 0, Huff 0x29 1 0xf1 0, Huff 0x38 1 0xf1 1,
     Huff 0x03 1 0xf4 0, Huff 0x06 1 0xf4 0, Huff 0x0a 1 0xf4 0, Huff 0x0f 1 0xf4 0,
     Huff 0x18 1 0xf4 0, Huff 0x1f 1 0xf4 0, Huff 0x29 1 0xf4 0, Huff 0x38 1 0xf4 1],
    [
     Huff 0x01 1 0xf5 0, Huff 0x16 1 0xf5 1, Huff 0x01 1 0xf6 0, Huff 0x16 1 0xf6 1,
     Huff 0x01 1 0xf7 0, Huff 0x16 1 0xf7 1, Huff 0x01 1 0xf8 0, Huff 0x16 1 0xf8 1,
     Huff 0x01 1 0xfa 0, Huff 0x16 1 0xfa 1, Huff 0x01 1 0xfb 0, Huff 0x16 1 0xfb 1,
     Huff 0x01 1 0xfc 0, Huff 0x16 1 0xfc 1, Huff 0x01 1 0xfd 0, Huff 0x16 1 0xfd 1],
    [
     Huff 0x02 1 0xf5 0, Huff 0x09 1 0xf5 0, Huff 0x17 1 0xf5 0, Huff 0x28 1 0xf5 1,
     Huff 0x02 1 0xf6 0, Huff 0x09 1 0xf6 0, Huff 0x17 1 0xf6 0, Huff 0x28 1 0xf6 1,
     Huff 0x02 1 0xf7 0, Huff 0x09 1 0xf7 0, Huff 0x17 1 0xf7 0, Huff 0x28 1 0xf7 1,
     Huff 0x02 1 0xf8 0, Huff 0x09 1 0xf8 0, Huff 0x17 1 0xf8 0, Huff 0x28 1 0xf8 1],
    [
     Huff 0x03 1 0xf5 0, Huff 0x06 1 0xf5 0, Huff 0x0a 1 0xf5 0, Huff 0x0f 1 0xf5 0,
     Huff 0x18 1 0xf5 0, Huff 0x1f 1 0xf5 0, Huff 0x29 1 0xf5 0, Huff 0x38 1 0xf5 1,
     Huff 0x03 1 0xf6 0, Huff 0x06 1 0xf6 0, Huff 0x0a 1 0xf6 0, Huff 0x0f 1 0xf6 0,
     Huff 0x18 1 0xf6 0, Huff 0x1f 1 0xf6 0, Huff 0x29 1 0xf6 0, Huff 0x38 1 0xf6 1],
    [
     Huff 0x03 1 0xf7 0, Huff 0x06 1 0xf7 0, Huff 0x0a 1 0xf7 0, Huff 0x0f 1 0xf7 0,
     Huff 0x18 1 0xf7 0, Huff 0x1f 1 0xf7 0, Huff 0x29 1 0xf7 0, Huff 0x38 1 0xf7 1,
     Huff 0x03 1 0xf8 0, Huff 0x06 1 0xf8 0, Huff 0x0a 1 0xf8 0, Huff 0x0f 1 0xf8 0,
     Huff 0x18 1 0xf8 0, Huff 0x1f 1 0xf8 0, Huff 0x29 1 0xf8 0, Huff 0x38 1 0xf8 1],
    [
     Huff 0x02 1 0xfa 0, Huff 0x09 1 0xfa 0, Huff 0x17 1 0xfa 0, Huff 0x28 1 0xfa 1,
     Huff 0x02 1 0xfb 0, Huff 0x09 1 0xfb 0, Huff 0x17 1 0xfb 0, Huff 0x28 1 0xfb 1,
     Huff 0x02 1 0xfc 0, Huff 0x09 1 0xfc 0, Huff 0x17 1 0xfc 0, Huff 0x28 1 0xfc 1,
     Huff 0x02 1 0xfd 0, Huff 0x09 1 0xfd 0, Huff 0x17 1 0xfd 0, Huff 0x28 1 0xfd 1],
    [
     Huff 0x03 1 0xfa 0, Huff 0x06 1 0xfa 0, Huff 0x0a 1 0xfa 0, Huff 0x0f 1 0xfa 0,
     Huff 0x18 1 0xfa 0, Huff 0x1f 1 0xfa 0, Huff 0x29 1 0xfa 0, Huff 0x38 1 0xfa 1,
     Huff 0x03 1 0xfb 0, Huff 0x06 1 0xfb 0, Huff 0x0a 1 0xfb 0, Huff 0x0f 1 0xfb 0,
     Huff 0x18 1 0xfb 0, Huff 0x1f 1 0xfb 0, Huff 0x29 1 0xfb 0, Huff 0x38 1 0xfb 1],
    [
     Huff 0x03 1 0xfc 0, Huff 0x06 1 0xfc 0, Huff 0x0a 1 0xfc 0, Huff 0x0f 1 0xfc 0,
     Huff 0x18 1 0xfc 0, Huff 0x1f 1 0xfc 0, Huff 0x29 1 0xfc 0, Huff 0x38 1 0xfc 1,
     Huff 0x03 1 0xfd 0, Huff 0x06 1 0xfd 0, Huff 0x0a 1 0xfd 0, Huff 0x0f 1 0xfd 0,
     Huff 0x18 1 0xfd 0, Huff 0x1f 1 0xfd 0, Huff 0x29 1 0xfd 0, Huff 0x38 1 0xfd 1],
    [
     Huff 0x00 1 0xfe 1, Huff 0xe3 0 0x00 0, Huff 0xe5 0 0x00 0, Huff 0xe6 0 0x00 0,
     Huff 0xe9 0 0x00 0, Huff 0xea 0 0x00 0, Huff 0xec 0 0x00 0, Huff 0xed 0 0x00 0,
     Huff 0xf1 0 0x00 0, Huff 0xf2 0 0x00 0, Huff 0xf4 0 0x00 0, Huff 0xf5 0 0x00 0,
     Huff 0xf8 0 0x00 0, Huff 0xf9 0 0x00 0, Huff 0xfb 0 0x00 0, Huff 0xfc 0 0x00 1]]"

definition huff_rows_e :: "huff_code list list" where
  "huff_rows_e = [
    [
     Huff 0x01 1 0xfe 0, Huff 0x16 1 0xfe 1, Huff 0x00 1 0x02 1, Huff 0x00 1 0x03 1,
     Huff 0x00 1 0x04 1, Huff 0x00 1 0x05 1, Huff 0x00 1 0x06 1, Huff 0x00 1 0x07 1,
     Huff 0x00 1 0x08 1, Huff 0x00 1 0x0b 1, Huff 0x00 1 0x0c 1, Huff 0x00 1 0x0e 1,
     Huff 0x00 1 0x0f 1, Huff 0x00 1 0x10 1, Huff 0x00 1 0x11 1, Huff 0x00 1 0x12 1],
    [
     Huff 0x02 1 0xfe 0, Huff 0x09 1 0xfe 0, Huff 0x17 1 0xfe 0, Huff 0x28 1 0xfe 1,
     Huff 0x01 1 0x02 0, Huff 0x16 1 0x02 1, Huff 0x01 1 0x03 0, Huff 0x16 1 0x03 1,
     Huff 0x01 1 0x04 0, Huff 0x16 1 0x04 1, Huff 0x01 1 0x05 0, Huff 0x16 1 0x05 1,
     Huff 0x01 1 0x06 0, Huff 0x16 1 0x06 1, Huff 0x01 1 0x07 0, Huff 0x16 1 0x07 1],
    [
     Huff 0x03 1 0xfe 0, Huff 0x06 1 0xfe 0, Huff 0x0a 1 0xfe 0, Huff 0x0f 1 0xfe 0,
     Huff 0x18 1 0xfe 0, Huff 0x1f 1 0xfe 0, Huff 0x29 1 0xfe 0, Huff 0x38 1 0xfe 1,
     Huff 0x02 1 0x02 0, Huff 0x09 1 0x02 0, Huff 0x17 1 0x02 0, Huff 0x28 1 0x02 1,
     Huff 0x02 1 0x03 0, Huff 0x09 1 0x03 0, Huff 0x17 1 0x03 0, Huff 0x28 1 0x03 1],
    [
     Huff 0x03 1 0x02 0, Huff 0x06 1 0x02 0, Huff 0x0a 1 0x02 0, Huff 0x0f 1 0x02 0,
     Huff 0x18 1 0x02 0, Huff 0x1f 1 0x02 0, Huff 0x29 1 0x02 0, Huff 0x38 1 0x02 1,
     Huff 0x03 1 0x03 0, Huff 0x06 1 0x03 0, Huff 0x0a 1 0x03 0, Huff 0x0f 1 0x03 0,
     Huff 0x18 1 0x03 0, Huff 0x1f 1 0x03 0, Huff 0x29 1 0x03 0, Huff 0x38 1 0x03 1],
    [
     Huff 0x02 1 0x04 0, Huff 0x09 1 0x04 0, Huff 0x17 1 0x04 0, Huff 0x28 1 0x04 1,
     Huff 0x02 1 0x05 0, Huff 0x09 1 0x05 0, Huff 0x17 1 0x05 0, Huff 0x28 1 0x05 1,
     Huff 0x02 1 0x06 0, Huff 0x09 1 0x06 0, Huff 0x17 1 0x06 0, Huff 0x28 1 0x06 1,
     Huff 0x02 1 0x07 0, Huff 0x09 1 0x07 0, Huff 0x17 1 0x07 0, Huff 0x28 1 0x07 1],
    [
     Huff 0x03 1 0x04 0, Huff 0x06 1 0x04 0, Huff 0x0a 1 0x04 0, Huff 0x0f 1 0x04 0,
     Huff 0x18 1 0x04 0, Huff 0x1f 1 0x04 0, Huff 0x29 1 0x04 0, Huff 0x38 1 0x04 1,
     Huff 0x03 1 0x05 0, Huff 0x06 1 0x05 0, Huff 0x0a 1 0x05 0, Huff 0x0f 1 0x05 0,
     Huff 0x18 1 0x05 0, Huff 0x1f 1 0x05 0, Huff 0x29 1 0x05 0, Huff 0x38 1 0x05 1],
    [
     Huff 0x03 1 0x06 0, Huff 0x06 1 0x06 0, Huff 0x0a 1 0x06 0, Huff 0x0f 1 0x06 0,
     Huff 0x18 1 0x06 0, Huff 0x1f 1 0x06 0, Huff 0x29 1 0x06 0, Huff 0x38 1 0x06 1,
     Huff 0x03 1 0x07 0, Huff 0x06 1 0x07 0, Huff 0x0a 1 0x07 0, Huff 0x0f 1 0x07 0,
     Huff 0x18 1 0x07 0, Huff 0x1f 1 0x07 0, Huff 0x29 1 0x07 0, Huff 0x38 1 0x07 1],
    [
     Huff 0x01 1 0x08 0, Huff 0x16 1 0x08 1, Huff 0x01 1 0x0b 0, Huff 0x16 1 0x0b 1,
     Huff 0x01 1 0x0c 0, Huff 0x16 1 0x0c 1, Huff 0x01 1 0x0e 0, Huff 0x16 1 0x0e 1,
     Huff 0x01 1 0x0f 0, Huff 0x16 1 0x0f 1, Huff 0x01 1 0x10 0, Huff 0x16 1 0x10 1,
     Huff 0x01 1 0x11 0, Huff 0x16 1 0x11 1, Huff 0x01 1 0x12 0, Huff 0x16 1 0x12 1],
    [
     Huff 0x02 1 0x08 0, Huff 0x09 1 0x08 0, Huff 0x17 1 0x08 0, Huff 0x28 1 0x08 1,
     Huff 0x02 1 0x0b 0, Huff 0x09 1 0x0b 0, Huff 0x17 1 0x0b 0, Huff 0x28 1 0x0b 1,
     Huff 0x02 1 0x0c 0, Huff 0x09 1 0x0c 0, Huff 0x17 1 0x0c 0, Huff 0x28 1 0x0c 1,
     Huff 0x02 1 0x0e 0, Huff 0x09 1 0x0e 0, Huff 0x17 1 0x0e 0, Huff 0x28 1 0x0e 1],
    [
     Huff 0x03 1 0x08 0, Huff 0x06 1 0x08 0, Huff 0x0a 1 0x08 0, Huff 0x0f 1 0x08 0,
     Huff 0x18 1 0x08 0, Huff 0x1f 1 0x08 0, Huff 0x29 1 0x08 0, Huff 0x38 1 0x08 1,
     Huff 0x03 1 0x0b 0, Huff 0x06 1 0x0b 0, Huff 0x0a 1 0x0b 0, Huff 0x0f 1 0x0b 0,
     Huff 0x18 1 0x0b 0, Huff 0x1f 1 0x0b 0, Huff 0x29 1 0x0b 0, Huff 0x38 1 0x0b 1],
    [
     Huff 0x03 1 0x0c 0, Huff 0x06 1 0x0c 0, Huff 0x0a 1 0x0c 0, Huff 0x0f 1 0x0c 0,
     Huff 0x18 1 0x0c 0, Huff 0x1f 1 0x0c 0, Huff 0x29 1 0x0c 0, Huff 0x38 1 0x0c 1,
     Huff 0x03 1 0x0e 0, Huff 0x06 1 0x0e 0, Huff 0x0a 1 0x0e 0, Huff 0x0f 1 0x0e 0,
     Huff 0x18 1 0x0e 0, Huff 0x1f 1 0x0e 0, Huff 0x29 1 0x0e 0, Huff 0x38 1 0x0e 1],
    [
     Huff 0x02 1 0x0f 0, Huff 0x09 1 0x0f 0, Huff 0x17 1 0x0f 0, Huff 0x28 1 0x0f 1,
     Huff 0x02 1 0x10 0, Huff 0x09 1 0x10 0, Huff 0x17 1 0x10 0, Huff 0x28 1 0x10 1,
     Huff 0x02 1 0x11 0, Huff 0x09 1 0x11 0, Huff 0x17 1 0x11 0, Huff 0x28 1 0x11 1,
     Huff 0x02 1 0x12 0, Huff 0x09 1 0x12 0, Huff 0x17 1 0x12 0, Huff 0x28 1 0x12 1],
    [
     Huff 0x03 1 0x0f 0, Huff 0x06 1 0x0f 0, Huff 0x0a 1 0x0f 0, Huff 0x0f 1 0x0f 0,
     Huff 0x18 1 0x0f 0, Huff 0x1f 1 0x0f 0, Huff 0x29 1 0x0f 0, Huff 0x38 1 0x0f 1,
     Huff 0x03 1 0x10 0, Huff 0x06 1 0x10 0, Huff 0x0a 1 0x10 0, Huff 0x0f 1 0x10 0,
     Huff 0x18 1 0x10 0, Huff 0x1f 1 0x10 0, Huff 0x29 1 0x10 0, Huff 0x38 1 0x10 1],
    [
     Huff 0x03 1 0x11 0, Huff 0x06 1 0x11 0, Huff 0x0a 1 0x11 0, Huff 0x0f 1 0x11 0,
     Huff 0x18 1 0x11 0, Huff 0x1f 1 0x11 0, Huff 0x29 1 0x11 0, Huff 0x38 1 0x11 1,
     Huff 0x03 1 0x12 0, Huff 0x06 1 0x12 0, Huff 0x0a 1 0x12 0, Huff 0x0f 1 0x12 0,
     Huff 0x18 1 0x12 0, Huff 0x1f 1 0x12 0, Huff 0x29 1 0x12 0, Huff 0x38 1 0x12 1],
    [
     Huff 0x00 1 0x13 1, Huff 0x00 1 0x14 1, Huff 0x00 1 0x15 1, Huff 0x00 1 0x17 1,
     Huff 0x00 1 0x18 1, Huff 0x00 1 0x19 1, Huff 0x00 1 0x1a 1, Huff 0x00 1 0x1b 1,
     Huff 0x00 1 0x1c 1, Huff 0x00 1 0x1d 1, Huff 0x00 1 0x1e 1, Huff 0x00 1 0x1f 1,
     Huff 0x00 1 0x7f 1, Huff 0x00 1 0xdc 1, Huff 0x00 1 0xf9 1, Huff 0xfd 0 0x00 1],
    [
     Huff 0x01 1 0x13 0, Huff 0x16 1 0x13 1, Huff 0x01 1 0x14 0, Huff 0x16 1 0x14 1,
     Huff 0x01 1 0x15 0, Huff 0x16 1 0x15 1, Huff 0x01 1 0x17 0, Huff 0x16 1 0x17 1,
     Huff 0x01 1 0x18 0, Huff 0x16 1 0x18 1, Huff 0x01 1 0x19 0, Huff 0x16 1 0x19 1,
     Huff 0x01 1 0x1a 0, Huff 0x16 1 0x1a 1, Huff 0x01 1 0x1b 0, Huff 0x16 1 0x1b 1]]"

definition huff_rows_f :: "huff_code list list" where
  "huff_rows_f = [
    [
     Huff 0x02 1 0x13 0, Huff 0x09 1 0x13 0, Huff 0x17 1 0x13 0, Huff 0x28 1 0x13 1,
     Huff 0x02 1 0x14 0, Huff 0x09 1 0x14 0, Huff 0x17 1 0x14 0, Huff 0x28 1 0x14 1,
     Huff 0x02 1 0x15 0, Huff 0x09 1 0x15 0, Huff 0x17 1 0x15 0, Huff 0x28 1 0x15 1,
     Huff 0x02 1 0x17 0, Huff 0x09 1 0x17 0, Huff 0x17 1 0x17 0, Huff 0x28 1 0x17 1],
    [
     Huff 0x03 1 0x13 0, Huff 0x06 1 0x13 0, Huff 0x0a 1 0x13 0, Huff 0x0f 1 0x13 0,
     Huff 0x18 1 0x13 0, Huff 0x1f 1 0x13 0, Huff 0x29 1 0x13 0, Huff 0x38 1 0x13 1,
     Huff 0x03 1 0x14 0, Huff 0x06 1 0x14 0, Huff 0x0a 1 0x14 0, Huff 0x0f 1 0x14 0,
     Huff 0x18 1 0x14 0, Huff 0x1f 1 0x14 0, Huff 0x29 1 0x14 0, Huff 0x38 1 0x14 1],
    [
     Huff 0x03 1 0x15 0, Huff 0x06 1 0x15 0, Huff 0x0a 1 0x15 0, Huff 0x0f 1 0x15 0,
     Huff 0x18 1 0x15 0, Huff 0x1f 1 0x15 0, Huff 0x29 1 0x15 0, Huff 0x38 1 0x15 1,
     Huff 0x03 1 0x17 0, Huff 0x06 1 0x17 0, Huff 0x0a 1 0x17 0, Huff 0x0f 1 0x17 0,
     Huff 0x18 1 0x17 0, Huff 0x1f 1 0x17 0, Huff 0x29 1 0x17 0, Huff 0x38 1 0x17 1],
    [
     Huff 0x02 1 0x18 0, Huff 0x09 1 0x18 0, Huff 0x17 1 0x18 0, Huff 0x28 1 0x18 1,
     Huff 0x02 1 0x19 0, Huff 0x09 1 0x19 0, Huff 0x17 1 0x19 0, Huff 0x28 1 0x19 1,
     Huff 0x02 1 0x1a 0, Huff 0x09 1 0x1a 0, Huff 0x17 1 0x1a 0, Huff 0x28 1 0x1a 1,
     Huff 0x02 1 0x1b 0, Huff 0x09 1 0x1b 0, Huff 0x17 1 0x1b 0, Huff 0x28 1 0x1b 1],
    [
     Huff 0x03 1 0x18 0, Huff 0x06 1 0x18 0, Huff 0x0a 1 0x18 0, Huff 0x0f 1 0x18 0,
     Huff 0x18 1 0x18 0, Huff 0x1f 1 0x18 0, Huff 0x29 1 0x18 0, Huff 0x38 1 0x18 1,
     Huff 0x03 1 0x19 0, Huff 0x06 1 0x19 0, Huff 0x0a 1 0x19 0, Huff 0x0f 1 0x19 0,
     Huff 0x18 1 0x19 0, Huff 0x1f 1 0x19 0, Huff 0x29 1 0x19 0, Huff 0x38 1 0x19 1],
    [
     Huff 0x03 1 0x1a 0, Huff 0x06 1 0x1a 0, Huff 0x0a 1 0x1a 0, Huff 0x0f 1 0x1a 0,
     Huff 0x18 1 0x1a 0, Huff 0x1f 1 0x1a 0, Huff 0x29 1 0x1a 0, Huff 0x38 1 0x1a 1,
     Huff 0x03 1 0x1b 0, Huff 0x06 1 0x1b 0, Huff 0x0a 1 0x1b 0, Huff 0x0f 1 0x1b 0,
     Huff 0x18 1 0x1b 0, Huff 0x1f 1 0x1b 0, Huff 0x29 1 0x1b 0, Huff 0x38 1 0x1b 1],
    [
     Huff 0x01 1 0x1c 0, Huff 0x16 1 0x1c 1, Huff 0x01 1 0x1d 0, Huff 0x16 1 0x1d 1,
     Huff 0x01 1 0x1e 0, Huff 0x16 1 0x1e 1, Huff 0x01 1 0x1f 0, Huff 0x16 1 0x1f 1,
     Huff 0x01 1 0x7f 0, Huff 0x16 1 0x7f 1, Huff 0x01 1 0xdc 0, Huff 0x16 1 0xdc 1,
     Huff 0x01 1 0xf9 0, Huff 0x16 1 0xf9 1, Huff 0xfe 0 0x00 0, Huff 0xff 0 0x00 1],
    [
     Huff 0x02 1 0x1c 0, Huff 0x09 1 0x1c 0, Huff 0x17 1 0x1c 0, Huff 0x28 1 0x1c 1,
     Huff 0x02 1 0x1d 0, Huff 0x09 1 0x1d 0, Huff 0x17 1 0x1d 0, Huff 0x28 1 0x1d 1,
     Huff 0x02 1 0x1e 0, Huff 0x09 1 0x1e 0, Huff 0x17 1 0x1e 0, Huff 0x28 1 0x1e 1,
     Huff 0x02 1 0x1f 0, Huff 0x09 1 0x1f 0, Huff 0x17 1 0x1f 0, Huff 0x28 1 0x1f 1],
    [
     Huff 0x03 1 0x1c 0, Huff 0x06 1 0x1c 0, Huff 0x0a 1 0x1c 0, Huff 0x0f 1 0x1c 0,
     Huff 0x18 1 0x1c 0, Huff 0x1f 1 0x1c 0, Huff 0x29 1 0x1c 0, Huff 0x38 1 0x1c 1,
     Huff 0x03 1 0x1d 0, Huff 0x06 1 0x1d 0, Huff 0x0a 1 0x1d 0, Huff 0x0f 1 0x1d 0,
     Huff 0x18 1 0x1d 0, Huff 0x1f 1 0x1d 0, Huff 0x29 1 0x1d 0, Huff 0x38 1 0x1d 1],
    [
     Huff 0x03 1 0x1e 0, Huff 0x06 1 0x1e 0, Huff 0x0a 1 0x1e 0, Huff 0x0f 1 0x1e 0,
     Huff 0x18 1 0x1e 0, Huff 0x1f 1 0x1e 0, Huff 0x29 1 0x1e 0, Huff 0x38 1 0x1e 1,
     Huff 0x03 1 0x1f 0, Huff 0x06 1 0x1f 0, Huff 0x0a 1 0x1f 0, Huff 0x0f 1 0x1f 0,
     Huff 0x18 1 0x1f 0, Huff 0x1f 1 0x1f 0, Huff 0x29 1 0x1f 0, Huff 0x38 1 0x1f 1],
    [
     Huff 0x02 1 0x7f 0, Huff 0x09 1 0x7f 0, Huff 0x17 1 0x7f 0, Huff 0x28 1 0x7f 1,
     Huff 0x02 1 0xdc 0, Huff 0x09 1 0xdc 0, Huff 0x17 1 0xdc 0, Huff 0x28 1 0xdc 1,
     Huff 0x02 1 0xf9 0, Huff 0x09 1 0xf9 0, Huff 0x17 1 0xf9 0, Huff 0x28 1 0xf9 1,
     Huff 0x00 1 0x0a 1, Huff 0x00 1 0x0d 1, Huff 0x00 1 0x16 1, Huff 0xfa 0 0x00 0],
    [
     Huff 0x03 1 0x7f 0, Huff 0x06 1 0x7f 0, Huff 0x0a 1 0x7f 0, Huff 0x0f 1 0x7f 0,
     Huff 0x18 1 0x7f 0, Huff 0x1f 1 0x7f 0, Huff 0x29 1 0x7f 0, Huff 0x38 1 0x7f 1,
     Huff 0x03 1 0xdc 0, Huff 0x06 1 0xdc 0, Huff 0x0a 1 0xdc 0, Huff 0x0f 1 0xdc 0,
     Huff 0x18 1 0xdc 0, Huff 0x1f 1 0xdc 0, Huff 0x29 1 0xdc 0, Huff 0x38 1 0xdc 1],
    [
     Huff 0x03 1 0xf9 0, Huff 0x06 1 0xf9 0, Huff 0x0a 1 0xf9 0, Huff 0x0f 1 0xf9 0,
     Huff 0x18 1 0xf9 0, Huff 0x1f 1 0xf9 0, Huff 0x29 1 0xf9 0, Huff 0x38 1 0xf9 1,
     Huff 0x01 1 0x0a 0, Huff 0x16 1 0x0a 1, Huff 0x01 1 0x0d 0, Huff 0x16 1 0x0d 1,
     Huff 0x01 1 0x16 0, Huff 0x16 1 0x16 1, Huff 0xfc 0 0x00 0, Huff 0xfc 0 0x00 0],
    [
     Huff 0x02 1 0x0a 0, Huff 0x09 1 0x0a 0, Huff 0x17 1 0x0a 0, Huff 0x28 1 0x0a 1,
     Huff 0x02 1 0x0d 0, Huff 0x09 1 0x0d 0, Huff 0x17 1 0x0d 0, Huff 0x28 1 0x0d 1,
     Huff 0x02 1 0x16 0, Huff 0x09 1 0x16 0, Huff 0x17 1 0x16 0, Huff 0x28 1 0x16 1,
     Huff 0xfd 0 0x00 0, Huff 0xfd 0 0x00 0, Huff 0xfd 0 0x00 0, Huff 0xfd 0 0x00 0],
    [
     Huff 0x03 1 0x0a 0, Huff 0x06 1 0x0a 0, Huff 0x0a 1 0x0a 0, Huff 0x0f 1 0x0a 0,
     Huff 0x18 1 0x0a 0, Huff 0x1f 1 0x0a 0, Huff 0x29 1 0x0a 0, Huff 0x38 1 0x0a 1,
     Huff 0x03 1 0x0d 0, Huff 0x06 1 0x0d 0, Huff 0x0a 1 0x0d 0, Huff 0x0f 1 0x0d 0,
     Huff 0x18 1 0x0d 0, Huff 0x1f 1 0x0d 0, Huff 0x29 1 0x0d 0, Huff 0x38 1 0x0d 1],
    [
     Huff 0x03 1 0x16 0, Huff 0x06 1 0x16 0, Huff 0x0a 1 0x16 0, Huff 0x0f 1 0x16 0,
     Huff 0x18 1 0x16 0, Huff 0x1f 1 0x16 0, Huff 0x29 1 0x16 0, Huff 0x38 1 0x16 1,
     Huff 0xff 0 0x00 0, Huff 0xff 0 0x00 0, Huff 0xff 0 0x00 0, Huff 0xff 0 0x00 0,
     Huff 0xff 0 0x00 0, Huff 0xff 0 0x00 0, Huff 0xff 0 0x00 0, Huff 0xff 0 0x00 0]]"

definition ngx_http_v2_huff_decode_codes :: "huff_code list list" where
  "ngx_http_v2_huff_decode_codes = huff_rows_0 @ huff_rows_1 @ huff_rows_2 @ huff_rows_3 @ huff_rows_4
     @ huff_rows_5 @ huff_rows_6 @ huff_rows_7 @ huff_rows_8 @ huff_rows_9 @ huff_rows_a @ huff_rows_b
     @ huff_rows_c @ huff_rows_d @ huff_rows_e @ huff_rows_f"

text \<open>Four bits: the new state and \<open>ending\<close> flag and the bytes written to \<open>dst\<close>; \<open>None\<close> is NGX_ERROR.\<close>

definition ngx_http_v2_huff_decode_bits :: "u_char \<Rightarrow> u_char \<Rightarrow> (u_char \<times> u_char \<times> bytes) option" where
  "ngx_http_v2_huff_decode_bits state bits =
     (let code = ngx_http_v2_huff_decode_codes ! unat state ! unat bits
      in if huff_next code = state then None
         else Some (huff_next code, huff_ending code, if huff_emit code \<noteq> 0 then [huff_sym code] else []))"

fun huff_decode_loop :: "u_char \<Rightarrow> u_char \<Rightarrow> bytes \<Rightarrow> bytes \<Rightarrow> (u_char \<times> u_char \<times> bytes) option" where
  "huff_decode_loop state ending dst [] = Some (state, ending, dst)"
| "huff_decode_loop state ending dst (c # src) =
     (case ngx_http_v2_huff_decode_bits state (drop_bit 4 c) of
        None \<Rightarrow> None
      | Some (state, ending, out1) \<Rightarrow>
          (case ngx_http_v2_huff_decode_bits state (c AND 0xf) of
             None \<Rightarrow> None
           | Some (state, ending, out2) \<Rightarrow> huff_decode_loop state ending (dst @ out1 @ out2) src))"

text \<open>One call: the new state and the bytes written.\<close>

definition ngx_http_v2_huff_decode :: "u_char \<Rightarrow> bytes \<Rightarrow> bool \<Rightarrow> (u_char \<times> bytes) option" where
  "ngx_http_v2_huff_decode state src fin =
     (case huff_decode_loop state 1 [] src of
        None \<Rightarrow> None
      | Some (state, ending, dst) \<Rightarrow>
          if fin then (if ending = 0 then None else Some (0, dst)) else Some (state, dst))"

end
