(* ===== verification/V2_Int.thy ===== *)
theory V2_Int
  imports Prelude
begin

text \<open>
  Integers of HTTP/2 header blocks: ngx_http_v2_parse_int() of src/http/v2/ngx_http_v2.c and
  ngx_http_v2_write_int() of src/http/v2/ngx_http_v2_filter_module.c.
\<close>

section \<open>Definitions\<close>

definition NGX_HTTP_V2_INT_OCTETS :: nat where
  "NGX_HTTP_V2_INT_OCTETS = 4"

definition ngx_http_v2_prefix :: "nat \<Rightarrow> nat" where
  "ngx_http_v2_prefix bits = 2 ^ bits - 1"

text \<open>The value with the new position and the octets left in the frame, or one of the three codes.\<close>

datatype v2_int = V2_int nat nat nat | V2_int_error | V2_int_declined | V2_int_again

text \<open>
  The octets after the first one: \<open>k\<close> have been read of the \<open>avail\<close> that may be. The value stays below
  \<open>prefix + 2 ^ 21\<close>, no word wraps around.
\<close>

function parse_int_octets :: "bytes \<Rightarrow> nat \<Rightarrow> nat \<Rightarrow> nat \<Rightarrow> nat \<Rightarrow> nat \<Rightarrow> v2_int" where
  "parse_int_octets buf avail len k shift val =
     (if k < avail then
        (let octet = unat (buf ! k);
             val = val + push_bit shift (octet AND 0x7f)
         in if octet < 128 then (if k + 1 > len then V2_int_error else V2_int val (k + 1) (len - (k + 1)))
            else parse_int_octets buf avail len (k + 1) (shift + 7) val)
      else if avail \<ge> len then V2_int_error
      else if avail = NGX_HTTP_V2_INT_OCTETS then V2_int_declined
      else V2_int_again)"
  by pat_completeness auto
termination by (relation "measure (\<lambda>(buf, avail, len, k, shift, val). avail - k)") auto

declare parse_int_octets.simps [simp del]

text \<open>\<open>buf\<close> is what is left between \<open>*pos\<close> and \<open>end\<close> (the callers check that this is not empty), \<open>len\<close> is \<open>state.length\<close>.\<close>

definition ngx_http_v2_parse_int :: "nat \<Rightarrow> bytes \<Rightarrow> nat \<Rightarrow> v2_int" where
  "ngx_http_v2_parse_int len buf prefix =
     (let val = unat (hd buf) AND prefix
      in if val \<noteq> prefix then (if len = 0 then V2_int_error else V2_int val 1 (len - 1))
         else parse_int_octets buf (min (length buf) NGX_HTTP_V2_INT_OCTETS) len 1 0 val)"

text \<open>The octets written after the first one, and all of them; the first one has been begun with \<open>first\<close>.\<close>

fun write_int_octets :: "nat \<Rightarrow> bytes" where
  "write_int_octets val =
     (if val \<ge> 128 then of_nat (val mod 128 + 128) # write_int_octets (val div 128) else [of_nat val])"

declare write_int_octets.simps [simp del]

definition ngx_http_v2_write_int :: "u_char \<Rightarrow> nat \<Rightarrow> nat \<Rightarrow> bytes" where
  "ngx_http_v2_write_int first prefix val =
     (if val < prefix then [first OR of_nat val]
      else (first OR of_nat prefix) # write_int_octets (val - prefix))"

section \<open>Parsing\<close>

lemma V2_int_octets_4 [simp]: "NGX_HTTP_V2_INT_OCTETS = 4"
  by (simp add: NGX_HTTP_V2_INT_OCTETS_def)

lemma and_7f: "(c :: nat) AND 0x7f = c mod 128"
  using take_bit_eq_mask [of 7 c] by (simp add: take_bit_eq_mod mask_eq_exp_minus_1)

lemma nat_and_le: "(x :: nat) AND y \<le> y"
proof -
  have "int (x AND y) \<le> int y" unfolding of_nat_and_eq by (rule AND_upper2) simp
  then show ?thesis by simp
qed

text \<open>Whatever octets there are, a result lies in the buffer and in the frame.\<close>

fun v2_int_ok :: "nat \<Rightarrow> nat \<Rightarrow> nat \<Rightarrow> v2_int \<Rightarrow> bool" where
  "v2_int_ok n len bound (V2_int val used len') \<longleftrightarrow>
     1 \<le> used \<and> used \<le> n \<and> used \<le> 4 \<and> used + len' = len \<and> val < bound"
| "v2_int_ok n len bound V2_int_error \<longleftrightarrow> len \<le> n \<and> len \<le> 4"
| "v2_int_ok n len bound V2_int_declined \<longleftrightarrow> 4 \<le> n \<and> 4 < len"
| "v2_int_ok n len bound V2_int_again \<longleftrightarrow> n < 4 \<and> n < len"

lemma parse_int_octets_ok:
  "\<lbrakk>avail = min (length buf) 4; 1 \<le> k; k \<le> avail; shift = 7 * (k - 1); val < prefix + 2 ^ shift\<rbrakk>
   \<Longrightarrow> v2_int_ok (length buf) len (prefix + 2 ^ 21) (parse_int_octets buf avail len k shift val)"
proof (induction buf avail len k shift val rule: parse_int_octets.induct)
  case (1 buf avail len k shift val)
  let ?octet = "unat (buf ! k)"
  let ?val = "val + push_bit shift (?octet AND 0x7f)"
  have "push_bit shift (?octet AND 0x7f) \<le> 2 ^ shift * 127"
    by (simp add: and_7f push_bit_eq_mult)
  with "1.prems"(5) have val: "?val < prefix + 2 ^ (shift + 7)"
    by (simp add: power_add)
  show ?case
  proof (cases "k < avail")
    case True
    show ?thesis
    proof (cases "?octet < 128")
      case octet: True
      have "shift + 7 \<le> 21" using True "1.prems" by linarith
      then have "(2 :: nat) ^ (shift + 7) \<le> 2 ^ 21" by (rule power_increasing) simp
      with val have "?val < prefix + 2 ^ 21" by linarith
      moreover have "k + 1 \<le> length buf" "k + 1 \<le> 4" using True "1.prems"(1) by linarith+
      ultimately show ?thesis using True octet
        by (auto simp: parse_int_octets.simps [of buf avail len k] Let_def)
    next
      case octet: False
      have "shift + 7 = 7 * (k + 1 - 1)" using "1.prems"(2, 4) by linarith
      with "1.IH" [OF True refl refl octet] "1.prems" val True
      have "v2_int_ok (length buf) len (prefix + 2 ^ 21) (parse_int_octets buf avail len (k + 1) (shift + 7) ?val)"
        by simp
      with True octet show ?thesis by (simp add: parse_int_octets.simps [of buf avail len k] Let_def)
    qed
  next
    case False
    show ?thesis unfolding parse_int_octets.simps [of buf avail len k shift val] using False "1.prems" by auto
  qed
qed

lemma v2_parse_int_ok:
  assumes "buf \<noteq> []"
  shows "v2_int_ok (length buf) len (prefix + 2 ^ 21) (ngx_http_v2_parse_int len buf prefix)"
proof -
  have "unat (hd buf) AND prefix \<le> prefix" by (rule nat_and_le)
  moreover have "1 \<le> length buf" using assms by (cases buf) auto
  ultimately show ?thesis
    using parse_int_octets_ok [OF refl, of 1 buf 0 "unat (hd buf) AND prefix" prefix len]
    by (auto simp: ngx_http_v2_parse_int_def Let_def)
qed

text \<open>
  The reference, after RFC 7541, section 5.1: the integer that a list of octets begins with, and how many octets
  it has; none if the octets end before it does.
\<close>

fun int_octets :: "bytes \<Rightarrow> (nat \<times> nat) option" where
  "int_octets [] = None"
| "int_octets (c # cs) =
     (if unat c < 128 then Some (unat c, 1)
      else case int_octets cs of Some (v, n) \<Rightarrow> Some (unat c - 128 + 128 * v, n + 1) | None \<Rightarrow> None)"

fun int_prefixed :: "nat \<Rightarrow> bytes \<Rightarrow> (nat \<times> nat) option" where
  "int_prefixed prefix [] = None"
| "int_prefixed prefix (c # cs) =
     (if unat c AND prefix \<noteq> prefix then Some (unat c AND prefix, 1)
      else case int_octets cs of Some (v, n) \<Rightarrow> Some (prefix + v, n + 1) | None \<Rightarrow> None)"

lemma int_octets_take:
  "int_octets (take m cs) =
    (case int_octets cs of Some (v, n) \<Rightarrow> if n \<le> m then Some (v, n) else None | None \<Rightarrow> None)"
proof (induction cs arbitrary: m)
  case (Cons c cs)
  then show ?case by (cases m) (auto split: option.splits)
qed simp

lemma int_octets_count: "int_octets cs = Some (v, n) \<Longrightarrow> 1 \<le> n \<and> n \<le> length cs"
  by (induction cs arbitrary: v n) (auto split: if_splits option.splits)

lemma int_prefixed_take:
  "int_prefixed prefix (take m cs) =
    (case int_prefixed prefix cs of Some (v, n) \<Rightarrow> if n \<le> m then Some (v, n) else None | None \<Rightarrow> None)"
  by (cases cs; cases m) (auto simp: int_octets_take split: option.splits)

lemma parse_int_octets_correct:
  assumes "avail \<le> length buf" "k \<le> avail"
  shows "parse_int_octets buf avail len k shift val =
    (case int_octets (take (avail - k) (drop k buf)) of
       Some (v, n) \<Rightarrow> if k + n \<le> len then V2_int (val + push_bit shift v) (k + n) (len - (k + n)) else V2_int_error
     | None \<Rightarrow> if len \<le> avail then V2_int_error
         else if avail = 4 then V2_int_declined else V2_int_again)"
  using assms
proof (induction buf avail len k shift val rule: parse_int_octets.induct)
  case (1 buf avail len k shift val)
  let ?c = "buf ! k"
  show ?case
  proof (cases "k < avail")
    case True
    then have "take (avail - k) (drop k buf) = ?c # take (avail - (k + 1)) (drop (k + 1) buf)"
      using "1.prems" by (simp add: Cons_nth_drop_Suc [symmetric] take_Cons')
    note octets = this
    show ?thesis
    proof (cases "unat ?c < 128")
      case c: True
      then show ?thesis using True unfolding parse_int_octets.simps [of buf avail len k shift val] octets
        by (simp add: Let_def and_7f)
    next
      case c: False
      have "unat ?c < 256" by (rule unat_byte_less)
      then have low: "unat ?c AND 127 = unat ?c - 128" using c unfolding and_7f by (simp add: mod_if)
      have acc: "val + push_bit shift (unat ?c - 128) + push_bit (shift + 7) v
          = val + push_bit shift (unat ?c - 128 + 128 * v)" for v
        by (simp add: push_bit_eq_mult power_add distrib_right del: Nat.diff_add_assoc2)
      have "parse_int_octets buf avail len k shift val
          = parse_int_octets buf avail len (k + 1) (shift + 7) (val + push_bit shift (unat ?c - 128))"
        using True c unfolding parse_int_octets.simps [of buf avail len k shift val] Let_def low by simp
      moreover note "1.IH" [OF True refl refl c, unfolded low] "1.prems" True c
      ultimately show ?thesis unfolding octets
        by (cases "int_octets (take (avail - (k + 1)) (drop (k + 1) buf))")
          (auto simp: acc simp del: Nat.diff_add_assoc2)
    qed
  next
    case False
    with "1.prems" have k: "k = avail" by simp
    show ?thesis unfolding k parse_int_octets.simps [of buf avail len avail shift val] by simp
  qed
qed

lemma v2_parse_int_correct:
  assumes "buf \<noteq> []"
  shows "ngx_http_v2_parse_int len buf prefix =
    (case int_prefixed prefix (take (min 4 len) buf) of
       Some (v, n) \<Rightarrow> V2_int v n (len - n)
     | None \<Rightarrow> if len \<le> min 4 (length buf) then V2_int_error
         else if 4 \<le> length buf then V2_int_declined else V2_int_again)"
proof -
  obtain c cs where buf: "buf = c # cs" using assms by (cases buf) auto
  have len: "min (length buf) 4 \<le> length buf" "1 \<le> min (length buf) 4" using buf by auto
  have four: "take (min 4 len) buf = take len (take 4 buf)" by (simp add: min.commute)
  have rest: "take (min (length buf) 4 - 1) (drop 1 buf) = take 3 cs"
    using buf by (auto simp: min_def)
  have count: "int_octets cs = Some (v, n) \<Longrightarrow> n \<le> length cs"
    "int_octets (take 3 cs) = Some (v, n) \<Longrightarrow> n \<le> length cs \<and> n \<le> 3" for v n
    using int_octets_count [of cs v n] int_octets_count [of "take 3 cs" v n] by auto
  show ?thesis
    unfolding four int_prefixed_take [of prefix len] ngx_http_v2_parse_int_def
      parse_int_octets_correct [OF len] V2_int_octets_4 rest
    by (auto simp: buf Let_def split: option.splits dest: count)
qed

text \<open>
  C22. The parser reads exactly the integer of RFC 7541, section 5.1, that the octets left in the frame
  begin with, however many of them the buffer holds, if it has at most four octets, all of them in the frame
  and in the buffer: an integer that ends with the frame is accepted, and nothing is taken off the frame but
  its octets. Otherwise NGX_ERROR is returned exactly when the frame ends within the first four octets and
  these are in the buffer, so that the frame ends within the integer; NGX_DECLINED exactly when the frame
  goes on, and the buffer holds four octets, so that the integer has five or more; and NGX_AGAIN exactly
  when the octet missing is part of the frame but not in the buffer, so that more input settles the case. The
  values stay below the prefix plus \<open>2 ^ 21\<close>.
\<close>

theorem ngx_http_v2_parse_int_cases:
  assumes "buf \<noteq> []"
  shows "ngx_http_v2_parse_int len buf prefix =
      (case int_prefixed prefix (take (min 4 len) buf) of
         Some (v, n) \<Rightarrow> V2_int v n (len - n)
       | None \<Rightarrow> if len \<le> min 4 (length buf) then V2_int_error
           else if 4 \<le> length buf then V2_int_declined else V2_int_again)
    \<and> v2_int_ok (length buf) len (prefix + 2 ^ 21) (ngx_http_v2_parse_int len buf prefix)"
  using v2_parse_int_correct [OF assms] v2_parse_int_ok [OF assms] by blast

theorem ngx_http_v2_parse_int_cases_witness:
  "ngx_http_v2_parse_int 3 [0xff, 0xad, 1] 127 = V2_int 300 3 0
    \<and> ngx_http_v2_parse_int 2 [0xff, 0xad, 1] 127 = V2_int_error"
  using ngx_http_v2_parse_int_cases [of "[0xff, 0xad, 1]" 3 127]
    ngx_http_v2_parse_int_cases [of "[0xff, 0xad, 1]" 2 127]
  by simp

section \<open>Writing\<close>

text \<open>Octets seven bits at a time are the number again, from any position of the parser on.\<close>

lemma push_bit_7: "push_bit shift (val mod 128) + push_bit (shift + 7) (val div 128) = push_bit shift (val :: nat)"
proof -
  have "push_bit shift (val mod 128) + push_bit (shift + 7) (val div 128) = (val mod 128 + val div 128 * 128) * 2 ^ shift"
    unfolding push_bit_eq_mult power_add distrib_right by simp
  also have "val mod 128 + val div 128 * 128 = val" by simp
  finally show ?thesis unfolding push_bit_eq_mult .
qed

lemma write_int_octets_length: "1 \<le> length (write_int_octets val)"
  by (subst write_int_octets.simps) simp

lemma write_int_octets_bound: "val < 128 ^ n \<Longrightarrow> 1 \<le> n \<Longrightarrow> length (write_int_octets val) \<le> n"
proof (induction val arbitrary: n rule: write_int_octets.induct)
  case (1 val)
  show ?case
  proof (cases "val \<ge> 128")
    case True
    with "1.prems" obtain m where n: "n = Suc m" by (cases n) auto
    from True "1.prems" n have "val div 128 < 128 ^ m" "1 \<le> m"
      by (simp_all add: less_mult_imp_div_less mult.commute) (cases m, simp_all)
    from "1.IH" [OF True this] n True show ?thesis by (simp add: write_int_octets.simps [of val])
  qed (use "1.prems" in \<open>simp add: write_int_octets.simps [of val]\<close>)
qed

lemma parse_write_octets:
  assumes "length before = k" "k + length (write_int_octets val) \<le> avail" "k + length (write_int_octets val) \<le> len"
  shows "parse_int_octets (before @ write_int_octets val @ rest) avail len k shift acc
    = V2_int (acc + push_bit shift val) (k + length (write_int_octets val)) (len - (k + length (write_int_octets val)))"
  using assms
proof (induction val arbitrary: before k shift acc rule: write_int_octets.induct)
  case (1 val)
  note step = write_int_octets.simps [of val]
  have k: "k < avail" using "1.prems"(2) write_int_octets_length [of val] by linarith
  show ?case
  proof (cases "val \<ge> 128")
    case True
    let ?c = "of_nat (val mod 128 + 128) :: u_char"
    have c: "unat ?c = val mod 128 + 128" by (rule unat_of_nat_lt) simp
    have "(before @ write_int_octets val @ rest) ! k = ?c"
      unfolding step "1.prems"(1) [symmetric] using True by simp
    moreover have "before @ write_int_octets val @ rest = (before @ [?c]) @ write_int_octets (val div 128) @ rest"
      using True step by simp
    ultimately show ?thesis
      using "1.IH" [OF True, of "before @ [?c]" "k + 1" "shift + 7" "acc + push_bit shift (val mod 128)"] "1.prems" True k c
      by (simp add: parse_int_octets.simps [of _ avail len k] and_7f step add.assoc push_bit_7 del: push_bit_and)
  next
    case False
    then have c: "unat (of_nat val :: u_char) = val" by (intro unat_of_nat_lt) simp
    have "(before @ write_int_octets val @ rest) ! k = of_nat val"
      unfolding step "1.prems"(1) [symmetric] using False by simp
    then show ?thesis using "1.prems" k False c
      by (simp add: parse_int_octets.simps [of _ avail len k] and_7f step del: push_bit_and)
  qed
qed

lemma v2_int_roundtrip:
  assumes "bits \<le> 7" "unat first AND ngx_http_v2_prefix bits = 0" "val < ngx_http_v2_prefix bits + 2 ^ 21"
    "length (ngx_http_v2_write_int first (ngx_http_v2_prefix bits) val) \<le> len"
  defines "out \<equiv> ngx_http_v2_write_int first (ngx_http_v2_prefix bits) val"
  shows "ngx_http_v2_parse_int len (out @ rest) (ngx_http_v2_prefix bits) = V2_int val (length out) (len - length out)"
proof -
  define prefix where "prefix = ngx_http_v2_prefix bits"
  have mask: "prefix = mask bits" by (simp add: prefix_def ngx_http_v2_prefix_def mask_eq_exp_minus_1)
  have low: "unat (first OR of_nat v) AND prefix = v" if "v \<le> prefix" for v
  proof -
    have "(2 :: nat) ^ bits \<le> 2 ^ 7" using assms(1) by (intro power_increasing) simp_all
    moreover have v: "v < 2 ^ bits"
      by (rule le_less_trans [OF that]) (simp add: prefix_def ngx_http_v2_prefix_def)
    ultimately have v8: "v < 2 ^ LENGTH(8)" by simp
    have "unat (first OR of_nat v) AND prefix = (unat first AND prefix) OR (v AND prefix)"
      using v8 by (simp add: unsigned_or_eq unat_of_nat_lt) (rule bit_eqI, auto simp: bit_simps)
    with assms(2) v show ?thesis
      by (simp add: prefix_def [symmetric] mask flip: take_bit_eq_mask) (simp add: take_bit_nat_eq_self)
  qed
  show ?thesis
  proof (cases "val < prefix")
    case True
    with low [of val] assms(4) show ?thesis
      by (simp add: ngx_http_v2_parse_int_def out_def ngx_http_v2_write_int_def flip: prefix_def)
  next
    case False
    let ?oct = "write_int_octets (val - prefix)"
    have out: "out = (first OR of_nat prefix) # ?oct"
      using False by (simp add: out_def ngx_http_v2_write_int_def flip: prefix_def)
    have "val - prefix < 128 ^ 3" using assms(3) False by (simp flip: prefix_def)
    from write_int_octets_bound [OF this] have len: "length ?oct \<le> 3" by simp
    have "length out \<le> len" using assms(4) by (simp add: out_def)
    with len low [of prefix] parse_write_octets [of "[first OR of_nat prefix]" 1 "val - prefix" "min (length (out @ rest)) 4" len rest 0 prefix] False
    show ?thesis by (simp add: ngx_http_v2_parse_int_def out flip: prefix_def)
  qed
qed

text \<open>
  An integer that is written after any flag bits is parsed again, with the same prefix, whatever bytes
  follow, and takes as many octets off the frame as have been written.
\<close>

theorem ngx_http_v2_int_roundtrip:
  assumes "bits \<le> 7" "unat first AND ngx_http_v2_prefix bits = 0" "val < ngx_http_v2_prefix bits + 2 ^ 21"
    "length (ngx_http_v2_write_int first (ngx_http_v2_prefix bits) val) \<le> len"
  shows "let out = ngx_http_v2_write_int first (ngx_http_v2_prefix bits) val
    in ngx_http_v2_parse_int len (out @ rest) (ngx_http_v2_prefix bits) = V2_int val (length out) (len - length out)"
  unfolding Let_def using assms by (rule v2_int_roundtrip)

theorem ngx_http_v2_int_roundtrip_witness:
  "ngx_http_v2_parse_int 10 (ngx_http_v2_write_int 0x80 127 300 @ [1]) 127 = V2_int 300 3 7"
proof -
  have "ngx_http_v2_prefix 7 = 127" by (simp add: ngx_http_v2_prefix_def)
  moreover have "ngx_http_v2_write_int 0x80 127 300 = [0xff, 0xad, 1]"
    by (simp add: ngx_http_v2_write_int_def write_int_octets.simps)
  ultimately show ?thesis using ngx_http_v2_int_roundtrip [where bits = 7 and first = "0x80" and val = 300 and len = 10 and rest = "[1]"] by simp
qed

end
