(* ===== verification/V2_Header_Block.thy ===== *)
theory V2_Header_Block
  imports V2_Request V2_Huff V2_Int
begin

text \<open>
  The header blocks of HTTP/2 in src/http/v2/ngx_http_v2.c: the handlers that a HEADERS frame and its CONTINUATION
  frames go through, from ngx_http_v2_state_header_block() to the request, however the bytes arrive. A handler
  that calls the next one returns what that one returns, so a step names the handler to go on with. Timers,
  pools and the frames sent to the client are not modelled; allocation succeeds.
\<close>

section \<open>State\<close>

text \<open>The handlers of a header block, of the end of a frame, and the one of the next frame.\<close>

datatype v2_handler = State_head | State_skip | State_header_block | State_field_len | State_field_huff | State_field_raw
  | State_field_skip | State_process_header | State_header_complete

datatype v2_error = NGX_HTTP_V2_PROTOCOL_ERROR | NGX_HTTP_V2_INTERNAL_ERROR | NGX_HTTP_V2_FLOW_CTRL_ERROR
  | NGX_HTTP_V2_SIZE_ERROR | NGX_HTTP_V2_COMP_ERROR | NGX_HTTP_V2_ENHANCE_YOUR_CALM

text \<open>
  What a block has caused, in order: the request that was run, or the code it failed with; a request finalized
  by a handler; a stream terminated with PROTOCOL_ERROR.
\<close>

datatype v2_event = Ev_run "nat + v2_request" | Ev_finalized nat | Ev_terminated

text \<open>
  The members of \<open>h2c->state\<close> with \<open>h2c->hpack\<close>. \<open>h_field\<close> are the bytes from \<open>field_start\<close> to \<open>field_end\<close>, and
  \<open>h_alloc\<close> is the size of the buffer at \<open>field_start\<close>. The handler and the buffer of the state are what a handler returns.
\<close>

record v2_state =
  h_sid :: nat
  h_length :: nat
  h_padding :: nat
  h_flags :: u_char
  h_parse_name :: bool
  h_parse_value :: bool
  h_index :: bool
  h_header :: v2_header
  h_header_limit :: nat
  h_field_state :: u_char
  h_field :: bytes
  h_alloc :: nat
  h_field_rest :: nat
  h_stream :: "v2_request option"
  h_hpack :: hpack
  h_events :: "v2_event list"

record v2_conf =
  vc_http :: http_conf
  max_field_size :: nat

text \<open>
  What a handler returns: the handler it calls with its state and the bytes from \<open>pos\<close> to \<open>end\<close>; NULL, after
  ngx_http_v2_connection_error(); \<open>end\<close>, with a handler and the bytes it is to be called with again in
  \<open>state.buffer\<close>; \<open>pos\<close>, with the handler of the rest.
\<close>

datatype v2_result = V2_call v2_handler v2_state bytes | V2_connection_error v2_error
  | V2_save v2_handler v2_state bytes | V2_return v2_handler v2_state bytes

abbreviation (input) NGX_HTTP_V2_STATE_BUFFER_SIZE :: nat where "NGX_HTTP_V2_STATE_BUFFER_SIZE \<equiv> 16"
abbreviation (input) NGX_HTTP_V2_FRAME_HEADER_SIZE :: nat where "NGX_HTTP_V2_FRAME_HEADER_SIZE \<equiv> 9"
abbreviation (input) NGX_HTTP_V2_CONTINUATION_FRAME :: nat where "NGX_HTTP_V2_CONTINUATION_FRAME \<equiv> 9"

definition end_headers :: "v2_state \<Rightarrow> bool" where
  "end_headers st \<longleftrightarrow> h_flags st AND 0x04 \<noteq> 0"

definition ngx_http_v2_parse_uint32 :: "bytes \<Rightarrow> nat" where
  "ngx_http_v2_parse_uint32 p = unat (p ! 0) * 2 ^ 24 + unat (p ! 1) * 2 ^ 16 + unat (p ! 2) * 2 ^ 8 + unat (p ! 3)"

definition ngx_http_v2_parse_length :: "nat \<Rightarrow> nat" where
  "ngx_http_v2_parse_length head = drop_bit 8 head"

definition ngx_http_v2_parse_type :: "nat \<Rightarrow> nat" where
  "ngx_http_v2_parse_type head = head AND 0xff"

definition ngx_http_v2_parse_sid :: "bytes \<Rightarrow> nat" where
  "ngx_http_v2_parse_sid p = ngx_http_v2_parse_uint32 p AND 0x7fffffff"

section \<open>The end of a frame\<close>

definition ngx_http_v2_state_save :: "v2_state \<Rightarrow> bytes \<Rightarrow> v2_handler \<Rightarrow> v2_result" where
  "ngx_http_v2_state_save st rest handler =
     (if length rest > NGX_HTTP_V2_STATE_BUFFER_SIZE then V2_connection_error NGX_HTTP_V2_INTERNAL_ERROR
      else V2_save handler st rest)"

definition ngx_http_v2_state_complete :: "v2_state \<Rightarrow> bytes \<Rightarrow> v2_result" where
  "ngx_http_v2_state_complete st rest = V2_return State_head (st\<lparr>h_stream := None\<rparr>) rest"

definition ngx_http_v2_state_skip :: "v2_state \<Rightarrow> bytes \<Rightarrow> v2_result" where
  "ngx_http_v2_state_skip st rest =
     (if length rest < h_length st
      then ngx_http_v2_state_save (st\<lparr>h_length := h_length st - length rest\<rparr>) [] State_skip
      else ngx_http_v2_state_complete st (drop (h_length st) rest))"

definition ngx_http_v2_state_skip_padded :: "v2_state \<Rightarrow> bytes \<Rightarrow> v2_result" where
  "ngx_http_v2_state_skip_padded st rest =
     V2_call State_skip (st\<lparr>h_length := h_length st + h_padding st, h_padding := 0\<rparr>) rest"

text \<open>
  A fragment of \<open>len\<close> bytes that is left is moved over the padding and over the head of the CONTINUATION frame
  that must follow.
\<close>

definition continuation_pad :: "v2_state \<Rightarrow> bytes \<Rightarrow> v2_state \<times> bytes" where
  "continuation_pad st rest =
     (let len = h_length st
      in if h_padding st \<noteq> 0 \<and> length rest > len then
           (let skip = min (h_padding st) (length rest - len)
            in (st\<lparr>h_padding := h_padding st - skip\<rparr>, take len rest @ drop (len + skip) rest))
         else (st, rest))"

definition continuation_head :: "v2_state \<Rightarrow> bytes \<Rightarrow> v2_handler \<Rightarrow> v2_result" where
  "continuation_head st rest handler =
     (let len = h_length st; p = drop len rest; head = ngx_http_v2_parse_uint32 p
      in if ngx_http_v2_parse_type head \<noteq> NGX_HTTP_V2_CONTINUATION_FRAME
         then V2_connection_error NGX_HTTP_V2_PROTOCOL_ERROR
         else
           (let st = st\<lparr>h_flags := h_flags st OR p ! 4\<rparr>
            in if h_sid st \<noteq> ngx_http_v2_parse_sid (drop 5 p) then V2_connection_error NGX_HTTP_V2_PROTOCOL_ERROR
               else
                 (let n = ngx_http_v2_parse_length head;
                      st = st\<lparr>h_length := h_length st + n,
                              h_stream := map_option (\<lambda>r. r\<lparr>vr_request_length := vr_request_length r + n\<rparr>) (h_stream st)\<rparr>
                  in V2_return handler st (take len rest @ drop (len + NGX_HTTP_V2_FRAME_HEADER_SIZE) rest))))"

definition ngx_http_v2_handle_continuation :: "v2_state \<Rightarrow> bytes \<Rightarrow> v2_handler \<Rightarrow> v2_result" where
  "ngx_http_v2_handle_continuation st rest handler =
     (case continuation_pad st rest of
        (st, rest) \<Rightarrow>
          if length rest < h_length st + NGX_HTTP_V2_FRAME_HEADER_SIZE then ngx_http_v2_state_save st rest handler
          else continuation_head st rest handler)"

section \<open>The end of a header\<close>

definition v2_event_add :: "v2_event \<Rightarrow> v2_state \<Rightarrow> v2_state" where
  "v2_event_add e st = st\<lparr>h_events := h_events st @ [e]\<rparr>"

definition ngx_http_v2_state_header_complete :: "v2_conf \<Rightarrow> v2_state \<Rightarrow> bytes \<Rightarrow> v2_result" where
  "ngx_http_v2_state_header_complete cf st rest =
     (if h_length st \<noteq> 0 then V2_return State_header_block st rest
      else if \<not> end_headers st then ngx_http_v2_handle_continuation st rest State_header_complete
      else
        (let st = (case h_stream st of
                     None \<Rightarrow> st
                   | Some r \<Rightarrow> v2_event_add (Ev_run (ngx_http_v2_run_request (vc_http cf) r)) st)
         in if h_padding st \<noteq> 0 then ngx_http_v2_state_skip_padded st rest else ngx_http_v2_state_complete st rest))"

text \<open>The part of ngx_http_v2_state_process_header() after the value: the limit, the table and the request.\<close>

definition v2_header_indexed :: "v2_state \<Rightarrow> v2_state option" where
  "v2_header_indexed st =
     (if h_index st
      then (case ngx_http_v2_add_header (h_hpack st) (h_header st) of
              None \<Rightarrow> None
            | Some h \<Rightarrow> Some (st\<lparr>h_hpack := h, h_index := False\<rparr>))
      else Some st)"

definition v2_header_request :: "v2_conf \<Rightarrow> v2_state \<Rightarrow> bytes \<Rightarrow> v2_result" where
  "v2_header_request cf st rest =
     (case h_stream st of
        None \<Rightarrow> V2_call State_header_complete st rest
      | Some r \<Rightarrow>
          (case v2_process_header (vc_http cf) r (h_header st) of
             V2_header r \<Rightarrow> V2_call State_header_complete (st\<lparr>h_stream := Some r\<rparr>) rest
           | V2_header_finalized code \<Rightarrow>
               V2_call State_header_complete (v2_event_add (Ev_finalized code) (st\<lparr>h_stream := None\<rparr>)) rest
           | V2_header_terminated \<Rightarrow>
               V2_call State_header_complete (v2_event_add Ev_terminated (st\<lparr>h_stream := None\<rparr>)) rest
           | V2_header_internal \<Rightarrow> V2_connection_error NGX_HTTP_V2_INTERNAL_ERROR))"

definition ngx_http_v2_state_process_header :: "v2_conf \<Rightarrow> v2_state \<Rightarrow> bytes \<Rightarrow> v2_result" where
  "ngx_http_v2_state_process_header cf st rest =
     (if h_parse_name st
      then V2_call State_field_len (st\<lparr>h_parse_name := False, h_header := (h_field st, snd (h_header st))\<rparr>) rest
      else
        (let st = (if h_parse_value st
                   then st\<lparr>h_parse_value := False, h_header := (fst (h_header st), h_field st)\<rparr> else st);
             len = length (fst (h_header st)) + length (snd (h_header st))
         in if len > h_header_limit st then V2_connection_error NGX_HTTP_V2_ENHANCE_YOUR_CALM
            else
              (case v2_header_indexed (st\<lparr>h_header_limit := h_header_limit st - len\<rparr>) of
                 None \<Rightarrow> V2_connection_error NGX_HTTP_V2_INTERNAL_ERROR
               | Some st \<Rightarrow> v2_header_request cf st rest)))"

section \<open>The strings of a header\<close>

text \<open>
  The three handlers of a string share their ends; \<open>write\<close> is what is done with the bytes that are there: the new
  \<open>field_state\<close> and the bytes written.
\<close>

definition field_size :: "v2_state \<Rightarrow> bytes \<Rightarrow> nat" where
  "field_size st rest = min (min (length rest) (h_field_rest st)) (h_length st)"

definition field_next :: "v2_handler \<Rightarrow> v2_state \<Rightarrow> bytes \<Rightarrow> v2_result" where
  "field_next handler st rest =
     (if h_field_rest st = 0 then V2_call State_process_header st rest
      else if h_length st \<noteq> 0 then ngx_http_v2_state_save st rest handler
      else if end_headers st then V2_connection_error NGX_HTTP_V2_SIZE_ERROR
      else ngx_http_v2_handle_continuation st rest handler)"

definition ngx_http_v2_state_field_huff :: "v2_state \<Rightarrow> bytes \<Rightarrow> v2_result" where
  "ngx_http_v2_state_field_huff st rest =
     (let n = field_size st rest;
          st = st\<lparr>h_length := h_length st - n, h_field_rest := h_field_rest st - n\<rparr>
      in case ngx_http_v2_huff_decode (h_field_state st) (take n rest) (h_field_rest st = 0) of
           None \<Rightarrow> V2_connection_error NGX_HTTP_V2_COMP_ERROR
         | Some (fs, dst) \<Rightarrow>
             field_next State_field_huff (st\<lparr>h_field_state := fs, h_field := h_field st @ dst\<rparr>) (drop n rest))"

definition ngx_http_v2_state_field_raw :: "v2_state \<Rightarrow> bytes \<Rightarrow> v2_result" where
  "ngx_http_v2_state_field_raw st rest =
     (let n = field_size st rest;
          st = st\<lparr>h_length := h_length st - n, h_field_rest := h_field_rest st - n, h_field := h_field st @ take n rest\<rparr>
      in field_next State_field_raw st (drop n rest))"

definition ngx_http_v2_state_field_skip :: "v2_state \<Rightarrow> bytes \<Rightarrow> v2_result" where
  "ngx_http_v2_state_field_skip st rest =
     (let n = field_size st rest;
          st = st\<lparr>h_length := h_length st - n, h_field_rest := h_field_rest st - n\<rparr>
      in field_next State_field_skip st (drop n rest))"

text \<open>The length of a string has been read.\<close>

definition field_begin :: "v2_conf \<Rightarrow> bool \<Rightarrow> nat \<Rightarrow> v2_state \<Rightarrow> bytes \<Rightarrow> v2_result" where
  "field_begin cf huff len st rest =
     (if len > max_field_size cf then V2_connection_error NGX_HTTP_V2_ENHANCE_YOUR_CALM
      else
        (let st = st\<lparr>h_field_rest := len\<rparr>
         in if h_stream st = None \<and> \<not> h_index st then V2_call State_field_skip st rest
            else
              (let st = st\<lparr>h_alloc := (if huff then len * 8 div 5 else len) + 1, h_field := []\<rparr>
               in V2_call (if huff then State_field_huff else State_field_raw) st rest)))"

definition ngx_http_v2_state_field_len :: "v2_conf \<Rightarrow> v2_state \<Rightarrow> bytes \<Rightarrow> v2_result" where
  "ngx_http_v2_state_field_len cf st rest =
     (if \<not> end_headers st \<and> h_length st < NGX_HTTP_V2_INT_OCTETS
      then ngx_http_v2_handle_continuation st rest State_field_len
      else if h_length st < 1 then V2_connection_error NGX_HTTP_V2_SIZE_ERROR
      else if rest = [] then ngx_http_v2_state_save st rest State_field_len
      else
        (case ngx_http_v2_parse_int (h_length st) rest (ngx_http_v2_prefix 7) of
           V2_int len used len' \<Rightarrow>
             field_begin cf (hd rest \<ge> 0x80) len (st\<lparr>h_length := len'\<rparr>) (drop used rest)
         | V2_int_again \<Rightarrow> ngx_http_v2_state_save st rest State_field_len
         | V2_int_declined \<Rightarrow> V2_connection_error NGX_HTTP_V2_COMP_ERROR
         | V2_int_error \<Rightarrow> V2_connection_error NGX_HTTP_V2_SIZE_ERROR))"

section \<open>The start of a header\<close>

datatype v2_representation = Indexed | Incremental | Size_update | Not_indexed

text \<open>The representation of a header, by its first byte, and the bits of its prefix.\<close>

definition v2_first :: "u_char \<Rightarrow> v2_representation \<times> nat" where
  "v2_first c =
     (if c \<ge> 0x80 then (Indexed, 7) else if c \<ge> 0x40 then (Incremental, 6) else if c \<ge> 0x20 then (Size_update, 5)
      else if c \<ge> 0x10 then (Not_indexed, 4) else (Not_indexed, 4))"

definition header_first :: "v2_representation \<Rightarrow> nat \<Rightarrow> v2_state \<Rightarrow> bytes \<Rightarrow> v2_result" where
  "header_first repr val st rest =
     (if repr = Indexed then
        (case ngx_http_v2_get_indexed_header (h_hpack st) (h_header st) val False of
           None \<Rightarrow> V2_connection_error NGX_HTTP_V2_COMP_ERROR
         | Some header \<Rightarrow> V2_call State_process_header (st\<lparr>h_header := header\<rparr>) rest)
      else if repr = Size_update then
        (case ngx_http_v2_table_size (h_hpack st) val of
           None \<Rightarrow> V2_connection_error NGX_HTTP_V2_COMP_ERROR
         | Some h \<Rightarrow> V2_call State_header_complete (st\<lparr>h_hpack := h\<rparr>) rest)
      else if val = 0 then V2_call State_field_len (st\<lparr>h_parse_name := True, h_parse_value := True\<rparr>) rest
      else
        (case ngx_http_v2_get_indexed_header (h_hpack st) (h_header st) val True of
           None \<Rightarrow> V2_connection_error NGX_HTTP_V2_COMP_ERROR
         | Some header \<Rightarrow> V2_call State_field_len (st\<lparr>h_header := header, h_parse_value := True\<rparr>) rest))"

definition header_int :: "v2_representation \<Rightarrow> nat \<Rightarrow> v2_state \<Rightarrow> bytes \<Rightarrow> v2_result" where
  "header_int repr bits st rest =
     (case ngx_http_v2_parse_int (h_length st) rest (ngx_http_v2_prefix bits) of
        V2_int val used len' \<Rightarrow> header_first repr val (st\<lparr>h_length := len'\<rparr>) (drop used rest)
      | V2_int_again \<Rightarrow> ngx_http_v2_state_save st rest State_header_block
      | V2_int_declined \<Rightarrow> V2_connection_error NGX_HTTP_V2_COMP_ERROR
      | V2_int_error \<Rightarrow> V2_connection_error NGX_HTTP_V2_SIZE_ERROR)"

definition ngx_http_v2_state_header_block :: "v2_state \<Rightarrow> bytes \<Rightarrow> v2_result" where
  "ngx_http_v2_state_header_block st rest =
     (if rest = [] then ngx_http_v2_state_save st rest State_header_block
      else if \<not> end_headers st \<and> h_length st < NGX_HTTP_V2_INT_OCTETS
      then ngx_http_v2_handle_continuation st rest State_header_block
      else
        (case v2_first (hd rest) of
           (repr, bits) \<Rightarrow> header_int repr bits (if repr = Incremental then st\<lparr>h_index := True\<rparr> else st) rest))"

section \<open>The loop\<close>

text \<open>One handler; the next frame is left to its own.\<close>

definition v2_handle :: "v2_conf \<Rightarrow> v2_handler \<Rightarrow> v2_state \<Rightarrow> bytes \<Rightarrow> v2_result" where
  "v2_handle cf handler st rest =
     (case handler of
        State_head \<Rightarrow> V2_return State_head st rest
      | State_skip \<Rightarrow> ngx_http_v2_state_skip st rest
      | State_header_block \<Rightarrow> ngx_http_v2_state_header_block st rest
      | State_field_len \<Rightarrow> ngx_http_v2_state_field_len cf st rest
      | State_field_huff \<Rightarrow> ngx_http_v2_state_field_huff st rest
      | State_field_raw \<Rightarrow> ngx_http_v2_state_field_raw st rest
      | State_field_skip \<Rightarrow> ngx_http_v2_state_field_skip st rest
      | State_process_header \<Rightarrow> ngx_http_v2_state_process_header cf st rest
      | State_header_complete \<Rightarrow> ngx_http_v2_state_header_complete cf st rest)"

text \<open>
  The loop of ngx_http_v2_read_handler() over the bytes that have been received, until they are used up, the
  connection fails, or the frame is complete. In \<open>V2_more\<close> are the handler and the bytes in \<open>state.buffer\<close> that
  the next bytes are appended to.
\<close>

datatype v2_loop_rc = V2_failed v2_error | V2_more v2_handler v2_state bytes | V2_frame v2_state bytes

partial_function (option) v2_loop :: "v2_conf \<Rightarrow> v2_handler \<Rightarrow> v2_state \<Rightarrow> bytes \<Rightarrow> v2_loop_rc option" where
  "v2_loop cf handler st rest =
     (case v2_handle cf handler st rest of
        V2_connection_error e \<Rightarrow> Some (V2_failed e)
      | V2_call handler st rest \<Rightarrow> v2_loop cf handler st rest
      | V2_save handler st buf \<Rightarrow> Some (V2_more handler st buf)
      | V2_return handler st rest \<Rightarrow>
          if handler = State_head then Some (V2_frame st rest)
          else if rest = [] then Some (V2_more handler st [])
          else v2_loop cf handler st rest)"

end
