(* ===== verification/V2_Huff_Tables.thy ===== *)
theory V2_Huff_Tables
  imports V2_Huff
begin

text \<open>
  The tables of the Huffman coding checked against each other: the tree of the codes, the states of the
  decoder as its inner nodes, and every row of the decoding table as four steps in the tree.
\<close>

section \<open>The code tree\<close>

text \<open>The inner nodes of the code tree: the bits on the way to a node as a number, their count and the children.\<close>

datatype huff_child = Inner nat | Emit u_char | Eos

definition huff_nodes :: "(nat \<times> nat \<times> huff_child \<times> huff_child) list" where
  "huff_nodes = [
    (0, 0, Inner 1, Inner 22), (0, 1, Inner 2, Inner 9), (0, 2, Inner 3, Inner 6),
    (0, 3, Inner 4, Inner 5), (0, 4, Emit 0x30, Emit 0x31), (1, 4, Emit 0x32, Emit 0x61),
    (1, 3, Inner 7, Inner 8), (2, 4, Emit 0x63, Emit 0x65), (3, 4, Emit 0x69, Emit 0x6f),
    (1, 2, Inner 10, Inner 15), (2, 3, Inner 11, Inner 12), (4, 4, Emit 0x73, Emit 0x74),
    (5, 4, Inner 13, Inner 14), (10, 5, Emit 0x20, Emit 0x25), (11, 5, Emit 0x2d, Emit 0x2e),
    (3, 3, Inner 16, Inner 19), (6, 4, Inner 17, Inner 18), (12, 5, Emit 0x2f, Emit 0x33),
    (13, 5, Emit 0x34, Emit 0x35), (7, 4, Inner 20, Inner 21), (14, 5, Emit 0x36, Emit 0x37),
    (15, 5, Emit 0x38, Emit 0x39), (1, 1, Inner 23, Inner 40), (2, 2, Inner 24, Inner 31),
    (4, 3, Inner 25, Inner 28), (8, 4, Inner 26, Inner 27), (16, 5, Emit 0x3d, Emit 0x41),
    (17, 5, Emit 0x5f, Emit 0x62), (9, 4, Inner 29, Inner 30), (18, 5, Emit 0x64, Emit 0x66),
    (19, 5, Emit 0x67, Emit 0x68), (5, 3, Inner 32, Inner 35), (10, 4, Inner 33, Inner 34),
    (20, 5, Emit 0x6c, Emit 0x6d), (21, 5, Emit 0x6e, Emit 0x70), (11, 4, Inner 36, Inner 37),
    (22, 5, Emit 0x72, Emit 0x75), (23, 5, Inner 38, Inner 39), (46, 6, Emit 0x3a, Emit 0x42),
    (47, 6, Emit 0x43, Emit 0x44), (3, 2, Inner 41, Inner 56), (6, 3, Inner 42, Inner 49),
    (12, 4, Inner 43, Inner 46), (24, 5, Inner 44, Inner 45), (48, 6, Emit 0x45, Emit 0x46),
    (49, 6, Emit 0x47, Emit 0x48), (25, 5, Inner 47, Inner 48), (50, 6, Emit 0x49, Emit 0x4a),
    (51, 6, Emit 0x4b, Emit 0x4c), (13, 4, Inner 50, Inner 53), (26, 5, Inner 51, Inner 52),
    (52, 6, Emit 0x4d, Emit 0x4e), (53, 6, Emit 0x4f, Emit 0x50), (27, 5, Inner 54, Inner 55),
    (54, 6, Emit 0x51, Emit 0x52), (55, 6, Emit 0x53, Emit 0x54), (7, 3, Inner 57, Inner 64),
    (14, 4, Inner 58, Inner 61), (28, 5, Inner 59, Inner 60), (56, 6, Emit 0x55, Emit 0x56),
    (57, 6, Emit 0x57, Emit 0x59), (29, 5, Inner 62, Inner 63), (58, 6, Emit 0x6a, Emit 0x6b),
    (59, 6, Emit 0x71, Emit 0x76), (15, 4, Inner 65, Inner 68), (30, 5, Inner 66, Inner 67),
    (60, 6, Emit 0x77, Emit 0x78), (61, 6, Emit 0x79, Emit 0x7a), (31, 5, Inner 69, Inner 72),
    (62, 6, Inner 70, Inner 71), (124, 7, Emit 0x26, Emit 0x2a), (125, 7, Emit 0x2c, Emit 0x3b),
    (63, 6, Inner 73, Inner 74), (126, 7, Emit 0x58, Emit 0x5a), (127, 7, Inner 75, Inner 78),
    (254, 8, Inner 76, Inner 77), (508, 9, Emit 0x21, Emit 0x22), (509, 9, Emit 0x28, Emit 0x29),
    (255, 8, Inner 79, Inner 81), (510, 9, Emit 0x3f, Inner 80), (1021, 10, Emit 0x27, Emit 0x2b),
    (511, 9, Inner 82, Inner 84), (1022, 10, Emit 0x7c, Inner 83),
    (2045, 11, Emit 0x23, Emit 0x3e), (1023, 10, Inner 85, Inner 88),
    (2046, 11, Inner 86, Inner 87), (4092, 12, Emit 0x00, Emit 0x24),
    (4093, 12, Emit 0x40, Emit 0x5b), (2047, 11, Inner 89, Inner 90),
    (4094, 12, Emit 0x5d, Emit 0x7e), (4095, 12, Inner 91, Inner 92),
    (8190, 13, Emit 0x5e, Emit 0x7d), (8191, 13, Inner 93, Inner 94),
    (16382, 14, Emit 0x3c, Emit 0x60), (16383, 14, Emit 0x7b, Inner 95),
    (32767, 15, Inner 96, Inner 110), (65534, 16, Inner 97, Inner 101),
    (131068, 17, Inner 98, Inner 99), (262136, 18, Emit 0x5c, Emit 0xc3),
    (262137, 18, Emit 0xd0, Inner 100), (524275, 19, Emit 0x80, Emit 0x82),
    (131069, 17, Inner 102, Inner 105), (262138, 18, Inner 103, Inner 104),
    (524276, 19, Emit 0x83, Emit 0xa2), (524277, 19, Emit 0xb8, Emit 0xc2),
    (262139, 18, Inner 106, Inner 107), (524278, 19, Emit 0xe0, Emit 0xe2),
    (524279, 19, Inner 108, Inner 109), (1048558, 20, Emit 0x99, Emit 0xa1),
    (1048559, 20, Emit 0xa7, Emit 0xac), (65535, 16, Inner 111, Inner 133),
    (131070, 17, Inner 112, Inner 119), (262140, 18, Inner 113, Inner 116),
    (524280, 19, Inner 114, Inner 115), (1048560, 20, Emit 0xb0, Emit 0xb1),
    (1048561, 20, Emit 0xb3, Emit 0xd1), (524281, 19, Inner 117, Inner 118),
    (1048562, 20, Emit 0xd8, Emit 0xd9), (1048563, 20, Emit 0xe3, Emit 0xe5),
    (262141, 18, Inner 120, Inner 126), (524282, 19, Inner 121, Inner 123),
    (1048564, 20, Emit 0xe6, Inner 122), (2097129, 21, Emit 0x81, Emit 0x84),
    (1048565, 20, Inner 124, Inner 125), (2097130, 21, Emit 0x85, Emit 0x86),
    (2097131, 21, Emit 0x88, Emit 0x92), (524283, 19, Inner 127, Inner 130),
    (1048566, 20, Inner 128, Inner 129), (2097132, 21, Emit 0x9a, Emit 0x9c),
    (2097133, 21, Emit 0xa0, Emit 0xa3), (1048567, 20, Inner 131, Inner 132),
    (2097134, 21, Emit 0xa4, Emit 0xa9), (2097135, 21, Emit 0xaa, Emit 0xad),
    (131071, 17, Inner 134, Inner 153), (262142, 18, Inner 135, Inner 142),
    (524284, 19, Inner 136, Inner 139), (1048568, 20, Inner 137, Inner 138),
    (2097136, 21, Emit 0xb2, Emit 0xb5), (2097137, 21, Emit 0xb9, Emit 0xba),
    (1048569, 20, Inner 140, Inner 141), (2097138, 21, Emit 0xbb, Emit 0xbd),
    (2097139, 21, Emit 0xbe, Emit 0xc4), (524285, 19, Inner 143, Inner 146),
    (1048570, 20, Inner 144, Inner 145), (2097140, 21, Emit 0xc6, Emit 0xe4),
    (2097141, 21, Emit 0xe8, Emit 0xe9), (1048571, 20, Inner 147, Inner 150),
    (2097142, 21, Inner 148, Inner 149), (4194284, 22, Emit 0x01, Emit 0x87),
    (4194285, 22, Emit 0x89, Emit 0x8a), (2097143, 21, Inner 151, Inner 152),
    (4194286, 22, Emit 0x8b, Emit 0x8c), (4194287, 22, Emit 0x8d, Emit 0x8f),
    (262143, 18, Inner 154, Inner 169), (524286, 19, Inner 155, Inner 162),
    (1048572, 20, Inner 156, Inner 159), (2097144, 21, Inner 157, Inner 158),
    (4194288, 22, Emit 0x93, Emit 0x95), (4194289, 22, Emit 0x96, Emit 0x97),
    (2097145, 21, Inner 160, Inner 161), (4194290, 22, Emit 0x98, Emit 0x9b),
    (4194291, 22, Emit 0x9d, Emit 0x9e), (1048573, 20, Inner 163, Inner 166),
    (2097146, 21, Inner 164, Inner 165), (4194292, 22, Emit 0xa5, Emit 0xa6),
    (4194293, 22, Emit 0xa8, Emit 0xae), (2097147, 21, Inner 167, Inner 168),
    (4194294, 22, Emit 0xaf, Emit 0xb4), (4194295, 22, Emit 0xb6, Emit 0xb7),
    (524287, 19, Inner 170, Inner 180), (1048574, 20, Inner 171, Inner 174),
    (2097148, 21, Inner 172, Inner 173), (4194296, 22, Emit 0xbc, Emit 0xbf),
    (4194297, 22, Emit 0xc5, Emit 0xe7), (2097149, 21, Inner 175, Inner 177),
    (4194298, 22, Emit 0xef, Inner 176), (8388597, 23, Emit 0x09, Emit 0x8e),
    (4194299, 22, Inner 178, Inner 179), (8388598, 23, Emit 0x90, Emit 0x91),
    (8388599, 23, Emit 0x94, Emit 0x9f), (1048575, 20, Inner 181, Inner 190),
    (2097150, 21, Inner 182, Inner 185), (4194300, 22, Inner 183, Inner 184),
    (8388600, 23, Emit 0xab, Emit 0xce), (8388601, 23, Emit 0xd7, Emit 0xe1),
    (4194301, 22, Inner 186, Inner 187), (8388602, 23, Emit 0xec, Emit 0xed),
    (8388603, 23, Inner 188, Inner 189), (16777206, 24, Emit 0xc7, Emit 0xcf),
    (16777207, 24, Emit 0xea, Emit 0xeb), (2097151, 21, Inner 191, Inner 207),
    (4194302, 22, Inner 192, Inner 199), (8388604, 23, Inner 193, Inner 196),
    (16777208, 24, Inner 194, Inner 195), (33554416, 25, Emit 0xc0, Emit 0xc1),
    (33554417, 25, Emit 0xc8, Emit 0xc9), (16777209, 24, Inner 197, Inner 198),
    (33554418, 25, Emit 0xca, Emit 0xcd), (33554419, 25, Emit 0xd2, Emit 0xd5),
    (8388605, 23, Inner 200, Inner 203), (16777210, 24, Inner 201, Inner 202),
    (33554420, 25, Emit 0xda, Emit 0xdb), (33554421, 25, Emit 0xee, Emit 0xf0),
    (16777211, 24, Inner 204, Inner 205), (33554422, 25, Emit 0xf2, Emit 0xf3),
    (33554423, 25, Emit 0xff, Inner 206), (67108847, 26, Emit 0xcb, Emit 0xcc),
    (4194303, 22, Inner 208, Inner 223), (8388606, 23, Inner 209, Inner 216),
    (16777212, 24, Inner 210, Inner 213), (33554424, 25, Inner 211, Inner 212),
    (67108848, 26, Emit 0xd3, Emit 0xd4), (67108849, 26, Emit 0xd6, Emit 0xdd),
    (33554425, 25, Inner 214, Inner 215), (67108850, 26, Emit 0xde, Emit 0xdf),
    (67108851, 26, Emit 0xf1, Emit 0xf4), (16777213, 24, Inner 217, Inner 220),
    (33554426, 25, Inner 218, Inner 219), (67108852, 26, Emit 0xf5, Emit 0xf6),
    (67108853, 26, Emit 0xf7, Emit 0xf8), (33554427, 25, Inner 221, Inner 222),
    (67108854, 26, Emit 0xfa, Emit 0xfb), (67108855, 26, Emit 0xfc, Emit 0xfd),
    (8388607, 23, Inner 224, Inner 238), (16777214, 24, Inner 225, Inner 231),
    (33554428, 25, Inner 226, Inner 228), (67108856, 26, Emit 0xfe, Inner 227),
    (134217713, 27, Emit 0x02, Emit 0x03), (67108857, 26, Inner 229, Inner 230),
    (134217714, 27, Emit 0x04, Emit 0x05), (134217715, 27, Emit 0x06, Emit 0x07),
    (33554429, 25, Inner 232, Inner 235), (67108858, 26, Inner 233, Inner 234),
    (134217716, 27, Emit 0x08, Emit 0x0b), (134217717, 27, Emit 0x0c, Emit 0x0e),
    (67108859, 26, Inner 236, Inner 237), (134217718, 27, Emit 0x0f, Emit 0x10),
    (134217719, 27, Emit 0x11, Emit 0x12), (16777215, 24, Inner 239, Inner 246),
    (33554430, 25, Inner 240, Inner 243), (67108860, 26, Inner 241, Inner 242),
    (134217720, 27, Emit 0x13, Emit 0x14), (134217721, 27, Emit 0x15, Emit 0x17),
    (67108861, 26, Inner 244, Inner 245), (134217722, 27, Emit 0x18, Emit 0x19),
    (134217723, 27, Emit 0x1a, Emit 0x1b), (33554431, 25, Inner 247, Inner 250),
    (67108862, 26, Inner 248, Inner 249), (134217724, 27, Emit 0x1c, Emit 0x1d),
    (134217725, 27, Emit 0x1e, Emit 0x1f), (67108863, 26, Inner 251, Inner 252),
    (134217726, 27, Emit 0x7f, Emit 0xdc), (134217727, 27, Emit 0xf9, Inner 253),
    (268435455, 28, Inner 254, Inner 255), (536870910, 29, Emit 0x0a, Emit 0x0d),
    (536870911, 29, Emit 0x16, Eos)]"

definition huff_node :: "nat \<Rightarrow> nat \<times> nat \<times> huff_child \<times> huff_child" where
  "huff_node s = huff_nodes ! s"

lemma upt_256: "[0..<256] = [0, 1, 2, 3, 4, 5, 6, 7, 8, 9, 10, 11, 12, 13, 14, 15, 16, 17, 18, 19, 20, 21, 22, 23, 24, 25,
    26, 27, 28, 29, 30, 31, 32, 33, 34, 35, 36, 37, 38, 39, 40, 41, 42, 43, 44, 45, 46, 47, 48, 49,
    50, 51, 52, 53, 54, 55, 56, 57, 58, 59, 60, 61, 62, 63, 64, 65, 66, 67, 68, 69, 70, 71, 72, 73,
    74, 75, 76, 77, 78, 79, 80, 81, 82, 83, 84, 85, 86, 87, 88, 89, 90, 91, 92, 93, 94, 95, 96, 97,
    98, 99, 100, 101, 102, 103, 104, 105, 106, 107, 108, 109, 110, 111, 112, 113, 114, 115, 116,
    117, 118, 119, 120, 121, 122, 123, 124, 125, 126, 127, 128, 129, 130, 131, 132, 133, 134, 135,
    136, 137, 138, 139, 140, 141, 142, 143, 144, 145, 146, 147, 148, 149, 150, 151, 152, 153, 154,
    155, 156, 157, 158, 159, 160, 161, 162, 163, 164, 165, 166, 167, 168, 169, 170, 171, 172, 173,
    174, 175, 176, 177, 178, 179, 180, 181, 182, 183, 184, 185, 186, 187, 188, 189, 190, 191, 192,
    193, 194, 195, 196, 197, 198, 199, 200, 201, 202, 203, 204, 205, 206, 207, 208, 209, 210, 211,
    212, 213, 214, 215, 216, 217, 218, 219, 220, 221, 222, 223, 224, 225, 226, 227, 228, 229, 230,
    231, 232, 233, 234, 235, 236, 237, 238, 239, 240, 241, 242, 243, 244, 245, 246, 247, 248, 249,
    250, 251, 252, 253, 254, 255]"
  by code_simp

lemma huff_node_rows: "map huff_node [0..<256] = huff_nodes"
proof -
  have "length huff_nodes = 256" by (simp add: huff_nodes_def)
  then show ?thesis unfolding huff_node_def by (metis map_nth)
qed

lemmas huff_node_at = huff_node_rows [unfolded upt_256 huff_nodes_def list.map list.inject]

definition huff_child :: "nat \<Rightarrow> bool \<Rightarrow> huff_child" where
  "huff_child s b = (case huff_node s of (v, l, c0, c1) \<Rightarrow> if b then c1 else c0)"

text \<open>
  The run over some bits from a node, with the symbols passed; \<open>None\<close> is the end-of-string code.
\<close>

fun huff_run :: "nat \<Rightarrow> bool list \<Rightarrow> (nat \<times> bytes) option" where
  "huff_run s [] = Some (s, [])"
| "huff_run s (b # bs) =
     (case huff_child s b of
        Inner s' \<Rightarrow> huff_run s' bs
      | Emit c \<Rightarrow> map_option (\<lambda>(s', out). (s', c # out)) (huff_run 0 bs)
      | Eos \<Rightarrow> None)"

text \<open>The bits of a node are all ones.\<close>

definition huff_ones :: "nat \<Rightarrow> bool" where
  "huff_ones s = (case huff_node s of (v, l, _) \<Rightarrow> v + 1 = 2 ^ l)"

text \<open>
  The row entry that four bits should have; the values 2 and 3 of \<open>emit\<close>, for two symbols or a loop at the
  node, do not occur.
\<close>

definition huff_entry :: "nat \<Rightarrow> bool list \<Rightarrow> huff_code" where
  "huff_entry s bs =
     (case huff_run s bs of
        None \<Rightarrow> Huff (of_nat s) 0 0 0
      | Some (s', out) \<Rightarrow>
          if s' = s then Huff 0 3 0 0
          else
            (case out of
               [] \<Rightarrow> Huff (of_nat s') 0 0 (if huff_ones s' then 1 else 0)
             | [c] \<Rightarrow> Huff (of_nat s') 1 c (if huff_ones s' then 1 else 0)
             | _ \<Rightarrow> Huff 0 2 0 0))"

definition nibbles :: "bool list list" where
  "nibbles = [[False, False, False, False], [False, False, False, True], [False, False, True, False],
    [False, False, True, True], [False, True, False, False], [False, True, False, True],
    [False, True, True, False], [False, True, True, True], [True, False, False, False],
    [True, False, False, True], [True, False, True, False], [True, False, True, True],
    [True, True, False, False], [True, True, False, True], [True, True, True, False],
    [True, True, True, True]]"

lemmas huff_eval = huff_child_def huff_node_at

section \<open>The decoding table\<close>

lemma rows_0: "huff_rows_0 = map (\<lambda>s. map (huff_entry s) nibbles)
    [0, 1, 2, 3, 4, 5, 6, 7, 8, 9, 10, 11, 12, 13, 14, 15]"
  by (simp add: huff_rows_0_def huff_entry_def huff_ones_def nibbles_def huff_eval del: One_nat_def)

lemma rows_1: "huff_rows_1 = map (\<lambda>s. map (huff_entry s) nibbles)
    [16, 17, 18, 19, 20, 21, 22, 23, 24, 25, 26, 27, 28, 29, 30, 31]"
  by (simp add: huff_rows_1_def huff_entry_def huff_ones_def nibbles_def huff_eval del: One_nat_def)

lemma rows_2: "huff_rows_2 = map (\<lambda>s. map (huff_entry s) nibbles)
    [32, 33, 34, 35, 36, 37, 38, 39, 40, 41, 42, 43, 44, 45, 46, 47]"
  by (simp add: huff_rows_2_def huff_entry_def huff_ones_def nibbles_def huff_eval del: One_nat_def)

lemma rows_3: "huff_rows_3 = map (\<lambda>s. map (huff_entry s) nibbles)
    [48, 49, 50, 51, 52, 53, 54, 55, 56, 57, 58, 59, 60, 61, 62, 63]"
  by (simp add: huff_rows_3_def huff_entry_def huff_ones_def nibbles_def huff_eval del: One_nat_def)

lemma rows_4: "huff_rows_4 = map (\<lambda>s. map (huff_entry s) nibbles)
    [64, 65, 66, 67, 68, 69, 70, 71, 72, 73, 74, 75, 76, 77, 78, 79]"
  by (simp add: huff_rows_4_def huff_entry_def huff_ones_def nibbles_def huff_eval del: One_nat_def)

lemma rows_5: "huff_rows_5 = map (\<lambda>s. map (huff_entry s) nibbles)
    [80, 81, 82, 83, 84, 85, 86, 87, 88, 89, 90, 91, 92, 93, 94, 95]"
  by (simp add: huff_rows_5_def huff_entry_def huff_ones_def nibbles_def huff_eval del: One_nat_def)

lemma rows_6: "huff_rows_6 = map (\<lambda>s. map (huff_entry s) nibbles)
    [96, 97, 98, 99, 100, 101, 102, 103, 104, 105, 106, 107, 108, 109, 110, 111]"
  by (simp add: huff_rows_6_def huff_entry_def huff_ones_def nibbles_def huff_eval del: One_nat_def)

lemma rows_7: "huff_rows_7 = map (\<lambda>s. map (huff_entry s) nibbles)
    [112, 113, 114, 115, 116, 117, 118, 119, 120, 121, 122, 123, 124, 125, 126, 127]"
  by (simp add: huff_rows_7_def huff_entry_def huff_ones_def nibbles_def huff_eval del: One_nat_def)

lemma rows_8: "huff_rows_8 = map (\<lambda>s. map (huff_entry s) nibbles)
    [128, 129, 130, 131, 132, 133, 134, 135, 136, 137, 138, 139, 140, 141, 142, 143]"
  by (simp add: huff_rows_8_def huff_entry_def huff_ones_def nibbles_def huff_eval del: One_nat_def)

lemma rows_9: "huff_rows_9 = map (\<lambda>s. map (huff_entry s) nibbles)
    [144, 145, 146, 147, 148, 149, 150, 151, 152, 153, 154, 155, 156, 157, 158, 159]"
  by (simp add: huff_rows_9_def huff_entry_def huff_ones_def nibbles_def huff_eval del: One_nat_def)

lemma rows_a: "huff_rows_a = map (\<lambda>s. map (huff_entry s) nibbles)
    [160, 161, 162, 163, 164, 165, 166, 167, 168, 169, 170, 171, 172, 173, 174, 175]"
  by (simp add: huff_rows_a_def huff_entry_def huff_ones_def nibbles_def huff_eval del: One_nat_def)

lemma rows_b: "huff_rows_b = map (\<lambda>s. map (huff_entry s) nibbles)
    [176, 177, 178, 179, 180, 181, 182, 183, 184, 185, 186, 187, 188, 189, 190, 191]"
  by (simp add: huff_rows_b_def huff_entry_def huff_ones_def nibbles_def huff_eval del: One_nat_def)

lemma rows_c: "huff_rows_c = map (\<lambda>s. map (huff_entry s) nibbles)
    [192, 193, 194, 195, 196, 197, 198, 199, 200, 201, 202, 203, 204, 205, 206, 207]"
  by (simp add: huff_rows_c_def huff_entry_def huff_ones_def nibbles_def huff_eval del: One_nat_def)

lemma rows_d: "huff_rows_d = map (\<lambda>s. map (huff_entry s) nibbles)
    [208, 209, 210, 211, 212, 213, 214, 215, 216, 217, 218, 219, 220, 221, 222, 223]"
  by (simp add: huff_rows_d_def huff_entry_def huff_ones_def nibbles_def huff_eval del: One_nat_def)

lemma rows_e: "huff_rows_e = map (\<lambda>s. map (huff_entry s) nibbles)
    [224, 225, 226, 227, 228, 229, 230, 231, 232, 233, 234, 235, 236, 237, 238, 239]"
  by (simp add: huff_rows_e_def huff_entry_def huff_ones_def nibbles_def huff_eval del: One_nat_def)

lemma rows_f: "huff_rows_f = map (\<lambda>s. map (huff_entry s) nibbles)
    [240, 241, 242, 243, 244, 245, 246, 247, 248, 249, 250, 251, 252, 253, 254, 255]"
  by (simp add: huff_rows_f_def huff_entry_def huff_ones_def nibbles_def huff_eval del: One_nat_def)


lemma decode_codes: "ngx_http_v2_huff_decode_codes = map (\<lambda>s. map (huff_entry s) nibbles) [0..<256]"
  unfolding ngx_http_v2_huff_decode_codes_def rows_0 rows_1 rows_2 rows_3 rows_4 rows_5 rows_6 rows_7 rows_8 rows_9 rows_a rows_b rows_c rows_d rows_e rows_f
  by (simp only: upt_256 list.map append.simps)

lemma decode_emits: "list_all (list_all (\<lambda>x. huff_emit x = 0 \<or> huff_emit x = 1)) ngx_http_v2_huff_decode_codes"
  by (simp add: ngx_http_v2_huff_decode_codes_def huff_rows_0_def huff_rows_1_def huff_rows_2_def huff_rows_3_def huff_rows_4_def huff_rows_5_def huff_rows_6_def huff_rows_7_def huff_rows_8_def huff_rows_9_def huff_rows_a_def huff_rows_b_def huff_rows_c_def huff_rows_d_def huff_rows_e_def huff_rows_f_def)

section \<open>The code tree and the encoding table\<close>

definition huff_enc :: "u_char \<Rightarrow> u32 \<times> nat" where
  "huff_enc c = ngx_http_v2_huff_encode_table ! unat c"

lemma huff_enc_rows: "map huff_enc all_bytes = ngx_http_v2_huff_encode_table"
  unfolding huff_enc_def by (rule table_rows) (simp add: ngx_http_v2_huff_encode_table_def)

lemmas huff_enc_at = huff_enc_rows [unfolded all_bytes_list ngx_http_v2_huff_encode_table_def list.map list.inject]

text \<open>A child continues the bits of its node; a leaf is the symbol whose code they are.\<close>

fun huff_child_ok :: "nat \<Rightarrow> nat \<Rightarrow> huff_child \<Rightarrow> bool" where
  "huff_child_ok v l (Inner s) \<longleftrightarrow> s < 256 \<and> (case huff_node s of (v', l', _) \<Rightarrow> v' = v \<and> l' = l \<and> l < 30)"
| "huff_child_ok v l (Emit c) \<longleftrightarrow> huff_enc c = (of_nat v, l) \<and> 5 \<le> l \<and> l \<le> 30 \<and> v < 2 ^ l"
| "huff_child_ok v l Eos \<longleftrightarrow> True"

definition huff_node_ok :: "nat \<Rightarrow> bool" where
  "huff_node_ok s = (case huff_node s of (v, l, c0, c1) \<Rightarrow>
     v < 2 ^ l \<and> huff_child_ok (2 * v) (l + 1) c0 \<and> huff_child_ok (2 * v + 1) (l + 1) c1)"

lemma huff_nodes_ok: "list_all huff_node_ok [0..<256]"
  unfolding upt_256 by (simp add: huff_node_ok_def huff_eval huff_enc_at del: One_nat_def)

text \<open>Every code leads from the root to its symbol, and up to 29 ones lead to no symbol.\<close>

definition huff_bits :: "nat \<Rightarrow> nat \<Rightarrow> bool list" where
  "huff_bits v l = map (bit v) (rev [0..<l])"

lemma huff_bits_0: "huff_bits v 0 = []"
  by (simp add: huff_bits_def)

lemma huff_bits_snoc: "huff_bits (2 * v + of_bool b) (l + 1) = huff_bits v l @ [b]"
proof -
  have "[0..<l + 1] = 0 # map Suc [0..<l]" by (simp add: map_Suc_upt upt_conv_Cons del: upt_Suc)
  then show ?thesis by (auto simp: huff_bits_def rev_map bit_Suc bit_0)
qed

lemma huff_paths: "list_all (\<lambda>c. case huff_enc c of (v, l) \<Rightarrow> huff_run 0 (huff_bits (unat v) l) = Some (0, [c])) all_bytes"
  unfolding all_bytes_list
  by (simp add: huff_enc_at huff_eval huff_bits_def upt_rec_numeral bit_0 upt_conv_Cons del: One_nat_def)

definition ones_29 :: "bool list" where
  "ones_29 = [True, True, True, True, True, True, True, True, True, True, True, True, True, True, True, True, True, True, True, True, True, True, True, True, True, True, True, True, True]"

lemma huff_take_ones:
  "list_all (\<lambda>k. case huff_run 0 (take k ones_29) of Some (s, out) \<Rightarrow> out = [] \<and> huff_ones s | None \<Rightarrow> False)
    [0, 1, 2, 3, 4, 5, 6, 7, 8, 9, 10, 11, 12, 13, 14, 15, 16, 17, 18, 19, 20, 21, 22, 23, 24, 25, 26, 27, 28, 29]"
  by (simp add: huff_eval huff_ones_def ones_29_def)

lemma huff_run_ones:
  assumes "k < 30"
  shows "\<exists>s. huff_run 0 (replicate k True) = Some (s, []) \<and> huff_ones s"
proof -
  have ones: "ones_29 = replicate 29 True" by (simp add: ones_29_def numeral_eq_Suc)
  have "min k 29 = k" using assms by simp
  then have take: "take k ones_29 = replicate k True" unfolding ones take_replicate by (rule arg_cong)
  have "[0, 1, 2, 3, 4, 5, 6, 7, 8, 9, 10, 11, 12, 13, 14, 15, 16, 17, 18, 19, 20, 21, 22, 23, 24, 25, 26, 27, 28, 29]
    = [0..<30]" by code_simp
  with huff_take_ones have "list_all (\<lambda>k. case huff_run 0 (take k ones_29) of Some (s, out) \<Rightarrow> out = [] \<and> huff_ones s
      | None \<Rightarrow> False) [0..<30]" by (simp only:)
  with assms take show ?thesis by (force simp: list_all_iff split: option.splits)
qed

end
