(* ===== verification/V2_Huff_Decode.thy ===== *)
theory V2_Huff_Decode
  imports V2_Huff_Tables
begin

text \<open>
  The Huffman decoder of HTTP/2 against the code of RFC 7541: the automaton of V2_Huff_Tables read bit by bit,
  and the decoder of src/http/v2/ngx_http_v2_huff_decode.c on a string that arrives in several buffers.
\<close>


section \<open>The automaton on bits\<close>

definition huff_len :: "nat \<Rightarrow> nat" where
  "huff_len s = fst (snd (huff_node s))"

definition huff_pfx :: "nat \<Rightarrow> bool list" where
  "huff_pfx s = huff_bits (fst (huff_node s)) (huff_len s)"

definition huff_code_bits :: "u_char \<Rightarrow> bool list" where
  "huff_code_bits c = (case huff_enc c of (v, l) \<Rightarrow> huff_bits (unat v) l)"

definition huff_codes :: "bytes \<Rightarrow> bool list" where
  "huff_codes s = concat (map huff_code_bits s)"

lemma huff_codes_simps [simp]: "huff_codes [] = []" "huff_codes (c # s) = huff_code_bits c @ huff_codes s"
  "huff_codes (s @ t) = huff_codes s @ huff_codes t"
  by (simp_all add: huff_codes_def)

lemma huff_bits_length: "length (huff_bits v l) = l"
  by (simp add: huff_bits_def)

lemma huff_node_ok_all: "s < 256 \<Longrightarrow> huff_node_ok s"
  using huff_nodes_ok by (simp add: list_all_iff)

lemma huff_child_step:
  assumes "s < 256"
  shows "case huff_child s b of
      Inner s' \<Rightarrow> s' < 256 \<and> huff_pfx s' = huff_pfx s @ [b] \<and> huff_len s' < 30
    | Emit c \<Rightarrow> huff_code_bits c = huff_pfx s @ [b] \<and> 5 \<le> length (huff_code_bits c)
    | Eos \<Rightarrow> True"
proof -
  obtain v l c0 c1 where node: "huff_node s = (v, l, c0, c1)" by (metis prod_cases4)
  let ?v = "2 * v + of_bool b"
  have ok: "huff_child_ok ?v (l + 1) (huff_child s b)"
    using huff_node_ok_all [OF assms] by (simp add: huff_node_ok_def node huff_child_def)
  have bits: "huff_bits ?v (l + 1) = huff_pfx s @ [b]"
    by (simp only: huff_bits_snoc) (simp add: huff_pfx_def huff_len_def node)
  show ?thesis
  proof (cases "huff_child s b")
    case (Inner s')
    with ok bits show ?thesis by (auto simp: huff_pfx_def huff_len_def split: prod.splits)
  next
    case (Emit c)
    have v: "unat (of_nat ?v :: u32) = ?v"
    proof (rule unat_of_nat_lt)
      have "(2 :: nat) ^ (l + 1) \<le> 2 ^ 32" using ok Emit by (intro power_increasing) auto
      moreover have "?v < 2 ^ (l + 1)" using ok Emit by simp
      ultimately have "?v < 2 ^ 32" by (rule less_le_trans [rotated])
      then show "?v < 2 ^ LENGTH(32)" by simp
    qed
    have enc: "huff_enc c = (of_nat ?v, l + 1)" "5 \<le> l + 1" using ok Emit by simp_all
    have "huff_code_bits c = huff_bits ?v (l + 1)" unfolding huff_code_bits_def enc(1) using v by simp
    with Emit bits enc(2) huff_bits_length [of ?v "l + 1"] show ?thesis by simp
  qed simp
qed

text \<open>What has been read is the codes of the symbols passed and the bits of the node.\<close>

lemma huff_run_bits:
  "\<lbrakk>huff_run s bs = Some (s', out); s < 256\<rbrakk>
   \<Longrightarrow> s' < 256 \<and> huff_pfx s @ bs = huff_codes out @ huff_pfx s'"
proof (induction s bs arbitrary: s' out rule: huff_run.induct)
  case (2 s b bs)
  note child = huff_child_step [OF "2.prems"(2), of b]
  show ?case
  proof (cases "huff_child s b")
    case (Inner t)
    with 2 child show ?thesis by fastforce
  next
    case (Emit c)
    with "2.prems"(1) obtain out' where out: "huff_run 0 bs = Some (s', out')" "out = c # out'"
      by auto
    have "huff_pfx 0 = []" by (simp add: huff_pfx_def huff_len_def huff_node_at huff_bits_0)
    with "2.IH"(2) [OF Emit out(1)] out(2) child Emit show ?thesis by auto
  qed (use "2.prems" in simp)
qed simp

lemma huff_run_append:
  "huff_run s (xs @ ys) = (case huff_run s xs of None \<Rightarrow> None
     | Some (s', out) \<Rightarrow> map_option (\<lambda>(s'', out'). (s'', out @ out')) (huff_run s' ys))"
proof (induction s xs rule: huff_run.induct)
  case (1 s)
  show ?case by (cases "huff_run s ys") auto
next
  case (2 s b xs)
  show ?case
  proof (cases "huff_child s b")
    case (Emit c)
    with 2 show ?thesis by (cases "huff_run 0 xs") (auto simp: option.map_comp comp_def split_def)
  qed (use 2 in auto)
qed

lemma huff_run_code: "huff_run 0 (huff_code_bits c) = Some (0, [c])"
proof -
  have "c \<in> set all_bytes" by (rule all_bytes_set)
  with huff_paths show ?thesis by (auto simp: list_all_iff huff_code_bits_def split: prod.splits)
qed

lemma huff_run_codes: "huff_run 0 (huff_codes s) = Some (0, s)"
  by (induction s) (simp_all add: huff_run_append huff_run_code)

lemma huff_code_length: "5 \<le> length (huff_code_bits c) \<and> length (huff_code_bits c) \<le> 30"
proof -
  have "list_all (\<lambda>c. case huff_enc c of (v, l) \<Rightarrow> 5 \<le> l \<and> l \<le> 30) all_bytes"
    unfolding all_bytes_list by (simp add: huff_enc_at)
  moreover have "c \<in> set all_bytes" by (rule all_bytes_set)
  ultimately show ?thesis by (auto simp: list_all_iff huff_code_bits_def huff_bits_length split: prod.splits)
qed

lemma huff_codes_length: "5 * length s \<le> length (huff_codes s)"
proof (induction s)
  case (Cons c s)
  with huff_code_length [of c] show ?case by simp
qed simp

text \<open>The nodes of ones only.\<close>

lemma huff_len_30: "s < 256 \<Longrightarrow> huff_len s < 30"
proof -
  have "list_all (\<lambda>s. huff_len s < 30) [0..<256]"
    unfolding upt_256 by (simp add: huff_len_def huff_node_at del: One_nat_def)
  then show "s < 256 \<Longrightarrow> huff_len s < 30" by (simp add: list_all_iff)
qed

lemma huff_bits_replicate: "huff_bits (mask l) l = replicate l True"
  by (rule nth_equalityI) (simp_all add: huff_bits_def rev_nth bit_mask_iff)

lemma huff_bits_value: "v < 2 ^ l \<Longrightarrow> v = horner_sum of_bool 2 (rev (huff_bits v l))"
  by (simp add: huff_bits_def rev_map horner_sum_bit_eq_take_bit take_bit_nat_eq_self flip: rev_map)

lemma huff_ones_iff: "s < 256 \<Longrightarrow> huff_ones s \<longleftrightarrow> huff_pfx s = replicate (huff_len s) True"
proof -
  assume s: "s < 256"
  obtain v l c where node: "huff_node s = (v, l, c)" by (metis prod_cases3)
  have lt: "v < 2 ^ l" using huff_node_ok_all [OF s] by (simp add: huff_node_ok_def node split: prod.splits)
  have m: "mask l < (2 :: nat) ^ l" by (simp add: mask_eq_exp_minus_1)
  have "huff_bits v l = replicate l True \<longleftrightarrow> v = mask l"
  proof
    assume "huff_bits v l = replicate l True"
    then have "huff_bits v l = huff_bits (mask l) l" by (simp add: huff_bits_replicate)
    then show "v = mask l" using huff_bits_value [OF lt] huff_bits_value [OF m] by simp
  qed (simp add: huff_bits_replicate)
  moreover have "v + 1 = 2 ^ l \<longleftrightarrow> v = mask l" using lt by (auto simp: mask_eq_exp_minus_1)
  ultimately show ?thesis by (simp add: huff_ones_def huff_pfx_def huff_len_def node)
qed

section \<open>The decoder\<close>

definition byte_bits :: "u_char \<Rightarrow> bool list" where
  "byte_bits c = map (bit c) [7, 6, 5, 4, 3, 2, 1, 0]"

definition bytes_bits :: "bytes \<Rightarrow> bool list" where
  "bytes_bits s = concat (map byte_bits s)"

lemma bytes_bits_simps [simp]: "bytes_bits [] = []" "bytes_bits (c # s) = byte_bits c @ bytes_bits s"
  "bytes_bits (s @ t) = bytes_bits s @ bytes_bits t"
  by (simp_all add: bytes_bits_def)

lemma byte_bits_length: "length (byte_bits c) = 8"
  by (simp add: byte_bits_def)

lemma bytes_bits_length: "length (bytes_bits s) = 8 * length s"
  by (induction s) (simp_all add: byte_bits_length)

lemma byte_nibbles:
  "unat (drop_bit 4 c) < 16 \<and> unat (c AND 0xf) < 16
   \<and> byte_bits c = nibbles ! unat (drop_bit 4 c) @ nibbles ! unat (c AND 0xf)"
proof -
  have "list_all (\<lambda>c. unat (drop_bit 4 c) < 16 \<and> unat (c AND 0xf) < 16
      \<and> byte_bits c = nibbles ! unat (drop_bit 4 c) @ nibbles ! unat (c AND 0xf)) all_bytes"
    unfolding all_bytes_list by (simp add: byte_bits_def nibbles_def)
  moreover have "c \<in> set all_bytes" by (rule all_bytes_set)
  ultimately show ?thesis by (auto simp: list_all_iff)
qed

lemma decode_bits_run:
  assumes "s < 256" "unat n < 16"
  shows "ngx_http_v2_huff_decode_bits (of_nat s) n =
    (case huff_run s (nibbles ! unat n) of
       None \<Rightarrow> None
     | Some (s', out) \<Rightarrow> Some (of_nat s', if huff_ones s' then 1 else 0, out))"
proof -
  let ?e = "huff_entry s (nibbles ! unat n)"
  have len: "length nibbles = 16" by (simp add: nibbles_def)
  have u: "unat (of_nat s :: u_char) = s" using assms(1) by (intro unat_of_nat_lt) simp
  have row: "ngx_http_v2_huff_decode_codes ! s ! unat n = ?e"
    using assms len by (simp add: decode_codes)
  have "ngx_http_v2_huff_decode_codes ! s \<in> set ngx_http_v2_huff_decode_codes"
    "ngx_http_v2_huff_decode_codes ! s ! unat n \<in> set (ngx_http_v2_huff_decode_codes ! s)"
    using assms len by (auto intro!: nth_mem simp: decode_codes)
  with decode_emits have emit: "huff_emit ?e = 0 \<or> huff_emit ?e = 1"
    unfolding row by (auto simp: list_all_iff)
  show ?thesis
  proof (cases "huff_run s (nibbles ! unat n)")
    case None
    then show ?thesis by (simp add: ngx_http_v2_huff_decode_bits_def u row huff_entry_def)
  next
    case (Some r)
    then obtain s' out where run: "huff_run s (nibbles ! unat n) = Some (s', out)" by (cases r) auto
    have "s' \<noteq> s" using emit run by (auto simp: huff_entry_def)
    moreover have "s' < 256" using huff_run_bits [OF run assms(1)] by simp
    ultimately have ne: "(of_nat s' :: u_char) \<noteq> of_nat s"
      using u unat_of_nat_lt [of s', where ?'a = 8] by auto
    consider (none) "out = []" | (one) c where "out = [c]" | (more) c d out' where "out = c # d # out'"
      by (metis list.exhaust)
    then show ?thesis
    proof cases
      case more
      with emit run \<open>s' \<noteq> s\<close> show ?thesis by (simp add: huff_entry_def)
    qed (use run \<open>s' \<noteq> s\<close> ne in \<open>simp_all add: ngx_http_v2_huff_decode_bits_def u row huff_entry_def Let_def\<close>)
  qed
qed

lemma decode_loop_run:
  assumes "s < 256"
  shows "huff_decode_loop (of_nat s) ending dst src =
    (case huff_run s (bytes_bits src) of
       None \<Rightarrow> None
     | Some (s', out) \<Rightarrow> Some (of_nat s', if src = [] then ending else if huff_ones s' then 1 else 0, dst @ out))"
  using assms
proof (induction src arbitrary: s ending dst)
  case (Cons c src)
  let ?hi = "nibbles ! unat (drop_bit 4 c)" and ?lo = "nibbles ! unat (c AND 0xf)"
  note nib = byte_nibbles [of c]
  show ?case
  proof (cases "huff_run s ?hi")
    case None
    with decode_bits_run [OF Cons.prems, of "drop_bit 4 c"] nib show ?thesis
      by (simp add: huff_run_append)
  next
    case (Some r1)
    then obtain s1 out1 where run1: "huff_run s ?hi = Some (s1, out1)" by (cases r1) auto
    with huff_run_bits Cons.prems have s1: "s1 < 256" by blast
    show ?thesis
    proof (cases "huff_run s1 ?lo")
      case None
      with decode_bits_run [OF Cons.prems, of "drop_bit 4 c"] decode_bits_run [OF s1, of "c AND 0xf"] nib run1
      show ?thesis by (simp add: huff_run_append)
    next
      case (Some r2)
      then obtain s2 out2 where run2: "huff_run s1 ?lo = Some (s2, out2)" by (cases r2) auto
      with huff_run_bits s1 have s2: "s2 < 256" by blast
      from decode_bits_run [OF Cons.prems, of "drop_bit 4 c"] decode_bits_run [OF s1, of "c AND 0xf"] nib run1 run2
        Cons.IH [OF s2]
      show ?thesis
        by (cases "huff_run s2 (bytes_bits src)") (auto simp: huff_run_append split: prod.splits)
    qed
  qed
qed simp

text \<open>
  A string that arrives in several buffers, as ngx_http_v2_state_field_huff() decodes it: the state of the
  decoder is kept between the calls, the last one is told so.
\<close>

fun huff_field :: "u_char \<Rightarrow> bytes list \<Rightarrow> (u_char \<times> bytes) option" where
  "huff_field state [] = Some (state, [])"
| "huff_field state (src # srcs) =
     (case ngx_http_v2_huff_decode state src (srcs = []) of
        None \<Rightarrow> None
      | Some (state, out) \<Rightarrow> map_option (\<lambda>(state, out'). (state, out @ out')) (huff_field state srcs))"

lemma huff_field_run:
  assumes "s < 256" "srcs \<noteq> []" "last srcs \<noteq> [] \<or> concat srcs = [] \<and> s = 0"
  shows "huff_field (of_nat s) srcs =
    (case huff_run s (bytes_bits (concat srcs)) of
       Some (s', out) \<Rightarrow> if huff_ones s' then Some (0, out) else None
     | None \<Rightarrow> None)"
  using assms
proof (induction srcs arbitrary: s)
  case (Cons src srcs)
  show ?case
  proof (cases "srcs = []")
    case True
    have "huff_ones 0" by (simp add: huff_ones_def huff_node_at)
    with True Cons.prems show ?thesis
      by (auto simp: ngx_http_v2_huff_decode_def decode_loop_run split: option.splits)
  next
    case False
    show ?thesis
    proof (cases "huff_run s (bytes_bits src)")
      case None
      with False Cons.prems show ?thesis
        by (simp add: ngx_http_v2_huff_decode_def decode_loop_run huff_run_append)
    next
      case (Some r)
      then obtain s1 out1 where run: "huff_run s (bytes_bits src) = Some (s1, out1)" by (cases r) auto
      with huff_run_bits Cons.prems(1) have s1: "s1 < 256" by blast
      have "last srcs \<noteq> [] \<or> concat srcs = [] \<and> s1 = 0"
        using Cons.prems(3) False run by auto
      from Cons.IH [OF s1 False this] run False Cons.prems(1) show ?thesis
        by (auto simp: ngx_http_v2_huff_decode_def decode_loop_run huff_run_append split: option.splits)
    qed
  qed
qed simp

lemma huff_field_codes:
  assumes "srcs \<noteq> []" "last srcs \<noteq> [] \<or> concat srcs = []"
  shows "huff_field 0 srcs = Some (state, out) \<longleftrightarrow>
    state = 0 \<and> (\<exists>k < 30. bytes_bits (concat srcs) = huff_codes out @ replicate k True)"
proof -
  have run: "huff_field 0 srcs = Some (state, out) \<longleftrightarrow>
      state = 0 \<and> (\<exists>s'. huff_run 0 (bytes_bits (concat srcs)) = Some (s', out) \<and> huff_ones s')"
    using huff_field_run [of 0 srcs] assms by (auto split: option.splits)
  have pfx: "huff_pfx 0 = []" by (simp add: huff_pfx_def huff_len_def huff_node_at huff_bits_0)
  have "(\<exists>s'. huff_run 0 bs = Some (s', out) \<and> huff_ones s') \<longleftrightarrow> (\<exists>k < 30. bs = huff_codes out @ replicate k True)" for bs
  proof
    assume "\<exists>s'. huff_run 0 bs = Some (s', out) \<and> huff_ones s'"
    then obtain s' where s': "huff_run 0 bs = Some (s', out)" "huff_ones s'" by blast
    from huff_run_bits [OF s'(1)] pfx have "s' < 256" "bs = huff_codes out @ huff_pfx s'" by simp_all
    with s'(2) huff_ones_iff huff_len_30 show "\<exists>k < 30. bs = huff_codes out @ replicate k True" by metis
  next
    assume "\<exists>k < 30. bs = huff_codes out @ replicate k True"
    then obtain k where "k < 30" "bs = huff_codes out @ replicate k True" by blast
    with huff_run_ones [of k] huff_run_codes [of out] show "\<exists>s'. huff_run 0 bs = Some (s', out) \<and> huff_ones s'"
      by (auto simp: huff_run_append)
  qed
  with run show ?thesis by simp
qed

lemma bits_1f: "bytes_bits [0x1f] = huff_codes (bytes_of ''a'') @ replicate 3 True"
proof -
  have "replicate 3 True = [True, True, True]" by (simp add: numeral_3_eq_3)
  moreover have "huff_enc 0x61 = (3, 5)" by (simp add: huff_enc_at)
  moreover have "rev [0..<5] = [4, 3, 2, 1, 0 :: nat]" by (simp add: upt_conv_Cons)
  ultimately show ?thesis by (simp add: byte_bits_def huff_code_bits_def huff_bits_def bit_0)
qed

text \<open>
  C20. However a string is cut into buffers, the decoder accepts it exactly if its bits are the codes of
  some bytes and fewer than 30 ones, and returns these bytes.
\<close>

theorem ngx_http_v2_huff_decode_correct:
  assumes "srcs \<noteq> []" "last srcs \<noteq> [] \<or> concat srcs = []"
  shows "huff_field 0 srcs = Some (state, out) \<longleftrightarrow>
    state = 0 \<and> (\<exists>k < 30. bytes_bits (concat srcs) = huff_codes out @ replicate k True)"
  using assms by (rule huff_field_codes)

theorem ngx_http_v2_huff_decode_correct_witness:
  "huff_field 0 [[0x1f]] = Some (0, bytes_of ''a'')"
proof -
  have "\<exists>k < 30. bytes_bits (concat [[0x1f]]) = huff_codes (bytes_of ''a'') @ replicate k True"
    using bits_1f by (intro exI [of _ 3]) simp
  with ngx_http_v2_huff_decode_correct [of "[[0x1f]]" 0 "bytes_of ''a''"] show ?thesis by simp
qed

text \<open>
  Padding of eight ones and more, which RFC 7541 (section 5.2) wants refused, is accepted: the byte 0xff
  decodes to the empty string.
\<close>

lemma ngx_http_v2_huff_decode_padding: "huff_field 0 [[0xff]] = Some (0, [])"
proof -
  have "bytes_bits (concat [[0xff]]) = huff_codes [] @ replicate 8 True"
    by (simp add: byte_bits_def numeral_eq_Suc)
  then have "\<exists>k < 30. bytes_bits (concat [[0xff]]) = huff_codes [] @ replicate k True"
    by (intro exI [of _ 8]) simp
  with huff_field_codes [of "[[0xff]]" 0 "[]"] show ?thesis by simp
qed

text \<open>
  The buffer of ngx_http_v2_state_field_len(), \<open>len * 8 / 5\<close> bytes for a string of \<open>len\<close>, is large
  enough: whatever part of the string has been decoded, with or without the end of a symbol, no more has been written.
\<close>

theorem ngx_http_v2_huff_decode_fits:
  assumes "huff_decode_loop 0 ending [] src = Some (state, ending', out)"
  shows "length out \<le> length src * 8 div 5"
proof -
  from assms decode_loop_run [of 0 ending "[]" src] obtain s' where "huff_run 0 (bytes_bits src) = Some (s', out)"
    by (auto split: option.splits)
  from huff_run_bits [OF this] have "huff_codes out @ huff_pfx s' = bytes_bits src"
    by (simp add: huff_pfx_def huff_len_def huff_node_at huff_bits_0)
  from arg_cong [OF this, of length] huff_codes_length [of out] have "5 * length out \<le> 8 * length src"
    by (simp add: bytes_bits_length)
  then show ?thesis by linarith
qed

theorem ngx_http_v2_huff_decode_fits_witness:
  "\<exists>state ending. huff_decode_loop 0 0 [] [0x1f] = Some (state, ending, bytes_of ''a'')
     \<and> length (bytes_of ''a'') \<le> length [0x1f :: u_char] * 8 div 5"
proof -
  obtain s where "huff_run 0 (replicate 3 True) = Some (s, [])"
    using huff_run_ones [of 3] by auto
  then have "huff_run 0 (bytes_bits [0x1f]) = Some (s, bytes_of ''a'')"
    unfolding bits_1f huff_run_append huff_run_codes by simp
  then obtain ending where "huff_decode_loop 0 0 [] [0x1f] = Some (of_nat s, ending, bytes_of ''a'')"
    using decode_loop_run [of 0 0 "[]" "[0x1f]"] by auto
  with ngx_http_v2_huff_decode_fits [of 0 "[0x1f]"] show ?thesis by blast
qed

end
