(* ===== verification/V2_Header_Block_Resume.thy ===== *)
theory V2_Header_Block_Resume
  imports V2_Header_Block V2_Huff_Decode
begin

text \<open>
  The loop over the handlers of a header block comes to an end, and where the packets of a client end makes no
  difference to it.
\<close>

section \<open>Termination\<close>

text \<open>Every handler takes bytes or is one that can only be followed by handlers further down.\<close>

fun v2_rank :: "v2_handler \<Rightarrow> nat" where
  "v2_rank State_head = 0"
| "v2_rank State_skip = 0"
| "v2_rank State_header_block = 1"
| "v2_rank State_field_len = 1"
| "v2_rank State_header_complete = 2"
| "v2_rank State_process_header = 3"
| "v2_rank State_field_huff = 4"
| "v2_rank State_field_raw = 4"
| "v2_rank State_field_skip = 4"

definition v2_left :: "v2_handler \<Rightarrow> bytes \<Rightarrow> nat" where
  "v2_left handler rest = 5 * length rest + v2_rank handler"

fun v2_shrinks :: "nat \<Rightarrow> v2_result \<Rightarrow> bool" where
  "v2_shrinks n (V2_call handler st rest) \<longleftrightarrow> v2_left handler rest < n"
| "v2_shrinks n (V2_return handler st rest) \<longleftrightarrow> handler = State_head \<or> v2_left handler rest < n"
| "v2_shrinks n (V2_connection_error e) \<longleftrightarrow> True"
| "v2_shrinks n (V2_save handler st buf) \<longleftrightarrow> True"

lemma v2_rank_le: "v2_rank handler \<le> 4"
  by (cases handler) simp_all

lemma shrinks_save [simp]: "v2_shrinks n (ngx_http_v2_state_save st rest handler)"
  by (simp add: ngx_http_v2_state_save_def)

lemma shrinks_complete [simp]: "v2_shrinks n (ngx_http_v2_state_complete st rest)"
  by (simp add: ngx_http_v2_state_complete_def)

lemma shrinks_less: "v2_left handler' rest' < n \<Longrightarrow> v2_shrinks n (V2_call handler' st rest')"
  by simp

lemma left_shorter: "length rest' < length rest \<Longrightarrow> v2_left handler' rest' < v2_left handler rest"
  using v2_rank_le [of handler'] by (simp add: v2_left_def)

lemma left_lower: "\<lbrakk>length rest' \<le> length rest; v2_rank handler' < v2_rank handler\<rbrakk> \<Longrightarrow> v2_left handler' rest' < v2_left handler rest"
  by (simp add: v2_left_def)

lemma continuation_pad_length: "continuation_pad st rest = (st', rest') \<Longrightarrow> length rest' \<le> length rest"
  by (auto simp: continuation_pad_def Let_def split: if_splits)

lemma shrinks_continuation: "v2_shrinks (v2_left handler' rest) (ngx_http_v2_handle_continuation st rest handler)"
proof -
  obtain st' rest' where pad: "continuation_pad st rest = (st', rest')" by fastforce
  show ?thesis
  proof (cases "length rest' < h_length st' + 9")
    case False
    then have "length (take (h_length st') rest' @ drop (h_length st' + 9) rest') < length rest"
      using continuation_pad_length [OF pad] by simp
    with left_shorter pad False show ?thesis
      by (simp add: ngx_http_v2_handle_continuation_def continuation_head_def Let_def del: length_append)
  qed (simp add: ngx_http_v2_handle_continuation_def pad)
qed

lemma parse_int_used:
  assumes "ngx_http_v2_parse_int len rest bits = V2_int val used len'" "rest \<noteq> []"
  shows "length (drop used rest) < length rest"
  using v2_parse_int_ok [OF assms(2), of len bits] assms(1) by auto

lemma shrinks_block: "v2_shrinks (v2_left State_header_block rest) (ngx_http_v2_state_header_block st rest)"
proof -
  have first: "v2_shrinks (v2_left State_header_block rest) (header_first repr val st' (drop used rest))"
    if "ngx_http_v2_parse_int len rest bits = V2_int val used len'" "rest \<noteq> []" for repr val st' used len len' bits
    using left_shorter [OF parse_int_used [OF that], where handler = State_header_block]
    by (auto simp: header_first_def split: option.split)
  show ?thesis
    using shrinks_continuation first
    by (auto simp: ngx_http_v2_state_header_block_def header_int_def split: prod.split v2_int.split)
qed

lemma shrinks_field_len: "v2_shrinks (v2_left State_field_len rest) (ngx_http_v2_state_field_len cf st rest)"
proof -
  have string: "v2_shrinks (v2_left State_field_len rest) (field_begin cf huff val st' (drop used rest))"
    if "ngx_http_v2_parse_int len rest bits = V2_int val used len'" "rest \<noteq> []" for huff val st' used len len' bits
    using left_shorter [OF parse_int_used [OF that], where handler = State_field_len]
    by (auto simp: field_begin_def Let_def)
  show ?thesis
    using shrinks_continuation string
    by (auto simp: ngx_http_v2_state_field_len_def split: v2_int.split)
qed

lemma shrinks_field_next:
  "\<lbrakk>length rest' \<le> length rest; 3 < v2_rank handler\<rbrakk> \<Longrightarrow> v2_shrinks (v2_left handler rest) (field_next handler' st rest')"
  using shrinks_continuation [of handler rest' st handler'] left_lower [of rest' rest State_process_header handler]
  by (cases "ngx_http_v2_handle_continuation st rest' handler'") (auto simp: field_next_def v2_left_def)

lemma shrinks_complete_header: "v2_shrinks (v2_left State_header_complete rest) (ngx_http_v2_state_header_complete cf st rest)"
  using shrinks_continuation
  by (simp add: ngx_http_v2_state_header_complete_def ngx_http_v2_state_skip_padded_def left_lower Let_def)

lemma shrinks_process_header: "v2_shrinks (v2_left State_process_header rest) (ngx_http_v2_state_process_header cf st rest)"
  by (simp add: ngx_http_v2_state_process_header_def v2_header_request_def left_lower Let_def split: option.split v2_header_rc.split)

lemma v2_handle_shrinks: "v2_shrinks (v2_left handler rest) (v2_handle cf handler st rest)"
  using shrinks_block shrinks_field_len shrinks_complete_header shrinks_process_header shrinks_field_next
  by (cases handler) (simp_all add: v2_handle_def ngx_http_v2_state_field_huff_def ngx_http_v2_state_field_raw_def
      ngx_http_v2_state_field_skip_def ngx_http_v2_state_skip_def Let_def split: option.split)

lemma v2_loop_returns: "\<exists>r. v2_loop cf handler st rest = Some r"
proof (induction "v2_left handler rest" arbitrary: handler st rest rule: less_induct)
  case less
  note shrinks = v2_handle_shrinks [of handler rest cf st]
  note loop = v2_loop.simps [of cf handler st rest]
  show ?case
  proof (cases "v2_handle cf handler st rest")
    case (V2_call handler' st' rest')
    with shrinks less.hyps [of handler' rest'] show ?thesis by (simp add: loop)
  next
    case (V2_return handler' st' rest')
    with shrinks less.hyps [of handler' rest' st'] show ?thesis by (auto simp: loop)
  qed (simp_all add: loop)
qed

text \<open>
  C27. Whatever the client sends and whatever the state of the header block is, the loop over the handlers ends:
  the connection fails, the frame is complete, or more bytes are needed.
\<close>

theorem ngx_http_v2_header_block_returns: "\<exists>r. v2_loop cf handler st rest = Some r"
  by (rule v2_loop_returns)

section \<open>More bytes\<close>

text \<open>An integer that has been read, or refused, is so whatever follows.\<close>

lemma parse_octets_past:
  "\<lbrakk>len \<le> k; k \<le> avail\<rbrakk> \<Longrightarrow> parse_int_octets buf avail len k shift val = V2_int_error"
proof (induction buf avail len k shift val rule: parse_int_octets.induct)
  case (1 buf avail len k shift val)
  then show ?case by (simp add: parse_int_octets.simps [of buf avail len k] Let_def)
qed

lemma parse_octets_append:
  "\<lbrakk>k \<le> avail; avail \<le> length buf; avail \<le> avail'; avail' \<le> 4;
    parse_int_octets buf avail len k shift val \<noteq> V2_int_again\<rbrakk>
   \<Longrightarrow> parse_int_octets (buf @ ys) avail' len k shift val = parse_int_octets buf avail len k shift val"
proof (induction buf avail len k shift val rule: parse_int_octets.induct)
  case (1 buf avail len k shift val)
  note small = parse_int_octets.simps [of buf avail len k shift val]
  note large = parse_int_octets.simps [of "buf @ ys" avail' len k shift val]
  show ?case
  proof (cases "k < avail")
    case True
    let ?octet = "unat (buf ! k)" and ?val = "val + push_bit shift (unat (buf ! k) AND 127)"
    have buf: "(buf @ ys) ! k = buf ! k" using True "1.prems"(2) by (simp add: nth_append)
    show ?thesis
    proof (cases "?octet < 128")
      case octet: False
      from "1.prems"(5) True octet have "parse_int_octets buf avail len (k + 1) (shift + 7) ?val \<noteq> V2_int_again"
        by (simp add: small Let_def)
      with "1.IH" [OF True refl refl octet] "1.prems"(1-4) True octet buf show ?thesis by (simp add: small large Let_def)
    qed (use True "1.prems" buf in \<open>simp add: small large Let_def\<close>)
  next
    case False
    show ?thesis
    proof (cases "avail \<ge> len")
      case True
      with False "1.prems" parse_octets_past [of len k avail' "buf @ ys"]
        parse_octets_past [of len k avail buf] show ?thesis by simp
    next
      case past: False
      then have "avail = 4" using "1.prems"(5) False by (simp add: small split: if_splits)
      with "1.prems" False past show ?thesis by (simp add: parse_int_octets.simps [of _ 4 len 4])
    qed
  qed
qed

lemma parse_int_append:
  assumes "ngx_http_v2_parse_int len rest bits \<noteq> V2_int_again" "rest \<noteq> []"
  shows "ngx_http_v2_parse_int len (rest @ ys) bits = ngx_http_v2_parse_int len rest bits"
proof -
  have "1 \<le> length rest" using assms(2) by (cases rest) auto
  with assms parse_octets_append [of 1 "min (length rest) 4" rest "min (length (rest @ ys)) 4" len 0 "unat (hd rest) AND bits" ys]
  show ?thesis by (auto simp: ngx_http_v2_parse_int_def Let_def)
qed

lemma parse_int_again_short: "\<lbrakk>ngx_http_v2_parse_int len rest bits = V2_int_again; rest \<noteq> []\<rbrakk> \<Longrightarrow> length rest < 4"
  using v2_parse_int_ok [of rest len bits] by simp

text \<open>A coded string that comes in two parts.\<close>

lemma huff_decode_run:
  "ngx_http_v2_huff_decode fs src fin =
     (case huff_run (unat fs) (bytes_bits src) of
        None \<Rightarrow> None
      | Some (s, dst) \<Rightarrow>
          if fin then (if src \<noteq> [] \<and> \<not> huff_ones s then None else Some (0, dst)) else Some (of_nat s, dst))"
proof -
  have "of_nat (unat fs) = fs" by simp
  with decode_loop_run [OF unat_byte_less, of fs 1 "[]" src] show ?thesis
    by (auto simp: ngx_http_v2_huff_decode_def split: option.splits)
qed

lemma huff_decode_append:
  assumes "ys \<noteq> [] \<or> \<not> fin"
  shows "ngx_http_v2_huff_decode fs (xs @ ys) fin =
    (case ngx_http_v2_huff_decode fs xs False of
       None \<Rightarrow> None
     | Some (fs, dst) \<Rightarrow> map_option (\<lambda>(fs, dst'). (fs, dst @ dst')) (ngx_http_v2_huff_decode fs ys fin))"
proof (cases "huff_run (unat fs) (bytes_bits xs)")
  case (Some r)
  then obtain s dst where run: "huff_run (unat fs) (bytes_bits xs) = Some (s, dst)" by (cases r) auto
  with huff_run_bits [OF run] unat_byte_less have "unat (of_nat s :: u_char) = s" by (simp add: unat_of_nat_lt)
  with run assms show ?thesis
    by (auto simp: huff_decode_run bytes_bits_def huff_run_append split: option.split)
qed (simp add: huff_decode_run bytes_bits_def huff_run_append)

lemma huff_decode_nil: "ngx_http_v2_huff_decode fs [] False = Some (fs, [])"
  by (simp add: ngx_http_v2_huff_decode_def)

section \<open>A handler with more bytes\<close>

text \<open>
  What a handler does with more bytes: the same, with these left; or, where it would save its bytes, what it does
  when it is called again with the bytes it has saved in front of them.
\<close>

definition v2_same :: "v2_result \<Rightarrow> v2_result \<Rightarrow> bool" where
  "v2_same a b \<longleftrightarrow> a = b \<or>
     (\<exists>st st' rest. a = V2_return State_head st rest \<and> b = V2_return State_head st' rest \<and> st\<lparr>h_length := 0\<rparr> = st'\<lparr>h_length := 0\<rparr>)"

lemma v2_same_refl [simp]: "v2_same a a"
  by (simp add: v2_same_def)

fun v2_more_ok :: "(v2_state \<Rightarrow> bytes \<Rightarrow> v2_result) \<Rightarrow> v2_handler \<Rightarrow> v2_result \<Rightarrow> bytes \<Rightarrow> v2_result \<Rightarrow> bool" where
  "v2_more_ok f handler (V2_call handler' st rest) ys res \<longleftrightarrow> res = V2_call handler' st (rest @ ys)"
| "v2_more_ok f handler (V2_return handler' st rest) ys res \<longleftrightarrow> res = V2_return handler' st (rest @ ys)"
| "v2_more_ok f handler (V2_connection_error e) ys res \<longleftrightarrow> res = V2_connection_error e"
| "v2_more_ok f handler (V2_save handler' st buf) ys res \<longleftrightarrow> handler' = handler \<and> v2_same res (f st (buf @ ys))"

lemma parse_uint32_append: "4 \<le> length p \<Longrightarrow> ngx_http_v2_parse_uint32 (p @ ys) = ngx_http_v2_parse_uint32 p"
  by (auto simp: ngx_http_v2_parse_uint32_def nth_append)

lemma continuation_head_append:
  assumes "h_length st + 9 \<le> length rest"
  shows "v2_more_ok f handler' (continuation_head st rest handler) ys (continuation_head st (rest @ ys) handler)"
proof -
  let ?p = "drop (h_length st) rest"
  have p: "drop (h_length st) (rest @ ys) = ?p @ ys" "9 \<le> length ?p" using assms by simp_all
  then have parts: "(?p @ ys) ! 4 = ?p ! 4" "ngx_http_v2_parse_uint32 (?p @ ys) = ngx_http_v2_parse_uint32 ?p"
    "ngx_http_v2_parse_sid (drop 5 (?p @ ys)) = ngx_http_v2_parse_sid (drop 5 ?p)"
    by (simp_all add: nth_append parse_uint32_append ngx_http_v2_parse_sid_def del: drop_drop)
  show ?thesis
    using assms unfolding continuation_head_def p(1) Let_def parts by simp
qed

lemma pad_done:
  assumes "continuation_pad st rest = (st', rest')" "h_length st + 9 \<le> length rest'"
  shows "continuation_pad st (rest @ ys) = (st', rest' @ ys)" "h_length st' = h_length st"
  using assms by (auto simp: continuation_pad_def Let_def min_def split: if_splits)

lemma pad_more:
  assumes "continuation_pad st rest = (st', rest')"
  shows "continuation_pad st (rest @ ys) = continuation_pad st' (rest' @ ys)"
proof (cases "h_padding st \<noteq> 0 \<and> length rest > h_length st")
  case True
  define k where "k = min (h_padding st) (length rest - h_length st)"
  have st': "st' = st\<lparr>h_padding := h_padding st - k\<rparr>" "rest' = take (h_length st) rest @ drop (h_length st + k) rest"
    using assms True by (simp_all add: continuation_pad_def Let_def k_def)
  show ?thesis
  proof (cases "h_padding st \<le> length rest - h_length st")
    case le: True
    then have "k = h_padding st" by (simp add: k_def)
    with True le show ?thesis by (auto simp: continuation_pad_def Let_def st' min_def)
  next
    case False
    then have k: "k = length rest - h_length st" "k < h_padding st" by (simp_all add: k_def)
    with True have "rest' = take (h_length st) rest" "h_length st + k = length rest" by (simp_all add: st')
    with k True show ?thesis
      by (cases "ys = []") (auto simp: continuation_pad_def Let_def st' min_def add.commute diff_diff_left intro!: arg_cong2 [where f = drop])
  qed
next
  case False
  with assms have "st' = st" "rest' = rest" by (auto simp: continuation_pad_def Let_def)
  then show ?thesis by simp
qed

lemma continuation_append:
  assumes "h_length st < 4"
    "\<And>pad buf. f (st\<lparr>h_padding := pad\<rparr>) (buf @ ys) = ngx_http_v2_handle_continuation (st\<lparr>h_padding := pad\<rparr>) (buf @ ys) handler"
  shows "v2_more_ok f handler (ngx_http_v2_handle_continuation st rest handler) ys (ngx_http_v2_handle_continuation st (rest @ ys) handler)"
proof -
  obtain st' buf where pad: "continuation_pad st rest = (st', buf)" by fastforce
  then have st': "\<exists>pad. st' = st\<lparr>h_padding := pad\<rparr>" "h_length st' = h_length st"
    by (auto simp: continuation_pad_def Let_def intro: exI [of _ "h_padding st"] split: if_splits)
  show ?thesis
  proof (cases "length buf < h_length st' + 9")
    case True
    have "f st' (buf @ ys) = ngx_http_v2_handle_continuation st' (buf @ ys) handler" using st'(1) assms(2) by auto
    also have "\<dots> = ngx_http_v2_handle_continuation st (rest @ ys) handler"
      by (simp add: ngx_http_v2_handle_continuation_def pad_more [OF pad])
    finally show ?thesis
      using True assms(1) st'(2) by (simp add: ngx_http_v2_handle_continuation_def [of st rest] pad ngx_http_v2_state_save_def)
  next
    case False
    then have "h_length st + 9 \<le> length buf" using st'(2) by simp
    with pad_done [OF pad this] continuation_head_append [of st' buf f handler handler ys] False
    show ?thesis by (simp add: ngx_http_v2_handle_continuation_def pad)
  qed
qed

lemma save_append:
  "\<lbrakk>length rest \<le> 16; res = f st (rest @ ys)\<rbrakk> \<Longrightarrow> v2_more_ok f handler (ngx_http_v2_state_save st rest handler) ys res"
  by (simp add: ngx_http_v2_state_save_def)

lemma more_ok_refl_error [simp]: "v2_more_ok f handler (V2_connection_error e) ys (V2_connection_error e)"
  by simp

text \<open>The handlers that look at the bytes.\<close>

lemma header_first_append: "v2_more_ok f handler (header_first repr val st rest) ys (header_first repr val st (rest @ ys))"
  by (simp add: header_first_def split: option.split)

lemma field_begin_append: "v2_more_ok f handler (field_begin cf huff len st rest) ys (field_begin cf huff len st (rest @ ys))"
  by (simp add: field_begin_def Let_def)

lemma parse_int_drop:
  "\<lbrakk>ngx_http_v2_parse_int len rest bits = V2_int val used len'; rest \<noteq> []\<rbrakk> \<Longrightarrow> drop used (rest @ ys) = drop used rest @ ys"
  using v2_parse_int_ok [of rest len bits] by simp

lemma header_int_append:
  assumes "rest \<noteq> []" "f st (rest @ ys) = header_int repr bits st (rest @ ys)"
  shows "v2_more_ok f State_header_block (header_int repr bits st rest) ys (header_int repr bits st (rest @ ys))"
proof (cases "ngx_http_v2_parse_int (h_length st) rest (ngx_http_v2_prefix bits) = V2_int_again")
  case True
  with parse_int_again_short [OF True assms(1)] assms(2) show ?thesis
    by (simp add: header_int_def [of repr bits st rest] ngx_http_v2_state_save_def)
next
  case False
  note large = parse_int_append [OF False assms(1), of ys]
  show ?thesis
  proof (cases "ngx_http_v2_parse_int (h_length st) rest (ngx_http_v2_prefix bits)")
    case (V2_int val used len')
    with large header_first_append parse_int_drop [OF V2_int assms(1)] show ?thesis by (simp add: header_int_def)
  qed (use large False in \<open>simp_all add: header_int_def\<close>)
qed

lemma block_append:
  assumes "ys \<noteq> []"
  shows "v2_more_ok ngx_http_v2_state_header_block State_header_block (ngx_http_v2_state_header_block st rest) ys
    (ngx_http_v2_state_header_block st (rest @ ys))"
proof (cases "rest = []")
  case False
  show ?thesis
  proof (cases "\<not> end_headers st \<and> h_length st < 4")
    case True
    with False assms continuation_append [of st ngx_http_v2_state_header_block ys State_header_block rest]
    show ?thesis by (simp add: ngx_http_v2_state_header_block_def end_headers_def)
  next
    case block: False
    obtain repr bits where first: "v2_first (hd rest) = (repr, bits)" by fastforce
    define st' where "st' = (if repr = Incremental then st\<lparr>h_index := True\<rparr> else st)"
    have "ngx_http_v2_state_header_block st' (rest @ ys) = header_int repr bits st' (rest @ ys)"
      using False block first by (auto simp: ngx_http_v2_state_header_block_def st'_def end_headers_def)
    from header_int_append [where f = ngx_http_v2_state_header_block, OF False this] False block first
    show ?thesis by (auto simp: ngx_http_v2_state_header_block_def [of st] st'_def)
  qed
qed (simp add: ngx_http_v2_state_header_block_def [of st "[]"] ngx_http_v2_state_save_def)

lemma field_len_append:
  "v2_more_ok (ngx_http_v2_state_field_len cf) State_field_len (ngx_http_v2_state_field_len cf st rest) ys
    (ngx_http_v2_state_field_len cf st (rest @ ys))"
proof (cases "\<not> end_headers st \<and> h_length st < 4")
  case True
  with continuation_append [of st "ngx_http_v2_state_field_len cf" ys State_field_len rest]
  show ?thesis by (simp add: ngx_http_v2_state_field_len_def end_headers_def)
next
  case block: False
  show ?thesis
  proof (cases "h_length st < 1 \<or> rest = []")
    case True
    with block show ?thesis by (auto simp: ngx_http_v2_state_field_len_def [of cf st "[]"] ngx_http_v2_state_save_def)
        (auto simp: ngx_http_v2_state_field_len_def)
  next
    case False
    then have ne: "rest \<noteq> []" "\<not> h_length st < 1" by simp_all
    show ?thesis
    proof (cases "ngx_http_v2_parse_int (h_length st) rest (ngx_http_v2_prefix 7) = V2_int_again")
      case True
      with ne block parse_int_again_short [OF True ne(1)] show ?thesis
        by (auto simp: ngx_http_v2_state_field_len_def [of cf st rest] ngx_http_v2_state_save_def)
    next
      case same: False
      note large = parse_int_append [OF same ne(1), of ys]
      show ?thesis
      proof (cases "ngx_http_v2_parse_int (h_length st) rest (ngx_http_v2_prefix 7)")
        case (V2_int val used len')
        with large field_begin_append parse_int_drop [OF V2_int ne(1)] ne block show ?thesis
          by (auto simp: ngx_http_v2_state_field_len_def)
      qed (use large same ne block in \<open>auto simp: ngx_http_v2_state_field_len_def\<close>)
    qed
  qed
qed

text \<open>The strings: what has been taken and what comes add up.\<close>

lemma field_size_add:
  assumes "length rest < h_field_rest st" "length rest < h_length st"
  shows "field_size st rest = length rest"
    "field_size st (rest @ ys) = length rest
       + field_size (st\<lparr>h_length := h_length st - length rest, h_field_rest := h_field_rest st - length rest\<rparr>) ys"
  using assms by (auto simp: field_size_def)

lemma field_size_done:
  assumes "\<not> (length rest < h_field_rest st \<and> length rest < h_length st)"
  shows "field_size st (rest @ ys) = field_size st rest" "field_size st rest \<le> length rest"
    "h_field_rest st - field_size st rest = 0 \<or> h_length st - field_size st rest = 0"
  using assms by (auto simp: field_size_def)

lemma field_size_0 [simp]: "h_length st = 0 \<Longrightarrow> field_size st rest = 0"
  by (simp add: field_size_def)

lemma field_next_append:
  assumes "h_field_rest st \<noteq> 0 \<Longrightarrow> h_length st \<noteq> 0 \<Longrightarrow> rest = []"
    "\<And>pad buf. h_field_rest st \<noteq> 0 \<Longrightarrow> h_length st = 0 \<Longrightarrow>
       f (st\<lparr>h_padding := pad\<rparr>) (buf @ ys) = field_next handler (st\<lparr>h_padding := pad\<rparr>) (buf @ ys)"
    "h_field_rest st \<noteq> 0 \<Longrightarrow> h_length st \<noteq> 0 \<Longrightarrow> f st ys = res"
    "h_field_rest st = 0 \<or> h_length st = 0 \<Longrightarrow> res = field_next handler st (rest @ ys)"
  shows "v2_more_ok f handler (field_next handler st rest) ys res"
proof (cases "h_field_rest st = 0 \<or> h_length st = 0")
  case True
  have "f (st\<lparr>h_padding := pad\<rparr>) (buf @ ys) = ngx_http_v2_handle_continuation (st\<lparr>h_padding := pad\<rparr>) (buf @ ys) handler"
    if "h_field_rest st \<noteq> 0" "\<not> end_headers st" for pad buf
    using True that assms(2) by (simp add: field_next_def end_headers_def)
  with True assms(4) continuation_append [of st f ys handler rest] show ?thesis by (auto simp: field_next_def)
next
  case False
  with assms(1, 3) show ?thesis by (simp add: field_next_def ngx_http_v2_state_save_def)
qed

lemma field_raw_append:
  "v2_more_ok ngx_http_v2_state_field_raw State_field_raw (ngx_http_v2_state_field_raw st rest) ys
    (ngx_http_v2_state_field_raw st (rest @ ys))"
proof (cases "length rest < h_field_rest st \<and> length rest < h_length st")
  case True
  note size = field_size_add [OF conjunct1 [OF True] conjunct2 [OF True]]
  have ext: "field_size (st\<lparr>h_length := a, h_field_rest := b, h_field := c\<rparr>) s = field_size (st\<lparr>h_length := a, h_field_rest := b\<rparr>) s"
    for a b c s by (simp add: field_size_def)
  show ?thesis
    unfolding ngx_http_v2_state_field_raw_def [of st rest] Let_def size(1)
    by (rule field_next_append) (use True in \<open>simp_all add: ngx_http_v2_state_field_raw_def size ext Let_def diff_diff_left\<close>)
next
  case False
  define n where "n = field_size st rest"
  note size = field_size_done [OF False, folded n_def]
  show ?thesis
    unfolding ngx_http_v2_state_field_raw_def [of st] Let_def size(1) n_def [symmetric]
    by (rule field_next_append; insert size(2, 3); cases st) (simp_all add: ngx_http_v2_state_field_raw_def)
qed

lemma field_skip_append:
  "v2_more_ok ngx_http_v2_state_field_skip State_field_skip (ngx_http_v2_state_field_skip st rest) ys
    (ngx_http_v2_state_field_skip st (rest @ ys))"
proof (cases "length rest < h_field_rest st \<and> length rest < h_length st")
  case True
  note size = field_size_add [OF conjunct1 [OF True] conjunct2 [OF True]]
  show ?thesis
    unfolding ngx_http_v2_state_field_skip_def [of st rest] Let_def size(1)
    by (rule field_next_append) (use True in \<open>simp_all add: ngx_http_v2_state_field_skip_def size Let_def diff_diff_left\<close>)
next
  case False
  define n where "n = field_size st rest"
  note size = field_size_done [OF False, folded n_def]
  show ?thesis
    unfolding ngx_http_v2_state_field_skip_def [of st] Let_def size(1) n_def [symmetric]
    by (rule field_next_append; insert size(2, 3); cases st) (simp_all add: ngx_http_v2_state_field_skip_def)
qed

lemma field_huff_append:
  "v2_more_ok ngx_http_v2_state_field_huff State_field_huff (ngx_http_v2_state_field_huff st rest) ys
    (ngx_http_v2_state_field_huff st (rest @ ys))"
proof (cases "length rest < h_field_rest st \<and> length rest < h_length st")
  case True
  note size = field_size_add [OF conjunct1 [OF True] conjunct2 [OF True]]
  define st1 where "st1 = st\<lparr>h_length := h_length st - length rest, h_field_rest := h_field_rest st - length rest\<rparr>"
  define m where "m = field_size st1 ys"
  have left: "0 < h_field_rest st1" "0 < h_length st1" using True by (simp_all add: st1_def)
  have sub: "ys \<noteq> [] \<Longrightarrow> take m ys \<noteq> []" "take m ys = [] \<Longrightarrow> m = 0"
    using left by (auto simp: m_def field_size_def)
  have take: "take (length rest + m) (rest @ ys) = rest @ take m ys" "drop (length rest + m) (rest @ ys) = drop m ys" by simp_all
  have step: "take m ys \<noteq> [] \<or> \<not> h_field_rest st - (length rest + m) = 0" using sub(2) True by auto
  note whole = huff_decode_append [OF step, of "h_field_state st" rest]
  note small = ngx_http_v2_state_field_huff_def [of st rest, unfolded Let_def size(1)]
  note large = ngx_http_v2_state_field_huff_def [of st "rest @ ys", unfolded Let_def size(2), folded st1_def m_def, unfolded take]
  show ?thesis
  proof (cases "ngx_http_v2_huff_decode (h_field_state st) rest False")
    case None
    with whole True show ?thesis unfolding small large by simp
  next
    case (Some r)
    then obtain fs dst where r: "ngx_http_v2_huff_decode (h_field_state st) rest False = Some (fs, dst)" by (cases r) auto
    define st2 where "st2 = st1\<lparr>h_field_state := fs, h_field := h_field st @ dst\<rparr>"
    have size2: "field_size st2 ys = m" by (simp add: m_def st2_def field_size_def)
    have "ngx_http_v2_state_field_huff st (rest @ ys) = ngx_http_v2_state_field_huff st2 ys"
      unfolding large ngx_http_v2_state_field_huff_def [of st2 ys] Let_def size2
      using r whole by (simp add: st2_def st1_def diff_diff_left append.assoc split: option.split)
    moreover have "ngx_http_v2_state_field_huff st rest = V2_save State_field_huff st2 []"
      using r True by (simp add: small field_next_def ngx_http_v2_state_save_def st2_def st1_def)
    ultimately show ?thesis by simp
  qed
next
  case False
  define n where "n = field_size st rest"
  note size = field_size_done [OF False, folded n_def]
  note unfold = ngx_http_v2_state_field_huff_def [of st, unfolded Let_def]
  show ?thesis
  proof (cases "ngx_http_v2_huff_decode (h_field_state st) (take n rest) (h_field_rest st - n = 0)")
    case None
    with size(2) show ?thesis unfolding unfold size(1) n_def [symmetric] by simp
  next
    case (Some r)
    then obtain fs dst where r: "ngx_http_v2_huff_decode (h_field_state st) (take n rest) (h_field_rest st - n = 0) = Some (fs, dst)"
      by (cases r) auto
    have take: "take n (rest @ ys) = take n rest" "drop n (rest @ ys) = drop n rest @ ys" using size(2) by simp_all
    have sel: "h_field_rest (st\<lparr>h_length := a, h_field_rest := b\<rparr>) = b" "h_field_state (st\<lparr>h_length := a, h_field_rest := b\<rparr>) = h_field_state st" for a b
      by simp_all
    show ?thesis
      unfolding unfold size(1) n_def [symmetric] take sel r option.case prod.case
      by (rule field_next_append; insert size(3); cases st) (simp_all add: ngx_http_v2_state_field_huff_def huff_decode_nil)
  qed
qed

lemma complete_append:
  "v2_more_ok (ngx_http_v2_state_header_complete cf) State_header_complete (ngx_http_v2_state_header_complete cf st rest) ys
    (ngx_http_v2_state_header_complete cf st (rest @ ys))"
  using continuation_append [of st "ngx_http_v2_state_header_complete cf" ys State_header_complete rest]
  by (simp add: ngx_http_v2_state_header_complete_def ngx_http_v2_state_complete_def ngx_http_v2_state_skip_padded_def
      end_headers_def Let_def)

lemma process_append:
  "v2_more_ok f handler (ngx_http_v2_state_process_header cf st rest) ys (ngx_http_v2_state_process_header cf st (rest @ ys))"
  by (simp add: ngx_http_v2_state_process_header_def v2_header_request_def Let_def split: option.split v2_header_rc.split)

lemma skip_append:
  "v2_more_ok ngx_http_v2_state_skip State_skip (ngx_http_v2_state_skip st rest) ys (ngx_http_v2_state_skip st (rest @ ys))"
  by (simp add: ngx_http_v2_state_skip_def ngx_http_v2_state_save_def ngx_http_v2_state_complete_def less_diff_conv add.commute v2_same_def)

lemma v2_handle_append:
  assumes "ys \<noteq> []"
  shows "v2_more_ok (v2_handle cf handler) handler (v2_handle cf handler st rest) ys (v2_handle cf handler st (rest @ ys))"
proof -
  have handle: "v2_handle cf State_head = V2_return State_head" "v2_handle cf State_skip = ngx_http_v2_state_skip"
    "v2_handle cf State_header_block = ngx_http_v2_state_header_block" "v2_handle cf State_field_len = ngx_http_v2_state_field_len cf"
    "v2_handle cf State_field_huff = ngx_http_v2_state_field_huff" "v2_handle cf State_field_raw = ngx_http_v2_state_field_raw"
    "v2_handle cf State_field_skip = ngx_http_v2_state_field_skip"
    "v2_handle cf State_process_header = ngx_http_v2_state_process_header cf"
    "v2_handle cf State_header_complete = ngx_http_v2_state_header_complete cf"
    by (intro ext; simp add: v2_handle_def)+
  show ?thesis
    by (cases handler)
      (simp_all add: handle block_append [OF assms] field_len_append field_huff_append field_raw_append field_skip_append
        process_append complete_append skip_append)
qed

section \<open>The loop with more bytes\<close>

text \<open>The results, up to the length of a frame that is complete.\<close>

fun v2_settle :: "v2_loop_rc \<Rightarrow> v2_loop_rc" where
  "v2_settle (V2_frame st rest) = V2_frame (st\<lparr>h_length := 0\<rparr>) rest"
| "v2_settle r = r"

definition v2_settled :: "v2_conf \<Rightarrow> v2_handler \<Rightarrow> v2_state \<Rightarrow> bytes \<Rightarrow> v2_loop_rc" where
  "v2_settled cf handler st rest = v2_settle (the (v2_loop cf handler st rest))"

lemma v2_settled_simps:
  "v2_settled cf handler st rest =
     (case v2_handle cf handler st rest of
        V2_connection_error e \<Rightarrow> V2_failed e
      | V2_call handler st rest \<Rightarrow> v2_settled cf handler st rest
      | V2_save handler st buf \<Rightarrow> V2_more handler st buf
      | V2_return handler st rest \<Rightarrow>
          if handler = State_head then V2_frame (st\<lparr>h_length := 0\<rparr>) rest
          else if rest = [] then V2_more handler st []
          else v2_settled cf handler st rest)"
  unfolding v2_settled_def by (subst v2_loop.simps) (simp split: v2_result.split)

lemma v2_settled_same:
  "v2_same (v2_handle cf handler st rest) (v2_handle cf handler' st' rest')
   \<Longrightarrow> v2_settled cf handler st rest = v2_settled cf handler' st' rest'"
  unfolding v2_same_def
  by (subst (1 2) v2_settled_simps) auto

lemma v2_settled_append:
  assumes "ys \<noteq> []"
  shows "v2_settled cf handler st (rest @ ys) =
    (case v2_settled cf handler st rest of
       V2_failed e \<Rightarrow> V2_failed e
     | V2_more handler st buf \<Rightarrow> v2_settled cf handler st (buf @ ys)
     | V2_frame st rest \<Rightarrow> V2_frame st (rest @ ys))"
proof (induction "v2_left handler rest" arbitrary: handler st rest rule: less_induct)
  case less
  note more = v2_handle_append [OF assms, of cf handler st rest]
  note shrinks = v2_handle_shrinks [of handler rest cf st]
  note small = v2_settled_simps [of cf handler st rest] and large = v2_settled_simps [of cf handler st "rest @ ys"]
  show ?case
  proof (cases "v2_handle cf handler st rest")
    case (V2_call handler' st' rest')
    with more shrinks less.hyps [of handler' rest' st'] show ?thesis by (simp add: small large)
  next
    case (V2_return handler' st' rest')
    with more shrinks less.hyps [of handler' rest' st'] assms show ?thesis by (auto simp: small large)
  next
    case (V2_save handler' st' buf)
    with more v2_settled_same [of cf handler st "rest @ ys" handler st' "buf @ ys"] show ?thesis by (simp add: small)
  qed (use more in \<open>simp add: small large\<close>)
qed

text \<open>
  C28. Where the packets of a client end makes no difference to a header block: with more bytes the loop goes on from the
  handler, the state and the bytes it has kept to what it makes of all bytes at once; after a failure or the end
  of the frame more bytes change nothing. (The length of a frame that is complete is set by the next one.)
\<close>

theorem ngx_http_v2_header_block_resume:
  assumes "ys \<noteq> []"
  shows "map_option v2_settle (v2_loop cf handler st (rest @ ys)) =
    (case v2_loop cf handler st rest of
       None \<Rightarrow> None
     | Some (V2_failed e) \<Rightarrow> Some (V2_failed e)
     | Some (V2_more handler st buf) \<Rightarrow> map_option v2_settle (v2_loop cf handler st (buf @ ys))
     | Some (V2_frame st rest) \<Rightarrow> Some (v2_settle (V2_frame st (rest @ ys))))"
proof -
  have loop: "map_option v2_settle (v2_loop cf handler st rest) = Some (v2_settled cf handler st rest)" for handler st rest
    using v2_loop_returns [of cf handler st rest] by (auto simp: v2_settled_def)
  obtain r where r: "v2_loop cf handler st rest = Some r" using v2_loop_returns by blast
  with loop [of handler st rest] have "v2_settled cf handler st rest = v2_settle r" by simp
  with v2_settled_append [OF assms, of cf handler st rest] show ?thesis unfolding loop r by (cases r) simp_all
qed

definition ex_v2_cf :: v2_conf where
  "ex_v2_cf = \<lparr>vc_http = \<lparr>underscores_in_headers = False, ignore_invalid_headers = True, merge_slashes = True,
     hash_buckets = 64, vserver = (\<lambda>_. None)\<rparr>, max_field_size = 4096\<rparr>"

definition ex_v2_state :: "nat \<Rightarrow> v2_state" where
  "ex_v2_state len = \<lparr>h_sid = 1, h_length = len, h_padding = 0, h_flags = 4, h_parse_name = False, h_parse_value = False,
     h_index = False, h_header = ([], []), h_header_limit = 16384, h_field_state = 0, h_field = [], h_alloc = 0,
     h_field_rest = 0, h_stream = None, h_hpack = hpack_zero, h_events = []\<rparr>"

theorem ngx_http_v2_header_block_resume_witness:
  "map_option v2_settle (v2_loop ex_v2_cf State_header_block (ex_v2_state 2) ([0x3f] @ [0])) =
     Some (V2_frame ((ex_v2_state 0)\<lparr>h_hpack := hpack_zero\<lparr>hp_size := 31, hp_free := 31\<rparr>\<rparr>) [])"
proof -
  have handles: "v2_handle ex_v2_cf State_header_block (ex_v2_state 2) [0x3f] = V2_save State_header_block (ex_v2_state 2) [0x3f]"
    "v2_handle ex_v2_cf State_header_block (ex_v2_state 2) [0x3f, 0] =
       V2_call State_header_complete ((ex_v2_state 0)\<lparr>h_hpack := hpack_zero\<lparr>hp_size := 31, hp_free := 31\<rparr>\<rparr>) []"
    "v2_handle ex_v2_cf State_header_complete ((ex_v2_state 0)\<lparr>h_hpack := hpack_zero\<lparr>hp_size := 31, hp_free := 31\<rparr>\<rparr>) [] =
       V2_return State_head ((ex_v2_state 0)\<lparr>h_hpack := hpack_zero\<lparr>hp_size := 31, hp_free := 31\<rparr>\<rparr>) []"
    by (simp_all add: v2_handle_def ngx_http_v2_state_header_block_def end_headers_def ex_v2_state_def v2_first_def header_int_def
        header_first_def ngx_http_v2_parse_int_def ngx_http_v2_prefix_def parse_int_octets.simps ngx_http_v2_state_save_def
        ngx_http_v2_table_size_def hpack_zero_def ngx_http_v2_state_header_complete_def ngx_http_v2_state_complete_def)
  then have "v2_loop ex_v2_cf State_header_block (ex_v2_state 2) [0x3f] = Some (V2_more State_header_block (ex_v2_state 2) [0x3f])"
    "v2_loop ex_v2_cf State_header_block (ex_v2_state 2) [0x3f, 0] =
       Some (V2_frame ((ex_v2_state 0)\<lparr>h_hpack := hpack_zero\<lparr>hp_size := 31, hp_free := 31\<rparr>\<rparr>) [])"
    by (simp_all add: v2_loop.simps [of ex_v2_cf])
  with ngx_http_v2_header_block_resume [of "[0]" ex_v2_cf State_header_block "ex_v2_state 2" "[0x3f]"]
  show ?thesis by (simp add: ex_v2_state_def)
qed

end
