(* ===== verification/V2_Table_Refines.thy ===== *)
theory V2_Table_Refines
  imports V2_Table
begin

text \<open>
  The dynamic table of HTTP/2 refines the one of RFC 7541: the ring of bytes holds the names and values
  of the live entries one behind the other, the ring of pointers their cells, none twice.
\<close>

section \<open>The ring of bytes\<close>

lemma mod_wrap:
  assumes "d \<le> n" "k < n"
  shows "(d + k) mod n = (if k < n - d then d + k else k - (n - d :: nat))"
proof (cases "k < n - d")
  case False
  with assms have "d + k = k - (n - d) + n" by simp
  then have "(d + k) mod n = (k - (n - d)) mod n" by (metis mod_add_self2)
  with assms False show ?thesis by simp
qed simp

lemma mod_distinct:
  assumes "i < j" "j < i + n"
  shows "i mod n \<noteq> j mod (n :: nat)"
proof
  assume "i mod n = j mod n"
  then have "n dvd j - i" using assms(1) by (metis less_imp_le mod_eq_dvd_iff_nat)
  with assms show False by (auto dest: dvd_imp_le)
qed

text \<open>The bytes from a position of the stream that is laid around the storage.\<close>

definition ring_holds :: "bytes \<Rightarrow> nat \<Rightarrow> bytes \<Rightarrow> bool" where
  "ring_holds st s d \<longleftrightarrow> (\<forall>k < length d. st ! ((s + k) mod 4096) = d ! k)"

lemma ring_holds_append: "ring_holds st s (a @ b) \<longleftrightarrow> ring_holds st s a \<and> ring_holds st (s + length a) b"
proof
  assume h: "ring_holds st s (a @ b)"
  have "st ! ((s + length a + k) mod 4096) = b ! k" if "k < length b" for k
    using h that by (auto simp: ring_holds_def nth_append add.assoc dest: spec [of _ "length a + k"])
  moreover have "st ! ((s + k) mod 4096) = a ! k" if "k < length a" for k
    using h that by (auto simp: ring_holds_def nth_append)
  ultimately show "ring_holds st s a \<and> ring_holds st (s + length a) b" by (simp add: ring_holds_def)
next
  assume h: "ring_holds st s a \<and> ring_holds st (s + length a) b"
  show "ring_holds st s (a @ b)"
    unfolding ring_holds_def
  proof (intro allI impI)
    fix k assume k: "k < length (a @ b)"
    show "st ! ((s + k) mod 4096) = (a @ b) ! k"
    proof (cases "k < length a")
      case False
      then obtain m where m: "k = length a + m" using le_Suc_ex not_less by blast
      with h k show ?thesis by (auto simp: ring_holds_def add.assoc nth_append)
    qed (use h in \<open>simp add: ring_holds_def nth_append\<close>)
  qed
qed

lemma ring_holds_mod: "s mod 4096 = s' mod 4096 \<Longrightarrow> ring_holds st s d = ring_holds st s' d"
  unfolding ring_holds_def by (metis mod_add_left_eq)

lemma nth_take_drop: "i + k < length st \<Longrightarrow> k < n \<Longrightarrow> take n (drop i st) ! k = st ! (i + k)"
  by simp

lemma ring_read_holds:
  assumes "length st = 4096" "d \<le> 4096" "d mod 4096 = s mod 4096" "ring_holds st s bs" "length bs \<le> 4096"
  shows "ring_read st d (length bs) = bs"
proof -
  have holds: "st ! ((d + k) mod 4096) = bs ! k" if "k < length bs" for k
    using assms(4) that unfolding ring_holds_mod [OF assms(3) [symmetric]] by (simp add: ring_holds_def)
  show ?thesis
  proof (cases "length bs > 4096 - d")
    case True
    show ?thesis
    proof (rule nth_equalityI)
      show len: "length (ring_read st d (length bs)) = length bs"
        using True assms by (simp add: ring_read_def)
      fix k assume "k < length (ring_read st d (length bs))"
      with len have k: "k < length bs" by simp
      show "ring_read st d (length bs) ! k = bs ! k"
      proof (cases "k < 4096 - d")
        case True
        with \<open>length bs > 4096 - d\<close> holds [OF k] assms(1,2) show ?thesis
          by (simp add: ring_read_def nth_append)
      next
        case False
        then have "(d + k) mod 4096 = k - (4096 - d)"
          using mod_wrap [of d 4096 k] assms(2,5) k by simp
        with \<open>length bs > 4096 - d\<close> False holds [OF k] assms(1,2) k show ?thesis
          by (simp add: ring_read_def nth_append)
      qed
    qed
  next
    case False
    then show ?thesis
      using holds assms(1,2) by (intro nth_equalityI) (simp_all add: ring_read_def)
  qed
qed

lemma splice_length: "p + length bs \<le> length st \<Longrightarrow> length (splice st p bs) = length st"
  by (simp add: splice_def)

lemma splice_nth:
  "p + length bs \<le> length st \<Longrightarrow> j < length st \<Longrightarrow>
    splice st p bs ! j = (if p \<le> j \<and> j < p + length bs then bs ! (j - p) else st ! j)"
  by (auto simp: splice_def nth_append)

lemma ring_write_holds:
  assumes "length st = 4096" "pos \<le> 4096" "pos mod 4096 = s mod 4096" "length bs \<le> 4096"
    "avail = 4096 - pos \<or> length bs \<le> avail \<and> avail \<le> 4096 - pos"
    "ring_write st pos avail bs = (st', pos', avail')"
  shows "length st' = 4096 \<and> pos' \<le> 4096 \<and> pos' mod 4096 = (s + length bs) mod 4096 \<and> ring_holds st' s bs
    \<and> (\<forall>j < 4096. (\<forall>k < length bs. j \<noteq> (s + k) mod 4096) \<longrightarrow> st' ! j = st ! j)"
proof (cases "length bs \<le> avail")
  case True
  with assms(5,6) have w: "st' = splice st pos bs" "pos' = pos + length bs" "pos + length bs \<le> 4096"
    using assms(2) by (auto simp: ring_write_def)
  have mods: "(s + k) mod 4096 = pos + k" if "k < length bs" for k
  proof -
    have "(s + k) mod 4096 = (pos + k) mod 4096" using assms(3) by (metis mod_add_left_eq)
    with w(3) that show ?thesis by simp
  qed
  have "pos' mod 4096 = (s + length bs) mod 4096"
    unfolding w using assms(3) by (metis mod_add_left_eq)
  moreover have "ring_holds st' s bs"
    using w assms(1) by (auto simp: ring_holds_def mods splice_nth)
  moreover have "st' ! j = st ! j" if "j < 4096" "\<forall>k < length bs. j \<noteq> (s + k) mod 4096" for j
  proof -
    have "\<not> (pos \<le> j \<and> j < pos + length bs)"
    proof
      assume j: "pos \<le> j \<and> j < pos + length bs"
      then have "j - pos < length bs" by linarith
      with mods [OF this] that(2) j show False by auto
    qed
    with w assms(1) that(1) show ?thesis by (auto simp: splice_nth)
  qed
  ultimately show ?thesis using w assms(1) by (simp add: splice_length)
next
  case False
  let ?a = "4096 - pos"
  from False assms(5) have a: "avail = ?a" by simp
  let ?st = "splice st pos (take ?a bs)"
  have w: "st' = splice ?st 0 (drop ?a bs)" "pos' = length bs - ?a" "?a < length bs"
    using False assms(6) a by (auto simp: ring_write_def)
  have len: "length ?st = 4096" using assms(1,2) w(3) by (simp add: splice_length)
  have len': "length st' = 4096" unfolding w using len assms(4) by (subst splice_length) auto
  have mods: "(s + k) mod 4096 = (if k < ?a then pos + k else k - ?a)" if "k < length bs" for k
  proof -
    have "(s + k) mod 4096 = (pos + k) mod 4096" using assms(3) by (metis mod_add_left_eq)
    with mod_wrap [of pos 4096 k] assms(2,4) that show ?thesis by simp
  qed
  have nth: "st' ! j = (if j < length bs - ?a then bs ! (?a + j)
      else if pos \<le> j then bs ! (j - pos) else st ! j)" if "j < 4096" for j
    unfolding w using len that assms(1,2,4) w(3) by (subst splice_nth) (auto simp: splice_nth add.commute)
  have "pos' mod 4096 = (s + length bs) mod 4096"
  proof -
    have "(s + length bs) mod 4096 = (pos + length bs) mod 4096" using assms(3) by (metis mod_add_left_eq)
    also have "pos + length bs = pos' + 4096" using w assms(2) by simp
    finally show ?thesis by simp
  qed
  moreover have "ring_holds st' s bs"
    unfolding ring_holds_def
  proof (intro allI impI)
    fix k assume k: "k < length bs"
    show "st' ! ((s + k) mod 4096) = bs ! k"
      using nth [of "(s + k) mod 4096"] mods [OF k] k w(3) assms(2,4) by (auto split: if_splits)
  qed
  moreover have "st' ! j = st ! j" if j: "j < 4096" "\<forall>k < length bs. j \<noteq> (s + k) mod 4096" for j
  proof -
    have "\<not> j < length bs - ?a"
    proof
      assume "j < length bs - ?a"
      with mods [of "?a + j"] have "(s + (?a + j)) mod 4096 = j" "?a + j < length bs" by simp_all
      with j(2) show False by metis
    qed
    moreover have "\<not> pos \<le> j"
    proof
      assume "pos \<le> j"
      then have "j - pos < ?a" "j - pos < length bs" using j(1) w(3) by linarith+
      with mods [of "j - pos"] \<open>pos \<le> j\<close> have "(s + (j - pos)) mod 4096 = j" "j - pos < length bs" by simp_all
      with j(2) show False by metis
    qed
    ultimately show ?thesis using nth [OF j(1)] by simp
  qed
  moreover have "pos' \<le> 4096" using w(2) assms(4) by linarith
  ultimately show ?thesis using len' by simp
qed

text \<open>Writing behind the data that is held leaves it as it is.\<close>

lemma ring_mod_neq: "\<lbrakk>i < j; j < i + 4096\<rbrakk> \<Longrightarrow> (s + i) mod 4096 \<noteq> (s + j) mod (4096 :: nat)"
  by (rule mod_distinct) simp_all

lemma ring_write_append:
  assumes "ring_holds st s d" "length d + length bs \<le> 4096" "length st = 4096" "pos \<le> 4096"
    "pos mod 4096 = (s + length d) mod 4096"
    "avail = 4096 - pos \<or> length bs \<le> avail \<and> avail \<le> 4096 - pos"
    "ring_write st pos avail bs = (st', pos', avail')"
  shows "length st' = 4096 \<and> pos' \<le> 4096 \<and> pos' mod 4096 = (s + length (d @ bs)) mod 4096 \<and> ring_holds st' s (d @ bs)"
proof -
  have bs: "length bs \<le> 4096" using assms(2) by simp
  note w = ring_write_holds [OF assms(3,4,5) bs assms(6,7)]
  have "ring_holds st' s d"
    unfolding ring_holds_def
  proof (intro allI impI)
    fix k assume k: "k < length d"
    have "(s + k) mod 4096 \<noteq> (s + length d + m) mod 4096" if "m < length bs" for m
      using ring_mod_neq [of k "length d + m" s] k that assms(2) by (simp add: add.assoc)
    with w have "st' ! ((s + k) mod 4096) = st ! ((s + k) mod 4096)" by simp
    with assms(1) k show "st' ! ((s + k) mod 4096) = d ! k" by (simp add: ring_holds_def)
  qed
  with w show ?thesis by (simp add: ring_holds_append add.assoc)
qed

section \<open>The ring of pointers\<close>

definition win :: "nat list \<Rightarrow> nat \<Rightarrow> nat \<Rightarrow> nat \<Rightarrow> nat list" where
  "win es a i j = map (\<lambda>k. es ! (k mod a)) [i..<j]"

lemma win_update:
  assumes "length es = a" "i \<le> j" "j < i + a"
  shows "win (es[j mod a := r]) a i (Suc j) = win es a i j @ [r]"
proof -
  have "j mod a < a" using assms by simp
  have "es[j mod a := r] ! (k mod a) = es ! (k mod a)" if "k \<in> set [i..<j]" for k
    using mod_distinct [of k j a, THEN not_sym] that assms by (intro nth_list_update_neq) simp
  then have "map (\<lambda>k. es[j mod a := r] ! (k mod a)) [i..<j] = map (\<lambda>k. es ! (k mod a)) [i..<j]"
    by (intro map_cong refl)
  with \<open>j mod a < a\<close> assms show ?thesis by (simp add: win_def)
qed

lemma win_grow:
  assumes "length es = a" "j = i + a"
  shows "win (drop (i mod a) es @ take (i mod a) es @ zs) (a + 64) 0 a = win es a i j"
proof (rule nth_equalityI)
  fix k assume "k < length (win (drop (i mod a) es @ take (i mod a) es @ zs) (a + 64) 0 a)"
  then have k: "k < a" by (simp add: win_def)
  let ?m = "i mod a"
  have m: "?m < a" using k by simp
  have "(i + k) mod a = (?m + k) mod a" by (simp add: mod_add_left_eq)
  also have "\<dots> = (if k < a - ?m then ?m + k else k - (a - ?m))" using mod_wrap [of ?m a k] m k by simp
  finally have eq: "(i + k) mod a = (if k < a - ?m then ?m + k else k - (a - ?m))" .
  then have "es ! ((i + k) mod a) = (drop ?m es @ take ?m es @ zs) ! k"
  proof (cases "k < a - ?m")
    case False
    then have "k - (a - ?m) < ?m" "k - (a - ?m) < a" using k m by linarith+
    with False assms(1) eq show ?thesis by (simp add: nth_append)
  qed (use k m assms(1) in \<open>simp add: nth_append\<close>)
  with k assms show "win (drop ?m es @ take ?m es @ zs) (a + 64) 0 a ! k = win es a i j ! k"
    by (simp add: win_def)
qed (simp add: win_def assms)

section \<open>What a header table is\<close>

text \<open>
  RFC 7541, section 4: the table has a maximum size and holds headers, newest first; each counts its
  octets and 32 more; the oldest ones are evicted until the rest fits.
\<close>

fun v2_hsize :: "v2_header \<Rightarrow> nat" where
  "v2_hsize (n, v) = length n + length v + 32"

fun v2_fit :: "nat \<Rightarrow> v2_header list \<Rightarrow> v2_header list" where
  "v2_fit m [] = []"
| "v2_fit m (x # hs) = (if v2_hsize x \<le> m then x # v2_fit (m - v2_hsize x) hs else [])"

definition v2_spec_add :: "nat \<Rightarrow> v2_header list \<Rightarrow> v2_header \<Rightarrow> v2_header list" where
  "v2_spec_add m hs x = (if v2_hsize x > m then [] else x # v2_fit (m - v2_hsize x) hs)"

definition v2_total :: "v2_header list \<Rightarrow> nat" where
  "v2_total hs = sum_list (map v2_hsize hs)"

lemma v2_total_simps [simp]:
  "v2_total [] = 0" "v2_total (x # hs) = v2_hsize x + v2_total hs" "v2_total (hs @ hs') = v2_total hs + v2_total hs'"
  "v2_total (rev hs) = v2_total hs"
  by (simp_all add: v2_total_def rev_map sum_list_rev flip: rev_map)

lemma v2_fit_all: "v2_total hs \<le> m \<Longrightarrow> v2_fit m hs = hs"
  by (induction hs arbitrary: m) auto

lemma v2_fit_snoc: "m < v2_total (hs @ [x]) \<Longrightarrow> v2_fit m (hs @ [x]) = v2_fit m hs"
  by (induction hs arbitrary: m) auto

lemma v2_fit_total: "v2_total (v2_fit m hs) \<le> m"
  by (induction m hs rule: v2_fit.induct) auto

section \<open>The invariant\<close>

definition flat :: "v2_header list \<Rightarrow> bytes" where
  "flat os = concat (map (\<lambda>(n, v). n @ v) os)"

lemma flat_simps [simp]: "flat [] = []" "flat ((n, v) # os) = n @ v @ flat os" "flat (os @ os') = flat os @ flat os'"
  by (simp_all add: flat_def)

lemma flat_length: "length (flat os) + 32 * length os = v2_total os"
  by (induction os) auto

definition v2_entry_at :: "nat \<Rightarrow> v2_entry \<Rightarrow> v2_header \<Rightarrow> bool" where
  "v2_entry_at s e = (\<lambda>(n, v). name_len e = length n \<and> value_len e = length v
     \<and> name_data e \<le> 4096 \<and> name_data e mod 4096 = s mod 4096
     \<and> value_data e \<le> 4096 \<and> value_data e mod 4096 = (s + length n) mod 4096)"

text \<open>Entries, oldest first, whose data follow each other from a position of the ring on.\<close>

fun v2_laid :: "nat \<Rightarrow> v2_entry list \<Rightarrow> v2_header list \<Rightarrow> bool" where
  "v2_laid s [] [] \<longleftrightarrow> True"
| "v2_laid s (e # es) (x # os) \<longleftrightarrow> v2_entry_at s e x \<and> v2_laid (s + length (fst x) + length (snd x)) es os"
| "v2_laid s _ _ \<longleftrightarrow> False"

lemma v2_laid_snoc:
  "v2_laid s (es @ [e]) (os @ [x]) \<longleftrightarrow> v2_laid s es os \<and> v2_entry_at (s + length (flat os)) e x"
proof (induction s es os rule: v2_laid.induct)
  case (2 s e' es x' os)
  then show ?case by (cases x') (simp add: add.assoc)
qed (auto elim: v2_laid.elims)

lemma v2_laid_length: "v2_laid s es os \<Longrightarrow> length es = length os"
  by (induction s es os rule: v2_laid.induct) auto

lemma v2_laid_nth:
  "\<lbrakk>v2_laid s es os; i < length os\<rbrakk> \<Longrightarrow> v2_entry_at (s + length (flat (take i os))) (es ! i) (os ! i)"
proof (induction s es os arbitrary: i rule: v2_laid.induct)
  case (2 s e es x os)
  show ?case
  proof (cases i)
    case (Suc j)
    with 2 show ?thesis by (cases x) (simp add: add.assoc)
  qed (use 2 in simp)
qed auto

text \<open>
  The ring holds the headers \<open>os\<close>, oldest first, \<open>spare\<close> bytes have been accounted for a header that is not
  there yet.
\<close>

definition hp_win :: "hpack \<Rightarrow> nat \<Rightarrow> nat list" where
  "hp_win h i = win (hp_entries h) (hp_allocated h) i (hp_added h)"

definition hp_ring_ok :: "hpack \<Rightarrow> bool" where
  "hp_ring_ok h \<longleftrightarrow> length (hp_entries h) = hp_allocated h \<and> 0 < hp_allocated h
     \<and> hp_reused h \<le> hp_deleted h \<and> hp_deleted h \<le> hp_added h \<and> hp_added h \<le> hp_reused h + hp_allocated h
     \<and> distinct (hp_win h (hp_reused h)) \<and> (\<forall>r \<in> set (hp_win h (hp_reused h)). r < length (hp_store h))"

definition hp_data_ok :: "hpack \<Rightarrow> v2_header list \<Rightarrow> bool" where
  "hp_data_ok h os \<longleftrightarrow> length (hp_storage h) = 4096 \<and> hp_pos h \<le> 4096
     \<and> (\<exists>s. v2_laid s (map ((!) (hp_store h)) (hp_win h (hp_deleted h))) os
          \<and> ring_holds (hp_storage h) s (flat os) \<and> hp_pos h mod 4096 = (s + length (flat os)) mod 4096)"

definition hp_ok :: "nat \<Rightarrow> hpack \<Rightarrow> v2_header list \<Rightarrow> bool" where
  "hp_ok spare h os \<longleftrightarrow> hp_ring_ok h \<and> hp_data_ok h os
     \<and> hp_free h + spare + v2_total os = hp_size h \<and> hp_size h \<le> 4096"

lemma hp_win_length: "length (hp_win h i) = hp_added h - i"
  by (simp add: hp_win_def win_def)

lemma hp_win_Cons:
  "i < hp_added h \<Longrightarrow> hp_win h i = (hp_entries h ! (i mod hp_allocated h)) # hp_win h (Suc i)"
  by (simp add: hp_win_def win_def upt_conv_Cons)

lemma hp_data_count: "hp_data_ok h os \<Longrightarrow> hp_added h - hp_deleted h = length os"
  by (auto simp: hp_data_ok_def hp_win_length dest!: v2_laid_length)

section \<open>Eviction\<close>

lemma hp_evict_ok:
  assumes "hp_ok spare h (x # os)"
  shows "hp_ok spare (hp_evict h) os \<and> hp_free (hp_evict h) = hp_free h + v2_hsize x"
proof -
  from assms have ring: "hp_ring_ok h" and data: "hp_data_ok h (x # os)"
    and free: "hp_free h + spare + v2_total (x # os) = hp_size h" "hp_size h \<le> 4096"
    by (simp_all add: hp_ok_def)
  have lt: "hp_deleted h < hp_added h" using hp_data_count [OF data] by simp
  obtain n v where x: "x = (n, v)" by fastforce
  from data obtain s where s: "v2_laid s (map ((!) (hp_store h)) (hp_win h (hp_deleted h))) (x # os)"
    "ring_holds (hp_storage h) s (flat (x # os))" "hp_pos h mod 4096 = (s + length (flat (x # os))) mod 4096"
    by (auto simp: hp_data_ok_def)
  have at: "v2_entry_at s (hp_entry h (hp_deleted h)) x"
    and rest: "v2_laid (s + length n + length v) (map ((!) (hp_store h)) (hp_win h (Suc (hp_deleted h)))) os"
    using s(1) x by (simp_all add: hp_win_Cons [OF lt] hp_entry_def)
  have sz: "32 + name_len (hp_entry h (hp_deleted h)) + value_len (hp_entry h (hp_deleted h)) = v2_hsize x"
    using at x by (simp add: v2_entry_at_def)
  have win: "hp_win (hp_evict h) i = hp_win h i" for i by (simp add: hp_win_def hp_evict_def Let_def)
  have "hp_ring_ok (hp_evict h)"
    using ring lt win by (simp add: hp_ring_ok_def hp_evict_def Let_def)
  moreover have "hp_data_ok (hp_evict h) os"
    unfolding hp_data_ok_def win
  proof (intro conjI exI [of _ "s + length n + length v"])
    show "v2_laid (s + length n + length v) (map ((!) (hp_store (hp_evict h))) (hp_win h (hp_deleted (hp_evict h)))) os"
      using rest by (simp add: hp_evict_def Let_def)
    show "ring_holds (hp_storage (hp_evict h)) (s + length n + length v) (flat os)"
      using s(2) x by (simp add: hp_evict_def Let_def ring_holds_append)
    show "hp_pos (hp_evict h) mod 4096 = (s + length n + length v + length (flat os)) mod 4096"
      using s(3) x by (simp add: hp_evict_def Let_def add.assoc)
  qed (use data in \<open>simp_all add: hp_data_ok_def hp_evict_def Let_def\<close>)
  moreover have "hp_free (hp_evict h) = hp_free h + v2_hsize x" "hp_size (hp_evict h) = hp_size h"
    using sz by (simp_all add: hp_evict_def Let_def)
  ultimately show ?thesis using free by (simp add: hp_ok_def)
qed

text \<open>Both loops stop with the longest newest part that leaves the room they need.\<close>

lemma evict_do_ok:
  assumes "hp_ok 0 h os" "hp_free h < sz" "sz \<le> hp_size h"
  shows "\<exists>h'. evict_do (length os) sz h = Some h' \<and> hp_ok 0 h' (rev (v2_fit (hp_size h - sz) (rev os)))
    \<and> sz \<le> hp_free h' \<and> hp_size h' = hp_size h"
  using assms
proof (induction os arbitrary: h)
  case Nil
  then show ?case by (simp add: hp_ok_def)
next
  case (Cons x os)
  from hp_evict_ok [OF Cons.prems(1)] have ev: "hp_ok 0 (hp_evict h) os" by simp
  have sz: "hp_size (hp_evict h) = hp_size h" by (simp add: hp_evict_def Let_def)
  have "hp_size h - sz < v2_total (rev os @ [x])"
    using Cons.prems by (auto simp: hp_ok_def)
  then have fit: "v2_fit (hp_size h - sz) (rev (x # os)) = v2_fit (hp_size h - sz) (rev os)"
    by (simp add: v2_fit_snoc)
  show ?case
  proof (cases "hp_free (hp_evict h) < sz")
    case True
    with Cons.IH [OF ev] Cons.prems(3) sz fit show ?thesis by (simp add: Let_def)
  next
    case False
    then have "v2_total os \<le> hp_size h - sz" using ev sz by (auto simp: hp_ok_def)
    with False ev sz fit show ?thesis by (simp add: Let_def v2_fit_all)
  qed
qed

lemma evict_while_ok:
  assumes "hp_ok 0 h os" "needed = int (hp_size h) - int sz"
  shows "\<exists>h'. evict_while (length os) needed h = Some h' \<and> hp_ok 0 h' (rev (v2_fit sz (rev os)))
    \<and> needed \<le> int (hp_free h') \<and> hp_size h' = hp_size h"
  using assms
proof (induction os arbitrary: h)
  case Nil
  then show ?case by (simp add: hp_ok_def)
next
  case (Cons x os)
  from hp_evict_ok [OF Cons.prems(1)] have ev: "hp_ok 0 (hp_evict h) os" by simp
  have size: "hp_size (hp_evict h) = hp_size h" by (simp add: hp_evict_def Let_def)
  show ?case
  proof (cases "int (hp_free h) < needed")
    case True
    have "sz < v2_total (rev os @ [x])" using True Cons.prems by (auto simp: hp_ok_def)
    then have "v2_fit sz (rev (x # os)) = v2_fit sz (rev os)" by (simp add: v2_fit_snoc)
    with True Cons.IH [OF ev] Cons.prems(2) size show ?thesis by simp
  next
    case False
    then have "v2_total (rev (x # os)) \<le> sz" using Cons.prems by (auto simp: hp_ok_def)
    with False Cons.prems(1) show ?thesis by (simp only: v2_fit_all) simp
  qed
qed

section \<open>Insertion\<close>

lemma hp_grow_ok:
  assumes "hp_ring_ok h" "hp_allocated h = hp_added h - hp_deleted h"
  shows "hp_ring_ok (hp_grow h) \<and> hp_win (hp_grow h) (hp_deleted (hp_grow h)) = hp_win h (hp_deleted h)
    \<and> hp_added (hp_grow h) < hp_reused (hp_grow h) + hp_allocated (hp_grow h)
    \<and> set (hp_win (hp_grow h) (hp_reused (hp_grow h))) = set (hp_win h (hp_reused h))"
proof -
  from assms have r: "hp_reused h = hp_deleted h" "hp_added h = hp_deleted h + hp_allocated h"
    by (auto simp: hp_ring_ok_def)
  have win: "hp_win (hp_grow h) 0 = hp_win h (hp_deleted h)"
    using win_grow [of "hp_entries h" "hp_allocated h" "hp_added h" "hp_deleted h" "replicate 64 0"] assms(1) r(2)
    by (simp add: hp_win_def hp_grow_def Let_def hp_ring_ok_def)
  moreover have "length (hp_entries (hp_grow h)) = hp_allocated (hp_grow h)"
    using assms(1) mod_less_divisor [of "hp_allocated h" "hp_deleted h"]
    by (auto simp: hp_grow_def Let_def hp_ring_ok_def min_def simp del: mod_less_divisor)
  ultimately show ?thesis
    using assms(1) r by (simp add: hp_ring_ok_def hp_grow_def Let_def)
qed

lemma hp_push_ok:
  assumes "hp_ring_ok h" "hp_added h < hp_reused h + hp_allocated h" "r < length (hp_store h)"
    "r \<notin> set (hp_win h (hp_reused h))"
    "h' = h\<lparr>hp_entries := (hp_entries h)[hp_added h mod hp_allocated h := r], hp_added := hp_added h + 1\<rparr>"
  shows "hp_ring_ok h' \<and> hp_win h' (hp_deleted h') = hp_win h (hp_deleted h) @ [r]"
proof -
  have win: "hp_win h' i = hp_win h i @ [r]" if "hp_reused h \<le> i" "i \<le> hp_added h" for i
    using win_update [of "hp_entries h" "hp_allocated h" i "hp_added h" r] assms that
    by (simp add: hp_win_def hp_ring_ok_def)
  show ?thesis
    using assms win [of "hp_reused h"] win [of "hp_deleted h"] by (auto simp: hp_ring_ok_def)
qed

lemma hp_cell_ok:
  assumes "hp_ring_ok h" "hp_cell h = (r, h1)"
  shows "hp_ring_ok h1 \<and> r < length (hp_store h1) \<and> r \<notin> set (hp_win h1 (hp_reused h1))
    \<and> (hp_added h1 < hp_reused h1 + hp_allocated h1 \<or> hp_allocated h1 = hp_added h1 - hp_deleted h1)
    \<and> hp_win h1 (hp_deleted h) = hp_win h (hp_deleted h)
    \<and> map ((!) (hp_store h1)) (hp_win h (hp_deleted h)) = map ((!) (hp_store h)) (hp_win h (hp_deleted h))
    \<and> hp_storage h1 = hp_storage h \<and> hp_pos h1 = hp_pos h \<and> hp_free h1 = hp_free h \<and> hp_size h1 = hp_size h
    \<and> hp_added h1 = hp_added h \<and> hp_deleted h1 = hp_deleted h"
proof (cases "hp_reused h = hp_deleted h")
  case True
  with assms(2) have h1: "r = length (hp_store h)"
    "h1 = h\<lparr>hp_store := hp_store h @ [\<lparr>name_data = 0, name_len = 0, value_data = 0, value_len = 0\<rparr>]\<rparr>"
    by (simp_all add: hp_cell_def)
  then have "hp_win h1 i = hp_win h i" for i by (simp add: hp_win_def)
  with h1 assms(1) True show ?thesis by (auto simp: hp_ring_ok_def nth_append)
next
  case False
  with assms have lt: "hp_reused h < hp_deleted h" "hp_reused h < hp_added h" by (auto simp: hp_ring_ok_def)
  from False assms(2) have h1: "r = hp_entries h ! (hp_reused h mod hp_allocated h)" "h1 = h\<lparr>hp_reused := hp_reused h + 1\<rparr>"
    by (simp_all add: hp_cell_def)
  then have win: "hp_win h1 i = hp_win h i" for i by (simp add: hp_win_def)
  have "hp_win h (hp_reused h) = r # hp_win h (Suc (hp_reused h))" using hp_win_Cons [OF lt(2)] h1 by simp
  with win h1 lt assms(1) show ?thesis by (auto simp: hp_ring_ok_def)
qed

lemma hp_insert_ok:
  assumes "hp_ok (v2_hsize x) h os"
  shows "hp_ok 0 (hp_insert h x) (os @ [x])"
proof -
  obtain n v where x: "x = (n, v)" by fastforce
  from assms have ring: "hp_ring_ok h" and data: "hp_data_ok h os"
    and free: "hp_free h + v2_hsize x + v2_total os = hp_size h" "hp_size h \<le> 4096"
    by (simp_all add: hp_ok_def)
  obtain r h1 where cell: "hp_cell h = (r, h1)" by fastforce
  note c = hp_cell_ok [OF ring cell]
  from data obtain s where st: "length (hp_storage h) = 4096" "hp_pos h \<le> 4096"
    and laid: "v2_laid s (map ((!) (hp_store h)) (hp_win h (hp_deleted h))) os"
    and held: "ring_holds (hp_storage h) s (flat os)" "hp_pos h mod 4096 = (s + length (flat os)) mod 4096"
    by (auto simp: hp_data_ok_def)
  have room: "length (flat os) + length n + length v + 32 \<le> 4096"
    using flat_length [of os] free x by simp
  obtain st1 p1 a1 where w1: "ring_write (hp_storage h) (hp_pos h) (4096 - hp_pos h) n = (st1, p1, a1)"
    by (metis prod_cases3)
  obtain st2 p2 a2 where w2: "ring_write st1 p1 (a1 - length n) v = (st2, p2, a2)" by (metis prod_cases3)
  have "length (flat os) + length n \<le> 4096" using room by simp
  from ring_write_append [OF held(1) this st held(2) _ w1]
  have one: "length st1 = 4096" "p1 \<le> 4096" "p1 mod 4096 = (s + length (flat os @ n)) mod 4096"
    "ring_holds st1 s (flat os @ n)" by simp_all
  have avail: "a1 - length n = 4096 - p1 \<or> length v \<le> a1 - length n \<and> a1 - length n \<le> 4096 - p1"
    using w1 st(2) room by (auto simp: ring_write_def split: if_splits)
  have "length (flat os @ n) + length v \<le> 4096" using room by simp
  from ring_write_append [OF one(4) this one(1,2,3) avail w2]
  have two: "length st2 = 4096" "p2 \<le> 4096" "p2 mod 4096 = (s + length (flat (os @ [x]))) mod 4096"
    "ring_holds st2 s (flat (os @ [x]))" using x by simp_all
  define e where "e = \<lparr>name_data = hp_pos h, name_len = length n, value_data = p1, value_len = length v\<rparr>"
  define h2 where "h2 = h1\<lparr>hp_storage := st2, hp_pos := p2, hp_store := (hp_store h1)[r := e]\<rparr>"
  define h3 where "h3 = (if hp_allocated h2 = hp_added h2 - hp_deleted h2 then hp_grow h2 else h2)"
  define h4 where "h4 = h3\<lparr>hp_entries := (hp_entries h3)[hp_added h3 mod hp_allocated h3 := r], hp_added := hp_added h3 + 1\<rparr>"
  have ins: "hp_insert h x = h4"
    using c unfolding x h4_def h3_def h2_def e_def by (simp add: hp_insert_def cell w1 w2 Let_def)
  have win2: "hp_win h2 i = hp_win h1 i" for i by (simp add: hp_win_def h2_def)
  have ring2: "hp_ring_ok h2" using c win2 by (simp add: hp_ring_ok_def h2_def)
  have ring3: "hp_ring_ok h3 \<and> hp_added h3 < hp_reused h3 + hp_allocated h3
      \<and> hp_win h3 (hp_deleted h3) = hp_win h (hp_deleted h) \<and> r \<notin> set (hp_win h3 (hp_reused h3))"
  proof (cases "hp_allocated h2 = hp_added h2 - hp_deleted h2")
    case True
    with hp_grow_ok [OF ring2 True] c win2 show ?thesis by (simp add: h3_def h2_def)
  next
    case False
    with c ring2 win2 show ?thesis by (auto simp: h3_def h2_def)
  qed
  have same: "hp_store h3 = (hp_store h1)[r := e]" "hp_storage h3 = st2" "hp_pos h3 = p2" "hp_free h3 = hp_free h"
    "hp_size h3 = hp_size h"
    using c by (simp_all add: h3_def h2_def hp_grow_def Let_def)
  from hp_push_ok [OF _ _ _ _ h4_def] ring3 same c
  have push: "hp_ring_ok h4" "hp_win h4 (hp_deleted h4) = hp_win h (hp_deleted h) @ [r]" by simp_all
  have live: "k \<noteq> r" if "k \<in> set (hp_win h (hp_deleted h))" for k
  proof -
    have "set (hp_win h1 (hp_deleted h1)) \<subseteq> set (hp_win h1 (hp_reused h1))"
      using c by (auto simp: hp_win_def win_def hp_ring_ok_def)
    with c that show ?thesis by auto
  qed
  have "map ((!) (hp_store h3)) (hp_win h (hp_deleted h)) = map ((!) (hp_store h1)) (hp_win h (hp_deleted h))"
    using live c by (auto simp: same(1) nth_list_update)
  then have es: "map ((!) (hp_store h4)) (hp_win h4 (hp_deleted h4)) = map ((!) (hp_store h)) (hp_win h (hp_deleted h)) @ [e]"
    using c push(2) same(1) by (simp add: h4_def)
  have "v2_entry_at (s + length (flat os)) e x"
    using st(2) held(2) one(2,3) x by (simp add: v2_entry_at_def e_def add.assoc)
  with laid have "v2_laid s (map ((!) (hp_store h4)) (hp_win h4 (hp_deleted h4))) (os @ [x])"
    unfolding es v2_laid_snoc by simp
  then have "hp_data_ok h4 (os @ [x])"
    using two same by (auto simp: hp_data_ok_def h4_def)
  moreover have "hp_free h4 = hp_free h" "hp_size h4 = hp_size h" using same by (simp_all add: h4_def)
  ultimately show ?thesis unfolding ins using push(1) free by (simp add: hp_ok_def)
qed

section \<open>The table of a connection\<close>

lemma hp_start_ok: "hp_ok 0 (hp_start hpack_zero) []"
  by (auto simp: hp_ok_def hp_start_def hpack_zero_def hp_ring_ok_def hp_data_ok_def hp_win_def win_def
      ring_holds_def intro: exI [of _ 0])

lemma table_account_ok:
  assumes "hp_ok 0 h os"
  shows "if v2_hsize x \<le> hp_size h
    then (\<exists>h'. ngx_http_v2_table_account h (length (fst x) + length (snd x)) = Some (h', True)
        \<and> hp_ok (v2_hsize x) h' (rev (v2_fit (hp_size h - v2_hsize x) (rev os))) \<and> hp_size h' = hp_size h)
    else (\<exists>h'. ngx_http_v2_table_account h (length (fst x) + length (snd x)) = Some (h', False)
        \<and> hp_ok 0 h' [] \<and> hp_size h' = hp_size h)"
proof -
  have sz: "length (fst x) + length (snd x) + 32 = v2_hsize x" by (cases x) simp
  consider (room) "v2_hsize x \<le> hp_free h" | (big) "hp_free h < v2_hsize x" "hp_size h < v2_hsize x"
    | (evict) "hp_free h < v2_hsize x" "v2_hsize x \<le> hp_size h" by linarith
  then show ?thesis
  proof cases
    case room
    then have "v2_fit (hp_size h - v2_hsize x) (rev os) = rev os"
      using assms by (intro v2_fit_all) (auto simp: hp_ok_def)
    with room assms show ?thesis
      by (auto simp: ngx_http_v2_table_account_def sz hp_ok_def hp_ring_ok_def hp_data_ok_def hp_win_def)
  next
    case big
    then have "ngx_http_v2_table_account h (length (fst x) + length (snd x))
        = Some (h\<lparr>hp_deleted := hp_added h, hp_free := hp_size h\<rparr>, False)"
      by (simp add: ngx_http_v2_table_account_def sz)
    moreover have "hp_ok 0 (h\<lparr>hp_deleted := hp_added h, hp_free := hp_size h\<rparr>) []"
      using assms
      by (auto simp: hp_ok_def hp_ring_ok_def hp_data_ok_def hp_win_def win_def ring_holds_def
          intro: exI [of _ "hp_pos h"])
    ultimately show ?thesis using big by simp
  next
    case evict
    have "hp_added h - hp_deleted h = length os" using assms hp_data_count by (auto simp: hp_ok_def)
    with evict_do_ok [OF assms evict] evict obtain h' where
      "ngx_http_v2_table_account h (length (fst x) + length (snd x)) = Some (h'\<lparr>hp_free := hp_free h' - v2_hsize x\<rparr>, True)"
      "hp_ok 0 h' (rev (v2_fit (hp_size h - v2_hsize x) (rev os)))" "v2_hsize x \<le> hp_free h'" "hp_size h' = hp_size h"
      by (auto simp: ngx_http_v2_table_account_def sz)
    with evict show ?thesis
      by (auto simp: hp_ok_def hp_ring_ok_def hp_data_ok_def hp_win_def)
  qed
qed

text \<open>What a connection holds: the state is as it was made, or it holds the headers, newest first.\<close>

definition hp_holds :: "hpack \<Rightarrow> nat \<Rightarrow> v2_header list \<Rightarrow> bool" where
  "hp_holds h m hs \<longleftrightarrow> hp_entries h \<noteq> [] \<and> hp_ok 0 h (rev hs) \<and> hp_size h = m"

lemma add_header_holds:
  assumes "hp_holds h m hs"
  shows "\<exists>h'. ngx_http_v2_add_header h x = Some h' \<and> hp_holds h' m (v2_spec_add m hs x)"
proof -
  have entries: "hp_ok spare g os \<Longrightarrow> hp_entries g \<noteq> []" for spare g os
    by (auto simp: hp_ok_def hp_ring_ok_def)
  from assms have h: "hp_entries h \<noteq> []" "hp_ok 0 h (rev hs)" "hp_size h = m" by (simp_all add: hp_holds_def)
  show ?thesis
  proof (cases "v2_hsize x \<le> m")
    case True
    with table_account_ok [OF h(2), of x] h(3) obtain h' where h':
      "ngx_http_v2_table_account h (length (fst x) + length (snd x)) = Some (h', True)"
      "hp_ok (v2_hsize x) h' (rev (v2_fit (m - v2_hsize x) hs))" "hp_size h' = m" by auto
    from hp_insert_ok [OF h'(2)] have ok: "hp_ok 0 (hp_insert h' x) (rev (x # v2_fit (m - v2_hsize x) hs))" by simp
    have size: "hp_size (hp_insert h' x) = m"
    proof -
      have "hp_size (hp_insert h' x) = hp_size h'"
        by (cases x) (auto simp: hp_insert_def hp_cell_def hp_grow_def Let_def split: prod.splits if_splits)
      with h'(3) show ?thesis by simp
    qed
    from ok size entries [OF ok] True h(1) h'(1) show ?thesis
      by (simp add: ngx_http_v2_add_header_def hp_holds_def v2_spec_add_def)
  next
    case False
    with table_account_ok [OF h(2), of x] h(3) obtain h' where
      "ngx_http_v2_table_account h (length (fst x) + length (snd x)) = Some (h', False)"
      "hp_ok 0 h' []" "hp_size h' = m" by auto
    with False h(1) entries [of 0 h' "[]"] show ?thesis
      by (auto simp: ngx_http_v2_add_header_def hp_holds_def v2_spec_add_def)
  qed
qed

lemma table_size_holds:
  assumes "hp_holds h m hs" "m' \<le> 4096"
  shows "\<exists>h'. ngx_http_v2_table_size h m' = Some h' \<and> hp_holds h' m' (v2_fit m' hs)"
proof -
  from assms(1) have h: "hp_entries h \<noteq> []" "hp_ok 0 h (rev hs)" "hp_size h = m" by (simp_all add: hp_holds_def)
  have "hp_added h - hp_deleted h = length (rev hs)" using h(2) hp_data_count by (auto simp: hp_ok_def)
  with evict_while_ok [OF h(2) refl, of m'] obtain h' where h':
    "evict_while (hp_added h - hp_deleted h) (int (hp_size h) - int m') h = Some h'"
    "hp_ok 0 h' (rev (v2_fit m' hs))" "int (hp_size h) - int m' \<le> int (hp_free h')" "hp_size h' = hp_size h" by auto
  let ?h = "h'\<lparr>hp_size := m', hp_free := nat (int (hp_free h') - (int (hp_size h) - int m'))\<rparr>"
  have "hp_ok 0 ?h (rev (v2_fit m' hs))"
    using h' assms(2) by (auto simp: hp_ok_def hp_ring_ok_def hp_data_ok_def hp_win_def)
  moreover have "hp_entries ?h \<noteq> []" using calculation by (auto simp: hp_ok_def hp_ring_ok_def)
  ultimately show ?thesis
    using h'(1) assms(2) by (simp add: ngx_http_v2_table_size_def hp_holds_def)
qed

lemma get_indexed_holds:
  assumes "hp_holds h m hs"
  shows "ngx_http_v2_get_indexed_header h hdr index name_only =
    (if index = 0 \<or> index > 61 + length hs then None
     else
       (let x = (ngx_http_v2_static_table @ hs) ! (index - 1)
        in Some (if name_only \<and> index > 61 then (fst x, snd hdr) else x)))"
proof -
  from assms have h: "hp_ok 0 h (rev hs)" by (simp add: hp_holds_def)
  then have st: "length (hp_storage h) = 4096" and count: "hp_added h - hp_deleted h = length hs"
    using hp_data_count [of h "rev hs"] by (simp_all add: hp_ok_def hp_data_ok_def)
  from h obtain s where s: "v2_laid s (map ((!) (hp_store h)) (hp_win h (hp_deleted h))) (rev hs)"
    "ring_holds (hp_storage h) s (flat (rev hs))" by (auto simp: hp_ok_def hp_data_ok_def)
  have len: "length ngx_http_v2_static_table = 61" by (simp add: ngx_http_v2_static_table_def)
  have dyn': "ring_read (hp_storage h) (name_data e) (name_len e) = fst (hs ! i)"
    "ring_read (hp_storage h) (value_data e) (value_len e) = snd (hs ! i)"
    if i: "i < length hs" and ent: "e = hp_entry h (hp_added h - i - 1)" for i e
  proof -
    let ?j = "length hs - Suc i"
    have j: "?j < length (rev hs)" "rev hs ! ?j = hs ! i" using i by (simp_all add: rev_nth)
    have del: "hp_deleted h + ?j = hp_added h - i - 1" using count i by linarith
    have "hp_win h (hp_deleted h) ! ?j = hp_entries h ! ((hp_added h - i - 1) mod hp_allocated h)"
    proof -
      have "[hp_deleted h..<hp_added h] ! ?j = hp_added h - i - 1"
        using count i by (subst nth_upt) linarith+
      moreover have "hp_win h (hp_deleted h) ! ?j = hp_entries h ! ([hp_deleted h..<hp_added h] ! ?j mod hp_allocated h)"
        unfolding hp_win_def win_def by (rule nth_map) (use count i in simp)
      ultimately show ?thesis by (simp only:)
    qed
    with v2_laid_nth [OF s(1) j(1)] j count ent i
    have at: "v2_entry_at (s + length (flat (take ?j (rev hs)))) e (hs ! i)"
      by (simp add: hp_entry_def hp_win_length)
    obtain n v where x: "hs ! i = (n, v)" by fastforce
    have "rev hs = take ?j (rev hs) @ (n, v) # drop (Suc ?j) (rev hs)"
      using id_take_nth_drop [OF j(1)] j(2) x by simp
    then have fl: "flat (rev hs) = flat (take ?j (rev hs)) @ n @ v @ flat (drop (Suc ?j) (rev hs))"
      by (metis append.assoc flat_simps(2) flat_simps(3))
    with s(2) have holds: "ring_holds (hp_storage h) (s + length (flat (take ?j (rev hs)))) n"
      "ring_holds (hp_storage h) (s + length (flat (take ?j (rev hs))) + length n) v"
      by (simp_all add: ring_holds_append)
    have "length (flat (rev hs)) \<le> 4096" using h flat_length [of "rev hs"] by (simp add: hp_ok_def)
    then have "length n \<le> 4096" "length v \<le> 4096" using arg_cong [OF fl, of length] by simp_all
    note len4096 = this
    have e: "name_len e = length n" "value_len e = length v" "name_data e \<le> 4096" "value_data e \<le> 4096"
      "name_data e mod 4096 = (s + length (flat (take ?j (rev hs)))) mod 4096"
      "value_data e mod 4096 = (s + length (flat (take ?j (rev hs))) + length n) mod 4096"
      using at x by (simp_all add: v2_entry_at_def)
    show "ring_read (hp_storage h) (name_data e) (name_len e) = fst (hs ! i)"
      using ring_read_holds [OF st e(3,5) holds(1) len4096(1)] e(1) x by simp
    show "ring_read (hp_storage h) (value_data e) (value_len e) = snd (hs ! i)"
      using ring_read_holds [OF st e(4,6) holds(2) len4096(2)] e(2) x by simp
  qed
  consider (zero) "index = 0" | (static) "0 < index" "index \<le> 61" | (dyn) "61 < index" "index \<le> 61 + length hs"
    | (out) "index > 61 + length hs" by linarith
  then show ?thesis
  proof cases
    case static
    then have "index - Suc 0 < 61" by linarith
    with static len show ?thesis by (simp add: ngx_http_v2_get_indexed_header_def nth_append)
  next
    case dyn
    define i where "i = index - 62"
    have i: "index = 62 + i" "i < length hs" using dyn by (simp_all add: i_def)
    have "hs ! i = (fst (hs ! i), snd (hs ! i))" by simp
    with i dyn' [OF i(2) refl] len count show ?thesis
      by (auto simp: ngx_http_v2_get_indexed_header_def Let_def nth_append)
  next
    case out
    then have "\<not> index - Suc 0 < 61" "\<not> index - Suc 0 - 61 < length hs" by linarith+
    with out show ?thesis by (simp add: ngx_http_v2_get_indexed_header_def Let_def count)
  qed (simp add: ngx_http_v2_get_indexed_header_def)
qed

section \<open>Any sequence of operations\<close>

text \<open>What a client can make the server do with the table of its connection.\<close>

datatype v2_op = Op_add v2_header | Op_size nat

fun v2_apply :: "v2_op \<Rightarrow> hpack \<Rightarrow> hpack option" where
  "v2_apply (Op_add x) h = ngx_http_v2_add_header h x"
| "v2_apply (Op_size m) h = ngx_http_v2_table_size h m"

fun v2_run :: "v2_op list \<Rightarrow> hpack \<Rightarrow> hpack option" where
  "v2_run [] h = Some h"
| "v2_run (op # ops) h = (case v2_apply op h of None \<Rightarrow> None | Some h \<Rightarrow> v2_run ops h)"

fun v2_spec_run :: "v2_op list \<Rightarrow> nat \<times> v2_header list \<Rightarrow> nat \<times> v2_header list" where
  "v2_spec_run [] t = t"
| "v2_spec_run (Op_add x # ops) (m, hs) = v2_spec_run ops (m, v2_spec_add m hs x)"
| "v2_spec_run (Op_size m' # ops) (m, hs) = v2_spec_run ops (m', v2_fit m' hs)"

fun v2_op_ok :: "v2_op \<Rightarrow> bool" where
  "v2_op_ok (Op_add x) \<longleftrightarrow> True"
| "v2_op_ok (Op_size m) \<longleftrightarrow> m \<le> 4096"

definition is_size :: "v2_op \<Rightarrow> bool" where
  "is_size op \<longleftrightarrow> (\<exists>m. op = Op_size m)"

lemma v2_run_holds:
  "\<lbrakk>hp_holds h m hs; list_all v2_op_ok ops; v2_spec_run ops (m, hs) = (m', hs')\<rbrakk>
   \<Longrightarrow> \<exists>h'. v2_run ops h = Some h' \<and> hp_holds h' m' hs'"
proof (induction ops arbitrary: h m hs)
  case (Cons op ops)
  show ?case
  proof (cases op)
    case (Op_add x)
    with add_header_holds [OF Cons.prems(1), of x] Cons show ?thesis by auto
  next
    case (Op_size n)
    with table_size_holds [OF Cons.prems(1), of n] Cons show ?thesis by auto
  qed
qed auto

text \<open>Before the first insertion nothing is stored and only the size changes.\<close>

definition hp_unused :: "hpack \<Rightarrow> bool" where
  "hp_unused h \<longleftrightarrow> (\<exists>m f. h = hpack_zero\<lparr>hp_size := m, hp_free := f\<rparr> \<and> m = f)"

lemma unused_size: "\<lbrakk>hp_unused h; m \<le> 4096\<rbrakk> \<Longrightarrow> \<exists>h'. ngx_http_v2_table_size h m = Some h' \<and> hp_unused h'"
  by (auto simp: hp_unused_def ngx_http_v2_table_size_def hpack_zero_def)

lemma unused_add:
  assumes "hp_unused h"
  shows "\<exists>h'. ngx_http_v2_add_header h x = Some h' \<and> hp_holds h' 4096 (v2_spec_add 4096 [] x)"
proof -
  have start: "hp_start h = hp_start hpack_zero" "hp_entries h = []"
    using assms by (auto simp: hp_unused_def hp_start_def hpack_zero_def)
  have ne: "hp_entries (hp_start hpack_zero) \<noteq> []" by (simp add: hp_start_def)
  have "ngx_http_v2_add_header h x = ngx_http_v2_add_header (hp_start hpack_zero) x"
    using start ne by (simp add: ngx_http_v2_add_header_def)
  moreover have "hp_holds (hp_start hpack_zero) 4096 []"
    using hp_start_ok ne by (simp add: hp_holds_def) (simp add: hp_start_def)
  ultimately show ?thesis using add_header_holds [of "hp_start hpack_zero" 4096 "[]" x] by simp
qed

lemma v2_run_unused:
  assumes "hp_unused h" "list_all v2_op_ok ops" "v2_spec_run (dropWhile is_size ops) (4096, []) = (m', hs')"
  shows "\<exists>h'. v2_run ops h = Some h' \<and> (hp_holds h' m' hs' \<or> hp_unused h' \<and> hs' = [])"
  using assms
proof (induction ops arbitrary: h)
  case (Cons op ops)
  show ?case
  proof (cases op)
    case (Op_add x)
    with unused_add [OF Cons.prems(1), of x] Cons.prems v2_run_holds show ?thesis
      by (fastforce simp: is_size_def)
  next
    case (Op_size n)
    with unused_size [OF Cons.prems(1), of n] Cons show ?thesis by (auto simp: is_size_def)
  qed
qed auto

text \<open>
  C19. Whatever valid insertions and size updates a connection goes through, the ring of pointers and the
  ring of bytes behave as the table of the standard: no loop runs past the newest entry, an index
  is refused exactly if it is 0 or beyond the table, and otherwise gives the header of the
  static table or the one inserted that many insertions ago, byte for byte, although entries wrap
  around the storage and are reused. Size updates before the first insertion have no effect.
\<close>

theorem ngx_http_v2_table_refines:
  assumes "list_all v2_op_ok ops"
  shows "\<exists>h. v2_run ops hpack_zero = Some h \<and>
    (\<forall>hdr index name_only. ngx_http_v2_get_indexed_header h hdr index name_only =
      (let tab = ngx_http_v2_static_table @ snd (v2_spec_run (dropWhile is_size ops) (4096, []))
       in if index = 0 \<or> index > length tab then None
          else Some (if name_only \<and> index > 61 then (fst (tab ! (index - 1)), snd hdr) else tab ! (index - 1))))"
proof -
  obtain m' hs' where spec: "v2_spec_run (dropWhile is_size ops) (4096, []) = (m', hs')" by fastforce
  have len: "length ngx_http_v2_static_table = 61" by (simp add: ngx_http_v2_static_table_def)
  have "hp_unused hpack_zero" by (simp add: hp_unused_def hpack_zero_def)
  from v2_run_unused [OF this assms spec] obtain h where
    h: "v2_run ops hpack_zero = Some h" "hp_holds h m' hs' \<or> hp_unused h \<and> hs' = []" by blast
  from h(2) show ?thesis
  proof
    assume "hp_holds h m' hs'"
    with h(1) spec len show ?thesis by (simp add: get_indexed_holds Let_def)
  next
    assume u: "hp_unused h \<and> hs' = []"
    then have "hp_added h - hp_deleted h = 0" by (auto simp: hp_unused_def hpack_zero_def)
    with h(1) u spec len show ?thesis
      by (auto simp: ngx_http_v2_get_indexed_header_def Let_def nth_append)
  qed
qed

theorem ngx_http_v2_table_refines_witness:
  "\<exists>h. v2_run [Op_add (bytes_of ''a'', bytes_of ''1''), Op_add (bytes_of ''b'', bytes_of ''2'')] hpack_zero = Some h
     \<and> ngx_http_v2_get_indexed_header h ([], []) 62 False = Some (bytes_of ''b'', bytes_of ''2'')
     \<and> ngx_http_v2_get_indexed_header h ([], []) 64 False = None"
proof -
  have len: "length ngx_http_v2_static_table = 61" by (simp add: ngx_http_v2_static_table_def)
  have "list_all v2_op_ok [Op_add (bytes_of ''a'', bytes_of ''1''), Op_add (bytes_of ''b'', bytes_of ''2'')]" by simp
  from ngx_http_v2_table_refines [OF this] len show ?thesis
    by (auto simp: is_size_def v2_spec_add_def Let_def nth_append)
qed

text \<open>
  The update lost: a client that announces a table of 0 bytes before its first header finds
  the header stored all the same.
\<close>

lemma ngx_http_v2_table_size_lost:
  "\<exists>h. v2_run [Op_size 0, Op_add (bytes_of ''a'', bytes_of ''1'')] hpack_zero = Some h \<and> hp_size h = 4096
     \<and> hp_added h - hp_deleted h = 1"
  by (simp add: ngx_http_v2_table_size_def ngx_http_v2_add_header_def hpack_zero_def hp_start_def
      ngx_http_v2_table_account_def hp_insert_def hp_cell_def ring_write_def Let_def)

end
