(* ===== verification/V2_Header_Block_Safe.thy ===== *)
theory V2_Header_Block_Safe
  imports V2_Header_Block_Resume V2_Table_Refines Http_Request_Headers
begin

text \<open>
  The state of a header block: what holds whenever a handler is called, so that strings are written within their
  buffers, the state buffer is large enough and no input leads to an internal error. And two things that go wrong.
\<close>

section \<open>The table as a list\<close>

text \<open>The size and the headers of the table, newest first; \<open>None\<close> is the table before the first insertion.\<close>

type_synonym v2_tab = "(nat \<times> v2_header list) option"

definition hp_tab :: "hpack \<Rightarrow> v2_tab \<Rightarrow> bool" where
  "hp_tab h t = (case t of None \<Rightarrow> hp_unused h | Some (m, hs) \<Rightarrow> hp_holds h m hs)"

definition tab_headers :: "v2_tab \<Rightarrow> v2_header list" where
  "tab_headers t = (case t of None \<Rightarrow> [] | Some (m, hs) \<Rightarrow> hs)"

definition tab_add :: "v2_tab \<Rightarrow> v2_header \<Rightarrow> v2_tab" where
  "tab_add t x = (case t of None \<Rightarrow> Some (4096, v2_spec_add 4096 [] x) | Some (m, hs) \<Rightarrow> Some (m, v2_spec_add m hs x))"

definition tab_size :: "v2_tab \<Rightarrow> nat \<Rightarrow> v2_tab" where
  "tab_size t m = (case t of None \<Rightarrow> None | Some (m', hs) \<Rightarrow> Some (m, v2_fit m hs))"

lemma hp_tab_add: "hp_tab h t \<Longrightarrow> \<exists>h'. ngx_http_v2_add_header h x = Some h' \<and> hp_tab h' (tab_add t x)"
  using unused_add [of h x] add_header_holds [of h _ _ x]
  by (auto simp: hp_tab_def tab_add_def split: option.splits)

lemma hp_tab_size: "\<lbrakk>hp_tab h t; m \<le> 4096\<rbrakk> \<Longrightarrow> \<exists>h'. ngx_http_v2_table_size h m = Some h' \<and> hp_tab h' (tab_size t m)"
  using unused_size [of h m] table_size_holds [of h _ _ m]
  by (auto simp: hp_tab_def tab_size_def split: option.splits)

lemma hp_tab_zero: "hp_tab hpack_zero None"
  by (simp add: hp_tab_def hp_unused_def hpack_zero_def)

lemma table_size_limit: "ngx_http_v2_table_size h m = Some h' \<Longrightarrow> m \<le> 4096"
  by (simp add: ngx_http_v2_table_size_def split: if_splits)

section \<open>Well-formed states\<close>

text \<open>A coded string: what has been written and what is kept of a code have come from the octets taken.\<close>

definition huff_fits :: "nat \<Rightarrow> v2_state \<Rightarrow> bool" where
  "huff_fits len st \<longleftrightarrow> h_alloc st = len * 8 div 5 + 1 \<and> h_field_rest st \<le> len
     \<and> 5 * length (h_field st) + huff_len (unat (h_field_state st)) \<le> 8 * (len - h_field_rest st)"

definition v2_field_ok :: "v2_handler \<Rightarrow> v2_state \<Rightarrow> bool" where
  "v2_field_ok handler st \<longleftrightarrow>
     (if handler = State_field_huff then \<exists>len. huff_fits len st
      else h_field_state st = 0 \<and>
        (if handler = State_field_raw then length (h_field st) + h_field_rest st < h_alloc st
         else h_field st = [] \<or> length (h_field st) < h_alloc st))"

definition v2_typed :: "v2_handler \<Rightarrow> v2_state \<Rightarrow> bool" where
  "v2_typed handler st \<longleftrightarrow> v2_field_ok handler st \<and> (\<exists>t. hp_tab (h_hpack st) t)"

fun v2_result_ok :: "v2_result \<Rightarrow> bool" where
  "v2_result_ok (V2_call handler st rest) \<longleftrightarrow> v2_typed handler st"
| "v2_result_ok (V2_return handler st rest) \<longleftrightarrow> v2_typed handler st"
| "v2_result_ok (V2_save handler st buf) \<longleftrightarrow> v2_typed handler st \<and> length buf \<le> 16"
| "v2_result_ok (V2_connection_error e) \<longleftrightarrow> e \<noteq> NGX_HTTP_V2_INTERNAL_ERROR"

text \<open>Fields of the state that do not matter to it.\<close>

definition same_field :: "v2_state \<Rightarrow> v2_state \<Rightarrow> bool" where
  "same_field st st' \<longleftrightarrow> h_hpack st' = h_hpack st \<and> h_field st' = h_field st \<and> h_alloc st' = h_alloc st
     \<and> h_field_rest st' = h_field_rest st \<and> h_field_state st' = h_field_state st"

lemma typed_same: "\<lbrakk>v2_typed handler st; same_field st st'\<rbrakk> \<Longrightarrow> v2_typed handler st'"
  by (auto simp: v2_typed_def v2_field_ok_def huff_fits_def same_field_def)

lemma continuation_typed:
  assumes "v2_typed handler st" "h_length st < 4"
  shows "v2_result_ok (ngx_http_v2_handle_continuation st rest handler)"
proof -
  obtain st' buf where pad: "continuation_pad st rest = (st', buf)" by fastforce
  then have "same_field st st'" "h_length st' = h_length st"
    by (auto simp: continuation_pad_def same_field_def Let_def split: if_splits)
  with assms typed_same have st': "v2_typed handler st'" "h_length st' < 4" by auto
  have head: "same_field st' (st'\<lparr>h_flags := f, h_length := l, h_stream := r\<rparr>)" for f l r by (simp add: same_field_def)
  from st' typed_same [OF st'(1) head] show ?thesis
    by (auto simp: ngx_http_v2_handle_continuation_def pad ngx_http_v2_state_save_def continuation_head_def Let_def)
qed

lemma plain_typed:
  "\<lbrakk>h_field_state st = 0; h_field st = [] \<or> length (h_field st) < h_alloc st; hp_tab (h_hpack st) t;
    handler \<noteq> State_field_huff; handler \<noteq> State_field_raw\<rbrakk> \<Longrightarrow> v2_typed handler st"
  by (auto simp: v2_typed_def v2_field_ok_def)

lemma typed_plain:
  assumes "v2_typed handler st" "handler \<noteq> State_field_huff"
  shows "h_field_state st = 0" "h_field st = [] \<or> length (h_field st) < h_alloc st"
    "\<exists>t. hp_tab (h_hpack st) t"
  using assms by (auto simp: v2_typed_def v2_field_ok_def split: if_splits)

lemma typed_move:
  assumes "v2_typed handler st" "handler \<noteq> State_field_huff" "same_field st st'"
    "handler' \<noteq> State_field_huff" "handler' \<noteq> State_field_raw"
  shows "v2_typed handler' st'"
proof -
  note st = typed_plain [OF assms(1, 2)]
  from st(3) obtain t where "hp_tab (h_hpack st) t" by blast
  with st(1, 2) assms(3-5) plain_typed [of st' t handler'] show ?thesis by (auto simp: same_field_def)
qed

section \<open>The handlers keep it\<close>

lemma header_complete_typed:
  assumes "v2_typed State_header_complete st"
  shows "v2_result_ok (ngx_http_v2_state_header_complete cf st rest)"
proof (cases "h_length st \<noteq> 0 \<or> \<not> end_headers st")
  case True
  with continuation_typed [OF assms, of rest] typed_move [OF assms _ _, of st State_header_block]
  show ?thesis by (auto simp: ngx_http_v2_state_header_complete_def same_field_def)
next
  case False
  define st1 where "st1 = (case h_stream st of None \<Rightarrow> st | Some r \<Rightarrow> v2_event_add (Ev_run (ngx_http_v2_run_request (vc_http cf) r)) st)"
  have "same_field st st1" by (simp add: st1_def same_field_def v2_event_add_def split: option.split)
  with typed_same assms have st1: "v2_typed State_header_complete st1" by blast
  have "v2_typed State_skip (st1\<lparr>h_length := l, h_padding := 0\<rparr>)" "v2_typed State_head (st1\<lparr>h_stream := None\<rparr>)" for l
    by (rule typed_move [OF st1]; simp add: same_field_def)+
  with False show ?thesis
    by (simp add: ngx_http_v2_state_header_complete_def ngx_http_v2_state_skip_padded_def ngx_http_v2_state_complete_def
        flip: st1_def)
qed

lemma skip_typed:
  assumes "v2_typed State_skip st"
  shows "v2_result_ok (ngx_http_v2_state_skip st rest)"
proof -
  have "v2_typed State_skip (st\<lparr>h_length := l\<rparr>)" "v2_typed State_head (st\<lparr>h_stream := None\<rparr>)" for l
    by (rule typed_move [OF assms]; simp add: same_field_def)+
  then show ?thesis by (simp add: ngx_http_v2_state_skip_def ngx_http_v2_state_complete_def ngx_http_v2_state_save_def)
qed

lemma push_known_found:
  "v2_push_known cf hi (bytes_of ''host'') val \<noteq> None" "v2_push_known cf hi (bytes_of ''cookie'') val \<noteq> None"
  using headers_in_find_key [of "hash_buckets cf"]
  by (simp_all add: v2_push_known_def v2_elt_def Let_def handler_of_def ngx_http_headers_in_def)

lemma process_header_not_internal: "v2_process_header cf r h \<noteq> V2_header_internal"
proof -
  have "ngx_http_v2_parse_authority cf r val \<noteq> V2_ERROR" for r val
    using push_known_found(1) unfolding ngx_http_v2_parse_authority_def by (auto split: option.split sum.split)
  moreover have "ngx_http_v2_parse_path cf r val \<noteq> V2_ERROR" "ngx_http_v2_parse_method r val \<noteq> V2_ERROR"
    "ngx_http_v2_parse_scheme r val \<noteq> V2_ERROR" for r val
    by (auto simp: ngx_http_v2_parse_path_def ngx_http_v2_parse_method_def ngx_http_v2_parse_scheme_def Let_def
        split: option.split)
  ultimately have "ngx_http_v2_pseudo_header cf r h \<noteq> V2_ERROR" for r
    unfolding ngx_http_v2_pseudo_header_def Let_def by simp
  then have pseudo: "v2_header_pseudo cf r h \<noteq> V2_header_internal" for r
    by (auto simp: v2_header_pseudo_def split: v2_rc.split)
  show ?thesis
    unfolding v2_process_header_def using pseudo by (auto split: option.split sum.split)
qed

lemma header_request_typed:
  assumes "v2_typed State_header_complete st"
  shows "v2_result_ok (v2_header_request cf st rest)"
proof -
  have move: "v2_typed State_header_complete (st\<lparr>h_stream := r\<rparr>)" "v2_typed State_header_complete (v2_event_add e (st\<lparr>h_stream := r\<rparr>))"
    for r e
    by (rule typed_move [OF assms]; simp add: same_field_def v2_event_add_def)+
  show ?thesis
    using assms move process_header_not_internal [of "vc_http cf"]
    by (auto simp: v2_header_request_def split: option.split v2_header_rc.split)
qed

lemma process_header_typed:
  assumes "v2_typed State_process_header st"
  shows "v2_result_ok (ngx_http_v2_state_process_header cf st rest)"
proof (cases "h_parse_name st")
  case True
  have "v2_typed State_field_len (st\<lparr>h_parse_name := False, h_header := h\<rparr>)" for h
    by (rule typed_move [OF assms]; simp add: same_field_def)
  with True show ?thesis by (simp add: ngx_http_v2_state_process_header_def)
next
  case False
  define st1 where "st1 = (if h_parse_value st then st\<lparr>h_parse_value := False, h_header := (fst (h_header st), h_field st)\<rparr> else st)"
  define len where "len = length (fst (h_header st1)) + length (snd (h_header st1))"
  define st2 where "st2 = st1\<lparr>h_header_limit := h_header_limit st1 - len\<rparr>"
  have st2: "v2_typed State_header_complete st2"
    by (rule typed_move [OF assms]; simp add: same_field_def st2_def st1_def)
  from typed_plain [OF st2] obtain t where t: "hp_tab (h_hpack st2) t" by blast
  obtain st3 where st3: "v2_header_indexed st2 = Some st3" "v2_typed State_header_complete st3"
  proof (cases "h_index st2")
    case True
    from hp_tab_add [OF t] obtain h where h: "ngx_http_v2_add_header (h_hpack st2) (h_header st2) = Some h"
      "hp_tab h (tab_add t (h_header st2))" by blast
    with True have "v2_header_indexed st2 = Some (st2\<lparr>h_hpack := h, h_index := False\<rparr>)" by (simp add: v2_header_indexed_def)
    moreover have "v2_typed State_header_complete (st2\<lparr>h_hpack := h, h_index := False\<rparr>)"
      using typed_plain [OF st2] h(2) by (intro plain_typed) simp_all
    ultimately show thesis by (rule that)
  next
    case False
    with st2 that show thesis by (simp add: v2_header_indexed_def)
  qed
  have run: "ngx_http_v2_state_process_header cf st rest =
    (if len > h_header_limit st1 then V2_connection_error NGX_HTTP_V2_ENHANCE_YOUR_CALM else v2_header_request cf st3 rest)"
    using False st3(1) by (simp add: ngx_http_v2_state_process_header_def Let_def flip: st1_def len_def st2_def)
  show ?thesis unfolding run using header_request_typed [OF st3(2)] by simp
qed

text \<open>The strings.\<close>

lemma field_next_typed:
  assumes "h_field_rest st = 0 \<Longrightarrow> v2_typed State_process_header st"
    "h_field_rest st \<noteq> 0 \<Longrightarrow> v2_typed handler st"
    "h_field_rest st \<noteq> 0 \<Longrightarrow> h_length st \<noteq> 0 \<Longrightarrow> rest = []"
  shows "v2_result_ok (field_next handler st rest)"
  using assms continuation_typed [of handler st rest]
  by (simp add: field_next_def ngx_http_v2_state_save_def)

lemma field_size_left:
  assumes "h_field_rest st - field_size st rest \<noteq> 0" "h_length st - field_size st rest \<noteq> 0"
  shows "drop (field_size st rest) rest = []"
  using assms by (auto simp: field_size_def)

lemma huff_decode_fits:
  assumes "ngx_http_v2_huff_decode fs src fin = Some (fs', dst)"
  shows "5 * length dst + huff_len (unat fs') \<le> huff_len (unat fs) + 8 * length src" "fin \<Longrightarrow> fs' = 0"
proof -
  obtain s where run: "huff_run (unat fs) (bytes_bits src) = Some (s, dst)"
    and fs': "fs' = (if fin then 0 else of_nat s)"
    using assms unfolding huff_decode_run by (auto split: option.splits if_splits)
  have bits: "s < 256" "huff_pfx (unat fs) @ bytes_bits src = huff_codes dst @ huff_pfx s"
    using huff_run_bits [OF run] unat_byte_less by simp_all
  have "huff_len (unat fs) + 8 * length src = length (huff_codes dst) + huff_len s"
    using arg_cong [OF bits(2), of length] by (simp add: huff_pfx_def huff_bits_length bytes_bits_length)
  moreover have "huff_len 0 = 0" by (simp add: huff_len_def huff_node_at)
  ultimately show "5 * length dst + huff_len (unat fs') \<le> huff_len (unat fs) + 8 * length src"
    using huff_codes_length [of dst] bits(1) by (simp add: fs' unat_of_nat_lt)
  show "fin \<Longrightarrow> fs' = 0" by (simp add: fs')
qed

lemma field_huff_typed:
  assumes "v2_typed State_field_huff st"
  shows "v2_result_ok (ngx_http_v2_state_field_huff st rest)"
proof -
  obtain len t where fits: "huff_fits len st" and t: "hp_tab (h_hpack st) t"
    using assms by (auto simp: v2_typed_def v2_field_ok_def)
  define n where "n = field_size st rest"
  have n: "n \<le> h_field_rest st" "n \<le> length rest" by (simp_all add: n_def field_size_def)
  show ?thesis
  proof (cases "ngx_http_v2_huff_decode (h_field_state st) (take n rest) (h_field_rest st - n = 0)")
    case (Some r)
    then obtain fs dst where r: "ngx_http_v2_huff_decode (h_field_state st) (take n rest) (h_field_rest st - n = 0) = Some (fs, dst)"
      by (cases r) auto
    define st1 where "st1 = st\<lparr>h_length := h_length st - n, h_field_rest := h_field_rest st - n, h_field_state := fs,
      h_field := h_field st @ dst\<rparr>"
    have fits1: "huff_fits len st1"
      using huff_decode_fits(1) [OF r] fits n by (auto simp: huff_fits_def st1_def)
    have "v2_result_ok (field_next State_field_huff st1 (drop n rest))"
    proof (rule field_next_typed)
      assume "h_field_rest st1 = 0"
      then have "fs = 0" using huff_decode_fits(2) [OF r] by (simp add: st1_def)
      moreover have "length (h_field st1) < h_alloc st1" using fits1 by (auto simp: huff_fits_def)
      ultimately show "v2_typed State_process_header st1"
        using t by (intro plain_typed [of _ t]) (auto simp: st1_def)
    next
      show "v2_typed State_field_huff st1"
        using fits1 t by (auto simp: v2_typed_def v2_field_ok_def) (simp add: st1_def, blast)
    next
      show "drop n rest = []" if "h_field_rest st1 \<noteq> 0" "h_length st1 \<noteq> 0"
        using that unfolding n_def by (intro field_size_left [of st]) (simp_all add: st1_def n_def)
    qed
    then show ?thesis using r by (simp add: ngx_http_v2_state_field_huff_def Let_def st1_def flip: n_def)
  qed (simp add: ngx_http_v2_state_field_huff_def Let_def flip: n_def)
qed

lemma field_raw_typed:
  assumes "v2_typed State_field_raw st"
  shows "v2_result_ok (ngx_http_v2_state_field_raw st rest)"
proof -
  obtain t where t: "hp_tab (h_hpack st) t" and raw: "h_field_state st = 0" "length (h_field st) + h_field_rest st < h_alloc st"
    using assms by (auto simp: v2_typed_def v2_field_ok_def)
  define n where "n = field_size st rest"
  have n: "n \<le> h_field_rest st" "n \<le> length rest" by (simp_all add: n_def field_size_def)
  define st1 where "st1 = st\<lparr>h_length := h_length st - n, h_field_rest := h_field_rest st - n, h_field := h_field st @ take n rest\<rparr>"
  have "v2_result_ok (field_next State_field_raw st1 (drop n rest))"
  proof (rule field_next_typed)
    show "v2_typed State_process_header st1"
      using raw t n by (intro plain_typed [of _ t]) (auto simp: st1_def)
    show "v2_typed State_field_raw st1"
      using raw t n by (auto simp: st1_def v2_typed_def v2_field_ok_def)
    show "drop n rest = []" if "h_field_rest st1 \<noteq> 0" "h_length st1 \<noteq> 0"
      using that unfolding n_def by (intro field_size_left [of st]) (simp_all add: st1_def n_def)
  qed
  then show ?thesis by (simp add: ngx_http_v2_state_field_raw_def Let_def st1_def flip: n_def)
qed

lemma field_skip_typed:
  assumes "v2_typed State_field_skip st"
  shows "v2_result_ok (ngx_http_v2_state_field_skip st rest)"
proof -
  define n where "n = field_size st rest"
  define st1 where "st1 = st\<lparr>h_length := h_length st - n, h_field_rest := h_field_rest st - n\<rparr>"
  from typed_plain [OF assms] obtain t where st: "h_field_state st = 0" "h_field st = [] \<or> length (h_field st) < h_alloc st"
    "hp_tab (h_hpack st) t" by auto
  have "v2_result_ok (field_next State_field_skip st1 (drop n rest))"
  proof (rule field_next_typed)
    show "v2_typed State_process_header st1" "v2_typed State_field_skip st1"
      using st by (auto simp: st1_def intro!: plain_typed [of _ t])
    show "drop n rest = []" if "h_field_rest st1 \<noteq> 0" "h_length st1 \<noteq> 0"
      using that unfolding n_def by (intro field_size_left [of st]) (simp_all add: st1_def n_def)
  qed
  then show ?thesis by (simp add: ngx_http_v2_state_field_skip_def Let_def st1_def flip: n_def)
qed

lemma field_begin_typed:
  assumes "v2_typed State_field_len st"
  shows "v2_result_ok (field_begin cf huff len st rest)"
proof -
  from typed_plain [OF assms] obtain t where st: "h_field_state st = 0" "h_field st = [] \<or> length (h_field st) < h_alloc st"
    "hp_tab (h_hpack st) t" by auto
  have "v2_typed State_field_skip (st\<lparr>h_field_rest := len\<rparr>)" using st by (intro plain_typed [of _ t]) auto
  moreover have "huff_fits len (st\<lparr>h_field_rest := len, h_alloc := len * 8 div 5 + 1, h_field := []\<rparr>)"
    using st(1) by (simp add: huff_fits_def huff_len_def huff_node_at)
  then have "v2_typed State_field_huff (st\<lparr>h_field_rest := len, h_alloc := len * 8 div 5 + 1, h_field := []\<rparr>)"
    using st(3) by (auto simp: v2_typed_def v2_field_ok_def)
  moreover have "v2_typed State_field_raw (st\<lparr>h_field_rest := len, h_alloc := len + 1, h_field := []\<rparr>)"
    using st by (auto simp: v2_typed_def v2_field_ok_def)
  ultimately show ?thesis by (simp add: field_begin_def Let_def)
qed

lemma field_len_typed:
  assumes "v2_typed State_field_len st"
  shows "v2_result_ok (ngx_http_v2_state_field_len cf st rest)"
proof -
  have "v2_typed State_field_len (st\<lparr>h_length := l\<rparr>)" for l
    by (rule typed_move [OF assms]; simp add: same_field_def)
  then have string: "v2_result_ok (field_begin cf huff len (st\<lparr>h_length := l\<rparr>) rest')" for huff len l rest'
    by (rule field_begin_typed)
  have save: "v2_result_ok (ngx_http_v2_state_save st rest State_field_len)"
    if "ngx_http_v2_parse_int (h_length st) rest bits = V2_int_again" "rest \<noteq> []" for bits
    using parse_int_again_short [OF that] assms by (simp add: ngx_http_v2_state_save_def)
  show ?thesis
    using continuation_typed [OF assms, of rest] string save assms
    by (auto simp: ngx_http_v2_state_field_len_def ngx_http_v2_state_save_def [of st "[]"] split: v2_int.split)
qed

lemma header_first_typed:
  assumes "v2_typed State_header_block st"
  shows "v2_result_ok (header_first repr val st rest)"
proof -
  have move: "v2_typed State_process_header (st\<lparr>h_header := h\<rparr>)" "v2_typed State_field_len (st\<lparr>h_parse_name := a, h_parse_value := b\<rparr>)"
    "v2_typed State_field_len (st\<lparr>h_header := h, h_parse_value := b\<rparr>)" for h a b
    by (rule typed_move [OF assms]; simp add: same_field_def)+
  have size: "v2_typed State_header_complete (st\<lparr>h_hpack := h\<rparr>)" if "ngx_http_v2_table_size (h_hpack st) m = Some h" for h m
  proof -
    from typed_plain [OF assms] obtain t where st: "h_field_state st = 0" "h_field st = [] \<or> length (h_field st) < h_alloc st"
      "hp_tab (h_hpack st) t" by auto
    from hp_tab_size [OF st(3) table_size_limit [OF that]] that have "hp_tab h (tab_size t m)" by auto
    with st(1, 2) show ?thesis by (intro plain_typed) auto
  qed
  show ?thesis using move size by (auto simp: header_first_def split: option.split)
qed

lemma header_block_typed:
  assumes "v2_typed State_header_block st"
  shows "v2_result_ok (ngx_http_v2_state_header_block st rest)"
proof -
  have int: "v2_result_ok (header_int repr bits st' rest)" if "rest \<noteq> []" "same_field st st'" for repr bits st'
  proof -
    have move: "v2_typed State_header_block st'" "v2_typed State_header_block (st'\<lparr>h_length := l\<rparr>)" for l
      by (rule typed_move [OF assms]; use that(2) in \<open>simp add: same_field_def\<close>)+
    show ?thesis
      using header_first_typed [OF move(2)] move(1) parse_int_again_short [OF _ that(1)]
      by (auto simp: header_int_def ngx_http_v2_state_save_def split: v2_int.split dest: less_imp_le)
  qed
  show ?thesis
    using continuation_typed [OF assms, of rest] int assms
    by (auto simp: ngx_http_v2_state_header_block_def ngx_http_v2_state_save_def [of st "[]"] same_field_def split: prod.split)
qed

lemma v2_handle_typed:
  assumes "v2_typed handler st"
  shows "v2_result_ok (v2_handle cf handler st rest)"
  using assms skip_typed header_block_typed field_len_typed field_huff_typed field_raw_typed field_skip_typed process_header_typed
    header_complete_typed
  by (cases handler) (simp_all add: v2_handle_def)

lemma v2_loop_typed:
  assumes "v2_typed handler st"
  shows "case v2_loop cf handler st rest of
     None \<Rightarrow> False
   | Some (V2_failed e) \<Rightarrow> e \<noteq> NGX_HTTP_V2_INTERNAL_ERROR
   | Some (V2_more handler' st' buf) \<Rightarrow> v2_typed handler' st' \<and> length buf \<le> 16
   | Some (V2_frame st' rest') \<Rightarrow> v2_typed State_head st'"
  using assms
proof (induction "v2_left handler rest" arbitrary: handler st rest rule: less_induct)
  case less
  note shrinks = v2_handle_shrinks [of handler rest cf st] and ok = v2_handle_typed [OF less.prems, of cf rest]
  note loop = v2_loop.simps [of cf handler st rest]
  show ?case
  proof (cases "v2_handle cf handler st rest")
    case (V2_call handler' st' rest')
    with shrinks ok less.hyps [of handler' rest' st'] show ?thesis by (simp add: loop)
  next
    case (V2_return handler' st' rest')
    with shrinks ok less.hyps [of handler' rest' st'] show ?thesis by (auto simp: loop)
  qed (use ok in \<open>simp_all add: loop\<close>)
qed

text \<open>
  C29. A well-formed state (the string that is read fits the buffer that was allocated for it, with its NUL, in raw and in
  coded form; the decoder of codes is reset between strings; the table is as its operations leave it) stays so in
  every call of a handler, whatever the bytes; what is saved for the next packet fits the 16 bytes of the
  state buffer; and no input leads to an internal error.
\<close>

theorem ngx_http_v2_header_block_typed:
  assumes "v2_typed handler st"
  shows "case v2_handle cf handler st rest of
     V2_call handler' st' rest' \<Rightarrow> v2_typed handler' st'
   | V2_return handler' st' rest' \<Rightarrow> v2_typed handler' st'
   | V2_save handler' st' buf \<Rightarrow> v2_typed handler' st' \<and> length buf \<le> 16
   | V2_connection_error e \<Rightarrow> e \<noteq> NGX_HTTP_V2_INTERNAL_ERROR"
  using v2_handle_typed [OF assms, of cf rest] by (cases "v2_handle cf handler st rest") simp_all

theorem ngx_http_v2_header_block_typed_witness:
  "v2_typed State_field_raw ((ex_v2_state 1)\<lparr>h_alloc := 3, h_field := [0x61], h_field_rest := 1\<rparr>)"
proof -
  define st where "st = (ex_v2_state 2)\<lparr>h_alloc := 3, h_field_rest := 2\<rparr>"
  have "v2_typed State_field_raw st"
    using hp_tab_zero by (auto simp: st_def ex_v2_state_def v2_typed_def v2_field_ok_def)
  moreover have "v2_handle ex_v2_cf State_field_raw st [0x61] =
      V2_save State_field_raw ((ex_v2_state 1)\<lparr>h_alloc := 3, h_field := [0x61], h_field_rest := 1\<rparr>) []"
    by (simp add: v2_handle_def ngx_http_v2_state_field_raw_def field_size_def field_next_def ngx_http_v2_state_save_def
        st_def ex_v2_state_def)
  ultimately show ?thesis using ngx_http_v2_header_block_typed [of State_field_raw st ex_v2_cf "[0x61]"] by simp
qed

section \<open>Two findings\<close>

text \<open>
  A string of a refused stream that is not inserted into the table is skipped, but \<open>field_start\<close> and \<open>field_end\<close>
  stay at the last string that was kept: its length is counted for every string skipped. A header without any
  byte then exceeds the limit, which ends the connection.
\<close>

lemma ngx_http_v2_field_skip_stale:
  assumes "length s = 4096"
  shows "v2_loop ex_v2_cf State_header_block ((ex_v2_state 3)\<lparr>h_field := s, h_header_limit := 8191\<rparr>) [0, 0, 0]
    = Some (V2_failed NGX_HTTP_V2_ENHANCE_YOUR_CALM)"
  using assms
  by (simp add: v2_loop.simps v2_handle_def ngx_http_v2_state_header_block_def ngx_http_v2_state_field_len_def end_headers_def
      ex_v2_state_def v2_first_def header_int_def header_first_def ngx_http_v2_parse_int_def ngx_http_v2_prefix_def field_begin_def
      ngx_http_v2_state_field_skip_def field_size_def field_next_def ngx_http_v2_state_process_header_def ex_v2_cf_def)

text \<open>
  A request whose header block ends with an empty CONTINUATION frame is not run when this frame is complete: the
  handler that would run it is kept, and is called with the next bytes of the client, if there are any.
\<close>

lemma ngx_http_v2_empty_continuation:
  "v2_loop cf State_header_complete ((ex_v2_state 0)\<lparr>h_flags := 0, h_stream := Some r\<rparr>) [0, 0, 0, 9, 4, 0, 0, 0, 1]
    = Some (V2_more State_header_complete ((ex_v2_state 0)\<lparr>h_flags := 4, h_stream := Some r\<rparr>) [])"
  by (simp add: v2_loop.simps v2_handle_def ngx_http_v2_state_header_complete_def end_headers_def ex_v2_state_def
      ngx_http_v2_handle_continuation_def continuation_pad_def continuation_head_def ngx_http_v2_parse_uint32_def
      ngx_http_v2_parse_type_def ngx_http_v2_parse_sid_def ngx_http_v2_parse_length_def Let_def)

end
