(* ===== verification/V2_Huff_Encode.thy ===== *)
theory V2_Huff_Encode
  imports V2_Huff_Decode Ngx_Strings
begin

text \<open>
  The Huffman encoder of src/http/v2/ngx_http_v2_huff_encode.c: the bits it packs, and the round trip through
  the decoder.
\<close>


section \<open>The encoder\<close>

text \<open>A word that holds a list of bits at its high end, and zeroes below.\<close>

definition packed :: "u64 \<Rightarrow> bool list \<Rightarrow> bool" where
  "packed buf bs \<longleftrightarrow> length bs \<le> 64 \<and> (\<forall>k < 64. bit buf k \<longleftrightarrow> 63 - k < length bs \<and> bs ! (63 - k))"

lemma packed_nil: "packed 0 []"
  by (simp add: packed_def)

lemma huff_bits_nth: "i < l \<Longrightarrow> huff_bits v l ! i \<longleftrightarrow> bit v (l - 1 - i)"
  by (simp add: huff_bits_def rev_nth)

lemma bit_code: "bit (ucast (v :: u32) :: u64) k \<longleftrightarrow> bit (unat v) k"
proof -
  have "bit v k \<Longrightarrow> k < 32" using bit_imp_le_length [of v k] by simp
  then show ?thesis by (auto simp: bit_unsigned_iff)
qed

lemma bit_small: "\<lbrakk>(v :: nat) < 2 ^ l; l \<le> k\<rbrakk> \<Longrightarrow> \<not> bit v k"
  by (metis bit_take_bit_iff linorder_not_le take_bit_nat_eq_self)

lemma packed_add:
  assumes "packed buf bs" "length bs + l \<le> 64" "unat v < 2 ^ l"
  shows "packed (buf OR push_bit (64 - (length bs + l)) (ucast (v :: u32))) (bs @ huff_bits (unat v) l)"
  unfolding packed_def
proof (intro conjI allI impI)
  show "length (bs @ huff_bits (unat v) l) \<le> 64" using assms(2) by (simp add: huff_bits_length)
  fix k :: nat assume k: "k < 64"
  have buf: "bit buf k \<longleftrightarrow> 63 - k < length bs \<and> bs ! (63 - k)" using assms(1) k by (simp add: packed_def)
  have code: "bit (push_bit (64 - (length bs + l)) (ucast v :: u64)) k
      \<longleftrightarrow> 64 - (length bs + l) \<le> k \<and> bit (unat v) (k - (64 - (length bs + l)))"
    using k by (simp add: bit_push_bit_iff bit_code)
  consider "63 - k < length bs" | "length bs \<le> 63 - k" "63 - k < length bs + l" | "length bs + l \<le> 63 - k" by linarith
  then show "bit (buf OR push_bit (64 - (length bs + l)) (ucast v)) k
      \<longleftrightarrow> 63 - k < length (bs @ huff_bits (unat v) l) \<and> (bs @ huff_bits (unat v) l) ! (63 - k)"
  proof cases
    case 1
    then have "l \<le> k - (64 - (length bs + l))" using k assms(2) by linarith
    from bit_small [OF assms(3) this] 1 show ?thesis
      by (simp add: bit_or_iff buf code nth_append huff_bits_length)
  next
    case 2
    have "l - 1 - (63 - k - length bs) = k - (64 - (length bs + l))" using 2 k assms(2) by linarith
    moreover have "63 - k - length bs < l" "64 - (length bs + l) \<le> k" using 2 k by linarith+
    ultimately show ?thesis using 2
      by (simp add: bit_or_iff buf code nth_append huff_bits_length huff_bits_nth)
  next
    case 3
    then have "\<not> 64 - (length bs + l) \<le> k" using k by linarith
    with 3 show ?thesis by (simp add: bit_or_iff buf code huff_bits_length)
  qed
qed

lemma packed_full:
  assumes "packed buf bs" "length bs + l = 64 + r" "r \<le> l" "unat v < 2 ^ l"
  shows "packed (buf OR drop_bit r (ucast (v :: u32))) (bs @ take (l - r) (huff_bits (unat v) l))"
  unfolding packed_def
proof (intro conjI allI impI)
  show "length (bs @ take (l - r) (huff_bits (unat v) l)) \<le> 64"
    using assms(2, 3) by (simp add: huff_bits_length)
  fix k :: nat assume k: "k < 64"
  have buf: "bit buf k \<longleftrightarrow> 63 - k < length bs \<and> bs ! (63 - k)" using assms(1) k by (simp add: packed_def)
  have code: "bit (drop_bit r (ucast v :: u64)) k \<longleftrightarrow> bit (unat v) (r + k)"
    by (simp add: bit_drop_bit_eq bit_code)
  show "bit (buf OR drop_bit r (ucast v)) k
      \<longleftrightarrow> 63 - k < length (bs @ take (l - r) (huff_bits (unat v) l)) \<and> (bs @ take (l - r) (huff_bits (unat v) l)) ! (63 - k)"
  proof (cases "63 - k < length bs")
    case True
    then have "l \<le> r + k" using k assms(2) by linarith
    from bit_small [OF assms(4) this] True show ?thesis by (simp add: bit_or_iff buf code nth_append)
  next
    case False
    then have "l - 1 - (63 - k - length bs) = r + k" "63 - k - length bs < l - r" "63 - k < length bs + (l - r)"
      using k assms(2, 3) by linarith+
    with False show ?thesis
      by (simp add: bit_or_iff buf code nth_append huff_bits_length huff_bits_nth)
  qed
qed

lemma packed_rest:
  assumes "r \<le> l" "r < 64"
  shows "packed (if r \<noteq> 0 then push_bit (64 - r) (ucast (v :: u32)) else 0) (drop (l - r) (huff_bits (unat v) l))"
proof (cases "r = 0")
  case False
  show ?thesis unfolding packed_def
  proof (intro conjI allI impI)
    show "length (drop (l - r) (huff_bits (unat v) l)) \<le> 64" using assms by (simp add: huff_bits_length)
    fix k :: nat assume k: "k < 64"
    have "bit (push_bit (64 - r) (ucast v :: u64)) k \<longleftrightarrow> 64 - r \<le> k \<and> bit (unat v) (k - (64 - r))"
      using k by (simp add: bit_push_bit_iff bit_code)
    moreover have "63 - k < r \<longleftrightarrow> 64 - r \<le> k" using k assms by linarith
    moreover have "63 - k < r \<Longrightarrow> l - 1 - (l - r + (63 - k)) = k - (64 - r) \<and> l - r + (63 - k) < l"
      using k assms by linarith
    ultimately show "bit (if r \<noteq> 0 then push_bit (64 - r) (ucast v :: u64) else 0) k
        \<longleftrightarrow> 63 - k < length (drop (l - r) (huff_bits (unat v) l)) \<and> drop (l - r) (huff_bits (unat v) l) ! (63 - k)"
      using False assms by (auto simp: huff_bits_length huff_bits_nth)
  qed
qed (simp add: packed_def huff_bits_length)

lemma packed_ones:
  assumes "packed buf bs"
  shows "packed (buf OR drop_bit (length bs) (-1)) (bs @ replicate (64 - length bs) True)"
proof -
  from assms have "length bs \<le> 64" by (simp add: packed_def)
  with assms show ?thesis
    by (auto simp: packed_def bit_or_iff bit_drop_bit_eq bit_mask_iff possible_bit_word nth_append)
qed

lemma bytes_bits_tail: "bytes_bits (huff_encode_tail buf k) = map (bit buf) (rev [0..<8 * k])"
proof (induction k)
  case (Suc k)
  have "[0..<8 * Suc k] = [0..<8 * k] @ [8 * k, 8 * k + 1, 8 * k + 2, 8 * k + 3, 8 * k + 4, 8 * k + 5, 8 * k + 6, 8 * k + 7]"
    by (simp add: upt_conv_Cons upt_add_eq_append [of 0 "8 * k" 8, simplified] numeral_eq_Suc)
  moreover have "byte_bits (ucast (drop_bit (8 * k) buf)) = map (bit buf)
      [8 * k + 7, 8 * k + 6, 8 * k + 5, 8 * k + 4, 8 * k + 3, 8 * k + 2, 8 * k + 1, 8 * k]"
    by (simp add: byte_bits_def bit_unsigned_iff bit_drop_bit_eq)
  ultimately show ?case by (simp add: Suc.IH)
qed simp

lemma packed_tail:
  assumes "packed buf bs" "8 * k \<le> length bs"
  shows "bytes_bits (huff_encode_tail (drop_bit (64 - 8 * k) buf) k) = take (8 * k) bs"
proof (rule nth_equalityI)
  show "length (bytes_bits (huff_encode_tail (drop_bit (64 - 8 * k) buf) k)) = length (take (8 * k) bs)"
    using assms(2) by (simp add: bytes_bits_tail)
  fix i assume i: "i < length (bytes_bits (huff_encode_tail (drop_bit (64 - 8 * k) buf) k))"
  have "length bs \<le> 64" using assms(1) by (simp add: packed_def)
  moreover have i8: "i < 8 * k" using i by (simp add: bytes_bits_tail)
  ultimately have "63 - (64 - 8 * k + (8 * k - 1 - i)) = i" "64 - 8 * k + (8 * k - 1 - i) < 64"
    using assms(2) by linarith+
  with assms i8 show "bytes_bits (huff_encode_tail (drop_bit (64 - 8 * k) buf) k) ! i \<longleftrightarrow> take (8 * k) bs ! i"
    by (simp add: bytes_bits_tail rev_nth bit_drop_bit_eq packed_def)
qed

lemma packed_buf: "\<lbrakk>packed buf bs; length bs = 64\<rbrakk> \<Longrightarrow> bytes_bits (ngx_http_v2_huff_encode_buf buf) = bs"
proof -
  have "huff_encode_tail buf 8 = ngx_http_v2_huff_encode_buf buf"
    by (simp add: ngx_http_v2_huff_encode_buf_def numeral_eq_Suc)
  then show "\<lbrakk>packed buf bs; length bs = 64\<rbrakk> \<Longrightarrow> bytes_bits (ngx_http_v2_huff_encode_buf buf) = bs"
    using packed_tail [of buf bs 8] by simp
qed


text \<open>The loop keeps: the bytes written and the bits pending are the codes of what has been read.\<close>

definition huff_tab_ok :: "(u32 \<times> nat) list \<Rightarrow> (u_char \<Rightarrow> bool list) \<Rightarrow> bool" where
  "huff_tab_ok tab f \<longleftrightarrow> (\<forall>c. \<exists>v l. tab ! unat c = (v, l) \<and> f c = huff_bits (unat v) l \<and> unat v < 2 ^ l \<and> l < 64)"

definition huff_loop_ok :: "nat \<Rightarrow> bool list \<Rightarrow> (bytes \<times> u64 \<times> nat) option \<Rightarrow> bool" where
  "huff_loop_ok len all r = (case r of
      None \<Rightarrow> 8 * len \<le> length all
    | Some (dst, buf, pending) \<Rightarrow> \<exists>bs. pending = length bs \<and> pending < 64 \<and> packed buf bs \<and>
        (dst = [] \<or> length dst < len) \<and> bytes_bits dst @ bs = all)"

lemma huff_encode_loop_bits:
  assumes "huff_tab_ok tab f" "packed buf bs" "length bs < 64" "dst = [] \<or> length dst < len"
  shows "huff_loop_ok len (bytes_bits dst @ bs @ concat (map f src)) (huff_encode_loop tab len dst buf (length bs) src)"
  using assms(2-)
proof (induction src arbitrary: dst buf bs)
  case (Cons c src)
  obtain v l where c: "tab ! unat c = (v, l)" "f c = huff_bits (unat v) l" "unat v < 2 ^ l" "l < 64"
    using assms(1) unfolding huff_tab_ok_def by blast
  show ?case
  proof (cases "length bs + l < 64")
    case True
    have "length (bs @ f c) = length bs + l" by (simp add: c(2) huff_bits_length)
    with Cons.IH [of "buf OR push_bit (64 - (length bs + l)) (ucast v)" "bs @ f c" dst]
      packed_add [OF Cons.prems(1) _ c(3)] True Cons.prems(3) c(1, 2) show ?thesis by (simp add: Let_def)
  next
    case False
    let ?r = "length bs + l - 64"
    let ?full = "bs @ take (l - ?r) (f c)" and ?rest = "drop (l - ?r) (f c)"
    have lens: "length bs + l = 64 + ?r" "?r \<le> l" "?r < 64" using False Cons.prems(2) c(4) by linarith+
    have len: "length ?full = 64" "length ?rest = ?r"
      using lens by (simp_all add: c(2) huff_bits_length)
    show ?thesis
    proof (cases "length dst + 8 \<ge> len")
      case True
      with False show ?thesis by (simp add: c huff_loop_ok_def bytes_bits_length huff_bits_length)
    next
      case short: False
      let ?dst = "dst @ ngx_http_v2_huff_encode_buf (buf OR drop_bit ?r (ucast v))"
      have dst: "bytes_bits ?dst = bytes_bits dst @ ?full"
        using packed_buf [OF packed_full [OF Cons.prems(1) lens(1, 2) c(3)]] len(1) by (simp add: c(2))
      have all: "bytes_bits ?dst @ ?rest @ concat (map f src) = bytes_bits dst @ bs @ concat (map f (c # src))"
        unfolding dst by simp
      have "length ?dst < len" using short by (simp add: ngx_http_v2_huff_encode_buf_def)
      with Cons.IH [OF packed_rest [OF lens(2, 3), of v, folded c(2)], of ?dst, unfolded all len(2)] lens(3) False short c(1)
      show ?thesis by (cases "length bs + l = 64") (simp_all add: Let_def)
    qed
  qed
qed (simp add: huff_loop_ok_def)

lemma huff_tab_ok_table: "huff_tab_ok ngx_http_v2_huff_encode_table huff_code_bits"
proof -
  have "list_all (\<lambda>c. case huff_enc c of (v, l) \<Rightarrow> unat v < 2 ^ l \<and> l < 64) all_bytes"
    unfolding all_bytes_list by (simp add: huff_enc_at)
  moreover have "c \<in> set all_bytes" for c by (rule all_bytes_set)
  ultimately show ?thesis
    by (force simp: list_all_iff huff_tab_ok_def huff_code_bits_def huff_enc_def split: prod.splits)
qed

definition huff_enc_lc :: "u_char \<Rightarrow> u32 \<times> nat" where
  "huff_enc_lc c = ngx_http_v2_huff_encode_table_lc ! unat c"

lemma huff_enc_lc_rows: "map huff_enc_lc all_bytes = ngx_http_v2_huff_encode_table_lc"
  unfolding huff_enc_lc_def by (rule table_rows) (simp add: ngx_http_v2_huff_encode_table_lc_def)

lemmas huff_enc_lc_at = huff_enc_lc_rows [unfolded all_bytes_list ngx_http_v2_huff_encode_table_lc_def list.map list.inject]

lemma huff_enc_lc_tolower: "huff_enc_lc c = huff_enc (ngx_tolower c)"
proof -
  have "list_all (\<lambda>c. huff_enc_lc c = huff_enc (ngx_tolower c)) all_bytes"
    unfolding all_bytes_list by (simp add: ngx_tolower_def word_le_nat_alt huff_enc_at huff_enc_lc_at)
  then show ?thesis using all_bytes_set [of c] by (auto simp: list_all_iff)
qed

lemma huff_tab_ok_lc: "huff_tab_ok ngx_http_v2_huff_encode_table_lc (\<lambda>c. huff_code_bits (ngx_tolower c))"
  using huff_tab_ok_table huff_enc_lc_tolower unfolding huff_tab_ok_def huff_enc_def huff_enc_lc_def by metis

definition huff_source :: "bytes \<Rightarrow> bool \<Rightarrow> bytes" where
  "huff_source src lower = (if lower then map ngx_tolower src else src)"


lemma huff_tail_bits:
  assumes "packed buf bs" "length bs < 64"
  defines "k \<equiv> (length bs + 7) div 8"
  shows "bytes_bits (huff_encode_tail (drop_bit (64 - 8 * k) (buf OR drop_bit (length bs) (-1))) k)
    = bs @ replicate (8 * k - length bs) True"
proof -
  have k: "length bs \<le> 8 * k" "8 * k \<le> 64" using assms(2) unfolding k_def by presburger+
  have "bytes_bits (huff_encode_tail (drop_bit (64 - 8 * k) (buf OR drop_bit (length bs) (-1))) k)
      = take (8 * k) (bs @ replicate (64 - length bs) True)"
    by (rule packed_tail [OF packed_ones [OF assms(1)]]) (use assms k in simp)
  also have "\<dots> = bs @ replicate (8 * k - length bs) True" using k by (simp add: min_def)
  finally show ?thesis .
qed

lemma ngx_http_v2_huff_encode_bits:
  "let codes = huff_codes (huff_source src lower);
       n = (length codes + 7) div 8;
       out = ngx_http_v2_huff_encode src lower
   in if n < length src then bytes_bits out = codes @ replicate (8 * n - length codes) True else out = []"
proof -
  define tab where "tab = (if lower then ngx_http_v2_huff_encode_table_lc else ngx_http_v2_huff_encode_table)"
  define codes where "codes = huff_codes (huff_source src lower)"
  define n where "n = (length codes + 7) div 8"
  have "huff_tab_ok tab (\<lambda>c. huff_code_bits (if lower then ngx_tolower c else c))"
    using huff_tab_ok_table huff_tab_ok_lc by (simp add: tab_def)
  from huff_encode_loop_bits [OF this packed_nil, of "[]" "length src" src]
  have loop: "huff_loop_ok (length src) codes (huff_encode_loop tab (length src) [] 0 0 src)"
    by (cases lower) (simp_all add: codes_def huff_source_def huff_codes_def comp_def)
  have "if n < length src then bytes_bits (ngx_http_v2_huff_encode src lower) = codes @ replicate (8 * n - length codes) True
    else ngx_http_v2_huff_encode src lower = []"
  proof (cases "huff_encode_loop tab (length src) [] 0 0 src")
    case None
    with loop have "length src \<le> n" by (simp add: huff_loop_ok_def n_def)
    with None show ?thesis by (simp add: ngx_http_v2_huff_encode_def flip: tab_def)
  next
    case (Some r)
    obtain dst buf p where r: "r = (dst, buf, p)" by (cases r)
    with Some loop obtain bs where bs: "p = length bs" "length bs < 64" "packed buf bs" "dst = [] \<or> length dst < length src"
      "bytes_bits dst @ bs = codes" by (auto simp: huff_loop_ok_def)
    from arg_cong [OF bs(5), of length] have len: "length codes = 8 * length dst + p"
      by (simp add: bytes_bits_length bs(1))
    show ?thesis
    proof (cases "p = 0")
      case True
      with bs len show ?thesis
        by (auto simp: n_def ngx_http_v2_huff_encode_def Some r simp flip: tab_def)
    next
      case False
      define k where "k = (p + 7) div 8"
      have k: "8 * k div 8 = k" by simp
      have n: "n = length dst + k" unfolding n_def k_def len by simp
      note tail = huff_tail_bits [OF bs(3, 2), folded bs(1), folded k_def]
      have "ngx_http_v2_huff_encode src lower = (if length src \<le> length dst + k then []
          else dst @ huff_encode_tail (drop_bit (64 - 8 * k) (buf OR drop_bit p (-1))) k)"
        using False k by (simp add: ngx_http_v2_huff_encode_def Some r Let_def mult.commute flip: tab_def k_def)
      moreover have "8 * n - length codes = 8 * k - p" unfolding n len by simp
      ultimately show ?thesis using tail by (cases "n < length src") (simp_all add: n flip: bs(5))
    qed
  qed
  then show ?thesis by (simp add: Let_def flip: codes_def n_def)
qed

text \<open>
  C21. The encoder returns the codes of the source, or of its lower case form, with ones up to a whole byte, if
  this is shorter than the source, and nothing otherwise.
\<close>

theorem ngx_http_v2_huff_encode_correct:
  "let codes = huff_codes (huff_source src lower);
       n = (length codes + 7) div 8;
       out = ngx_http_v2_huff_encode src lower
   in if n < length src then bytes_bits out = codes @ replicate (8 * n - length codes) True else out = []"
  by (rule ngx_http_v2_huff_encode_bits)

text \<open>
  A string the encoder has shortened is decoded to itself (in lower case where that was asked for),
  however the bytes are cut into buffers on their way.
\<close>

theorem ngx_http_v2_huff_roundtrip:
  assumes "concat srcs = ngx_http_v2_huff_encode src lower" "concat srcs \<noteq> []" "last srcs \<noteq> []"
  shows "huff_field 0 srcs = Some (0, huff_source src lower)"
proof -
  define codes where "codes = huff_codes (huff_source src lower)"
  define n where "n = (length codes + 7) div 8"
  have bits: "bytes_bits (concat srcs) = codes @ replicate (8 * n - length codes) True"
    using ngx_http_v2_huff_encode_bits [of src lower] assms(1, 2)
    unfolding Let_def codes_def [symmetric] n_def [symmetric] by (auto split: if_splits)
  have "8 * n - length codes < 30" unfolding n_def by presburger
  moreover have "srcs \<noteq> []" using assms(2) by auto
  ultimately show ?thesis
    using huff_field_codes [of srcs 0 "huff_source src lower"] bits assms by (auto simp: codes_def)
qed

lemma huff_encode_aaa: "ngx_http_v2_huff_encode (bytes_of ''aaa'') False \<noteq> []"
proof
  have "length (huff_codes (bytes_of ''aaa'')) = 15"
    by (simp add: huff_code_bits_def huff_enc_at huff_bits_length)
  moreover assume "ngx_http_v2_huff_encode (bytes_of ''aaa'') False = []"
  ultimately show False
    using ngx_http_v2_huff_encode_bits [of "bytes_of ''aaa''" False] by (simp add: huff_source_def Let_def)
qed

theorem ngx_http_v2_huff_roundtrip_witness:
  "huff_field 0 [ngx_http_v2_huff_encode (bytes_of ''aaa'') False] = Some (0, bytes_of ''aaa'')"
  using ngx_http_v2_huff_roundtrip [of "[ngx_http_v2_huff_encode (bytes_of ''aaa'') False]" "bytes_of ''aaa''" False]
    huff_encode_aaa by (simp add: huff_source_def)

end
