(* ===== verification/V2_Request_Props.thy ===== *)
theory V2_Request_Props
  imports V2_Request Http_Request_Uri Http_Request_Headers
begin

text \<open>
  What a request that comes in HTTP/2 is known to be when the rest of the server takes it over: bytes that cannot
  be mistaken for the syntax of HTTP/1, a path without dot segments, the cookies as one header, a body whose
  length is known or that ends with the stream.
\<close>

section \<open>Cookies\<close>

lemma v2_cookies_len_add: "v2_cookies_len n vals = (n + sum_list (map (\<lambda>v. length v + 2) vals)) - 2"
  by (induction vals arbitrary: n) auto

fun cookies_join :: "bytes list \<Rightarrow> bytes" where
  "cookies_join [] = []"
| "cookies_join [v] = v"
| "cookies_join (v # vals) = v @ bytes_of ''; '' @ cookies_join vals"

lemma v2_cookies_copy_join:
  "vals \<noteq> [] \<Longrightarrow> v2_cookies_copy (v2_cookies_len (length buf) vals) buf vals = Some (buf @ cookies_join vals)"
proof (induction vals arbitrary: buf rule: cookies_join.induct)
  case (3 v w vals)
  let ?buf = "buf @ v @ [ch CHR '';'', ch CHR '' '']"
  have len: "v2_cookies_len (length buf) (v # w # vals) = v2_cookies_len (length ?buf) (w # vals)"
    by (simp add: v2_cookies_len_add)
  moreover have "length (buf @ v) < v2_cookies_len (length ?buf) (w # vals)" by (simp add: v2_cookies_len_add)
  moreover have "v2_cookies_copy (v2_cookies_len (length ?buf) (w # vals)) ?buf (w # vals) = Some (?buf @ cookies_join (w # vals))"
    by (rule 3) simp
  ultimately show ?case unfolding v2_cookies_copy.simps(2) [of _ buf v] len by (simp add: Let_def)
qed simp_all

section \<open>Names and values\<close>

definition value_byte :: "u_char \<Rightarrow> bool" where
  "value_byte c \<longleftrightarrow> c \<noteq> 0 \<and> c \<noteq> LF \<and> c \<noteq> CR"

text \<open>Of a name: no control byte of the syntax, no colon and no upper case.\<close>

definition name_byte :: "u_char \<Rightarrow> bool" where
  "name_byte c \<longleftrightarrow> value_byte c \<and> c \<noteq> ch CHR '':'' \<and> ngx_tolower c = c"

definition elt_clean :: "table_elt \<Rightarrow> bool" where
  "elt_clean h \<longleftrightarrow> elt_key h \<noteq> [] \<and> list_all (name_byte) (elt_key h) \<and> elt_lowcase_key h = elt_key h
     \<and> list_all value_byte (elt_value h)"

lemma v2_value_loop_all: "v2_value_loop s \<longleftrightarrow> list_all value_byte s"
  by (induction s) (auto simp: value_byte_def)

lemma name_byte_ok:
  "(c \<ge> ch CHR ''a'' \<and> c \<le> ch CHR ''z'') \<or> c = ch CHR ''-'' \<or> (c \<ge> ch CHR ''0'' \<and> c \<le> ch CHR ''9'') \<or> c = ch CHR ''_''
   \<Longrightarrow> name_byte c"
  "\<lbrakk>\<not> (c = 0 \<or> c = LF \<or> c = CR \<or> c = ch CHR '':''); \<not> (c \<ge> ch CHR ''A'' \<and> c \<le> ch CHR ''Z'')\<rbrakk> \<Longrightarrow> name_byte c"
  by (auto simp: name_byte_def value_byte_def tolower_same) (auto simp: ngx_tolower_def word_le_nat_alt)

lemma v2_name_loop_all: "v2_name_loop us invalid s = Some invalid' \<Longrightarrow> list_all name_byte s"
proof (induction s arbitrary: invalid)
  case (Cons c s)
  show ?case
  proof (cases "name_byte c")
    case True
    with Cons show ?thesis by (auto split: if_splits)
  next
    case False
    with name_byte_ok [of c] have "v2_name_loop us invalid (c # s) = None" by auto
    with Cons.prems show ?thesis by (simp del: v2_name_loop.simps)
  qed
qed simp

lemma validate_header_clean:
  assumes "ngx_http_v2_validate_header cf r h = Some r'"
  shows "\<exists>iv. r' = r\<lparr>vr_invalid_header := iv\<rparr>" "list_all value_byte (snd h)" "fst h \<noteq> []"
    "fst h ! 0 \<noteq> ch CHR '':'' \<Longrightarrow> list_all (name_byte) (fst h)"
  using assms v2_name_loop_all
  by (auto simp: ngx_http_v2_validate_header_def v2_value_loop_all split: option.splits if_splits)

section \<open>The invariant of a request\<close>

definition method_byte :: "u_char \<Rightarrow> bool" where
  "method_byte c \<longleftrightarrow> (c \<ge> ch CHR ''A'' \<and> c \<le> ch CHR ''Z'') \<or> c = ch CHR ''_'' \<or> c = ch CHR ''-''"

definition path_clean :: "bytes \<Rightarrow> bool" where
  "path_clean u \<longleftrightarrow> list_all value_byte u \<and> u ! 0 = ch CHR ''/''"

definition v2_clean :: "v2_request \<Rightarrow> bool" where
  "v2_clean r \<longleftrightarrow> list_all method_byte (vr_method_name r) \<and> (vr_unparsed_uri r = [] \<or> path_clean (vr_unparsed_uri r))
     \<and> list_all (elt_clean) (hi_headers (vr_headers_in r)) \<and> list_all (list_all value_byte) (vr_cookies r)"

lemma v2_clean_init: "v2_clean (v2_request_init len closed)"
  by (simp add: v2_clean_def v2_request_init_def vr_unparsed_uri_def headers_in_init_def)

lemma header_handle_headers: "header_handle cf hh hi h name = Inr hi' \<Longrightarrow> hi_headers hi' = hi_headers hi"
  using ua_frame
  by (cases hh) (auto simp: header_handle_def ngx_http_process_header_line_def ngx_http_process_unique_header_line_def
    ngx_http_process_connection_def ngx_http_process_multi_header_lines_def ngx_http_process_host_def same_framing_def
    ngx_http_process_user_agent_def Let_def split: option.splits if_splits)

lemma header_push_headers: "header_push cf hi h = Inr hi' \<Longrightarrow> hi_headers hi' = hi_headers hi @ [h]"
  by (auto simp: header_push_def Let_def dest: header_handle_headers split: option.splits)

lemma v2_push_known_push: "v2_push_known cf hi key val = Some res \<Longrightarrow> header_push cf hi (v2_elt key val) = res"
  by (auto simp: v2_push_known_def header_push_def v2_elt_def Let_def split: option.splits)

lemma feed_pu_start: "feed pu_step pu_init s = Go p \<Longrightarrow> s = [] \<or> s ! 0 = ch CHR ''/''"
  by (cases s) (auto simp: pu_step_def pu_init_def pu_start_def split: if_splits)

lemma process_request_uri_unparsed:
  "ngx_http_process_request_uri merge s a b c d e f = Some u \<Longrightarrow> ru_unparsed_uri u = s"
  by (auto simp: ngx_http_process_request_uri_def Let_def split: option.splits if_splits)

lemma parse_path_cases:
  assumes "ngx_http_v2_parse_path cf r val = V2_OK r'"
  obtains u where "r' = r\<lparr>vr_uri := Some u\<rparr>" "ru_unparsed_uri u = val" "val \<noteq> []" "val ! 0 = ch CHR ''/''"
  using assms process_request_uri_unparsed feed_pu_start
  by (fastforce simp: ngx_http_v2_parse_path_def ngx_http_parse_uri_def split: if_splits option.splits outcome.splits)

lemma v2_method_find_in: "v2_method_find s tests = Some v \<Longrightarrow> (s, v) \<in> set tests"
  by (induction tests) (auto split: if_splits)

lemma v2_tests_bytes: "list_all (\<lambda>(m, v). list_all method_byte m) v2_tests"
  by (simp add: v2_tests_def method_byte_def word_le_nat_alt)

lemma parse_method_cases:
  assumes "ngx_http_v2_parse_method r val = V2_OK r'"
  obtains v where "r' = r\<lparr>vr_method_name := val, vr_method := v\<rparr>" "list_all method_byte val"
proof (cases "v2_method_find val v2_tests")
  case None
  with assms have "r' = r\<lparr>vr_method_name := val\<rparr>" "list_all method_byte val"
    by (auto simp: ngx_http_v2_parse_method_def Let_def list_all_iff list_ex_iff method_byte_def split: if_splits)
  with that [of "vr_method r"] show thesis by simp
next
  case (Some v)
  then have "list_all method_byte val" using v2_method_find_in v2_tests_bytes by (fastforce simp: list_all_iff)
  with Some assms that [of v] show thesis by (auto simp: ngx_http_v2_parse_method_def Let_def split: if_splits)
qed

text \<open>A pseudo-header sets one member, or adds a header "host".\<close>

lemma pseudo_header_cases:
  assumes "ngx_http_v2_pseudo_header cf r h = V2_OK r'"
  obtains
    (path) u where "r' = r\<lparr>vr_uri := Some u\<rparr>" "ru_unparsed_uri u = snd h" "snd h \<noteq> []" "snd h ! 0 = ch CHR ''/''"
      "ngx_http_v2_parse_path cf r (snd h) = V2_OK r'" "drop 1 (fst h) \<noteq> bytes_of ''authority''"
  | (meth) v where "r' = r\<lparr>vr_method_name := snd h, vr_method := v\<rparr>" "list_all method_byte (snd h)"
      "drop 1 (fst h) \<noteq> bytes_of ''authority''"
  | (scheme) "r' = r\<lparr>vr_schema := Some (snd h)\<rparr>" "drop 1 (fst h) \<noteq> bytes_of ''authority''"
  | (authority) hi where "r' = r\<lparr>vr_headers_in := hi\<rparr>" "drop 1 (fst h) = bytes_of ''authority''"
      "header_push cf (vr_headers_in r) (v2_elt (bytes_of ''host'') (snd h)) = Inr hi"
proof -
  let ?other = "drop 1 (fst h) \<noteq> bytes_of ''authority''"
  consider "ngx_http_v2_parse_path cf r (snd h) = V2_OK r'" ?other | "ngx_http_v2_parse_method r (snd h) = V2_OK r'" ?other
    | "ngx_http_v2_parse_scheme r (snd h) = V2_OK r'" ?other
    | "ngx_http_v2_parse_authority cf r (snd h) = V2_OK r'" "\<not> ?other"
    using assms unfolding ngx_http_v2_pseudo_header_def Let_def by (auto split: if_splits)
  then show thesis
  proof cases
    case 1
    from 1(1) show thesis by (elim parse_path_cases) (use path 1 in blast)
  next
    case 2
    from 2(1) show thesis by (elim parse_method_cases) (use meth 2 in blast)
  next
    case 3
    then show thesis using scheme by (auto simp: ngx_http_v2_parse_scheme_def split: if_splits)
  next
    case 4
    then show thesis
      using authority v2_push_known_push unfolding ngx_http_v2_parse_authority_def
      by (auto split: option.splits sum.splits)
  qed
qed

text \<open>A header that is taken changes the request in one of these ways.\<close>

definition v2_ignored :: "http_conf \<Rightarrow> bytes \<Rightarrow> bool" where
  "v2_ignored cf name \<longleftrightarrow> ignore_invalid_headers cf \<and> v2_name_loop (underscores_in_headers cf) False name = Some True"

lemma process_header_cases:
  assumes "v2_process_header cf r h = V2_header r'"
  obtains
    (pseudo) iv where "fst h ! 0 = ch CHR '':''"
      "ngx_http_v2_pseudo_header cf (r\<lparr>vr_invalid_header := iv\<rparr>) h = V2_OK r'"
  | (ignored) iv where "fst h ! 0 \<noteq> ch CHR '':''" "v2_ignored cf (fst h)" "r' = r\<lparr>vr_invalid_header := iv\<rparr>"
  | (cookie) iv where "fst h ! 0 \<noteq> ch CHR '':''" "\<not> v2_ignored cf (fst h)" "fst h = bytes_of ''cookie''"
      "r' = r\<lparr>vr_invalid_header := iv, vr_cookies := vr_cookies r @ [snd h]\<rparr>"
  | (field) iv hi where "fst h ! 0 \<noteq> ch CHR '':''" "\<not> v2_ignored cf (fst h)" "fst h \<noteq> bytes_of ''cookie''"
      "header_push cf (vr_headers_in r) (v2_elt (fst h) (snd h)) = Inr hi"
      "r' = r\<lparr>vr_invalid_header := iv, vr_headers_in := hi\<rparr>"
proof -
  let ?cookie = "bytes_of ''cookie''"
  obtain r1 where r1: "ngx_http_v2_validate_header cf r h = Some r1"
    using assms by (auto simp: v2_process_header_def split: option.splits)
  obtain iv where iv: "r1 = r\<lparr>vr_invalid_header := iv\<rparr>" using validate_header_clean(1) [OF r1] by blast
  have len: "length (fst h) = 6 \<and> fst h = ?cookie \<longleftrightarrow> fst h = ?cookie" by auto
  note run = assms [unfolded v2_process_header_def r1 option.case len]
  show thesis
  proof (cases "fst h ! 0 = ch CHR '':''")
    case True
    with run iv pseudo [of iv] show thesis by (simp add: v2_header_pseudo_def split: v2_rc.splits)
  next
    case False
    then have ign: "vr_invalid_header r1 \<and> ignore_invalid_headers cf \<longleftrightarrow> v2_ignored cf (fst h)"
      using r1 by (auto simp: v2_ignored_def ngx_http_v2_validate_header_def split: option.splits if_splits)
    note run = run [unfolded ign]
    show thesis
    proof (cases "v2_ignored cf (fst h)")
      case True
      with run False iv ignored [of iv] show thesis by simp
    next
      case valid: False
      show thesis
      proof (cases "fst h = ?cookie")
        case True
        with run False iv valid cookie [of iv] show thesis by (simp add: ngx_http_v2_cookie_def)
      next
        case other: False
        with run False valid field [of _ iv] show thesis by (auto simp: iv split: sum.splits)
      qed
    qed
  qed
qed

lemma v2_elt_clean: "\<lbrakk>key \<noteq> []; list_all name_byte key; list_all value_byte val\<rbrakk> \<Longrightarrow> elt_clean (v2_elt key val)"
  by (simp add: elt_clean_def v2_elt_def)

lemma host_name_bytes: "list_all name_byte (bytes_of ''host'')" "list_all name_byte (bytes_of ''cookie'')"
  by (simp_all add: name_byte_def value_byte_def ngx_tolower_def word_le_nat_alt)

lemma process_header_valid:
  assumes "v2_process_header cf r h = V2_header r'"
  shows "list_all value_byte (snd h)" "fst h \<noteq> []" "fst h ! 0 \<noteq> ch CHR '':'' \<Longrightarrow> list_all name_byte (fst h)"
  using assms validate_header_clean by (auto simp: v2_process_header_def split: option.splits)

lemma process_header_clean:
  assumes "v2_process_header cf r h = V2_header r'" "v2_clean r"
  shows "v2_clean r'"
proof -
  note ok = process_header_valid [OF assms(1)]
  from assms(1) show ?thesis
  proof (cases rule: process_header_cases)
    case (pseudo iv)
    from pseudo(2) show ?thesis
    proof (cases rule: pseudo_header_cases)
      case (authority hi)
      have "elt_clean (v2_elt (bytes_of ''host'') (snd h))"
        by (rule v2_elt_clean) (use host_name_bytes ok in simp_all)
      with authority assms(2) show ?thesis by (auto simp: v2_clean_def vr_unparsed_uri_def dest!: header_push_headers)
    qed (use assms(2) ok in \<open>simp_all add: v2_clean_def vr_unparsed_uri_def path_clean_def\<close>)
  next
    case (field iv hi)
    have "elt_clean (v2_elt (fst h) (snd h))" by (rule v2_elt_clean) (use field(1) ok in simp_all)
    with field assms(2) show ?thesis by (auto simp: v2_clean_def vr_unparsed_uri_def dest!: header_push_headers)
  qed (use assms(2) ok in \<open>simp_all add: v2_clean_def vr_unparsed_uri_def\<close>)
qed

lemma process_headers_clean: "\<lbrakk>v2_process_headers cf r hs = V2_header r'; v2_clean r\<rbrakk> \<Longrightarrow> v2_clean r'"
  by (induction hs arbitrary: r) (auto split: v2_header_rc.splits dest: process_header_clean)

section \<open>The fields of a request\<close>

text \<open>What becomes of a header: ":authority" is the host; the cookies are kept apart.\<close>

definition v2_field :: "http_conf \<Rightarrow> v2_header \<Rightarrow> v2_header list" where
  "v2_field cf h =
     (if fst h ! 0 = ch CHR '':''
      then (if drop 1 (fst h) = bytes_of ''authority'' then [(bytes_of ''host'', snd h)] else [])
      else if v2_ignored cf (fst h) \<or> fst h = bytes_of ''cookie'' then [] else [h])"

definition v2_cookies :: "v2_header list \<Rightarrow> bytes list" where
  "v2_cookies hs = map snd (filter (\<lambda>h. fst h = bytes_of ''cookie'') hs)"

definition v2_fields :: "http_conf \<Rightarrow> v2_header list \<Rightarrow> v2_header list" where
  "v2_fields cf hs = concat (map (v2_field cf) hs)
     @ (if v2_cookies hs = [] then [] else [(bytes_of ''cookie'', cookies_join (v2_cookies hs))])"

definition v2_seen :: "http_conf \<Rightarrow> v2_header list \<Rightarrow> v2_request \<Rightarrow> bool" where
  "v2_seen cf hs r \<longleftrightarrow> hi_headers (vr_headers_in r) = map (\<lambda>(n, v). v2_elt n v) (concat (map (v2_field cf) hs))
     \<and> vr_cookies r = v2_cookies hs \<and> headers_ok cf (vr_headers_in r)"

lemma cookie_not_ignored: "\<not> v2_ignored cf (bytes_of ''cookie'')"
  by (simp add: v2_ignored_def word_le_nat_alt)

lemma v2_seen_snoc:
  "v2_seen cf (hs @ [h]) r \<longleftrightarrow>
     hi_headers (vr_headers_in r) = map (\<lambda>(n, v). v2_elt n v) (concat (map (v2_field cf) hs)) @ map (\<lambda>(n, v). v2_elt n v) (v2_field cf h)
     \<and> vr_cookies r = v2_cookies hs @ (if fst h = bytes_of ''cookie'' then [snd h] else []) \<and> headers_ok cf (vr_headers_in r)"
  by (simp add: v2_seen_def v2_cookies_def)

lemma process_header_seen:
  assumes "v2_process_header cf r h = V2_header r'" "v2_seen cf hs r"
  shows "v2_seen cf (hs @ [h]) r'"
  using assms(1)
proof (cases rule: process_header_cases)
  case (pseudo iv)
  have name: "fst h \<noteq> bytes_of ''cookie''" using pseudo(1) by auto
  from pseudo(2) show ?thesis
  proof (cases rule: pseudo_header_cases)
    case (authority hi)
    then have "header_push cf (vr_headers_in r) (v2_elt (bytes_of ''host'') (snd h)) = Inr hi" by simp
    from header_push_ok [OF _ this] authority assms(2) pseudo(1) name show ?thesis
      unfolding v2_seen_snoc by (simp add: v2_seen_def v2_field_def)
  qed (use assms(2) pseudo(1) name in \<open>subst v2_seen_snoc, simp add: v2_seen_def v2_field_def\<close>)+
next
  case (cookie iv)
  with assms(2) show ?thesis unfolding v2_seen_snoc by (simp add: v2_seen_def v2_field_def)
next
  case (ignored iv)
  with assms(2) cookie_not_ignored [of cf] show ?thesis unfolding v2_seen_snoc by (auto simp: v2_seen_def v2_field_def)
next
  case (field iv hi)
  from header_push_ok [OF _ field(4)] field assms(2) show ?thesis
    unfolding v2_seen_snoc by (cases h) (simp add: v2_seen_def v2_field_def)
qed

lemma process_headers_seen:
  "\<lbrakk>v2_process_headers cf r hs' = V2_header r'; v2_seen cf hs r\<rbrakk> \<Longrightarrow> v2_seen cf (hs @ hs') r'"
proof (induction hs' arbitrary: r hs)
  case (Cons h hs')
  then obtain r1 where r1: "v2_process_header cf r h = V2_header r1" "v2_process_headers cf r1 hs' = V2_header r'"
    by (auto split: v2_header_rc.splits)
  from Cons.IH [OF r1(2) process_header_seen [OF r1(1) Cons.prems(2)]] show ?case by simp
qed simp

lemma v2_seen_init: "v2_seen cf [] (v2_request_init len closed)"
  using headers_ok_init by (simp add: v2_seen_def v2_request_init_def v2_cookies_def headers_in_init_def)

section \<open>The request that is run\<close>

lemma v2_cookies_clean: "list_all (list_all value_byte) vals \<Longrightarrow> list_all value_byte (cookies_join vals)"
  by (induction vals rule: cookies_join.induct) (simp_all add: value_byte_def)

lemma construct_request_line_ok:
  "ngx_http_v2_construct_request_line r = Some r' \<Longrightarrow> vr_method_name r \<noteq> [] \<and> vr_unparsed_uri r \<noteq> []
   \<and> r' = r\<lparr>vr_request_line := vr_method_name r @ bytes_of '' '' @ vr_unparsed_uri r @ bytes_of '' HTTP/2.0''\<rparr>"
  by (auto simp: ngx_http_v2_construct_request_line_def split: if_splits)

lemma construct_cookie_ok:
  assumes "ngx_http_v2_construct_cookie_header cf r = Inr r'"
  shows "r' = r \<and> vr_cookies r = [] \<or> (\<exists>hi. r' = r\<lparr>vr_headers_in := hi\<rparr> \<and> vr_cookies r \<noteq> [] \<and>
    header_push cf (vr_headers_in r) (v2_elt (bytes_of ''cookie'') (cookies_join (vr_cookies r))) = Inr hi)"
proof (cases "vr_cookies r = []")
  case False
  with v2_cookies_copy_join [of "vr_cookies r" "[]"] have "v2_cookies_copy (v2_cookies_len 0 (vr_cookies r)) [] (vr_cookies r)
    = Some (cookies_join (vr_cookies r))" by simp
  note run = assms [unfolded ngx_http_v2_construct_cookie_header_def this option.case]
  from run False obtain hi where "v2_push_known cf (vr_headers_in r) (bytes_of ''cookie'') (cookies_join (vr_cookies r)) = Some (Inr hi)"
    "r' = r\<lparr>vr_headers_in := hi\<rparr>" by (auto split: option.splits sum.splits)
  with v2_push_known_push False show ?thesis by blast
qed (use assms in \<open>simp add: ngx_http_v2_construct_cookie_header_def\<close>)

text \<open>The three steps of ngx_http_v2_run_request().\<close>

lemma run_request_steps:
  assumes "v2_request_run cf len closed hs = Some r'"
  obtains r1 r2 r3 hi where "v2_process_headers cf (v2_request_init len closed) hs = V2_header r1"
    "ngx_http_v2_construct_request_line r1 = Some r2" "ngx_http_v2_construct_cookie_header cf r2 = Inr r3"
    "ngx_http_process_request_header cf (vr_method r3) 2000 (vr_headers_in r3) = Inr hi"
    "\<not> (hi_content_length_n hi > 0 \<and> vr_in_closed r3)"
    "r' = r3\<lparr>vr_headers_in := (if hi_content_length_n hi = -1 \<and> \<not> vr_in_closed r3 then hi\<lparr>hi_chunked := True\<rparr> else hi)\<rparr>"
  using assms unfolding v2_request_run_def ngx_http_v2_run_request_def
  by (auto split: v2_header_rc.splits option.splits sum.splits if_splits)

definition v2_run_fields :: "http_conf \<Rightarrow> v2_header list \<Rightarrow> v2_request \<Rightarrow> bool" where
  "v2_run_fields cf hs r \<longleftrightarrow> hi_headers (vr_headers_in r) = map (\<lambda>(n, v). v2_elt n v) (v2_fields cf hs)"

lemma run_request_fields:
  assumes "v2_request_run cf len closed hs = Some r'"
  shows "v2_run_fields cf hs r' \<and> v2_clean r' \<and> vr_method_name r' \<noteq> [] \<and> vr_unparsed_uri r' \<noteq> []
    \<and> vr_request_line r' = vr_method_name r' @ bytes_of '' '' @ vr_unparsed_uri r' @ bytes_of '' HTTP/2.0''"
    (is "_ \<and> _ \<and> ?line r'")
    "\<exists>hi. framing_ok cf hi \<and> \<not> (hi_content_length_n hi > 0 \<and> vr_in_closed r')
      \<and> vr_headers_in r' = (if hi_content_length_n hi = -1 \<and> \<not> vr_in_closed r' then hi\<lparr>hi_chunked := True\<rparr> else hi)"
proof -
  obtain r1 r2 r3 hi where steps: "v2_process_headers cf (v2_request_init len closed) hs = V2_header r1"
    "ngx_http_v2_construct_request_line r1 = Some r2" "ngx_http_v2_construct_cookie_header cf r2 = Inr r3"
    "ngx_http_process_request_header cf (vr_method r3) 2000 (vr_headers_in r3) = Inr hi"
    "\<not> (hi_content_length_n hi > 0 \<and> vr_in_closed r3)"
    "r' = r3\<lparr>vr_headers_in := (if hi_content_length_n hi = -1 \<and> \<not> vr_in_closed r3 then hi\<lparr>hi_chunked := True\<rparr> else hi)\<rparr>"
    by (rule run_request_steps [OF assms])
  note line = construct_request_line_ok [OF steps(2)]
  have seen: "v2_seen cf hs r2" using process_headers_seen [OF steps(1) v2_seen_init] line by (simp add: v2_seen_def)
  have clean: "v2_clean r2"
    using process_headers_clean [OF steps(1) v2_clean_init] line by (simp add: v2_clean_def vr_unparsed_uri_def)
  have r2: "?line r2" using line by (simp add: vr_unparsed_uri_def)
  have r3: "hi_headers (vr_headers_in r3) = map (\<lambda>(n, v). v2_elt n v) (v2_fields cf hs)" "headers_ok cf (vr_headers_in r3)"
    "v2_clean r3" "?line r3"
  proof -
    have "elt_clean (v2_elt (bytes_of ''cookie'') (cookies_join (vr_cookies r2)))"
      by (rule v2_elt_clean) (use clean v2_cookies_clean [of "vr_cookies r2"] host_name_bytes in \<open>simp_all add: v2_clean_def\<close>)
    with construct_cookie_ok [OF steps(3)] seen clean r2 header_push_ok [of cf "vr_headers_in r2"]
    show "hi_headers (vr_headers_in r3) = map (\<lambda>(n, v). v2_elt n v) (v2_fields cf hs)" "headers_ok cf (vr_headers_in r3)"
      "v2_clean r3" "?line r3"
      by (auto simp: v2_seen_def v2_fields_def v2_clean_def vr_unparsed_uri_def)
  qed
  note framing = process_request_header_framing [OF r3(2) steps(4)]
  show "v2_run_fields cf hs r' \<and> v2_clean r' \<and> ?line r'"
    using r3 framing steps(6) by (auto simp: v2_run_fields_def v2_clean_def vr_unparsed_uri_def)
  show "\<exists>hi. framing_ok cf hi \<and> \<not> (hi_content_length_n hi > 0 \<and> vr_in_closed r')
      \<and> vr_headers_in r' = (if hi_content_length_n hi = -1 \<and> \<not> vr_in_closed r' then hi\<lparr>hi_chunked := True\<rparr> else hi)"
    using framing steps(5, 6) by auto
qed

text \<open>
  C23. Whatever fields an HTTP/2 client sends, a request that is processed can be written as HTTP/1: its request line is
  a method of capital letters, "_" and "-", a space, a URI that begins with a slash and the protocol, no URI,
  name or value has a NUL, LF or CR, and no name is empty or has a colon or a capital letter.
\<close>

theorem ngx_http_v2_run_request_clean:
  "case v2_request_run cf len in_closed hs of
     None \<Rightarrow> True
   | Some r \<Rightarrow> (\<exists>m u. vr_request_line r = m @ bytes_of '' '' @ u @ bytes_of '' HTTP/2.0'' \<and> m \<noteq> [] \<and> list_all method_byte m
         \<and> u \<noteq> [] \<and> u ! 0 = ch CHR ''/'' \<and> list_all value_byte u)
       \<and> list_all elt_clean (hi_headers (vr_headers_in r))"
proof (cases "v2_request_run cf len in_closed hs")
  case (Some r)
  from run_request_fields(1) [OF Some] show ?thesis by (auto simp: Some v2_clean_def path_clean_def)
qed simp

text \<open>
  C24. The headers of a processed HTTP/2 request are the fields of its block in their order: ":authority" is a
  "host" header, fields with invalid names are left out if the server ignores them, and the cookies are one
  header at the end, joined with "; ".
\<close>

theorem ngx_http_v2_run_request_fields:
  "case v2_request_run cf len in_closed hs of
     None \<Rightarrow> True
   | Some r \<Rightarrow> hi_headers (vr_headers_in r) = map (\<lambda>(n, v). v2_elt n v) (v2_fields cf hs)"
  using run_request_fields(1) [of cf len in_closed hs]
  by (cases "v2_request_run cf len in_closed hs") (simp_all add: v2_run_fields_def)


section \<open>The path\<close>

text \<open>What ngx_http_parse_uri() has left unmarked is clean: the parser with the bytes it has seen.\<close>

definition pu_clean :: "bytes \<Rightarrow> parsed_uri \<Rightarrow> bool" where
  "pu_clean xs r \<longleftrightarrow> pu_pos r = length xs \<and> (pu_complex r \<or> pu_quoted r \<or>
     (case pu_args_start r of
        Some a \<Rightarrow> pu_state r = psw_uri \<and> clean_path (take (a - 1) xs) \<and> a \<le> length xs
      | None \<Rightarrow> clean_path xs
          \<and> (case pu_state r of
               psw_start \<Rightarrow> xs = []
             | psw_after_slash_in_uri \<Rightarrow> True
             | psw_check_uri \<Rightarrow> xs \<noteq> [] \<and> last xs \<noteq> ch CHR ''/''
             | psw_uri \<Rightarrow> False)))"

lemmas pu_step_defs = pu_step_def pu_start_def pu_after_slash_in_uri_def pu_check_uri_def pu_uri_def

lemma pu_step_marks:
  "pu_step r c = Go r' \<Longrightarrow> pu_pos r' = pu_pos r + 1 \<and> (pu_complex r \<or> pu_quoted r \<longrightarrow> pu_complex r' \<or> pu_quoted r')"
  by (cases "pu_state r") (auto simp: pu_step_defs split: if_splits)

lemma pu_step_clean:
  assumes "pu_clean xs r" "pu_step r c = Go r'"
  shows "pu_clean (xs @ [c]) r'"
proof (cases "pu_complex r \<or> pu_quoted r")
  case True
  with pu_step_marks [OF assms(2)] assms(1) show ?thesis by (auto simp: pu_clean_def)
next
  case False
  note pos = pu_step_marks [OF assms(2)]
  show ?thesis
  proof (cases "pu_args_start r")
    case (Some a)
    with False assms pos show ?thesis
      by (auto simp: pu_clean_def pu_step_def pu_uri_def split: if_splits)
  next
    case None
    show ?thesis
    proof (cases "pu_state r")
      case psw_start
      with None False assms pos show ?thesis by (auto simp: pu_clean_def pu_step_def pu_start_def split: if_splits)
    next
      case psw_after_slash_in_uri
      with None False assms pos usual_not [of c] show ?thesis
        by (cases "is_usual c")
          (auto simp: pu_clean_def pu_step_def pu_after_slash_in_uri_def clean_path_snoc split: if_splits)
    next
      case psw_check_uri
      with None False assms pos usual_not [of c] show ?thesis
        by (cases "is_usual c") (auto simp: pu_clean_def pu_step_def pu_check_uri_def clean_path_snoc split: if_splits)
    next
      case psw_uri
      with None False assms(1) show ?thesis by (simp add: pu_clean_def)
    qed
  qed
qed

lemma pu_feed_clean: "\<lbrakk>pu_clean xs r; feed pu_step r ys = Go r'\<rbrakk> \<Longrightarrow> pu_clean (xs @ ys) r'"
proof (induction ys arbitrary: xs r)
  case (Cons c ys)
  then obtain r1 where r1: "pu_step r c = Go r1" "feed pu_step r1 ys = Go r'" by (auto split: outcome.splits)
  from Cons.IH [OF pu_step_clean [OF Cons.prems(1) r1(1)] r1(2)] show ?case by simp
qed simp

lemma parse_uri_clean:
  assumes "ngx_http_parse_uri s = Some p" "\<not> pu_complex p" "\<not> pu_quoted p"
  shows "clean_path (case pu_args_start p of Some a \<Rightarrow> take (a - 1) s | None \<Rightarrow> s)"
proof -
  have "feed pu_step pu_init s = Go p" using assms(1) by (auto simp: ngx_http_parse_uri_def split: outcome.splits)
  moreover have "pu_clean [] pu_init" by (simp add: pu_clean_def pu_init_def clean_path_def)
  ultimately have "pu_clean s p" using pu_feed_clean [of "[]"] by fastforce
  with assms(2, 3) show ?thesis by (auto simp: pu_clean_def split: option.splits)
qed

definition uri_no_dots :: "request_uri option \<Rightarrow> bool" where
  "uri_no_dots u = (case u of None \<Rightarrow> True
     | Some u \<Rightarrow> \<not> sublist (bytes_of ''/./'') (ru_uri u) \<and> \<not> sublist (bytes_of ''/../'') (ru_uri u))"

lemma request_uri_complex:
  assumes "complex \<or> quoted" "ngx_http_process_request_uri merge s complex quoted plus_in space uext uargs = Some u"
  shows "uri_no_dots (Some u)"
proof -
  obtain res where res: "ngx_http_parse_complex_uri merge plus_in quoted s = Some res"
    using assms by (auto simp: ngx_http_process_request_uri_def Let_def split: option.splits)
  with assms have "ru_uri u = res_uri res"
    by (auto simp: ngx_http_process_request_uri_def Let_def split: option.splits if_splits)
  with complex_uri_no_dot_segment [of merge plus_in quoted s] res show ?thesis by (simp add: uri_no_dots_def)
qed

lemma parse_path_no_dots:
  assumes "ngx_http_v2_parse_path cf r val = V2_OK r'"
  shows "uri_no_dots (vr_uri r')"
proof -
  obtain p u where p: "ngx_http_parse_uri val = Some p" and r': "r' = r\<lparr>vr_uri := Some u\<rparr>"
    and u: "ngx_http_process_request_uri (merge_slashes cf) val (pu_complex p) (pu_quoted p) (pu_plus p)
      (pu_space p) (pu_ext p) (pu_args_start p) = Some u"
    using assms by (auto simp: ngx_http_v2_parse_path_def split: if_splits option.splits)
  show ?thesis
  proof (cases "pu_complex p \<or> pu_quoted p")
    case True
    from request_uri_complex [OF this u] show ?thesis by (simp add: r')
  next
    case False
    then have "ru_uri u = (case pu_args_start p of Some a \<Rightarrow> take (a - 1) val | None \<Rightarrow> val)"
      using u by (intro request_uri_plain) simp
    with parse_uri_clean [OF p] clean_path_no_dots False show ?thesis by (simp add: r' uri_no_dots_def)
  qed
qed

lemma process_header_no_dots:
  assumes "v2_process_header cf r h = V2_header r'" "uri_no_dots (vr_uri r)"
  shows "uri_no_dots (vr_uri r')"
  using assms(1)
proof (cases rule: process_header_cases)
  case (pseudo iv)
  from pseudo(2) show ?thesis
  proof (cases rule: pseudo_header_cases)
    case (path u)
    from parse_path_no_dots [OF path(5)] show ?thesis .
  qed (use assms(2) in simp_all)
qed (use assms(2) in simp_all)

lemma process_headers_no_dots:
  "\<lbrakk>v2_process_headers cf r hs = V2_header r'; uri_no_dots (vr_uri r)\<rbrakk> \<Longrightarrow> uri_no_dots (vr_uri r')"
  by (induction hs arbitrary: r) (auto split: v2_header_rc.splits dest: process_header_no_dots)

text \<open>
  C26. The path of a processed HTTP/2 request has no "." and no ".." segment that is followed by a slash, whether
  ngx_http_parse_uri() has sent it through the normalisation or has let it pass.
\<close>

theorem ngx_http_v2_run_request_no_dot_segment:
  "case v2_request_run cf len in_closed hs of
     None \<Rightarrow> True
   | Some r \<Rightarrow> \<exists>u. vr_uri r = Some u \<and> \<not> sublist (bytes_of ''/./'') (ru_uri u) \<and> \<not> sublist (bytes_of ''/../'') (ru_uri u)"
proof (cases "v2_request_run cf len in_closed hs")
  case (Some r)
  from run_request_steps [OF Some] obtain r1 r2 r3 hi where
    r1: "v2_process_headers cf (v2_request_init len in_closed) hs = V2_header r1" and
    r: "ngx_http_v2_construct_request_line r1 = Some r2" "ngx_http_v2_construct_cookie_header cf r2 = Inr r3" "r = r3\<lparr>vr_headers_in := hi\<rparr>"
    by metis
  have "uri_no_dots (vr_uri r1)"
    by (rule process_headers_no_dots [OF r1]) (simp add: v2_request_init_def uri_no_dots_def)
  moreover have "vr_uri r = vr_uri r1"
    using r construct_request_line_ok [OF r(1)] construct_cookie_ok [OF r(2)] by auto
  moreover have "vr_uri r \<noteq> None" using run_request_fields(1) [OF Some] by (cases "vr_uri r") (simp_all add: vr_unparsed_uri_def)
  ultimately show ?thesis using Some by (auto simp: uri_no_dots_def)
qed simp

section \<open>An example\<close>

text \<open>A request with three pseudo-headers is run; the settings are the defaults.\<close>

definition ex_cf :: http_conf where
  "ex_cf = \<lparr>underscores_in_headers = False, ignore_invalid_headers = True, merge_slashes = True, hash_buckets = 64,
        vserver = (\<lambda>_. None)\<rparr>"

lemmas v2_request_eval = v2_request_run_def v2_request_init_def v2_process_header_def ngx_http_v2_validate_header_def v2_header_pseudo_def
  ngx_http_v2_pseudo_header_def ngx_http_v2_parse_method_def ngx_http_v2_parse_path_def ngx_http_v2_parse_authority_def ngx_http_v2_cookie_def
  v2_push_known_def v2_elt_def word_le_nat_alt word_less_nat_alt v2_tests_def vr_unparsed_uri_def

lemma example_method: "v2_process_header ex_cf (v2_request_init 0 True) (bytes_of '':method'', bytes_of ''GET'') = V2_header ((v2_request_init 0 True)\<lparr>vr_method_name := bytes_of ''GET'', vr_method := NGX_HTTP_GET\<rparr>)"
  by (simp add: v2_request_eval)

lemma example_uri: "ngx_http_process_request_uri True (bytes_of ''/a'') False False False False None None = 
   Some \<lparr>ru_uri = bytes_of ''/a'', ru_unparsed_uri = bytes_of ''/a'', ru_valid_unparsed_uri = True, ru_exten = [], ru_args = []\<rparr>"
  by (simp add: ngx_http_process_request_uri_def Let_def)

lemma example_parse_uri: "ngx_http_parse_uri (bytes_of ''/a'') = Some (pu_init\<lparr>pu_pos := 2, pu_state := psw_check_uri\<rparr>)"
  by (simp add: ngx_http_parse_uri_def pu_step_defs pu_init_def is_usual_def in_bitmap_def usual_def)

lemma example_find: "headers_in_find 64 (ngx_hash_key (bytes_of ''host'')) (bytes_of ''host'') = Some Process_host"
  by (simp add: headers_in_find_def ngx_http_headers_in_def)

definition uri_a :: request_uri where
  "uri_a = \<lparr>ru_uri = bytes_of ''/a'', ru_unparsed_uri = bytes_of ''/a'', ru_valid_unparsed_uri = True, ru_exten = [], ru_args = []\<rparr>"

lemma example_host: "ngx_http_validate_host (bytes_of ''h'') False = Some (bytes_of ''h'')"
  by (simp add: ngx_http_validate_host_def vh_step_def vh_case_def vh_init_def word_le_nat_alt)

definition elt_h :: table_elt where
  "elt_h = v2_elt (bytes_of ''host'') (bytes_of ''h'')"

definition hi_h :: headers_in where
  "hi_h = headers_in_init\<lparr>hi_headers := [elt_h], hi_ptr := [bytes_of ''host'' \<mapsto> elt_h], hi_server := bytes_of ''h''\<rparr>"

lemma example_parse_authority: "vr_headers_in r = headers_in_init \<Longrightarrow> ngx_http_v2_parse_authority ex_cf r (bytes_of ''h'') = V2_OK (r\<lparr>vr_headers_in := hi_h\<rparr>)"
  unfolding ngx_http_v2_parse_authority_def v2_push_known_def
  using example_find example_host by (simp add: Let_def ex_cf_def headers_in_init_def header_handle_def ngx_http_process_host_def hi_h_def elt_h_def v2_elt_def)

lemma example_process: "ngx_http_process_request_header ex_cf NGX_HTTP_GET 2000 hi_h = Inr hi_h"
  by (simp add: ngx_http_process_request_header_def header_length_def header_te_def header_keepalive_def hi_h_def headers_in_init_def)

lemma example_path: "v2_process_header ex_cf r (bytes_of '':path'', val) = v2_header_pseudo ex_cf (r\<lparr>vr_invalid_header := False\<rparr>) (bytes_of '':path'', val)" if "v2_value_loop val" for r
  using that by (simp add: v2_process_header_def ngx_http_v2_validate_header_def word_le_nat_alt)

lemma example_authority: "v2_process_header ex_cf r (bytes_of '':authority'', val) = v2_header_pseudo ex_cf (r\<lparr>vr_invalid_header := False\<rparr>) (bytes_of '':authority'', val)" if "v2_value_loop val" for r
  using that by (simp add: v2_process_header_def ngx_http_v2_validate_header_def word_le_nat_alt)

lemma example_pseudo: "v2_header_pseudo ex_cf r (bytes_of '':path'', val) = (case ngx_http_v2_parse_path ex_cf r val of
        V2_OK r \<Rightarrow> V2_header r
      | V2_ABORT code \<Rightarrow> V2_header_finalized code
      | V2_DECLINED \<Rightarrow> V2_header_terminated
      | V2_ERROR \<Rightarrow> V2_header_internal)" "v2_header_pseudo ex_cf r (bytes_of '':authority'', val) = (case ngx_http_v2_parse_authority ex_cf r val of
        V2_OK r \<Rightarrow> V2_header r
      | V2_ABORT code \<Rightarrow> V2_header_finalized code
      | V2_DECLINED \<Rightarrow> V2_header_terminated
      | V2_ERROR \<Rightarrow> V2_header_internal)"
  by (simp_all add: v2_header_pseudo_def ngx_http_v2_pseudo_header_def)

lemma example_parse_path: "ngx_http_v2_parse_path ex_cf ((v2_request_init 0 True)\<lparr>vr_method_name := bytes_of ''GET'', vr_method := NGX_HTTP_GET, vr_invalid_header := False\<rparr>) (bytes_of ''/a'') = V2_OK ((v2_request_init 0 True)\<lparr>vr_method_name := bytes_of ''GET'', vr_method := NGX_HTTP_GET, vr_uri := Some uri_a, vr_invalid_header := False\<rparr>)"
  unfolding ngx_http_v2_parse_path_def example_parse_uri by (simp add: example_uri [simplified] ex_cf_def pu_init_def v2_request_init_def vr_unparsed_uri_def uri_a_def)

lemma example_headers: "v2_process_headers ex_cf (v2_request_init 0 True) [(bytes_of '':method'', bytes_of ''GET''), (bytes_of '':path'', bytes_of ''/a''), (bytes_of '':authority'', bytes_of ''h'')]
  = V2_header ((v2_request_init 0 True)\<lparr>vr_method_name := bytes_of ''GET'', vr_method := NGX_HTTP_GET, vr_uri := Some uri_a, vr_headers_in := hi_h\<rparr>)"
proof -
  have v: "v2_value_loop (bytes_of ''/a'')" "v2_value_loop (bytes_of ''h'')" by simp_all
  show ?thesis unfolding v2_process_headers.simps example_method v2_header_rc.case example_path [OF v(1)] example_authority [OF v(2)] example_pseudo
   using example_parse_path example_parse_authority by (simp add: v2_request_init_def)
qed

lemma v2_request_run_example: "map_option vr_request_line (v2_request_run ex_cf 0 True [(bytes_of '':method'', bytes_of ''GET''), (bytes_of '':path'', bytes_of ''/a''), (bytes_of '':authority'', bytes_of ''h'')])
   = Some (bytes_of ''GET /a HTTP/2.0'')"
  unfolding v2_request_run_def example_headers
  using example_process by (simp add: ngx_http_v2_run_request_def ngx_http_v2_construct_request_line_def ngx_http_v2_construct_cookie_header_def v2_request_init_def vr_unparsed_uri_def uri_a_def hi_h_def headers_in_init_def)

end
