(* ===== verification/V2_Header_Block_Decode.thy ===== *)
theory V2_Header_Block_Decode
  imports V2_Header_Block_Safe V2_Huff_Encode V2_Request_Props
begin

text \<open>
  Header blocks as RFC 7541 writes them, and ngx_http_v2_string_encode() of
  src/http/v2/ngx_http_v2_filter_module.c: a block is decoded to the headers it was written for and the request
  with them is run.
\<close>

section \<open>Strings\<close>

definition NGX_HTTP_V2_ENCODE_RAW :: u_char where
  "NGX_HTTP_V2_ENCODE_RAW = 0"

definition NGX_HTTP_V2_ENCODE_HUFF :: u_char where
  "NGX_HTTP_V2_ENCODE_HUFF = 0x80"

text \<open>ngx_http_v2_string_encode(): the bytes written at \<open>dst\<close>.\<close>

definition ngx_http_v2_string_encode :: "bytes \<Rightarrow> bool \<Rightarrow> bytes" where
  "ngx_http_v2_string_encode src lower =
     (let tmp = ngx_http_v2_huff_encode src lower
      in if length tmp > 0
         then ngx_http_v2_write_int NGX_HTTP_V2_ENCODE_HUFF (ngx_http_v2_prefix 7) (length tmp) @ tmp
         else ngx_http_v2_write_int NGX_HTTP_V2_ENCODE_RAW (ngx_http_v2_prefix 7) (length src)
                @ (if lower then map ngx_tolower src else src))"

text \<open>A string with the octets it is written as: as it is, or coded, with less than 30 ones after the codes.\<close>

datatype v2_string = Raw_string bytes | Coded_string bytes bytes

fun string_value :: "v2_string \<Rightarrow> bytes" where
  "string_value (Raw_string s) = s"
| "string_value (Coded_string s octets) = s"

fun string_octets :: "v2_string \<Rightarrow> bytes" where
  "string_octets (Raw_string s) = s"
| "string_octets (Coded_string s octets) = octets"

fun string_flag :: "v2_string \<Rightarrow> u_char" where
  "string_flag (Raw_string s) = NGX_HTTP_V2_ENCODE_RAW"
| "string_flag (Coded_string s octets) = NGX_HTTP_V2_ENCODE_HUFF"

definition string_wire :: "v2_string \<Rightarrow> bytes" where
  "string_wire s = ngx_http_v2_write_int (string_flag s) (ngx_http_v2_prefix 7) (length (string_octets s)) @ string_octets s"

definition string_ok :: "v2_conf \<Rightarrow> v2_string \<Rightarrow> bool" where
  "string_ok cf s \<longleftrightarrow> length (string_octets s) \<le> max_field_size cf \<and> length (string_octets s) < 2 ^ 21 \<and>
     (case s of Raw_string _ \<Rightarrow> True
      | Coded_string v octets \<Rightarrow> \<exists>k < 30. bytes_bits octets = huff_codes v @ replicate k True)"

lemma or_low:
  assumes "unat (a :: u_char) AND mask n = 0" "v < 2 ^ n" "n \<le> 7"
  shows "unat (a OR of_nat v) = unat a + v"
proof -
  have "(2 :: nat) ^ n \<le> 2 ^ 7" using assms(3) by (rule power_increasing) simp
  with assms(2) have "v < 2 ^ LENGTH(8)" by simp
  then have v: "unat (of_nat v :: u_char) = v" by (rule unat_of_nat_lt)
  have low: "\<not> bit v k" if "n \<le> k" for k
    using assms(2) that by (metis bit_take_bit_iff not_less take_bit_nat_eq_self)
  have "\<not> bit (unat a) k" if "k < n" for k
    using arg_cong [OF assms(1), of "\<lambda>x. bit x k"] that by (simp add: bit_simps)
  with low have "\<not> (bit (unat a) k \<and> bit v k)" for k by (cases "k < n") simp_all
  then have "unat a + v = unat a OR v" by (intro disjunctive_add_eq_or bit_eqI) (simp add: bit_and_iff)
  then show ?thesis by (simp add: unsigned_or_eq v)
qed

lemma prefix_mask: "ngx_http_v2_prefix n = mask n"
  by (simp add: ngx_http_v2_prefix_def mask_eq_exp_minus_1)

lemma write_int_hd:
  assumes "unat first AND mask n = 0" "n \<le> 7"
  shows "\<exists>v < 2 ^ n. unat (hd (ngx_http_v2_write_int first (ngx_http_v2_prefix n) val)) = unat first + v"
    "ngx_http_v2_write_int first (ngx_http_v2_prefix n) val \<noteq> []"
proof -
  define v where "v = min val (mask n)"
  have "(mask n :: nat) < 2 ^ n" "v \<le> mask n" by (simp_all add: v_def)
  then have "v < 2 ^ n" by (rule le_less_trans [rotated])
  moreover have "hd (ngx_http_v2_write_int first (ngx_http_v2_prefix n) val) = first OR of_nat v"
    by (auto simp: ngx_http_v2_write_int_def prefix_mask v_def min_def)
  ultimately show "\<exists>v < 2 ^ n. unat (hd (ngx_http_v2_write_int first (ngx_http_v2_prefix n) val)) = unat first + v"
    using or_low assms by metis
qed (simp add: ngx_http_v2_write_int_def)

text \<open>A string that ngx_http_v2_string_encode() has written is one of these.\<close>

lemma string_encode_wire:
  "ngx_http_v2_string_encode src lower = string_wire
     (if ngx_http_v2_huff_encode src lower = [] then Raw_string (huff_source src lower)
      else Coded_string (huff_source src lower) (ngx_http_v2_huff_encode src lower))"
  by (simp add: ngx_http_v2_string_encode_def string_wire_def huff_source_def Let_def)

lemma string_encode_ok:
  assumes "length src \<le> max_field_size cf" "length src < 2 ^ 21"
  shows "string_ok cf (if ngx_http_v2_huff_encode src lower = [] then Raw_string (huff_source src lower)
      else Coded_string (huff_source src lower) (ngx_http_v2_huff_encode src lower))"
proof (cases "ngx_http_v2_huff_encode src lower = []")
  case True
  with assms show ?thesis by (simp add: string_ok_def huff_source_def)
next
  case False
  define codes where "codes = huff_codes (huff_source src lower)"
  define n where "n = (length codes + 7) div 8"
  have bits: "bytes_bits (ngx_http_v2_huff_encode src lower) = codes @ replicate (8 * n - length codes) True" "n < length src"
    using ngx_http_v2_huff_encode_bits [of src lower] False
    unfolding Let_def codes_def [symmetric] n_def [symmetric] by (auto split: if_splits)
  have "8 * n - length codes < 30" unfolding n_def by presburger
  with bits(1) have "\<exists>k < 30. bytes_bits (ngx_http_v2_huff_encode src lower) = codes @ replicate k True" by blast
  moreover have "8 * length (ngx_http_v2_huff_encode src lower) = 8 * n"
    using arg_cong [OF bits(1), of length] n_def by (simp add: bytes_bits_length)
  ultimately show ?thesis using False assms bits(2) by (simp add: string_ok_def codes_def)
qed

section \<open>A string is read\<close>

text \<open>The state between the strings of a header, and its table.\<close>

definition v2_ready :: "v2_tab \<Rightarrow> v2_request \<Rightarrow> v2_state \<Rightarrow> bool" where
  "v2_ready t q st \<longleftrightarrow> end_headers st \<and> h_padding st = 0 \<and> h_field_state st = 0 \<and> h_stream st = Some q \<and> hp_tab (h_hpack st) t"

definition v2_loops :: "v2_conf \<Rightarrow> v2_handler \<Rightarrow> v2_state \<Rightarrow> bytes \<Rightarrow> v2_handler \<Rightarrow> v2_state \<Rightarrow> bytes \<Rightarrow> bool" where
  "v2_loops cf handler st rest handler' st' rest' \<longleftrightarrow> v2_loop cf handler st rest = v2_loop cf handler' st' rest'"

lemma loops_call: "v2_handle cf handler st rest = V2_call handler' st' rest' \<Longrightarrow> v2_loops cf handler st rest handler' st' rest'"
  by (simp add: v2_loops_def v2_loop.simps [of cf handler])

lemma loops_return:
  "\<lbrakk>v2_handle cf handler st rest = V2_return handler' st' rest'; handler' \<noteq> State_head; rest' \<noteq> []\<rbrakk>
   \<Longrightarrow> v2_loops cf handler st rest handler' st' rest'"
  by (simp add: v2_loops_def v2_loop.simps [of cf handler])

lemma loops_trans [trans]: "\<lbrakk>v2_loops cf a b c d e f; v2_loops cf d e f g h i\<rbrakk> \<Longrightarrow> v2_loops cf a b c g h i"
  by (simp add: v2_loops_def)

lemma huff_decode_codes:
  assumes "bytes_bits octets = huff_codes v @ replicate k True" "k < 30"
  shows "ngx_http_v2_huff_decode 0 octets True = Some (0, v)"
proof -
  have "huff_field 0 [octets] = Some (0, v)"
    using huff_field_codes [of "[octets]" 0 v] assms by (cases "octets = []") auto
  then show ?thesis by (auto split: option.splits)
qed

lemma string_read:
  assumes "v2_ready t q st" "string_ok cf s" "h_length st = length (string_wire s) + k"
  shows "\<exists>alloc. v2_loops cf State_field_len st (string_wire s @ tl_bytes) State_process_header
    (st\<lparr>h_length := k, h_field_rest := 0, h_alloc := alloc, h_field := string_value s\<rparr>) tl_bytes"
proof -
  let ?n = "length (string_octets s)" and ?pfx = "ngx_http_v2_prefix 7"
  let ?int = "ngx_http_v2_write_int (string_flag s) ?pfx ?n"
  have flag: "unat (string_flag s) AND mask 7 = 0" by (cases s) (simp_all add: NGX_HTTP_V2_ENCODE_RAW_def NGX_HTTP_V2_ENCODE_HUFF_def mask_eq_exp_minus_1)
  note head = write_int_hd [OF flag]
  have len: "h_length st = length ?int + ?n + k" using assms(3) by (simp add: string_wire_def)
  have bits: "ngx_http_v2_parse_int (h_length st) (?int @ string_octets s @ tl_bytes) ?pfx = V2_int ?n (length ?int) (?n + k)"
    using v2_int_roundtrip [of 7 "string_flag s" ?n "h_length st" "string_octets s @ tl_bytes"] assms(2) flag len
    by (simp add: string_ok_def prefix_mask)
  have huff: "hd (?int @ string_octets s @ tl_bytes) \<ge> 0x80 \<longleftrightarrow> string_flag s = NGX_HTTP_V2_ENCODE_HUFF"
  proof -
    from head(1) [of ?n] obtain v where "v < 128" "unat (hd ?int) = unat (string_flag s) + v" by auto
    with head(2) [of ?n] show ?thesis
      by (cases s) (simp_all add: NGX_HTTP_V2_ENCODE_RAW_def NGX_HTTP_V2_ENCODE_HUFF_def word_le_nat_alt)
  qed
  define st1 where "st1 alloc = st\<lparr>h_length := ?n + k, h_field_rest := ?n, h_alloc := alloc, h_field := []\<rparr>" for alloc
  define handler where "handler = (case s of Raw_string _ \<Rightarrow> State_field_raw | Coded_string _ _ \<Rightarrow> State_field_huff)"
  have "\<exists>alloc. v2_handle cf State_field_len st (string_wire s @ tl_bytes) = V2_call handler (st1 alloc) (string_octets s @ tl_bytes)"
  proof -
    have ne: "string_wire s @ tl_bytes \<noteq> []" "h_length st \<noteq> 0" using head len by (simp_all add: string_wire_def)
    have max: "\<not> ?n > max_field_size cf" using assms(2) by (simp add: string_ok_def)
    have "v2_handle cf State_field_len st (string_wire s @ tl_bytes) =
        field_begin cf (string_flag s = NGX_HTTP_V2_ENCODE_HUFF) ?n (st\<lparr>h_length := ?n + k\<rparr>) (string_octets s @ tl_bytes)"
      using assms(1) ne bits huff head(2) [of ?n]
      by (simp add: v2_handle_def ngx_http_v2_state_field_len_def v2_ready_def string_wire_def)
    with max assms(1) show ?thesis
      by (cases s) (auto simp: field_begin_def st1_def handler_def v2_ready_def NGX_HTTP_V2_ENCODE_RAW_def
          NGX_HTTP_V2_ENCODE_HUFF_def Let_def)
  qed
  then obtain alloc where call: "v2_handle cf State_field_len st (string_wire s @ tl_bytes) = V2_call handler (st1 alloc) (string_octets s @ tl_bytes)"
    by blast
  have size: "field_size (st1 alloc) (string_octets s @ tl_bytes) = ?n" by (simp add: field_size_def st1_def)
  have "v2_handle cf handler (st1 alloc) (string_octets s @ tl_bytes) = V2_call State_process_header
      (st\<lparr>h_length := k, h_field_rest := 0, h_alloc := alloc, h_field := string_value s\<rparr>) tl_bytes"
  proof (cases s)
    case (Raw_string v)
    with size show ?thesis
      by (simp add: handler_def v2_handle_def ngx_http_v2_state_field_raw_def field_next_def st1_def)
  next
    case (Coded_string v octets)
    with assms(2) obtain k' where "bytes_bits octets = huff_codes v @ replicate k' True" "k' < 30" by (auto simp: string_ok_def)
    from huff_decode_codes [OF this] Coded_string size assms(1) show ?thesis
      by (simp add: handler_def v2_handle_def ngx_http_v2_state_field_huff_def field_next_def st1_def v2_ready_def)
  qed
  with loops_trans [OF loops_call [OF call] loops_call] show ?thesis by blast
qed

section \<open>Representations\<close>

text \<open>The representations of RFC 7541, section 6; a literal header is indexed or not, or never.\<close>

datatype v2_literal = With_indexing | Without_indexing | Never_indexed

datatype v2_repr = Repr_indexed nat | Repr_named v2_literal nat v2_string | Repr_new v2_literal v2_string v2_string
  | Repr_size nat

fun literal_first :: "v2_literal \<Rightarrow> u_char \<times> nat" where
  "literal_first With_indexing = (0x40, 6)"
| "literal_first Without_indexing = (0, 4)"
| "literal_first Never_indexed = (0x10, 4)"

definition int_wire :: "u_char \<times> nat \<Rightarrow> nat \<Rightarrow> bytes" where
  "int_wire = (\<lambda>(first, bits) val. ngx_http_v2_write_int first (ngx_http_v2_prefix bits) val)"

fun repr_wire :: "v2_repr \<Rightarrow> bytes" where
  "repr_wire (Repr_indexed i) = int_wire (0x80, 7) i"
| "repr_wire (Repr_named l i s) = int_wire (literal_first l) i @ string_wire s"
| "repr_wire (Repr_new l n s) = int_wire (literal_first l) 0 @ string_wire n @ string_wire s"
| "repr_wire (Repr_size m) = int_wire (0x20, 5) m"

definition tab_lookup :: "v2_tab \<Rightarrow> nat \<Rightarrow> v2_header option" where
  "tab_lookup t i =
     (let tab = ngx_http_v2_static_table @ tab_headers t
      in if 0 < i \<and> i \<le> length tab then Some (tab ! (i - 1)) else None)"

fun repr_header :: "v2_tab \<Rightarrow> v2_repr \<Rightarrow> v2_header option" where
  "repr_header t (Repr_indexed i) = tab_lookup t i"
| "repr_header t (Repr_named l i s) = map_option (\<lambda>h. (fst h, string_value s)) (tab_lookup t i)"
| "repr_header t (Repr_new l n s) = Some (string_value n, string_value s)"
| "repr_header t (Repr_size m) = None"

fun repr_tab :: "v2_tab \<Rightarrow> v2_repr \<Rightarrow> v2_header \<Rightarrow> v2_tab" where
  "repr_tab t (Repr_named With_indexing i s) h = tab_add t h"
| "repr_tab t (Repr_new With_indexing n s) h = tab_add t h"
| "repr_tab t r h = t"

text \<open>
  The headers of a block and the table after it, with the table as ngx_http_v2_table.c keeps it, there only from the
  first insertion on; \<open>None\<close> if an index or a size is not allowed.
\<close>

fun v2_decode :: "v2_tab \<Rightarrow> v2_repr list \<Rightarrow> (v2_tab \<times> v2_header list) option" where
  "v2_decode t [] = Some (t, [])"
| "v2_decode t (Repr_size m # rs) = (if m \<le> 4096 then v2_decode (tab_size t m) rs else None)"
| "v2_decode t (r # rs) =
     (case repr_header t r of
        None \<Rightarrow> None
      | Some h \<Rightarrow> map_option (\<lambda>(t, hs). (t, h # hs)) (v2_decode (repr_tab t r h) rs))"

fun repr_ok :: "v2_conf \<Rightarrow> v2_repr \<Rightarrow> bool" where
  "repr_ok cf (Repr_indexed i) \<longleftrightarrow> i < 2 ^ 21"
| "repr_ok cf (Repr_named l i s) \<longleftrightarrow> i < 2 ^ 21 \<and> string_ok cf s"
| "repr_ok cf (Repr_new l n s) \<longleftrightarrow> string_ok cf n \<and> string_ok cf s"
| "repr_ok cf (Repr_size m) \<longleftrightarrow> True"

lemma hp_tab_lookup:
  assumes "hp_tab h t"
  shows "ngx_http_v2_get_indexed_header h hdr i False = tab_lookup t i"
    "map_option fst (ngx_http_v2_get_indexed_header h hdr i True) = map_option fst (tab_lookup t i)"
proof -
  have len: "length ngx_http_v2_static_table = 61" by (simp add: ngx_http_v2_static_table_def)
  have "ngx_http_v2_get_indexed_header h hdr i False = tab_lookup t i
    \<and> map_option fst (ngx_http_v2_get_indexed_header h hdr i True) = map_option fst (tab_lookup t i)"
  proof (cases t)
    case None
    then have "hp_added h - hp_deleted h = 0" using assms by (auto simp: hp_tab_def hp_unused_def hpack_zero_def)
    with None len show ?thesis
      by (auto simp: ngx_http_v2_get_indexed_header_def tab_lookup_def tab_headers_def Let_def prod_eq_iff)
  next
    case (Some mh)
    obtain m hs where "mh = (m, hs)" by fastforce
    with Some assms get_indexed_holds [of h m hs] len show ?thesis
      by (auto simp: hp_tab_def tab_lookup_def tab_headers_def Let_def)
  qed
  then show "ngx_http_v2_get_indexed_header h hdr i False = tab_lookup t i"
    "map_option fst (ngx_http_v2_get_indexed_header h hdr i True) = map_option fst (tab_lookup t i)" by simp_all
qed

section \<open>A header is read\<close>

lemma repr_first:
  assumes "v2_first c = (repr, bits)" "v < 2 ^ bits'" "unat c = unat (first :: u_char) + v"
    "(first, bits') \<in> {(0x80, 7), (0x40, 6), (0x20, 5), (0x10, 4), (0, 4)}"
  shows "(repr, bits) = (if first = 0x80 then Indexed else if first = 0x40 then Incremental
    else if first = 0x20 then Size_update else Not_indexed, bits')"
  using assms by (auto simp: v2_first_def word_le_nat_alt split: if_splits)

text \<open>The first integer of a representation.\<close>

lemma int_read:
  assumes "v2_ready t q st" "(first, bits) \<in> {(0x80, 7), (0x40, 6), (0x20, 5), (0x10, 4), (0, 4)}" "val < 2 ^ 21"
    "h_length st = length (int_wire (first, bits) val) + k"
  defines "repr \<equiv> (if first = 0x80 then Indexed else if first = 0x40 then Incremental
    else if first = 0x20 then Size_update else Not_indexed)"
  shows "v2_handle cf State_header_block st (int_wire (first, bits) val @ tl_bytes) =
    header_first repr val ((if repr = Incremental then st\<lparr>h_index := True\<rparr> else st)\<lparr>h_length := k\<rparr>) tl_bytes"
proof -
  let ?w = "ngx_http_v2_write_int first (ngx_http_v2_prefix bits) val"
  have low: "unat first AND mask bits = 0" "bits \<le> 7" using assms(2) by (auto simp: mask_eq_exp_minus_1)
  note head = write_int_hd [OF low, of val]
  obtain repr' bits' where first: "v2_first (hd ?w) = (repr', bits')" by fastforce
  from head(1) obtain v where v: "v < 2 ^ bits" "unat (hd ?w) = unat first + v" by auto
  from repr_first [OF first v assms(2)] have repr: "v2_first (hd ?w) = (repr, bits)" using first by (simp add: repr_def)
  have "ngx_http_v2_parse_int (h_length st) (?w @ tl_bytes) (ngx_http_v2_prefix bits) = V2_int val (length ?w) k"
    using v2_int_roundtrip [of bits first val "h_length st" tl_bytes] low assms(3, 4) by (simp add: prefix_mask int_wire_def)
  with repr head(2) assms(1) show ?thesis
    by (simp add: v2_handle_def ngx_http_v2_state_header_block_def header_int_def int_wire_def v2_ready_def)
qed

text \<open>What a header that has been read does to the state.\<close>

definition v2_taken :: "v2_tab \<Rightarrow> v2_request \<Rightarrow> nat \<Rightarrow> v2_event list \<Rightarrow> nat \<Rightarrow> v2_state \<Rightarrow> bool" where
  "v2_taken t q limit events k st \<longleftrightarrow> v2_ready t q st \<and> h_header_limit st = limit \<and> h_events st = events \<and> h_length st = k
     \<and> \<not> h_parse_name st \<and> \<not> h_parse_value st \<and> \<not> h_index st"

lemma process_read:
  assumes "v2_ready t q st" "\<not> h_parse_name st" "h = (fst (h_header st), if h_parse_value st then h_field st else snd (h_header st))"
    "length (fst h) + length (snd h) + limit = h_header_limit st" "v2_process_header (vc_http cf) q h = V2_header q'"
  shows "\<exists>st'. v2_loops cf State_process_header st tl_bytes State_header_complete st' tl_bytes
    \<and> v2_taken (if h_index st then tab_add t h else t) q' limit (h_events st) (h_length st) st'"
proof -
  define st1 where "st1 = (if h_parse_value st then st\<lparr>h_parse_value := False, h_header := (fst (h_header st), h_field st)\<rparr> else st)
    \<lparr>h_header_limit := limit\<rparr>"
  have st1: "h_header st1 = h" "h_index st1 = h_index st" "h_stream st1 = Some q" "h_hpack st1 = h_hpack st"
    "\<not> h_parse_value st1" "\<not> h_parse_name st1" "h_header_limit st1 = limit" "h_events st1 = h_events st" "h_length st1 = h_length st"
    "v2_ready t q st1"
    using assms(1-3) by (auto simp: st1_def v2_ready_def end_headers_def)
  obtain st2 where st2: "v2_header_indexed st1 = Some st2" "h_header st2 = h" "h_stream st2 = Some q"
    "v2_taken (if h_index st then tab_add t h else t) q limit (h_events st) (h_length st) st2"
  proof (cases "h_index st")
    case True
    from hp_tab_add [of "h_hpack st1" t h] st1 obtain hp where "ngx_http_v2_add_header (h_hpack st1) h = Some hp" "hp_tab hp (tab_add t h)"
      by (auto simp: v2_ready_def)
    with True st1 that [of "st1\<lparr>h_hpack := hp, h_index := False\<rparr>"] show thesis
      by (simp add: v2_header_indexed_def v2_taken_def v2_ready_def end_headers_def)
  next
    case False
    with st1 that [of st1] show thesis by (simp add: v2_header_indexed_def v2_taken_def)
  qed
  have limit: "h_header_limit st - (length (fst h) + length (snd h)) = limit" "length (fst h) + length (snd h) \<le> h_header_limit st"
    using assms(4) by linarith+
  have "v2_handle cf State_process_header st tl_bytes = V2_call State_header_complete (st2\<lparr>h_stream := Some q'\<rparr>) tl_bytes"
    using assms(2, 3, 5) limit st2(1-3)
    by (auto simp: v2_handle_def ngx_http_v2_state_process_header_def v2_header_request_def st1_def Let_def)
  from loops_call [OF this] st2(4) show ?thesis
    by (auto simp: v2_taken_def v2_ready_def end_headers_def)
qed

lemma literal_first_in:
  "literal_first l \<in> {(0x80, 7), (0x40, 6), (0x20, 5), (0x10, 4), (0, 4)}" "fst (literal_first l) \<noteq> 0x80"
  "fst (literal_first l) \<noteq> 0x20" "fst (literal_first l) = 0x40 \<longleftrightarrow> l = With_indexing"
  by (cases l; simp)+

text \<open>A literal header: its first integer, and the handler of the string that follows.\<close>

lemma literal_read:
  assumes "v2_taken t q limit events (length (int_wire (literal_first l) val) + k) st" "val < 2 ^ 21"
  shows "v2_handle cf State_header_block st (int_wire (literal_first l) val @ tl_bytes) =
    header_first Not_indexed val (st\<lparr>h_index := (l = With_indexing), h_length := k\<rparr>) tl_bytes"
proof -
  have same: "header_first Incremental val st' tl_bytes = header_first Not_indexed val st' tl_bytes" for st'
    by (simp add: header_first_def)
  obtain first bits where first: "literal_first l = (first, bits)" by fastforce
  note read = int_read [of t q st first bits val k cf tl_bytes]
  show ?thesis
  proof (cases "l = With_indexing")
    case True
    with read first literal_first_in [of l] assms same show ?thesis by (simp add: v2_taken_def)
  next
    case False
    with assms(1) have "st\<lparr>h_index := (l = With_indexing), h_length := k\<rparr> = st\<lparr>h_length := k\<rparr>"
      by (cases st) (simp add: v2_taken_def)
    with False read first literal_first_in [of l] assms show ?thesis by (simp only:) (simp add: v2_taken_def)
  qed
qed

lemma header_read:
  assumes "v2_taken t q (length (fst h) + length (snd h) + limit) events (length (repr_wire r) + k) st" "repr_ok cf r"
    "repr_header t r = Some h" "v2_process_header (vc_http cf) q h = V2_header q'"
  shows "\<exists>st'. v2_loops cf State_header_block st (repr_wire r @ tl_bytes) State_header_complete st' tl_bytes
    \<and> v2_taken (repr_tab t r h) q' limit events k st'"
proof (cases r)
  case (Repr_indexed i)
  have ready: "v2_ready t q st" using assms(1) by (simp add: v2_taken_def)
  then have "ngx_http_v2_get_indexed_header (h_hpack st) (h_header st) i False = Some h"
    using hp_tab_lookup(1) [of "h_hpack st" t "h_header st" i] assms(3) Repr_indexed by (auto simp: v2_ready_def)
  with int_read [OF ready, where first = "0x80" and bits = 7 and val = i and k = k and cf = cf and tl_bytes = tl_bytes] assms(1, 2) Repr_indexed have
    "v2_handle cf State_header_block st (repr_wire r @ tl_bytes) = V2_call State_process_header (st\<lparr>h_length := k, h_header := h\<rparr>) tl_bytes"
    by (simp add: v2_taken_def header_first_def)
  note call = loops_call [OF this]
  have "v2_ready t q (st\<lparr>h_length := k, h_header := h\<rparr>)" using ready by (simp add: v2_ready_def end_headers_def)
  from process_read [OF this, of h limit cf q' tl_bytes] loops_trans [OF call] assms(1, 4) Repr_indexed show ?thesis
    by (auto simp: v2_taken_def)
next
  case (Repr_named l i s)
  define st1 where "st1 = st\<lparr>h_index := (l = With_indexing), h_length := length (string_wire s) + k\<rparr>"
  have ready: "v2_ready t q st1" using assms(1) by (simp add: v2_taken_def v2_ready_def end_headers_def st1_def)
  obtain h0 where h0: "tab_lookup t i = Some h0" "h = (fst h0, string_value s)" using assms(3) Repr_named by auto
  then have i: "i \<noteq> 0" by (auto simp: tab_lookup_def Let_def split: if_splits)
  from hp_tab_lookup(2) [of "h_hpack st1" t "h_header st1" i] ready h0 obtain h1 where
    h1: "ngx_http_v2_get_indexed_header (h_hpack st1) (h_header st1) i True = Some h1" "fst h1 = fst h0"
    by (auto simp: v2_ready_def)
  define st2 where "st2 = st1\<lparr>h_header := h1, h_parse_value := True\<rparr>"
  have "v2_taken t q (length (fst h) + length (snd h) + limit) events (length (int_wire (literal_first l) i) + (length (string_wire s) + k)) st"
    using assms(1) Repr_named by (simp add: add.assoc)
  from literal_read [OF this, of cf "string_wire s @ tl_bytes"] assms(2) Repr_named i h1 have
    "v2_handle cf State_header_block st (repr_wire r @ tl_bytes) = V2_call State_field_len st2 (string_wire s @ tl_bytes)"
    by (simp add: header_first_def st1_def st2_def)
  note call = loops_call [OF this]
  have ready2: "v2_ready t q st2" using ready by (simp add: v2_ready_def end_headers_def st2_def)
  from string_read [OF ready2, of cf s k tl_bytes] assms(2) Repr_named obtain alloc where
    str: "v2_loops cf State_field_len st2 (string_wire s @ tl_bytes) State_process_header
      (st2\<lparr>h_length := k, h_field_rest := 0, h_alloc := alloc, h_field := string_value s\<rparr>) tl_bytes" (is "v2_loops _ _ _ _ _ ?st3 _")
    by (auto simp: st2_def st1_def)
  have "v2_ready t q ?st3" using ready2 by (simp add: v2_ready_def end_headers_def)
  from process_read [OF this, of h limit cf q' tl_bytes] loops_trans [OF loops_trans [OF call str]] assms(1, 4) h0 h1(2) Repr_named
  show ?thesis by (cases l) (auto simp: v2_taken_def st2_def st1_def)
next
  case (Repr_new l n s)
  define st1 where "st1 = st\<lparr>h_index := (l = With_indexing), h_length := length (string_wire n) + (length (string_wire s) + k),
    h_parse_name := True, h_parse_value := True\<rparr>"
  have ready: "v2_ready t q st1" using assms(1) by (simp add: v2_taken_def v2_ready_def end_headers_def st1_def)
  have h: "h = (string_value n, string_value s)" using assms(3) Repr_new by simp
  have "v2_taken t q (length (fst h) + length (snd h) + limit) events
      (length (int_wire (literal_first l) 0) + (length (string_wire n) + (length (string_wire s) + k))) st"
    using assms(1) Repr_new by (simp add: add.assoc)
  from literal_read [OF this, of cf "string_wire n @ string_wire s @ tl_bytes"] Repr_new have
    "v2_handle cf State_header_block st (repr_wire r @ tl_bytes) = V2_call State_field_len st1 (string_wire n @ string_wire s @ tl_bytes)"
    by (simp add: header_first_def st1_def)
  note call = loops_call [OF this]
  from string_read [OF ready, of cf n "length (string_wire s) + k" "string_wire s @ tl_bytes"] assms(2) Repr_new obtain alloc where
    name: "v2_loops cf State_field_len st1 (string_wire n @ string_wire s @ tl_bytes) State_process_header
      (st1\<lparr>h_length := length (string_wire s) + k, h_field_rest := 0, h_alloc := alloc, h_field := string_value n\<rparr>)
      (string_wire s @ tl_bytes)" (is "v2_loops _ _ _ _ _ ?st2 _")
    by (auto simp: st1_def)
  define st3 where "st3 = ?st2\<lparr>h_parse_name := False, h_header := (string_value n, snd (h_header st))\<rparr>"
  have "v2_handle cf State_process_header ?st2 (string_wire s @ tl_bytes) = V2_call State_field_len st3 (string_wire s @ tl_bytes)"
    by (simp add: v2_handle_def ngx_http_v2_state_process_header_def st3_def st1_def)
  note call2 = loops_call [OF this]
  have ready3: "v2_ready t q st3" using ready by (simp add: v2_ready_def end_headers_def st3_def)
  from string_read [OF ready3, of cf s k tl_bytes] assms(2) Repr_new obtain alloc' where
    val: "v2_loops cf State_field_len st3 (string_wire s @ tl_bytes) State_process_header
      (st3\<lparr>h_length := k, h_field_rest := 0, h_alloc := alloc', h_field := string_value s\<rparr>) tl_bytes" (is "v2_loops _ _ _ _ _ ?st4 _")
    by (auto simp: st3_def)
  have "v2_ready t q ?st4" using ready3 by (simp add: v2_ready_def end_headers_def)
  from process_read [OF this, of h limit cf q' tl_bytes] loops_trans [OF loops_trans [OF loops_trans [OF loops_trans [OF call name] call2] val]]
    assms(1, 4) h Repr_new
  show ?thesis by (cases l) (auto simp: v2_taken_def st3_def st1_def)
qed (use assms(3) in simp)

lemma size_read:
  assumes "v2_taken t q limit events (length (repr_wire (Repr_size m)) + k) st" "m \<le> 4096"
  shows "\<exists>st'. v2_loops cf State_header_block st (repr_wire (Repr_size m) @ tl_bytes) State_header_complete st' tl_bytes
    \<and> v2_taken (tab_size t m) q limit events k st'"
proof -
  have ready: "v2_ready t q st" using assms(1) by (simp add: v2_taken_def)
  with hp_tab_size [of "h_hpack st" t m] assms(2) obtain h where
    h: "ngx_http_v2_table_size (h_hpack st) m = Some h" "hp_tab h (tab_size t m)" by (auto simp: v2_ready_def)
  with int_read [OF ready, where first = "0x20" and bits = 5 and val = m and k = k and cf = cf and tl_bytes = tl_bytes] assms have
    "v2_handle cf State_header_block st (repr_wire (Repr_size m) @ tl_bytes) =
      V2_call State_header_complete (st\<lparr>h_length := k, h_hpack := h\<rparr>) tl_bytes"
    by (simp add: v2_taken_def header_first_def)
  from loops_call [OF this] assms(1) h(2) show ?thesis
    by (auto simp: v2_taken_def v2_ready_def end_headers_def)
qed

section \<open>A block is read\<close>

lemma int_wire_length: "(first, bits) \<in> {(0x80, 7), (0x40, 6), (0x20, 5), (0x10, 4), (0, 4)} \<Longrightarrow> int_wire (first, bits) val \<noteq> []"
  using write_int_hd(2) [of first bits val] by (auto simp: int_wire_def mask_eq_exp_minus_1)

lemma repr_wire_ne: "repr_wire r \<noteq> []"
proof (cases r)
  case (Repr_named l i s)
  then show ?thesis using int_wire_length literal_first_in(1) [of l] by (metis append_is_Nil_conv prod.collapse repr_wire.simps(2))
next
  case (Repr_new l n s)
  then show ?thesis using int_wire_length literal_first_in(1) [of l] by (metis append_is_Nil_conv prod.collapse repr_wire.simps(3))
qed (use int_wire_length in simp_all)

definition v2_size :: "v2_header list \<Rightarrow> nat" where
  "v2_size hs = sum_list (map (\<lambda>h. length (fst h) + length (snd h)) hs)"

lemma repr_read:
  assumes "v2_taken t q (v2_size hs + limit) events (length (repr_wire r) + k) st" "repr_ok cf r"
    "v2_decode t (r # rs) = Some (t', hs)" "v2_process_headers (vc_http cf) q hs = V2_header q'"
  shows "\<exists>st' t1 q1 hs1. v2_loops cf State_header_block st (repr_wire r @ tl_bytes) State_header_complete st' tl_bytes
    \<and> v2_taken t1 q1 (v2_size hs1 + limit) events k st' \<and> v2_decode t1 rs = Some (t', hs1)
    \<and> v2_process_headers (vc_http cf) q1 hs1 = V2_header q'"
proof (cases "\<exists>m. r = Repr_size m")
  case True
  then obtain m where m: "r = Repr_size m" by blast
  with assms(3) have "m \<le> 4096" "v2_decode (tab_size t m) rs = Some (t', hs)" by (auto split: if_splits)
  with size_read [of t q _ events m k st cf tl_bytes] assms(1, 4) m show ?thesis by blast
next
  case False
  then have "v2_decode t (r # rs) = (case repr_header t r of None \<Rightarrow> None
      | Some h \<Rightarrow> map_option (\<lambda>(t, hs). (t, h # hs)) (v2_decode (repr_tab t r h) rs))" by (cases r) auto
  with assms(3) obtain h hs1 where h: "repr_header t r = Some h" "v2_decode (repr_tab t r h) rs = Some (t', hs1)" "hs = h # hs1"
    by (auto split: option.splits)
  with assms(4) obtain q1 where q1: "v2_process_header (vc_http cf) q h = V2_header q1" "v2_process_headers (vc_http cf) q1 hs1 = V2_header q'"
    by (auto split: v2_header_rc.splits)
  have "v2_taken t q (length (fst h) + length (snd h) + (v2_size hs1 + limit)) events (length (repr_wire r) + k) st"
    using assms(1) h(3) by (simp add: v2_size_def add.assoc)
  from header_read [OF this assms(2) h(1) q1(1)] h(2) q1(2) show ?thesis by blast
qed

lemma block_read:
  "\<lbrakk>rs \<noteq> []; v2_taken t q (v2_size hs + limit) events (length (concat (map repr_wire rs))) st; list_all (repr_ok cf) rs;
    v2_decode t rs = Some (t', hs); v2_process_headers (vc_http cf) q hs = V2_header q'\<rbrakk>
   \<Longrightarrow> \<exists>st'. v2_loops cf State_header_block st (concat (map repr_wire rs) @ tl_bytes) State_header_complete st' tl_bytes
     \<and> v2_taken t' q' limit events 0 st'"
proof (induction rs arbitrary: t q hs st)
  case (Cons r rs)
  let ?w = "concat (map repr_wire rs)"
  have "v2_taken t q (v2_size hs + limit) events (length (repr_wire r) + length ?w) st" using Cons.prems(2) by simp
  from repr_read [OF this _ Cons.prems(4, 5), of "?w @ tl_bytes"] Cons.prems(3) obtain st1 t1 q1 hs1 where
    r: "v2_loops cf State_header_block st (repr_wire r @ ?w @ tl_bytes) State_header_complete st1 (?w @ tl_bytes)"
    "v2_taken t1 q1 (v2_size hs1 + limit) events (length ?w) st1" "v2_decode t1 rs = Some (t', hs1)"
    "v2_process_headers (vc_http cf) q1 hs1 = V2_header q'" by auto
  show ?case
  proof (cases rs)
    case Nil
    with r show ?thesis by (auto simp: v2_size_def)
  next
    case (Cons r2 rs2)
    then have ne: "?w \<noteq> []" "rs \<noteq> []" using repr_wire_ne by simp_all
    with r(2) have "v2_handle cf State_header_complete st1 (?w @ tl_bytes) = V2_return State_header_block st1 (?w @ tl_bytes)"
      by (simp add: v2_handle_def ngx_http_v2_state_header_complete_def v2_taken_def)
    from loops_return [OF this] ne have
      next_block: "v2_loops cf State_header_complete st1 (?w @ tl_bytes) State_header_block st1 (?w @ tl_bytes)" by simp
    from Cons.IH [OF ne(2) r(2) _ r(3, 4)] Cons.prems(3) loops_trans [OF loops_trans [OF r(1) next_block]] show ?thesis by auto
  qed
qed simp

lemma v2_block_decoded:
  assumes "rs \<noteq> []" "v2_taken t q (v2_size hs + limit) events (length (concat (map repr_wire rs))) st" "list_all (repr_ok cf) rs"
    "v2_decode t rs = Some (t', hs)" "v2_process_headers (vc_http cf) q hs = V2_header q'"
  shows "\<exists>st'. v2_loop cf State_header_block st (concat (map repr_wire rs) @ tl_bytes) = Some (V2_frame st' tl_bytes)
    \<and> hp_tab (h_hpack st') t' \<and> h_events st' = events @ [Ev_run (ngx_http_v2_run_request (vc_http cf) q')]"
proof -
  from block_read [OF assms, of tl_bytes] obtain st1 where
    st1: "v2_loops cf State_header_block st (concat (map repr_wire rs) @ tl_bytes) State_header_complete st1 tl_bytes"
    "v2_taken t' q' limit events 0 st1" by blast
  then have "v2_loop cf State_header_complete st1 tl_bytes = Some (V2_frame
      ((v2_event_add (Ev_run (ngx_http_v2_run_request (vc_http cf) q')) st1)\<lparr>h_stream := None\<rparr>) tl_bytes)"
    by (simp add: v2_loop.simps [of cf State_header_complete] v2_handle_def ngx_http_v2_state_header_complete_def v2_taken_def
        v2_ready_def v2_event_add_def ngx_http_v2_state_complete_def)
  with st1 show ?thesis by (simp add: v2_loops_def v2_taken_def v2_ready_def v2_event_add_def)
qed

section \<open>The standard\<close>

text \<open>
  RFC 7541: a connection has its dynamic table, with the size 4096 until an update, from the start. A header is
  looked up in the static and then in the dynamic table (2.3.3), a literal with indexing is inserted (4.4), a size
  update evicts what does not fit (4.3); an index past both tables and a size above the limit are errors.
\<close>

type_synonym rfc_table = "nat \<times> v2_header list"

definition rfc_table_init :: rfc_table where
  "rfc_table_init = (4096, [])"

definition rfc_lookup :: "v2_header list \<Rightarrow> nat \<Rightarrow> v2_header option" where
  "rfc_lookup hs i =
     (if i = 0 then None
      else if i \<le> length ngx_http_v2_static_table then Some (ngx_http_v2_static_table ! (i - 1))
      else if i \<le> length ngx_http_v2_static_table + length hs
      then Some (hs ! (i - length ngx_http_v2_static_table - 1))
      else None)"

fun rfc_header :: "v2_header list \<Rightarrow> v2_repr \<Rightarrow> v2_header option" where
  "rfc_header hs (Repr_indexed i) = rfc_lookup hs i"
| "rfc_header hs (Repr_named l i s) =
     (case rfc_lookup hs i of None \<Rightarrow> None | Some (n, v) \<Rightarrow> Some (n, string_value s))"
| "rfc_header hs (Repr_new l n s) = Some (string_value n, string_value s)"
| "rfc_header hs (Repr_size m) = None"

fun repr_inserts :: "v2_repr \<Rightarrow> bool" where
  "repr_inserts (Repr_named l i s) \<longleftrightarrow> l = With_indexing"
| "repr_inserts (Repr_new l n s) \<longleftrightarrow> l = With_indexing"
| "repr_inserts r \<longleftrightarrow> False"

fun rfc_decode :: "rfc_table \<Rightarrow> v2_repr list \<Rightarrow> (rfc_table \<times> v2_header list) option" where
  "rfc_decode (m, hs) [] = Some ((m, hs), [])"
| "rfc_decode (m, hs) (Repr_size m' # rs) = (if m' \<le> 4096 then rfc_decode (m', v2_fit m' hs) rs else None)"
| "rfc_decode (m, hs) (r # rs) =
     (case rfc_header hs r of
        None \<Rightarrow> None
      | Some h \<Rightarrow>
          (case rfc_decode (m, if repr_inserts r then v2_spec_add m hs h else hs) rs of
             None \<Rightarrow> None
           | Some (T, xs) \<Rightarrow> Some (T, h # xs)))"

text \<open>
  The one deviation: ngx_http_v2_add_header() creates the table and then forgets the updates so far. A block is
  not affected if it has no update, but to 4096, ahead of its first insertion.
\<close>

fun no_early_size :: "v2_repr list \<Rightarrow> bool" where
  "no_early_size [] \<longleftrightarrow> True"
| "no_early_size (Repr_size m # rs) \<longleftrightarrow> m = 4096 \<and> no_early_size rs"
| "no_early_size (r # rs) \<longleftrightarrow> repr_inserts r \<or> no_early_size rs"

definition rfc_of :: "v2_tab \<Rightarrow> rfc_table" where
  "rfc_of t = (case t of None \<Rightarrow> rfc_table_init | Some T \<Rightarrow> T)"

lemma rfc_lookup_eq: "tab_lookup t i = rfc_lookup (tab_headers t) i"
  by (auto simp: tab_lookup_def rfc_lookup_def Let_def nth_append)

lemma rfc_header_eq: "repr_header t r = rfc_header (tab_headers t) r"
  by (cases r) (auto simp: rfc_lookup_eq split: option.splits)

lemma rfc_of_headers: "snd (rfc_of t) = tab_headers t"
  by (auto simp: rfc_of_def rfc_table_init_def tab_headers_def split: option.splits)

lemma rfc_of_insert:
  "rfc_of (repr_tab t r h) = (fst (rfc_of t),
    if repr_inserts r then v2_spec_add (fst (rfc_of t)) (tab_headers t) h else tab_headers t)"
  by (cases "(t, r, h)" rule: repr_tab.cases)
    (auto simp: rfc_of_def rfc_table_init_def tab_add_def tab_headers_def split: option.splits v2_literal.splits)

lemma repr_tab_inserts: "repr_inserts r \<Longrightarrow> repr_tab t r h \<noteq> None"
  by (cases r) (auto simp: tab_add_def split: option.splits)

lemma rfc_decode_eq:
  "t \<noteq> None \<or> no_early_size rs \<Longrightarrow> rfc_decode (rfc_of t) rs = map_option (\<lambda>(t', hs). (rfc_of t', hs)) (v2_decode t rs)"
proof (induction rs arbitrary: t)
  case Nil
  then show ?case by (cases "rfc_of t") simp
next
  case (Cons r rs)
  obtain m hs where T: "rfc_of t = (m, hs)" by fastforce
  then have hs: "tab_headers t = hs" using rfc_of_headers [of t] by simp
  show ?case
  proof (cases "\<exists>k. r = Repr_size k")
    case True
    then obtain k where r: "r = Repr_size k" by blast
    have "rfc_of (tab_size t k) = (k, v2_fit k hs)" if "t \<noteq> None \<or> k = 4096"
      using that T hs by (auto simp: tab_size_def rfc_of_def rfc_table_init_def split: option.splits)
    moreover have "tab_size t k \<noteq> None \<or> no_early_size rs" using Cons.prems r by (auto simp: tab_size_def)
    ultimately show ?thesis using Cons.IH [of "tab_size t k"] Cons.prems r T by auto
  next
    case False
    have step: "v2_decode t (r # rs) = (case repr_header t r of None \<Rightarrow> None
        | Some h \<Rightarrow> map_option (\<lambda>(t, hs). (t, h # hs)) (v2_decode (repr_tab t r h) rs))"
      "rfc_decode (m, hs) (r # rs) = (case rfc_header hs r of None \<Rightarrow> None
        | Some h \<Rightarrow> (case rfc_decode (m, if repr_inserts r then v2_spec_add m hs h else hs) rs of None \<Rightarrow> None
            | Some (T, xs) \<Rightarrow> Some (T, h # xs)))"
      "no_early_size (r # rs) \<longleftrightarrow> repr_inserts r \<or> no_early_size rs"
      using False by (cases r; simp only: v2_decode.simps rfc_decode.simps no_early_size.simps; blast)+
    show ?thesis
    proof (cases "repr_header t r")
      case None
      then show ?thesis using step(1,2) T hs rfc_header_eq [of t r] by simp
    next
      case (Some h)
      have ins: "rfc_of (repr_tab t r h) = (m, if repr_inserts r then v2_spec_add m hs h else hs)"
        using rfc_of_insert [of t r h] T hs by simp
      have "repr_tab t r h \<noteq> None \<or> no_early_size rs"
      proof (cases "repr_inserts r")
        case False
        then have "repr_tab t r h = t" by (cases "(t, r, h)" rule: repr_tab.cases) auto
        with False Cons.prems step(3) show ?thesis by simp
      qed (simp add: repr_tab_inserts)
      from Cons.IH [OF this] ins Some step(1,2) T hs rfc_header_eq [of t r] show ?thesis
        by (auto split: option.splits)
    qed
  qed
qed

text \<open>
  C30. A header block that has been written as RFC 7541 says, with any choice of representations, indices, table updates
  and coded or raw strings, is read to its end: the table becomes the table of the standard, the headers the
  standard decodes it to are taken one after the other, and the request with them is run. Size updates that come
  before the connection has inserted its first header are excluded, unless they are to the initial 4096: the first insertion
  undoes them in ngx_http_v2_table.c, where the standard keeps them.
\<close>

theorem ngx_http_v2_header_block_decodes:
  assumes "rs \<noteq> []" "v2_taken t q (v2_size hs + limit) events (length (concat (map repr_wire rs))) st" "list_all (repr_ok cf) rs"
    "t \<noteq> None \<or> no_early_size rs"
    "rfc_decode (rfc_of t) rs = Some (T, hs)" "v2_process_headers (vc_http cf) q hs = V2_header q'"
  shows "\<exists>st' t'. v2_loop cf State_header_block st (concat (map repr_wire rs) @ tl_bytes) = Some (V2_frame st' tl_bytes)
    \<and> hp_tab (h_hpack st') t' \<and> rfc_of t' = T \<and> h_events st' = events @ [Ev_run (ngx_http_v2_run_request (vc_http cf) q')]"
proof -
  from rfc_decode_eq [OF assms(4)] assms(5)
  have "map_option (\<lambda>(t', hs). (rfc_of t', hs)) (v2_decode t rs) = Some (T, hs)" by simp
  then obtain t' where "v2_decode t rs = Some (t', hs)" "rfc_of t' = T" by auto
  with v2_block_decoded [OF assms(1-3) _ assms(6)] show ?thesis by blast
qed

theorem ngx_http_v2_header_block_decodes_witness:
  "\<exists>st'. v2_loop ex_v2_cf State_header_block ((ex_v2_state 1)\<lparr>h_stream := Some (v2_request_init 0 True)\<rparr>) [0x82] = Some (V2_frame st' [])
    \<and> h_events st' = [Ev_run (ngx_http_v2_run_request (vc_http ex_v2_cf)
        ((v2_request_init 0 True)\<lparr>vr_method_name := bytes_of ''GET'', vr_method := NGX_HTTP_GET\<rparr>))]"
proof -
  let ?h = "(bytes_of '':method'', bytes_of ''GET'')"
  have wire: "concat (map repr_wire [Repr_indexed 2]) = [0x82]"
    by (simp add: int_wire_def ngx_http_v2_write_int_def ngx_http_v2_prefix_def)
  have taken: "v2_taken None (v2_request_init 0 True) (v2_size [?h] + 16374) [] (length (concat (map repr_wire [Repr_indexed 2])))
      ((ex_v2_state 1)\<lparr>h_stream := Some (v2_request_init 0 True)\<rparr>)"
    unfolding wire using hp_tab_zero by (simp add: v2_taken_def v2_ready_def ex_v2_state_def end_headers_def v2_size_def)
  have decode: "rfc_decode (rfc_of None) [Repr_indexed 2] = Some (rfc_table_init, [?h])"
    by (simp add: rfc_of_def rfc_table_init_def rfc_lookup_def ngx_http_v2_static_table_def)
  have "vc_http ex_v2_cf = ex_cf" by (simp add: ex_v2_cf_def ex_cf_def)
  then have run: "v2_process_headers (vc_http ex_v2_cf) (v2_request_init 0 True) [?h] =
      V2_header ((v2_request_init 0 True)\<lparr>vr_method_name := bytes_of ''GET'', vr_method := NGX_HTTP_GET\<rparr>)"
    using example_method by simp
  from ngx_http_v2_header_block_decodes [OF _ taken _ _ decode run, of "[]"] wire show ?thesis by auto
qed

text \<open>
  C31. A string that ngx_http_v2_string_encode() has written, with its flag, its length and its codes, is read by the
  handlers of a header block as the string it was written for, or as its lower case form.
\<close>

theorem ngx_http_v2_string_roundtrip:
  assumes "v2_ready t q st" "length src \<le> max_field_size cf" "length src < 2 ^ 21"
    "h_length st = length (ngx_http_v2_string_encode src lower) + k"
  shows "\<exists>alloc. v2_loop cf State_field_len st (ngx_http_v2_string_encode src lower @ tl_bytes) =
    v2_loop cf State_process_header
      (st\<lparr>h_length := k, h_field_rest := 0, h_alloc := alloc, h_field := if lower then map ngx_tolower src else src\<rparr>) tl_bytes"
proof -
  let ?s = "if ngx_http_v2_huff_encode src lower = [] then Raw_string (huff_source src lower)
      else Coded_string (huff_source src lower) (ngx_http_v2_huff_encode src lower)"
  have "string_value ?s = huff_source src lower" by simp
  with string_read [OF assms(1) string_encode_ok [OF assms(2, 3)], of lower k tl_bytes] assms(4) show ?thesis
    by (simp only: string_encode_wire v2_loops_def huff_source_def)
qed

theorem ngx_http_v2_string_roundtrip_witness:
  "\<exists>alloc. v2_loop ex_v2_cf State_field_len ((ex_v2_state 2)\<lparr>h_stream := Some (v2_request_init 0 True)\<rparr>) [1, 0x61] =
    v2_loop ex_v2_cf State_process_header
      ((ex_v2_state 0)\<lparr>h_stream := Some (v2_request_init 0 True), h_alloc := alloc, h_field := bytes_of ''a''\<rparr>) []"
proof -
  have "length (huff_codes (bytes_of ''a'')) = 5" by (simp add: huff_code_bits_def huff_enc_at huff_bits_length)
  then have "ngx_http_v2_huff_encode (bytes_of ''a'') False = []"
    using ngx_http_v2_huff_encode_bits [of "bytes_of ''a''" False] by (simp add: huff_source_def Let_def)
  then have wire: "ngx_http_v2_string_encode (bytes_of ''a'') False = [1, 0x61]"
    by (simp add: ngx_http_v2_string_encode_def ngx_http_v2_write_int_def ngx_http_v2_prefix_def NGX_HTTP_V2_ENCODE_RAW_def)
  have "v2_ready None (v2_request_init 0 True) ((ex_v2_state 2)\<lparr>h_stream := Some (v2_request_init 0 True)\<rparr>)"
    using hp_tab_zero by (simp add: v2_ready_def ex_v2_state_def end_headers_def)
  from ngx_http_v2_string_roundtrip [OF this, of "bytes_of ''a''" ex_v2_cf False 0 "[]"] wire show ?thesis
    by (simp add: ex_v2_cf_def ex_v2_state_def)
qed

end
