(* ===== verification/V2_Priority.thy ===== *)
theory V2_Priority
  imports Prelude
begin

text \<open>
  The nodes of an HTTP/2 connection and the tree of their dependencies, in src/http/v2/ngx_http_v2.c:
  ngx_http_v2_get_node_by_id(), ngx_http_v2_get_closed_node(), ngx_http_v2_set_dependency() and
  ngx_http_v2_node_children_update(), with the parts of the handlers of the PRIORITY and HEADERS frames and of
  ngx_http_v2_close_stream() that work on nodes. A node is named by its identifier: pointers to nodes are
  identifiers, a queue of nodes is a list of them, and \<open>streams_index\<close> is a map. \<open>rel_weight\<close>, a double that only
  orders output frames, is not modelled.
\<close>

section \<open>State\<close>

text \<open>
  The body of a request: its buffer, of \<open>b_size\<close> bytes, of which \<open>b_used\<close> are before \<open>last\<close> and \<open>b_data\<close> from \<open>pos\<close> to
  \<open>last\<close>, with \<open>rest\<close> and \<open>received\<close> of the body and \<open>content_length_n\<close> and \<open>chunked\<close> of the request.
\<close>

record v2_body =
  b_sync :: bool
  b_size :: nat
  b_used :: nat
  b_data :: bytes
  b_rest :: bool
  b_received :: nat
  b_length :: int
  b_chunked :: bool

text \<open>A stream, with the member \<open>request_body_no_buffering\<close> and the body of its request, and \<open>error\<close> of its connection.\<close>

record v2_stream =
  s_send_window :: int
  s_recv_window :: nat
  s_preread :: "bytes option"
  s_exhausted :: bool
  s_in_closed :: bool
  s_out_closed :: bool
  s_rst_sent :: bool
  s_no_flow_control :: bool
  s_skip_data :: bool
  s_error :: bool
  s_no_buffering :: bool
  s_body :: "v2_body option"

text \<open>\<open>node->parent\<close>: NULL, NGX_HTTP_V2_ROOT, or a node.\<close>

datatype v2_parent = P_null | P_root | P_node nat

record v2_node =
  n_parent :: v2_parent
  n_children :: "nat list"
  n_rank :: nat
  n_weight :: nat
  n_stream :: "v2_stream option"

text \<open>\<open>t_closed_nodes\<close> is a bit field of 8 bits.\<close>

record v2_tree =
  t_nodes :: "nat \<rightharpoonup> v2_node"
  t_dependencies :: "nat list"
  t_closed :: "nat list"
  t_closed_nodes :: "8 word"

definition node_at :: "(nat \<rightharpoonup> v2_node) \<Rightarrow> nat \<Rightarrow> v2_node" where
  "node_at ns x = the (ns x)"

definition node_upd :: "nat \<Rightarrow> (v2_node \<Rightarrow> v2_node) \<Rightarrow> v2_tree \<Rightarrow> v2_tree" where
  "node_upd x f t = t\<lparr>t_nodes := (t_nodes t)(x := map_option f (t_nodes t x))\<rparr>"

text \<open>The stream of a node, where there is one.\<close>

definition tstream :: "v2_tree \<Rightarrow> nat \<Rightarrow> v2_stream option" where
  "tstream t x = (case t_nodes t x of None \<Rightarrow> None | Some n \<Rightarrow> n_stream n)"

text \<open>The queue of the children of a node, or \<open>h2c->dependencies\<close>.\<close>

definition children_upd :: "v2_parent \<Rightarrow> (nat list \<Rightarrow> nat list) \<Rightarrow> v2_tree \<Rightarrow> v2_tree" where
  "children_upd p f t =
     (case p of
        P_null \<Rightarrow> t
      | P_root \<Rightarrow> t\<lparr>t_dependencies := f (t_dependencies t)\<rparr>
      | P_node x \<Rightarrow> node_upd x (\<lambda>n. n\<lparr>n_children := f (n_children n)\<rparr>) t)"

definition children_of :: "v2_tree \<Rightarrow> v2_parent \<Rightarrow> nat list" where
  "children_of t p =
     (case p of P_null \<Rightarrow> [] | P_root \<Rightarrow> t_dependencies t | P_node x \<Rightarrow> n_children (node_at (t_nodes t) x))"

definition rank_of :: "v2_tree \<Rightarrow> v2_parent \<Rightarrow> nat" where
  "rank_of t p = (case p of P_node x \<Rightarrow> n_rank (node_at (t_nodes t) x) | _ \<Rightarrow> 0)"

fun insert_after :: "nat \<Rightarrow> nat \<Rightarrow> nat list \<Rightarrow> nat list" where
  "insert_after a x [] = []"
| "insert_after a x (y # ys) = (if y = a then y # x # ys else y # insert_after a x ys)"

section \<open>The ranks of a subtree\<close>

text \<open>
  The recursion of ngx_http_v2_node_children_update() with its stack: the children that are left to visit, each with the
  rank of the node that it was reached from.
\<close>

partial_function (option) ngx_http_v2_node_children_update ::
    "(nat \<times> nat) list \<Rightarrow> (nat \<rightharpoonup> v2_node) \<Rightarrow> (nat \<rightharpoonup> v2_node) option" where
  "ngx_http_v2_node_children_update todo ns =
     (case todo of
        [] \<Rightarrow> Some ns
      | (rank, c) # rest \<Rightarrow>
          (let n = (node_at ns c)\<lparr>n_rank := rank + 1\<rparr>
           in ngx_http_v2_node_children_update (map (Pair (rank + 1)) (n_children n) @ rest) (ns(c \<mapsto> n))))"

definition tree_update :: "nat \<Rightarrow> nat list \<Rightarrow> v2_tree \<Rightarrow> v2_tree option" where
  "tree_update rank cs t =
     map_option (\<lambda>ns. t\<lparr>t_nodes := ns\<rparr>) (ngx_http_v2_node_children_update (map (Pair rank) cs) (t_nodes t))"

definition node_update :: "nat \<Rightarrow> v2_tree \<Rightarrow> v2_tree option" where
  "node_update x t = tree_update (rank_of t (P_node x)) (children_of t (P_node x)) t"

section \<open>Nodes\<close>

text \<open>
  The node that is used again: the one whose stream has been closed for the longest time. Its children become
  children of its parent and share its weight. An empty queue \<open>closed\<close>, whose sentinel would be taken for a node, is None.
\<close>

definition closed_share :: "nat \<Rightarrow> nat \<Rightarrow> nat \<Rightarrow> nat" where
  "closed_share w tw cw = (let v = w * cw div tw in if v = 0 then 1 else v)"

definition adopt_child :: "v2_parent \<Rightarrow> nat \<Rightarrow> nat \<Rightarrow> nat \<Rightarrow> v2_tree \<Rightarrow> v2_tree" where
  "adopt_child p w tw c =
     node_upd c (\<lambda>n. n\<lparr>n_parent := p, n_weight := closed_share w tw (n_weight n)\<rparr>)"

definition ngx_http_v2_get_closed_node :: "v2_tree \<Rightarrow> v2_tree option" where
  "ngx_http_v2_get_closed_node t =
     (case t_closed t of
        [] \<Rightarrow> None
      | x # rest \<Rightarrow>
          (let node = node_at (t_nodes t) x; p = n_parent node; cs = n_children node;
               t = t\<lparr>t_closed_nodes := t_closed_nodes t - 1, t_closed := rest\<rparr>;
               t = children_upd p (remove1 x) t;
               weight = sum_list (map (\<lambda>c. n_weight (node_at (t_nodes t) c)) cs);
               t = fold (adopt_child p (n_weight node) weight) cs t
           in (case tree_update (rank_of t p) cs t of
                 None \<Rightarrow> None
               | Some t \<Rightarrow>
                   (let t = children_upd p (\<lambda>xs. xs @ cs) t in Some (t\<lparr>t_nodes := (t_nodes t)(x := None)\<rparr>)))))"

definition new_node :: v2_node where
  "new_node = \<lparr>n_parent = P_null, n_children = [], n_rank = 0, n_weight = 0, n_stream = None\<rparr>"

text \<open>ngx_http_v2_get_node_by_id() with \<open>alloc\<close>; without it, it is \<open>t_nodes\<close>.\<close>

definition ngx_http_v2_get_node_by_id :: "v2_tree \<Rightarrow> nat \<Rightarrow> v2_tree option" where
  "ngx_http_v2_get_node_by_id t sid =
     (if t_nodes t sid \<noteq> None then Some t
      else
        map_option (\<lambda>t. t\<lparr>t_nodes := (t_nodes t)(sid \<mapsto> new_node)\<rparr>)
          (if t_closed_nodes t < 32 then Some t else ngx_http_v2_get_closed_node t))"

section \<open>Dependencies\<close>

text \<open>The search for \<open>node\<close> among the nodes above \<open>parent\<close>, no higher than its rank. NULL is never reached.\<close>

partial_function (option) node_above :: "(nat \<rightharpoonup> v2_node) \<Rightarrow> nat \<Rightarrow> v2_parent \<Rightarrow> bool option" where
  "node_above ns x next =
     (case next of
        P_null \<Rightarrow> None
      | P_root \<Rightarrow> Some False
      | P_node y \<Rightarrow>
          if n_rank (node_at ns y) \<ge> n_rank (node_at ns x)
          then (if y = x then Some True else node_above ns x (n_parent (node_at ns y)))
          else Some False)"

text \<open>The parent that is below the node takes the place after it.\<close>

definition parent_up :: "nat \<Rightarrow> nat \<Rightarrow> bool \<Rightarrow> v2_tree \<Rightarrow> v2_tree option" where
  "parent_up x p exclusive t =
     (let up = n_parent (node_at (t_nodes t) x);
          t = children_upd (n_parent (node_at (t_nodes t) p)) (remove1 p) t;
          t = children_upd up (insert_after x p) t;
          rank = rank_of t up + 1;
          t = node_upd p (\<lambda>n. n\<lparr>n_parent := up, n_rank := rank\<rparr>) t
      in if exclusive then Some t else node_update p t)"

definition depend_parent :: "nat \<Rightarrow> nat \<Rightarrow> bool \<Rightarrow> v2_tree \<Rightarrow> v2_tree option" where
  "depend_parent x p exclusive t =
     (if n_parent (node_at (t_nodes t) x) \<noteq> P_null
      then
        (case node_above (t_nodes t) x (n_parent (node_at (t_nodes t) p)) of
           None \<Rightarrow> None
         | Some found \<Rightarrow> if found then parent_up x p exclusive t else Some t)
      else Some t)"

text \<open>The node becomes the last child of \<open>p\<close>, and its only one when it is exclusive.\<close>

definition take_child :: "nat \<Rightarrow> nat \<Rightarrow> v2_tree \<Rightarrow> v2_tree" where
  "take_child x c = node_upd c (\<lambda>n. n\<lparr>n_parent := P_node x\<rparr>)"

definition take_children :: "nat \<Rightarrow> v2_parent \<Rightarrow> v2_tree \<Rightarrow> v2_tree" where
  "take_children x p t =
     (let cs = children_of t p;
          t = fold (take_child x) cs t;
          t = children_upd (P_node x) (\<lambda>xs. xs @ cs) t
      in children_upd p (\<lambda>_. []) t)"

definition insert_child :: "nat \<Rightarrow> v2_parent \<Rightarrow> bool \<Rightarrow> v2_tree \<Rightarrow> v2_tree option" where
  "insert_child x p exclusive t =
     (let t = (if exclusive then take_children x p t else t);
          t = children_upd (n_parent (node_at (t_nodes t) x)) (remove1 x) t;
          t = children_upd p (\<lambda>xs. xs @ [x]) t;
          t = node_upd x (\<lambda>n. n\<lparr>n_parent := p\<rparr>) t
      in node_update x t)"

definition reuse_last :: "nat \<Rightarrow> v2_tree \<Rightarrow> v2_tree" where
  "reuse_last p t =
     (if n_stream (node_at (t_nodes t) p) = None then t\<lparr>t_closed := remove1 p (t_closed t) @ [p]\<rparr> else t)"

definition ngx_http_v2_set_dependency :: "v2_tree \<Rightarrow> nat \<Rightarrow> nat \<Rightarrow> bool \<Rightarrow> v2_tree option" where
  "ngx_http_v2_set_dependency t x depend exclusive =
     (if depend = 0 \<or> t_nodes t depend = None
      then insert_child x P_root (exclusive \<and> depend = 0) (node_upd x (\<lambda>n. n\<lparr>n_rank := 1\<rparr>) t)
      else
        (case depend_parent x depend exclusive t of
           None \<Rightarrow> None
         | Some t \<Rightarrow>
             (let rank = rank_of t (P_node depend) + 1;
                  t = reuse_last depend (node_upd x (\<lambda>n. n\<lparr>n_rank := rank\<rparr>) t)
              in insert_child x (P_node depend) exclusive t)))"

section \<open>The nodes of the frames\<close>

text \<open>
  PRIORITY, HEADERS, and the end of a stream. An identifier is not 0, and a node does not depend on itself: the
  handlers see to that before.
\<close>

definition priority_reuse :: "nat \<Rightarrow> v2_tree \<Rightarrow> v2_tree" where
  "priority_reuse sid t =
     (let node = node_at (t_nodes t) sid
      in if n_stream node \<noteq> None then t
         else if n_parent node = P_null
         then t\<lparr>t_closed_nodes := t_closed_nodes t + 1, t_closed := t_closed t @ [sid]\<rparr>
         else t\<lparr>t_closed := remove1 sid (t_closed t) @ [sid]\<rparr>)"

definition priority_node :: "v2_tree \<Rightarrow> nat \<Rightarrow> nat \<Rightarrow> bool \<Rightarrow> nat \<Rightarrow> v2_tree option" where
  "priority_node t sid depend exclusive weight =
     (case ngx_http_v2_get_node_by_id t sid of
        None \<Rightarrow> None
      | Some t \<Rightarrow>
          ngx_http_v2_set_dependency (priority_reuse sid (node_upd sid (\<lambda>n. n\<lparr>n_weight := weight\<rparr>) t)) sid depend exclusive)"

definition headers_node :: "v2_tree \<Rightarrow> nat \<Rightarrow> bool \<Rightarrow> nat \<Rightarrow> bool \<Rightarrow> nat \<Rightarrow> v2_stream \<Rightarrow> v2_tree option" where
  "headers_node t sid priority depend exclusive weight stream =
     (case ngx_http_v2_get_node_by_id t sid of
        None \<Rightarrow> None
      | Some t \<Rightarrow>
          (let fresh = (n_parent (node_at (t_nodes t) sid) = P_null);
               t = (if fresh then t
                    else t\<lparr>t_closed := remove1 sid (t_closed t), t_closed_nodes := t_closed_nodes t - 1\<rparr>);
               t = node_upd sid (\<lambda>n. n\<lparr>n_stream := Some stream\<rparr>) t
           in if priority \<or> fresh
              then ngx_http_v2_set_dependency (node_upd sid (\<lambda>n. n\<lparr>n_weight := weight\<rparr>) t) sid depend exclusive
              else Some t))"

definition close_node :: "v2_tree \<Rightarrow> nat \<Rightarrow> v2_tree" where
  "close_node t sid =
     (let t = node_upd sid (\<lambda>n. n\<lparr>n_stream := None\<rparr>) t
      in t\<lparr>t_closed := t_closed t @ [sid], t_closed_nodes := t_closed_nodes t + 1\<rparr>)"

end
