(* ===== verification/V2_Priority_Tree.thy ===== *)
theory V2_Priority_Tree
  imports V2_Priority
begin

text \<open>
  The dependency tree of an HTTP/2 connection stays a tree: the parents of nodes have no cycle, the rank of a node
  is its depth, the queues of children agree with the parents, and the queue of closed nodes holds the nodes without
  a stream. So the searches and the recursion over the tree end.
\<close>

section \<open>Trees as parents\<close>

definition bel :: "(nat \<Rightarrow> v2_parent) \<Rightarrow> nat \<Rightarrow> nat set" where
  "bel pa x = {y. (x, y) \<in> {(a, b). pa b = P_node a}\<^sup>*}"

definition under :: "(nat \<Rightarrow> v2_parent) \<Rightarrow> v2_parent \<Rightarrow> nat set" where
  "under pa q = {y. \<exists>c. pa c = q \<and> y \<in> bel pa c}"

definition dep :: "(nat \<Rightarrow> v2_parent) \<Rightarrow> (nat \<Rightarrow> nat) \<Rightarrow> bool" where
  "dep pa d \<longleftrightarrow> (\<forall>x. case pa x of P_null \<Rightarrow> True | P_root \<Rightarrow> d x = 1 | P_node p \<Rightarrow> pa p \<noteq> P_null \<and> d x = d p + 1)"

definition depth_at :: "(nat \<Rightarrow> nat) \<Rightarrow> v2_parent \<Rightarrow> nat" where
  "depth_at d q = (case q of P_node p \<Rightarrow> d p | _ \<Rightarrow> 0)"

lemma bel_refl [simp]: "x \<in> bel pa x"
  by (simp add: bel_def)

lemma bel_step: "z \<in> bel pa x \<Longrightarrow> pa y = P_node z \<Longrightarrow> y \<in> bel pa x"
  unfolding bel_def by (auto intro: rtrancl_into_rtrancl)

lemma bel_induct [consumes 1, case_names self step, induct set: bel]:
  assumes "y \<in> bel pa x" "P x" "\<And>z y. z \<in> bel pa x \<Longrightarrow> P z \<Longrightarrow> pa y = P_node z \<Longrightarrow> P y"
  shows "P y"
  using assms(1) unfolding bel_def mem_Collect_eq
  by (induction rule: rtrancl_induct) (auto intro: assms(2,3) simp: bel_def)

lemma bel_parent: "y \<in> bel pa x \<Longrightarrow> y \<noteq> x \<Longrightarrow> pa y = P_node z \<Longrightarrow> z \<in> bel pa x"
  by (induction rule: bel_induct) auto

lemma bel_child: "y \<in> bel pa x \<Longrightarrow> y \<noteq> x \<Longrightarrow> \<exists>z. pa y = P_node z"
  by (induction rule: bel_induct) auto

lemma bel_trans: "z \<in> bel pa y \<Longrightarrow> y \<in> bel pa x \<Longrightarrow> z \<in> bel pa x"
  unfolding bel_def by auto

lemma bel_unfold: "bel pa x = insert x (\<Union>c \<in> {c. pa c = P_node x}. bel pa c)" (is "_ = ?r")
proof
  show "bel pa x \<subseteq> ?r"
  proof
    fix y assume "y \<in> bel pa x"
    then show "y \<in> ?r" by (induction rule: bel_induct) (auto intro: bel_step)
  qed
  show "?r \<subseteq> bel pa x" by (auto intro: bel_trans bel_step [OF bel_refl])
qed

lemma under_step: "z \<in> under pa q \<Longrightarrow> pa y = P_node z \<Longrightarrow> y \<in> under pa q"
  unfolding under_def by (auto intro: bel_step)

lemma under_child: "pa y = q \<Longrightarrow> y \<in> under pa q"
  unfolding under_def by force

lemma under_parent: "y \<in> under pa q \<Longrightarrow> pa y \<noteq> q \<Longrightarrow> pa y = P_node z \<Longrightarrow> z \<in> under pa q"
  unfolding under_def by (force dest: bel_parent)

lemma under_not_root: "y \<in> under pa q \<Longrightarrow> pa y = P_root \<Longrightarrow> q = P_root"
  unfolding under_def using bel_child by fastforce

lemma dep_root: "dep pa d \<Longrightarrow> pa x = P_root \<Longrightarrow> d x = 1"
  unfolding dep_def by (drule spec [of _ x]) simp

lemma dep_node: "dep pa d \<Longrightarrow> pa x = P_node p \<Longrightarrow> pa p \<noteq> P_null \<and> d x = d p + 1"
  unfolding dep_def by (drule spec [of _ x]) simp

lemma dep_pos: "dep pa d \<Longrightarrow> pa x \<noteq> P_null \<Longrightarrow> d x = depth_at d (pa x) + 1"
  by (cases "pa x") (simp_all add: depth_at_def dep_root dep_node)

lemma bel_deeper: "dep pa d \<Longrightarrow> y \<in> bel pa x \<Longrightarrow> y \<noteq> x \<Longrightarrow> d x < d y"
proof -
  assume d: "dep pa d" and y: "y \<in> bel pa x" "y \<noteq> x"
  from y(1) have "y = x \<or> d x < d y"
    by (induction rule: bel_induct) (use dep_node [OF d] in force)+
  with y(2) show ?thesis by simp
qed

lemma bel_depth: "dep pa d \<Longrightarrow> y \<in> bel pa x \<Longrightarrow> d x \<le> d y"
  using bel_deeper [of pa d y x] by (cases "y = x") auto

lemma under_deeper: "dep pa d \<Longrightarrow> y \<in> under pa (P_node p) \<Longrightarrow> d p < d y"
  unfolding under_def using bel_depth dep_node by fastforce

lemma dep_no_loop: "dep pa d \<Longrightarrow> pa c = P_node p \<Longrightarrow> p \<notin> bel pa c"
  using bel_depth dep_node by fastforce

section \<open>A new parent\<close>

text \<open>\<open>x\<close> becomes a child of \<open>q\<close>, and with \<open>e\<close> the parent of the others.\<close>

definition reparent :: "nat \<Rightarrow> v2_parent \<Rightarrow> bool \<Rightarrow> (nat \<Rightarrow> v2_parent) \<Rightarrow> nat \<Rightarrow> v2_parent" where
  "reparent x q e pa y = (if y = x then q else if e \<and> pa y = q then P_node x else pa y)"

definition moved :: "nat \<Rightarrow> v2_parent \<Rightarrow> bool \<Rightarrow> (nat \<Rightarrow> v2_parent) \<Rightarrow> nat set" where
  "moved x q e pa = bel pa x \<union> (if e then under pa q else {})"

definition moved_depth :: "nat \<Rightarrow> v2_parent \<Rightarrow> bool \<Rightarrow> (nat \<Rightarrow> v2_parent) \<Rightarrow> (nat \<Rightarrow> nat) \<Rightarrow> nat \<Rightarrow> nat" where
  "moved_depth x q e pa d y =
     (if y \<in> bel pa x then d y - d x + depth_at d q + 1 else if e \<and> y \<in> under pa q then d y + 1 else d y)"

definition fits :: "(nat \<Rightarrow> v2_parent) \<Rightarrow> nat \<Rightarrow> v2_parent \<Rightarrow> bool" where
  "fits pa x q \<longleftrightarrow> (case q of P_null \<Rightarrow> False | P_root \<Rightarrow> True | P_node p \<Rightarrow> pa p \<noteq> P_null \<and> p \<notin> bel pa x)"

lemma moved_depth_at:
  assumes "dep pa d" "fits pa x q"
  shows "depth_at (moved_depth x q e pa d) q = depth_at d q"
proof (cases q)
  case (P_node p)
  moreover from P_node assms(1) have "p \<notin> under pa q" by (auto dest: under_deeper)
  ultimately show ?thesis using assms(2) by (simp add: fits_def depth_at_def moved_depth_def)
qed (simp_all add: depth_at_def)

lemma bel_not_child: "dep pa d \<Longrightarrow> fits pa x q \<Longrightarrow> pa y = q \<Longrightarrow> y \<noteq> x \<Longrightarrow> y \<notin> bel pa x"
  using bel_parent [of y pa x] bel_child [of y pa x] by (fastforce simp: fits_def)

lemma reparent_dep:
  assumes d: "dep pa d" and f: "fits pa x q"
  shows "dep (reparent x q e pa) (moved_depth x q e pa d)"
  unfolding dep_def
proof
  fix y
  let ?pa = "reparent x q e pa" and ?d = "moved_depth x q e pa d"
  have nn: "?pa z \<noteq> P_null" if "pa z \<noteq> P_null" for z
    using that f by (auto simp: reparent_def fits_def)
  have dx: "?d x = depth_at d q + 1" by (simp add: moved_depth_def)
  consider (self) "y = x" | (taken) "y \<noteq> x" "e" "pa y = q" | (stays) "y \<noteq> x" "\<not> (e \<and> pa y = q)" by blast
  then show "case ?pa y of P_null \<Rightarrow> True | P_root \<Rightarrow> ?d y = 1 | P_node p \<Rightarrow> ?pa p \<noteq> P_null \<and> ?d y = ?d p + 1"
  proof cases
    case self
    with f dx moved_depth_at [OF d f, of e] nn show ?thesis
      by (cases q) (auto simp: reparent_def fits_def depth_at_def)
  next
    case taken
    with bel_not_child [OF d f] have "y \<notin> bel pa x" by blast
    with taken have "?d y = d y + 1" by (simp add: moved_depth_def under_child)
    moreover have "pa y \<noteq> P_null" using taken f by (auto simp: fits_def)
    with dep_pos [OF d, of y] taken have "d y = depth_at d q + 1" by simp
    moreover from f have "?pa x \<noteq> P_null" by (auto simp: reparent_def fits_def)
    ultimately show ?thesis using taken dx by (simp add: reparent_def)
  next
    case stays
    then have pay: "?pa y = pa y" by (auto simp: reparent_def)
    show ?thesis
    proof (cases "pa y")
      case P_root
      have "y \<notin> bel pa x" using bel_child [of y pa x] stays(1) P_root by auto
      moreover have "\<not> (e \<and> y \<in> under pa q)" using under_not_root P_root stays(2) by blast
      ultimately show ?thesis using dep_root [OF d P_root] P_root by (simp add: pay moved_depth_def)
    next
      case (P_node z)
      have "y \<in> bel pa x \<longleftrightarrow> z \<in> bel pa x" using bel_step bel_parent stays(1) P_node by metis
      moreover have "e \<Longrightarrow> y \<in> under pa q \<longleftrightarrow> z \<in> under pa q"
        using under_step under_parent stays P_node by metis
      moreover have "z \<in> bel pa x \<Longrightarrow> d x \<le> d z" by (rule bel_depth [OF d])
      ultimately have "?d y = ?d z + 1" using dep_node [OF d P_node] by (auto simp: moved_depth_def)
      then show ?thesis using dep_node [OF d P_node] nn P_node by (simp add: pay)
    qed (simp add: pay)
  qed
qed

lemma reparent_bel:
  assumes "fits pa x q"
  shows "bel (reparent x q e pa) x = moved x q e pa"
proof
  let ?pa = "reparent x q e pa"
  show "bel ?pa x \<subseteq> moved x q e pa"
  proof
    fix y assume "y \<in> bel ?pa x"
    then show "y \<in> moved x q e pa"
    proof (induction rule: bel_induct)
      case (step z y)
      then show ?case
        by (auto simp: moved_def reparent_def under_child split: if_splits intro: bel_step under_step)
    qed (simp add: moved_def)
  qed
  have into: "y \<in> bel ?pa x" if "y \<in> bel pa c" "c \<in> bel ?pa x" for c y
    using that
  proof (induction rule: bel_induct)
    case (step z y)
    have "?pa y = P_node z \<or> ?pa y = P_node x \<or> y = x" using step.hyps(2) by (simp add: reparent_def)
    then show ?case by (elim disjE) (use step.IH step.prems bel_step [OF bel_refl] in \<open>auto intro: bel_step\<close>)
  qed
  have kid: "c \<in> bel ?pa x" if "e" "pa c = q" for c
    using that bel_step [OF bel_refl, of ?pa c x] by (cases "c = x") (simp_all add: reparent_def)
  show "moved x q e pa \<subseteq> bel ?pa x"
  proof
    fix y assume "y \<in> moved x q e pa"
    then consider "y \<in> bel pa x" | c where "e" "pa c = q" "y \<in> bel pa c"
      by (auto simp: moved_def under_def split: if_splits)
    then show "y \<in> bel ?pa x" by cases (use into kid bel_refl in blast)+
  qed
qed

lemma moved_depth_same: "y \<notin> moved x q e pa \<Longrightarrow> moved_depth x q e pa d y = d y"
  by (auto simp: moved_def moved_depth_def split: if_splits)

lemma moved_depth_self: "moved_depth x q e pa d x = depth_at d q + 1"
  by (simp add: moved_depth_def)

section \<open>The ranks of a subtree\<close>

definition mpar :: "(nat \<rightharpoonup> v2_node) \<Rightarrow> nat \<Rightarrow> v2_parent" where
  "mpar ns x = (case ns x of None \<Rightarrow> P_null | Some n \<Rightarrow> n_parent n)"

definition ranked :: "nat set \<Rightarrow> (nat \<Rightarrow> nat) \<Rightarrow> (nat \<rightharpoonup> v2_node) \<Rightarrow> nat \<rightharpoonup> v2_node" where
  "ranked S d ns x = (if x \<in> S then map_option (\<lambda>n. n\<lparr>n_rank := d x\<rparr>) (ns x) else ns x)"

definition mkids :: "(nat \<rightharpoonup> v2_node) \<Rightarrow> nat set \<Rightarrow> bool" where
  "mkids ns S \<longleftrightarrow> (\<forall>p\<in>S. \<forall>n. ns p = Some n \<longrightarrow> set (n_children n) = {c. mpar ns c = P_node p})"

lemma mpar_some: "mpar ns x \<noteq> P_null \<Longrightarrow> \<exists>n. ns x = Some n"
  by (cases "ns x") (simp_all add: mpar_def)

lemma ranked_empty [simp]: "ranked {} d ns = ns"
  by (rule ext) (simp add: ranked_def)

lemma dep_bounded:
  assumes "dep (mpar ns) d" "finite (dom ns)"
  obtains N where "\<And>x. mpar ns x \<noteq> P_null \<Longrightarrow> d x \<le> N"
proof
  fix x assume "mpar ns x \<noteq> P_null"
  then have "x \<in> dom ns" using mpar_some by fast
  then show "d x \<le> Max (insert 0 (d ` dom ns))" using assms(2) by simp
qed

lemma children_update_list:
  assumes "\<And>c T todo. c \<in> set cs \<Longrightarrow>
      ngx_http_v2_node_children_update ((r, c) # todo) (ranked T d ns) =
      ngx_http_v2_node_children_update todo (ranked (T \<union> bel (mpar ns) c) d ns)"
  shows "ngx_http_v2_node_children_update (map (Pair r) cs @ todo) (ranked T d ns) =
      ngx_http_v2_node_children_update todo (ranked (T \<union> (\<Union>c\<in>set cs. bel (mpar ns) c)) d ns)"
  using assms
proof (induction cs arbitrary: T)
  case (Cons c cs)
  from Cons.prems [of c "map (Pair r) cs @ todo" T] Cons.IH [of "T \<union> bel (mpar ns) c"] Cons.prems
  show ?case by (simp add: Un_assoc)
qed simp

lemma children_update_one:
  assumes d: "dep (mpar ns) d" and fin: "finite (dom ns)" and k: "mkids ns S"
    and c: "mpar ns c \<noteq> P_null" "bel (mpar ns) c \<subseteq> S" and r: "r + 1 = d c"
  shows "ngx_http_v2_node_children_update ((r, c) # todo) (ranked T d ns) =
         ngx_http_v2_node_children_update todo (ranked (T \<union> bel (mpar ns) c) d ns)"
proof -
  obtain N where N: "\<And>x. mpar ns x \<noteq> P_null \<Longrightarrow> d x \<le> N" by (rule dep_bounded [OF d fin]) blast
  from c r show ?thesis
  proof (induction "N - d c" arbitrary: c r T todo rule: less_induct)
    case less
    obtain n where n: "ns c = Some n" using mpar_some less.prems(1) by blast
    have cs: "set (n_children n) = {x. mpar ns x = P_node c}" using k n subsetD [OF less.prems(2) bel_refl] by (simp add: mkids_def)
    have kid: "ngx_http_v2_node_children_update ((d c, x) # todo') (ranked T' d ns) =
        ngx_http_v2_node_children_update todo' (ranked (T' \<union> bel (mpar ns) x) d ns)"
      if "x \<in> set (n_children n)" for x T' todo'
    proof (rule less.hyps)
      from that cs have x: "mpar ns x = P_node c" by simp
      then show "mpar ns x \<noteq> P_null" by simp
      show "bel (mpar ns) x \<subseteq> S" using less.prems(2) x bel_unfold [of "mpar ns" c] by auto
      from dep_node [OF d x] show "d c + 1 = d x" by simp
      with N [of x] x show "N - d x < N - d c" by simp
    qed
    have upd: "(ranked T d ns)(c \<mapsto> (node_at (ranked T d ns) c)\<lparr>n_rank := d c\<rparr>) = ranked (insert c T) d ns"
      using n by (auto simp: ranked_def node_at_def fun_eq_iff)
    have ch: "n_children ((node_at (ranked T d ns) c)\<lparr>n_rank := d c\<rparr>) = n_children n"
      using n by (simp add: ranked_def node_at_def)
    have "ngx_http_v2_node_children_update ((r, c) # todo) (ranked T d ns) =
        ngx_http_v2_node_children_update (map (Pair (d c)) (n_children n) @ todo) (ranked (insert c T) d ns)"
      using less.prems(3) ch upd
      by (subst ngx_http_v2_node_children_update.simps) (simp add: Let_def)
    also have "\<dots> = ngx_http_v2_node_children_update todo
        (ranked (insert c T \<union> (\<Union>x\<in>set (n_children n). bel (mpar ns) x)) d ns)"
      by (rule children_update_list) (rule kid)
    also have "insert c T \<union> (\<Union>x\<in>set (n_children n). bel (mpar ns) x) = T \<union> bel (mpar ns) c"
      by (subst bel_unfold [of _ c]) (auto simp: cs)
    finally show ?case .
  qed
qed

lemma children_update:
  assumes d: "dep (mpar ns) d" and fin: "finite (dom ns)" and k: "mkids ns S"
    and cs: "\<And>c. c \<in> set cs \<Longrightarrow> mpar ns c \<noteq> P_null \<and> bel (mpar ns) c \<subseteq> S \<and> r + 1 = d c"
  shows "ngx_http_v2_node_children_update (map (Pair r) cs) ns = Some (ranked (\<Union>c\<in>set cs. bel (mpar ns) c) d ns)"
proof -
  have "ngx_http_v2_node_children_update (map (Pair r) cs @ []) (ranked {} d ns) =
      ngx_http_v2_node_children_update [] (ranked ({} \<union> (\<Union>c\<in>set cs. bel (mpar ns) c)) d ns)"
    using children_update_one [OF d fin k] cs by (intro children_update_list) blast
  then show ?thesis by (simp add: ngx_http_v2_node_children_update.simps)
qed

section \<open>Views of the tree\<close>

text \<open>What the operations change: parents, queues of children, ranks, weights and streams of nodes.\<close>

named_theorems v2_view

definition tpar :: "v2_tree \<Rightarrow> nat \<Rightarrow> v2_parent" where
  "tpar t = mpar (t_nodes t)"

definition trank :: "v2_tree \<Rightarrow> nat \<Rightarrow> nat" where
  "trank t x = n_rank (node_at (t_nodes t) x)"

definition tweight :: "v2_tree \<Rightarrow> nat \<Rightarrow> nat" where
  "tweight t x = n_weight (node_at (t_nodes t) x)"

definition tdom :: "v2_tree \<Rightarrow> nat set" where
  "tdom t = dom (t_nodes t)"

definition there :: "v2_tree \<Rightarrow> v2_parent \<Rightarrow> bool" where
  "there t p = (case p of P_null \<Rightarrow> False | P_root \<Rightarrow> True | P_node x \<Rightarrow> x \<in> tdom t)"

definition kids :: "v2_tree \<Rightarrow> v2_parent \<Rightarrow> nat list" where
  "kids t p = (if there t p then children_of t p else [])"

lemma children_of_kids: "there t p \<Longrightarrow> children_of t p = kids t p"
  by (simp add: kids_def)

lemma node_at_parent: "x \<in> tdom t \<Longrightarrow> n_parent (node_at (t_nodes t) x) = tpar t x"
  by (auto simp: tdom_def tpar_def mpar_def node_at_def)

lemma node_at_stream: "x \<in> tdom t \<Longrightarrow> n_stream (node_at (t_nodes t) x) = tstream t x"
  by (auto simp: tdom_def tstream_def node_at_def)

lemma tpar_dom: "tpar t x \<noteq> P_null \<Longrightarrow> x \<in> tdom t"
  by (auto simp: tpar_def tdom_def dest: mpar_some)

lemma node_upd_dom [v2_view]: "tdom (node_upd x f t) = tdom t"
  by (auto simp: node_upd_def tdom_def split: if_splits)

lemma node_upd_there [v2_view]: "there (node_upd x f t) p = there t p"
  by (simp add: there_def node_upd_dom split: v2_parent.split)

lemma node_upd_closed [v2_view]:
  "t_closed (node_upd x f t) = t_closed t" "t_closed_nodes (node_upd x f t) = t_closed_nodes t"
  by (simp_all add: node_upd_def)

lemma node_upd_kids [v2_view]:
  "(\<And>n. n_children (f n) = n_children n) \<Longrightarrow> kids (node_upd x f t) p = kids t p"
  unfolding kids_def node_upd_there
  by (auto simp: node_upd_def children_of_def node_at_def there_def tdom_def split: v2_parent.split)

lemma node_upd_tpar [v2_view]:
  "tpar (node_upd x f t) y = (if y = x \<and> x \<in> tdom t then n_parent (f (node_at (t_nodes t) x)) else tpar t y)"
  by (auto simp: node_upd_def tpar_def mpar_def tdom_def node_at_def split: option.split)

lemma node_upd_tstream [v2_view]:
  "tstream (node_upd x f t) y = (if y = x \<and> x \<in> tdom t then n_stream (f (node_at (t_nodes t) x)) else tstream t y)"
  by (auto simp: node_upd_def tstream_def tdom_def node_at_def split: option.split)

lemma node_upd_trank [v2_view]:
  "trank (node_upd x f t) y = (if y = x \<and> x \<in> tdom t then n_rank (f (node_at (t_nodes t) x)) else trank t y)"
  by (cases "t_nodes t x") (auto simp: node_upd_def trank_def tdom_def node_at_def)

lemma node_upd_tweight [v2_view]:
  "tweight (node_upd x f t) y = (if y = x \<and> x \<in> tdom t then n_weight (f (node_at (t_nodes t) x)) else tweight t y)"
  by (cases "t_nodes t x") (auto simp: node_upd_def tweight_def tdom_def node_at_def)

lemma children_upd_dom [v2_view]: "tdom (children_upd p f t) = tdom t"
  by (cases p) (simp_all add: children_upd_def node_upd_dom, simp add: tdom_def)

lemma children_upd_there [v2_view]: "there (children_upd p f t) q = there t q"
  by (simp add: there_def children_upd_dom split: v2_parent.split)

lemma children_upd_closed [v2_view]:
  "t_closed (children_upd p f t) = t_closed t" "t_closed_nodes (children_upd p f t) = t_closed_nodes t"
  by (cases p; simp add: children_upd_def node_upd_closed)+

lemma children_upd_kids [v2_view]:
  "kids (children_upd p f t) q = (if q = p \<and> there t p then f (kids t q) else kids t q)"
  unfolding kids_def children_upd_there
  by (cases p; cases q) (auto simp: children_upd_def there_def tdom_def children_of_def node_upd_def node_at_def)

lemma node_at_same:
  "n_parent (f n) = n_parent n \<Longrightarrow> x \<in> tdom t \<Longrightarrow> n = node_at (t_nodes t) x \<Longrightarrow> n_parent (f n) = tpar t x"
  by (simp add: node_at_parent)

lemma children_upd_nodes [v2_view]:
  "tpar (children_upd p f t) y = tpar t y" "trank (children_upd p f t) y = trank t y"
  "tweight (children_upd p f t) y = tweight t y" "tstream (children_upd p f t) y = tstream t y"
  by (cases p; auto simp: children_upd_def node_upd_tpar node_upd_trank node_upd_tweight node_upd_tstream
      node_at_parent node_at_stream trank_def [symmetric] tweight_def [symmetric];
      simp add: tpar_def trank_def tweight_def tstream_def)+

section \<open>The invariant\<close>

definition kids_ok :: "v2_tree \<Rightarrow> bool" where
  "kids_ok t \<longleftrightarrow> (\<forall>p. distinct (kids t p) \<and> (p \<noteq> P_null \<longrightarrow> set (kids t p) = {x. tpar t x = p}))"

text \<open>Everything but the ranks, which may be those of another depth \<open>d\<close>.\<close>

definition shape :: "v2_tree \<Rightarrow> (nat \<Rightarrow> nat) \<Rightarrow> bool" where
  "shape t d \<longleftrightarrow> finite (tdom t) \<and> dep (tpar t) d \<and> kids_ok t"

text \<open>What an operation on the tree leaves as it is.\<close>

definition same_rest :: "v2_tree \<Rightarrow> v2_tree \<Rightarrow> bool" where
  "same_rest t t' \<longleftrightarrow> tdom t' = tdom t \<and> tweight t' = tweight t \<and> tstream t' = tstream t
     \<and> t_closed t' = t_closed t \<and> t_closed_nodes t' = t_closed_nodes t"

lemma same_rest_trans: "same_rest t u \<Longrightarrow> same_rest u v \<Longrightarrow> same_rest t v"
  by (simp add: same_rest_def)

lemma same_rest_refl [simp]: "same_rest t t"
  by (simp add: same_rest_def)

lemma kids_set: "kids_ok t \<Longrightarrow> p \<noteq> P_null \<Longrightarrow> set (kids t p) = {x. tpar t x = p}"
  by (simp add: kids_ok_def)

lemma kids_null [simp]: "kids t P_null = []"
  by (simp add: kids_def there_def)

lemma kids_distinct: "kids_ok t \<Longrightarrow> distinct (kids t p)"
  by (simp add: kids_ok_def)

lemma kids_dom: "kids_ok t \<Longrightarrow> x \<in> set (kids t p) \<Longrightarrow> x \<in> tdom t \<and> tpar t x = p"
  using tpar_dom [of t x] by (cases "p = P_null") (auto simp: kids_set)

lemma kids_there: "kids_ok t \<Longrightarrow> tpar t x \<noteq> P_null \<Longrightarrow> there t (tpar t x)"
  using kids_set [of t "tpar t x"] by (cases "there t (tpar t x)") (auto simp: kids_def)

lemma there_cong: "tdom t = tdom u \<Longrightarrow> there t p = there u p"
  by (simp add: there_def split: v2_parent.split)

lemma shape_mkids: "shape t d \<Longrightarrow> mkids (t_nodes t) UNIV"
  unfolding shape_def kids_ok_def mkids_def
proof (intro ballI allI impI)
  fix p n
  assume *: "finite (tdom t) \<and> dep (tpar t) d \<and> (\<forall>p. distinct (kids t p) \<and> (p \<noteq> P_null \<longrightarrow> set (kids t p) = {x. tpar t x = p}))"
    and n: "t_nodes t p = Some n"
  from n have "kids t (P_node p) = n_children n"
    by (auto simp: kids_def there_def tdom_def children_of_def node_at_def)
  with * show "set (n_children n) = {c. mpar (t_nodes t) c = P_node p}"
    by (metis tpar_def v2_parent.distinct(3))
qed

definition set_ranks :: "nat set \<Rightarrow> (nat \<Rightarrow> nat) \<Rightarrow> v2_tree \<Rightarrow> v2_tree" where
  "set_ranks S d t = t\<lparr>t_nodes := ranked S d (t_nodes t)\<rparr>"

lemma tree_update_ranks:
  assumes s: "shape t d" and cs: "\<And>c. c \<in> set cs \<Longrightarrow> tpar t c \<noteq> P_null \<and> r + 1 = d c"
  shows "tree_update r cs t = Some (set_ranks (\<Union>c\<in>set cs. bel (tpar t) c) d t)"
  using children_update [of "t_nodes t" d UNIV cs r] s cs shape_mkids [OF s]
  by (simp add: tree_update_def set_ranks_def shape_def tpar_def tdom_def)

lemma set_ranks_view [v2_view]:
  "tpar (set_ranks S d t) = tpar t" "tdom (set_ranks S d t) = tdom t" "kids (set_ranks S d t) p = kids t p"
  "t_closed (set_ranks S d t) = t_closed t" "t_closed_nodes (set_ranks S d t) = t_closed_nodes t"
  "tweight (set_ranks S d t) = tweight t" "tstream (set_ranks S d t) = tstream t"
  "x \<in> tdom t \<Longrightarrow> trank (set_ranks S d t) x = (if x \<in> S then d x else trank t x)"
proof -
  show dm: "tdom (set_ranks S d t) = tdom t" by (auto simp: tdom_def set_ranks_def ranked_def split: if_splits)
  show "tpar (set_ranks S d t) = tpar t"
    by (rule ext) (auto simp: tpar_def mpar_def set_ranks_def ranked_def split: option.split)
  have th: "there (set_ranks S d t) = there t" by (simp add: fun_eq_iff there_def dm split: v2_parent.split)
  show "kids (set_ranks S d t) p = kids t p"
    by (auto simp: kids_def th there_def children_of_def set_ranks_def node_at_def ranked_def tdom_def split: v2_parent.split)
  show "tweight (set_ranks S d t) = tweight t"
  proof
    fix y show "tweight (set_ranks S d t) y = tweight t y"
      by (cases "t_nodes t y") (simp_all add: tweight_def set_ranks_def ranked_def node_at_def)
  qed
  show "tstream (set_ranks S d t) = tstream t"
    by (rule ext) (auto simp: tstream_def set_ranks_def ranked_def split: option.split)
  show "x \<in> tdom t \<Longrightarrow> trank (set_ranks S d t) x = (if x \<in> S then d x else trank t x)"
    by (auto simp: trank_def set_ranks_def ranked_def tdom_def node_at_def)
qed (simp_all add: set_ranks_def)

lemma set_ranks_shape: "shape (set_ranks S d t) d' \<longleftrightarrow> shape t d'"
  by (simp add: shape_def v2_view kids_ok_def)

lemma set_ranks_rest: "same_rest t (set_ranks S d t)"
  by (simp add: same_rest_def v2_view)

section \<open>A child is inserted\<close>

lemma take_child_fold:
  "tdom (fold (take_child x) cs t) = tdom t" "kids (fold (take_child x) cs t) p = kids t p"
  "tpar (fold (take_child x) cs t) y = (if y \<in> set cs \<inter> tdom t then P_node x else tpar t y)"
  "trank (fold (take_child x) cs t) y = trank t y" "same_rest t (fold (take_child x) cs t)"
proof -
  have "tdom (fold (take_child x) cs t) = tdom t \<and> kids (fold (take_child x) cs t) p = kids t p
      \<and> tpar (fold (take_child x) cs t) y = (if y \<in> set cs \<inter> tdom t then P_node x else tpar t y)
      \<and> trank (fold (take_child x) cs t) y = trank t y \<and> same_rest t (fold (take_child x) cs t)"
  proof (induction cs arbitrary: t)
    case (Cons c cs)
    have "same_rest t (take_child x c t)" "trank (take_child x c t) y = trank t y"
      by (auto simp: same_rest_def take_child_def v2_view fun_eq_iff node_at_stream trank_def [symmetric] tweight_def [symmetric])
    with Cons.IH [of "take_child x c t"] show ?case
      by (auto simp: take_child_def v2_view intro: same_rest_trans)
  qed simp
  then show "tdom (fold (take_child x) cs t) = tdom t" "kids (fold (take_child x) cs t) p = kids t p"
    "tpar (fold (take_child x) cs t) y = (if y \<in> set cs \<inter> tdom t then P_node x else tpar t y)"
    "trank (fold (take_child x) cs t) y = trank t y" "same_rest t (fold (take_child x) cs t)" by auto
qed

lemma take_children_view:
  assumes k: "kids_ok t" and q: "there t q" "q \<noteq> P_node x" and x: "x \<in> tdom t"
  shows "tdom (take_children x q t) = tdom t" "same_rest t (take_children x q t)"
    "tpar (take_children x q t) y = (if tpar t y = q then P_node x else tpar t y)"
    "trank (take_children x q t) y = trank t y"
    "kids (take_children x q t) p = (if p = q then [] else if p = P_node x then kids t p @ kids t q else kids t p)"
proof -
  have qn: "q \<noteq> P_null" using q by (auto simp: there_def)
  have set: "set (kids t q) \<inter> tdom t = {y. tpar t y = q}" using kids_set [OF k qn] tpar_dom qn by auto
  have th: "there (fold (take_child x) cs t) p = there t p" for cs p
    by (rule there_cong) (rule take_child_fold(1))
  show "tdom (take_children x q t) = tdom t" "same_rest t (take_children x q t)"
    "tpar (take_children x q t) y = (if tpar t y = q then P_node x else tpar t y)"
    "trank (take_children x q t) y = trank t y"
    using set take_child_fold(5) [of t x "kids t q"]
    by (auto simp: take_children_def Let_def v2_view take_child_fold(1-4) children_of_kids q same_rest_def fun_eq_iff)
  show "kids (take_children x q t) p = (if p = q then [] else if p = P_node x then kids t p @ kids t q else kids t p)"
    using q x by (auto simp: take_children_def Let_def children_upd_kids children_upd_there take_child_fold(2) th
        children_of_kids) (simp add: there_def)
qed

text \<open>The tree before the ranks are set.\<close>

definition inserted :: "nat \<Rightarrow> v2_parent \<Rightarrow> bool \<Rightarrow> v2_tree \<Rightarrow> v2_tree" where
  "inserted x q e t =
     (let t = (if e then take_children x q t else t);
          t = children_upd (n_parent (node_at (t_nodes t) x)) (remove1 x) t;
          t = children_upd q (\<lambda>xs. xs @ [x]) t
      in node_upd x (\<lambda>n. n\<lparr>n_parent := q\<rparr>) t)"

lemma insert_child_inserted: "insert_child x q e t = node_update x (inserted x q e t)"
  by (simp add: insert_child_def inserted_def Let_def)

lemma fits_there: "fits (tpar t) x q \<Longrightarrow> there t q"
  using tpar_dom by (auto simp: fits_def there_def split: v2_parent.splits)

lemma fits_not_self: "fits pa x q \<Longrightarrow> q \<noteq> P_node x"
  by (auto simp: fits_def)

lemma inserted_view:
  assumes k: "kids_ok t" and f: "fits (tpar t) x q" and x: "x \<in> tdom t"
  shows "tpar (inserted x q e t) = reparent x q e (tpar t)" "same_rest t (inserted x q e t)"
    "trank (inserted x q e t) = trank t" "kids_ok (inserted x q e t)"
proof -
  define u where "u = (if e then take_children x q t else t)"
  note tv = take_children_view [OF k fits_there [OF f] fits_not_self [OF f] x]
  have uv: "tdom u = tdom t" "same_rest t u" "tpar u y = (if e \<and> tpar t y = q then P_node x else tpar t y)"
    "trank u y = trank t y"
    "kids u p = (if e \<and> p = q then [] else if e \<and> p = P_node x then kids t p @ kids t q else kids t p)" for y p
    using tv by (simp_all add: u_def)
  have th: "there u p = there t p" for p by (rule there_cong) (rule uv(1))
  have np: "n_parent (node_at (t_nodes u) x) = tpar u x" using node_at_parent [of x u] x uv(1) by simp
  have qn: "q \<noteq> P_null" using f by (auto simp: fits_def)
  have ins: "inserted x q e t = node_upd x (\<lambda>n. n\<lparr>n_parent := q\<rparr>)
      (children_upd q (\<lambda>xs. xs @ [x]) (children_upd (tpar u x) (remove1 x) u))"
    unfolding inserted_def Let_def u_def [symmetric] np ..
  show par: "tpar (inserted x q e t) = reparent x q e (tpar t)"
    using x by (auto simp: fun_eq_iff ins v2_view uv(1,3) reparent_def)
  show "same_rest t (inserted x q e t)" using uv(2)
    by (auto simp: ins same_rest_def v2_view fun_eq_iff node_at_stream tweight_def [symmetric] children_upd_nodes)
  show "trank (inserted x q e t) = trank t"
    by (auto simp: fun_eq_iff ins v2_view uv(4) trank_def [symmetric])
  have kd: "kids (inserted x q e t) p =
      (let ks = (if p = tpar u x \<and> there t p then remove1 x (kids u p) else kids u p)
       in if p = q then ks @ [x] else ks)" for p
    using fits_there [OF f] by (auto simp: ins v2_view th Let_def)
  show "kids_ok (inserted x q e t)"
    unfolding kids_ok_def par
  proof (intro allI conjI impI)
    fix p
    have ku: "distinct (kids u p)" "p \<noteq> P_null \<Longrightarrow> set (kids u p) = {y. tpar u y = p}"
      using kids_distinct [OF k] fits_not_self [OF f] qn by (auto simp: uv(3,5) kids_set [OF k])
    have thx: "there t (tpar u x)" if "tpar u x \<noteq> P_null"
      using that kids_there [OF k, of x] x fits_not_self [OF f] unfolding uv(3)
      by (cases "e \<and> tpar t x = q") (auto simp: there_def)
    define ks where "ks = (if p = tpar u x \<and> there t p then remove1 x (kids u p) else kids u p)"
    have kp: "kids (inserted x q e t) p = (if p = q then ks @ [x] else ks)"
      by (simp add: kd Let_def ks_def)
    have ks: "distinct ks" "p \<noteq> P_null \<Longrightarrow> set ks = {y. tpar u y = p} - {x}"
      using ku thx by (cases "p = tpar u x", simp_all add: ks_def)+
    then show "distinct (kids (inserted x q e t) p)"
      using qn by (simp add: kp)
    show "set (kids (inserted x q e t) p) = {y. reparent x q e (tpar t) y = p}" if "p \<noteq> P_null"
      unfolding kp using ks(2) [OF that] fits_not_self [OF f] by (auto simp: reparent_def uv(3))
  qed
qed

lemma dep_cong: "dep pa d \<Longrightarrow> (\<And>x. pa x \<noteq> P_null \<Longrightarrow> d' x = d x) \<Longrightarrow> dep pa d'"
  unfolding dep_def by (fastforce split: v2_parent.splits)

lemma node_update_ranks:
  assumes s: "shape t d" and x: "x \<in> tdom t" "tpar t x \<noteq> P_null" and r: "trank t x = d x"
  shows "node_update x t = Some (set_ranks (bel (tpar t) x - {x}) d t)"
proof -
  have th: "there t (P_node x)" using x by (simp add: there_def)
  from s have k: "set (kids t (P_node x)) = {c. tpar t c = P_node x}" by (simp add: shape_def kids_set)
  have "bel (tpar t) x - {x} = (\<Union>c\<in>{c. tpar t c = P_node x}. bel (tpar t) c)"
  proof -
    have "x \<notin> bel (tpar t) c" if "tpar t c = P_node x" for c
      using dep_no_loop s that by (auto simp: shape_def)
    then show ?thesis using bel_unfold [of "tpar t" x] by auto
  qed
  moreover have "node_update x t = Some (set_ranks (\<Union>c\<in>set (kids t (P_node x)). bel (tpar t) c) d t)"
    unfolding node_update_def children_of_kids [OF th]
    by (rule tree_update_ranks [OF s]) (use k dep_node s r in \<open>auto simp: shape_def rank_of_def trank_def\<close>)
  ultimately show ?thesis by (simp add: k)
qed

lemma insert_child_ok:
  assumes s: "shape t d" and f: "fits (tpar t) x q" and x: "x \<in> tdom t" and r: "trank t x = depth_at d q + 1"
    and stale: "\<And>y. tpar t y \<noteq> P_null \<Longrightarrow> y \<notin> moved x q e (tpar t) \<Longrightarrow> trank t y = d y"
  shows "\<exists>t'. insert_child x q e t = Some t' \<and> shape t' (trank t') \<and> tpar t' = reparent x q e (tpar t) \<and> same_rest t t'"
proof -
  let ?u = "inserted x q e t" and ?d = "moved_depth x q e (tpar t) d"
  have k: "kids_ok t" and dp: "dep (tpar t) d" using s by (simp_all add: shape_def)
  note iv = inserted_view [OF k f x, of e]
  have ud: "tdom ?u = tdom t" using iv(2) by (simp add: same_rest_def)
  have su: "shape ?u ?d" using s iv(1,4) reparent_dep [OF dp f] by (simp add: shape_def ud)
  have px: "tpar ?u x = q" using iv(1) by (simp add: reparent_def)
  have "node_update x ?u = Some (set_ranks (bel (tpar ?u) x - {x}) ?d ?u)"
    by (rule node_update_ranks [OF su]) (use x f r iv px ud in \<open>auto simp: moved_depth_self fits_def\<close>)
  then have ic: "insert_child x q e t = Some (set_ranks (moved x q e (tpar t) - {x}) ?d ?u)" (is "_ = Some ?t")
    by (simp add: insert_child_inserted iv(1) reparent_bel [OF f])
  have "trank ?t y = ?d y" if "tpar ?t y \<noteq> P_null" for y
  proof -
    have y: "y \<in> tdom t" using tpar_dom that by (metis set_ranks_view(2) ud)
    have "tpar t y \<noteq> P_null \<or> y = x" using that iv(1) f by (auto simp: v2_view reparent_def fits_def split: if_splits)
    then show ?thesis
      using y r iv(3) stale [of y] moved_depth_self [of x q e "tpar t" d] moved_depth_same [of y x q e "tpar t" d]
      by (auto simp: v2_view ud)
  qed
  moreover have "shape ?t ?d" by (simp add: set_ranks_shape su)
  ultimately have "shape ?t (trank ?t)" unfolding shape_def using dep_cong by blast
  moreover have "same_rest t ?t" using iv(2) set_ranks_rest same_rest_trans by blast
  ultimately show ?thesis using ic iv(1) by (simp add: v2_view)
qed

section \<open>A parent below the node\<close>

lemma node_above_iff:
  assumes d: "dep (tpar t) (trank t)" and y: "tpar t y \<noteq> P_null"
  shows "node_above (t_nodes t) x (P_node y) = Some (y \<in> bel (tpar t) x)"
  using y
proof (induction "trank t y" arbitrary: y rule: less_induct)
  case less
  have p: "n_parent (node_at (t_nodes t) y) = tpar t y" using node_at_parent tpar_dom less.prems by blast
  show ?case
  proof (cases "y \<noteq> x \<and> trank t x \<le> trank t y")
    case True
    have "node_above (t_nodes t) x (tpar t y) = Some (y \<in> bel (tpar t) x)"
    proof (cases "tpar t y")
      case P_root
      then show ?thesis using True bel_child [of y "tpar t" x]
        by (subst node_above.simps) auto
    next
      case (P_node z)
      from dep_node [OF d P_node] less.hyps [of z]
      have "node_above (t_nodes t) x (P_node z) = Some (z \<in> bel (tpar t) x)" by simp
      moreover have "y \<in> bel (tpar t) x \<longleftrightarrow> z \<in> bel (tpar t) x" using bel_step bel_parent True P_node by metis
      ultimately show ?thesis using P_node by simp
    qed (use less.prems in simp)
    with True p show ?thesis by (subst node_above.simps) (simp add: trank_def)
  next
    case False
    with bel_depth [OF d, of y x] p show ?thesis
      by (subst node_above.simps) (auto simp: trank_def)
  qed
qed

lemma insert_after_set: "a \<in> set ys \<Longrightarrow> set (insert_after a x ys) = insert x (set ys)"
  by (induction ys) auto

lemma insert_after_distinct: "distinct ys \<Longrightarrow> x \<notin> set ys \<Longrightarrow> distinct (insert_after a x ys)"
proof (induction ys)
  case (Cons y ys)
  moreover have "set (insert_after a x ys) \<subseteq> insert x (set ys)" by (induction ys) auto
  ultimately show ?case by auto
qed simp

definition lifted :: "nat \<Rightarrow> nat \<Rightarrow> v2_tree \<Rightarrow> v2_tree" where
  "lifted x p t =
     (let up = n_parent (node_at (t_nodes t) x);
          t = children_upd (n_parent (node_at (t_nodes t) p)) (remove1 p) t;
          t = children_upd up (insert_after x p) t;
          rank = rank_of t up + 1
      in node_upd p (\<lambda>n. n\<lparr>n_parent := up, n_rank := rank\<rparr>) t)"

lemma parent_up_lifted: "parent_up x p e t = (if e then Some (lifted x p t) else node_update p (lifted x p t))"
  by (simp add: parent_up_def lifted_def Let_def)

lemma rank_of_depth: "rank_of t q = depth_at (trank t) q"
  by (simp add: rank_of_def depth_at_def trank_def split: v2_parent.split)

lemma depth_at_cong: "(\<And>x. d x = d' x) \<Longrightarrow> depth_at d q = depth_at d' q"
  by (simp add: depth_at_def split: v2_parent.split)

lemma lifted_view:
  assumes s: "shape t (trank t)" and x: "tpar t x \<noteq> P_null" and p: "p \<in> bel (tpar t) x" "p \<noteq> x"
  shows "tpar (lifted x p t) = reparent p (tpar t x) False (tpar t)" "same_rest t (lifted x p t)"
    "trank (lifted x p t) = (trank t)(p := depth_at (trank t) (tpar t x) + 1)" "kids_ok (lifted x p t)"
    "fits (tpar t) p (tpar t x)"
proof -
  have k: "kids_ok t" and dp: "dep (tpar t) (trank t)" using s by (simp_all add: shape_def)
  obtain pp where pp: "tpar t p = P_node pp" using bel_child [OF p] by auto
  have dom: "x \<in> tdom t" "p \<in> tdom t" using tpar_dom x pp by auto
  have deep: "trank t x < trank t p" by (rule bel_deeper [OF dp p])
  have up: "tpar t x \<noteq> tpar t p"
  proof
    assume "tpar t x = tpar t p"
    with pp bel_parent [OF p pp] have "tpar t x = P_node pp" "pp \<in> bel (tpar t) x" by auto
    then show False using dep_no_loop [OF dp] by blast
  qed
  show "fits (tpar t) p (tpar t x)"
  proof (cases "tpar t x")
    case (P_node u)
    with dep_node [OF dp P_node] bel_depth [OF dp, of u p] deep show ?thesis by (auto simp: fits_def)
  qed (use x in \<open>simp_all add: fits_def\<close>)
  have thx: "there t (tpar t x)" "there t (tpar t p)" using kids_there [OF k, of x] kids_there [OF k, of p] x pp by simp_all
  have li: "lifted x p t = node_upd p (\<lambda>n. n\<lparr>n_parent := tpar t x, n_rank := depth_at (trank t) (tpar t x) + 1\<rparr>)
      (children_upd (tpar t x) (insert_after x p) (children_upd (tpar t p) (remove1 p) t))"
    using dom by (simp add: lifted_def Let_def node_at_parent rank_of_depth children_upd_nodes cong: depth_at_cong)
  show par: "tpar (lifted x p t) = reparent p (tpar t x) False (tpar t)"
    using dom by (auto simp: fun_eq_iff li v2_view reparent_def)
  show "same_rest t (lifted x p t)"
    by (auto simp: li same_rest_def v2_view fun_eq_iff node_at_stream tweight_def [symmetric])
  show "trank (lifted x p t) = (trank t)(p := depth_at (trank t) (tpar t x) + 1)"
    using dom by (auto simp: fun_eq_iff li v2_view)
  have kd: "kids (lifted x p t) q = (if q = tpar t x then insert_after x p (kids t q)
      else if q = tpar t p then remove1 p (kids t q) else kids t q)" for q
    using thx up by (auto simp: li v2_view)
  have xk: "x \<in> set (kids t (tpar t x))" "p \<notin> set (kids t (tpar t x))" using kids_set [OF k] x up by auto
  show "kids_ok (lifted x p t)"
    unfolding kids_ok_def par kd
    using kids_set [OF k] kids_distinct [OF k] xk up x
    by (auto simp: reparent_def insert_after_distinct insert_after_set)
qed

text \<open>The tree after the step on the parent: its ranks are right, or those below \<open>p\<close> are still to be set.\<close>

lemma parent_up_ok:
  assumes s: "shape t (trank t)" and x: "tpar t x \<noteq> P_null" and p: "p \<in> bel (tpar t) x" "p \<noteq> x"
  shows "\<exists>t' d. parent_up x p e t = Some t' \<and> shape t' d \<and> tpar t' = (tpar t)(p := tpar t x) \<and> same_rest t t'
    \<and> trank t' p = d p \<and> (\<forall>y. tpar t' y \<noteq> P_null \<longrightarrow> (e \<longrightarrow> y \<notin> under (tpar t') (P_node p)) \<longrightarrow> trank t' y = d y)"
proof -
  let ?u = "lifted x p t" and ?d = "moved_depth p (tpar t x) False (tpar t) (trank t)"
  note lv = lifted_view [OF s x p]
  have dp: "dep (tpar t) (trank t)" using s by (simp add: shape_def)
  have pu: "tpar ?u = (tpar t)(p := tpar t x)" by (auto simp: lv(1) reparent_def fun_eq_iff)
  have ud: "tdom ?u = tdom t" using lv(2) by (simp add: same_rest_def)
  have su: "shape ?u ?d" using s lv(1,4) reparent_dep [OF dp lv(5)] by (simp add: shape_def ud)
  have rp: "trank ?u p = ?d p" by (simp add: lv(3) moved_depth_self)
  have pn: "tpar ?u p \<noteq> P_null" using x by (simp add: pu)
  have bp: "bel (tpar ?u) p = bel (tpar t) p" using reparent_bel [OF lv(5), of False] by (simp add: lv(1) moved_def)
  have out: "trank ?u y = ?d y" if "y \<notin> bel (tpar ?u) p" for y
    using that moved_depth_same [of y p "tpar t x" False "tpar t" "trank t"] by (auto simp: bp moved_def lv(3))
  have under: "y \<in> under (tpar ?u) (P_node p) \<or> y = p" if "y \<in> bel (tpar ?u) p" for y
    using that bel_unfold [of "tpar ?u" p] by (auto simp: under_def)
  show ?thesis
  proof (cases e)
    case True
    have "\<forall>y. tpar ?u y \<noteq> P_null \<longrightarrow> (e \<longrightarrow> y \<notin> under (tpar ?u) (P_node p)) \<longrightarrow> trank ?u y = ?d y"
      using out under rp True by metis
    with True su pu lv(2) rp show ?thesis by (intro exI [of _ ?u] exI [of _ ?d]) (simp add: parent_up_lifted)
  next
    case False
    let ?t = "set_ranks (bel (tpar ?u) p - {p}) ?d ?u"
    have "p \<in> tdom ?u" using pn tpar_dom by blast
    with node_update_ranks [OF su _ pn rp] have "parent_up x p e t = Some ?t" using False by (simp add: parent_up_lifted)
    moreover have "trank ?t y = ?d y" if "tpar ?t y \<noteq> P_null" for y
      using that out [of y] rp tpar_dom [of ?u y] by (auto simp: v2_view)
    moreover have "shape ?t ?d" by (simp add: set_ranks_shape su)
    moreover have "same_rest t ?t" using lv(2) set_ranks_rest same_rest_trans by blast
    ultimately show ?thesis using pu rp \<open>p \<in> tdom ?u\<close>
      by (intro exI [of _ ?t] exI [of _ ?d]) (simp add: set_ranks_view)
  qed
qed

section \<open>Dependencies\<close>

text \<open>
  What a dependency means for the parents of nodes: \<open>x\<close> becomes a child of \<open>q\<close>, after the parent of \<open>x\<close> has become
  the parent of \<open>q\<close> where \<open>q\<close> is below \<open>x\<close>.
\<close>

definition depends :: "nat \<Rightarrow> v2_parent \<Rightarrow> bool \<Rightarrow> (nat \<Rightarrow> v2_parent) \<Rightarrow> nat \<Rightarrow> v2_parent" where
  "depends x q e pa =
     reparent x q e (case q of P_node p \<Rightarrow> if p \<in> bel pa x then pa(p := pa x) else pa | _ \<Rightarrow> pa)"

definition depend_on :: "v2_tree \<Rightarrow> nat \<Rightarrow> v2_parent" where
  "depend_on t depend = (if depend = 0 \<or> depend \<notin> tdom t then P_root else P_node depend)"

definition depend_alone :: "v2_tree \<Rightarrow> nat \<Rightarrow> bool \<Rightarrow> bool" where
  "depend_alone t depend e \<longleftrightarrow> e \<and> (depend = 0 \<or> depend \<in> tdom t)"

lemma shape_rank_upd: "shape (node_upd x (\<lambda>n. n\<lparr>n_rank := r\<rparr>) t) d \<longleftrightarrow> shape t d"
proof -
  have "tpar (node_upd x (\<lambda>n. n\<lparr>n_rank := r\<rparr>) t) = tpar t" by (auto simp: fun_eq_iff v2_view node_at_parent)
  then show ?thesis by (simp add: shape_def v2_view kids_ok_def)
qed

lemma rank_upd_same:
  "tpar (node_upd x (\<lambda>n. n\<lparr>n_rank := r\<rparr>) t) = tpar t" "same_rest t (node_upd x (\<lambda>n. n\<lparr>n_rank := r\<rparr>) t)"
  by (auto simp: fun_eq_iff v2_view node_at_parent same_rest_def node_at_stream tweight_def [symmetric])

lemma bel_null: "dep pa d \<Longrightarrow> pa x = P_null \<Longrightarrow> bel pa x = {x}"
  using bel_unfold [of pa x] dep_node [of pa d] by auto

lemma depend_parent_ok:
  assumes s: "shape t (trank t)" and x: "x \<in> tdom t" and p: "tpar t p \<noteq> P_null" "p \<noteq> x"
  shows "\<exists>t' d. depend_parent x p e t = Some t' \<and> shape t' d \<and> same_rest t t'
    \<and> tpar t' = (if p \<in> bel (tpar t) x then (tpar t)(p := tpar t x) else tpar t)
    \<and> trank t' p = d p \<and> fits (tpar t') x (P_node p)
    \<and> (\<forall>y. tpar t' y \<noteq> P_null \<longrightarrow> (e \<longrightarrow> y \<notin> under (tpar t') (P_node p)) \<longrightarrow> trank t' y = d y)"
proof -
  have dp: "dep (tpar t) (trank t)" using s by (simp add: shape_def)
  have npx: "n_parent (node_at (t_nodes t) x) = tpar t x" using x by (rule node_at_parent)
  have npp: "n_parent (node_at (t_nodes t) p) = tpar t p" using tpar_dom [OF p(1)] by (rule node_at_parent)
  have found: "node_above (t_nodes t) x (tpar t p) = Some (p \<in> bel (tpar t) x)"
  proof (cases "tpar t p")
    case P_root
    with bel_child [of p "tpar t" x] p(2) show ?thesis by (subst node_above.simps) auto
  next
    case (P_node z)
    have "p \<in> bel (tpar t) x \<longleftrightarrow> z \<in> bel (tpar t) x" using bel_step bel_parent p(2) P_node by metis
    with node_above_iff [OF dp, of z x] dep_node [OF dp P_node] P_node show ?thesis by simp
  qed (use p in simp)
  show ?thesis
  proof (cases "p \<in> bel (tpar t) x")
    case False
    then have "depend_parent x p e t = Some t" by (simp add: depend_parent_def npx npp found)
    with False s p show ?thesis by (intro exI [of _ t] exI [of _ "trank t"]) (simp add: fits_def)
  next
    case True
    then have xn: "tpar t x \<noteq> P_null" using bel_null [OF dp, of x] p(2) by auto
    then have "depend_parent x p e t = parent_up x p e t" using True by (simp add: depend_parent_def npx npp found)
    moreover obtain t' d where t': "parent_up x p e t = Some t'" "shape t' d" "tpar t' = (tpar t)(p := tpar t x)"
      "same_rest t t'" "trank t' p = d p"
      "\<forall>y. tpar t' y \<noteq> P_null \<longrightarrow> (e \<longrightarrow> y \<notin> under (tpar t') (P_node p)) \<longrightarrow> trank t' y = d y"
      using parent_up_ok [OF s xn True p(2), of e] by blast
    moreover have "fits (tpar t') x (P_node p)"
    proof -
      have dp': "dep (tpar t') d" using t'(2) by (simp add: shape_def)
      have "tpar t' p = tpar t' x" using p(2) t'(3) by simp
      then have "p \<notin> bel (tpar t') x"
        using bel_child [of p "tpar t'" x] bel_parent [of p "tpar t'" x] dep_no_loop [OF dp', of x] p(2) by metis
      then show ?thesis using xn t'(3) by (simp add: fits_def)
    qed
    ultimately show ?thesis using True by auto
  qed
qed

lemma reuse_last_view:
  "tpar (reuse_last p t) = tpar t" "kids (reuse_last p t) q = kids t q" "tdom (reuse_last p t) = tdom t"
  "tweight (reuse_last p t) = tweight t" "tstream (reuse_last p t) = tstream t" "trank (reuse_last p t) = trank t"
  "t_closed_nodes (reuse_last p t) = t_closed_nodes t" "shape (reuse_last p t) d = shape t d"
  by (auto simp: reuse_last_def tpar_def kids_def tdom_def tweight_def tstream_def trank_def shape_def kids_ok_def
      there_def children_of_def fun_eq_iff split: v2_parent.split)

text \<open>The place in the queue of closed nodes.\<close>

definition closed_last :: "v2_tree \<Rightarrow> v2_parent \<Rightarrow> nat list" where
  "closed_last t q =
     (case q of
        P_node p \<Rightarrow> if tstream t p = None then remove1 p (t_closed t) @ [p] else t_closed t
      | _ \<Rightarrow> t_closed t)"

lemma set_dependency_ok:
  assumes s: "shape t (trank t)" and x: "x \<in> tdom t" and p: "depend \<noteq> x"
    and tree: "\<And>y. y \<in> tdom t \<Longrightarrow> y \<noteq> x \<Longrightarrow> tpar t y \<noteq> P_null"
  shows "\<exists>t'. ngx_http_v2_set_dependency t x depend e = Some t' \<and> shape t' (trank t')
    \<and> tpar t' = depends x (depend_on t depend) (depend_alone t depend e) (tpar t)
    \<and> tdom t' = tdom t \<and> tweight t' = tweight t \<and> tstream t' = tstream t
    \<and> t_closed t' = closed_last t (depend_on t depend) \<and> t_closed_nodes t' = t_closed_nodes t"
proof (cases "depend_on t depend")
  case P_root
  let ?u = "node_upd x (\<lambda>n. n\<lparr>n_rank := 1\<rparr>) t" and ?e = "depend_alone t depend e"
  have "\<exists>t'. insert_child x P_root ?e ?u = Some t' \<and> shape t' (trank t') \<and> tpar t' = reparent x P_root ?e (tpar ?u)
      \<and> same_rest ?u t'"
    by (rule insert_child_ok [where d = "trank t"])
      (use s x in \<open>auto simp: shape_rank_upd v2_view fits_def depth_at_def moved_def\<close>)
  then obtain t' where t': "insert_child x P_root ?e ?u = Some t'" "shape t' (trank t')"
    "tpar t' = reparent x P_root ?e (tpar t)" "same_rest t t'"
    using rank_upd_same same_rest_trans by metis
  have "ngx_http_v2_set_dependency t x depend e = Some t'"
    using P_root t'(1) by (auto simp: ngx_http_v2_set_dependency_def depend_on_def depend_alone_def tdom_def domIff split: if_splits)
  then show ?thesis using t' P_root by (auto simp: depends_def same_rest_def closed_last_def)
next
  case (P_node q)
  then have q: "q = depend" "depend \<noteq> 0" "depend \<in> tdom t" "depend_alone t depend e = e"
    by (auto simp: depend_on_def depend_alone_def split: if_splits)
  obtain u d where u: "depend_parent x depend e t = Some u" "shape u d" "same_rest t u"
    "tpar u = (if depend \<in> bel (tpar t) x then (tpar t)(depend := tpar t x) else tpar t)"
    "trank u depend = d depend" "fits (tpar u) x (P_node depend)"
    "\<forall>y. tpar u y \<noteq> P_null \<longrightarrow> (e \<longrightarrow> y \<notin> under (tpar u) (P_node depend)) \<longrightarrow> trank u y = d y"
    using depend_parent_ok [OF s x tree [OF q(3) p] p, of e] by blast
  let ?v = "reuse_last depend (node_upd x (\<lambda>n. n\<lparr>n_rank := rank_of u (P_node depend) + 1\<rparr>) u)"
  have xu: "x \<in> tdom u" using x u(3) by (simp add: same_rest_def)
  have "\<exists>t'. insert_child x (P_node depend) e ?v = Some t' \<and> shape t' (trank t')
      \<and> tpar t' = reparent x (P_node depend) e (tpar ?v) \<and> same_rest ?v t'"
    by (rule insert_child_ok [where d = d])
      (use u xu in \<open>auto simp: reuse_last_view shape_rank_upd rank_upd_same v2_view rank_of_depth depth_at_def moved_def\<close>)
  then obtain t' where t': "insert_child x (P_node depend) e ?v = Some t'" "shape t' (trank t')"
    "tpar t' = reparent x (P_node depend) e (tpar u)" "same_rest ?v t'"
    by (auto simp: reuse_last_view rank_upd_same)
  have "ngx_http_v2_set_dependency t x depend e = Some t'"
    using t'(1) q u(1) by (auto simp: ngx_http_v2_set_dependency_def tdom_def Let_def)
  moreover have "t_closed ?v = closed_last t (P_node depend)"
    using q(3) u(3) rank_upd_same(2) [of u x "rank_of u (P_node depend) + 1"]
    by (simp add: reuse_last_def closed_last_def node_at_stream same_rest_def)
  ultimately show ?thesis
    using t' q u rank_upd_same(2) [of u x "rank_of u (P_node depend) + 1"] P_node
    by (auto simp: depends_def same_rest_def reuse_last_view)
qed (simp add: depend_on_def split: if_splits)

end
