(* ===== verification/V2_Priority_Safe.thy ===== *)
theory V2_Priority_Safe
  imports V2_Priority_Tree
begin

text \<open>
  The invariant of the nodes of a connection, and that the operations of ngx_http_v2.c on nodes keep it, with what
  each does to the tree.
\<close>

text \<open>All but that the nodes of \<open>X\<close> may not have a parent yet.\<close>

definition ready :: "nat set \<Rightarrow> v2_tree \<Rightarrow> bool" where
  "ready X t \<longleftrightarrow> shape t (trank t) \<and> (\<forall>x\<in>tdom t - X. tpar t x \<noteq> P_null)
     \<and> distinct (t_closed t) \<and> set (t_closed t) = {x \<in> tdom t. tstream t x = None}
     \<and> t_closed_nodes t = of_nat (length (t_closed t))
     \<and> (\<forall>x\<in>tdom t. 0 < tweight t x \<and> tweight t x \<le> 256) \<and> 0 \<notin> tdom t"

definition tree_inv :: "v2_tree \<Rightarrow> bool" where
  "tree_inv t \<longleftrightarrow> ready {} t"

lemma tree_inv_shape: "tree_inv t \<Longrightarrow> shape t (trank t)"
  and tree_inv_kids: "tree_inv t \<Longrightarrow> kids_ok t"
  and tree_inv_dep: "tree_inv t \<Longrightarrow> dep (tpar t) (trank t)"
  and tree_inv_par: "tree_inv t \<Longrightarrow> x \<in> tdom t \<Longrightarrow> tpar t x \<noteq> P_null"
  and tree_inv_closed: "tree_inv t \<Longrightarrow> x \<in> set (t_closed t) \<longleftrightarrow> x \<in> tdom t \<and> tstream t x = None"
  by (simp_all add: tree_inv_def ready_def shape_def)

section \<open>A node is used again\<close>

definition orphaned :: "nat \<Rightarrow> (nat \<Rightarrow> v2_parent) \<Rightarrow> nat \<Rightarrow> v2_parent" where
  "orphaned x pa y = (if pa y = P_node x then pa x else pa y)"

lemma orphaned_dep:
  assumes d: "dep pa d" and x: "pa x \<noteq> P_null"
  shows "dep (orphaned x pa) (\<lambda>y. if y \<in> under pa (P_node x) then d y - 1 else d y)" (is "dep ?pa ?d")
  unfolding dep_def
proof
  fix y
  have nn: "?pa z \<noteq> P_null" if "pa z \<noteq> P_null" for z using that x by (simp add: orphaned_def)
  have low: "z \<in> under pa (P_node x) \<Longrightarrow> 2 \<le> d z" for z
    using under_deeper [OF d] dep_pos [OF d x] by fastforce
  have xu: "x \<notin> under pa (P_node x)" using under_deeper [OF d] by blast
  show "case ?pa y of P_null \<Rightarrow> True | P_root \<Rightarrow> ?d y = 1 | P_node p \<Rightarrow> ?pa p \<noteq> P_null \<and> ?d y = ?d p + 1"
  proof (cases "pa y = P_node x")
    case True
    have "?d y = d x" using dep_node [OF d True] under_child [of pa y] True by simp
    moreover have "p \<notin> under pa (P_node x)" if "pa x = P_node p" for p
      using under_step [of p pa "P_node x" x] xu that by blast
    moreover have "pa p \<noteq> P_null \<and> d x = d p + 1" if "pa x = P_node p" for p using dep_node [OF d that] .
    ultimately show ?thesis using True x dep_root [OF d, of x] nn
      by (auto simp: orphaned_def split: v2_parent.split)
  next
    case False
    show ?thesis
    proof (cases "pa y")
      case P_root
      then show ?thesis using dep_root [OF d P_root] under_not_root [of y pa "P_node x"] by (auto simp: orphaned_def)
    next
      case (P_node z)
      have "y \<in> under pa (P_node x) \<longleftrightarrow> z \<in> under pa (P_node x)" using under_step under_parent False P_node by metis
      with dep_node [OF d P_node] low [of z] nn False P_node show ?thesis by (auto simp: orphaned_def)
    qed (simp add: orphaned_def)
  qed
qed

lemma orphaned_bel:
  assumes d: "dep pa d" and c: "pa c = P_node x"
  shows "bel (orphaned x pa) c = bel pa c"
proof
  have nx: "z \<noteq> x" if "z \<in> bel pa c" for z using dep_no_loop [OF d c] that by blast
  show "bel pa c \<subseteq> bel (orphaned x pa) c"
  proof
    fix y assume "y \<in> bel pa c"
    then show "y \<in> bel (orphaned x pa) c"
    proof (induction rule: bel_induct)
      case (step z y)
      with nx [of z] show ?case by (auto simp: orphaned_def intro: bel_step)
    qed simp
  qed
  show "bel (orphaned x pa) c \<subseteq> bel pa c"
  proof
    fix y assume "y \<in> bel (orphaned x pa) c"
    then show "y \<in> bel pa c"
    proof (induction rule: bel_induct)
      case (step z y)
      have "pa x \<noteq> P_node z"
      proof
        assume "pa x = P_node z"
        with bel_step [OF step.IH] nx show False by blast
      qed
      with step show ?case by (auto simp: orphaned_def intro: bel_step split: if_splits)
    qed simp
  qed
qed

lemma adopt_child_fold:
  assumes "distinct cs" "set cs \<subseteq> tdom t"
  shows "tdom (fold (adopt_child p w tw) cs t) = tdom t" "kids (fold (adopt_child p w tw) cs t) q = kids t q"
    "tpar (fold (adopt_child p w tw) cs t) y = (if y \<in> set cs then p else tpar t y)"
    "trank (fold (adopt_child p w tw) cs t) y = trank t y" "tstream (fold (adopt_child p w tw) cs t) = tstream t"
    "tweight (fold (adopt_child p w tw) cs t) y = (if y \<in> set cs then closed_share w tw (tweight t y) else tweight t y)"
    "t_closed (fold (adopt_child p w tw) cs t) = t_closed t"
    "t_closed_nodes (fold (adopt_child p w tw) cs t) = t_closed_nodes t"
  using assms
proof (induction cs arbitrary: t)
  case (Cons c cs)
  {
    case 1 show ?case using Cons.IH(1) [of "adopt_child p w tw c t"] 1 by (simp add: adopt_child_def v2_view)
  next
    case 2 show ?case using Cons.IH(2) [of "adopt_child p w tw c t"] 2 by (simp add: adopt_child_def v2_view)
  next
    case 3 show ?case using Cons.IH(3) [of "adopt_child p w tw c t"] 3 by (auto simp: adopt_child_def v2_view)
  next
    case 4 show ?case using Cons.IH(4) [of "adopt_child p w tw c t"] 4
      by (auto simp: adopt_child_def v2_view trank_def [symmetric])
  next
    case 5 show ?case using Cons.IH(5) [of "adopt_child p w tw c t"] 5
      by (auto simp: adopt_child_def v2_view node_at_stream fun_eq_iff)
  next
    case 6 show ?case using Cons.IH(6) [of "adopt_child p w tw c t"] 6
      by (auto simp: adopt_child_def v2_view tweight_def [symmetric])
  next
    case 7 show ?case using Cons.IH(7) [of "adopt_child p w tw c t"] 7 by (simp add: adopt_child_def v2_view)
  next
    case 8 show ?case using Cons.IH(8) [of "adopt_child p w tw c t"] 8 by (simp add: adopt_child_def v2_view)
  }
qed simp_all

lemma closed_upd_view [v2_view]:
  "tpar (t\<lparr>t_closed_nodes := a\<rparr>) = tpar t" "trank (t\<lparr>t_closed_nodes := a\<rparr>) = trank t"
  "tdom (t\<lparr>t_closed_nodes := a\<rparr>) = tdom t" "tweight (t\<lparr>t_closed_nodes := a\<rparr>) = tweight t"
  "tstream (t\<lparr>t_closed_nodes := a\<rparr>) = tstream t"
  "kids (t\<lparr>t_closed_nodes := a\<rparr>) q = kids t q"
  "tpar (t\<lparr>t_closed := b\<rparr>) = tpar t" "trank (t\<lparr>t_closed := b\<rparr>) = trank t"
  "tdom (t\<lparr>t_closed := b\<rparr>) = tdom t" "tweight (t\<lparr>t_closed := b\<rparr>) = tweight t"
  "tstream (t\<lparr>t_closed := b\<rparr>) = tstream t" "kids (t\<lparr>t_closed := b\<rparr>) q = kids t q"
  by (auto simp: tpar_def trank_def tdom_def tweight_def tstream_def kids_def there_def children_of_def fun_eq_iff
      split: v2_parent.split)

definition forget :: "nat \<Rightarrow> v2_tree \<Rightarrow> v2_tree" where
  "forget x t = t\<lparr>t_nodes := (t_nodes t)(x := None)\<rparr>"

lemma forget_view [v2_view]:
  "tpar (forget x t) y = (if y = x then P_null else tpar t y)" "tdom (forget x t) = tdom t - {x}"
  "tstream (forget x t) y = (if y = x then None else tstream t y)"
  "y \<noteq> x \<Longrightarrow> trank (forget x t) y = trank t y" "y \<noteq> x \<Longrightarrow> tweight (forget x t) y = tweight t y"
  "kids (forget x t) q = (if q = P_node x then [] else kids t q)"
  "t_closed (forget x t) = t_closed t" "t_closed_nodes (forget x t) = t_closed_nodes t"
  by (auto simp: forget_def tpar_def mpar_def tdom_def tstream_def trank_def tweight_def node_at_def kids_def there_def
      children_of_def split: v2_parent.split)

lemma children_get:
  "x \<in> tdom t \<Longrightarrow> n_children (node_at (t_nodes t) x) = kids t (P_node x)"
  by (simp add: kids_def there_def children_of_def)

lemma dep_forget: "dep pa d \<Longrightarrow> (\<And>y. pa y \<noteq> P_node x) \<Longrightarrow> dep (\<lambda>y. if y = x then P_null else pa y) d"
  unfolding dep_def by (fastforce split: v2_parent.splits)

text \<open>The tree without the node \<open>x\<close>, whose children have got its parent.\<close>

lemma closed_node_shape:
  assumes s: "shape t d" and x: "tpar t x = p" "p \<noteq> P_null"
    and par: "\<And>y. tpar u y = (if y = x then P_null else orphaned x (tpar t) y)" and dm: "tdom u = tdom t - {x}"
    and kd: "\<And>q. kids u q = (if q = P_node x then [] else if q = p then remove1 x (kids t p) @ kids t (P_node x) else kids t q)"
    and rk: "\<And>y. y \<in> tdom u \<Longrightarrow> trank u y = (if y \<in> under (tpar t) (P_node x) then d y - 1 else d y)"
  shows "shape u (trank u)"
proof -
  let ?d = "\<lambda>y. if y \<in> under (tpar t) (P_node x) then d y - 1 else d y"
  have k: "kids_ok t" and dp: "dep (tpar t) d" using s by (simp_all add: shape_def)
  have px: "p \<noteq> P_node x" using dep_no_loop [OF dp, of x x] x by auto
  have no: "orphaned x (tpar t) y \<noteq> P_node x" for y using x px by (auto simp: orphaned_def)
  have "tpar u = (\<lambda>y. if y = x then P_null else orphaned x (tpar t) y)" by (rule ext) (rule par)
  then have du: "dep (tpar u) ?d" using dep_forget [OF orphaned_dep [OF dp]] x no by simp
  have "dep (tpar u) (trank u)"
    by (rule dep_cong [OF du]) (use rk tpar_dom in blast)
  moreover have "kids_ok u"
    unfolding kids_ok_def
  proof (intro allI conjI impI)
    fix q
    show "distinct (kids u q)"
      using kids_distinct [OF k] kids_set [OF k x(2)] kids_set [OF k, of "P_node x"] px by (auto simp: kd)
    show "set (kids u q) = {y. tpar u y = q}" if "q \<noteq> P_null"
      using kids_set [OF k that] kids_set [OF k, of "P_node x"] kids_distinct [OF k, of p] x that px
      by (auto simp: kd par orphaned_def)
  qed
  ultimately show ?thesis using s by (simp add: shape_def dm)
qed

lemma share_bounds:
  assumes "c \<in> set cs" "0 < w" "w \<le> 256" "0 < f c"
  shows "0 < closed_share w (sum_list (map f cs)) (f c) \<and> closed_share w (sum_list (map f cs)) (f c) \<le> 256"
proof -
  have "f c \<le> sum_list (map f cs)" using assms(1) by (simp add: member_le_sum_list)
  then have "w * f c div sum_list (map f cs) \<le> w" using assms(4)
    by (metis div_le_mono mult_le_mono2 nonzero_mult_div_cancel_right not_gr_zero le_zero_eq)
  then show ?thesis using assms(3) by (auto simp: closed_share_def Let_def)
qed

text \<open>The tree after the children have got their new parent, before their ranks.\<close>

definition adopted :: "nat \<Rightarrow> nat list \<Rightarrow> v2_tree \<Rightarrow> v2_tree" where
  "adopted x rest t =
     (let cs = kids t (P_node x)
      in fold (adopt_child (tpar t x) (tweight t x) (sum_list (map (tweight t) cs))) cs
           (children_upd (tpar t x) (remove1 x) (t\<lparr>t_closed_nodes := t_closed_nodes t - 1, t_closed := rest\<rparr>)))"

lemma adopted_view:
  assumes k: "kids_ok t" and x: "x \<in> tdom t" "tpar t x \<noteq> P_null"
  shows "tdom (adopted x rest t) = tdom t" "tpar (adopted x rest t) = orphaned x (tpar t)"
    "trank (adopted x rest t) = trank t" "tstream (adopted x rest t) = tstream t" "t_closed (adopted x rest t) = rest"
    "t_closed_nodes (adopted x rest t) = t_closed_nodes t - 1"
    "tweight (adopted x rest t) y = (if tpar t y = P_node x
       then closed_share (tweight t x) (sum_list (map (tweight t) (kids t (P_node x)))) (tweight t y) else tweight t y)"
    "kids (adopted x rest t) q = (if q = tpar t x then remove1 x (kids t q) else kids t q)"
proof -
  let ?cs = "kids t (P_node x)" and ?p = "tpar t x"
  have cs: "distinct ?cs" "set ?cs = {y. tpar t y = P_node x}" "set ?cs \<subseteq> tdom t"
    using kids_distinct [OF k] kids_set [OF k, of "P_node x"] kids_dom [OF k, of _ "P_node x"] by auto
  define t0 where "t0 = t\<lparr>t_closed_nodes := t_closed_nodes t - 1, t_closed := rest\<rparr>"
  have t0: "tdom t0 = tdom t" "tpar t0 = tpar t" "trank t0 = trank t" "tstream t0 = tstream t" "tweight t0 = tweight t"
    "kids t0 q = kids t q" "t_closed t0 = rest" "t_closed_nodes t0 = t_closed_nodes t - 1" for q
    by (simp_all add: t0_def v2_view)
  have thp: "there t0 ?p" using kids_there [OF k x(2)] there_cong [OF t0(1)] by simp
  define t1 where "t1 = children_upd ?p (remove1 x) t0"
  have t1: "tdom t1 = tdom t" "tpar t1 y = tpar t y" "trank t1 y = trank t y" "tstream t1 y = tstream t y"
    "tweight t1 y = tweight t y" "kids t1 q = (if q = ?p then remove1 x (kids t q) else kids t q)"
    "t_closed t1 = rest" "t_closed_nodes t1 = t_closed_nodes t - 1" for y q
    using thp by (simp_all add: t1_def v2_view t0)
  have ad: "adopted x rest t = fold (adopt_child ?p (tweight t x) (sum_list (map (tweight t) ?cs))) ?cs t1"
    by (simp add: adopted_def t1_def t0_def Let_def)
  have sub: "set ?cs \<subseteq> tdom t1" using cs(3) t1(1) by simp
  note af = adopt_child_fold [OF cs(1) sub, where p = ?p and w = "tweight t x"
      and tw = "sum_list (map (tweight t) ?cs)", folded ad]
  show "tdom (adopted x rest t) = tdom t" "t_closed (adopted x rest t) = rest"
    "t_closed_nodes (adopted x rest t) = t_closed_nodes t - 1"
    "kids (adopted x rest t) q = (if q = tpar t x then remove1 x (kids t q) else kids t q)"
    unfolding af t1 by (rule refl)+
  show "tpar (adopted x rest t) = orphaned x (tpar t)" "trank (adopted x rest t) = trank t"
    "tstream (adopted x rest t) = tstream t"
    by (auto simp: fun_eq_iff af t1 orphaned_def cs(2))
  show "tweight (adopted x rest t) y = (if tpar t y = P_node x
       then closed_share (tweight t x) (sum_list (map (tweight t) (kids t (P_node x)))) (tweight t y) else tweight t y)"
    by (simp add: af(6) t1 cs(2))
qed

lemma adopted_mkids:
  assumes s: "shape t d" and x: "x \<in> tdom t" "tpar t x \<noteq> P_null"
  shows "mkids (t_nodes (adopted x rest t)) (under (tpar t) (P_node x))"
  unfolding mkids_def
proof (intro ballI allI impI)
  have k: "kids_ok t" and dp: "dep (tpar t) d" using s by (simp_all add: shape_def)
  note av = adopted_view [OF k x]
  fix q n assume q: "q \<in> under (tpar t) (P_node x)" and n: "t_nodes (adopted x rest t) q = Some n"
  then have "q \<in> tdom (adopted x rest t)" by (auto simp: tdom_def)
  with n children_get [of q "adopted x rest t"] have "n_children n = kids (adopted x rest t) (P_node q)"
    by (simp add: node_at_def)
  moreover have "tpar t x \<noteq> P_node q" using under_step [OF q] under_deeper [OF dp, of x x] by blast
  moreover have "q \<noteq> x" using under_deeper [OF dp q] by blast
  ultimately have "set (n_children n) = {c. tpar t c = P_node q}" "\<And>c. orphaned x (tpar t) c = P_node q \<longleftrightarrow> tpar t c = P_node q"
    using kids_set [OF k, of "P_node q"] by (simp_all add: av(8) orphaned_def)
  then show "set (n_children n) = {c. mpar (t_nodes (adopted x rest t)) c = P_node q}"
    using av(2) [of rest] by (simp add: tpar_def)
qed

lemma get_closed_node_steps:
  assumes s: "shape t (trank t)" and x: "x \<in> tdom t" "tpar t x \<noteq> P_null" and c: "t_closed t = x # rest"
  shows "ngx_http_v2_get_closed_node t = Some (forget x (children_upd (tpar t x) (\<lambda>xs. xs @ kids t (P_node x))
    (set_ranks (under (tpar t) (P_node x)) (\<lambda>y. if y \<in> under (tpar t) (P_node x) then trank t y - 1 else trank t y)
      (adopted x rest t))))"
proof -
  let ?a = "adopted x rest t" and ?cs = "kids t (P_node x)"
  let ?d = "\<lambda>y. if y \<in> under (tpar t) (P_node x) then trank t y - 1 else trank t y"
  have k: "kids_ok t" and dp: "dep (tpar t) (trank t)" and fin: "finite (tdom t)" using s by (simp_all add: shape_def)
  note av = adopted_view [OF k x, of rest]
  have par: "mpar (t_nodes ?a) = orphaned x (tpar t)" using av(2) by (simp add: tpar_def)
  have cs: "set ?cs = {y. tpar t y = P_node x}" by (rule kids_set [OF k]) simp
  have dd: "dep (mpar (t_nodes ?a)) ?d" unfolding par by (rule orphaned_dep [OF dp x(2)])
  have fd: "finite (dom (t_nodes ?a))" using fin av(1) by (simp add: tdom_def)
  have un: "(\<Union>c\<in>set ?cs. bel (mpar (t_nodes ?a)) c) = under (tpar t) (P_node x)"
    using orphaned_bel [OF dp] cs by (auto simp: par under_def)
  have rk: "rank_of ?a (tpar t x) + 1 = trank t x"
    using dep_pos [OF dp x(2)] av(3) by (simp add: rank_of_depth)
  have "ngx_http_v2_node_children_update (map (Pair (rank_of ?a (tpar t x))) ?cs) (t_nodes ?a) =
      Some (ranked (\<Union>c\<in>set ?cs. bel (mpar (t_nodes ?a)) c) ?d (t_nodes ?a))"
  proof (rule children_update [OF dd fd adopted_mkids [OF s x]])
    fix c assume "c \<in> set ?cs"
    then have pc: "tpar t c = P_node x" using cs by simp
    have "?d c = trank t x" using dep_node [OF dp pc] under_child [of "tpar t" c] pc by simp
    moreover have "bel (mpar (t_nodes ?a)) c \<subseteq> under (tpar t) (P_node x)"
      unfolding par orphaned_bel [OF dp pc] using pc by (auto simp: under_def)
    ultimately show "mpar (t_nodes ?a) c \<noteq> P_null \<and> bel (mpar (t_nodes ?a)) c \<subseteq> under (tpar t) (P_node x)
        \<and> rank_of ?a (tpar t x) + 1 = ?d c"
      using x(2) pc rk by (simp add: par orphaned_def)
  qed
  then have tu: "tree_update (rank_of ?a (tpar t x)) ?cs ?a = Some (set_ranks (under (tpar t) (P_node x)) ?d ?a)"
    unfolding un by (simp add: tree_update_def set_ranks_def)
  have w: "tweight (children_upd p f (t\<lparr>t_closed_nodes := a, t_closed := b\<rparr>)) = tweight t" for p f a b
    by (auto simp: fun_eq_iff v2_view)
  have "ngx_http_v2_get_closed_node t = map_option (\<lambda>u. forget x (children_upd (tpar t x) (\<lambda>xs. xs @ ?cs) u))
      (tree_update (rank_of ?a (tpar t x)) ?cs ?a)"
    unfolding ngx_http_v2_get_closed_node_def c list.case Let_def node_at_parent [OF x(1)] children_get [OF x(1)]
      tweight_def [symmetric] adopted_def forget_def w
    by (simp add: option.case_eq_if map_option_case)
  then show ?thesis by (simp add: tu)
qed

lemma get_closed_node_ok:
  assumes inv: "tree_inv t" and c: "t_closed t = x # rest"
  shows "\<exists>u. ngx_http_v2_get_closed_node t = Some u \<and> tree_inv u \<and> tdom u = tdom t - {x} \<and> t_closed u = rest
    \<and> tstream u = tstream t"
proof -
  let ?d = "\<lambda>y. if y \<in> under (tpar t) (P_node x) then trank t y - 1 else trank t y"
  have xc: "x \<in> tdom t" "tstream t x = None" using tree_inv_closed [OF inv, of x] c by simp_all
  note x = xc(1) tree_inv_par [OF inv xc(1)]
  note k = tree_inv_kids [OF inv]
  note av = adopted_view [OF k x, of rest]
  obtain u where u: "u = forget x (children_upd (tpar t x) (\<lambda>xs. xs @ kids t (P_node x))
      (set_ranks (under (tpar t) (P_node x)) ?d (adopted x rest t)))" by blast
  have res: "ngx_http_v2_get_closed_node t = Some u"
    unfolding u by (rule get_closed_node_steps [OF tree_inv_shape [OF inv] x c])
  have dm: "tdom u = tdom t - {x}" by (simp add: u v2_view av)
  have th: "there (set_ranks S d (adopted x rest t)) (tpar t x)" for S d
    by (subst there_cong [where u = t]) (simp_all add: v2_view av kids_there [OF k x(2)])
  have st: "tstream u y = (if y = x then None else tstream t y)" for y by (simp add: u v2_view av)
  have cl: "t_closed u = rest" "t_closed_nodes u = t_closed_nodes t - 1" by (simp_all add: u v2_view av)
  have wt: "tweight u y = (if tpar t y = P_node x
       then closed_share (tweight t x) (sum_list (map (tweight t) (kids t (P_node x)))) (tweight t y) else tweight t y)"
    if "y \<noteq> x" for y using that by (simp add: u v2_view av(7) children_upd_nodes)
  have pr: "tpar u y = (if y = x then P_null else orphaned x (tpar t) y)" for y by (simp add: u v2_view av)
  have sh: "shape u (trank u)"
  proof (rule closed_node_shape [OF tree_inv_shape [OF inv] refl x(2) pr dm])
    show "kids u q = (if q = P_node x then []
        else if q = tpar t x then remove1 x (kids t (tpar t x)) @ kids t (P_node x) else kids t q)" for q
      using th by (simp add: u v2_view av)
    show "trank u y = (if y \<in> under (tpar t) (P_node x) then trank t y - 1 else trank t y)" if "y \<in> tdom u" for y
      using that by (auto simp: dm u v2_view av)
  qed
  have "0 < tweight u y \<and> tweight u y \<le> 256" if "y \<in> tdom u" for y
  proof -
    have y: "y \<noteq> x" "y \<in> tdom t" using that dm by auto
    have w: "0 < tweight t z \<and> tweight t z \<le> 256" if "z \<in> tdom t" for z
      using inv that by (simp add: tree_inv_def ready_def)
    show ?thesis
      using wt [OF y(1)] w [OF y(2)] w [OF x(1)] share_bounds [of y "kids t (P_node x)" "tweight t x" "tweight t"]
        kids_set [OF k, of "P_node x"] by auto
  qed
  moreover have "tpar u y \<noteq> P_null" if "y \<in> tdom u" for y
    using that tree_inv_par [OF inv] x(2) by (auto simp: pr dm orphaned_def)
  moreover have "distinct rest" "set rest = {y \<in> tdom u. tstream u y = None}"
    using inv c by (auto simp: tree_inv_def ready_def dm st)
  moreover have "t_closed_nodes u = of_nat (length rest)" using inv c by (simp add: tree_inv_def ready_def cl)
  moreover have "0 \<notin> tdom u" using inv by (simp add: tree_inv_def ready_def dm)
  ultimately have "tree_inv u" using sh by (simp add: tree_inv_def ready_def cl)
  moreover have "tstream u = tstream t" using st xc(2) by (auto simp: fun_eq_iff)
  ultimately show ?thesis using res dm cl by auto
qed

section \<open>A new node\<close>

definition fresh_node :: "nat \<Rightarrow> v2_tree \<Rightarrow> v2_tree" where
  "fresh_node x t = t\<lparr>t_nodes := (t_nodes t)(x \<mapsto> new_node)\<rparr>"

lemma fresh_node_view:
  assumes "x \<notin> tdom t"
  shows "tpar (fresh_node x t) = tpar t" "tdom (fresh_node x t) = insert x (tdom t)" "tstream (fresh_node x t) = tstream t"
    "y \<noteq> x \<Longrightarrow> trank (fresh_node x t) y = trank t y" "y \<noteq> x \<Longrightarrow> tweight (fresh_node x t) y = tweight t y"
    "kids (fresh_node x t) q = kids t q" "t_closed (fresh_node x t) = t_closed t"
    "t_closed_nodes (fresh_node x t) = t_closed_nodes t"
proof -
  from assms have n: "t_nodes t x = None" by (auto simp: tdom_def)
  then show "tpar (fresh_node x t) = tpar t" "tdom (fresh_node x t) = insert x (tdom t)"
    "tstream (fresh_node x t) = tstream t" "y \<noteq> x \<Longrightarrow> trank (fresh_node x t) y = trank t y"
    "y \<noteq> x \<Longrightarrow> tweight (fresh_node x t) y = tweight t y" "t_closed (fresh_node x t) = t_closed t"
    "t_closed_nodes (fresh_node x t) = t_closed_nodes t"
    by (auto simp: fresh_node_def tpar_def mpar_def tdom_def tstream_def trank_def tweight_def node_at_def new_node_def fun_eq_iff)
  show "kids (fresh_node x t) q = kids t q"
    using n by (auto simp: fresh_node_def kids_def there_def tdom_def children_of_def node_at_def new_node_def
        split: v2_parent.split)
qed

lemma fresh_node_shape:
  assumes "shape t (trank t)" "x \<notin> tdom t"
  shows "shape (fresh_node x t) (trank (fresh_node x t))"
proof -
  note fv = fresh_node_view [OF assms(2)]
  have "dep (tpar t) (trank (fresh_node x t))"
  proof (rule dep_cong [where d = "trank t"])
    fix y assume "tpar t y \<noteq> P_null"
    then show "trank (fresh_node x t) y = trank t y" using assms(2) tpar_dom by (intro fv(4)) blast
  qed (use assms(1) in \<open>simp add: shape_def\<close>)
  then show ?thesis using assms(1) by (simp add: shape_def fv kids_ok_def)
qed

lemma get_node_by_id_there: "x \<in> tdom t \<Longrightarrow> ngx_http_v2_get_node_by_id t x = Some t"
  by (auto simp: ngx_http_v2_get_node_by_id_def tdom_def)

lemma get_node_by_id_new:
  assumes inv: "tree_inv t" and x: "x \<notin> tdom t"
  shows "\<exists>u. ngx_http_v2_get_node_by_id t x = Some (fresh_node x u) \<and> tree_inv u \<and> x \<notin> tdom u \<and> tstream u = tstream t
    \<and> Suc (card (tdom u)) = card (tdom t) + (if t_closed_nodes t < 32 then 1 else 0)"
proof (cases "t_closed_nodes t < 32")
  case True
  with x inv show ?thesis by (intro exI [of _ t]) (auto simp: ngx_http_v2_get_node_by_id_def tdom_def fresh_node_def)
next
  case False
  then have "t_closed t \<noteq> []" using inv by (auto simp: tree_inv_def ready_def)
  then obtain y rest where c: "t_closed t = y # rest" by (cases "t_closed t") auto
  obtain u where u: "ngx_http_v2_get_closed_node t = Some u" "tree_inv u" "tdom u = tdom t - {y}" "tstream u = tstream t"
    using get_closed_node_ok [OF inv c] by blast
  have "y \<in> tdom t" "finite (tdom t)"
    using tree_inv_closed [OF inv, of y] tree_inv_shape [OF inv] c by (simp_all add: shape_def)
  then have "Suc (card (tdom u)) = card (tdom t)" using u(3) by (metis card_Suc_Diff1)
  with False x u show ?thesis
    by (intro exI [of _ u]) (auto simp: ngx_http_v2_get_node_by_id_def tdom_def fresh_node_def)
qed

section \<open>The frames\<close>

lemma closed_last_same:
  assumes "ready X t"
  shows "distinct (closed_last t (depend_on t depend)) \<and> set (closed_last t (depend_on t depend)) = set (t_closed t)
    \<and> length (closed_last t (depend_on t depend)) = length (t_closed t)"
proof -
  have d: "distinct (t_closed t)" "set (t_closed t) = {x \<in> tdom t. tstream t x = None}"
    using assms by (simp_all add: ready_def)
  have "distinct (remove1 p xs @ [p]) \<and> set (remove1 p xs @ [p]) = set xs \<and> length (remove1 p xs @ [p]) = length xs"
    if "distinct xs" "p \<in> set xs" for p and xs :: "nat list"
    using that length_pos_if_in_set [OF that(2)] by (simp add: length_remove1) blast
  with d show ?thesis by (auto simp: closed_last_def depend_on_def)
qed

lemma dependency_inv:
  assumes r: "ready X t" "X \<subseteq> {x}" and x: "x \<in> tdom t" and p: "depend \<noteq> x"
  shows "\<exists>u. ngx_http_v2_set_dependency t x depend e = Some u \<and> tree_inv u \<and> tdom u = tdom t \<and> tstream u = tstream t
    \<and> tpar u = depends x (depend_on t depend) (depend_alone t depend e) (tpar t)"
proof -
  have s: "shape t (trank t)" and tr: "tpar t y \<noteq> P_null" if "y \<in> tdom t" "y \<noteq> x" for y
    using r that by (auto simp: ready_def)
  have s: "shape t (trank t)" using r by (simp add: ready_def)
  obtain u where u: "ngx_http_v2_set_dependency t x depend e = Some u" "shape u (trank u)"
    "tpar u = depends x (depend_on t depend) (depend_alone t depend e) (tpar t)" "tdom u = tdom t" "tweight u = tweight t"
    "tstream u = tstream t" "t_closed u = closed_last t (depend_on t depend)" "t_closed_nodes u = t_closed_nodes t"
    using set_dependency_ok [OF s x p tr] by blast
  have "bel (tpar t) x = {x}" if "tpar t x = P_null" using bel_null [of "tpar t" "trank t" x] that s by (simp add: shape_def)
  then have "tpar u y \<noteq> P_null" if "y \<in> tdom t" for y
    using that tr p by (auto simp: u(3) depends_def reparent_def depend_on_def dest: bel_child split: v2_parent.splits if_splits)
  then have "tree_inv u"
    using r(1) u closed_last_same [OF r(1), of depend] by (simp add: tree_inv_def ready_def)
  with u show ?thesis by blast
qed

lemma node_upd_weight:
  "tpar (node_upd x (\<lambda>n. n\<lparr>n_weight := w\<rparr>) t) = tpar t" "trank (node_upd x (\<lambda>n. n\<lparr>n_weight := w\<rparr>) t) = trank t"
  "tstream (node_upd x (\<lambda>n. n\<lparr>n_weight := w\<rparr>) t) = tstream t"
  "shape (node_upd x (\<lambda>n. n\<lparr>n_weight := w\<rparr>) t) d \<longleftrightarrow> shape t d"
proof -
  show p: "tpar (node_upd x (\<lambda>n. n\<lparr>n_weight := w\<rparr>) t) = tpar t"
    by (auto simp: fun_eq_iff v2_view node_at_parent)
  show "trank (node_upd x (\<lambda>n. n\<lparr>n_weight := w\<rparr>) t) = trank t"
    "tstream (node_upd x (\<lambda>n. n\<lparr>n_weight := w\<rparr>) t) = tstream t"
    by (auto simp: fun_eq_iff v2_view node_at_stream trank_def [symmetric])
  show "shape (node_upd x (\<lambda>n. n\<lparr>n_weight := w\<rparr>) t) d \<longleftrightarrow> shape t d"
    by (simp add: shape_def kids_ok_def p v2_view)
qed

lemma node_upd_stream:
  "tpar (node_upd x (\<lambda>n. n\<lparr>n_stream := so\<rparr>) t) = tpar t" "trank (node_upd x (\<lambda>n. n\<lparr>n_stream := so\<rparr>) t) = trank t"
  "tweight (node_upd x (\<lambda>n. n\<lparr>n_stream := so\<rparr>) t) = tweight t"
  "shape (node_upd x (\<lambda>n. n\<lparr>n_stream := so\<rparr>) t) d \<longleftrightarrow> shape t d"
proof -
  show p: "tpar (node_upd x (\<lambda>n. n\<lparr>n_stream := so\<rparr>) t) = tpar t"
    by (auto simp: fun_eq_iff v2_view node_at_parent)
  show "trank (node_upd x (\<lambda>n. n\<lparr>n_stream := so\<rparr>) t) = trank t"
    "tweight (node_upd x (\<lambda>n. n\<lparr>n_stream := so\<rparr>) t) = tweight t"
    by (auto simp: fun_eq_iff v2_view trank_def [symmetric] tweight_def [symmetric])
  show "shape (node_upd x (\<lambda>n. n\<lparr>n_stream := so\<rparr>) t) d \<longleftrightarrow> shape t d"
    by (simp add: shape_def kids_ok_def p v2_view)
qed

lemma closed_shape [v2_view]: "shape (t\<lparr>t_closed := b\<rparr>) d = shape t d" "shape (t\<lparr>t_closed_nodes := a\<rparr>) d = shape t d"
  by (simp_all add: shape_def kids_ok_def v2_view)

lemma fresh_ready:
  assumes inv: "tree_inv u" and x: "x \<notin> tdom u" "x \<noteq> 0" and w: "0 < w" "w \<le> 256"
  shows "ready {x} (priority_reuse x (node_upd x (\<lambda>n. n\<lparr>n_weight := w\<rparr>) (fresh_node x u)))"
proof -
  let ?v = "node_upd x (\<lambda>n. n\<lparr>n_weight := w\<rparr>) (fresh_node x u)"
  note fv = fresh_node_view [OF x(1)]
  have n: "n_stream (node_at (t_nodes ?v) x) = None" "n_parent (node_at (t_nodes ?v) x) = P_null"
    by (simp_all add: node_upd_def fresh_node_def node_at_def new_node_def)
  have st: "tstream u x = None" using x(1) by (auto simp: tstream_def tdom_def split: option.split)
  have "tweight ?v y = (if y = x then w else tweight u y)" for y
    using fv(5) by (simp add: v2_view fv(2))
  moreover have "shape ?v (trank ?v)" using fresh_node_shape [OF tree_inv_shape [OF inv] x(1)] by (simp add: node_upd_weight)
  moreover have "x \<notin> set (t_closed u)" using tree_inv_closed [OF inv] x(1) by simp
  ultimately show ?thesis using inv x w st
    by (auto simp: ready_def tree_inv_def priority_reuse_def n v2_view node_upd_weight fv)
qed

lemma there_ready:
  assumes inv: "tree_inv t" and x: "x \<in> tdom t" and w: "0 < w" "w \<le> 256"
  shows "ready {} (priority_reuse x (node_upd x (\<lambda>n. n\<lparr>n_weight := w\<rparr>) t))"
proof -
  let ?v = "node_upd x (\<lambda>n. n\<lparr>n_weight := w\<rparr>) t"
  have n: "n_stream (node_at (t_nodes ?v) x) = tstream t x" "n_parent (node_at (t_nodes ?v) x) = tpar t x"
    using x node_at_stream [of x ?v] node_at_parent [of x ?v] by (simp_all add: v2_view node_upd_weight)
  have "distinct (remove1 x (t_closed t) @ [x]) \<and> set (remove1 x (t_closed t) @ [x]) = set (t_closed t)
      \<and> length (remove1 x (t_closed t) @ [x]) = length (t_closed t)" if "tstream t x = None"
    using closed_last_same [of "{}" t x] inv x that
    by (auto simp: tree_inv_def closed_last_def depend_on_def ready_def split: if_splits)
  then show ?thesis using inv x w
    by (auto simp: ready_def tree_inv_def priority_reuse_def n v2_view node_upd_weight)
qed

lemma priority_reuse_view:
  "tdom (priority_reuse x t) = tdom t" "tstream (priority_reuse x t) = tstream t" "tpar (priority_reuse x t) = tpar t"
  by (simp_all add: priority_reuse_def Let_def v2_view)

lemma priority_node_ok:
  assumes inv: "tree_inv t" and x: "x \<noteq> 0" "depend \<noteq> x" and w: "0 < w" "w \<le> 256"
  shows "\<exists>u. priority_node t x depend e w = Some u \<and> tree_inv u \<and> x \<in> tdom u \<and> tstream u = tstream t
    \<and> card (tdom u) \<le> card (tdom t) + (if t_closed_nodes t < 32 then 1 else 0)"
proof (cases "x \<in> tdom t")
  case True
  let ?v = "priority_reuse x (node_upd x (\<lambda>n. n\<lparr>n_weight := w\<rparr>) t)"
  have "x \<in> tdom ?v" using True by (simp add: priority_reuse_view v2_view)
  from dependency_inv [OF there_ready [OF inv True w] _ this x(2), of e] True get_node_by_id_there [OF True] show ?thesis
    by (auto simp: priority_node_def priority_reuse_view v2_view node_upd_weight)
next
  case False
  obtain u where u: "ngx_http_v2_get_node_by_id t x = Some (fresh_node x u)" "tree_inv u" "x \<notin> tdom u" "tstream u = tstream t"
    "Suc (card (tdom u)) = card (tdom t) + (if t_closed_nodes t < 32 then 1 else 0)"
    using get_node_by_id_new [OF inv False] by blast
  note fv = fresh_node_view [OF u(3)]
  let ?v = "priority_reuse x (node_upd x (\<lambda>n. n\<lparr>n_weight := w\<rparr>) (fresh_node x u))"
  have "x \<in> tdom ?v" by (simp add: priority_reuse_view v2_view fv)
  from dependency_inv [OF fresh_ready [OF u(2,3) x(1) w] _ this x(2), of e]
  obtain v where v: "ngx_http_v2_set_dependency ?v x depend e = Some v" "tree_inv v" "tdom v = insert x (tdom u)"
    "tstream v = tstream t"
    by (auto simp: priority_reuse_view v2_view fv node_upd_weight u(4))
  have "card (tdom v) = Suc (card (tdom u))"
    using u(3) tree_inv_shape [OF u(2)] by (simp add: v(3) shape_def)
  with v u show ?thesis by (auto simp: priority_node_def)
qed

lemma tstream_none: "x \<notin> tdom t \<Longrightarrow> tstream t x = None"
  by (auto simp: tstream_def tdom_def split: option.split)

lemma headers_node_ok:
  assumes inv: "tree_inv t" and x: "x \<noteq> 0" "depend \<noteq> x" "tstream t x = None" and w: "0 < w" "w \<le> 256"
  shows "\<exists>u. headers_node t x priority depend e w s = Some u \<and> tree_inv u \<and> tstream u = (tstream t)(x := Some s)
    \<and> card (tdom u) \<le> card (tdom t) + (if t_closed_nodes t < 32 then 1 else 0)"
proof (cases "x \<in> tdom t")
  case True
  let ?a = "t\<lparr>t_closed := remove1 x (t_closed t), t_closed_nodes := t_closed_nodes t - 1\<rparr>"
  let ?b = "node_upd x (\<lambda>n. n\<lparr>n_stream := Some s\<rparr>) ?a"
  have xc: "x \<in> set (t_closed t)" using tree_inv_closed [OF inv] True x(3) by simp
  have st: "tstream ?b = (tstream t)(x := Some s)" using True by (auto simp: fun_eq_iff v2_view)
  have len: "of_nat (length (t_closed t) - Suc 0) = (of_nat (length (t_closed t)) - 1 :: 8 word)"
    using xc by (cases "t_closed t") simp_all
  have rb: "ready {} ?b"
    using inv xc len True st by (auto simp: ready_def tree_inv_def v2_view node_upd_stream length_remove1)
  have np: "n_parent (node_at (t_nodes t) x) \<noteq> P_null" using tree_inv_par [OF inv True] node_at_parent [OF True] by simp
  show ?thesis
  proof (cases priority)
    case False
    with rb np st True get_node_by_id_there [OF True] show ?thesis
      by (simp add: headers_node_def tree_inv_def Let_def v2_view)
  next
    case p: True
    let ?c = "node_upd x (\<lambda>n. n\<lparr>n_weight := w\<rparr>) ?b"
    have rc: "ready {} ?c" using rb w by (auto simp: ready_def v2_view node_upd_weight)
    have "x \<in> tdom ?c" using True by (simp add: v2_view)
    from dependency_inv [OF rc _ this x(2), of e] p np st get_node_by_id_there [OF True] show ?thesis
      by (auto simp: headers_node_def Let_def v2_view node_upd_weight)
  qed
next
  case False
  obtain u where u: "ngx_http_v2_get_node_by_id t x = Some (fresh_node x u)" "tree_inv u" "x \<notin> tdom u" "tstream u = tstream t"
    "Suc (card (tdom u)) = card (tdom t) + (if t_closed_nodes t < 32 then 1 else 0)"
    using get_node_by_id_new [OF inv False] by blast
  note fv = fresh_node_view [OF u(3)]
  let ?b = "node_upd x (\<lambda>n. n\<lparr>n_stream := Some s\<rparr>) (fresh_node x u)"
  let ?c = "node_upd x (\<lambda>n. n\<lparr>n_weight := w\<rparr>) ?b"
  have st: "tstream ?c = (tstream t)(x := Some s)" by (auto simp: fun_eq_iff v2_view fv node_upd_weight u(4))
  have np: "n_parent (node_at (t_nodes (fresh_node x u)) x) = P_null"
    by (simp add: fresh_node_def node_at_def new_node_def)
  have wt: "tweight ?c y = (if y = x then w else tweight u y)" for y
    using fv(5) by (simp add: v2_view fv(2) node_upd_stream)
  have sh: "shape ?c (trank ?c)"
    using fresh_node_shape [OF tree_inv_shape [OF u(2)] u(3)] by (simp add: node_upd_weight node_upd_stream)
  have rc: "ready {x} ?c"
    using u(2,3) w x(1) sh wt st tstream_none [OF u(3)] unfolding ready_def tree_inv_def
    by (auto simp: v2_view node_upd_weight node_upd_stream fv u(4))
  have "x \<in> tdom ?c" by (simp add: v2_view fv)
  from dependency_inv [OF rc _ this x(2), of e]
  obtain v where v: "ngx_http_v2_set_dependency ?c x depend e = Some v" "tree_inv v" "tdom v = insert x (tdom u)"
    "tstream v = (tstream t)(x := Some s)"
    by (auto simp: v2_view fv st)
  have "card (tdom v) = Suc (card (tdom u))" using u(3) tree_inv_shape [OF u(2)] by (simp add: v(3) shape_def)
  with v u np show ?thesis by (auto simp: headers_node_def Let_def)
qed

lemma close_node_ok:
  assumes inv: "tree_inv t" and x: "tstream t x \<noteq> None"
  shows "tree_inv (close_node t x) \<and> tdom (close_node t x) = tdom t \<and> tstream (close_node t x) = (tstream t)(x := None)"
proof -
  have xd: "x \<in> tdom t" by (rule ccontr) (use x in \<open>simp add: tstream_none\<close>)
  have st: "tstream (node_upd x (\<lambda>n. n\<lparr>n_stream := None\<rparr>) t) = (tstream t)(x := None)"
    using xd by (auto simp: fun_eq_iff v2_view)
  have "x \<notin> set (t_closed t)" using tree_inv_closed [OF inv] x by simp
  then show ?thesis using inv xd x
    by (auto simp: close_node_def Let_def ready_def tree_inv_def v2_view node_upd_stream st)
qed

end
