(* ===== verification/V2_Priority_Props.thy ===== *)
theory V2_Priority_Props
  imports V2_Priority_Safe
begin

text \<open>
  What holds of the nodes of every HTTP/2 connection: the trees that PRIORITY and HEADERS frames and the ends of
  streams can lead to, in any order and with any dependencies.
\<close>

definition tree_init :: v2_tree where
  "tree_init = \<lparr>t_nodes = Map.empty, t_dependencies = [], t_closed = [], t_closed_nodes = 0\<rparr>"

text \<open>
  The steps, with the guards of ngx_http_v2_state_priority() and ngx_http_v2_state_headers(): an identifier is not 0, a
  node does not depend on itself, a weight is a byte and one, HEADERS opens a stream of which there are fewer
  than \<open>concurrent_streams\<close>, and only a stream that is open ends.
\<close>

definition open_streams :: "v2_tree \<Rightarrow> nat set" where
  "open_streams t = {x. tstream t x \<noteq> None}"

inductive node_step :: "nat \<Rightarrow> v2_tree \<Rightarrow> v2_tree \<Rightarrow> bool" for concurrent_streams where
  priority: "priority_node t sid depend e (unat (w :: u_char) + 1) = Some u \<Longrightarrow> sid \<noteq> 0 \<Longrightarrow> depend \<noteq> sid \<Longrightarrow>
    node_step concurrent_streams t u"
| headers: "headers_node t sid priority depend e weight stream = Some u \<Longrightarrow> sid \<noteq> 0 \<Longrightarrow> depend \<noteq> sid \<Longrightarrow>
    tstream t sid = None \<Longrightarrow> card (open_streams t) < concurrent_streams \<Longrightarrow>
    weight = (if priority then unat (w :: u_char) + 1 else 16) \<Longrightarrow> node_step concurrent_streams t u"
| close: "tstream t sid \<noteq> None \<Longrightarrow> node_step concurrent_streams t (close_node t sid)"

inductive nodes_reachable :: "nat \<Rightarrow> v2_tree \<Rightarrow> bool" for concurrent_streams where
  init: "nodes_reachable concurrent_streams tree_init"
| step: "nodes_reachable concurrent_streams t \<Longrightarrow> node_step concurrent_streams t u \<Longrightarrow>
    nodes_reachable concurrent_streams u"

lemma tree_init_inv: "tree_inv tree_init"
  by (auto simp: tree_init_def tree_inv_def ready_def shape_def dep_def kids_ok_def tpar_def mpar_def tdom_def
      kids_def there_def children_of_def split: v2_parent.split)

lemma byte_weight: "0 < unat w + 1 \<and> unat w + 1 \<le> 256" for w :: u_char
  using unat_byte_less [of w] by simp

lemma node_step_inv:
  assumes "node_step C t u" "tree_inv t"
  shows "tree_inv u"
  using assms
proof (induction rule: node_step.induct)
  case (priority t sid depend e w u)
  then show ?case using priority_node_ok [of t sid depend "unat w + 1" e] byte_weight [of w] by auto
next
  case (headers t sid priority depend e weight stream u w)
  then have "0 < weight \<and> weight \<le> 256" using byte_weight [of w] by simp
  with headers show ?case using headers_node_ok [of t sid depend weight priority e stream] by auto
next
  case (close t sid)
  then show ?case using close_node_ok by blast
qed

lemma nodes_reachable_inv: "nodes_reachable C t \<Longrightarrow> tree_inv t"
  by (induction rule: nodes_reachable.induct) (auto intro: tree_init_inv node_step_inv)

text \<open>
  C32. The dependencies of the streams of a connection are a tree in every reachable state: they have no cycle, every
  node has its parent, is in the queue of its parent's children, and has the rank of its parent and one.
\<close>

theorem ngx_http_v2_dependency_tree:
  assumes "nodes_reachable C t"
  shows "acyclic {(p, c). \<exists>n. t_nodes t c = Some n \<and> n_parent n = P_node p}
    \<and> (\<forall>c n. t_nodes t c = Some n \<longrightarrow>
        (case n_parent n of
           P_null \<Rightarrow> False
         | P_root \<Rightarrow> n_rank n = 1 \<and> c \<in> set (t_dependencies t)
         | P_node p \<Rightarrow> \<exists>m. t_nodes t p = Some m \<and> n_rank n = n_rank m + 1 \<and> c \<in> set (n_children m)))"
proof (intro conjI allI impI)
  note inv = nodes_reachable_inv [OF assms]
  note dp = tree_inv_dep [OF inv] and k = tree_inv_kids [OF inv]
  let ?r = "{(p, c). \<exists>n. t_nodes t c = Some n \<and> n_parent n = P_node p}"
  have "trank t p < trank t c" if "(p, c) \<in> ?r\<^sup>+" for p c
    using that
  proof (induction rule: trancl_induct)
    case (base c)
    then show ?case using dep_node [OF dp, of c p] by (auto simp: tpar_def mpar_def)
  next
    case (step c d)
    then show ?case using dep_node [OF dp, of d c] by (auto simp: tpar_def mpar_def)
  qed
  then show "acyclic ?r" by (auto simp: acyclic_def)
  fix c n assume n: "t_nodes t c = Some n"
  then have c: "c \<in> tdom t" "tpar t c = n_parent n" "trank t c = n_rank n"
    by (auto simp: tdom_def tpar_def mpar_def trank_def node_at_def)
  show "case n_parent n of
           P_null \<Rightarrow> False
         | P_root \<Rightarrow> n_rank n = 1 \<and> c \<in> set (t_dependencies t)
         | P_node p \<Rightarrow> \<exists>m. t_nodes t p = Some m \<and> n_rank n = n_rank m + 1 \<and> c \<in> set (n_children m)"
  proof (cases "n_parent n")
    case P_null
    then show ?thesis using tree_inv_par [OF inv c(1)] c(2) by simp
  next
    case P_root
    have "kids t P_root = t_dependencies t" by (simp add: kids_def there_def children_of_def)
    with P_root c show ?thesis using dep_root [OF dp, of c] kids_set [OF k, of P_root] by auto
  next
    case (P_node p)
    with c have pp: "tpar t c = P_node p" by simp
    with dep_node [OF dp pp] obtain m where m: "t_nodes t p = Some m" using tpar_dom [of t p] by (auto simp: tdom_def)
    then have "kids t (P_node p) = n_children m" by (auto simp: kids_def there_def tdom_def children_of_def node_at_def)
    moreover have "c \<in> set (kids t (P_node p))" using kids_set [OF k, of "P_node p"] pp by simp
    moreover have "trank t p = n_rank m" using m by (simp add: trank_def node_at_def)
    ultimately show ?thesis using P_node m dep_node [OF dp pp] c(3) by auto
  qed
qed

text \<open>
  C33. A PRIORITY frame for a stream in the tree is always carried out (the search among the ancestors, the use of a
  closed node again and the recursion over the subtree end without following NULL), and the new parents are those
  of RFC 7540: the node moves below the one it depends on, which first takes its place when it was below it, and an
  exclusive node takes over the other children.
\<close>

theorem ngx_http_v2_priority_correct:
  assumes "nodes_reachable C t" "t_nodes t sid \<noteq> None" "depend \<noteq> sid"
  shows "\<exists>u. priority_node t sid depend e (unat (w :: u_char) + 1) = Some u
    \<and> (\<forall>x. mpar (t_nodes u) x = depends sid (depend_on t depend) (depend_alone t depend e) (mpar (t_nodes t)) x)"
proof -
  note inv = nodes_reachable_inv [OF assms(1)]
  have x: "sid \<in> tdom t" using assms(2) by (auto simp: tdom_def)
  let ?v = "priority_reuse sid (node_upd sid (\<lambda>n. n\<lparr>n_weight := unat w + 1\<rparr>) t)"
  have "sid \<in> tdom ?v" using x by (simp add: priority_reuse_view v2_view)
  from dependency_inv [OF there_ready [OF inv x] _ this assms(3), where e = e] byte_weight [of w]
  obtain u where "ngx_http_v2_set_dependency ?v sid depend e = Some u"
    "tpar u = depends sid (depend_on ?v depend) (depend_alone ?v depend e) (tpar ?v)" by auto
  moreover have "tdom ?v = tdom t" "tpar ?v = tpar t" by (simp_all add: priority_reuse_view v2_view node_upd_weight)
  ultimately show ?thesis using get_node_by_id_there [OF x]
    by (simp add: priority_node_def depend_on_def depend_alone_def tpar_def)
qed

section \<open>The number of nodes\<close>

lemma open_streams_dom: "open_streams t \<subseteq> tdom t"
  unfolding open_streams_def by (rule subsetI, rule ccontr) (simp add: tstream_none)

lemma node_count:
  assumes inv: "tree_inv t"
  shows "card (tdom t) = card (open_streams t) + length (t_closed t)"
proof -
  have fin: "finite (tdom t)" using tree_inv_shape [OF inv] by (simp add: shape_def)
  have c: "set (t_closed t) = {x \<in> tdom t. tstream t x = None}" "distinct (t_closed t)"
    using inv by (simp_all add: tree_inv_def ready_def)
  have "tdom t = open_streams t \<union> set (t_closed t)" using open_streams_dom [of t] c(1) by (auto simp: open_streams_def)
  moreover have "open_streams t \<inter> set (t_closed t) = {}" by (auto simp: c(1) open_streams_def)
  ultimately have "card (tdom t) = card (open_streams t) + card (set (t_closed t))"
    using fin by (metis card_Un_disjoint finite_Un)
  then show ?thesis using distinct_card [OF c(2)] by simp
qed

lemma node_count_new:
  assumes inv: "tree_inv t" and n: "card (tdom t) \<le> C + 32" "card (open_streams t) \<le> C" "C \<le> 223" "t_closed_nodes t < 32"
  shows "card (tdom t) + 1 \<le> C + 32"
proof -
  have "length (t_closed t) < 256" using node_count [OF inv] n by linarith
  then have "unat (t_closed_nodes t) = length (t_closed t)"
    using inv by (simp add: tree_inv_def ready_def unat_of_nat)
  then have "length (t_closed t) < 32" using n(4) by (simp add: word_less_nat_alt)
  then show ?thesis using node_count [OF inv] n(2) by simp
qed

definition few_nodes :: "nat \<Rightarrow> v2_tree \<Rightarrow> bool" where
  "few_nodes C t \<longleftrightarrow> tree_inv t \<and> card (tdom t) \<le> C + 32 \<and> card (open_streams t) \<le> C"

lemma node_step_few:
  assumes "node_step C t u" "few_nodes C t" "C \<le> 223"
  shows "few_nodes C u"
proof -
  have inv: "tree_inv t" "tree_inv u" using assms node_step_inv by (auto simp: few_nodes_def)
  have grow: "n \<le> C + 32"
    if "n \<le> card (tdom t) + (if t_closed_nodes t < 32 then 1 else 0)" for n
    using that node_count_new [OF inv(1), of C] assms(2,3) by (auto simp: few_nodes_def split: if_splits)
  show ?thesis
    using assms(1)
  proof cases
    case (priority sid depend e w)
    then obtain v where "v = u" "tstream v = tstream t"
      "card (tdom v) \<le> card (tdom t) + (if t_closed_nodes t < 32 then 1 else 0)"
      using priority_node_ok [OF inv(1), of sid depend "unat w + 1" e] byte_weight [of w] by auto
    then show ?thesis using grow inv assms(2) by (simp add: few_nodes_def open_streams_def)
  next
    case (headers sid priority depend e weight stream w)
    then have "0 < weight \<and> weight \<le> 256" using byte_weight [of w] by simp
    with headers obtain v where v: "v = u" "tstream v = (tstream t)(sid := Some stream)"
      "card (tdom v) \<le> card (tdom t) + (if t_closed_nodes t < 32 then 1 else 0)"
      using headers_node_ok [OF inv(1), of sid depend weight priority e stream] by auto
    have "open_streams u = insert sid (open_streams t)" using v by (auto simp: open_streams_def)
    moreover have "card (insert sid (open_streams t)) \<le> Suc (card (open_streams t))" by (rule card_insert_le_m1) simp_all
    ultimately show ?thesis using grow inv v headers by (simp add: few_nodes_def)
  next
    case (close sid)
    with close_node_ok [OF inv(1), of sid] have c: "tdom u = tdom t" "tstream u = (tstream t)(sid := None)" by auto
    have "open_streams u \<subseteq> open_streams t" by (auto simp: open_streams_def c)
    moreover have "finite (open_streams t)"
      using finite_subset [OF open_streams_dom] tree_inv_shape [OF inv(1)] by (simp add: shape_def)
    ultimately have "card (open_streams u) \<le> card (open_streams t)" by (simp add: card_mono)
    with assms(2) inv c show ?thesis by (simp add: few_nodes_def)
  qed
qed

text \<open>
  C34. A client cannot make a connection keep more nodes than \<open>concurrent_streams + 32\<close>, whatever PRIORITY and HEADERS
  frames it sends, when \<open>concurrent_streams\<close> is at most 223.
\<close>

theorem ngx_http_v2_nodes_bounded:
  assumes "nodes_reachable C t" "C \<le> 223"
  shows "card {x. t_nodes t x \<noteq> None} \<le> C + 32"
proof -
  have "few_nodes C t"
    using assms(1)
  proof (induction rule: nodes_reachable.induct)
    case init
    have "tdom tree_init = {}" by (simp add: tree_init_def tdom_def)
    moreover from this have "open_streams tree_init = {}" using open_streams_dom by blast
    ultimately show ?case using tree_init_inv by (simp add: few_nodes_def)
  next
    case (step t u)
    then show ?case using node_step_few assms(2) by blast
  qed
  moreover have "tdom t = {x. t_nodes t x \<noteq> None}" by (auto simp: tdom_def)
  ultimately show ?thesis by (simp add: few_nodes_def)
qed

text \<open>With more, the count of 8 bits can be 0 while 256 closed nodes wait to be used again, and a node is allocated.\<close>

lemma ngx_http_v2_closed_nodes_wrap:
  assumes "tree_inv t" "length (t_closed t) = 256" "t_nodes t sid = None"
  shows "ngx_http_v2_get_node_by_id t sid = Some (fresh_node sid t)"
proof -
  have "t_closed_nodes t = 0" using assms(1,2) by (simp add: tree_inv_def ready_def)
  then show ?thesis using assms(3) by (simp add: ngx_http_v2_get_node_by_id_def fresh_node_def)
qed

section \<open>An example\<close>

text \<open>Stream 3, and stream 5 that depends on it.\<close>

definition ex_tree :: v2_tree where
  "ex_tree = \<lparr>t_nodes = [3 \<mapsto> \<lparr>n_parent = P_root, n_children = [5], n_rank = 1, n_weight = 16, n_stream = None\<rparr>,
      5 \<mapsto> \<lparr>n_parent = P_node 3, n_children = [], n_rank = 2, n_weight = 16, n_stream = None\<rparr>],
    t_dependencies = [3], t_closed = [5, 3], t_closed_nodes = 2\<rparr>"

lemmas node_eval = priority_node_def ngx_http_v2_get_node_by_id_def priority_reuse_def ngx_http_v2_set_dependency_def
  depend_parent_def insert_child_def take_children_def take_child_def reuse_last_def node_update_def tree_update_def
  node_upd_def children_upd_def children_of_def rank_of_def node_at_def new_node_def tree_init_def

lemma children_update_nil: "ngx_http_v2_node_children_update [] ns = Some ns"
  by (simp add: ngx_http_v2_node_children_update.simps)

lemma node_above_root: "node_above ns x P_root = Some False"
  by (simp add: node_above.simps)

lemma ex_tree_steps:
  "\<exists>t. priority_node tree_init 3 0 False 16 = Some t \<and> priority_node t 5 3 False 16 = Some ex_tree"
  by (simp add: node_eval children_update_nil node_above_root Let_def ex_tree_def fun_eq_iff)

lemma ex_tree_reachable: "nodes_reachable 100 ex_tree"
proof -
  obtain t where t: "priority_node tree_init 3 0 False 16 = Some t" "priority_node t 5 3 False 16 = Some ex_tree"
    using ex_tree_steps by blast
  have w: "unat (15 :: u_char) + 1 = 16" by simp
  have "node_step 100 tree_init t"
    using node_step.priority [where w = 15, unfolded w, OF t(1)] by simp
  moreover have "node_step 100 t ex_tree"
    using node_step.priority [where w = 15, unfolded w, OF t(2)] by simp
  ultimately show ?thesis by (blast intro: nodes_reachable.intros)
qed

lemma ngx_http_v2_dependency_tree_witness:
  "acyclic {(p, c). \<exists>n. t_nodes ex_tree c = Some n \<and> n_parent n = P_node p} \<and> n_parent (the (t_nodes ex_tree 5)) = P_node 3"
  using ngx_http_v2_dependency_tree [OF ex_tree_reachable] by (simp add: ex_tree_def)

lemma ngx_http_v2_priority_correct_witness:
  "\<exists>u. priority_node ex_tree 3 5 True 17 = Some u \<and> mpar (t_nodes u) 3 = P_node 5 \<and> mpar (t_nodes u) 5 = P_root"
proof -
  have w: "unat (16 :: u_char) + 1 = 17" by simp
  have n: "t_nodes ex_tree 3 \<noteq> None" by (simp add: ex_tree_def)
  have b: "5 \<in> bel (mpar (t_nodes ex_tree)) 3" by (rule bel_step [OF bel_refl]) (simp add: ex_tree_def mpar_def)
  have "depend_on ex_tree 5 = P_node 5" by (auto simp: depend_on_def tdom_def ex_tree_def)
  with b have "depends 3 (depend_on ex_tree 5) a (mpar (t_nodes ex_tree)) 3 = P_node 5"
    "depends 3 (depend_on ex_tree 5) a (mpar (t_nodes ex_tree)) 5 = P_root" for a
    by (simp_all add: depends_def reparent_def) (simp_all add: ex_tree_def mpar_def)
  with ngx_http_v2_priority_correct [OF ex_tree_reachable n, of 5 True 16, unfolded w] show ?thesis by auto
qed

lemma ngx_http_v2_nodes_bounded_witness: "card {x. t_nodes ex_tree x \<noteq> None} \<le> 100 + 32"
  using ngx_http_v2_nodes_bounded [OF ex_tree_reachable] by simp

end
