(* ===== verification/Spec2Isabelle.thy ===== *)
theory Spec2Isabelle
  imports Http_Args
    Http_Chunked
    Http_Chunked_Props
    Http_Header_Line
    Http_Range
    Http_Range_Body
    Http_Request
    Http_Request_Headers
    Http_Request_Line
    Http_Request_Line_Accept
    Http_Request_Line_Clean
    Http_Request_Line_Props
    Http_Request_Uri
    Http_Status
    Http_Uri
    Ngx_Base64
    Ngx_Crc32
    Ngx_Escape
    Ngx_Num
    Ngx_Printf
    Ngx_Rwlock
    Ngx_Strings
    Ngx_Utf8
    Prelude
    Upstream_RR
    Upstream_RR_Fair
    V2_Header_Block
    V2_Header_Block_Decode
    V2_Header_Block_Resume
    V2_Header_Block_Safe
    V2_Huff
    V2_Huff_Decode
    V2_Huff_Encode
    V2_Huff_Tables
    V2_Int
    V2_Priority
    V2_Priority_Props
    V2_Priority_Safe
    V2_Priority_Tree
    V2_Request
    V2_Request_Props
    V2_Table
    V2_Table_Refines
begin

text \<open>
  A verification library for the program of this repository: the server under
  src/nginx/nginx-release-1.13.1/src/, whose paths are given below without that prefix, and the
  connection pool in C++ beside it. The definitions are translations of the C code; the theorems
  marked with a number are properties of that code, in the order of their importance.

  \<^bold>\<open>The program and its parts.\<close> A worker process reads bytes from connections, parses
  requests, bodies and upstream answers incrementally (NGX_AGAIN means that more bytes are needed),
  normalises URIs, chooses an upstream server and sends responses through a chain of filters. The
  parsers and filters keep their state in the request or in a context of their own; the balancer
  and the locks keep theirs in memory that requests, or processes, share. A request arrives either
  as HTTP/1 text or as the header block of an HTTP/2 connection, whose fields are turned into the
  same request; both ways end in the same header handlers and the same URI normalisation. These are the parts
  with logic of their own, and the ones modelled here; the rest passes data between them and the
  system.

  \<^bold>\<open>Theories and code.\<close>
  \<^item> Prelude: bytes (\<open>u_char\<close> is an 8-bit word), character classes, values of digit strings,
    byte tables, and the two interfaces the parsers share: the locale \<open>byte_machine\<close> (an
    automaton fed with bytes, an invariant of its states and a property of its results) and the
    locale \<open>codec\<close>.
  \<^item> Ngx_Num, Ngx_Printf, Ngx_Base64, Ngx_Escape, Ngx_Strings, Ngx_Utf8: core/ngx_string.c. A
    pointer and its length are a byte list; where a C string ends with a NUL the end of the list
    stands for it; a function that writes to a buffer returns the bytes it wrote, and the
    bounds of its writing are theorems. A double, which only %f of the formatter has, is a
    rational number, and each operation on doubles rounds to 53 bits.
  \<^item> Ngx_Crc32: core/ngx_crc32.c and core/ngx_crc32.h. Ngx_Rwlock: core/ngx_rwlock.c.
  \<^item> Http_Request_Line with _Props, _Clean and _Accept, Http_Header_Line, Http_Uri, Http_Status,
    Http_Args: http/ngx_http_parse.c. Each \<open>switch (state)\<close> is a datatype of states and a step
    function of one byte, the members of ngx_http_request_t that the parser writes are a record,
    pointers into the buffer are offsets.
  \<^item> Http_Request_Uri, Http_Request_Headers, Http_Request: http/ngx_http_request.c. The URI of a
    request line and what becomes of it (ngx_http_process_request_uri), the host
    (ngx_http_validate_host), the table of header handlers (ngx_http_headers_in) and the checks that
    end in ngx_http_process_request_header; the request is a record and a handler returns the new
    request or the status it finalises the request with.
  \<^item> V2_Table, V2_Table_Refines: http/v2/ngx_http_v2_table.c, the static table and the ring of
    storage for the dynamic one, with its eviction and its growth; the refinement says that the
    ring, whose entries may wrap around its end, is the list of fields that HPACK describes.
  \<^item> V2_Huff_Tables, V2_Huff, V2_Huff_Decode, V2_Huff_Encode: http/v2/ngx_http_v2_huff_decode.c and
    http/v2/ngx_http_v2_huff_encode.c, whose tables are written out as data.
  \<^item> V2_Int: the integers of HPACK (ngx_http_v2_parse_int in http/v2/ngx_http_v2.c and the macro of
    the writing side).
  \<^item> V2_Request, V2_Request_Props: the fields of a header block on their way into a request
    (validation, pseudo headers, cookies, the request line made for the other modules), in
    http/v2/ngx_http_v2.c.
  \<^item> V2_Header_Block with _Resume, _Safe and _Decode: the state machine that reads a header block
    from the receive buffer, ngx_http_v2_state_header_block to ngx_http_v2_state_header_complete and
    ngx_http_v2_handle_continuation. A handler is a value of the datatype \<open>v2_handler\<close>, as the code
    stores it in \<open>h2c->state.handler\<close>; the loop of ngx_http_v2_read_handler is a partial function, and
    that it returns is a theorem.
  \<^item> V2_Priority with _Tree, _Safe and _Props: the dependencies of streams in http/v2/ngx_http_v2.c,
    ngx_http_v2_set_dependency and the functions around it. A connection's nodes are a map from stream
    identifiers, with the queues of children and of closed nodes as lists; an operation that would follow
    a NULL pointer or not end has no result, and that every operation has one is a theorem.
  \<^item> Http_Chunked, Http_Chunked_Props: ngx_http_parse_chunked and the body filters of
    http/ngx_http_request_body.c.
  \<^item> Http_Range, Http_Range_Body: http/modules/ngx_http_range_filter_module.c.
  \<^item> Upstream_RR, Upstream_RR_Fair: http/ngx_http_upstream_round_robin.c.

  \<^bold>\<open>What the lemmas show.\<close> For the parsers: whatever bytes arrive, indices and pointers stay
  in bounds and ordered (the _safe and _ptrs theorems); a well-formed input is accepted with
  exactly its parts (_accepts); cutting the input into buffers makes no difference (_resume,
  _bytewise); what is accepted without further treatment is harmless (_clean, _no_dot_segment,
  unsafe_uri_safe). For the codecs: decoding inverts encoding, and lengths computed for an
  allocation are the lengths written. For the balancer: the choice, its fairness over a round
  and the bounds of the weights. For HTTP/2: the header block machine returns on every buffer,
  keeps its state well formed, does not care how the stream is cut into buffers, and decodes what
  an encoder wrote; what it hands over can be written as a request of HTTP/1. The
  dependencies of its streams stay a tree, with the parents that RFC 7540 says. For the lock: mutual exclusion in every interleaving.
  Some lemmas show what the code does where it does not do what it means to; they are the
  findings of the manifest.

  \<^bold>\<open>Bounds, fuel and arithmetic.\<close> No definition uses fuel: loops over input are structural
  recursion or have a measure, or, for the loop over handlers of HTTP/2, a partial function with a
  theorem that it returns. Words have the width of the C type where it wraps (hashes,
  bitmaps, check sums, lock words); sizes and times are integers where a theorem bounds
  them, or where the code compares before it computes. The platform is a 64-bit one:
  \<open>off_t\<close>, \<open>time_t\<close>, \<open>size_t\<close> and \<open>ngx_int_t\<close> have 64 bits.

  \<^bold>\<open>Not modelled.\<close> Memory allocation is taken to succeed. System calls, the event loop, TLS,
  configuration, logging and the modules that only read variables and write headers are not
  modelled: their behaviour is that of the operating system and of third-party libraries, or
  pure glue. The components list of the manifest names each part.
\<close>

end
